(* ===== verification/Prelude.thy ===== *)
theory Prelude
  imports Main "HOL-Library.AList" "HOL-Library.List_Lexorder" "HOL-Library.Char_ord"
    "HOL-Library.Product_Lexorder"
begin

text \<open>
  What every component of the development shares: Python exceptions as values, results and
  state-passing outcomes, dictionaries in insertion order, aware and naive datetimes, and the
  generic lemmas on them.

  \<^item> A function that may raise returns \<open>'a result\<close>, that is \<open>py_error + 'a\<close>; a method that
    also changes the object returns \<open>'a result \<times> 'state\<close>, so that a method which first writes
    and then raises (the code has some) is a pair of an error and a changed state.
  \<^item> A \<open>dict\<close> is an association list in insertion order; \<open>dput\<close> keeps the position of a key
    that is already there, as Python does. A \<open>frozenset\<close> is a HOL set.
  \<^item> A \<open>datetime\<close> is a number of microseconds with the information whether it is aware; to
    order an aware and a naive one is a \<open>TypeError\<close>. Components whose sources only see aware
    instants use \<open>instant\<close>.
  \<^item> Python's \<open>sorted(xs, key=f)\<close> is stable and so is \<open>sort_key f xs\<close>; \<open>str\<close> values are
    compared lexicographically (\<open>List_Lexorder\<close>) and tuples component-wise
    (\<open>Product_Lexorder\<close>).
\<close>

named_theorems outcome_simps \<open>equations of results and outcomes\<close>
named_theorems dict_simps \<open>lookup after update in a dictionary\<close>

section \<open>Exceptions as values\<close>

datatype py_error =
    ValueError string
  | PermissionError string
  | KeyError string
  | RuntimeError string
  | TypeError string
  | LookupError string
  | ConnectionError string
  | OSError string
  | IndexError
  | ZeroDivisionError
  | OverflowError string
  | InvalidOperation
  | StopIteration

type_synonym 'a result = "py_error + 'a"

fun rbind :: "'a result \<Rightarrow> ('a \<Rightarrow> 'b result) \<Rightarrow> 'b result" where
  "rbind (Inl e) k = Inl e"
| "rbind (Inr x) k = k x"

fun rmap_list :: "('a \<Rightarrow> 'b result) \<Rightarrow> 'a list \<Rightarrow> 'b list result" where
  "rmap_list f [] = Inr []"
| "rmap_list f (x # xs) = rbind (f x) (\<lambda>y. rbind (rmap_list f xs) (\<lambda>ys. Inr (y # ys)))"

definition is_ok :: "'a result \<Rightarrow> bool" where
  "is_ok r = (case r of Inl e \<Rightarrow> False | Inr x \<Rightarrow> True)"

lemma is_ok_simps [simp, outcome_simps]: "is_ok (Inr x)" "\<not> is_ok (Inl e)"
  by (simp_all add: is_ok_def)

lemma is_ok_iff: "is_ok r \<longleftrightarrow> (\<exists>x. r = Inr x)"
  by (cases r) auto

lemma rbind_eq_Inr [outcome_simps]: "rbind r k = Inr y \<longleftrightarrow> (\<exists>x. r = Inr x \<and> k x = Inr y)"
  by (cases r) auto

lemma rbind_eq_Inl [outcome_simps]:
  "rbind r k = Inl e \<longleftrightarrow> r = Inl e \<or> (\<exists>x. r = Inr x \<and> k x = Inl e)"
  by (cases r) auto

lemma rmap_list_length: "rmap_list f xs = Inr ys \<Longrightarrow> length ys = length xs"
  by (induction xs arbitrary: ys) (auto simp: outcome_simps)

lemma rmap_list_nth:
  "rmap_list f xs = Inr ys \<Longrightarrow> i < length xs \<Longrightarrow> f (xs ! i) = Inr (ys ! i)"
proof (induction xs arbitrary: ys i)
  case (Cons x xs)
  then show ?case by (cases i) (auto simp: outcome_simps)
qed simp

lemma rmap_list_set:
  "rmap_list f xs = Inr ys \<Longrightarrow> y \<in> set ys \<Longrightarrow> \<exists>x\<in>set xs. f x = Inr y"
  by (induction xs arbitrary: ys) (auto simp: outcome_simps)

lemma rmap_list_mem:
  "rmap_list f xs = Inr ys \<Longrightarrow> x \<in> set xs \<Longrightarrow> \<exists>y\<in>set ys. f x = Inr y"
  by (induction xs arbitrary: ys) (auto simp: outcome_simps)

lemma rmap_list_ok: "(\<And>x. x \<in> set xs \<Longrightarrow> f x = Inr (g x)) \<Longrightarrow> rmap_list f xs = Inr (map g xs)"
  by (induction xs) auto

lemma rmap_list_map_id: "(\<And>x. x \<in> set xs \<Longrightarrow> f (g x) = Inr x) \<Longrightarrow> rmap_list f (map g xs) = Inr xs"
  by (induction xs) auto

section \<open>Dictionaries in insertion order\<close>

type_synonym ('k, 'v) dict = "('k \<times> 'v) list"

abbreviation dget :: "('k, 'v) dict \<Rightarrow> 'k \<Rightarrow> 'v option" where
  "dget \<equiv> map_of"

abbreviation dput :: "'k \<Rightarrow> 'v \<Rightarrow> ('k, 'v) dict \<Rightarrow> ('k, 'v) dict" where
  "dput \<equiv> AList.update"

abbreviation dvalues :: "('k, 'v) dict \<Rightarrow> 'v list" where
  "dvalues \<equiv> map snd"

abbreviation dkeys :: "('k, 'v) dict \<Rightarrow> 'k list" where
  "dkeys \<equiv> map fst"

definition dict_of :: "('k \<times> 'v) list \<Rightarrow> ('k, 'v) dict" where
  \<comment> \<open>a dict comprehension: later entries win, the first position stays\<close>
  "dict_of kvs = fold (\<lambda>(k, v) d. dput k v d) kvs []"

definition dget_or :: "('k, 'v) dict \<Rightarrow> 'k \<Rightarrow> 'v \<Rightarrow> 'v" where
  "dget_or d k v = (case dget d k of None \<Rightarrow> v | Some x \<Rightarrow> x)"

lemma dget_dput [simp, dict_simps]: "dget (dput k v d) k' = (if k' = k then Some v else dget d k')"
  by (simp add: update_conv')

lemma dput_distinct [simp]: "distinct (dkeys d) \<Longrightarrow> distinct (dkeys (dput k v d))"
  by (rule distinct_update)

lemma dput_keys [simp]: "set (dkeys (dput k v d)) = insert k (set (dkeys d))"
  by (induction d) auto

lemma dput_keys_image [simp]: "fst ` set (dput k v d) = insert k (fst ` set d)"
  using dput_keys [of k v d] by simp

lemma dput_entries: "(k', x) \<in> set (dput k v d) \<Longrightarrow> (k' = k \<and> x = v) \<or> (k', x) \<in> set d"
  by (induction d) (auto split: if_splits)

lemma dput_fresh: "k \<notin> set (dkeys d) \<Longrightarrow> dput k v d = d @ [(k, v)]"
  by (induction d) auto

lemma dget_None_keys: "dget d k = None \<longleftrightarrow> k \<notin> set (dkeys d)"
  by (simp add: map_of_eq_None_iff)

lemma dget_entry: "dget d k = Some v \<Longrightarrow> (k, v) \<in> set d"
  by (rule map_of_SomeD)

lemma dget_distinct_iff: "distinct (dkeys d) \<Longrightarrow> (k, v) \<in> set d \<longleftrightarrow> dget d k = Some v"
  by (auto dest: map_of_SomeD)

lemma dget_dict_of_aux:
  "dget (fold (\<lambda>(k, v) d. dput k v d) kvs d) k =
     (case dget (rev kvs) k of None \<Rightarrow> dget d k | Some v \<Rightarrow> Some v)"
proof (induction kvs arbitrary: d)
  case (Cons kv kvs)
  then show ?case by (cases kv) (auto simp: map_add_Some_iff map_add_def split: option.splits)
qed simp

lemma dget_dict_of: "dget (dict_of kvs) k = dget (rev kvs) k"
  by (simp add: dict_of_def dget_dict_of_aux split: option.splits)

lemma dict_of_distinct_aux:
  "distinct (dkeys d) \<Longrightarrow> distinct (dkeys (fold (\<lambda>(k, v) d. dput k v d) kvs d))"
  by (induction kvs arbitrary: d) (auto simp del: dget_dput split: prod.splits)

lemma dict_of_distinct [simp]: "distinct (dkeys (dict_of kvs))"
  by (simp add: dict_of_def dict_of_distinct_aux)

lemma dict_of_keys_aux:
  "set (dkeys (fold (\<lambda>(k, v) d. dput k v d) kvs d)) = set (dkeys d) \<union> set (dkeys kvs)"
proof (induction kvs arbitrary: d)
  case (Cons kv kvs)
  then show ?case by (cases kv) auto
qed simp

lemma dict_of_keys [simp]: "set (dkeys (dict_of kvs)) = set (dkeys kvs)"
  unfolding dict_of_def dict_of_keys_aux by simp

lemma dict_of_keys_image [simp]: "fst ` set (dict_of kvs) = fst ` set kvs"
  using dict_of_keys [of kvs] by simp

lemma dict_of_distinct_id_aux:
  "distinct (dkeys (d @ kvs)) \<Longrightarrow> fold (\<lambda>(k, v) d. dput k v d) kvs d = d @ kvs"
proof (induction kvs arbitrary: d)
  case (Cons kv kvs)
  obtain k v where kv: "kv = (k, v)" by (cases kv)
  have "k \<notin> set (dkeys d)" using Cons.prems kv by auto
  then have "dput k v d = d @ [(k, v)]" by (rule dput_fresh)
  with Cons kv show ?case by simp
qed simp

lemma dict_of_distinct_id: "distinct (dkeys kvs) \<Longrightarrow> dict_of kvs = kvs"
  by (simp add: dict_of_def dict_of_distinct_id_aux)

lemma map_le_SomeD: "f \<subseteq>\<^sub>m g \<Longrightarrow> f k = Some v \<Longrightarrow> g k = Some v"
  by (auto simp: map_le_def dom_def)

section \<open>Time\<close>

type_synonym instant = int   \<comment> \<open>microseconds since the epoch, UTC\<close>
type_synonym timedelta = int \<comment> \<open>microseconds\<close>

datatype datetime = Aware instant | Naive int

definition seconds :: "int \<Rightarrow> timedelta" where
  "seconds n = n * 1000000"

definition mixed_comparison :: py_error where
  "mixed_comparison = TypeError ''can't compare offset-naive and offset-aware datetimes''"

fun is_aware :: "datetime \<Rightarrow> bool" where
  "is_aware (Aware t) = True"
| "is_aware (Naive t) = False"

fun dt_sub :: "datetime \<Rightarrow> datetime \<Rightarrow> timedelta result" where
  "dt_sub (Aware a) (Aware b) = Inr (a - b)"
| "dt_sub (Naive a) (Naive b) = Inr (a - b)"
| "dt_sub _ _ = Inl mixed_comparison"

definition dt_ge :: "datetime \<Rightarrow> datetime \<Rightarrow> bool result" where
  "dt_ge a b = rbind (dt_sub a b) (\<lambda>d. Inr (d \<ge> 0))"

definition dt_gt :: "datetime \<Rightarrow> datetime \<Rightarrow> bool result" where
  "dt_gt a b = rbind (dt_sub a b) (\<lambda>d. Inr (d > 0))"

fun dt_add :: "datetime \<Rightarrow> timedelta \<Rightarrow> datetime" where
  "dt_add (Aware a) d = Aware (a + d)"
| "dt_add (Naive a) d = Naive (a + d)"

lemma dt_ge_aware [simp]: "dt_ge (Aware a) (Aware b) = Inr (a \<ge> b)"
  by (simp add: dt_ge_def)

lemma dt_gt_aware [simp]: "dt_gt (Aware a) (Aware b) = Inr (a > b)"
  by (simp add: dt_gt_def)

lemma dt_ge_aware_of: "is_aware b \<Longrightarrow> dt_ge a b = Inr x \<Longrightarrow> is_aware a"
  by (cases a; cases b) (auto simp: dt_ge_def)

section \<open>Lists\<close>

definition dt_lt :: "datetime \<Rightarrow> datetime \<Rightarrow> bool result" where
  "dt_lt a b = dt_gt b a"

fun dt_value :: "datetime \<Rightarrow> int" where
  "dt_value (Aware t) = t"
| "dt_value (Naive t) = t"

lemma dt_lt_ge: "dt_lt a b = Inr c \<longleftrightarrow> dt_ge a b = Inr (\<not> c)"
  by (cases a; cases b) (auto simp: dt_lt_def dt_ge_def dt_gt_def)

section \<open>Python's sequences and loops\<close>

definition key_of :: "('k, 'v) dict \<Rightarrow> ('k \<Rightarrow> string) \<Rightarrow> 'k \<Rightarrow> 'v result" where
  \<comment> \<open>\<open>d[k]\<close>\<close>
  "key_of d show_key k = (case dget d k of Some v \<Rightarrow> Inr v | None \<Rightarrow> Inl (KeyError (show_key k)))"

definition py_nth :: "'a list \<Rightarrow> int \<Rightarrow> 'a result" where
  \<comment> \<open>\<open>xs[i]\<close>: a negative index counts from the end\<close>
  "py_nth xs i =
     (if 0 \<le> i \<and> i < int (length xs) then Inr (xs ! nat i)
      else if - int (length xs) \<le> i \<and> i < 0 then Inr (xs ! nat (int (length xs) + i))
      else Inl IndexError)"

definition py_take :: "int \<Rightarrow> 'a list \<Rightarrow> 'a list" where
  \<comment> \<open>\<open>xs[:n]\<close>\<close>
  "py_take n xs = (if 0 \<le> n then take (nat n) xs else take (nat (int (length xs) + n)) xs)"

fun rfilter :: "('a \<Rightarrow> bool result) \<Rightarrow> 'a list \<Rightarrow> 'a list result" where
  "rfilter p [] = Inr []"
| "rfilter p (x # xs) = rbind (p x) (\<lambda>b. rbind (rfilter p xs) (\<lambda>ys. Inr (if b then x # ys else ys)))"

fun any_result :: "('a \<Rightarrow> bool result) \<Rightarrow> 'a list \<Rightarrow> bool result" where
  \<comment> \<open>\<open>any(...)\<close> over a generator stops at the first true item\<close>
  "any_result p [] = Inr False"
| "any_result p (x # xs) = rbind (p x) (\<lambda>b. if b then Inr True else any_result p xs)"

fun rfold :: "('a \<Rightarrow> 's \<Rightarrow> 's result) \<Rightarrow> 'a list \<Rightarrow> 's \<Rightarrow> 's result" where
  "rfold f [] s = Inr s"
| "rfold f (x # xs) s = rbind (f x s) (rfold f xs)"

fun first_max :: "('a \<Rightarrow> 'b :: linorder) \<Rightarrow> 'a \<Rightarrow> 'a list \<Rightarrow> 'a" where
  \<comment> \<open>\<open>max(xs, key=f)\<close> returns the first maximal element\<close>
  "first_max f best [] = best"
| "first_max f best (x # xs) = first_max f (if f x > f best then x else best) xs"

lemma first_max_in: "first_max f best xs \<in> set (best # xs)"
  by (induction xs arbitrary: best) (auto split: if_splits)

lemma first_max_ge: "x \<in> set (best # xs) \<Longrightarrow> f x \<le> f (first_max f best xs)"
proof (induction xs arbitrary: best x)
  case (Cons y ys)
  have "f x \<le> f (if f y > f best then y else best) \<or> x \<in> set ys" using Cons.prems by auto
  moreover have "f (if f y > f best then y else best) \<le> f (first_max f (if f y > f best then y else best) ys)"
    by (rule Cons.IH) simp
  ultimately show ?case using Cons.IH [of x "if f y > f best then y else best"] by auto
qed simp

lemma rfilter_ok: "rfilter p xs = Inr ys \<Longrightarrow> ys = filter (\<lambda>x. p x = Inr True) xs"
proof (induction xs arbitrary: ys)
  case (Cons x xs)
  then show ?case by (auto simp: rbind_eq_Inr)
qed simp

lemma rfilter_total: "(\<And>x. x \<in> set xs \<Longrightarrow> is_ok (p x)) \<Longrightarrow> \<exists>ys. rfilter p xs = Inr ys"
proof (induction xs)
  case (Cons x xs)
  from Cons.prems [of x] obtain b where "p x = Inr b" by (auto simp: is_ok_iff)
  moreover from Cons have "\<exists>ys. rfilter p xs = Inr ys" by auto
  ultimately show ?case by auto
qed simp

lemma distinct_map_filter_intro [intro]: "distinct (map f xs) \<Longrightarrow> distinct (map f (filter P xs))"
  by (induction xs) auto

lemma sum_list_filter_nonneg:
  fixes f :: "'a \<Rightarrow> int"
  assumes "\<And>x. x \<in> set xs \<Longrightarrow> 0 \<le> f x"
  shows "sum_list (map f (filter P xs)) \<le> sum_list (map f xs)"
  using assms by (induction xs) (auto simp: add_increasing)

lemma length_filter_distinct_card:
  "distinct xs \<Longrightarrow> length (filter P xs) = card {x \<in> set xs. P x}"
  by (metis distinct_card distinct_filter set_filter)

section \<open>Components as transition systems\<close>

text \<open>
  The contract of a component with state: a start state, a step relation with one rule per
  operation, and an invariant. Every component with an object state interprets it on its own
  step relation and gets the invariant in every reachable state.
\<close>

locale safe_system =
  fixes init :: 's
    and step :: "'s \<Rightarrow> 's \<Rightarrow> bool"
    and inv :: "'s \<Rightarrow> bool"
  assumes inv_init: "inv init"
    and inv_step: "step s t \<Longrightarrow> inv s \<Longrightarrow> inv t"
begin

lemma inv_steps: "step\<^sup>*\<^sup>* s t \<Longrightarrow> inv s \<Longrightarrow> inv t"
  by (induction rule: rtranclp_induct) (auto intro: inv_step)

lemma inv_reachable: "step\<^sup>*\<^sup>* init s \<Longrightarrow> inv s"
  using inv_steps inv_init by blast

end

end
