(* ===== verification/Persistence.thy ===== *)
theory Persistence
  imports Prelude "HOL-Library.Sublist"
begin

text \<open>
  The transaction bracket of \<open>packages/persistence/postgres.py\<close> and the checksum-locked
  migrations that it applies.

  \<open>PostgresRuntime.tenant_connection\<close> opens a pooled psycopg connection for the body of a
  \<open>with\<close> statement. What the pool does when the body leaves is psycopg's, not the repository's:
  it is the parameter \<open>pool_exit\<close>, called with whether the body raised, the database before
  and the database the body left behind. \<open>pool_contract\<close> states psycopg's documented behaviour:
  commit on a normal exit, roll back on an exception. Each \<open>with\<close> block is one atomic step.
\<close>

section \<open>Tenant connections\<close>

type_synonym 'db pool_exit = "bool \<Rightarrow> 'db \<Rightarrow> 'db \<Rightarrow> 'db"

definition pool_contract :: "'db pool_exit \<Rightarrow> bool" where
  "pool_contract pool_exit \<longleftrightarrow>
     (\<forall>before after. pool_exit False before after = after \<and> pool_exit True before after = before)"

definition commit_or_rollback :: "'db pool_exit" where
  \<comment> \<open>the instance with which the contract is met\<close>
  "commit_or_rollback raised before after = (if raised then before else after)"

definition connection :: "'db pool_exit \<Rightarrow> 'db \<Rightarrow> ('db \<Rightarrow> 'a result \<times> 'db) \<Rightarrow> 'a result \<times> 'db" where
  "connection pool_exit db body =
     (case body db of
        (Inl e, db') \<Rightarrow> (Inl e, pool_exit True db db')
      | (Inr v, db') \<Rightarrow> (Inr v, pool_exit False db db'))"

definition tenant_connection ::
  "'db pool_exit \<Rightarrow> string \<Rightarrow> 'db \<Rightarrow> ('db \<Rightarrow> 'a result \<times> 'db) \<Rightarrow> 'a result \<times> 'db" where
  "tenant_connection pool_exit tenant_id db body =
     (if tenant_id = [] \<or> CHR 0x00 \<in> set tenant_id
      then (Inl (ValueError ''invalid tenant ID''), db)
      else connection pool_exit db body)"

definition valid_tenant :: "string \<Rightarrow> bool" where
  "valid_tenant t \<longleftrightarrow> t \<noteq> [] \<and> CHR 0x00 \<notin> set t"

lemma commit_or_rollback_contract [simp]: "pool_contract commit_or_rollback"
  by (simp add: pool_contract_def commit_or_rollback_def)

lemma connection_rollback:
  "pool_contract px \<Longrightarrow> connection px db body = (Inl e, db') \<Longrightarrow> db' = db"
  by (auto simp: connection_def pool_contract_def split: prod.splits sum.splits)

lemma tenant_connection_rollback:
  "pool_contract px \<Longrightarrow> tenant_connection px t db body = (Inl e, db') \<Longrightarrow> db' = db"
  by (auto simp: tenant_connection_def split: if_splits dest: connection_rollback)

lemma tenant_connection_commit:
  "pool_contract px \<Longrightarrow> tenant_connection px t db body = (Inr v, db') \<longleftrightarrow>
     valid_tenant t \<and> body db = (Inr v, db')"
  by (auto simp: tenant_connection_def connection_def pool_contract_def valid_tenant_def
      split: prod.splits sum.splits)

lemma tenant_connection_fst:
  "valid_tenant t \<Longrightarrow> fst (tenant_connection px t db body) = fst (body db)"
  by (auto simp: tenant_connection_def connection_def valid_tenant_def split: prod.splits sum.splits)

lemma tenant_connection_eq:
  "pool_contract px \<Longrightarrow> valid_tenant t \<Longrightarrow>
     tenant_connection px t db body =
       (case body db of (Inl e, db') \<Rightarrow> (Inl e, db) | (Inr v, db') \<Rightarrow> (Inr v, db'))"
  by (auto simp: tenant_connection_def connection_def pool_contract_def valid_tenant_def
      split: prod.splits sum.splits)

text \<open>Components on PostgreSQL rely on the contract and on nothing else of the pool.\<close>

locale psycopg =
  fixes px :: "'db pool_exit"
  assumes contract: "pool_contract px"
begin

lemmas tenant_connection_step = tenant_connection_eq [OF contract]

end

interpretation default_pool: psycopg commit_or_rollback
  by unfold_locales simp

section \<open>Migrations\<close>

text \<open>
  \<open>PostgresRuntime.migrate\<close>. A candidate is a migration file: its name and its SQL text. The
  checksum (SHA-256 of the text) and the execution of the SQL text by the server are
  parameters. The database is the table \<open>schema_migrations\<close> and the schema the SQL acts on.
\<close>

record 'schema migration_db =
  schema_migrations :: "(int, string) dict"
  schema :: 'schema

definition py_isdigit :: "string \<Rightarrow> bool" where
  \<comment> \<open>\<open>str.isdigit\<close> on ASCII\<close>
  "py_isdigit s \<longleftrightarrow> s \<noteq> [] \<and> (\<forall>c \<in> set s. CHR ''0'' \<le> c \<and> c \<le> CHR ''9'')"

definition int_of_digits :: "string \<Rightarrow> int" where
  "int_of_digits s = foldl (\<lambda>n c. 10 * n + (int (of_char c) - 48)) 0 s"

definition name_prefix :: "string \<Rightarrow> string" where
  \<comment> \<open>\<open>name.split("_", 1)[0]\<close>\<close>
  "name_prefix name = takeWhile (\<lambda>c. c \<noteq> CHR ''_'') name"

fun apply_candidates ::
  "(string \<Rightarrow> string) \<Rightarrow> (string \<Rightarrow> 's \<Rightarrow> 's result) \<Rightarrow> (int, string) dict \<Rightarrow>
   (string \<times> string) list \<Rightarrow> 's migration_db \<Rightarrow> int list \<Rightarrow> int list result \<times> 's migration_db" where
  "apply_candidates sha256 run_sql existing [] db applied = (Inr applied, db)"
| "apply_candidates sha256 run_sql existing ((name, sql) # rest) db applied =
     (let prefix = name_prefix name in
      if \<not> py_isdigit prefix
      then (Inl (RuntimeError (''migration filename must start with a number: '' @ name)), db)
      else let version = int_of_digits prefix; checksum = sha256 sql in
        case dget existing version of
          Some old \<Rightarrow>
            (if old \<noteq> checksum
             then (Inl (RuntimeError (''applied migration checksum changed: '' @ name)), db)
             else apply_candidates sha256 run_sql existing rest db applied)
        | None \<Rightarrow>
            (case run_sql sql (schema db) of
               Inl e \<Rightarrow> (Inl e, db)
             | Inr s' \<Rightarrow>
                 if dget (schema_migrations db) version \<noteq> None
                 then (Inl (RuntimeError ''duplicate key value violates unique constraint''), db)
                 else apply_candidates sha256 run_sql existing rest
                   (db\<lparr>schema := s',
                       schema_migrations := dput version checksum (schema_migrations db)\<rparr>)
                   (applied @ [version])))"

definition migrate ::
  "'s migration_db pool_exit \<Rightarrow> (string \<Rightarrow> string) \<Rightarrow> (string \<Rightarrow> 's \<Rightarrow> 's result) \<Rightarrow>
   (string \<times> string) list \<Rightarrow> 's migration_db \<Rightarrow> int list result \<times> 's migration_db" where
  "migrate pool_exit sha256 run_sql files db =
     (let candidates = sort_key fst (filter (\<lambda>(name, sql). suffix ''.sql'' name) files) in
      connection pool_exit db
        (\<lambda>db. apply_candidates sha256 run_sql (schema_migrations db) candidates db []))"

lemma apply_candidates_recorded:
  assumes "apply_candidates sha run existing cs db applied = (Inr a, db')"
    and "dget existing \<subseteq>\<^sub>m dget (schema_migrations db)"
  shows "dget (schema_migrations db) \<subseteq>\<^sub>m dget (schema_migrations db') \<and>
    (\<forall>(name, sql) \<in> set cs. py_isdigit (name_prefix name) \<and>
       dget (schema_migrations db') (int_of_digits (name_prefix name)) = Some (sha sql))"
  using assms
proof (induction cs arbitrary: db applied)
  case (Cons c rest)
  obtain name sql where c: "c = (name, sql)" by (cases c)
  define v where "v = int_of_digits (name_prefix name)"
  have digit: "py_isdigit (name_prefix name)"
    using Cons.prems(1) by (auto simp: Let_def c split: if_splits)
  show ?case
  proof (cases "dget existing v")
    case (Some old)
    with Cons.prems digit have same: "old = sha sql"
      and run: "apply_candidates sha run existing rest db applied = (Inr a, db')"
      by (auto simp: Let_def v_def c split: if_splits)
    have IH: "dget (schema_migrations db) \<subseteq>\<^sub>m dget (schema_migrations db')"
      "\<forall>(name, sql) \<in> set rest. py_isdigit (name_prefix name) \<and>
         dget (schema_migrations db') (int_of_digits (name_prefix name)) = Some (sha sql)"
      using Cons.IH [OF run Cons.prems(2)] by auto
    have "dget (schema_migrations db') v = Some (sha sql)"
      using map_le_SomeD [OF IH(1) map_le_SomeD [OF Cons.prems(2) Some]] same by simp
    with IH digit show ?thesis by (auto simp: v_def c)
  next
    case None
    with Cons.prems digit obtain s' where s': "run sql (schema db) = Inr s'"
      and fresh: "dget (schema_migrations db) v = None"
      and run: "apply_candidates sha run existing rest
         (db\<lparr>schema := s', schema_migrations := dput v (sha sql) (schema_migrations db)\<rparr>)
         (applied @ [v]) = (Inr a, db')"
      by (auto simp: Let_def v_def c split: if_splits sum.splits)
    let ?db = "db\<lparr>schema := s', schema_migrations := dput v (sha sql) (schema_migrations db)\<rparr>"
    have le: "dget (schema_migrations db) \<subseteq>\<^sub>m dget (schema_migrations ?db)"
      using fresh by (auto simp: map_le_def)
    then have "dget existing \<subseteq>\<^sub>m dget (schema_migrations ?db)"
      using Cons.prems(2) map_le_trans by blast
    note IHrest = Cons.IH [OF run this]
    have IH: "dget (schema_migrations ?db) \<subseteq>\<^sub>m dget (schema_migrations db')"
      "\<forall>(name, sql) \<in> set rest. py_isdigit (name_prefix name) \<and>
         dget (schema_migrations db') (int_of_digits (name_prefix name)) = Some (sha sql)"
      by (rule IHrest [THEN conjunct1], rule IHrest [THEN conjunct2])
    have "dget (schema_migrations db') v = Some (sha sql)"
      by (rule map_le_SomeD [OF IH(1)]) simp
    with IH digit map_le_trans [OF le IH(1)] show ?thesis by (auto simp: v_def c)
  qed
qed simp

lemma apply_candidates_all_recorded:
  assumes "\<forall>(name, sql) \<in> set cs. py_isdigit (name_prefix name) \<and>
       dget existing (int_of_digits (name_prefix name)) = Some (sha sql)"
  shows "apply_candidates sha run existing cs db applied = (Inr applied, db)"
  using assms by (induction cs) (auto simp: Let_def)

lemma migrate_rerun:
  assumes px: "pool_contract px" and first: "migrate px sha run files db = (Inr versions, db')"
  shows "migrate px sha run files db' = (Inr [], db')"
proof -
  let ?cs = "sort_key fst (filter (\<lambda>(name, sql). suffix ''.sql'' name) files)"
  have "apply_candidates sha run (schema_migrations db) ?cs db [] = (Inr versions, db')"
    using px first
    by (auto simp: migrate_def connection_def pool_contract_def Let_def split: prod.splits sum.splits)
  from apply_candidates_recorded [OF this map_le_refl, THEN conjunct2]
  have "\<forall>(name, sql) \<in> set ?cs. py_isdigit (name_prefix name) \<and>
       dget (schema_migrations db') (int_of_digits (name_prefix name)) = Some (sha sql)" .
  then have "apply_candidates sha run (schema_migrations db') ?cs db' [] = (Inr [], db')"
    by (rule apply_candidates_all_recorded)
  then show ?thesis using px by (simp add: migrate_def connection_def pool_contract_def Let_def)
qed

end
