(* ===== verification/Decimal_Arith.thy ===== *)
theory Decimal_Arith
  imports Complex_Main Prelude
begin

text \<open>
  Python's \<open>decimal.Decimal\<close> under the default context: 28 significant digits, rounding half to
  even. A finite decimal is the rational it denotes; \<open>dround\<close> is the rounding that every
  arithmetic operation applies to its exact result, so \<open>dadd x y = dround (x + y)\<close>, and a
  comparison is exact. The exponent range of the context (six digits) is not modelled.

  The lemmas that carry the component proofs: rounding is monotone (\<open>dround_mono\<close>), keeps 0,
  is odd, and is exact on every value with at most 28 digits (\<open>dround_exact\<close>).
\<close>

type_synonym decimal = rat

section \<open>Rounding to an integer, half to even\<close>

definition round_half_even :: "rat \<Rightarrow> int" where
  "round_half_even x =
     (let f = \<lfloor>x\<rfloor>; r = x - of_int f in
      if r < 1 / 2 then f else if r > 1 / 2 then f + 1 else if even f then f else f + 1)"

lemma round_half_even_bounds:
  "of_int (round_half_even x) - 1 / 2 \<le> x" "x \<le> of_int (round_half_even x) + 1 / 2"
  using floor_correct [of x] by (auto simp: round_half_even_def Let_def; linarith)+

lemma round_half_even_int [simp]: "round_half_even (of_int n) = n"
  by (simp add: round_half_even_def Let_def)

lemma round_half_even_cases:
  "round_half_even x = \<lfloor>x\<rfloor> \<or> round_half_even x = \<lfloor>x\<rfloor> + 1"
  by (simp add: round_half_even_def Let_def)

lemma round_half_even_mono:
  assumes "x \<le> y"
  shows "round_half_even x \<le> round_half_even y"
proof (cases "\<lfloor>x\<rfloor> = \<lfloor>y\<rfloor>")
  case True
  then show ?thesis using assms by (auto simp: round_half_even_def Let_def)
next
  case False
  then have "\<lfloor>x\<rfloor> + 1 \<le> \<lfloor>y\<rfloor>" using assms floor_mono by fastforce
  then show ?thesis using round_half_even_cases [of x] round_half_even_cases [of y] by linarith
qed

lemma round_half_even_minus: "round_half_even (- x) = - round_half_even x"
proof (cases "x = of_int \<lfloor>x\<rfloor>")
  case True
  then obtain n where "x = of_int n" by blast
  then show ?thesis by (metis of_int_minus round_half_even_int)
next
  case False
  have c: "\<lceil>x\<rceil> = \<lfloor>x\<rfloor> + 1"
    using False by (simp add: ceiling_altdef)
  have f: "\<lfloor>- x\<rfloor> = - \<lfloor>x\<rfloor> - 1"
    using c by (simp add: ceiling_def)
  show ?thesis by (auto simp: round_half_even_def Let_def f)
qed

lemma round_half_even_ge: "of_int n \<le> x \<Longrightarrow> n \<le> round_half_even x"
  using round_half_even_mono [of "of_int n" x] by simp

lemma round_half_even_le: "x \<le> of_int n \<Longrightarrow> round_half_even x \<le> n"
  using round_half_even_mono [of x "of_int n"] by simp

section \<open>The decimal exponent of a number\<close>

fun digit_count :: "nat \<Rightarrow> nat" where
  "digit_count n = (if n < 10 then 1 else Suc (digit_count (n div 10)))"

declare digit_count.simps [simp del]

lemma digit_count_upper: "n < 10 ^ digit_count n"
proof (induction n rule: digit_count.induct)
  case (1 n)
  show ?case
  proof (cases "n < 10")
    case False
    then have "n div 10 < 10 ^ digit_count (n div 10)" by (rule "1.IH")
    then have "n < 10 * 10 ^ digit_count (n div 10)" by linarith
    with False show ?thesis by (simp add: digit_count.simps [of n])
  qed (simp add: digit_count.simps)
qed

lemma digit_count_lower: "0 < n \<Longrightarrow> 10 ^ (digit_count n - 1) \<le> n"
proof (induction n rule: digit_count.induct)
  case (1 n)
  show ?case
  proof (cases "n < 10")
    case False
    then have "10 ^ (digit_count (n div 10) - 1) \<le> n div 10" using "1.IH" by simp
    moreover have "digit_count (n div 10) \<noteq> 0" by (subst digit_count.simps) simp
    then obtain k where k: "digit_count (n div 10) = Suc k" by (cases "digit_count (n div 10)") auto
    ultimately have "10 * 10 ^ k \<le> 10 * (n div 10)" by simp
    also have "\<dots> \<le> n" by simp
    finally show ?thesis using False k by (simp add: digit_count.simps [of n])
  qed (use 1 in \<open>simp add: digit_count.simps\<close>)
qed

lemma digit_count_rat:
  assumes "0 < (p :: int)"
  shows "10 ^ (digit_count (nat p) - 1) \<le> (of_int p :: rat)" and "of_int p < (10 :: rat) ^ digit_count (nat p)"
proof -
  have p: "of_int p = (of_nat (nat p) :: rat)" using assms by simp
  have "(of_nat (10 ^ (digit_count (nat p) - 1)) :: rat) \<le> of_nat (nat p)"
    using digit_count_lower [of "nat p"] assms by (simp only: of_nat_le_iff zero_less_nat_eq)
  then show "10 ^ (digit_count (nat p) - 1) \<le> (of_int p :: rat)" unfolding p by simp
  have "(of_nat (nat p) :: rat) < of_nat (10 ^ digit_count (nat p))"
    using digit_count_upper [of "nat p"] by (simp only: of_nat_less_iff)
  then show "of_int p < (10 :: rat) ^ digit_count (nat p)" unfolding p by simp
qed

text \<open>\<open>adjusted x\<close> is the exponent of the leading digit of \<open>x\<close>, for \<open>x > 0\<close>.\<close>

definition adjusted :: "rat \<Rightarrow> int" where
  "adjusted x =
     (let (p, q) = quotient_of x;
          d = int (digit_count (nat p)) - int (digit_count (nat q))
      in if 10 powi d \<le> x then d else d - 1)"

lemma adjusted_bounds:
  assumes "0 < x"
  shows "10 powi (adjusted x) \<le> x" and "x < 10 powi (adjusted x + 1)"
proof -
  obtain p q where pq: "quotient_of x = (p, q)" by (cases "quotient_of x")
  have q: "0 < q" using pq quotient_of_denom_pos by blast
  have x: "x = of_int p / of_int q" using pq quotient_of_div by blast
  have p: "0 < p" using assms q x by (simp add: zero_less_divide_iff)
  define dp where "dp = digit_count (nat p)"
  define dq where "dq = digit_count (nat q)"
  have dp0: "0 < dp" and dq0: "0 < dq" by (simp_all add: dp_def dq_def digit_count.simps)
  note pu = digit_count_rat(2) [OF p, folded dp_def] and pl = digit_count_rat(1) [OF p, folded dp_def]
  note qu = digit_count_rat(2) [OF q, folded dq_def] and ql = digit_count_rat(1) [OF q, folded dq_def]
  define d where "d = int dp - int dq"
  have adj: "adjusted x = (if 10 powi d \<le> x then d else d - 1)"
    by (simp add: adjusted_def pq d_def dp_def dq_def)
  have up: "x < 10 powi (d + 1)"
  proof -
    have "x < 10 ^ dp / 10 ^ (dq - 1)"
      unfolding x using pu ql p q by (intro frac_less) auto
    also have "\<dots> = 10 powi (d + 1)"
      using dq0 by (simp add: d_def power_int_diff power_int_add of_nat_diff flip: power_int_of_nat)
    finally show ?thesis .
  qed
  have low: "10 powi (d - 1) \<le> x"
  proof -
    have "10 powi (d - 1) = (10 :: rat) ^ (dp - 1) / 10 ^ dq"
      using dp0 by (simp add: d_def power_int_diff of_nat_diff flip: power_int_of_nat)
    also have "\<dots> \<le> x"
      unfolding x using pl qu p q by (intro frac_le) auto
    finally show ?thesis .
  qed
  show "10 powi (adjusted x) \<le> x" using adj low by simp
  show "x < 10 powi (adjusted x + 1)" using adj up by (auto simp: not_le)
qed

lemma ten_powi_less: "(10 :: rat) powi a < 10 powi b \<Longrightarrow> a < b"
  by (rule ccontr) (simp add: not_less power_int_increasing leD)

lemma adjusted_unique:
  assumes "10 powi e \<le> x" and "x < 10 powi (e + 1)"
  shows "adjusted x = e"
proof -
  have x: "0 < x" using assms(1) by (rule less_le_trans [rotated]) simp
  note b = adjusted_bounds [OF x]
  have "(10 :: rat) powi e < 10 powi (adjusted x + 1)" using assms b by linarith
  moreover have "(10 :: rat) powi adjusted x < 10 powi (e + 1)" using assms b by linarith
  ultimately have "e < adjusted x + 1" and "adjusted x < e + 1" by (auto dest: ten_powi_less)
  then show ?thesis by simp
qed

lemma adjusted_mono:
  assumes "0 < x" and "x \<le> y"
  shows "adjusted x \<le> adjusted y"
proof -
  have "(10 :: rat) powi adjusted x < 10 powi (adjusted y + 1)"
    using adjusted_bounds [of x] adjusted_bounds [of y] assms by linarith
  then show ?thesis using ten_powi_less by fastforce
qed

section \<open>Rounding to 28 significant digits\<close>

definition dround :: "rat \<Rightarrow> decimal" where
  "dround x =
     (if x = 0 then 0
      else let e = adjusted \<bar>x\<bar> - 27
           in of_int (round_half_even (x / 10 powi e)) * 10 powi e)"

lemma dround_0 [simp]: "dround 0 = 0"
  by (simp add: dround_def)

lemma dround_minus [simp]: "dround (- x) = - dround x"
  by (simp add: dround_def Let_def round_half_even_minus)

lemma dround_pos_bounds:
  assumes "0 < x"
  shows "10 powi (adjusted x) \<le> dround x" and "dround x \<le> 10 powi (adjusted x + 1)"
proof -
  define e where "e = adjusted x - 27"
  have r: "dround x = of_int (round_half_even (x / 10 powi e)) * 10 powi e"
    using assms by (simp add: dround_def e_def Let_def)
  have e27: "(10 :: rat) powi adjusted x = of_int (10 ^ 27) * 10 powi e"
    and e28: "(10 :: rat) powi (adjusted x + 1) = of_int (10 ^ 28) * 10 powi e"
    by (simp_all add: e_def power_int_diff power_int_add)
  have "of_int (10 ^ 27) \<le> x / 10 powi e"
    using adjusted_bounds(1) [OF assms] unfolding e27 by (simp add: pos_le_divide_eq)
  then have "10 ^ 27 \<le> round_half_even (x / 10 powi e)" by (rule round_half_even_ge)
  then have "(of_int (10 ^ 27) :: rat) \<le> of_int (round_half_even (x / 10 powi e))"
    by (simp only: of_int_le_iff)
  then show "10 powi (adjusted x) \<le> dround x"
    unfolding r e27 by (intro mult_right_mono) auto
  have "x / 10 powi e \<le> of_int (10 ^ 28)"
    using adjusted_bounds(2) [OF assms] unfolding e28 by (simp add: pos_divide_le_eq)
  then have "round_half_even (x / 10 powi e) \<le> 10 ^ 28" by (rule round_half_even_le)
  then have "of_int (round_half_even (x / 10 powi e)) \<le> (of_int (10 ^ 28) :: rat)"
    by (simp only: of_int_le_iff)
  then show "dround x \<le> 10 powi (adjusted x + 1)"
    unfolding r e28 by (intro mult_right_mono) auto
qed

lemma dround_pos: "0 < x \<Longrightarrow> 0 < dround x"
  using dround_pos_bounds(1) [of x] zero_less_power_int [of "10 :: rat" "adjusted x"] by linarith

lemma dround_mono_pos:
  assumes "0 < x" and "x \<le> y"
  shows "dround x \<le> dround y"
proof (cases "adjusted x = adjusted y")
  case True
  define e where "e = adjusted x - 27"
  have "x / 10 powi e \<le> y / 10 powi e" using assms by (simp add: divide_right_mono)
  then have "of_int (round_half_even (x / 10 powi e)) \<le> (of_int (round_half_even (y / 10 powi e)) :: rat)"
    by (simp add: round_half_even_mono)
  then show ?thesis
    using assms True by (simp add: dround_def Let_def e_def mult_right_mono)
next
  case False
  then have "adjusted x + 1 \<le> adjusted y" using adjusted_mono [OF assms] by simp
  then have "(10 :: rat) powi (adjusted x + 1) \<le> 10 powi adjusted y" by (simp add: power_int_increasing)
  then show ?thesis
    using dround_pos_bounds(2) [of x] dround_pos_bounds(1) [of y] assms by linarith
qed

theorem dround_mono:
  assumes "x \<le> y"
  shows "dround x \<le> dround y"
proof -
  consider "0 < x" | "x \<le> 0" "0 \<le> y" | "y < 0" using assms by linarith
  then show ?thesis
  proof cases
    case 1
    then show ?thesis using assms by (rule dround_mono_pos)
  next
    case 2
    have "0 \<le> dround y" using 2 dround_pos [of y] by (cases "y = 0") auto
    moreover have "0 \<le> dround (- x)" using 2 dround_pos [of "- x"] by (cases "x = 0") auto
    ultimately show ?thesis by simp
  next
    case 3
    then have "dround (- y) \<le> dround (- x)" using assms by (intro dround_mono_pos) auto
    then show ?thesis by simp
  qed
qed

lemma dround_nonneg [simp]: "0 \<le> x \<Longrightarrow> 0 \<le> dround x"
  using dround_mono [of 0 x] by simp

lemma dround_exact:
  assumes "x = of_int m * 10 powi k" and "\<bar>m\<bar> < 10 ^ 28"
  shows "dround x = x"
proof -
  have pos: "dround y = y" if y: "y = of_int n * 10 powi k" and n: "0 < n" "n < 10 ^ 28" for y n
  proof -
    have y0: "0 < y" using y n by simp
    define e where "e = adjusted y - 27"
    have "y < of_int (10 ^ 28) * 10 powi k"
      unfolding y using n by (intro mult_strict_right_mono) (simp_all only: of_int_less_iff, simp)
    then have "(10 :: rat) powi adjusted y < 10 powi (k + 28)"
      using adjusted_bounds(1) [OF y0] by (simp add: power_int_add mult.commute)
    then have "e \<le> k" using ten_powi_less by (fastforce simp: e_def)
    then have "y / 10 powi e = of_int (n * 10 ^ nat (k - e))"
      by (simp add: y power_int_diff flip: power_int_of_nat)
    then have "round_half_even (y / 10 powi e) = n * 10 ^ nat (k - e)"
      by (simp only: round_half_even_int)
    moreover have "of_int (n * 10 ^ nat (k - e)) * 10 powi e = y"
      using \<open>y / 10 powi e = _\<close> by (simp add: field_simps)
    ultimately show ?thesis using y0 by (simp add: dround_def Let_def e_def)
  qed
  consider "m = 0" | "0 < m" | "m < 0" by linarith
  then show ?thesis
  proof cases
    case 3
    then have "dround (- x) = - x" using assms by (intro pos [of _ "- m"]) auto
    then show ?thesis by simp
  qed (use assms pos in auto)
qed

lemma dround_int: "\<bar>m\<bar> < 10 ^ 28 \<Longrightarrow> dround (of_int m) = of_int m"
  by (rule dround_exact [where k = 0]) auto

lemma dround_numeral [simp]: "(numeral n :: int) < 10 ^ 28 \<Longrightarrow> dround (numeral n) = numeral n"
  using dround_int [of "numeral n"] by simp

lemma dround_1 [simp]: "dround 1 = 1"
  using dround_int [of 1] by simp

lemma dround_frac:
  "\<bar>m\<bar> < 10 ^ 28 \<Longrightarrow> dround (of_int m / 10 ^ k) = of_int m / 10 ^ k"
  by (rule dround_exact [where m = m and k = "- int k"])
     (simp_all add: power_int_minus field_simps)

section \<open>Arithmetic\<close>

definition dadd :: "decimal \<Rightarrow> decimal \<Rightarrow> decimal" where
  "dadd x y = dround (x + y)"

definition dsub :: "decimal \<Rightarrow> decimal \<Rightarrow> decimal" where
  "dsub x y = dround (x - y)"

definition dmul :: "decimal \<Rightarrow> decimal \<Rightarrow> decimal" where
  "dmul x y = dround (x * y)"

definition ddiv :: "decimal \<Rightarrow> decimal \<Rightarrow> decimal result" where
  \<comment> \<open>\<open>DivisionByZero\<close> for a non-zero dividend, \<open>InvalidOperation\<close> for \<open>0 / 0\<close>\<close>
  "ddiv x y =
     (if y = 0 then (if x = 0 then Inl InvalidOperation else Inl ZeroDivisionError)
      else Inr (dround (x / y)))"

definition dsum :: "decimal list \<Rightarrow> decimal" where
  \<comment> \<open>\<open>sum(xs, Decimal(0))\<close>\<close>
  "dsum xs = foldl dadd 0 xs"

definition quantize :: "nat \<Rightarrow> decimal \<Rightarrow> decimal result" where
  \<comment> \<open>\<open>x.quantize(Decimal(1).scaleb(-places), rounding=ROUND_HALF_EVEN)\<close>: the coefficient must
     fit into the precision of the context\<close>
  "quantize places x =
     (let c = round_half_even (x * 10 ^ places)
      in if \<bar>c\<bar> < 10 ^ 28 then Inr (of_int c / 10 ^ places) else Inl InvalidOperation)"

definition to_integral_ceiling :: "decimal \<Rightarrow> int" where
  "to_integral_ceiling x = \<lceil>x\<rceil>"

definition truncate_rat :: "rat \<Rightarrow> int" where
  \<comment> \<open>\<open>int(x)\<close>\<close>
  "truncate_rat x = (if x < 0 then \<lceil>x\<rceil> else \<lfloor>x\<rfloor>)"

lemmas decimal_defs = dadd_def dsub_def dmul_def ddiv_def

lemma dadd_mono: "x \<le> x' \<Longrightarrow> y \<le> y' \<Longrightarrow> dadd x y \<le> dadd x' y'"
  by (simp add: dadd_def dround_mono)

lemma dmul_nonneg [simp]: "0 \<le> x \<Longrightarrow> 0 \<le> y \<Longrightarrow> 0 \<le> dmul x y"
  by (simp add: dmul_def)

lemma dadd_nonneg [simp]: "0 \<le> x \<Longrightarrow> 0 \<le> y \<Longrightarrow> 0 \<le> dadd x y"
  by (simp add: dadd_def)

definition is_dec :: "rat \<Rightarrow> bool" where
  "is_dec x \<longleftrightarrow> dround x = x"

lemma is_dec_0 [simp]: "is_dec 0"
  by (simp add: is_dec_def)

lemma dround_is_dec [simp]: "is_dec (dround x)"
proof (cases "x = 0")
  case False
  have pos: "is_dec (dround y)" if y: "0 < y" for y
  proof -
    define e where "e = adjusted y - 27"
    define m where "m = round_half_even (y / 10 powi e)"
    have r: "dround y = of_int m * 10 powi e"
      using y by (simp add: dround_def e_def Let_def m_def)
    have "0 < dround y" using y by (rule dround_pos)
    moreover have "0 < (10 :: rat) powi e" by simp
    ultimately have m0: "0 < m" using r by (simp add: zero_less_mult_iff del: zero_less_power_int)
    have "of_int m * (10 :: rat) powi e \<le> of_int (10 ^ 28) * 10 powi e"
      using dround_pos_bounds(2) [OF y] r by (simp add: e_def power_int_diff power_int_add)
    then have "(of_int m :: rat) \<le> of_int (10 ^ 28)" by (simp only: mult_le_cancel_right) auto
    then have "m \<le> 10 ^ 28" by (simp only: of_int_le_iff)
    then consider "\<bar>m\<bar> < 10 ^ 28" | "m = 10 ^ 28" using m0 by linarith
    then show ?thesis
    proof cases
      case 1
      then show ?thesis unfolding is_dec_def by (rule dround_exact [OF r])
    next
      case 2
      then have "dround y = of_int 1 * 10 powi (e + 28)"
        unfolding r by (simp add: power_int_add)
      then show ?thesis unfolding is_dec_def by (rule dround_exact) simp
    qed
  qed
  show ?thesis
  proof (cases "0 < x")
    case neg: False
    then have "is_dec (dround (- x))" using False by (intro pos) auto
    then show ?thesis by (simp add: is_dec_def)
  qed (rule pos)
qed simp

lemma is_dec_ops [simp]: "is_dec (dadd x y)" "is_dec (dsub x y)" "is_dec (dmul x y)"
  by (simp_all add: decimal_defs)

lemma dround_le_dec: "is_dec y \<Longrightarrow> x \<le> y \<Longrightarrow> dround x \<le> y"
  using dround_mono [of x y] by (simp add: is_dec_def)

lemma dround_ge_dec: "is_dec x \<Longrightarrow> x \<le> y \<Longrightarrow> x \<le> dround y"
  using dround_mono [of x y] by (simp add: is_dec_def)

lemma dadd_increasing: "is_dec x \<Longrightarrow> 0 \<le> y \<Longrightarrow> x \<le> dadd x y"
  using dround_mono [of x "x + y"] by (simp add: dadd_def is_dec_def)

lemma dsum_Nil [simp]: "dsum [] = 0"
  by (simp add: dsum_def)

lemma foldl_dadd_nonneg:
  "0 \<le> a \<Longrightarrow> (\<And>x. x \<in> set xs \<Longrightarrow> 0 \<le> x) \<Longrightarrow> 0 \<le> foldl dadd a xs"
  by (induction xs arbitrary: a) auto

lemma dsum_nonneg: "(\<And>x. x \<in> set xs \<Longrightarrow> 0 \<le> x) \<Longrightarrow> 0 \<le> dsum xs"
  by (simp add: dsum_def foldl_dadd_nonneg)

lemma quantize_error:
  assumes "quantize places x = Inr y"
  shows "\<bar>y - x\<bar> \<le> 1 / (2 * 10 ^ places)"
proof -
  define c where "c = round_half_even (x * 10 ^ places)"
  have y: "y = of_int c / 10 ^ places"
    using assms by (auto simp: quantize_def Let_def c_def split: if_splits)
  have "\<bar>of_int c - x * 10 ^ places\<bar> \<le> 1 / 2"
    using round_half_even_bounds [of "x * 10 ^ places"] unfolding c_def abs_le_iff by linarith
  then have "\<bar>of_int c - x * 10 ^ places\<bar> / 10 ^ places \<le> 1 / 2 / 10 ^ places"
    by (intro divide_right_mono) auto
  moreover have "\<bar>of_int c - x * 10 ^ places\<bar> / 10 ^ places = \<bar>y - x\<bar>"
    by (simp add: y field_simps abs_divide flip: abs_mult)
  ultimately show ?thesis by simp
qed

lemma quantize_nonneg: "quantize places x = Inr y \<Longrightarrow> 0 \<le> x \<Longrightarrow> 0 \<le> y"
  using round_half_even_ge [of 0 "x * 10 ^ places"]
  by (auto simp: quantize_def Let_def split: if_splits)

section \<open>Doubles\<close>

text \<open>\<open>float(x)\<close>: 53 significant bits, half to even. The exponent range is not modelled.\<close>

fun bit_length :: "nat \<Rightarrow> nat" where
  "bit_length n = (if n < 2 then 1 else Suc (bit_length (n div 2)))"

declare bit_length.simps [simp del]

definition exponent2 :: "rat \<Rightarrow> int" where
  \<comment> \<open>the exponent of the leading bit of a positive number\<close>
  "exponent2 x =
     (let (p, q) = quotient_of x; d = int (bit_length (nat p)) - int (bit_length (nat q))
      in if 2 powi d \<le> x then d else d - 1)"

definition to_double :: "rat \<Rightarrow> rat" where
  "to_double x =
     (if x = 0 then 0
      else let e = exponent2 \<bar>x\<bar> - 52 in of_int (round_half_even (x / 2 powi e)) * 2 powi e)"

definition round_digits :: "nat \<Rightarrow> rat \<Rightarrow> rat" where
  \<comment> \<open>the nearest number with \<open>n\<close> significant decimal digits\<close>
  "round_digits n x = (let e = adjusted \<bar>x\<bar> - int n + 1 in of_int (round_half_even (x / 10 powi e)) * 10 powi e)"

definition repr_value :: "rat \<Rightarrow> decimal" where
  \<comment> \<open>\<open>Decimal(str(f))\<close> of a double: \<open>repr\<close> writes the fewest digits that are read back as \<open>f\<close>\<close>
  "repr_value f =
     (if f = 0 then 0
      else case find (\<lambda>n. to_double (round_digits n f) = f) [1..<17] of
        Some n \<Rightarrow> round_digits n f
      | None \<Rightarrow> round_digits 17 f)"

lemma to_double_0 [simp]: "to_double 0 = 0"
  by (simp add: to_double_def)

lemma bit_length_bounds: "0 < n \<Longrightarrow> 2 ^ (bit_length n - 1) \<le> n \<and> n < 2 ^ bit_length n"
proof (induction n rule: bit_length.induct)
  case (1 n)
  show ?case
  proof (cases "n < 2")
    case True
    then show ?thesis using 1 by (simp add: bit_length.simps)
  next
    case False
    then have IH: "2 ^ (bit_length (n div 2) - 1) \<le> n div 2" "n div 2 < 2 ^ bit_length (n div 2)" using 1 by simp_all
    have pos: "0 < bit_length (n div 2)" by (subst bit_length.simps) simp
    have "(2 :: nat) ^ bit_length (n div 2) = 2 * 2 ^ (bit_length (n div 2) - 1)" using pos by (cases "bit_length (n div 2)") simp_all
    then have "2 ^ bit_length (n div 2) \<le> n" using IH(1) by linarith
    moreover have "n < 2 * 2 ^ bit_length (n div 2)" using IH(2) by linarith
    ultimately show ?thesis using False by (subst (1 2) bit_length.simps) simp
  qed
qed

lemma exponent2_le:
  assumes "0 < x"
  shows "2 powi exponent2 x \<le> x"
proof -
  obtain p q where pq: "quotient_of x = (p, q)" by fastforce
  have x: "x = of_int p / of_int q" and q: "0 < q" using pq quotient_of_div quotient_of_denom_pos by blast+
  have p: "0 < p" using assms q by (simp add: x zero_less_divide_iff)
  let ?bp = "bit_length (nat p)" and ?bq = "bit_length (nat q)"
  have bp: "2 ^ (?bp - 1) \<le> nat p" and bq: "nat q < 2 ^ ?bq"
    using bit_length_bounds [of "nat p"] bit_length_bounds [of "nat q"] p q by simp_all
  have pos: "0 < ?bp" by (subst bit_length.simps) simp
  have "(2 :: rat) powi (int ?bp - 1) \<le> of_int p"
  proof -
    have "(2 :: rat) powi (int ?bp - 1) = of_nat (2 ^ (?bp - 1))" using pos by (simp add: power_int_def nat_diff_distrib)
    also have "\<dots> \<le> of_nat (nat p)" using bp by (simp only: of_nat_le_iff)
    finally show ?thesis using p by simp
  qed
  moreover have "of_int q \<le> (2 :: rat) powi int ?bq"
  proof -
    have "of_int q = (of_nat (nat q) :: rat)" using q by simp
    also have "\<dots> \<le> of_nat (2 ^ ?bq)" using bq by (simp only: of_nat_le_iff)
    finally show ?thesis by (simp add: power_int_def)
  qed
  ultimately have "(2 :: rat) powi (int ?bp - 1) / 2 powi int ?bq \<le> x"
    unfolding x using p q by (intro frac_le) auto
  moreover have "(2 :: rat) powi (int ?bp - 1) / 2 powi int ?bq = 2 powi (int ?bp - int ?bq - 1)"
    using power_int_diff [of "2 :: rat" "int ?bp - 1" "int ?bq"] by (simp add: algebra_simps)
  ultimately show ?thesis by (simp add: exponent2_def pq Let_def)
qed

lemma to_double_error:
  assumes "0 \<le> x"
  shows "\<bar>to_double x - x\<bar> \<le> x / 2 ^ 53"
proof (cases "x = 0")
  case False
  then have x: "0 < x" using assms by simp
  define e where "e = exponent2 x - 52"
  have pe: "(0 :: rat) < 2 powi e" by simp
  have "(2 :: rat) powi e * 2 ^ 52 = 2 powi exponent2 x"
    using power_int_add [of "2 :: rat" e 52] by (simp add: e_def)
  then have le: "2 powi e * 2 ^ 52 \<le> x" using exponent2_le [OF x] by simp
  have "\<bar>of_int (round_half_even (x / 2 powi e)) - x / 2 powi e\<bar> \<le> 1 / 2"
    using round_half_even_bounds [of "x / 2 powi e"] unfolding abs_le_iff by linarith
  then have "\<bar>of_int (round_half_even (x / 2 powi e)) - x / 2 powi e\<bar> * 2 powi e \<le> 1 / 2 * 2 powi e"
    using pe by (intro mult_right_mono) simp_all
  also have "\<dots> \<le> x / 2 ^ 53" using le by (simp add: field_simps)
  finally show ?thesis
    using x pe by (simp add: to_double_def e_def [symmetric] Let_def abs_mult_pos left_diff_distrib flip: abs_mult)
qed simp

lemma to_double_bounds:
  assumes "0 \<le> x"
  shows "0 \<le> to_double x" "to_double x \<le> 2 * x"
proof -
  have "x / 2 ^ 53 \<le> x" using assms by (simp add: field_simps)
  then show "0 \<le> to_double x" "to_double x \<le> 2 * x"
    using to_double_error [OF assms] unfolding abs_le_iff by linarith+
qed

end
