(* ===== verification/Values.thy ===== *)
theory Values
  imports Decimal_Arith
begin

text \<open>
  The JSON values that actions, resources and telemetry carry (\<open>dict[str, Any]\<close> in the sources),
  and the conversion \<open>Decimal(str(value))\<close> with which the code reads numbers out of them.

  A float is represented by its \<open>repr\<close>, which is what \<open>str\<close> gives. \<open>decimal_of_string\<close> is the
  constructor of \<open>decimal.Decimal\<close> on ASCII text: it strips white space, drops underscores, and
  accepts a signed numeral with an optional exponent, infinities and NaNs. Anything else raises
  \<open>decimal.InvalidOperation\<close>, which is an \<open>ArithmeticError\<close> and not a \<open>ValueError\<close>.
\<close>

datatype pyval =
    PNone
  | PBool bool
  | PInt int
  | PFloat string
  | PStr string
  | PList "pyval list"
  | PDict "(string \<times> pyval) list"

type_synonym json_object = "(string, pyval) dict"

datatype dec = Fin decimal | Infinity bool \<comment> \<open>whether it is negative\<close> | NaN

section \<open>Text\<close>

definition is_space :: "char \<Rightarrow> bool" where
  \<comment> \<open>ASCII white space\<close>
  "is_space c \<longleftrightarrow> c \<in> {CHR '' '', CHR 0x09, CHR 0x0A, CHR 0x0B, CHR 0x0C, CHR 0x0D,
                        CHR 0x1C, CHR 0x1D, CHR 0x1E, CHR 0x1F}"

definition lstrip :: "string \<Rightarrow> string" where
  "lstrip s = dropWhile is_space s"

definition strip :: "string \<Rightarrow> string" where
  "strip s = rev (lstrip (rev (lstrip s)))"

definition is_digit :: "char \<Rightarrow> bool" where
  "is_digit c \<longleftrightarrow> CHR ''0'' \<le> c \<and> c \<le> CHR ''9''"

definition digit_value :: "char \<Rightarrow> int" where
  "digit_value c = int (of_char c) - 48"

definition digits_value :: "string \<Rightarrow> int" where
  "digits_value s = foldl (\<lambda>n c. 10 * n + digit_value c) 0 s"

definition lower_char :: "char \<Rightarrow> char" where
  "lower_char c = (if CHR ''A'' \<le> c \<and> c \<le> CHR ''Z'' then char_of (of_char c + (32 :: nat)) else c)"

definition lower :: "string \<Rightarrow> string" where
  "lower s = map lower_char s"

definition upper_char :: "char \<Rightarrow> char" where
  "upper_char c = (if CHR ''a'' \<le> c \<and> c \<le> CHR ''z'' then char_of (of_char c - 32 :: nat) else c)"

definition upper :: "string \<Rightarrow> string" where
  "upper s = map upper_char s"

function string_of_nat :: "nat \<Rightarrow> string" where
  "string_of_nat n =
     (if n < 10 then [char_of (48 + n)] else string_of_nat (n div 10) @ [char_of (48 + n mod 10)])"
  by pat_completeness auto
termination by (relation "measure id") auto

declare string_of_nat.simps [simp del]

definition string_of_int :: "int \<Rightarrow> string" where
  "string_of_int n = (if n < 0 then CHR ''-'' # string_of_nat (nat (- n)) else string_of_nat (nat n))"

lemma of_char_digit: "n < 10 \<Longrightarrow> of_char (char_of (48 + n)) = (48 + n :: nat)"
  by (simp add: of_char_of)

lemma digits_value_snoc: "digits_value (s @ [c]) = 10 * digits_value s + digit_value c"
  by (simp add: digits_value_def)

lemma digits_value_string_of_nat [simp]: "digits_value (string_of_nat n) = int n"
proof (induction n rule: string_of_nat.induct)
  case (1 n)
  have digit: "digit_value (char_of (48 + m)) = int m" if "m < 10" for m :: nat
    using of_char_digit [OF that] by (simp add: digit_value_def)
  show ?case
  proof (cases "n < 10")
    case True
    then show ?thesis using digit [of n] by (subst string_of_nat.simps) (simp add: digits_value_def)
  next
    case False
    have "digits_value (string_of_nat n) = 10 * int (n div 10) + int (n mod 10)"
      using False 1 [OF False] digit [of "n mod 10"]
      by (subst string_of_nat.simps) (simp add: digits_value_snoc)
    also have "\<dots> = int n" by presburger
    finally show ?thesis .
  qed
qed

lemma string_of_nat_inject [simp]: "string_of_nat m = string_of_nat n \<longleftrightarrow> m = n"
  by (metis digits_value_string_of_nat of_nat_eq_iff)

lemma string_of_nat_digits: "c \<in> set (string_of_nat n) \<Longrightarrow> is_digit c"
proof (induction n rule: string_of_nat.induct)
  case (1 n)
  have digit: "is_digit (char_of (48 + m))" if "m < 10" for m :: nat
    using of_char_digit [OF that] that by (auto simp: is_digit_def less_eq_char_def)
  show ?case
    using 1 digit [of n] digit [of "n mod 10"] string_of_nat.simps [of n] by (auto split: if_splits)
qed

lemma strip_Nil [simp]: "strip [] = []"
  by (simp add: strip_def lstrip_def)

section \<open>Decimal literals\<close>

fun split_sign :: "string \<Rightarrow> bool \<times> string" where
  "split_sign (c # s) = (if c = CHR ''-'' then (True, s) else if c = CHR ''+'' then (False, s) else (False, c # s))"
| "split_sign [] = (False, [])"

definition parse_exponent :: "string \<Rightarrow> int option" where
  \<comment> \<open>what follows the coefficient: nothing, or \<open>e\<close> with a signed integer\<close>
  "parse_exponent s =
     (case s of
        [] \<Rightarrow> Some 0
      | c # rest \<Rightarrow>
          if c \<noteq> CHR ''e'' then None
          else let (neg, ds) = split_sign rest in
            if ds = [] \<or> \<not> list_all is_digit ds then None
            else Some (if neg then - digits_value ds else digits_value ds))"

definition parse_finite :: "string \<Rightarrow> decimal option" where
  \<comment> \<open>an unsigned numeral in lower case\<close>
  "parse_finite s =
     (let whole = takeWhile is_digit s;
          rest = dropWhile is_digit s;
          (frac, rest') =
            (case rest of
               c # more \<Rightarrow> if c = CHR ''.'' then (takeWhile is_digit more, dropWhile is_digit more) else ([], rest)
             | [] \<Rightarrow> ([], []))
      in if whole = [] \<and> frac = [] then None
         else map_option (\<lambda>e. of_int (digits_value (whole @ frac)) * 10 powi (e - int (length frac)))
                (parse_exponent rest'))"

definition is_nan_literal :: "string \<Rightarrow> bool" where
  "is_nan_literal s \<longleftrightarrow>
     (take 3 s = ''nan'' \<and> list_all is_digit (drop 3 s)) \<or>
     (take 4 s = ''snan'' \<and> list_all is_digit (drop 4 s))"

definition decimal_of_string :: "string \<Rightarrow> dec result" where
  "decimal_of_string s =
     (let (neg, body) = split_sign (lower (filter (\<lambda>c. c \<noteq> CHR ''_'') (strip s))) in
      if body = ''inf'' \<or> body = ''infinity'' then Inr (Infinity neg)
      else if is_nan_literal body then Inr NaN
      else case parse_finite body of
             Some x \<Rightarrow> Inr (Fin (if neg then - x else x))
           | None \<Rightarrow> Inl InvalidOperation)"

fun decimal_of_value :: "pyval \<Rightarrow> dec result" where
  \<comment> \<open>\<open>Decimal(str(value))\<close>; the text of the other values is no numeral\<close>
  "decimal_of_value (PInt n) = Inr (Fin (of_int n))"
| "decimal_of_value (PFloat r) = decimal_of_string r"
| "decimal_of_value (PStr s) = decimal_of_string s"
| "decimal_of_value _ = Inl InvalidOperation"

fun dec_le :: "dec \<Rightarrow> dec \<Rightarrow> bool result" where
  \<comment> \<open>\<open><=\<close> signals \<open>InvalidOperation\<close> on a NaN\<close>
  "dec_le NaN y = Inl InvalidOperation"
| "dec_le x NaN = Inl InvalidOperation"
| "dec_le (Fin a) (Fin b) = Inr (a \<le> b)"
| "dec_le (Infinity neg) (Infinity neg') = Inr (neg \<or> \<not> neg')"
| "dec_le (Infinity neg) (Fin b) = Inr neg"
| "dec_le (Fin a) (Infinity neg) = Inr (\<not> neg)"

definition finite_decimal :: "dec \<Rightarrow> decimal result" where
  \<comment> \<open>an infinite or undefined quantity is outside of the model\<close>
  "finite_decimal d = (case d of Fin x \<Rightarrow> Inr x | _ \<Rightarrow> Inl InvalidOperation)"

lemma decimal_of_value_error: "decimal_of_value v = Inl e \<Longrightarrow> e = InvalidOperation"
  by (cases v) (auto simp: decimal_of_string_def Let_def split: prod.splits if_splits option.splits)

lemma dec_le_error: "dec_le x y = Inl e \<Longrightarrow> e = InvalidOperation"
  by (cases x; cases y) auto

section \<open>Text of a value\<close>

definition hex_digit :: "nat \<Rightarrow> char" where
  "hex_digit n = char_of (if n < 10 then 48 + n else 87 + n)"

definition repr_char :: "char \<Rightarrow> char \<Rightarrow> string" where
  \<comment> \<open>one character of \<open>repr\<close> of an ASCII string in the given quotes\<close>
  "repr_char q c =
     (if c = q \<or> c = CHR 0x5C then [CHR 0x5C, c]
      else if c = CHR 0x0A then [CHR 0x5C, CHR ''n'']
      else if c = CHR 0x0D then [CHR 0x5C, CHR ''r'']
      else if c = CHR 0x09 then [CHR 0x5C, CHR ''t'']
      else let n = of_char c :: nat in
        if n < 32 \<or> n = 127 then [CHR 0x5C, CHR ''x'', hex_digit (n div 16), hex_digit (n mod 16)]
        else [c])"

definition repr_string :: "string \<Rightarrow> string" where
  "repr_string s =
     (let q = (if CHR 0x27 \<in> set s \<and> CHR 0x22 \<notin> set s then CHR 0x22 else CHR 0x27)
      in [q] @ concat (map (repr_char q) s) @ [q])"

fun join :: "string \<Rightarrow> string list \<Rightarrow> string" where
  "join sep [] = []"
| "join sep [s] = s"
| "join sep (s # t # ss) = s @ sep @ join sep (t # ss)"

fun py_repr :: "pyval \<Rightarrow> string" where
  "py_repr PNone = ''None''"
| "py_repr (PBool b) = (if b then ''True'' else ''False'')"
| "py_repr (PInt n) = string_of_int n"
| "py_repr (PFloat r) = r"
| "py_repr (PStr s) = repr_string s"
| "py_repr (PList vs) = ''['' @ join '', '' (map py_repr vs) @ '']''"
| "py_repr (PDict kvs) = ''{'' @ join '', '' (map (\<lambda>(k, v). repr_string k @ '': '' @ py_repr v) kvs) @ ''}''"

fun py_str :: "pyval \<Rightarrow> string" where
  "py_str (PStr s) = s"
| "py_str v = py_repr v"

section \<open>Truth\<close>

fun truthy :: "pyval \<Rightarrow> bool" where
  "truthy PNone = False"
| "truthy (PBool b) = b"
| "truthy (PInt n) = (n \<noteq> 0)"
| "truthy (PFloat r) = (decimal_of_string r \<noteq> Inr (Fin 0))"
| "truthy (PStr s) = (s \<noteq> [])"
| "truthy (PList vs) = (vs \<noteq> [])"
| "truthy (PDict kvs) = (kvs \<noteq> [])"

lemma decimal_of_string_examples:
  "decimal_of_string ''12.5'' = Inr (Fin (25 / 2))"
  "decimal_of_string '' -1e2 '' = Inr (Fin (- 100))"
  "decimal_of_string ''abc'' = Inl InvalidOperation"
  "decimal_of_string ''-Infinity'' = Inr (Infinity True)"
  by (simp_all add: decimal_of_string_def strip_def lstrip_def is_space_def lower_def lower_char_def
      is_nan_literal_def parse_finite_def parse_exponent_def is_digit_def digits_value_def
      digit_value_def less_eq_char_def char_of_def power_int_def bit_0 Let_def)

section \<open>Comparisons of Python values\<close>

text \<open>
  \<open>py_eq\<close>, \<open>py_order\<close> and \<open>py_in\<close> are \<open>==\<close>, the orderings and \<open>in\<close> on the values that JSON has: numbers
  compare by value whatever their type (\<open>True == 1\<close>), strings and lists lexicographically, and an
  ordering between other types is a \<open>TypeError\<close>. Floats are read through their \<open>repr\<close>, which is their
  value for the comparison with another float, and for the comparison with an int up to \<open>2^53\<close>.
\<close>

datatype cval =
    CNone | CNum decimal | CInf bool | CNaN | CStr string | CList "cval list" | CDict "(string \<times> cval) list"

fun canonical_number :: "dec \<Rightarrow> cval" where
  "canonical_number (Fin x) = CNum x"
| "canonical_number (Infinity neg) = CInf neg"
| "canonical_number NaN = CNaN"

fun canonical :: "pyval \<Rightarrow> cval" where
  \<comment> \<open>values are equal exactly when their canonical forms are, NaN aside; dicts ignore the order of keys\<close>
  "canonical PNone = CNone"
| "canonical (PBool b) = CNum (if b then 1 else 0)"
| "canonical (PInt n) = CNum (of_int n)"
| "canonical (PFloat r) = (case decimal_of_string r of Inr d \<Rightarrow> canonical_number d | Inl _ \<Rightarrow> CNaN)"
| "canonical (PStr s) = CStr s"
| "canonical (PList vs) = CList (map canonical vs)"
| "canonical (PDict kvs) = CDict (sort_key fst (map (\<lambda>(k, v). (k, canonical v)) kvs))"

fun nan_free :: "cval \<Rightarrow> bool" where
  "nan_free CNaN = False"
| "nan_free (CList vs) = list_all nan_free vs"
| "nan_free (CDict kvs) = list_all (\<lambda>(k, v). nan_free v) kvs"
| "nan_free _ = True"

definition py_eq :: "pyval \<Rightarrow> pyval \<Rightarrow> bool" where
  \<comment> \<open>of two objects parsed separately: a NaN equals nothing\<close>
  "py_eq a b \<longleftrightarrow> nan_free (canonical a) \<and> canonical a = canonical b"

datatype ordering = Less | LessEq | Greater | GreaterEq

fun holds :: "ordering \<Rightarrow> 'a :: linorder \<Rightarrow> 'a \<Rightarrow> bool" where
  "holds Less a b = (a < b)"
| "holds LessEq a b = (a \<le> b)"
| "holds Greater a b = (a > b)"
| "holds GreaterEq a b = (a \<ge> b)"

fun is_number :: "pyval \<Rightarrow> bool" where
  "is_number (PBool b) = True"
| "is_number (PInt n) = True"
| "is_number (PFloat r) = True"
| "is_number _ = False"

fun number_holds :: "ordering \<Rightarrow> cval \<Rightarrow> cval \<Rightarrow> bool" where
  \<comment> \<open>floats: every ordering with a NaN is false\<close>
  "number_holds c (CNum a) (CNum b) = holds c a b"
| "number_holds c (CInf s) (CInf t) = holds c (if s then 0 else 1 :: int) (if t then 0 else 1)"
| "number_holds c (CInf s) (CNum b) = holds c (if s then 0 else 2 :: int) 1"
| "number_holds c (CNum a) (CInf t) = holds c 1 (if t then 0 else 2 :: int)"
| "number_holds c _ _ = False"

fun py_order :: "ordering \<Rightarrow> pyval \<Rightarrow> pyval \<Rightarrow> bool result" where
  "py_order c (PStr a) (PStr b) = Inr (holds c a b)"
| "py_order c (PList []) (PList ys) = Inr (holds c 0 (length ys))"
| "py_order c (PList (x # xs)) (PList []) = Inr (holds c (length (x # xs)) 0)"
| "py_order c (PList (x # xs)) (PList (y # ys)) =
     (if py_eq x y then py_order c (PList xs) (PList ys) else py_order c x y)"
| "py_order c a b =
     (if is_number a \<and> is_number b then Inr (number_holds c (canonical a) (canonical b))
      else Inl (TypeError ''ordering not supported between instances''))"

fun is_substring :: "string \<Rightarrow> string \<Rightarrow> bool" where
  "is_substring s [] = (s = [])"
| "is_substring s (c # cs) = (take (length s) (c # cs) = s \<or> is_substring s cs)"

definition py_in :: "pyval \<Rightarrow> pyval \<Rightarrow> bool result" where
  \<comment> \<open>\<open>item in container\<close>\<close>
  "py_in item container =
     (case container of
        PList vs \<Rightarrow> Inr (\<exists>v \<in> set vs. py_eq item v)
      | PStr s \<Rightarrow>
          (case item of
             PStr t \<Rightarrow> Inr (is_substring t s)
           | _ \<Rightarrow> Inl (TypeError ''requires string as left operand''))
      | PDict kvs \<Rightarrow>
          (case item of
             PStr t \<Rightarrow> Inr (t \<in> set (dkeys kvs))
           | PList _ \<Rightarrow> Inl (TypeError ''unhashable type'')
           | PDict _ \<Rightarrow> Inl (TypeError ''unhashable type'')
           | _ \<Rightarrow> Inr False)
      | _ \<Rightarrow> Inl (TypeError ''argument is not iterable''))"

section \<open>Conversions\<close>

definition parse_int :: "string \<Rightarrow> int result" where
  \<comment> \<open>\<open>int(text)\<close>: white space, a sign, digits with single underscores between them\<close>
  "parse_int s =
     (let (neg, ds) = split_sign (strip s);
          digits = filter (\<lambda>c. c \<noteq> CHR ''_'') ds;
          separated = (ds \<noteq> [] \<and> hd ds \<noteq> CHR ''_'' \<and> last ds \<noteq> CHR ''_'' \<and> \<not> is_substring ''__'' ds)
      in if separated \<and> list_all is_digit digits
         then Inr (if neg then - digits_value digits else digits_value digits)
         else Inl (ValueError ''invalid literal for int() with base 10''))"

fun py_int :: "pyval \<Rightarrow> int result" where
  "py_int (PInt n) = Inr n"
| "py_int (PBool b) = Inr (if b then 1 else 0)"
| "py_int (PStr s) = parse_int s"
| "py_int (PFloat r) =
     (case decimal_of_string r of
        Inr (Fin x) \<Rightarrow> Inr (if x < 0 then \<lceil>x\<rceil> else \<lfloor>x\<rfloor>)
      | Inr (Infinity _) \<Rightarrow> Inl (OverflowError ''cannot convert float infinity to integer'')
      | _ \<Rightarrow> Inl (ValueError ''cannot convert float NaN to integer''))"
| "py_int _ = Inl (TypeError ''int() argument must be a string or a number'')"

fun py_iter :: "pyval \<Rightarrow> pyval list result" where
  "py_iter (PList vs) = Inr vs"
| "py_iter (PStr s) = Inr (map (\<lambda>c. PStr [c]) s)"
| "py_iter (PDict kvs) = Inr (map (\<lambda>(k, v). PStr k) kvs)"
| "py_iter _ = Inl (TypeError ''object is not iterable'')"

definition py_item :: "json_object \<Rightarrow> string \<Rightarrow> pyval result" where
  \<comment> \<open>\<open>document[key]\<close>\<close>
  "py_item d k = (case dget d k of Some v \<Rightarrow> Inr v | None \<Rightarrow> Inl (KeyError k))"

definition py_dict :: "pyval \<Rightarrow> json_object result" where
  \<comment> \<open>\<open>dict(value)\<close>: a mapping or pairs, whose keys are strings here\<close>
  "py_dict v =
     (case v of
        PDict kvs \<Rightarrow> Inr kvs
      | _ \<Rightarrow>
          rbind (py_iter v) (\<lambda>items. rbind (rmap_list (\<lambda>i.
            rbind (py_iter i) (\<lambda>kv.
              case kv of
                [PStr k, x] \<Rightarrow> Inr (k, x)
              | _ \<Rightarrow> Inl (ValueError ''dictionary update sequence element has the wrong length''))) items) (\<lambda>kvs.
          Inr (dict_of kvs))))"

lemma py_dict_PDict [simp]: "py_dict (PDict kvs) = Inr kvs"
  by (simp add: py_dict_def)

lemma py_eq_sym: "py_eq a b \<Longrightarrow> py_eq b a"
  unfolding py_eq_def by metis

lemma py_eq_trans: "py_eq a b \<Longrightarrow> py_eq b c \<Longrightarrow> py_eq a c"
  unfolding py_eq_def by metis

end
