(* ===== verification/Datetimes.thy ===== *)
theory Datetimes
  imports Values
begin

text \<open>
  The text of Python's datetimes: \<open>str\<close> and \<open>isoformat\<close>, and \<open>datetime.fromisoformat\<close> on the extended
  and basic formats (calendar dates; week dates are not modelled), over the proleptic Gregorian calendar
  with Python's ordinals.

  An aware datetime is an instant, so its text is that of the same instant in UTC. Reading the text of a
  datetime of the years 1 to 9999 gives the datetime back. \<open>dt_plus\<close> is the addition that leaves these years
  with an \<open>OverflowError\<close>.
\<close>

section \<open>The calendar\<close>

definition is_leap :: "int \<Rightarrow> bool" where
  "is_leap y \<longleftrightarrow> y mod 4 = 0 \<and> (y mod 100 \<noteq> 0 \<or> y mod 400 = 0)"

definition days_before_year :: "int \<Rightarrow> int" where
  "days_before_year y = (y - 1) * 365 + (y - 1) div 4 - (y - 1) div 100 + (y - 1) div 400"

definition month_lengths :: "int \<Rightarrow> int list" where
  "month_lengths y = [31, if is_leap y then 29 else 28, 31, 30, 31, 30, 31, 31, 30, 31, 30, 31]"

definition days_in_month :: "int \<Rightarrow> int \<Rightarrow> int" where
  "days_in_month y m = month_lengths y ! nat (m - 1)"

definition days_before_month :: "int \<Rightarrow> int \<Rightarrow> int" where
  "days_before_month y m = sum_list (take (nat (m - 1)) (month_lengths y))"

definition ymd2ord :: "int \<Rightarrow> int \<Rightarrow> int \<Rightarrow> int" where
  \<comment> \<open>\<open>date.toordinal\<close>: 1 is January 1 of year 1\<close>
  "ymd2ord y m d = days_before_year y + days_before_month y m + d"

definition year_of_ord :: "int \<Rightarrow> int" where
  "year_of_ord n =
     (let y = (n - 1) * 400 div 146097 + 1 in
      if n > days_before_year (y + 1) then y + 1 else if n \<le> days_before_year y then y - 1 else y)"

fun month_day :: "int list \<Rightarrow> int \<Rightarrow> int \<Rightarrow> int \<times> int" where
  "month_day [] m d = (m, d)"
| "month_day (l # ls) m d = (if d \<le> l then (m, d) else month_day ls (m + 1) (d - l))"

definition ord2ymd :: "int \<Rightarrow> int \<times> int \<times> int" where
  \<comment> \<open>\<open>date.fromordinal\<close>\<close>
  "ord2ymd n = (let y = year_of_ord n; (m, d) = month_day (month_lengths y) 1 (n - days_before_year y) in (y, m, d))"

section \<open>Text\<close>

definition pad :: "nat \<Rightarrow> int \<Rightarrow> string" where
  "pad k n = (let s = string_of_nat (nat n) in replicate (k - length s) CHR ''0'' @ s)"

definition epoch_ordinal :: int where
  "epoch_ordinal = 719163"

definition day_micros :: int where
  "day_micros = 86400000000"

definition date_text :: "int \<Rightarrow> string" where
  "date_text t =
     (case ord2ymd (t div day_micros + epoch_ordinal) of
        (y, m, d) \<Rightarrow> pad 4 y @ ''-'' @ pad 2 m @ ''-'' @ pad 2 d)"

definition time_text :: "int \<Rightarrow> string" where
  "time_text t =
     (let r = t mod day_micros; s = r div 1000000; us = r mod 1000000
      in pad 2 (s div 3600) @ '':'' @ pad 2 (s div 60 mod 60) @ '':'' @ pad 2 (s mod 60) @
         (if us = 0 then [] else ''.'' @ pad 6 us))"

fun isoformat :: "char \<Rightarrow> datetime \<Rightarrow> string" where
  "isoformat sep (Naive t) = date_text t @ [sep] @ time_text t"
| "isoformat sep (Aware t) = date_text t @ [sep] @ time_text t @ ''+00:00''"

definition datetime_str :: "datetime \<Rightarrow> string" where
  "datetime_str = isoformat (CHR '' '')"

definition read_digits :: "nat \<Rightarrow> string \<Rightarrow> (int \<times> string) option" where
  "read_digits k s =
     (if length s \<ge> k \<and> list_all is_digit (take k s) then Some (digits_value (take k s), drop k s) else None)"

definition read_char :: "char \<Rightarrow> string \<Rightarrow> string option" where
  "read_char c s = (case s of [] \<Rightarrow> None | c' # r \<Rightarrow> if c' = c then Some r else None)"

definition read_fraction :: "string \<Rightarrow> int option" where
  \<comment> \<open>the digits after the seconds: six of them count, the rest is cut off\<close>
  "read_fraction s =
     (if s \<noteq> [] \<and> list_all is_digit s
      then Some (digits_value (take 6 s) * 10 ^ (6 - length (take 6 s))) else None)"

definition read_time :: "string \<Rightarrow> (int \<times> int \<times> int \<times> int) option" where
  \<comment> \<open>\<open>_parse_hh_mm_ss_ff\<close>: hours, then minutes and seconds with or without colons, then a fraction\<close>
  "read_time s =
     Option.bind (read_digits 2 s) (\<lambda>(h, r).
       if r = [] then Some (h, 0, 0, 0)
       else
         let colon = (hd r = CHR '':'');
             next_part = (\<lambda>r. if colon then read_char (CHR '':'') r else Some r) in
         Option.bind (next_part r) (\<lambda>r. Option.bind (read_digits 2 r) (\<lambda>(m, r).
           if r = [] then Some (h, m, 0, 0)
           else
             Option.bind (next_part r) (\<lambda>r. Option.bind (read_digits 2 r) (\<lambda>(sec, r).
               if r = [] then Some (h, m, sec, 0)
               else if hd r \<in> {CHR ''.'', CHR '',''}
               then map_option (\<lambda>us. (h, m, sec, us)) (read_fraction (tl r))
               else None)))))"

definition micros_of :: "int \<times> int \<times> int \<times> int \<Rightarrow> int" where
  "micros_of t = (case t of (h, m, s, us) \<Rightarrow> ((h * 60 + m) * 60 + s) * 1000000 + us)"

definition read_date :: "string \<Rightarrow> ((int \<times> int \<times> int) \<times> string) option" where
  "read_date s =
     Option.bind (read_digits 4 s) (\<lambda>(y, r).
       let dash = (r \<noteq> [] \<and> hd r = CHR ''-'');
           next_part = (\<lambda>r. if dash then read_char (CHR ''-'') r else Some r) in
       Option.bind (next_part r) (\<lambda>r. Option.bind (read_digits 2 r) (\<lambda>(m, r).
       Option.bind (next_part r) (\<lambda>r. Option.bind (read_digits 2 r) (\<lambda>(d, r).
         Some ((y, m, d), r))))))"

definition is_zone_start :: "char \<Rightarrow> bool" where
  "is_zone_start c \<longleftrightarrow> c \<in> {CHR ''+'', CHR ''-'', CHR ''Z''}"

definition read_zone :: "string \<Rightarrow> int option option" where
  \<comment> \<open>no zone, or an offset in microseconds of less than a day; \<open>None\<close> is an error\<close>
  "read_zone s =
     (case s of
        [] \<Rightarrow> Some None
      | c # r \<Rightarrow>
          if c = CHR ''Z'' then (if r = [] then Some (Some 0) else None)
          else
            Option.bind (read_time r) (\<lambda>t.
              let offset = micros_of t in
              if offset < day_micros then Some (Some (if c = CHR ''-'' then - offset else offset)) else None))"

definition valid_date :: "int \<Rightarrow> int \<Rightarrow> int \<Rightarrow> bool" where
  "valid_date y m d \<longleftrightarrow> 1 \<le> y \<and> y \<le> 9999 \<and> 1 \<le> m \<and> m \<le> 12 \<and> 1 \<le> d \<and> d \<le> days_in_month y m"

definition valid_time :: "int \<times> int \<times> int \<times> int \<Rightarrow> bool" where
  "valid_time t = (case t of (h, m, s, us) \<Rightarrow> h < 24 \<and> m < 60 \<and> s < 60)"

definition read_iso :: "string \<Rightarrow> datetime option" where
  "read_iso s =
     Option.bind (read_date s) (\<lambda>((y, m, d), r).
       if \<not> valid_date y m d then None
       else
         let days = (ymd2ord y m d - epoch_ordinal) * day_micros in
         if r = [] then Some (Naive days)
         else
           let text = tl r in
           Option.bind (read_time (takeWhile (\<lambda>c. \<not> is_zone_start c) text)) (\<lambda>t.
             if \<not> valid_time t then None
             else
               Option.bind (read_zone (dropWhile (\<lambda>c. \<not> is_zone_start c) text)) (\<lambda>z.
                 Some (case z of None \<Rightarrow> Naive (days + micros_of t) | Some offset \<Rightarrow> Aware (days + micros_of t - offset)))))"

definition fromisoformat :: "string \<Rightarrow> datetime result" where
  "fromisoformat s =
     (case read_iso s of
        Some d \<Rightarrow> Inr d
      | None \<Rightarrow> Inl (ValueError (''Invalid isoformat string: '' @ repr_string s)))"

section \<open>Round trips\<close>

lemma div_step: "0 < k \<Longrightarrow> y div k = (y - 1) div k + (if y mod k = 0 then 1 else 0)" for y k :: int
proof -
  assume k: "0 < k"
  have m: "0 \<le> y mod k" "y mod k < k" using k by simp_all
  have y: "y = k * (y div k) + y mod k" by simp
  show ?thesis
  proof (cases "y mod k = 0")
    case True
    then have "(y - 1) div k = y div k - 1"
      using k y by (intro int_div_pos_eq [where r = "k - 1"]) (auto simp: algebra_simps)
    then show ?thesis using True by simp
  next
    case False
    then have "(y - 1) div k = y div k"
      using k y m by (intro int_div_pos_eq [where r = "y mod k - 1"]) (auto simp: algebra_simps)
    then show ?thesis using False by simp
  qed
qed

lemma leap_mod: "y mod 400 = 0 \<Longrightarrow> y mod 100 = 0" "y mod 100 = 0 \<Longrightarrow> y mod 4 = 0" for y :: int
proof -
  have "(100 :: int) dvd 400" "(4 :: int) dvd 100" by simp_all
  then show "y mod 400 = 0 \<Longrightarrow> y mod 100 = 0" "y mod 100 = 0 \<Longrightarrow> y mod 4 = 0"
    by (auto simp only: mod_eq_0_iff_dvd dest: dvd_trans)
qed

lemma days_before_year_Suc: "days_before_year (y + 1) = days_before_year y + (if is_leap y then 366 else 365)"
proof -
  have steps: "y div 4 = (y - 1) div 4 + (if y mod 4 = 0 then 1 else 0)"
    "y div 100 = (y - 1) div 100 + (if y mod 100 = 0 then 1 else 0)"
    "y div 400 = (y - 1) div 400 + (if y mod 400 = 0 then 1 else 0)"
    by (rule div_step; simp only: zero_less_numeral)+
  have regroup: "y * 365 + (a + p) - (b + q) + (c + r) = (y - 1) * 365 + a - b + c + 365 + p - q + r" for a b c p q r :: int
    by (simp add: algebra_simps)
  have "days_before_year (y + 1) = y * 365 + y div 4 - y div 100 + y div 400"
    by (simp add: days_before_year_def)
  also have "\<dots> = days_before_year y + 365 + (if y mod 4 = 0 then 1 else 0) - (if y mod 100 = 0 then 1 else 0) + (if y mod 400 = 0 then 1 else 0)"
    unfolding steps days_before_year_def by (rule regroup)
  finally show ?thesis
    using leap_mod [of y] unfolding is_leap_def
    by (cases "y mod 400 = 0"; cases "y mod 100 = 0"; cases "y mod 4 = 0") simp_all
qed

lemma div_bounds: "0 < k \<Longrightarrow> k * (x div k) \<le> x \<and> x \<le> k * (x div k) + (k - 1)" for x k :: int
  using mult_div_mod_eq [of k x] pos_mod_bound [of k x] pos_mod_sign [of k x] by linarith

lemma year_of_ord_bounds: "days_before_year (year_of_ord n) < n \<and> n \<le> days_before_year (year_of_ord n + 1)"
proof -
  define k where "k = (n - 1) * 400 div 146097"
  have k: "146097 * k \<le> (n - 1) * 400" "(n - 1) * 400 \<le> 146097 * k + 146096"
    using div_bounds [of 146097 "(n - 1) * 400"] unfolding k_def by simp_all
  have low: "days_before_year (k + 1) < n"
    using k div_bounds [of 4 k] div_bounds [of 100 k] div_bounds [of 400 k]
    unfolding days_before_year_def by simp
  have "n \<le> days_before_year (k + 2) + 2"
    using k div_bounds [of 4 "k + 1"] div_bounds [of 100 "k + 1"] div_bounds [of 400 "k + 1"]
    unfolding days_before_year_def by simp
  then have high: "n \<le> days_before_year (k + 3)"
    using days_before_year_Suc [of "k + 2"] by (simp add: add.assoc split: if_splits)
  show ?thesis
    using low high unfolding year_of_ord_def k_def [symmetric] Let_def by (auto simp: add.commute)
qed

lemma month_day_sound:
  "month_day ls m d = (m', d') \<Longrightarrow> 0 < d \<Longrightarrow> d \<le> sum_list ls \<Longrightarrow>
     m \<le> m' \<and> m' < m + int (length ls) \<and> 0 < d' \<and> d' \<le> ls ! nat (m' - m) \<and> sum_list (take (nat (m' - m)) ls) + d' = d"
proof (induction ls m d rule: month_day.induct)
  case (2 l ls m d)
  show ?case
  proof (cases "d \<le> l")
    case False
    with 2 have IH: "m + 1 \<le> m' \<and> m' < m + 1 + int (length ls) \<and> 0 < d' \<and> d' \<le> ls ! nat (m' - (m + 1)) \<and>
        sum_list (take (nat (m' - (m + 1))) ls) + d' = d - l" by simp
    then have "nat (m' - m) = Suc (nat (m' - (m + 1)))"
      using Suc_nat_eq_nat_zadd1 [of "m' - (m + 1)"] by simp
    then show ?thesis using IH by simp
  qed (use 2 in simp)
qed simp

lemma ord2ymd_sound:
  assumes "ord2ymd n = (y, m, d)"
  shows "ymd2ord y m d = n" "1 \<le> m" "m \<le> 12" "1 \<le> d" "d \<le> days_in_month y m" "y = year_of_ord n"
proof -
  let ?y = "year_of_ord n"
  from assms have y: "y = ?y" and md: "month_day (month_lengths ?y) 1 (n - days_before_year ?y) = (m, d)"
    by (auto simp: ord2ymd_def Let_def split: prod.splits)
  have sum: "sum_list (month_lengths ?y) = days_before_year (?y + 1) - days_before_year ?y"
    by (simp add: days_before_year_Suc month_lengths_def)
  note s = month_day_sound [OF md]
  have pre: "0 < n - days_before_year ?y" "n - days_before_year ?y \<le> sum_list (month_lengths ?y)"
    using year_of_ord_bounds [of n] unfolding sum by simp_all
  note s = s [OF pre]
  show "y = year_of_ord n" by (rule y)
  show "ymd2ord y m d = n"
    using s by (simp add: ymd2ord_def days_before_month_def y)
  show "1 \<le> m" "m \<le> 12" "1 \<le> d" "d \<le> days_in_month y m"
    using s by (simp_all add: y days_in_month_def month_lengths_def)
qed

lemma length_string_of_nat: "n < 10 ^ k \<Longrightarrow> 0 < k \<Longrightarrow> length (string_of_nat n) \<le> k"
proof (induction k arbitrary: n)
  case (Suc k)
  show ?case
  proof (cases "n < 10")
    case False
    then have "k \<noteq> 0" using Suc.prems by (cases k) auto
    have "n div 10 < 10 ^ k" using Suc.prems(1) by (simp add: less_mult_imp_div_less mult.commute)
    then have "length (string_of_nat (n div 10)) \<le> k" using Suc.IH \<open>k \<noteq> 0\<close> by simp
    then show ?thesis using False by (subst string_of_nat.simps) simp
  qed (subst string_of_nat.simps, simp)
qed simp

lemma digits_value_zeros: "digits_value (replicate k CHR ''0'' @ s) = digits_value s"
proof -
  have "foldl (\<lambda>n c. 10 * n + digit_value c) 0 (replicate k CHR ''0'') = 0"
    by (induction k) (simp_all add: digit_value_def)
  then show ?thesis by (simp add: digits_value_def)
qed

lemma pad_digits: "c \<in> set (pad k n) \<Longrightarrow> is_digit c"
  using string_of_nat_digits by (fastforce simp: pad_def Let_def is_digit_def)

lemma length_pad: "0 \<le> n \<Longrightarrow> n < 10 ^ k \<Longrightarrow> 0 < k \<Longrightarrow> length (pad k n) = k"
proof -
  assume n: "0 \<le> n" "n < 10 ^ k" "0 < k"
  then have "int (nat n) < int (10 ^ k)" by simp
  then have "nat n < 10 ^ k" by (simp only: of_nat_less_iff)
  then show ?thesis using length_string_of_nat [of "nat n" k] n(3) by (simp add: pad_def Let_def)
qed

lemma digits_value_pad: "0 \<le> n \<Longrightarrow> digits_value (pad k n) = n"
  by (simp add: pad_def Let_def digits_value_zeros)

lemma read_digits_pad [simp]:
  assumes "0 \<le> n" "n < 10 ^ k" "0 < k"
  shows "read_digits k (pad k n @ r) = Some (n, r)"
  using length_pad [OF assms] digits_value_pad [OF assms(1)] pad_digits
  by (auto simp: read_digits_def list_all_iff)

lemma read_char_simp [simp]: "read_char c (c # r) = Some r"
  by (simp add: read_char_def)

definition instant_year :: "int \<Rightarrow> int" where
  "instant_year t = year_of_ord (t div day_micros + epoch_ordinal)"

definition representable :: "datetime \<Rightarrow> bool" where
  \<comment> \<open>\<open>MINYEAR\<close> to \<open>MAXYEAR\<close>\<close>
  "representable d \<longleftrightarrow> 1 \<le> instant_year (dt_value d) \<and> instant_year (dt_value d) \<le> 9999"

lemma days_before_year_mono: "y \<le> y' \<Longrightarrow> days_before_year y \<le> days_before_year y'"
proof (induction y' rule: int_ge_induct)
  case (step y')
  then show ?case using days_before_year_Suc [of y'] by (simp split: if_splits)
qed simp

lemma year_of_ord_le: "year_of_ord n \<le> y \<longleftrightarrow> n \<le> days_before_year (y + 1)"
proof
  show "n \<le> days_before_year (y + 1)" if "year_of_ord n \<le> y"
    using year_of_ord_bounds [of n] days_before_year_mono [of "year_of_ord n + 1" "y + 1"] that by simp
  show "year_of_ord n \<le> y" if "n \<le> days_before_year (y + 1)"
    using year_of_ord_bounds [of n] days_before_year_mono [of "y + 1" "year_of_ord n"] that by (cases "year_of_ord n \<le> y") simp_all
qed

lemma representable_range:
  "representable d \<longleftrightarrow> - 62135596800000000 \<le> dt_value d \<and> dt_value d < 253402300800000000"
proof -
  let ?n = "dt_value d div day_micros + epoch_ordinal"
  have "1 \<le> year_of_ord ?n \<longleftrightarrow> 1 \<le> ?n" using year_of_ord_le [of ?n 0] by (simp add: days_before_year_def) linarith
  moreover have "year_of_ord ?n \<le> 9999 \<longleftrightarrow> ?n \<le> 3652059" using year_of_ord_le [of ?n 9999] by (simp add: days_before_year_def)
  moreover have "dt_value d = 86400000000 * (dt_value d div 86400000000) + dt_value d mod 86400000000"
    "0 \<le> dt_value d mod 86400000000" "dt_value d mod 86400000000 < 86400000000" by simp_all
  ultimately show ?thesis unfolding representable_def instant_year_def day_micros_def epoch_ordinal_def by linarith
qed

definition dt_plus :: "datetime \<Rightarrow> timedelta \<Rightarrow> datetime result" where
  \<comment> \<open>\<open>datetime + timedelta\<close>, for an aware datetime in UTC\<close>
  "dt_plus d delta =
     (if representable (dt_add d delta) then Inr (dt_add d delta) else Inl (OverflowError ''date value out of range''))"

lemma dt_value_add [simp]: "dt_value (dt_add d s) = dt_value d + s" "is_aware (dt_add d s) = is_aware d"
  by (cases d; simp)+

lemma representable_between:
  "representable d \<Longrightarrow> representable (dt_add d e) \<Longrightarrow> 0 \<le> f \<Longrightarrow> f \<le> e \<Longrightarrow> representable (dt_add d f)"
  by (simp add: representable_range)

lemma read_date_text:
  assumes "1 \<le> instant_year t" "instant_year t \<le> 9999"
  shows "\<exists>y m d. read_date (date_text t @ r) = Some ((y, m, d), r) \<and> valid_date y m d \<and>
    (ymd2ord y m d - epoch_ordinal) * day_micros = t - t mod day_micros"
proof -
  obtain y m d where ymd: "ord2ymd (t div day_micros + epoch_ordinal) = (y, m, d)" by (cases "ord2ymd (t div day_micros + epoch_ordinal)")
  note s = ord2ymd_sound [OF ymd]
  have y: "1 \<le> y" "y \<le> 9999" using assms s(6) by (simp_all add: instant_year_def)
  have "d \<le> 31"
  proof -
    have "m \<in> {1..12}" using s(2,3) by simp
    then have "m = 1 \<or> m = 2 \<or> m = 3 \<or> m = 4 \<or> m = 5 \<or> m = 6 \<or> m = 7 \<or> m = 8 \<or> m = 9 \<or> m = 10 \<or> m = 11 \<or> m = 12" by (simp only: atLeastAtMost_iff) presburger
    then have "days_in_month y m \<le> 31" by (elim disjE) (simp_all add: days_in_month_def month_lengths_def)
    then show ?thesis using s(5) by simp
  qed
  then have "read_date (date_text t @ r) = Some ((y, m, d), r)"
    using s(2-4) y by (simp add: date_text_def ymd read_date_def Let_def)
  moreover have "valid_date y m d" using s y by (simp add: valid_date_def)
  moreover have "(ymd2ord y m d - epoch_ordinal) * day_micros = t - t mod day_micros"
    using s(1) minus_mod_eq_div_mult [of t day_micros] by simp
  ultimately show ?thesis by blast
qed

lemma hms_split: "0 \<le> s \<Longrightarrow> s < 86400 \<Longrightarrow> 0 \<le> s div 3600 \<and> s div 3600 < 24 \<and> 0 \<le> s div 60 mod 60 \<and> s div 60 mod 60 < 60 \<and>
    0 \<le> s mod 60 \<and> s mod 60 < 60 \<and> (s div 3600 * 60 + s div 60 mod 60) * 60 + s mod 60 = s" for s :: int
proof -
  assume s: "0 \<le> s" "s < 86400"
  have "s div 3600 = s div 60 div 60" using zdiv_zmult2_eq [of 60 s 60] by simp
  then have "s div 3600 * 60 + s div 60 mod 60 = s div 60" using div_mult_mod_eq [of "s div 60" 60] by simp
  then have "(s div 3600 * 60 + s div 60 mod 60) * 60 + s mod 60 = s" using div_mult_mod_eq [of s 60] by simp
  moreover have "s div 3600 < 24" "0 \<le> s div 3600" using s by (simp_all add: pos_imp_zdiv_nonneg_iff div_less_iff_less_mult)
  moreover have "0 \<le> x mod 60" "x mod 60 < 60" for x :: int by simp_all
  ultimately show ?thesis by blast
qed

lemma read_time_text:
  "\<exists>x. read_time (time_text t) = Some x \<and> valid_time x \<and> micros_of x = t mod day_micros"
proof -
  define r where "r = t mod day_micros"
  define s where "s = r div 1000000"
  define us where "us = r mod 1000000"
  have r: "0 \<le> r" "r < 86400000000" unfolding r_def day_micros_def by simp_all
  have us: "0 \<le> us" "us < 1000000" unfolding us_def by simp_all
  have rs: "s * 1000000 + us = r" unfolding s_def us_def by simp
  have s: "0 \<le> s" "s < 86400" using r rs us by linarith+
  note h = hms_split [OF s]
  let ?x = "(s div 3600, s div 60 mod 60, s mod 60, us)"
  have shape: "time_text t = pad 2 (s div 3600) @ '':'' @ pad 2 (s div 60 mod 60) @ '':'' @ pad 2 (s mod 60) @
      (if us = 0 then [] else ''.'' @ pad 6 us)"
    by (simp add: time_text_def Let_def s_def us_def r_def)
  have frac: "read_fraction (pad 6 us) = Some us"
    using length_pad [of us 6] digits_value_pad [of us 6] pad_digits [of _ 6 us] us
    by (auto simp: read_fraction_def list_all_iff)
  have last: "read_digits 2 (pad 2 (s mod 60)) = Some (s mod 60, [])"
    using read_digits_pad [of "s mod 60" 2 "[]"] h by simp
  have "read_time (time_text t) = Some ?x"
    using h frac last unfolding shape by (auto simp: read_time_def Let_def)
  moreover have "valid_time ?x" using h by (simp add: valid_time_def)
  moreover have "micros_of ?x = t mod day_micros" using h rs unfolding micros_of_def r_def [symmetric] by simp
  ultimately show ?thesis by blast
qed

lemma time_text_chars: "c \<in> set (time_text t) \<Longrightarrow> \<not> is_zone_start c"
proof -
  assume "c \<in> set (time_text t)"
  then have "is_digit c \<or> c = CHR '':'' \<or> c = CHR ''.''"
    by (auto simp: time_text_def Let_def split: if_splits dest: pad_digits)
  moreover have "\<not> is_digit (CHR ''+'')" "\<not> is_digit (CHR ''-'')" "\<not> is_digit (CHR ''Z'')"
    by (simp_all add: is_digit_def less_eq_char_def)
  ultimately show ?thesis by (auto simp: is_zone_start_def)
qed

lemma read_zone_utc: "read_zone ''+00:00'' = Some (Some 0)"
  by (simp add: read_zone_def read_time_def read_digits_def is_digit_def less_eq_char_def digits_value_def digit_value_def
      Let_def read_char_def micros_of_def day_micros_def)

lemma read_iso_parts:
  assumes "read_date s = Some ((y, m, d), sep # time @ zone)" "valid_date y m d"
    and "read_time time = Some x" "valid_time x" "\<And>c. c \<in> set time \<Longrightarrow> \<not> is_zone_start c"
    and "zone = [] \<or> is_zone_start (hd zone)" "read_zone zone = Some z"
  shows "read_iso s = Some (case z of
      None \<Rightarrow> Naive ((ymd2ord y m d - epoch_ordinal) * day_micros + micros_of x)
    | Some offset \<Rightarrow> Aware ((ymd2ord y m d - epoch_ordinal) * day_micros + micros_of x - offset))"
proof -
  have "takeWhile (\<lambda>c. \<not> is_zone_start c) (time @ zone) = time" "dropWhile (\<lambda>c. \<not> is_zone_start c) (time @ zone) = zone"
    using assms(5,6) by (cases zone; simp add: takeWhile_append dropWhile_append)+
  then show ?thesis using assms(1-4,7) by (simp add: read_iso_def Let_def)
qed

lemma fromisoformat_isoformat:
  assumes "representable d"
  shows "fromisoformat (isoformat sep d) = Inr d"
proof -
  let ?t = "dt_value d" and ?z = "case d of Naive _ \<Rightarrow> [] | Aware _ \<Rightarrow> ''+00:00''"
  have y: "1 \<le> instant_year ?t" "instant_year ?t \<le> 9999" using assms by (simp_all add: representable_def)
  obtain x where x: "read_time (time_text ?t) = Some x" "valid_time x" "micros_of x = ?t mod day_micros"
    using read_time_text [of ?t] by blast
  obtain y m dd where rd: "read_date (date_text ?t @ sep # time_text ?t @ ?z) = Some ((y, m, dd), sep # time_text ?t @ ?z)"
    "valid_date y m dd" "(ymd2ord y m dd - epoch_ordinal) * day_micros = ?t - ?t mod day_micros"
    using read_date_text [OF y] by blast
  have shape: "isoformat sep d = date_text ?t @ sep # time_text ?t @ ?z" by (cases d) simp_all
  have zone: "read_zone ?z = Some (case d of Naive _ \<Rightarrow> None | Aware _ \<Rightarrow> Some 0)"
    by (cases d) (simp_all add: read_zone_utc, simp add: read_zone_def)
  have hd: "?z = [] \<or> is_zone_start (hd ?z)" by (cases d) (simp_all add: is_zone_start_def)
  have "read_iso (isoformat sep d) = Some d"
    using read_iso_parts [OF rd(1,2) x(1,2) time_text_chars hd zone] unfolding rd(3) x(3) shape by (cases d) simp_all
  then show ?thesis by (simp add: fromisoformat_def)
qed

end
