(* ===== verification/Domain.thy ===== *)
theory Domain
  imports Datetimes
begin

text \<open>
  \<open>packages/domain\<close>: identifiers and scopes, time intervals, and the unit types. A unit type is its
  decimal; arithmetic of the default context rounds to 28 digits, and \<open>energy_for\<close> and \<open>average_power\<close>
  work with a context of at least 50 digits that is wide enough for the exact product. The datetimes of
  an interval that is split are taken in UTC, where adding a step is adding to the instant.
\<close>

section \<open>Identifiers\<close>

definition is_lower_letter :: "char \<Rightarrow> bool" where
  "is_lower_letter c \<longleftrightarrow> CHR ''a'' \<le> c \<and> c \<le> CHR ''z''"

definition id_pattern :: "string \<Rightarrow> bool" where
  \<comment> \<open>\<open>[a-z][a-z0-9_-]{2,63}\<close>\<close>
  "id_pattern s \<longleftrightarrow> s \<noteq> [] \<and> is_lower_letter (hd s) \<and> 3 \<le> length s \<and> length s \<le> 64 \<and>
     (\<forall>c \<in> set (tl s). is_lower_letter c \<or> is_digit c \<or> c = CHR ''_'' \<or> c = CHR ''-'')"

definition validate_id :: "string \<Rightarrow> string result" where
  "validate_id s =
     (if \<not> id_pattern s then Inl (ValueError (''identifier must be 3-64 lowercase alphanumeric, '_' or '-'' @ [CHR 0x27]))
      else Inr s)"

definition new_id :: "string \<Rightarrow> string \<Rightarrow> string result" where
  \<comment> \<open>\<open>uuid_hex\<close> is the text of a fresh UUID\<close>
  "new_id uuid_hex pre = rbind (validate_id pre) (\<lambda>_. Inr (pre @ ''-'' @ take 16 uuid_hex))"

definition assert_scope :: "string \<Rightarrow> string \<Rightarrow> string option \<Rightarrow> unit result" where
  "assert_scope expected_tenant actual_tenant site =
     (if expected_tenant \<noteq> actual_tenant then Inl (PermissionError ''cross-tenant access denied'')
      else case site of None \<Rightarrow> Inr () | Some s \<Rightarrow> rbind (validate_id s) (\<lambda>_. Inr ()))"

section \<open>Intervals\<close>

definition ensure_aware :: "datetime \<Rightarrow> datetime result" where
  "ensure_aware value =
     (if \<not> is_aware value then Inl (ValueError ''datetime must be timezone-aware'') else Inr value)"

record time_interval =
  iv_start :: datetime
  iv_end :: datetime

definition check_interval :: "time_interval \<Rightarrow> unit result" where
  "check_interval iv =
     rbind (ensure_aware (iv_start iv)) (\<lambda>_. rbind (ensure_aware (iv_end iv)) (\<lambda>_.
     rbind (dt_ge (iv_start iv) (iv_end iv)) (\<lambda>empty.
       if empty then Inl (ValueError ''interval must be half-open with end > start'') else Inr ())))"

definition mk_interval :: "datetime \<Rightarrow> datetime \<Rightarrow> time_interval result" where
  "mk_interval a b = (let iv = \<lparr>iv_start = a, iv_end = b\<rparr> in rbind (check_interval iv) (\<lambda>_. Inr iv))"

definition duration_hours :: "time_interval \<Rightarrow> decimal result" where
  "duration_hours iv =
     rbind (dt_sub (iv_end iv) (iv_start iv)) (\<lambda>d.
       let h = repr_value (to_double (to_double (of_int d / 1000000) / 3600)) in
       if h < 0 then Inl (ValueError ''duration cannot be negative'') else Inr h)"

definition contains :: "time_interval \<Rightarrow> datetime \<Rightarrow> bool result" where
  "contains iv moment =
     rbind (ensure_aware moment) (\<lambda>_. rbind (dt_ge moment (iv_start iv)) (\<lambda>started.
       if \<not> started then Inr False else dt_lt moment (iv_end iv)))"

definition overlaps :: "time_interval \<Rightarrow> time_interval \<Rightarrow> bool result" where
  "overlaps a b =
     rbind (dt_lt (iv_start a) (iv_end b)) (\<lambda>before.
       if \<not> before then Inr False else dt_lt (iv_start b) (iv_end a))"

function split_from :: "instant \<Rightarrow> instant \<Rightarrow> timedelta \<Rightarrow> time_interval list result" where
  \<comment> \<open>the loop of \<open>split\<close>, for aware datetimes in UTC; the caller has checked that the step is positive\<close>
  "split_from current finish step =
     (if current < finish \<and> 0 < step then
        if \<not> representable (Aware (current + step)) then Inl (OverflowError ''date value out of range'')
        else
          let following = min (current + step) finish in
          rbind (mk_interval (Aware current) (Aware following)) (\<lambda>piece.
          rbind (split_from following finish step) (\<lambda>pieces. Inr (piece # pieces)))
      else Inr [])"
  by pat_completeness auto
termination by (relation "measure (\<lambda>(current, finish, step). nat (finish - current))") auto

declare split_from.simps [simp del]

definition split_interval :: "time_interval \<Rightarrow> timedelta \<Rightarrow> time_interval list result" where
  "split_interval iv step =
     (if step \<le> 0 then Inl (ValueError ''step must be positive'')
      else split_from (dt_value (iv_start iv)) (dt_value (iv_end iv)) step)"

section \<open>Units\<close>

definition mk_duration :: "decimal \<Rightarrow> decimal result" where
  "mk_duration hours = (if hours < 0 then Inl (ValueError ''duration cannot be negative'') else Inr hours)"

definition duration_minutes :: "decimal \<Rightarrow> decimal result" where
  "duration_minutes v = rbind (ddiv v 60) mk_duration"

definition power_add :: "decimal \<Rightarrow> decimal \<Rightarrow> decimal" where
  "power_add a b = dadd a b"

definition power_sub :: "decimal \<Rightarrow> decimal \<Rightarrow> decimal" where
  "power_sub a b = dsub a b"

definition energy_for :: "decimal \<Rightarrow> decimal \<Rightarrow> decimal" where
  \<comment> \<open>the local context has room for all digits of the product\<close>
  "energy_for kw hours = kw * hours"

definition average_power :: "nat \<Rightarrow> decimal \<Rightarrow> decimal \<Rightarrow> decimal result" where
  \<comment> \<open>\<open>prec\<close> is the precision of the local context: 50, or the number of digits of both operands if that is more\<close>
  "average_power prec kwh hours =
     (if hours = 0 then Inl ZeroDivisionError else Inr (round_digits prec (kwh / hours)))"

record money =
  mo_amount :: decimal
  mo_currency :: string

definition is_alpha :: "char \<Rightarrow> bool" where
  "is_alpha c = is_lower_letter (lower_char c)"

definition mk_money :: "decimal \<Rightarrow> string \<Rightarrow> money result" where
  "mk_money amount currency =
     (let normalized = upper currency in
      if length normalized \<noteq> 3 \<or> \<not> list_all is_alpha normalized
      then Inl (ValueError ''currency must be an ISO-like three-letter code'')
      else Inr \<lparr>mo_amount = amount, mo_currency = normalized\<rparr>)"

definition money_compatible :: "money \<Rightarrow> money \<Rightarrow> unit result" where
  "money_compatible a b = (if mo_currency a \<noteq> mo_currency b then Inl (ValueError ''currency mismatch'') else Inr ())"

definition money_add :: "money \<Rightarrow> money \<Rightarrow> money result" where
  "money_add a b = rbind (money_compatible a b) (\<lambda>_. mk_money (dadd (mo_amount a) (mo_amount b)) (mo_currency a))"

definition money_sub :: "money \<Rightarrow> money \<Rightarrow> money result" where
  "money_sub a b = rbind (money_compatible a b) (\<lambda>_. mk_money (dsub (mo_amount a) (mo_amount b)) (mo_currency a))"

definition rounded :: "money \<Rightarrow> nat \<Rightarrow> money result" where
  "rounded m places = rbind (quantize places (mo_amount m)) (\<lambda>a. mk_money a (mo_currency m))"

definition mk_carbon :: "decimal \<Rightarrow> decimal result" where
  "mk_carbon kg = (if kg < 0 then Inl (ValueError ''carbon cannot be negative'') else Inr kg)"

definition mk_percentage :: "decimal \<Rightarrow> decimal result" where
  "mk_percentage ratio =
     (if \<not> (0 \<le> ratio \<and> ratio \<le> 1) then Inl (ValueError ''percentage ratio must be in [0, 1]'') else Inr ratio)"

section \<open>Splitting an interval\<close>

definition interval_piece :: "instant \<Rightarrow> instant \<Rightarrow> timedelta \<Rightarrow> nat \<Rightarrow> time_interval" where
  "interval_piece start finish step i =
     \<lparr>iv_start = Aware (start + int i * step), iv_end = Aware (min (start + int (Suc i) * step) finish)\<rparr>"

definition piece_count :: "instant \<Rightarrow> instant \<Rightarrow> timedelta \<Rightarrow> nat" where
  \<comment> \<open>the length of the interval in steps, rounded up\<close>
  "piece_count start finish step = nat (- ((start - finish) div step))"

lemma piece_count_0: "0 < step \<Longrightarrow> finish \<le> start \<Longrightarrow> piece_count start finish step = 0"
  by (simp add: piece_count_def pos_imp_zdiv_nonneg_iff)

lemma piece_count_Suc:
  assumes "0 < step" "start < finish"
  shows "piece_count start finish step = Suc (piece_count (start + step) finish step)"
proof -
  have "(start + step - finish) div step = (start - finish) div step + 1"
    using assms(1) div_add_self2 [of step "start - finish"] by (simp add: algebra_simps)
  moreover have "(start - finish) div step < 0" using assms by (simp add: neg_imp_zdiv_neg_iff div_neg_pos_less0)
  ultimately show ?thesis by (simp add: piece_count_def)
qed

lemma piece_count_bounds:
  assumes "0 < step" "start < finish"
  shows "finish \<le> start + int (piece_count start finish step) * step"
    "start + (int (piece_count start finish step) - 1) * step < finish"
proof -
  let ?q = "(start - finish) div step"
  have "?q < 0" using assms by (simp add: div_neg_pos_less0)
  then have n: "int (piece_count start finish step) = - ?q" by (simp add: piece_count_def)
  define r where "r = (start - finish) mod step"
  have "start - finish = ?q * step + r" "0 \<le> r" "r < step"
    using assms(1) by (simp_all add: r_def)
  then show "finish \<le> start + int (piece_count start finish step) * step"
    "start + (int (piece_count start finish step) - 1) * step < finish"
    unfolding n left_diff_distrib by linarith+
qed

lemma split_from_pieces:
  assumes "0 < step" "representable (Aware current)"
  shows "split_from current finish step =
    (if representable (Aware (current + int (piece_count current finish step) * step))
     then Inr (map (interval_piece current finish step) [0..<piece_count current finish step])
     else Inl (OverflowError ''date value out of range''))"
  using assms(2)
proof (induction "nat (finish - current)" arbitrary: current rule: less_induct)
  case less
  show ?case
  proof (cases "current < finish")
    case False
    then show ?thesis using less.prems by (subst split_from.simps) (simp add: piece_count_0 [OF assms(1)])
  next
    case True
    let ?n = "piece_count (current + step) finish step"
    note Suc = piece_count_Suc [OF assms(1) True]
    have total: "current + int (Suc ?n) * step = current + step + int ?n * step"
      by (simp add: algebra_simps)
    have piece: "mk_interval (Aware current) (Aware (min (current + step) finish)) = Inr (interval_piece current finish step 0)"
      using True assms(1) by (simp add: mk_interval_def check_interval_def ensure_aware_def interval_piece_def)
    show ?thesis
    proof (cases "representable (Aware (current + step))")
      case False
      have "\<not> representable (Aware (current + step + int ?n * step))"
      proof
        assume "representable (Aware (current + step + int ?n * step))"
        moreover have "0 \<le> int ?n * step" using assms(1) by simp
        ultimately have "representable (Aware (current + step))"
          using representable_between [OF less.prems, of "step + int ?n * step" step] assms(1) by (simp add: add.assoc)
        with False show False by simp
      qed
      then show ?thesis using True False assms(1) unfolding Suc total by (subst split_from.simps) simp
    next
      case rep: True
      show ?thesis
      proof (cases "current + step < finish")
        case more: True
        then have rest: "split_from (current + step) finish step =
            (if representable (Aware (current + step + int ?n * step)) then Inr (map (interval_piece (current + step) finish step) [0..<?n])
             else Inl (OverflowError ''date value out of range''))"
          using True assms(1) by (intro less.hyps rep) simp
        have shift: "interval_piece (current + step) finish step i = interval_piece current finish step (Suc i)" for i
          by (simp add: interval_piece_def algebra_simps)
        have "map (interval_piece current finish step) [0..<Suc ?n] =
            interval_piece current finish step 0 # map (interval_piece (current + step) finish step) [0..<?n]"
          by (simp only: upt_conv_Cons zero_less_Suc map_Suc_upt [symmetric] list.map map_map comp_def shift [abs_def])
        then show ?thesis
          using True rep assms(1) piece rest more unfolding Suc total
          by (subst split_from.simps) (simp add: Let_def min_def del: upt_Suc)
      next
        case short: False
        then have "split_from (min (current + step) finish) finish step = Inr []" by (subst split_from.simps) simp
        moreover have "?n = 0" using short by (simp add: piece_count_0 [OF assms(1)])
        ultimately show ?thesis
          using True rep assms(1) piece unfolding Suc total by (subst split_from.simps) (simp add: Let_def)
      qed
    qed
  qed
qed

text \<open>
  C35: Splitting an interval partitions it, or overflows. Take an interval of aware datetimes in UTC, a
  positive step, and n the length of the interval in steps, rounded up. If the start plus n steps is still a
  datetime (up to the year 9999), the loop ends with n pieces; they start where the interval starts and
  end where it ends, each begins where the one before it ended, none is empty or longer than the step,
  and all but the last have exactly the length of the step. Otherwise, also when the interval itself ends
  in time, the loop ends with an \<open>OverflowError\<close>, since it adds the step before it takes the minimum.
\<close>
theorem split_interval_partitions:
  assumes "check_interval iv = Inr ()" "0 < step" "representable (iv_start iv)"
  shows "let n = nat (- ((dt_value (iv_start iv) - dt_value (iv_end iv)) div step)) in
    if representable (dt_add (iv_start iv) (int n * step)) then
      \<exists>pieces. split_interval iv step = Inr pieces \<and> length pieces = n \<and> pieces \<noteq> [] \<and>
        iv_start (hd pieces) = iv_start iv \<and> iv_end (last pieces) = iv_end iv \<and>
        (\<forall>p \<in> set pieces. check_interval p = Inr () \<and> dt_value (iv_end p) - dt_value (iv_start p) \<le> step) \<and>
        (\<forall>i. Suc i < length pieces \<longrightarrow> iv_end (pieces ! i) = iv_start (pieces ! Suc i) \<and>
           dt_value (iv_end (pieces ! i)) - dt_value (iv_start (pieces ! i)) = step)
    else split_interval iv step = Inl (OverflowError ''date value out of range'')"
proof -
  obtain a b where ab: "iv_start iv = Aware a" "iv_end iv = Aware b" "a < b"
    using assms(1) by (cases "iv_start iv"; cases "iv_end iv") (auto simp: check_interval_def ensure_aware_def split: if_splits)
  define n where "n = piece_count a b step"
  have n: "nat (- ((dt_value (iv_start iv) - dt_value (iv_end iv)) div step)) = n" by (simp add: n_def piece_count_def ab)
  have run: "split_interval iv step = (if representable (Aware (a + int n * step)) then Inr (map (interval_piece a b step) [0..<n])
      else Inl (OverflowError ''date value out of range''))"
    using assms(2,3) split_from_pieces [of step a b] by (simp add: split_interval_def ab n_def)
  have last: "b \<le> a + int n * step" "a + (int n - 1) * step < b"
    using piece_count_bounds [OF assms(2) ab(3)] by (simp_all add: n_def)
  obtain m where m: "n = Suc m" using piece_count_Suc [OF assms(2) ab(3)] by (simp add: n_def)
  have inner: "a + int (Suc i) * step < b" if "Suc i < n" for i
  proof -
    have "int (Suc i) * step \<le> (int n - 1) * step" using that assms(2) by (intro mult_right_mono) simp_all
    with last(2) show ?thesis by simp
  qed
  have piece: "check_interval (interval_piece a b step i) = Inr ()" "dt_value (iv_end (interval_piece a b step i)) - dt_value (iv_start (interval_piece a b step i)) \<le> step"
    if "i < n" for i
  proof -
    have "a + int i * step < b" using inner [of "i - 1"] that ab(3) by (cases i) simp_all
    then show "check_interval (interval_piece a b step i) = Inr ()" using assms(2)
      by (simp add: check_interval_def ensure_aware_def interval_piece_def algebra_simps)
    show "dt_value (iv_end (interval_piece a b step i)) - dt_value (iv_start (interval_piece a b step i)) \<le> step"
      by (simp add: interval_piece_def algebra_simps)
  qed
  show ?thesis
  proof (cases "representable (Aware (a + int n * step))")
    case True
    let ?ps = "map (interval_piece a b step) [0..<n]"
    have nonempty: "?ps \<noteq> []" by (simp add: m)
    have ends: "iv_start (hd ?ps) = iv_start iv" "iv_end (last ?ps) = iv_end iv"
      using last(1) by (simp_all add: m hd_map last_map ab interval_piece_def del: upt_Suc)
    have pieces: "\<forall>p \<in> set ?ps. check_interval p = Inr () \<and> dt_value (iv_end p) - dt_value (iv_start p) \<le> step"
      using piece by auto
    have steps: "\<forall>i. Suc i < length ?ps \<longrightarrow> iv_end (?ps ! i) = iv_start (?ps ! Suc i) \<and>
        dt_value (iv_end (?ps ! i)) - dt_value (iv_start (?ps ! i)) = step"
      using inner by (auto simp: interval_piece_def algebra_simps)
    have rep: "representable (dt_add (iv_start iv) (int n * step))" using True ab by simp
    show ?thesis
      unfolding Let_def n if_P [OF rep]
      by (intro exI [of _ ?ps] conjI nonempty ends pieces steps) (simp_all add: run True)
  next
    case False
    then show ?thesis unfolding Let_def n using run ab by simp
  qed
qed

theorem split_interval_partitions_witness:
  "(\<exists>pieces. split_interval \<lparr>iv_start = Aware 0, iv_end = Aware 7\<rparr> 3 = Inr pieces \<and> length pieces = 3 \<and>
      iv_start (hd pieces) = Aware 0 \<and> iv_end (last pieces) = Aware 7) \<and>
   split_interval \<lparr>iv_start = Aware 253402300799000000, iv_end = Aware 253402300799999999\<rparr> 600000 =
      Inl (OverflowError ''date value out of range'')"
proof
  show "\<exists>pieces. split_interval \<lparr>iv_start = Aware 0, iv_end = Aware 7\<rparr> 3 = Inr pieces \<and> length pieces = 3 \<and>
      iv_start (hd pieces) = Aware 0 \<and> iv_end (last pieces) = Aware 7"
    using split_interval_partitions [of "\<lparr>iv_start = Aware 0, iv_end = Aware 7\<rparr>" 3]
    by (auto simp: check_interval_def ensure_aware_def representable_range Let_def)
  show "split_interval \<lparr>iv_start = Aware 253402300799000000, iv_end = Aware 253402300799999999\<rparr> 600000 =
      Inl (OverflowError ''date value out of range'')"
    using split_interval_partitions [of "\<lparr>iv_start = Aware 253402300799000000, iv_end = Aware 253402300799999999\<rparr>" 600000]
    by (simp add: check_interval_def ensure_aware_def representable_range Let_def)
qed

end
