(* ===== verification/Approvals.thy ===== *)
theory Approvals
  imports Persistence "HOL-Library.Multiset"
begin

text \<open>
  Risk levels (\<open>packages/risk/classifier.py\<close>) and the approval workflow
  (\<open>packages/approval/workflow.py\<close>): first the in-memory workflow, then the one on PostgreSQL.

  The invariant \<open>wf_request\<close> is the four-eyes principle: distinct approvers, none of them the
  requester, each in a required role, and as many as the risk level demands once the request is
  approved. \<open>approval_step\<close> is the step relation of the in-memory workflow; every reachable
  store satisfies the invariant. The PostgreSQL workflow is related to the in-memory one by the
  abstraction \<open>abs_row\<close>.
\<close>

section \<open>Risk levels\<close>

datatype risk_level = L0 | L1 | L2 | L3 | L4

fun risk_int :: "risk_level \<Rightarrow> int" where
  "risk_int L0 = 0"
| "risk_int L1 = 1"
| "risk_int L2 = 2"
| "risk_int L3 = 3"
| "risk_int L4 = 4"

lemma risk_int_inject: "risk_int a = risk_int b \<longleftrightarrow> a = b"
  by (cases a; cases b) auto

instantiation risk_level :: linorder
begin

definition less_eq_risk_level :: "risk_level \<Rightarrow> risk_level \<Rightarrow> bool" where
  "a \<le> b \<longleftrightarrow> risk_int a \<le> risk_int b"

definition less_risk_level :: "risk_level \<Rightarrow> risk_level \<Rightarrow> bool" where
  "a < b \<longleftrightarrow> risk_int a < risk_int b"

instance
  by standard (auto simp: less_eq_risk_level_def less_risk_level_def risk_int_inject)

end

lemma risk_ge_simps [simp]:
  "(L2 \<le> r) = (r \<in> {L2, L3, L4})" "(L3 \<le> r) = (r \<in> {L3, L4})"
  by (cases r; simp add: less_eq_risk_level_def)+

definition classify :: "bool \<Rightarrow> bool \<Rightarrow> bool \<Rightarrow> bool \<Rightarrow> bool \<Rightarrow> risk_level" where
  "classify external_write energy_action reversible critical_service_impact safety_boundary_change =
     (if safety_boundary_change then L4
      else if critical_service_impact \<or> (energy_action \<and> \<not> reversible) then L3
      else if external_write \<or> energy_action then L2
      else if \<not> reversible then L1
      else L0)"

section \<open>Requests\<close>

datatype approval_status = Pending | Approved | Rejected | Expired

record approval_request =
  ar_id :: string
  ar_plan_id :: string
  ar_tenant_id :: string
  ar_risk :: risk_level
  ar_requested_by :: string
  ar_expires_at :: datetime
  ar_required_roles :: "string set"
  ar_required_count :: int
  ar_approvals :: "(string \<times> string) list"
  ar_status :: approval_status

type_synonym approval_store = "(string, approval_request) dict"

definition risk_minimum :: "risk_level \<Rightarrow> int" where
  "risk_minimum risk = (if L3 \<le> risk then 2 else if L2 \<le> risk then 1 else 0)"

definition create_checks :: "approval_request \<Rightarrow> unit result" where
  "create_checks request =
     (if ar_required_count request < risk_minimum (ar_risk request)
      then Inl (ValueError ''approval count below risk minimum'')
      else if ar_required_count request > 0 \<and> ar_required_roles request = {}
      then Inl (ValueError ''approval roles are required'')
      else Inr ())"

section \<open>The in-memory workflow\<close>

definition create :: "approval_store \<Rightarrow> approval_request \<Rightarrow> unit result \<times> approval_store" where
  "create st request =
     (case create_checks request of
        Inl e \<Rightarrow> (Inl e, st)
      | Inr _ \<Rightarrow>
          (case dget st (ar_id request) of
             Some old \<Rightarrow>
               (if old = request then (Inr (), st)
                else (Inl (ValueError ''approval ID already exists with different requirements''), st))
           | None \<Rightarrow> (Inr (), dput (ar_id request) request st)))"

definition add_vote :: "approval_request \<Rightarrow> string \<Rightarrow> string \<Rightarrow> approval_request" where
  "add_vote request actor_id role =
     (let approvals = ar_approvals request @ [(actor_id, role)];
          status = (if int (length approvals) \<ge> ar_required_count request then Approved else Pending)
      in request\<lparr>ar_approvals := approvals, ar_status := status\<rparr>)"

definition approve ::
  "approval_store \<Rightarrow> string \<Rightarrow> string \<Rightarrow> string \<Rightarrow> datetime \<Rightarrow> approval_request result \<times> approval_store" where
  "approve st request_id actor_id role now =
     (case dget st request_id of
        None \<Rightarrow> (Inl (KeyError request_id), st)
      | Some request \<Rightarrow>
          if ar_status request \<noteq> Pending then (Inl (ValueError ''approval is not pending''), st)
          else (case dt_ge now (ar_expires_at request) of
             Inl e \<Rightarrow> (Inl e, st)
           | Inr True \<Rightarrow>
               (Inl (ValueError ''approval expired''),
                dput request_id (request\<lparr>ar_status := Expired\<rparr>) st)
           | Inr False \<Rightarrow>
               if actor_id = ar_requested_by request
               then (Inl (PermissionError ''requester cannot approve own high-risk action''), st)
               else if role \<notin> ar_required_roles request
               then (Inl (PermissionError ''actor role cannot approve request''), st)
               else if \<exists>(existing, _) \<in> set (ar_approvals request). existing = actor_id
               then (Inr request, st)
               else let updated = add_vote request actor_id role
                    in (Inr updated, dput request_id updated st)))"

definition reject :: "approval_store \<Rightarrow> string \<Rightarrow> approval_request result \<times> approval_store" where
  "reject st request_id =
     (case dget st request_id of
        None \<Rightarrow> (Inl (KeyError request_id), st)
      | Some request \<Rightarrow>
          if ar_status request = Rejected then (Inr request, st)
          else if ar_status request \<noteq> Pending then (Inl (ValueError ''approval is not pending''), st)
          else let updated = request\<lparr>ar_status := Rejected\<rparr>
               in (Inr updated, dput request_id updated st))"

definition validate_modification ::
  "approval_status \<Rightarrow> string \<Rightarrow> string \<Rightarrow> risk_level \<Rightarrow> datetime \<Rightarrow> string set \<Rightarrow> int \<Rightarrow> nat \<Rightarrow> unit result" where
  "validate_modification status requested_by actor_id risk expires_at required_roles required_count vote_count =
     (if status \<noteq> Pending \<or> vote_count \<noteq> 0
      then Inl (ValueError ''only an unvoted pending approval can be modified'')
      else if actor_id \<noteq> requested_by
      then Inl (PermissionError ''only the approval requester can modify it'')
      else if required_count < risk_minimum risk \<or> (required_count \<noteq> 0 \<and> required_roles = {})
      then Inl (ValueError ''approval requirements are below the risk minimum'')
      else if \<not> is_aware expires_at
      then Inl (ValueError ''approval expiry must be timezone-aware'')
      else Inr ())"

definition modify ::
  "approval_store \<Rightarrow> string \<Rightarrow> string \<Rightarrow> datetime \<Rightarrow> string set \<Rightarrow> int \<Rightarrow>
   approval_request result \<times> approval_store" where
  "modify st request_id actor_id expires_at required_roles required_count =
     (case dget st request_id of
        None \<Rightarrow> (Inl (KeyError request_id), st)
      | Some request \<Rightarrow>
          (case validate_modification (ar_status request) (ar_requested_by request) actor_id
                  (ar_risk request) expires_at required_roles required_count
                  (length (ar_approvals request)) of
             Inl e \<Rightarrow> (Inl e, st)
           | Inr _ \<Rightarrow>
               let updated = request\<lparr>ar_expires_at := expires_at, ar_required_roles := required_roles,
                                     ar_required_count := required_count\<rparr>
               in (Inr updated, dput request_id updated st)))"

definition get_request :: "approval_store \<Rightarrow> string \<Rightarrow> approval_request result" where
  "get_request st request_id =
     (case dget st request_id of None \<Rightarrow> Inl (KeyError request_id) | Some r \<Rightarrow> Inr r)"

definition list_requests :: "approval_store \<Rightarrow> string \<Rightarrow> approval_request list" where
  "list_requests st tenant_id =
     sort_key ar_id (filter (\<lambda>item. ar_tenant_id item = tenant_id) (dvalues st))"

section \<open>The four-eyes invariant\<close>

definition wf_request :: "approval_request \<Rightarrow> bool" where
  "wf_request r \<longleftrightarrow>
     distinct (map fst (ar_approvals r)) \<and>
     ar_requested_by r \<notin> fst ` set (ar_approvals r) \<and>
     snd ` set (ar_approvals r) \<subseteq> ar_required_roles r \<and>
     risk_minimum (ar_risk r) \<le> ar_required_count r \<and>
     (ar_status r = Approved \<longrightarrow>
        ar_approvals r \<noteq> [] \<and> ar_required_count r \<le> int (length (ar_approvals r))) \<and>
     (ar_status r = Pending \<longrightarrow> ar_approvals r \<noteq> [] \<longrightarrow>
        int (length (ar_approvals r)) < ar_required_count r)"

definition wf_store :: "approval_store \<Rightarrow> bool" where
  "wf_store st \<longleftrightarrow> distinct (dkeys st) \<and> (\<forall>(k, r) \<in> set st. ar_id r = k \<and> wf_request r)"

definition fresh_request :: "approval_request \<Rightarrow> bool" where
  \<comment> \<open>the dataclass defaults with which callers build a new request\<close>
  "fresh_request r \<longleftrightarrow> ar_approvals r = [] \<and> ar_status r = Pending"

inductive approval_step :: "approval_store \<Rightarrow> approval_store \<Rightarrow> bool" where
  create: "fresh_request r \<Longrightarrow> create st r = (res, st') \<Longrightarrow> approval_step st st'"
| approve: "approve st rid actor role now = (res, st') \<Longrightarrow> approval_step st st'"
| reject: "reject st rid = (res, st') \<Longrightarrow> approval_step st st'"
| modify: "modify st rid actor expires roles needed = (res, st') \<Longrightarrow> approval_step st st'"

lemma wf_store_lookup: "wf_store st \<Longrightarrow> dget st k = Some r \<Longrightarrow> ar_id r = k \<and> wf_request r"
  by (auto simp: wf_store_def dest!: dget_entry)

lemma wf_store_put:
  "wf_store st \<Longrightarrow> ar_id r = k \<Longrightarrow> wf_request r \<Longrightarrow> wf_store (dput k r st)"
  by (auto simp: wf_store_def dest: dput_entries)

lemma wf_request_expire: "wf_request r \<Longrightarrow> wf_request (r\<lparr>ar_status := Expired\<rparr>)"
  by (simp add: wf_request_def)

lemma wf_request_reject: "wf_request r \<Longrightarrow> wf_request (r\<lparr>ar_status := Rejected\<rparr>)"
  by (simp add: wf_request_def)

lemma wf_request_vote:
  "wf_request r \<Longrightarrow> actor \<noteq> ar_requested_by r \<Longrightarrow> role \<in> ar_required_roles r \<Longrightarrow>
   actor \<notin> fst ` set (ar_approvals r) \<Longrightarrow> wf_request (add_vote r actor role)"
  by (auto simp: wf_request_def add_vote_def Let_def)

lemma add_vote_id [simp]: "ar_id (add_vote r actor role) = ar_id r"
  by (simp add: add_vote_def Let_def)

lemma voter_iff: "(\<exists>(existing, _) \<in> set vs. existing = a) \<longleftrightarrow> a \<in> fst ` set vs"
  by force

lemma wf_request_voters: "wf_request r \<Longrightarrow> card (fst ` set (ar_approvals r)) = length (ar_approvals r)"
  using distinct_card [of "map fst (ar_approvals r)"] by (simp add: wf_request_def)

lemma wf_request_voter:
  assumes "wf_request r" and "v \<in> set (ar_approvals r)"
  shows "fst v \<noteq> ar_requested_by r" and "snd v \<in> ar_required_roles r"
proof -
  have "ar_requested_by r \<notin> fst ` set (ar_approvals r)" and "snd ` set (ar_approvals r) \<subseteq> ar_required_roles r"
    using assms(1) by (simp_all add: wf_request_def)
  then show "fst v \<noteq> ar_requested_by r" and "snd v \<in> ar_required_roles r" using assms(2) by force+
qed

lemma create_wf: "wf_store st \<Longrightarrow> fresh_request r \<Longrightarrow> create st r = (res, st') \<Longrightarrow> wf_store st'"
  by (auto simp: create_def create_checks_def fresh_request_def wf_request_def
      split: if_splits option.splits sum.splits intro!: wf_store_put)

lemma approve_wf:
  "wf_store st \<Longrightarrow> approve st rid actor role now = (res, st') \<Longrightarrow> wf_store st'"
  unfolding approve_def Let_def voter_iff
  by (auto split: if_splits option.splits sum.splits bool.splits dest: wf_store_lookup
      intro!: wf_store_put wf_request_expire wf_request_vote)

lemma reject_wf: "wf_store st \<Longrightarrow> reject st rid = (res, st') \<Longrightarrow> wf_store st'"
  by (auto simp: reject_def Let_def split: if_splits option.splits dest: wf_store_lookup
      intro!: wf_store_put wf_request_reject)

lemma modify_wf:
  "wf_store st \<Longrightarrow> modify st rid actor expires roles needed = (res, st') \<Longrightarrow> wf_store st'"
  by (auto simp: modify_def validate_modification_def Let_def wf_request_def
      split: if_splits option.splits sum.splits dest: wf_store_lookup intro!: wf_store_put)

interpretation workflow: safe_system "[]" approval_step wf_store
proof
  show "wf_store []" by (simp add: wf_store_def)
next
  fix s t
  assume "approval_step s t" and "wf_store s"
  then show "wf_store t"
    by cases (auto intro: create_wf approve_wf reject_wf modify_wf)
qed

section \<open>The workflow on PostgreSQL\<close>

text \<open>
  The tables \<open>approvals\<close> (primary key tenant and id) and \<open>approval_votes\<close> (primary key tenant,
  approval and actor). A \<open>timestamptz\<close> column reads back aware; what a naive datetime becomes
  depends on the session's time zone, the parameter \<open>session_tz\<close>. The write-only columns
  \<open>created_at\<close> and \<open>updated_at\<close> are left out.
\<close>

record approval_row =
  row_plan_id :: string
  row_risk :: risk_level
  row_requested_by :: string
  row_expires_at :: instant
  row_required_roles :: "string set"
  row_required_count :: int
  row_status :: approval_status
  row_version :: int

record vote_row =
  v_tenant_id :: string
  v_approval_id :: string
  v_actor_id :: string
  v_role :: string
  v_decision :: string
  v_decided_at :: instant

record approval_db =
  approvals_tbl :: "(string \<times> string, approval_row) dict"
  votes_tbl :: "vote_row list"

fun stored_instant :: "(int \<Rightarrow> instant) \<Rightarrow> datetime \<Rightarrow> instant" where
  "stored_instant session_tz (Aware t) = t"
| "stored_instant session_tz (Naive t) = session_tz t"

definition same_request :: "approval_row \<Rightarrow> approval_request \<Rightarrow> bool" where
  "same_request existing request \<longleftrightarrow>
     row_plan_id existing = ar_plan_id request \<and>
     row_risk existing = ar_risk request \<and>
     row_requested_by existing = ar_requested_by request \<and>
     Aware (row_expires_at existing) = ar_expires_at request \<and>
     row_required_roles existing = ar_required_roles request \<and>
     row_required_count existing = ar_required_count request"

definition create_pg ::
  "approval_db pool_exit \<Rightarrow> (int \<Rightarrow> instant) \<Rightarrow> approval_db \<Rightarrow> approval_request \<Rightarrow> unit result \<times> approval_db" where
  "create_pg px session_tz db request =
     (case create_checks request of
        Inl e \<Rightarrow> (Inl e, db)
      | Inr _ \<Rightarrow>
          tenant_connection px (ar_tenant_id request) db (\<lambda>db.
            case dget (approvals_tbl db) (ar_tenant_id request, ar_id request) of
              Some existing \<Rightarrow>
                (if same_request existing request then (Inr (), db)
                 else (Inl (ValueError ''approval ID already exists with different requirements''), db))
            | None \<Rightarrow>
                (Inr (), db\<lparr>approvals_tbl :=
                   dput (ar_tenant_id request, ar_id request)
                     \<lparr>row_plan_id = ar_plan_id request, row_risk = ar_risk request,
                      row_requested_by = ar_requested_by request,
                      row_expires_at = stored_instant session_tz (ar_expires_at request),
                      row_required_roles = ar_required_roles request,
                      row_required_count = ar_required_count request,
                      row_status = ar_status request, row_version = 1\<rparr>
                     (approvals_tbl db)\<rparr>)))"

definition votes_of :: "approval_db \<Rightarrow> string \<Rightarrow> string \<Rightarrow> vote_row list" where
  \<comment> \<open>the approving votes of an approval, \<open>ORDER BY decided_at, actor_id\<close>\<close>
  "votes_of db tenant_id request_id =
     sort_key (\<lambda>v. (v_decided_at v, v_actor_id v))
       (filter (\<lambda>v. v_tenant_id v = tenant_id \<and> v_approval_id v = request_id \<and>
                    v_decision v = ''approved'') (votes_tbl db))"

definition request_of_row :: "approval_db \<Rightarrow> string \<Rightarrow> string \<Rightarrow> approval_row \<Rightarrow> approval_request" where
  "request_of_row db tenant_id request_id row =
     \<lparr>ar_id = request_id, ar_plan_id = row_plan_id row, ar_tenant_id = tenant_id,
      ar_risk = row_risk row, ar_requested_by = row_requested_by row,
      ar_expires_at = Aware (row_expires_at row), ar_required_roles = row_required_roles row,
      ar_required_count = row_required_count row,
      ar_approvals = map (\<lambda>v. (v_actor_id v, v_role v)) (votes_of db tenant_id request_id),
      ar_status = row_status row\<rparr>"

definition get_pg ::
  "approval_db pool_exit \<Rightarrow> approval_db \<Rightarrow> string \<Rightarrow> string option \<Rightarrow> approval_request result \<times> approval_db" where
  "get_pg px db request_id tenant =
     (case tenant of
        None \<Rightarrow> (Inl (ValueError ''tenant_id is required for persistent approvals''), db)
      | Some tenant_id \<Rightarrow>
          if tenant_id = [] then (Inl (ValueError ''tenant_id is required for persistent approvals''), db)
          else tenant_connection px tenant_id db (\<lambda>db.
            case dget (approvals_tbl db) (tenant_id, request_id) of
              None \<Rightarrow> (Inl (KeyError request_id), db)
            | Some row \<Rightarrow> (Inr (request_of_row db tenant_id request_id row), db)))"

definition set_status_row :: "approval_status \<Rightarrow> approval_row \<Rightarrow> approval_row" where
  "set_status_row status row = row\<lparr>row_status := status, row_version := row_version row + 1\<rparr>"

definition cast_vote :: "string \<Rightarrow> string \<Rightarrow> string \<Rightarrow> string \<Rightarrow> datetime \<Rightarrow> approval_db \<Rightarrow> approval_db" where
  \<comment> \<open>the \<open>INSERT INTO approval_votes\<close> of \<open>approve\<close>\<close>
  "cast_vote tenant_id request_id actor_id role now db =
     db\<lparr>votes_tbl := votes_tbl db @
          [\<lparr>v_tenant_id = tenant_id, v_approval_id = request_id, v_actor_id = actor_id,
            v_role = role, v_decision = ''approved'', v_decided_at = stored_instant id now\<rparr>]\<rparr>"

definition approve_pg_body ::
  "string \<Rightarrow> string \<Rightarrow> string \<Rightarrow> datetime \<Rightarrow> string \<Rightarrow> approval_db \<Rightarrow>
   approval_request option result \<times> approval_db" where
  \<comment> \<open>the transaction of \<open>approve\<close>: \<open>Some\<close> for its early return, \<open>None\<close> when it falls through to \<open>get\<close>\<close>
  "approve_pg_body request_id actor_id role now tenant_id db =
     (case dget (approvals_tbl db) (tenant_id, request_id) of
        None \<Rightarrow> (Inl (KeyError request_id), db)
      | Some row \<Rightarrow>
          if row_status row \<noteq> Pending then (Inl (ValueError ''approval is not pending''), db)
          else (case dt_ge now (Aware (row_expires_at row)) of
             Inl e \<Rightarrow> (Inl e, db)
           | Inr True \<Rightarrow>
               (Inl (ValueError ''approval expired''),
                db\<lparr>approvals_tbl :=
                     dput (tenant_id, request_id) (set_status_row Expired row) (approvals_tbl db)\<rparr>)
           | Inr False \<Rightarrow>
               if actor_id = row_requested_by row
               then (Inl (PermissionError ''requester cannot approve own high-risk action''), db)
               else if role \<notin> row_required_roles row
               then (Inl (PermissionError ''actor role cannot approve request''), db)
               else if \<exists>v \<in> set (votes_tbl db). v_tenant_id v = tenant_id \<and>
                         v_approval_id v = request_id \<and> v_actor_id v = actor_id
               then (Inr (Some (request_of_row db tenant_id request_id row)), db)
               else let db1 = cast_vote tenant_id request_id actor_id role now db;
                        status = (if int (length (votes_of db1 tenant_id request_id))
                                       \<ge> row_required_count row then Approved else Pending)
                    in (Inr None, db1\<lparr>approvals_tbl :=
                          dput (tenant_id, request_id) (set_status_row status row) (approvals_tbl db1)\<rparr>)))"

definition approve_pg ::
  "approval_db pool_exit \<Rightarrow> approval_db \<Rightarrow> string \<Rightarrow> string \<Rightarrow> string \<Rightarrow> datetime \<Rightarrow> string option \<Rightarrow>
   approval_request result \<times> approval_db" where
  "approve_pg px db request_id actor_id role now tenant =
     (case tenant of
        None \<Rightarrow> (Inl (ValueError ''tenant_id is required for persistent approvals''), db)
      | Some tenant_id \<Rightarrow>
          if tenant_id = [] then (Inl (ValueError ''tenant_id is required for persistent approvals''), db)
          else (case tenant_connection px tenant_id db
                       (approve_pg_body request_id actor_id role now tenant_id) of
             (Inl e, db') \<Rightarrow> (Inl e, db')
           | (Inr (Some r), db') \<Rightarrow> (Inr r, db')
           | (Inr None, db') \<Rightarrow> get_pg px db' request_id (Some tenant_id)))"

definition reject_pg ::
  "approval_db pool_exit \<Rightarrow> approval_db \<Rightarrow> string \<Rightarrow> string option \<Rightarrow> approval_request result \<times> approval_db" where
  "reject_pg px db request_id tenant =
     (case tenant of
        None \<Rightarrow> (Inl (ValueError ''tenant_id is required for persistent approvals''), db)
      | Some tenant_id \<Rightarrow>
          if tenant_id = [] then (Inl (ValueError ''tenant_id is required for persistent approvals''), db)
          else (case tenant_connection px tenant_id db (\<lambda>db.
                  case dget (approvals_tbl db) (tenant_id, request_id) of
                    None \<Rightarrow> (Inl (KeyError request_id), db)
                  | Some row \<Rightarrow>
                      if row_status row = Pending
                      then (Inr (), db\<lparr>approvals_tbl :=
                              dput (tenant_id, request_id) (set_status_row Rejected row) (approvals_tbl db)\<rparr>)
                      else if row_status row \<noteq> Rejected
                      then (Inl (ValueError ''approval is not pending''), db)
                      else (Inr (), db)) of
             (Inl e, db') \<Rightarrow> (Inl e, db')
           | (Inr _, db') \<Rightarrow> get_pg px db' request_id (Some tenant_id)))"

definition modify_pg ::
  "approval_db pool_exit \<Rightarrow> approval_db \<Rightarrow> string \<Rightarrow> string \<Rightarrow> datetime \<Rightarrow> string set \<Rightarrow> int \<Rightarrow>
   string option \<Rightarrow> approval_request result \<times> approval_db" where
  "modify_pg px db request_id actor_id expires_at required_roles required_count tenant =
     (case tenant of
        None \<Rightarrow> (Inl (ValueError ''tenant_id is required for persistent approvals''), db)
      | Some tenant_id \<Rightarrow>
          if tenant_id = [] then (Inl (ValueError ''tenant_id is required for persistent approvals''), db)
          else (case tenant_connection px tenant_id db (\<lambda>db.
                  case dget (approvals_tbl db) (tenant_id, request_id) of
                    None \<Rightarrow> (Inl (KeyError request_id), db)
                  | Some row \<Rightarrow>
                      (case validate_modification (row_status row) (row_requested_by row) actor_id
                              (row_risk row) expires_at required_roles required_count
                              (length (filter (\<lambda>v. v_tenant_id v = tenant_id \<and> v_approval_id v = request_id)
                                         (votes_tbl db))) of
                         Inl e \<Rightarrow> (Inl e, db)
                       | Inr _ \<Rightarrow>
                           (Inr (), db\<lparr>approvals_tbl :=
                              dput (tenant_id, request_id)
                                (row\<lparr>row_expires_at := stored_instant id expires_at,
                                     row_required_roles := required_roles,
                                     row_required_count := required_count,
                                     row_version := row_version row + 1\<rparr>) (approvals_tbl db)\<rparr>))) of
             (Inl e, db') \<Rightarrow> (Inl e, db')
           | (Inr _, db') \<Rightarrow> get_pg px db' request_id (Some tenant_id)))"

definition list_pg ::
  "approval_db pool_exit \<Rightarrow> approval_db \<Rightarrow> string \<Rightarrow> approval_request list result" where
  "list_pg px db tenant_id =
     rbind (fst (tenant_connection px tenant_id db
              (\<lambda>db. (Inr (sort (map snd (filter (\<lambda>(t, i). t = tenant_id) (dkeys (approvals_tbl db))))), db))))
       (rmap_list (\<lambda>i. fst (get_pg px db i (Some tenant_id))))"

section \<open>Commands of both workflows and their simulation\<close>

text \<open>
  The in-memory workflow and the one on PostgreSQL run the same commands. PostgreSQL returns the
  votes ordered by decision time and actor, the in-memory workflow in the order in which they
  arrived, so that the two agree on requests up to the order of the votes (\<open>same_votes\<close>).
\<close>

datatype approval_cmd =
    CreateCmd approval_request
  | ApproveCmd string string string datetime
  | RejectCmd string
  | ModifyCmd string string datetime "string set" int

fun run_memory :: "approval_store \<Rightarrow> approval_cmd \<Rightarrow> approval_request option result \<times> approval_store" where
  "run_memory st (CreateCmd r) = map_prod (map_sum id (\<lambda>_. None)) id (create st r)"
| "run_memory st (ApproveCmd rid actor role now) = map_prod (map_sum id Some) id (approve st rid actor role now)"
| "run_memory st (RejectCmd rid) = map_prod (map_sum id Some) id (reject st rid)"
| "run_memory st (ModifyCmd rid actor exp_at roles needed) =
     map_prod (map_sum id Some) id (modify st rid actor exp_at roles needed)"

fun run_pg ::
  "approval_db pool_exit \<Rightarrow> (int \<Rightarrow> instant) \<Rightarrow> string \<Rightarrow> approval_db \<Rightarrow> approval_cmd \<Rightarrow>
   approval_request option result \<times> approval_db" where
  "run_pg px tz t db (CreateCmd r) = map_prod (map_sum id (\<lambda>_. None)) id (create_pg px tz db r)"
| "run_pg px tz t db (ApproveCmd rid actor role now) =
     map_prod (map_sum id Some) id (approve_pg px db rid actor role now (Some t))"
| "run_pg px tz t db (RejectCmd rid) = map_prod (map_sum id Some) id (reject_pg px db rid (Some t))"
| "run_pg px tz t db (ModifyCmd rid actor exp_at roles needed) =
     map_prod (map_sum id Some) id (modify_pg px db rid actor exp_at roles needed (Some t))"

definition same_votes :: "approval_request \<Rightarrow> approval_request \<Rightarrow> bool" where
  "same_votes a b \<longleftrightarrow>
     a\<lparr>ar_approvals := []\<rparr> = b\<lparr>ar_approvals := []\<rparr> \<and> mset (ar_approvals a) = mset (ar_approvals b)"

definition abs_db :: "approval_db \<Rightarrow> string \<Rightarrow> string \<Rightarrow> approval_request option" where
  "abs_db db t rid = map_option (request_of_row db t rid) (dget (approvals_tbl db) (t, rid))"

definition approval_sim :: "string \<Rightarrow> approval_store \<Rightarrow> approval_db \<Rightarrow> bool" where
  \<comment> \<open>the store of one tenant and the tables: the same requests; every vote is an approval of a row\<close>
  "approval_sim t st db \<longleftrightarrow>
     (\<forall>rid. rel_option same_votes (dget st rid) (abs_db db t rid)) \<and>
     (\<forall>v \<in> set (votes_tbl db). v_decision v = ''approved'' \<and>
        dget (approvals_tbl db) (v_tenant_id v, v_approval_id v) \<noteq> None)"

fun cmd_ok :: "string \<Rightarrow> approval_store \<Rightarrow> approval_cmd \<Rightarrow> bool" where
  \<comment> \<open>a new request of this tenant, unvoted and pending, with an aware expiry; other commands always\<close>
  "cmd_ok t st (CreateCmd r) \<longleftrightarrow>
     ar_tenant_id r = t \<and> fresh_request r \<and> is_aware (ar_expires_at r) \<and> dget st (ar_id r) = None"
| "cmd_ok t st _ \<longleftrightarrow> True"

lemma same_votes_fields:
  assumes "same_votes a b"
  shows "ar_id a = ar_id b" "ar_plan_id a = ar_plan_id b" "ar_tenant_id a = ar_tenant_id b"
    "ar_risk a = ar_risk b" "ar_requested_by a = ar_requested_by b"
    "ar_expires_at a = ar_expires_at b" "ar_required_roles a = ar_required_roles b"
    "ar_required_count a = ar_required_count b" "ar_status a = ar_status b"
    "mset (ar_approvals a) = mset (ar_approvals b)"
    "set (ar_approvals a) = set (ar_approvals b)" "length (ar_approvals a) = length (ar_approvals b)"
  using assms unfolding same_votes_def
  by (cases a; cases b; auto dest: mset_eq_setD mset_eq_length)+

lemma same_votesI:
  "\<lbrakk>ar_id a = ar_id b; ar_plan_id a = ar_plan_id b; ar_tenant_id a = ar_tenant_id b;
    ar_risk a = ar_risk b; ar_requested_by a = ar_requested_by b; ar_expires_at a = ar_expires_at b;
    ar_required_roles a = ar_required_roles b; ar_required_count a = ar_required_count b;
    ar_status a = ar_status b; mset (ar_approvals a) = mset (ar_approvals b)\<rbrakk> \<Longrightarrow> same_votes a b"
  unfolding same_votes_def by (cases a; cases b) simp

lemma request_of_row_fields [simp]:
  "ar_id (request_of_row db t rid row) = rid"
  "ar_plan_id (request_of_row db t rid row) = row_plan_id row"
  "ar_tenant_id (request_of_row db t rid row) = t"
  "ar_risk (request_of_row db t rid row) = row_risk row"
  "ar_requested_by (request_of_row db t rid row) = row_requested_by row"
  "ar_expires_at (request_of_row db t rid row) = Aware (row_expires_at row)"
  "ar_required_roles (request_of_row db t rid row) = row_required_roles row"
  "ar_required_count (request_of_row db t rid row) = row_required_count row"
  "ar_status (request_of_row db t rid row) = row_status row"
  by (simp_all add: request_of_row_def)

lemma request_of_row_votes:
  "mset (ar_approvals (request_of_row db t rid row)) =
     image_mset (\<lambda>v. (v_actor_id v, v_role v))
       (mset (filter (\<lambda>v. v_tenant_id v = t \<and> v_approval_id v = rid \<and> v_decision v = ''approved'')
          (votes_tbl db)))"
  by (simp add: request_of_row_def votes_of_def)

lemma set_status_row_fields [simp]:
  "row_plan_id (set_status_row s row) = row_plan_id row"
  "row_risk (set_status_row s row) = row_risk row"
  "row_requested_by (set_status_row s row) = row_requested_by row"
  "row_expires_at (set_status_row s row) = row_expires_at row"
  "row_required_roles (set_status_row s row) = row_required_roles row"
  "row_required_count (set_status_row s row) = row_required_count row"
  "row_status (set_status_row s row) = s"
  by (simp_all add: set_status_row_def)

lemma request_of_row_tbl [simp]:
  "request_of_row (db\<lparr>approvals_tbl := x\<rparr>) = request_of_row db"
  by (intro ext) (simp add: request_of_row_def votes_of_def)

lemma approval_sim_cases:
  assumes "approval_sim t st db"
  obtains "dget st rid = None" "dget (approvals_tbl db) (t, rid) = None"
  | r row where "dget st rid = Some r" "dget (approvals_tbl db) (t, rid) = Some row"
      "same_votes r (request_of_row db t rid row)"
proof -
  have "rel_option same_votes (dget st rid) (abs_db db t rid)"
    using assms by (simp add: approval_sim_def)
  then show thesis
    by (cases "dget st rid"; cases "dget (approvals_tbl db) (t, rid)") (auto simp: abs_db_def intro: that)
qed

lemma approval_sim_put:
  assumes "approval_sim t st db" and "same_votes r (request_of_row db t rid row)"
  shows "approval_sim t (dput rid r st) (db\<lparr>approvals_tbl := dput (t, rid) row (approvals_tbl db)\<rparr>)"
  using assms by (auto simp: approval_sim_def abs_db_def)

lemma cast_vote_tbl [simp]: "approvals_tbl (cast_vote t rid actor role now db) = approvals_tbl db"
  by (simp add: cast_vote_def)

lemma cast_vote_other:
  "rid' \<noteq> rid \<Longrightarrow> request_of_row (cast_vote t rid actor role now db) t rid' = request_of_row db t rid'"
  by (intro ext) (simp add: cast_vote_def request_of_row_def votes_of_def)

lemma cast_vote_mset:
  "mset (ar_approvals (request_of_row (cast_vote t rid actor role now db) t rid row)) =
     add_mset (actor, role) (mset (ar_approvals (request_of_row db t rid row')))"
  by (simp add: request_of_row_votes cast_vote_def)

lemma cast_vote_entry:
  "v \<in> set (votes_tbl (cast_vote t rid actor role now db)) \<Longrightarrow>
     v \<in> set (votes_tbl db) \<or> v_decision v = ''approved'' \<and> v_tenant_id v = t \<and> v_approval_id v = rid"
  by (auto simp: cast_vote_def)

lemma votes_of_length: "length (votes_of db t rid) = length (ar_approvals (request_of_row db t rid row))"
  by (simp add: request_of_row_def)

lemma cast_vote_length:
  "length (votes_of (cast_vote t rid actor role now db) t rid) =
     Suc (length (ar_approvals (request_of_row db t rid row)))"
  unfolding votes_of_length [of _ _ _ row] by (metis cast_vote_mset size_mset size_add_mset)

lemma same_votes_cast:
  assumes r: "same_votes r (request_of_row db t rid row)"
    and status: "status = (if int (length (votes_of (cast_vote t rid actor role now db) t rid))
          \<ge> row_required_count row then Approved else Pending)"
  shows "same_votes (add_vote r actor role)
    (request_of_row (cast_vote t rid actor role now db) t rid (set_status_row status row))"
proof -
  note f = same_votes_fields [OF r]
  have len: "length (votes_of (cast_vote t rid actor role now db) t rid) = Suc (length (ar_approvals r))"
    unfolding cast_vote_length [of _ _ _ _ _ _ row] using f(12) by simp
  show ?thesis
    by (rule same_votesI)
      (use f in \<open>simp_all add: add_vote_def Let_def status len cast_vote_mset [where row' = row]\<close>)
qed

lemma approval_sim_cast:
  assumes sim: "approval_sim t st db"
    and row: "dget (approvals_tbl db) (t, rid) = Some row"
    and same: "same_votes r' (request_of_row (cast_vote t rid actor role now db) t rid row')"
  shows "approval_sim t (dput rid r' st)
    ((cast_vote t rid actor role now db)\<lparr>approvals_tbl := dput (t, rid) row' (approvals_tbl db)\<rparr>)"
  using sim row same
  by (auto simp: approval_sim_def abs_db_def cast_vote_other dest!: cast_vote_entry)

lemma votes_of_voter:
  assumes sim: "approval_sim t st db" and r: "same_votes r (request_of_row db t rid row)"
  shows "(\<exists>v \<in> set (votes_tbl db). v_tenant_id v = t \<and> v_approval_id v = rid \<and> v_actor_id v = actor)
    \<longleftrightarrow> actor \<in> fst ` set (ar_approvals r)"
proof -
  have "set (ar_approvals r) = set (ar_approvals (request_of_row db t rid row))"
    by (rule same_votes_fields(11) [OF r])
  then show ?thesis
    using sim by (force simp: approval_sim_def request_of_row_def votes_of_def image_iff)
qed

lemma get_pg_eq:
  "pool_contract px \<Longrightarrow> valid_tenant t \<Longrightarrow> get_pg px db rid (Some t) =
     (case dget (approvals_tbl db) (t, rid) of
        None \<Rightarrow> (Inl (KeyError rid), db)
      | Some row \<Rightarrow> (Inr (request_of_row db t rid row), db))"
  by (auto simp: get_pg_def tenant_connection_eq valid_tenant_def split: option.splits)

lemma approve_pg_eq:
  assumes "pool_contract px" "valid_tenant t"
  shows "approve_pg px db rid actor role now (Some t) =
     (case approve_pg_body rid actor role now t db of
        (Inl e, db') \<Rightarrow> (Inl e, db)
      | (Inr (Some r), db') \<Rightarrow> (Inr r, db')
      | (Inr None, db') \<Rightarrow> get_pg px db' rid (Some t))"
  using assms
  by (auto simp: approve_pg_def tenant_connection_eq valid_tenant_def
      split: prod.splits sum.splits option.splits)

abbreviation related :: "approval_request result \<Rightarrow> approval_request result \<Rightarrow> bool" where
  "related \<equiv> rel_sum (=) same_votes"

lemma approve_simulated:
  assumes px: "pool_contract px" and t: "valid_tenant t" and sim: "approval_sim t st db"
    and mem: "approve st rid actor role now = (res, st')"
    and pg: "approve_pg px db rid actor role now (Some t) = (res', db')"
  shows "related res res' \<and> (res \<noteq> Inl (ValueError ''approval expired'') \<longrightarrow> approval_sim t st' db')"
proof (rule approval_sim_cases [OF sim, of rid])
  assume "dget st rid = None" "dget (approvals_tbl db) (t, rid) = None"
  with mem pg sim show ?thesis
    by (auto simp: approve_def approve_pg_eq [OF px t] approve_pg_body_def)
next
  fix r row
  assume r: "dget st rid = Some r" and row: "dget (approvals_tbl db) (t, rid) = Some row"
    and same: "same_votes r (request_of_row db t rid row)"
  note f = same_votes_fields [OF same] and voter = votes_of_voter [OF sim same]
  let ?cast = "cast_vote t rid actor role now db"
  let ?status = "if int (length (votes_of ?cast t rid)) \<ge> row_required_count row then Approved else Pending"
  let ?row = "set_status_row ?status row"
  have pend: "same_votes (add_vote r actor role) (request_of_row ?cast t rid ?row)"
    by (rule same_votes_cast [OF same refl])
  have sim': "approval_sim t (dput rid (add_vote r actor role) st)
     (?cast\<lparr>approvals_tbl := dput (t, rid) ?row (approvals_tbl db)\<rparr>)"
    by (rule approval_sim_cast [OF sim row pend])
  show ?thesis
    using mem pg r row f same sim pend sim'
    unfolding approve_def approve_pg_eq [OF px t] approve_pg_body_def get_pg_eq [OF px t] voter voter_iff Let_def
    by (auto split: if_splits sum.splits bool.splits)
qed

lemma reject_simulated:
  assumes px: "pool_contract px" and t: "valid_tenant t" and sim: "approval_sim t st db"
    and mem: "reject st rid = (res, st')" and pg: "reject_pg px db rid (Some t) = (res', db')"
  shows "related res res' \<and> approval_sim t st' db'"
proof (rule approval_sim_cases [OF sim, of rid])
  assume "dget st rid = None" "dget (approvals_tbl db) (t, rid) = None"
  with mem pg sim t show ?thesis
    by (auto simp: reject_def reject_pg_def tenant_connection_eq [OF px t] valid_tenant_def)
next
  fix r row
  assume r: "dget st rid = Some r" and row: "dget (approvals_tbl db) (t, rid) = Some row"
    and same: "same_votes r (request_of_row db t rid row)"
  note f = same_votes_fields [OF same]
  have same': "same_votes (r\<lparr>ar_status := Rejected\<rparr>) (request_of_row db t rid (set_status_row Rejected row))"
    by (rule same_votesI) (use f in \<open>simp_all add: request_of_row_votes\<close>)
  show ?thesis
    using mem pg r row f(9) same same' sim t approval_sim_put [OF sim same']
    unfolding reject_def reject_pg_def Let_def
    by (auto simp: tenant_connection_eq [OF px t] get_pg_eq [OF px t] valid_tenant_def split: if_splits)
qed

lemma modify_simulated:
  assumes px: "pool_contract px" and t: "valid_tenant t" and sim: "approval_sim t st db"
    and mem: "modify st rid actor exp_at roles needed = (res, st')"
    and pg: "modify_pg px db rid actor exp_at roles needed (Some t) = (res', db')"
  shows "related res res' \<and> approval_sim t st' db'"
proof (rule approval_sim_cases [OF sim, of rid])
  assume "dget st rid = None" "dget (approvals_tbl db) (t, rid) = None"
  with mem pg sim t show ?thesis
    by (auto simp: modify_def modify_pg_def tenant_connection_eq [OF px t] valid_tenant_def)
next
  fix r row
  assume r: "dget st rid = Some r" and row: "dget (approvals_tbl db) (t, rid) = Some row"
    and same: "same_votes r (request_of_row db t rid row)"
  note f = same_votes_fields [OF same]
  define row' where "row' = row\<lparr>row_expires_at := stored_instant id exp_at, row_required_roles := roles,
     row_required_count := needed, row_version := row_version row + 1\<rparr>"
  define r' where "r' = r\<lparr>ar_expires_at := exp_at, ar_required_roles := roles, ar_required_count := needed\<rparr>"
  have same': "is_aware exp_at \<Longrightarrow> same_votes r' (request_of_row db t rid row')"
    by (rule same_votesI; cases exp_at) (use f in \<open>simp_all add: r'_def row'_def request_of_row_votes\<close>)
  have votes: "filter (\<lambda>v. v_tenant_id v = t \<and> v_approval_id v = rid) (votes_tbl db) =
      filter (\<lambda>v. v_tenant_id v = t \<and> v_approval_id v = rid \<and> v_decision v = ''approved'') (votes_tbl db)"
    using sim by (auto simp: approval_sim_def intro!: filter_cong)
  have len: "length (ar_approvals r) =
      length (filter (\<lambda>v. v_tenant_id v = t \<and> v_approval_id v = rid) (votes_tbl db))"
    unfolding votes f(12) by (simp add: request_of_row_def votes_of_def)
  show ?thesis
    using mem pg r row f(4,5,9) len same' sim t approval_sim_put [OF sim same']
    unfolding modify_def modify_pg_def Let_def r'_def row'_def
    by (auto simp: tenant_connection_eq [OF px t] get_pg_eq [OF px t] valid_tenant_def validate_modification_def split: if_splits)
qed

lemma create_simulated:
  assumes px: "pool_contract px" and t: "valid_tenant t" and sim: "approval_sim t st db"
    and ok: "cmd_ok t st (CreateCmd r)"
    and mem: "create st r = (res, st')" and pg: "create_pg px tz db r = (res', db')"
  shows "res = res' \<and> approval_sim t st' db'"
proof -
  have none: "dget st (ar_id r) = None" "dget (approvals_tbl db) (t, ar_id r) = None"
    using ok by (auto intro: approval_sim_cases [OF sim, of "ar_id r"])
  obtain i where i: "ar_expires_at r = Aware i" using ok by (cases "ar_expires_at r") auto
  define row where "row = \<lparr>row_plan_id = ar_plan_id r, row_risk = ar_risk r,
     row_requested_by = ar_requested_by r, row_expires_at = stored_instant tz (ar_expires_at r),
     row_required_roles = ar_required_roles r, row_required_count = ar_required_count r,
     row_status = ar_status r, row_version = 1\<rparr>"
  have no_votes: "filter (\<lambda>v. v_tenant_id v = t \<and> v_approval_id v = ar_id r \<and> v_decision v = ''approved'')
      (votes_tbl db) = []"
    using sim none(2) by (auto simp: approval_sim_def filter_empty_conv)
  have "same_votes r (request_of_row db t (ar_id r) row)"
    by (rule same_votesI) (use ok i no_votes in \<open>simp_all add: row_def fresh_request_def request_of_row_votes\<close>)
  from approval_sim_put [OF sim this] mem pg none ok sim show ?thesis
    unfolding create_def create_pg_def row_def
    by (auto simp: tenant_connection_eq [OF px t] split: sum.splits)
qed

section \<open>Properties of the workflow\<close>

definition request_example :: approval_request where
  \<comment> \<open>an L3 request of alice that needs two operators\<close>
  "request_example = \<lparr>ar_id = ''a1'', ar_plan_id = ''p1'', ar_tenant_id = ''t1'', ar_risk = L3,
     ar_requested_by = ''alice'', ar_expires_at = Aware 100, ar_required_roles = {''operator''},
     ar_required_count = 2, ar_approvals = [], ar_status = Pending\<rparr>"

definition request_example_approved :: approval_request where
  "request_example_approved = request_example\<lparr>ar_approvals := [(''bob'', ''operator''), (''carol'', ''operator'')],
     ar_status := Approved\<rparr>"

lemma request_example_run:
  "create [] request_example = (Inr (), [(''a1'', request_example)])"
  "approve [(''a1'', request_example)] ''a1'' ''bob'' ''operator'' (Aware 10) =
     (Inr (add_vote request_example ''bob'' ''operator''),
      [(''a1'', add_vote request_example ''bob'' ''operator'')])"
  "approve [(''a1'', add_vote request_example ''bob'' ''operator'')] ''a1'' ''carol'' ''operator'' (Aware 20) =
     (Inr request_example_approved, [(''a1'', request_example_approved)])"
  by (simp_all add: create_def create_checks_def approve_def add_vote_def Let_def request_example_def
      request_example_approved_def risk_minimum_def)

lemmas run_step = rtranclp.rtrancl_into_rtrancl [of approval_step]

lemma request_example_reachable: "approval_step\<^sup>*\<^sup>* [] [(''a1'', request_example_approved)]"
proof -
  have 1: "approval_step [] [(''a1'', request_example)]"
    by (rule approval_step.create [OF _ request_example_run(1)])
      (simp add: fresh_request_def request_example_def)
  have 2: "approval_step [(''a1'', request_example)]
      [(''a1'', add_vote request_example ''bob'' ''operator'')]"
    by (rule approval_step.approve [OF request_example_run(2)])
  have 3: "approval_step [(''a1'', add_vote request_example ''bob'' ''operator'')]
      [(''a1'', request_example_approved)]"
    by (rule approval_step.approve [OF request_example_run(3)])
  show ?thesis 
    by (rule run_step [OF run_step [OF run_step [OF rtranclp.rtrancl_refl 1] 2] 3])
qed

text \<open>
  C12: In every store the workflow can reach, an approved request has at least as many distinct
  approvers as it requires, never fewer than its risk level demands (two from L3 on, one at L2);
  the requester is not one of them, and each voted in a required role.
\<close>
theorem approved_four_eyes:
  assumes "approval_step\<^sup>*\<^sup>* [] st" and "dget st rid = Some r" and "ar_status r = Approved"
  shows "max (ar_required_count r) (risk_minimum (ar_risk r)) \<le> int (card (fst ` set (ar_approvals r))) \<and>
    1 \<le> card (fst ` set (ar_approvals r)) \<and>
    ar_requested_by r \<notin> fst ` set (ar_approvals r) \<and>
    snd ` set (ar_approvals r) \<subseteq> ar_required_roles r"
proof -
  have wf: "wf_request r"
    using workflow.inv_reachable [OF assms(1)] wf_store_lookup assms(2) by blast
  then have "card (fst ` set (ar_approvals r)) = length (ar_approvals r)" by (rule wf_request_voters)
  moreover have "ar_approvals r \<noteq> []" using wf assms(3) by (simp add: wf_request_def)
  ultimately show ?thesis
    using wf assms(3) by (cases "ar_approvals r") (auto simp: wf_request_def)
qed

theorem approved_four_eyes_witness:
  "approval_step\<^sup>*\<^sup>* [] [(''a1'', request_example_approved)] \<and>
   2 \<le> int (card (fst ` set (ar_approvals request_example_approved))) \<and>
   ''alice'' \<notin> fst ` set (ar_approvals request_example_approved)"
  using approved_four_eyes [OF request_example_reachable, of "''a1''" request_example_approved]
    request_example_reachable
  by (simp add: request_example_approved_def request_example_def risk_minimum_def)

lemma approval_step_settled:
  assumes "approval_step s s'" and "dget s rid = Some r" and "ar_status r \<noteq> Pending"
  shows "dget s' rid = Some r"
  using assms
proof cases
  case (create q res)
  with assms(2) show ?thesis
    by (auto simp: create_def split: sum.splits option.splits if_splits)
next
  case (approve rid' actor role now res)
  with assms(2,3) show ?thesis
    by (auto simp: approve_def Let_def split: sum.splits option.splits if_splits bool.splits)
next
  case (reject rid' res)
  with assms(2,3) show ?thesis
    by (auto simp: reject_def Let_def split: option.splits if_splits)
next
  case (modify rid' actor exp_at roles needed res)
  with assms(2,3) show ?thesis
    by (auto simp: modify_def validate_modification_def Let_def split: sum.splits option.splits if_splits)
qed

text \<open>
  Further: A decision is final. Once a request is approved, rejected or expired, no sequence of
  operations of any actor, on this or on another request, changes it or its votes.
\<close>
theorem settled_requests_final:
  assumes "approval_step\<^sup>*\<^sup>* s s'" and "dget s rid = Some r" and "ar_status r \<noteq> Pending"
  shows "dget s' rid = Some r"
  using assms by (induction rule: rtranclp_induct) (auto intro: approval_step_settled)

theorem settled_requests_final_witness:
  "dget [(''a1'', request_example_approved)] ''a1'' = Some request_example_approved"
  by (rule settled_requests_final [OF rtranclp.rtrancl_refl])
    (simp_all add: request_example_approved_def)

fun approve_all :: "approval_store \<Rightarrow> string \<Rightarrow> datetime \<Rightarrow> (string \<times> string) list \<Rightarrow> approval_store" where
  \<comment> \<open>one \<open>approve\<close> call per vote\<close>
  "approve_all st rid now [] = st"
| "approve_all st rid now ((actor, role) # votes) =
     approve_all (snd (approve st rid actor role now)) rid now votes"

lemma approve_all_votes:
  assumes "dget st rid = Some r" "ar_status r = Pending" "dt_ge now (ar_expires_at r) = Inr False"
    and "distinct (map fst (ar_approvals r @ votes))" "ar_requested_by r \<notin> fst ` set votes"
    and "snd ` set votes \<subseteq> ar_required_roles r"
    and "int (length (ar_approvals r @ votes)) = ar_required_count r" "votes \<noteq> []"
  shows "dget (approve_all st rid now votes) rid =
     Some (r\<lparr>ar_approvals := ar_approvals r @ votes, ar_status := Approved\<rparr>)"
  using assms
proof (induction votes arbitrary: st r)
  case (Cons v votes)
  obtain actor role where v: "v = (actor, role)" by (cases v)
  have "actor \<notin> fst ` set (ar_approvals r)" using Cons.prems(4) v by auto
  then have step: "snd (approve st rid actor role now) = dput rid (add_vote r actor role) st"
    using Cons.prems v unfolding approve_def voter_iff Let_def by auto
  show ?case
  proof (cases "votes = []")
    case True
    with step Cons.prems v show ?thesis by (simp add: add_vote_def Let_def)
  next
    case False
    then have "length votes > 0" by simp
    then have "\<not> ar_required_count r \<le> int (length (ar_approvals r @ [(actor, role)]))"
      using Cons.prems(7) False by (cases votes) simp_all
    then have open': "add_vote r actor role = r\<lparr>ar_approvals := ar_approvals r @ [(actor, role)]\<rparr>"
      using Cons.prems(2) by (cases r) (simp add: add_vote_def Let_def)
    have "dget (approve_all (dput rid (add_vote r actor role) st) rid now votes) rid =
       Some ((add_vote r actor role)\<lparr>ar_approvals := ar_approvals (add_vote r actor role) @ votes,
         ar_status := Approved\<rparr>)"
      by (rule Cons.IH) (use Cons.prems v False open' in auto)
    with open' v step show ?thesis by simp
  qed
qed simp

text \<open>
  Further: The quorum suffices. When as many distinct actors as a pending, unvoted request requires,
  none of them the requester and each in a required role, approve it before it expires, it ends
  approved with exactly their votes, in the order they voted.
\<close>
theorem quorum_approves:
  assumes "dget st rid = Some r" and "fresh_request r" and "dt_ge now (ar_expires_at r) = Inr False"
    and "distinct (map fst votes)" and "ar_requested_by r \<notin> fst ` set votes"
    and "snd ` set votes \<subseteq> ar_required_roles r"
    and "int (length votes) = ar_required_count r" and "0 < ar_required_count r"
  shows "dget (approve_all st rid now votes) rid = Some (r\<lparr>ar_approvals := votes, ar_status := Approved\<rparr>)"
  using approve_all_votes [of st rid r now votes] assms by (fastforce simp: fresh_request_def)

theorem quorum_approves_witness:
  "dget (approve_all [(''a1'', request_example)] ''a1'' (Aware 10)
       [(''bob'', ''operator''), (''carol'', ''operator'')]) ''a1'' = Some request_example_approved"
  using quorum_approves [of "[(''a1'', request_example)]" "''a1''" request_example "Aware 10"
      "[(''bob'', ''operator''), (''carol'', ''operator'')]"]
  by (simp add: request_example_def request_example_approved_def fresh_request_def)

lemma rel_sum_map_Some:
  "rel_sum (=) R a b \<Longrightarrow> rel_sum (=) (rel_option R) (map_sum id Some a) (map_sum id Some b)"
  by (cases a; cases b) auto

lemma rel_sum_map_None:
  "rel_sum (=) (rel_option R) (map_sum id (\<lambda>_. None) a) (map_sum id (\<lambda>_. None) a)"
  by (cases a) (auto simp: option.rel_intros)

lemma run_simulated:
  assumes px: "pool_contract px" and t: "valid_tenant t" and sim: "approval_sim t st db"
    and ok: "cmd_ok t st c"
    and mem: "run_memory st c = (res, st')" and pg: "run_pg px tz t db c = (res', db')"
  shows "rel_sum (=) (rel_option same_votes) res res' \<and>
    (res \<noteq> Inl (ValueError ''approval expired'') \<longrightarrow> approval_sim t st' db')"
proof (cases c)
  case (CreateCmd r)
  obtain a where a: "create st r = (a, st')" "res = map_sum id (\<lambda>_. None) a"
    using mem CreateCmd by (cases "create st r") auto
  obtain b where b: "create_pg px tz db r = (b, db')" "res' = map_sum id (\<lambda>_. None) b"
    using pg CreateCmd by (cases "create_pg px tz db r") auto
  show ?thesis
    using create_simulated [OF px t sim ok [unfolded CreateCmd] a(1) b(1)]
    unfolding a(2) b(2) by (simp add: rel_sum_map_None)
next
  case (ApproveCmd rid actor role now)
  obtain a where a: "approve st rid actor role now = (a, st')" "res = map_sum id Some a"
    using mem ApproveCmd by (cases "approve st rid actor role now") auto
  obtain b where b: "approve_pg px db rid actor role now (Some t) = (b, db')" "res' = map_sum id Some b"
    using pg ApproveCmd by (cases "approve_pg px db rid actor role now (Some t)") auto
  show ?thesis
    using approve_simulated [OF px t sim a(1) b(1)]
    unfolding a(2) b(2) by (cases a; cases b) auto
next
  case (RejectCmd rid)
  obtain a where a: "reject st rid = (a, st')" "res = map_sum id Some a"
    using mem RejectCmd by (cases "reject st rid") auto
  obtain b where b: "reject_pg px db rid (Some t) = (b, db')" "res' = map_sum id Some b"
    using pg RejectCmd by (cases "reject_pg px db rid (Some t)") auto
  show ?thesis
    using reject_simulated [OF px t sim a(1) b(1)]
    unfolding a(2) b(2) by (auto intro: rel_sum_map_Some)
next
  case (ModifyCmd rid actor exp_at roles needed)
  obtain a where a: "modify st rid actor exp_at roles needed = (a, st')" "res = map_sum id Some a"
    using mem ModifyCmd by (cases "modify st rid actor exp_at roles needed") auto
  obtain b where b: "modify_pg px db rid actor exp_at roles needed (Some t) = (b, db')"
      "res' = map_sum id Some b"
    using pg ModifyCmd by (cases "modify_pg px db rid actor exp_at roles needed (Some t)") auto
  show ?thesis
    using modify_simulated [OF px t sim a(1) b(1)]
    unfolding a(2) b(2) by (auto intro: rel_sum_map_Some)
qed

text \<open>
  C7: The workflow on PostgreSQL refines the in-memory one. From related states, every command
  (creating a new request, approving, rejecting, modifying) gives the same error or the same
  request up to the order of its votes, and unless the in-memory workflow recorded an expiry the
  states are related again.
\<close>
theorem pg_workflow_refines:
  assumes "pool_contract px" and "valid_tenant t" and "approval_sim t st db" and "cmd_ok t st c"
  shows "rel_sum (=) (rel_option same_votes) (fst (run_memory st c)) (fst (run_pg px tz t db c)) \<and>
    (fst (run_memory st c) \<noteq> Inl (ValueError ''approval expired'') \<longrightarrow>
       approval_sim t (snd (run_memory st c)) (snd (run_pg px tz t db c)))"
  by (rule run_simulated [OF assms]) simp_all

theorem pg_workflow_refines_witness:
  "approval_sim ''t1'' (snd (run_memory [] (CreateCmd request_example)))
     (snd (run_pg commit_or_rollback id ''t1'' \<lparr>approvals_tbl = [], votes_tbl = []\<rparr> (CreateCmd request_example)))"
proof -
  have "approval_sim ''t1'' [] \<lparr>approvals_tbl = [], votes_tbl = []\<rparr>"
    by (simp add: approval_sim_def abs_db_def)
  moreover have "cmd_ok ''t1'' [] (CreateCmd request_example)"
    by (simp add: request_example_def fresh_request_def)
  moreover have "fst (run_memory [] (CreateCmd request_example)) \<noteq> Inl (ValueError ''approval expired'')"
    using request_example_run(1) by simp
  ultimately show ?thesis
    using pg_workflow_refines [of commit_or_rollback "''t1''" "[]" "\<lparr>approvals_tbl = [], votes_tbl = []\<rparr>"
        "CreateCmd request_example" id]
    by (simp add: valid_tenant_def)
qed

definition db_example :: approval_db where
  "db_example = \<lparr>approvals_tbl = [((''t1'', ''a1''),
     \<lparr>row_plan_id = ''p1'', row_risk = L3, row_requested_by = ''alice'', row_expires_at = 100,
      row_required_roles = {''operator''}, row_required_count = 2, row_status = Pending,
      row_version = 1\<rparr>)], votes_tbl = []\<rparr>"

text \<open>
  C38: An expired request stays pending in PostgreSQL. When the expiry has passed, \<open>approve\<close>
  updates the row to expired and then raises inside the same transaction, so that the update is
  rolled back: the database is unchanged and the request still reads as pending, while the
  in-memory workflow records it as expired.
\<close>
theorem pg_expiry_rolled_back:
  assumes "pool_contract px" and "valid_tenant t"
    and "dget (approvals_tbl db) (t, rid) = Some row" and "row_status row = Pending"
    and "row_expires_at row \<le> now"
  shows "approve_pg px db rid actor role (Aware now) (Some t) = (Inl (ValueError ''approval expired''), db) \<and>
    (dget st rid = Some (request_of_row db t rid row) \<longrightarrow>
       dget (snd (approve st rid actor role (Aware now))) rid =
         Some ((request_of_row db t rid row)\<lparr>ar_status := Expired\<rparr>))"
  using assms by (simp add: approve_pg_eq approve_pg_body_def approve_def)

theorem pg_expiry_rolled_back_witness:
  "approve_pg commit_or_rollback db_example ''a1'' ''bob'' ''operator'' (Aware 100) (Some ''t1'') =
     (Inl (ValueError ''approval expired''), db_example)"
  using pg_expiry_rolled_back [of commit_or_rollback "''t1''" db_example "''a1''"
      "snd (hd (approvals_tbl db_example))" 100 "''bob''" "''operator''" "[]"]
  by (simp add: db_example_def valid_tenant_def)

end
