(* ===== verification/Execution.thy ===== *)
theory Execution
  imports Approvals Values
begin

text \<open>
  The execution layer (\<open>packages/execution\<close>): the action guard, compensated transactions, the
  simulator and read-only executors, and the compute and energy adapters in front of a provider
  gateway. A gateway is a parameter, a state transformer on a world of its own.

  Shown here: the guard allows an action exactly when every one of its conditions holds, an
  allowed action of risk L2 or above rests on an approval by somebody else than its requester, a
  transaction of undoable operations applies all of them in order or restores the world, and no adapter lets a request
  through to its gateway that its validation rejects.
\<close>

section \<open>The action guard\<close>

record action =
  ac_id :: string
  ac_plan_id :: string
  ac_tenant_id :: string
  ac_target :: string
  ac_kind :: string
  ac_expected_state_version :: string
  ac_parameters :: json_object
  ac_bounds :: "(string, dec \<times> dec) dict"
  ac_timeout_seconds :: int
  ac_idempotency_key :: string
  ac_risk :: risk_level
  ac_created_at :: datetime
  ac_compensation_kind :: pyval

record guard_decision =
  gd_allowed :: bool
  gd_reasons :: "string list"

record action_guard =
  ag_whitelist :: "string set"
  ag_max_age :: timedelta

definition PROHIBITED_ENERGY_COMMANDS :: "string set" where
  "PROHIBITED_ENERGY_COMMANDS = {''breaker'', ''relay'', ''pcs_switch'', ''firmware''}"

definition default_max_age :: timedelta where
  "default_max_age = seconds 300"

definition check_bound :: "json_object \<Rightarrow> string \<Rightarrow> dec \<times> dec \<Rightarrow> string list result" where
  \<comment> \<open>one round of the loop over \<open>bounds\<close>: only \<open>KeyError\<close> and \<open>ValueError\<close> are caught\<close>
  "check_bound parameters name bound =
     (case dget parameters name of
        None \<Rightarrow> Inr [''BOUND_VALUE_MISSING:'' @ name]
      | Some raw \<Rightarrow>
          rbind (decimal_of_value raw) (\<lambda>value.
          rbind (dec_le (fst bound) value) (\<lambda>low.
          if \<not> low then Inr [''BOUND_VIOLATION:'' @ name]
          else rbind (dec_le value (snd bound)) (\<lambda>high.
            Inr (if high then [] else [''BOUND_VIOLATION:'' @ name])))))"

definition check_bounds :: "action \<Rightarrow> string list result" where
  "check_bounds action =
     rbind (rmap_list (\<lambda>(name, bound). check_bound (ac_parameters action) name bound) (ac_bounds action))
       (\<lambda>rs. Inr (concat rs))"

definition check_approval :: "action \<Rightarrow> datetime \<Rightarrow> approval_request option \<Rightarrow> string list result" where
  "check_approval action now approval =
     (if L2 \<le> ac_risk action then
        (case approval of
           None \<Rightarrow> Inr [''VALID_APPROVAL_REQUIRED'']
         | Some a \<Rightarrow>
             if ar_status a \<noteq> Approved then Inr [''VALID_APPROVAL_REQUIRED'']
             else if ar_plan_id a \<noteq> ac_plan_id action \<or> ar_tenant_id a \<noteq> ac_tenant_id action
             then Inr [''APPROVAL_SCOPE_MISMATCH'']
             else rbind (dt_ge now (ar_expires_at a)) (\<lambda>expired.
               Inr (if expired then [''APPROVAL_EXPIRED''] else [])))
      else Inr [])"

definition evaluate ::
  "action_guard \<Rightarrow> action \<Rightarrow> string \<Rightarrow> datetime \<Rightarrow> approval_request option \<Rightarrow> guard_decision result" where
  "evaluate guard action current_state_version now approval =
     rbind (dt_sub now (ac_created_at action)) (\<lambda>age.
     rbind (check_bounds action) (\<lambda>bound_reasons.
     rbind (check_approval action now approval) (\<lambda>approval_reasons.
       let reasons =
             (if ac_kind action \<notin> ag_whitelist guard then [''ACTION_NOT_WHITELISTED''] else []) @
             (if ac_kind action \<in> PROHIBITED_ENERGY_COMMANDS
              then [''PROHIBITED_LOW_LEVEL_ENERGY_COMMAND''] else []) @
             (if current_state_version \<noteq> ac_expected_state_version action
              then [''STALE_TARGET_STATE''] else []) @
             (if age > ag_max_age guard then [''STALE_ACTION''] else []) @
             bound_reasons @ approval_reasons
       in Inr \<lparr>gd_allowed = (reasons = []), gd_reasons = reasons\<rparr>)))"

definition within_bound :: "json_object \<Rightarrow> string \<Rightarrow> dec \<times> dec \<Rightarrow> bool" where
  \<comment> \<open>the parameter is there and a number between the two bounds\<close>
  "within_bound parameters name bound \<longleftrightarrow>
     (\<exists>raw x. dget parameters name = Some raw \<and> decimal_of_value raw = Inr x \<and>
        dec_le (fst bound) x = Inr True \<and> dec_le x (snd bound) = Inr True)"

definition approval_covers :: "action \<Rightarrow> datetime \<Rightarrow> approval_request option \<Rightarrow> bool" where
  "approval_covers action now approval \<longleftrightarrow>
     (\<exists>a. approval = Some a \<and> ar_status a = Approved \<and> ar_plan_id a = ac_plan_id action \<and>
        ar_tenant_id a = ac_tenant_id action \<and> dt_ge now (ar_expires_at a) = Inr False)"

lemma check_bound_ok: "check_bound ps name bound = Inr [] \<longleftrightarrow> within_bound ps name bound"
proof (cases "dget ps name")
  case (Some raw)
  show ?thesis
  proof (cases "decimal_of_value raw")
    case (Inr d)
    with Some show ?thesis
      by (auto simp: check_bound_def within_bound_def rbind_eq_Inr)
  qed (use Some in \<open>auto simp: check_bound_def within_bound_def\<close>)
qed (auto simp: check_bound_def within_bound_def)

lemma rmap_list_concat_Nil:
  "rbind (rmap_list f xs) (\<lambda>rs. Inr (concat rs)) = Inr [] \<longleftrightarrow> (\<forall>x \<in> set xs. f x = Inr [])"
  by (induction xs) (auto simp: outcome_simps)

lemma check_bounds_ok:
  "check_bounds action = Inr [] \<longleftrightarrow>
     (\<forall>(name, bound) \<in> set (ac_bounds action). within_bound (ac_parameters action) name bound)"
  unfolding check_bounds_def rmap_list_concat_Nil by (auto simp: check_bound_ok)

lemma check_approval_ok:
  "check_approval action now approval = Inr [] \<longleftrightarrow>
     (L2 \<le> ac_risk action \<longrightarrow> approval_covers action now approval)"
  by (auto simp: check_approval_def approval_covers_def outcome_simps split: option.splits)

definition action_example :: "risk_level \<Rightarrow> action" where
  "action_example risk = \<lparr>ac_id = ''act-1'', ac_plan_id = ''p1'', ac_tenant_id = ''t1'', ac_target = ''simulator'',
     ac_kind = ''schedule_job'', ac_expected_state_version = ''v1'',
     ac_parameters = [(''gpus'', PInt 4)], ac_bounds = [(''gpus'', Fin 1, Fin 8)], ac_timeout_seconds = 30,
     ac_idempotency_key = ''key-0001'', ac_risk = risk, ac_created_at = Aware 0,
     ac_compensation_kind = PNone\<rparr>"

definition guard_example :: action_guard where
  "guard_example = \<lparr>ag_whitelist = {''schedule_job'', ''set_dispatch_plan''}, ag_max_age = default_max_age\<rparr>"

definition guard_accepts ::
  "action_guard \<Rightarrow> action \<Rightarrow> string \<Rightarrow> datetime \<Rightarrow> approval_request option \<Rightarrow> bool" where
  \<comment> \<open>what the guard is for, condition by condition\<close>
  "guard_accepts guard action version now approval \<longleftrightarrow>
     ac_kind action \<in> ag_whitelist guard \<and> ac_kind action \<notin> PROHIBITED_ENERGY_COMMANDS \<and>
     version = ac_expected_state_version action \<and>
     (\<exists>age. dt_sub now (ac_created_at action) = Inr age \<and> age \<le> ag_max_age guard) \<and>
     (\<forall>(name, bound) \<in> set (ac_bounds action). within_bound (ac_parameters action) name bound) \<and>
     (L2 \<le> ac_risk action \<longrightarrow> approval_covers action now approval)"

lemma evaluate_allowed_iff:
  "(\<exists>d. evaluate guard action version now approval = Inr d \<and> gd_allowed d) \<longleftrightarrow>
     guard_accepts guard action version now approval"
  unfolding guard_accepts_def check_bounds_ok [symmetric] check_approval_ok [symmetric]
  by (cases "dt_sub now (ac_created_at action)"; cases "check_bounds action";
      cases "check_approval action now approval") (auto simp: evaluate_def Let_def)

text \<open>
  C19: The action guard allows an action exactly when its kind is on the whitelist and is no
  prohibited low-level energy command, the target is still in the expected state, the action is
  not older than the maximal age, every bounded parameter is present and a number inside its
  bounds, and, from risk L2 on, an approved, unexpired approval of the same plan and tenant is
  given. The decision lists no reason exactly when it allows the action.
\<close>
theorem guard_exact:
  "(case evaluate guard action version now approval of
      Inr d \<Rightarrow> gd_allowed d = guard_accepts guard action version now approval \<and>
               (gd_reasons d = []) = gd_allowed d
    | Inl e \<Rightarrow> \<not> guard_accepts guard action version now approval)"
proof (cases "evaluate guard action version now approval")
  case (Inl e)
  then show ?thesis using evaluate_allowed_iff [of guard action version now approval] by simp
next
  case (Inr d)
  then have "(gd_reasons d = []) = gd_allowed d"
    by (auto simp: evaluate_def Let_def outcome_simps)
  then show ?thesis
    using Inr evaluate_allowed_iff [of guard action version now approval] by simp
qed

lemma approved_by_others:
  assumes wf: "wf_request a" and approved: "ar_status a = Approved"
  shows "(\<exists>(approver, role) \<in> set (ar_approvals a). approver \<noteq> ar_requested_by a \<and> role \<in> ar_required_roles a) \<and>
    (L3 \<le> ar_risk a \<longrightarrow> 2 \<le> card (fst ` set (ar_approvals a) - {ar_requested_by a}))"
proof -
  have card: "card (fst ` set (ar_approvals a) - {ar_requested_by a}) = length (ar_approvals a)"
    using wf_request_voters [OF wf] wf [unfolded wf_request_def, THEN conjunct2, THEN conjunct1] by simp
  obtain v where v: "v \<in> set (ar_approvals a)"
    using wf approved by (cases "ar_approvals a") (auto simp: wf_request_def)
  note wf_request_voter [OF wf v]
  with v have "\<exists>(approver, role) \<in> set (ar_approvals a). approver \<noteq> ar_requested_by a \<and> role \<in> ar_required_roles a"
    by (intro bexI [of _ v]) (simp_all add: case_prod_beta)
  moreover have "2 \<le> length (ar_approvals a)" if "L3 \<le> ar_risk a"
    using that wf approved by (simp add: wf_request_def risk_minimum_def)
  ultimately show ?thesis using card by simp
qed

text \<open>
  Further: Four eyes reach the guard. When the guard allows an action of risk L2 or above on the
  strength of a request of a reachable approval store, then somebody other than the requester
  approved that request, in one of its required roles; and at least two did when the request was
  itself classified L3 or L4.
\<close>
theorem allowed_action_was_approved:
  assumes "approval_step\<^sup>*\<^sup>* [] st" and "get_request st rid = Inr a"
    and "evaluate guard action version now (Some a) = Inr d" and "gd_allowed d"
    and "L2 \<le> ac_risk action"
  shows "(\<exists>(approver, role) \<in> set (ar_approvals a). approver \<noteq> ar_requested_by a \<and> role \<in> ar_required_roles a) \<and>
    (L3 \<le> ar_risk a \<longrightarrow> 2 \<le> card (fst ` set (ar_approvals a) - {ar_requested_by a}))"
proof -
  have "guard_accepts guard action version now (Some a)"
    using assms(3,4) evaluate_allowed_iff [THEN iffD1] by blast
  with assms(5) have "approval_covers action now (Some a)"
    unfolding guard_accepts_def by (elim conjE mp)
  then have approved: "ar_status a = Approved" by (auto simp: approval_covers_def)
  have "dget st rid = Some a" using assms(2) by (auto simp: get_request_def split: option.splits)
  then have wf: "wf_request a"
    by (rule wf_store_lookup [OF workflow.inv_reachable [OF assms(1)], THEN conjunct2])
  show ?thesis by (rule approved_by_others [OF wf approved])
qed

lemma action_example_allowed:
  "evaluate guard_example (action_example risk) ''v1'' (Aware 50) (Some request_example_approved) =
     Inr \<lparr>gd_allowed = True, gd_reasons = []\<rparr>"
  by (simp add: evaluate_def check_bounds_def check_bound_def check_approval_def action_example_def
      guard_example_def PROHIBITED_ENERGY_COMMANDS_def default_max_age_def seconds_def
      request_example_approved_def request_example_def)

theorem allowed_action_was_approved_witness:
  "2 \<le> card (fst ` set (ar_approvals request_example_approved) - {''alice''})"
  using allowed_action_was_approved [OF request_example_reachable _ action_example_allowed, of "''a1''" L3]
  by (simp add: get_request_def action_example_def request_example_approved_def request_example_def)

text \<open>
  Further: The guard does not compare risks. A reachable store can hold an approved request of risk L2
  with a single approver, and with it the guard allows an action of risk L4 of the same plan,
  although an L4 request of its own would need two approvers.
\<close>
theorem guard_ignores_approval_risk:
  "\<exists>st a. approval_step\<^sup>*\<^sup>* [] st \<and> dget st ''a2'' = Some a \<and> ar_risk a = L2 \<and>
     card (fst ` set (ar_approvals a)) = 1 \<and> ac_risk (action_example L4) = L4 \<and>
     evaluate guard_example (action_example L4) ''v1'' (Aware 50) (Some a) =
       Inr \<lparr>gd_allowed = True, gd_reasons = []\<rparr>"
proof -
  let ?r = "\<lparr>ar_id = ''a2'', ar_plan_id = ''p1'', ar_tenant_id = ''t1'', ar_risk = L2,
     ar_requested_by = ''alice'', ar_expires_at = Aware 100, ar_required_roles = {''operator''},
     ar_required_count = 1, ar_approvals = [], ar_status = Pending\<rparr>"
  let ?a = "add_vote ?r ''bob'' ''operator''"
  have 1: "approval_step [] [(''a2'', ?r)]"
    by (rule approval_step.create [of ?r _ "Inr ()"])
      (simp_all add: fresh_request_def create_def create_checks_def risk_minimum_def)
  have 2: "approval_step [(''a2'', ?r)] [(''a2'', ?a)]"
    by (rule approval_step.approve [of _ "''a2''" "''bob''" "''operator''" "Aware 10" "Inr ?a"])
      (simp add: approve_def Let_def)
  have "approval_step\<^sup>*\<^sup>* [] [(''a2'', ?a)]"
    by (rule run_step [OF run_step [OF rtranclp.rtrancl_refl 1] 2])
  moreover have "evaluate guard_example (action_example L4) ''v1'' (Aware 50) (Some ?a) =
       Inr \<lparr>gd_allowed = True, gd_reasons = []\<rparr>"
    by (simp add: evaluate_def check_bounds_def check_bound_def check_approval_def action_example_def
        guard_example_def PROHIBITED_ENERGY_COMMANDS_def default_max_age_def seconds_def add_vote_def)
  ultimately show ?thesis
    by (intro exI [of _ "[(''a2'', ?a)]"] exI [of _ ?a]) (simp add: add_vote_def action_example_def)
qed

text \<open>
  Further: A parameter that is no number is not reported as a missing bound value. The guard catches
  \<open>ValueError\<close>, but \<open>Decimal\<close> raises \<open>InvalidOperation\<close> on such text, and so the evaluation itself
  raises instead of returning a decision.
\<close>
theorem guard_raises_on_non_numeric:
  assumes "ac_bounds action = (name, bound) # rest" and "dget (ac_parameters action) name = Some raw"
    and "decimal_of_value raw = Inl e" and "dt_sub now (ac_created_at action) = Inr age"
  shows "evaluate guard action version now approval = Inl InvalidOperation"
  using assms decimal_of_value_error [OF assms(3)]
  by (simp add: evaluate_def check_bounds_def check_bound_def)

theorem guard_raises_on_non_numeric_witness:
  "evaluate guard_example ((action_example L1)\<lparr>ac_parameters := [(''gpus'', PStr ''abc'')]\<rparr>) ''v1'' (Aware 50) None
     = Inl InvalidOperation"
  by (rule guard_raises_on_non_numeric [where name = "''gpus''" and bound = "(Fin 1, Fin 8)" and rest = "[]"
        and raw = "PStr ''abc''" and e = InvalidOperation and age = 50])
    (simp_all add: action_example_def decimal_of_string_examples)

section \<open>Compensated transactions\<close>

text \<open>
  \<open>execute_transaction\<close> on operations that act on a world \<open>'w\<close> and leave evidence \<open>'e\<close>. A raise
  inside an operation may have changed the world already.
\<close>

record ('w, 'e) operation =
  op_apply :: "'w \<Rightarrow> 'e result \<times> 'w"
  op_compensate :: "'e \<Rightarrow> 'w \<Rightarrow> 'e result \<times> 'w"

fun apply_operations ::
  "('w, 'e) operation list \<Rightarrow> (('w, 'e) operation \<times> 'e) list \<Rightarrow> 'w \<Rightarrow>
   py_error option \<times> (('w, 'e) operation \<times> 'e) list \<times> 'w" where
  "apply_operations [] completed w = (None, completed, w)"
| "apply_operations (operation # operations) completed w =
     (case op_apply operation w of
        (Inl e, w') \<Rightarrow> (Some e, completed, w')
      | (Inr evidence, w') \<Rightarrow> apply_operations operations (completed @ [(operation, evidence)]) w')"

fun compensate_operations ::
  "(('w, 'e) operation \<times> 'e) list \<Rightarrow> 'w \<Rightarrow> py_error list \<times> 'w" where
  "compensate_operations [] w = ([], w)"
| "compensate_operations ((operation, evidence) # rest) w =
     (case op_compensate operation evidence w of
        (Inl e, w') \<Rightarrow> (let (errors, w'') = compensate_operations rest w' in (e # errors, w''))
      | (Inr _, w') \<Rightarrow> compensate_operations rest w')"

definition execute_transaction :: "('w, 'e) operation list \<Rightarrow> 'w \<Rightarrow> 'e list result \<times> 'w" where
  "execute_transaction operations w =
     (case apply_operations operations [] w of
        (None, completed, w') \<Rightarrow> (Inr (map snd completed), w')
      | (Some error, completed, w') \<Rightarrow>
          (case compensate_operations (rev completed) w' of
             ([], w'') \<Rightarrow> (Inl error, w'')
           | (_ # _, w'') \<Rightarrow> (Inl (RuntimeError ''operation and compensation both failed''), w'')))"

section \<open>Executors\<close>

text \<open>The dictionaries that the executors return, as far as a later call reads them.\<close>

record executor_evidence =
  ee_status :: string
  ee_previous :: "(string, json_object) dict option"
  ee_current :: "(string, json_object) dict"

type_synonym simulator_state = "(string, json_object) dict"

definition simulator_dry_run :: "string \<Rightarrow> json_object \<Rightarrow> json_object" where
  "simulator_dry_run kind parameters =
     [(''valid'', PBool True), (''kind'', PStr kind), (''would_apply'', PDict parameters)]"

definition simulator_execute ::
  "string \<Rightarrow> json_object \<Rightarrow> simulator_state \<Rightarrow> executor_evidence result \<times> simulator_state" where
  "simulator_execute kind parameters state =
     (let state' = dput kind parameters state
      in (Inr \<lparr>ee_status = ''executed'', ee_previous = Some state, ee_current = state'\<rparr>, state'))"

definition simulator_compensate ::
  "executor_evidence \<Rightarrow> simulator_state \<Rightarrow> executor_evidence result \<times> simulator_state" where
  "simulator_compensate evidence state =
     (case ee_previous evidence of
        None \<Rightarrow> (Inl (KeyError ''previous''), state)
      | Some previous \<Rightarrow>
          (Inr \<lparr>ee_status = ''compensated'', ee_previous = None, ee_current = previous\<rparr>, previous))"

definition read_only_execute ::
  "string \<Rightarrow> json_object \<Rightarrow> simulator_state \<Rightarrow> executor_evidence result \<times> simulator_state" where
  \<comment> \<open>\<open>ExternalReadOnlyExecutor.execute\<close>\<close>
  "read_only_execute kind parameters state =
     (Inl (PermissionError ''external execution remains read-only until guarded certification''), state)"

definition simulator_operation :: "string \<Rightarrow> json_object \<Rightarrow> (simulator_state, executor_evidence) operation" where
  "simulator_operation kind parameters =
     \<lparr>op_apply = simulator_execute kind parameters, op_compensate = simulator_compensate\<rparr>"

definition read_only_operation :: "string \<Rightarrow> json_object \<Rightarrow> (simulator_state, executor_evidence) operation" where
  "read_only_operation kind parameters =
     \<lparr>op_apply = read_only_execute kind parameters, op_compensate = simulator_compensate\<rparr>"

section \<open>Adapters in front of a provider gateway\<close>

record 'w gateway =
  gw_dry_run :: "string \<Rightarrow> string \<Rightarrow> json_object \<Rightarrow> 'w \<Rightarrow> json_object result \<times> 'w"
  gw_execute :: "string \<Rightarrow> string \<Rightarrow> json_object \<Rightarrow> string \<Rightarrow> 'w \<Rightarrow> json_object result \<times> 'w"

definition compute_allowed_kinds :: "string set" where
  "compute_allowed_kinds = {''schedule_job'', ''cancel_job'', ''pause_checkpointable_job'', ''resume_job''}"

definition compute_validate :: "string set \<Rightarrow> string \<Rightarrow> json_object \<Rightarrow> unit result" where
  "compute_validate allowed_kinds kind parameters =
     (if kind \<notin> allowed_kinds then Inl (PermissionError ''compute action is not allowlisted'')
      else if parameters = [] then Inl (ValueError ''compute action parameters are required'')
      else Inr ())"

definition compute_dry_run ::
  "'w gateway \<Rightarrow> string set \<Rightarrow> string \<Rightarrow> string \<Rightarrow> json_object \<Rightarrow> 'w \<Rightarrow> json_object result \<times> 'w" where
  "compute_dry_run gw allowed_kinds target kind parameters w =
     (case compute_validate allowed_kinds kind parameters of
        Inl e \<Rightarrow> (Inl e, w)
      | Inr _ \<Rightarrow> gw_dry_run gw target kind parameters w)"

definition compute_execute ::
  "'w gateway \<Rightarrow> string set \<Rightarrow> string \<Rightarrow> string \<Rightarrow> json_object \<Rightarrow> string \<Rightarrow> 'w \<Rightarrow> json_object result \<times> 'w" where
  "compute_execute gw allowed_kinds target kind parameters idempotency_key w =
     (case compute_validate allowed_kinds kind parameters of
        Inl e \<Rightarrow> (Inl e, w)
      | Inr _ \<Rightarrow>
          if length idempotency_key < 8
          then (Inl (ValueError ''compute action idempotency key is too short''), w)
          else gw_execute gw target kind parameters idempotency_key w)"

definition PROHIBITED_FIELDS :: "string set" where
  "PROHIBITED_FIELDS = {''breaker'', ''relay'', ''firmware'', ''contactor'', ''register_address''}"

definition exceeds :: "dec \<Rightarrow> decimal \<Rightarrow> bool result" where
  \<comment> \<open>\<open>abs(dispatch) > maximum\<close>\<close>
  "exceeds dispatch maximum =
     (case dispatch of
        Fin x \<Rightarrow> Inr (dround \<bar>x\<bar> > maximum) | Infinity _ \<Rightarrow> Inr True | NaN \<Rightarrow> Inl InvalidOperation)"

definition energy_validate :: "decimal \<Rightarrow> json_object \<Rightarrow> unit result" where
  "energy_validate maximum_dispatch_kw parameters =
     (if PROHIBITED_FIELDS \<inter> set (dkeys parameters) \<noteq> {}
      then Inl (PermissionError ''low-level electrical control is prohibited'')
      else
        rbind (decimal_of_value (dget_or parameters ''dispatch_kw'' (PInt 0))) (\<lambda>dispatch.
        rbind (exceeds dispatch maximum_dispatch_kw) (\<lambda>over.
          if over then Inl (ValueError ''energy dispatch exceeds certified bound'')
          else if ''valid_until'' \<notin> set (dkeys parameters)
          then Inl (ValueError ''energy plan requires an expiry'')
          else Inr ())))"

definition energy_dry_run ::
  "'w gateway \<Rightarrow> decimal \<Rightarrow> string \<Rightarrow> json_object \<Rightarrow> 'w \<Rightarrow> json_object result \<times> 'w" where
  "energy_dry_run gw maximum_dispatch_kw target parameters w =
     (case energy_validate maximum_dispatch_kw parameters of
        Inl e \<Rightarrow> (Inl e, w)
      | Inr _ \<Rightarrow> gw_dry_run gw target ''set_dispatch_plan'' parameters w)"

definition energy_execute ::
  "'w gateway \<Rightarrow> decimal \<Rightarrow> string \<Rightarrow> json_object \<Rightarrow> string \<Rightarrow> 'w \<Rightarrow> json_object result \<times> 'w" where
  "energy_execute gw maximum_dispatch_kw target parameters idempotency_key w =
     (case energy_validate maximum_dispatch_kw parameters of
        Inl e \<Rightarrow> (Inl e, w)
      | Inr _ \<Rightarrow>
          if length idempotency_key < 8
          then (Inl (ValueError ''energy action idempotency key is too short''), w)
          else gw_execute gw target ''set_dispatch_plan'' parameters idempotency_key w)"

section \<open>Atomicity of transactions\<close>

text \<open>
  The contract that makes a transaction atomic: an operation that raises has changed nothing, and
  compensating with the evidence of a run brings the world of before back.
\<close>

fun applied_in_order :: "('w, 'e) operation list \<Rightarrow> 'e list \<Rightarrow> 'w \<Rightarrow> 'w \<Rightarrow> bool" where
  \<comment> \<open>the operations, applied once each and in this order, leave this evidence and this world\<close>
  "applied_in_order [] evidence w w' \<longleftrightarrow> evidence = [] \<and> w' = w"
| "applied_in_order (operation # operations) evidence w w' \<longleftrightarrow>
     (case op_apply operation w of
        (Inl _, _) \<Rightarrow> False
      | (Inr e, v) \<Rightarrow> evidence \<noteq> [] \<and> hd evidence = e \<and> applied_in_order operations (tl evidence) v w')"

lemma applied_snoc:
  "applied_in_order operations evidence w w' \<Longrightarrow> op_apply operation w' = (Inr e, w'') \<Longrightarrow>
   applied_in_order (operations @ [operation]) (evidence @ [e]) w w''"
  by (induction operations arbitrary: evidence w) (auto split: sum.splits prod.splits)

locale compensable =
  fixes valid :: "('w, 'e) operation \<Rightarrow> bool"
  assumes raise_keeps: "valid operation \<Longrightarrow> op_apply operation w = (Inl e, w') \<Longrightarrow> w' = w"
    and undo: "valid operation \<Longrightarrow> op_apply operation w = (Inr evidence, w') \<Longrightarrow>
      \<exists>r. op_compensate operation evidence w' = (Inr r, w)"
begin

inductive ran :: "'w \<Rightarrow> (('w, 'e) operation \<times> 'e) list \<Rightarrow> 'w \<Rightarrow> bool" where
  none: "ran w [] w"
| more: "ran w completed w' \<Longrightarrow> valid operation \<Longrightarrow> op_apply operation w' = (Inr evidence, w'') \<Longrightarrow>
     ran w (completed @ [(operation, evidence)]) w''"

lemma compensate_ran: "ran w completed w' \<Longrightarrow> compensate_operations (rev completed) w' = ([], w)"
proof (induction rule: ran.induct)
  case (more w completed w' operation evidence w'')
  obtain r where "op_compensate operation evidence w'' = (Inr r, w')"
    using undo [OF more.hyps(2,3)] by blast
  with more.IH show ?case by simp
qed simp

lemma apply_ran:
  assumes "ran w completed w'" and "\<forall>operation \<in> set operations. valid operation"
    and "apply_operations operations completed w' = (error, completed', w'')"
  shows "ran w completed' w'' \<and>
    (case error of
       None \<Rightarrow> map fst completed' = map fst completed @ operations
     | Some e \<Rightarrow> \<exists>before operation after. operations = before @ operation # after \<and>
         map fst completed' = map fst completed @ before \<and> op_apply operation w'' = (Inl e, w''))"
  using assms
proof (induction operations arbitrary: completed w')
  case (Cons operation operations)
  obtain res w1 where run: "op_apply operation w' = (res, w1)" by fastforce
  show ?case
  proof (cases res)
    case (Inl e)
    then have "w1 = w'" using raise_keeps [of operation w' e w1] Cons.prems(2) run by simp
    then have "ran w completed' w''" "error = Some e" "completed' = completed" "op_apply operation w'' = (Inl e, w'')"
      using Inl Cons.prems(1,3) run by auto
    then show ?thesis by (auto intro: exI [of _ "[]"])
  next
    case (Inr evidence)
    have "ran w (completed @ [(operation, evidence)]) w1"
      using ran.more [OF Cons.prems(1)] Cons.prems(2) run Inr by simp
    note rest = Cons.IH [OF this]
    show ?thesis
    proof (cases error)
      case None
      then show ?thesis using rest Cons.prems run Inr by simp
    next
      case (Some e)
      then obtain before failed after where "operations = before @ failed # after" "ran w completed' w''"
        "map fst completed' = (map fst completed @ [operation]) @ before" "op_apply failed w'' = (Inl e, w'')"
        using rest Cons.prems run Inr by auto
      then show ?thesis using Some by (auto intro: exI [of _ "operation # before"])
    qed
  qed
qed auto

lemma ran_applied: "ran w completed w' \<Longrightarrow> applied_in_order (map fst completed) (map snd completed) w w'"
  by (induction rule: ran.induct) (auto dest: applied_snoc)

lemma transaction_atomic:
  assumes "\<forall>operation \<in> set operations. valid operation"
  shows "case execute_transaction operations w of
      (Inl e, w') \<Rightarrow> w' = w \<and>
        (\<exists>before operation after evidence v. operations = before @ operation # after \<and>
          applied_in_order before evidence w v \<and> op_apply operation v = (Inl e, v))
    | (Inr evidence, w') \<Rightarrow> applied_in_order operations evidence w w'"
proof -
  obtain error completed w' where run: "apply_operations operations [] w = (error, completed, w')"
    by (cases "apply_operations operations [] w") auto
  note ran = apply_ran [OF ran.none assms run]
  note applied = ran_applied [OF ran [THEN conjunct1]]
  show ?thesis
  proof (cases error)
    case None
    then show ?thesis using ran applied run by (simp add: execute_transaction_def)
  next
    case (Some e)
    then obtain before failed after where "operations = before @ failed # after" "map fst completed = before" "op_apply failed w' = (Inl e, w')"
      using ran by auto
    then have "\<exists>before operation after evidence v. operations = before @ operation # after \<and>
        applied_in_order before evidence w v \<and> op_apply operation v = (Inl e, v)"
      using applied by blast
    then show ?thesis
      using Some ran run compensate_ran [of w completed w'] by (simp add: execute_transaction_def)
  qed
qed

end

definition executor_operation :: "(simulator_state, executor_evidence) operation \<Rightarrow> bool" where
  \<comment> \<open>an operation of the simulator or of the read-only executor\<close>
  "executor_operation operation \<longleftrightarrow>
     (\<exists>kind parameters. operation = simulator_operation kind parameters \<or>
        operation = read_only_operation kind parameters)"

interpretation executor: compensable executor_operation
  by unfold_locales
    (auto simp: executor_operation_def simulator_operation_def read_only_operation_def
      simulator_execute_def read_only_execute_def simulator_compensate_def Let_def)

text \<open>
  C27: A transaction over the executors is all or nothing. Whatever mix of simulator operations
  and read-only external operations it consists of, it either returns, and then the state and the
  evidence are those of applying every operation once and in order, none of them compensated; or it
  raises the error of the first operation that failed, on the state that the operations before it had
  left, and, these being compensated in reverse order, the state is exactly the state of before.
\<close>
theorem transaction_all_or_nothing:
  assumes "\<forall>operation \<in> set operations. executor_operation operation"
  shows "case execute_transaction operations state of
      (Inl e, state') \<Rightarrow> state' = state \<and>
        (\<exists>before operation after evidence v. operations = before @ operation # after \<and>
          applied_in_order before evidence state v \<and> op_apply operation v = (Inl e, v))
    | (Inr evidence, state') \<Rightarrow> applied_in_order operations evidence state state'"
  by (rule executor.transaction_atomic [OF assms])

theorem transaction_all_or_nothing_witness:
  "execute_transaction [simulator_operation ''schedule_job'' [(''gpus'', PInt 4)],
       simulator_operation ''pause'' [(''job'', PStr ''j'')], read_only_operation ''cancel'' []] [(''mode'', [])] =
     (Inl (PermissionError ''external execution remains read-only until guarded certification''), [(''mode'', [])])"
  using transaction_all_or_nothing [of "[simulator_operation ''schedule_job'' [(''gpus'', PInt 4)],
       simulator_operation ''pause'' [(''job'', PStr ''j'')], read_only_operation ''cancel'' []]" "[(''mode'', [])]"]
  by (auto simp: executor_operation_def execute_transaction_def simulator_operation_def
      read_only_operation_def simulator_execute_def read_only_execute_def simulator_compensate_def Let_def)

text \<open>
  Further: Nothing passes the energy adapter unchecked. Either the provider gateway is not called at
  all and its world is unchanged, or the parameters name no breaker, relay, firmware, contactor or
  register, the dispatch is a finite number within the certified bound, an expiry is given, the
  idempotency key has at least eight characters, and the call is the gateway's own.
\<close>
theorem energy_gateway_guarded:
  "(\<exists>e. energy_execute gw maximum target parameters key w = (Inl e, w)) \<or>
   (PROHIBITED_FIELDS \<inter> set (dkeys parameters) = {} \<and>
    (\<exists>x. decimal_of_value (dget_or parameters ''dispatch_kw'' (PInt 0)) = Inr (Fin x) \<and> dround \<bar>x\<bar> \<le> maximum) \<and>
    ''valid_until'' \<in> set (dkeys parameters) \<and> 8 \<le> length key \<and>
    energy_execute gw maximum target parameters key w =
      gw_execute gw target ''set_dispatch_plan'' parameters key w)"
proof (cases "energy_validate maximum parameters")
  case (Inl e)
  then show ?thesis by (simp add: energy_execute_def)
next
  case (Inr u)
  then obtain d where "PROHIBITED_FIELDS \<inter> set (dkeys parameters) = {}"
    and d: "decimal_of_value (dget_or parameters ''dispatch_kw'' (PInt 0)) = Inr d"
    and ex: "exceeds d maximum = Inr False" and "''valid_until'' \<in> set (dkeys parameters)"
    by (auto simp: energy_validate_def outcome_simps split: if_splits)
  moreover obtain x where "d = Fin x" "dround \<bar>x\<bar> \<le> maximum"
    using ex by (cases d) (auto simp: exceeds_def)
  ultimately show ?thesis using Inr by (auto simp: energy_execute_def)
qed

end
