(* ===== verification/Idempotency.thy ===== *)
theory Idempotency
  imports Persistence Values
begin

text \<open>
  Exactly-once execution: \<open>IdempotencyStore\<close> of \<open>packages/execution/idempotency.py\<close> for actions and
  \<open>OperationIdempotency\<close> of \<open>packages/persistence/operations.py\<close> for API operations, each in memory
  and on PostgreSQL.

  The operation that is run is a parameter, a state transformer on a world of its own. Every
  store splits a call into the part before the operation (\<open>begin\<close>: replay, refuse or proceed) and
  the part after it, because the operation runs outside the lock and outside the transaction.
  The digest of an intent (SHA-256 of its JSON) and the JSON round trip of a stored result are
  parameters.

  \<open>once_store\<close> is the contract all four stores keep when calls do not overlap. For overlapping
  calls the action store on PostgreSQL is a transition system, \<open>exec_step\<close>, whose steps are its
  transactions and the outcomes of running operations: an operation may raise before or after its effect,
  and a process may crash.
\<close>

datatype 'r begun = Replay 'r | Proceed

section \<open>Actions, in memory\<close>

record cancellation =
  cn_action_id :: string
  cn_tenant_id :: string
  cn_actor_id :: string
  cn_reason :: string
  cn_status :: string

record 'r idempotency_store =
  im_results :: "(string \<times> string, string \<times> 'r) dict"
  im_action_status :: "(string \<times> string, string) dict"
  im_cancellations :: "(string \<times> string, cancellation) dict"

definition begin_memory ::
  "string \<times> string \<Rightarrow> string \<times> string \<Rightarrow> string \<Rightarrow> 'r idempotency_store \<Rightarrow>
   'r begun result \<times> 'r idempotency_store" where
  "begin_memory identity action_identity digest st =
     (if dget (im_cancellations st) action_identity \<noteq> None
      then (Inl (PermissionError ''action was cancelled before execution''), st)
      else case dget (im_results st) identity of
        Some (previous_digest, result) \<Rightarrow>
          (if previous_digest \<noteq> digest
           then (Inl (ValueError ''idempotency key reused with different intent''), st)
           else (Inr (Replay result), st))
      | None \<Rightarrow>
          if dget (im_action_status st) action_identity = Some ''started''
          then (Inl (RuntimeError ''matching action execution is already in progress''), st)
          else (Inr Proceed,
                st\<lparr>im_action_status := dput action_identity ''started'' (im_action_status st)\<rparr>))"

definition fail_memory :: "string \<times> string \<Rightarrow> 'r idempotency_store \<Rightarrow> 'r idempotency_store" where
  "fail_memory action_identity st =
     st\<lparr>im_action_status := dput action_identity ''failed'' (im_action_status st)\<rparr>"

definition succeed_memory ::
  "string \<times> string \<Rightarrow> string \<times> string \<Rightarrow> string \<Rightarrow> 'r \<Rightarrow> 'r idempotency_store \<Rightarrow> 'r idempotency_store" where
  "succeed_memory identity action_identity digest result st =
     st\<lparr>im_results := dput identity (digest, result) (im_results st),
        im_action_status := dput action_identity ''succeeded'' (im_action_status st)\<rparr>"

definition or_default :: "string option \<Rightarrow> string \<Rightarrow> string" where
  \<comment> \<open>\<open>value or default\<close>\<close>
  "or_default v d = (case v of None \<Rightarrow> d | Some s \<Rightarrow> if s = [] then d else s)"

definition execute_once_memory ::
  "(json_object \<Rightarrow> string) \<Rightarrow> string \<Rightarrow> json_object \<Rightarrow> ('w \<Rightarrow> 'r result \<times> 'w) \<Rightarrow> string option \<Rightarrow> string option \<Rightarrow>
   'r idempotency_store \<times> 'w \<Rightarrow> 'r result \<times> 'r idempotency_store \<times> 'w" where
  "execute_once_memory intent_digest key intent operation tenant_id action_id s =
     (let (st, w) = s;
          digest = intent_digest intent;
          scope = or_default tenant_id ''memory'';
          identity = (scope, key);
          action_identity =
            (scope, or_default action_id (py_str (dget_or intent ''action'' (PStr ''unknown''))))
      in case begin_memory identity action_identity digest st of
           (Inl e, st') \<Rightarrow> (Inl e, st', w)
         | (Inr (Replay result), st') \<Rightarrow> (Inr result, st', w)
         | (Inr Proceed, st') \<Rightarrow>
             (case operation w of
                (Inl e, w') \<Rightarrow> (Inl e, fail_memory action_identity st', w')
              | (Inr result, w') \<Rightarrow>
                  (Inr result, succeed_memory identity action_identity digest result st', w')))"

definition record_cancellation ::
  "string \<times> string \<Rightarrow> cancellation \<Rightarrow> 'r idempotency_store \<Rightarrow> cancellation result \<times> 'r idempotency_store" where
  "record_cancellation identity cancellation st =
     (case dget (im_cancellations st) identity of
        Some existing \<Rightarrow>
          if existing \<noteq> cancellation
          then (Inl (ValueError ''action cancellation already exists with different intent''), st)
          else (Inr cancellation, st\<lparr>im_cancellations := dput identity cancellation (im_cancellations st)\<rparr>)
      | None \<Rightarrow> (Inr cancellation, st\<lparr>im_cancellations := dput identity cancellation (im_cancellations st)\<rparr>))"

definition cancel_memory ::
  "string \<Rightarrow> string \<Rightarrow> string \<Rightarrow> string \<Rightarrow> 'r idempotency_store \<Rightarrow> cancellation result \<times> 'r idempotency_store" where
  "cancel_memory action_id tenant_id actor_id reason st =
     (if action_id = [] \<or> tenant_id = [] \<or> actor_id = [] \<or> strip reason = []
      then (Inl (ValueError ''action cancellation requires action, tenant, actor and reason''), st)
      else
        let cancellation = \<lparr>cn_action_id = action_id, cn_tenant_id = tenant_id, cn_actor_id = actor_id,
                            cn_reason = strip reason, cn_status = ''cancelled''\<rparr>;
            identity = (tenant_id, action_id)
        in case dget (im_action_status st) identity of
             Some status \<Rightarrow>
               if status \<in> {''started'', ''succeeded''}
               then (Inl (ValueError (''action cannot be cancelled after status '' @ status)), st)
               else record_cancellation identity cancellation st
           | None \<Rightarrow> record_cancellation identity cancellation st)"

section \<open>Actions, on PostgreSQL\<close>

datatype execution_status = Started | Succeeded | Failed | Compensated

fun status_text :: "execution_status \<Rightarrow> string" where
  "status_text Started = ''started''"
| "status_text Succeeded = ''succeeded''"
| "status_text Failed = ''failed''"
| "status_text Compensated = ''compensated''"

record 'r execution_row =
  ex_action_id :: string
  ex_intent_hash :: string
  ex_status :: execution_status
  ex_result :: "'r option"

record 'r execution_db =
  action_executions :: "(string \<times> string, 'r execution_row) dict"
  action_cancellations :: "(string \<times> string, string \<times> string) dict"

definition begin_pg_body ::
  "string \<Rightarrow> string \<Rightarrow> string \<Rightarrow> string \<Rightarrow> 'r execution_db \<Rightarrow> 'r option begun result \<times> 'r execution_db" where
  "begin_pg_body tenant_id action_id key digest db =
     (if dget (action_cancellations db) (tenant_id, action_id) \<noteq> None
      then (Inl (PermissionError ''action was cancelled before execution''), db)
      else case dget (action_executions db) (tenant_id, key) of
        Some row \<Rightarrow>
          if ex_intent_hash row \<noteq> digest
          then (Inl (ValueError ''idempotency key reused with different intent''), db)
          else if ex_status row = Succeeded then (Inr (Replay (ex_result row)), db)
          else if ex_status row = Started
          then (Inl (RuntimeError ''matching action execution is already in progress''), db)
          else (Inr Proceed, db\<lparr>action_executions :=
                  dput (tenant_id, key) (row\<lparr>ex_status := Started\<rparr>) (action_executions db)\<rparr>)
      | None \<Rightarrow>
          (Inr Proceed, db\<lparr>action_executions :=
             dput (tenant_id, key)
               \<lparr>ex_action_id = action_id, ex_intent_hash = digest, ex_status = Started, ex_result = None\<rparr>
               (action_executions db)\<rparr>))"

definition update_execution ::
  "string \<Rightarrow> string \<Rightarrow> string \<Rightarrow> ('r execution_row \<Rightarrow> 'r execution_row) \<Rightarrow> 'r execution_db \<Rightarrow> 'r execution_db" where
  \<comment> \<open>\<open>UPDATE action_executions ... WHERE tenant_id AND idempotency_key AND intent_hash\<close>\<close>
  "update_execution tenant_id key digest f db =
     (case dget (action_executions db) (tenant_id, key) of
        None \<Rightarrow> db
      | Some row \<Rightarrow>
          if ex_intent_hash row = digest
          then db\<lparr>action_executions := dput (tenant_id, key) (f row) (action_executions db)\<rparr>
          else db)"

definition fail_pg :: "string \<Rightarrow> string \<Rightarrow> string \<Rightarrow> 'r execution_db \<Rightarrow> 'r execution_db" where
  "fail_pg tenant_id key digest = update_execution tenant_id key digest (\<lambda>row. row\<lparr>ex_status := Failed\<rparr>)"

definition succeed_pg :: "string \<Rightarrow> string \<Rightarrow> string \<Rightarrow> 'r \<Rightarrow> 'r execution_db \<Rightarrow> 'r execution_db" where
  "succeed_pg tenant_id key digest result =
     update_execution tenant_id key digest (\<lambda>row. row\<lparr>ex_status := Succeeded, ex_result := Some result\<rparr>)"

definition execute_once_pg ::
  "'r execution_db pool_exit \<Rightarrow> ('r \<Rightarrow> 'r) \<Rightarrow> (json_object \<Rightarrow> string) \<Rightarrow> string \<Rightarrow> json_object \<Rightarrow>
   ('w \<Rightarrow> 'r result \<times> 'w) \<Rightarrow> string option \<Rightarrow> string option \<Rightarrow>
   'r execution_db \<times> 'w \<Rightarrow> 'r option result \<times> 'r execution_db \<times> 'w" where
  "execute_once_pg px serializable intent_digest key intent operation tenant action s =
     (let (db, w) = s; digest = intent_digest intent in
      case (tenant, action) of
        (Some tenant_id, Some action_id) \<Rightarrow>
          if tenant_id = [] \<or> action_id = []
          then (Inl (ValueError ''tenant_id and action_id are required for persistent execution''), db, w)
          else (case tenant_connection px tenant_id db (begin_pg_body tenant_id action_id key digest) of
             (Inl e, db') \<Rightarrow> (Inl e, db', w)
           | (Inr (Replay result), db') \<Rightarrow> (Inr result, db', w)
           | (Inr Proceed, db') \<Rightarrow>
               (case operation w of
                  (Inl e, w') \<Rightarrow>
                    (Inl e, snd (tenant_connection px tenant_id db'
                       (\<lambda>db. (Inr (), fail_pg tenant_id key digest db))), w')
                | (Inr result, w') \<Rightarrow>
                    (Inr (Some result), snd (tenant_connection px tenant_id db'
                       (\<lambda>db. (Inr (), succeed_pg tenant_id key digest (serializable result) db))), w')))
      | _ \<Rightarrow> (Inl (ValueError ''tenant_id and action_id are required for persistent execution''), db, w))"

definition active_execution :: "'r execution_db \<Rightarrow> string \<Rightarrow> string \<Rightarrow> execution_status option" where
  \<comment> \<open>a started or succeeded execution of the action, \<open>LIMIT 1\<close>\<close>
  "active_execution db tenant_id action_id =
     map_option (\<lambda>((t, k), row). ex_status row)
       (find (\<lambda>((t, k), row). t = tenant_id \<and> ex_action_id row = action_id \<and>
                ex_status row \<in> {Started, Succeeded}) (action_executions db))"

definition cancel_pg ::
  "'r execution_db pool_exit \<Rightarrow> string \<Rightarrow> string \<Rightarrow> string \<Rightarrow> string \<Rightarrow> 'r execution_db \<Rightarrow>
   cancellation result \<times> 'r execution_db" where
  "cancel_pg px action_id tenant_id actor_id reason db =
     (if action_id = [] \<or> tenant_id = [] \<or> actor_id = [] \<or> strip reason = []
      then (Inl (ValueError ''action cancellation requires action, tenant, actor and reason''), db)
      else
        let cancellation = \<lparr>cn_action_id = action_id, cn_tenant_id = tenant_id, cn_actor_id = actor_id,
                            cn_reason = strip reason, cn_status = ''cancelled''\<rparr>
        in tenant_connection px tenant_id db (\<lambda>db.
             case active_execution db tenant_id action_id of
               Some status \<Rightarrow>
                 (Inl (ValueError (''action cannot be cancelled after status '' @ status_text status)), db)
             | None \<Rightarrow>
                 (case dget (action_cancellations db) (tenant_id, action_id) of
                    Some (existing_actor, existing_reason) \<Rightarrow>
                      if existing_actor \<noteq> actor_id \<or> existing_reason \<noteq> strip reason
                      then (Inl (ValueError ''action cancellation already exists with different intent''), db)
                      else (Inr cancellation, db)
                  | None \<Rightarrow>
                      (Inr cancellation, db\<lparr>action_cancellations :=
                         dput (tenant_id, action_id) (actor_id, strip reason) (action_cancellations db)\<rparr>))))"

section \<open>API operations\<close>

type_synonym 'r operation_memory = "(string \<times> string, string \<times> string \<times> 'r) dict"

definition operation_arguments_ok :: "string \<Rightarrow> string \<Rightarrow> string \<Rightarrow> bool" where
  "operation_arguments_ok tenant_id key operation \<longleftrightarrow> tenant_id \<noteq> [] \<and> 8 \<le> length key \<and> operation \<noteq> []"

definition bad_arguments :: py_error where
  "bad_arguments =
     ValueError ''tenant, operation and an idempotency key of at least 8 characters are required''"

definition execute_memory ::
  "(json_object \<Rightarrow> string) \<Rightarrow> string \<Rightarrow> string \<Rightarrow> string \<Rightarrow> json_object \<Rightarrow> ('w \<Rightarrow> 'r result \<times> 'w) \<Rightarrow>
   'r operation_memory \<times> 'w \<Rightarrow> 'r result \<times> 'r operation_memory \<times> 'w" where
  "execute_memory intent_digest tenant_id key operation intent callback s =
     (let (memory, w) = s; digest = intent_digest intent in
      if \<not> operation_arguments_ok tenant_id key operation then (Inl bad_arguments, memory, w)
      else case dget memory (tenant_id, key) of
        Some (previous_operation, previous_digest, result) \<Rightarrow>
          if previous_operation \<noteq> operation \<or> previous_digest \<noteq> digest
          then (Inl (ValueError ''idempotency key reused with a different API operation''), memory, w)
          else (Inr result, memory, w)
      | None \<Rightarrow>
          (case callback w of
             (Inl e, w') \<Rightarrow> (Inl e, memory, w')
           | (Inr result, w') \<Rightarrow> (Inr result, dput (tenant_id, key) (operation, digest, result) memory, w')))"

record 'r operation_row =
  ao_operation :: string
  ao_intent_hash :: string
  ao_status :: execution_status
  ao_response :: "'r option"
  ao_lease_expires_at :: instant

type_synonym 'r operation_db = "(string \<times> string, 'r operation_row) dict"

definition check_identity :: "'r operation_row \<Rightarrow> string \<Rightarrow> string \<Rightarrow> unit result" where
  "check_identity row operation digest =
     (if ao_operation row \<noteq> operation \<or> ao_intent_hash row \<noteq> digest
      then Inl (ValueError ''idempotency key reused with a different API operation'') else Inr ())"

definition begin_operation ::
  "timedelta \<Rightarrow> instant \<Rightarrow> string \<Rightarrow> string \<Rightarrow> string \<Rightarrow> string \<Rightarrow> 'r operation_db \<Rightarrow>
   'r option begun result \<times> 'r operation_db" where
  "begin_operation lease now tenant_id key operation digest db =
     (case dget db (tenant_id, key) of
        Some row \<Rightarrow>
          (case check_identity row operation digest of
             Inl e \<Rightarrow> (Inl e, db)
           | Inr _ \<Rightarrow>
               if ao_status row = Succeeded then (Inr (Replay (ao_response row)), db)
               else if ao_status row = Started \<and> ao_lease_expires_at row > now
               then (Inl (RuntimeError ''matching API operation is already in progress''), db)
               else (Inr Proceed, dput (tenant_id, key)
                       (row\<lparr>ao_status := Started, ao_response := None, ao_lease_expires_at := now + lease\<rparr>) db))
      | None \<Rightarrow>
          (Inr Proceed, dput (tenant_id, key)
             \<lparr>ao_operation = operation, ao_intent_hash = digest, ao_status = Started, ao_response = None,
              ao_lease_expires_at = now + lease\<rparr> db))"

definition fail_operation :: "string \<Rightarrow> string \<Rightarrow> string \<Rightarrow> 'r operation_db \<Rightarrow> 'r operation_db" where
  \<comment> \<open>no condition on the status\<close>
  "fail_operation tenant_id key digest db =
     (case dget db (tenant_id, key) of
        Some row \<Rightarrow>
          if ao_intent_hash row = digest then dput (tenant_id, key) (row\<lparr>ao_status := Failed\<rparr>) db else db
      | None \<Rightarrow> db)"

definition succeed_operation ::
  "string \<Rightarrow> string \<Rightarrow> string \<Rightarrow> 'r \<Rightarrow> 'r operation_db \<Rightarrow> unit result \<times> 'r operation_db" where
  "succeed_operation tenant_id key digest response db =
     (case dget db (tenant_id, key) of
        Some row \<Rightarrow>
          if ao_intent_hash row = digest \<and> ao_status row = Started
          then (Inr (), dput (tenant_id, key) (row\<lparr>ao_status := Succeeded, ao_response := Some response\<rparr>) db)
          else (Inl (RuntimeError ''API operation lease was lost before completion''), db)
      | None \<Rightarrow> (Inl (RuntimeError ''API operation lease was lost before completion''), db))"

definition execute_operation_pg ::
  "'r operation_db pool_exit \<Rightarrow> ('r \<Rightarrow> 'r) \<Rightarrow> (json_object \<Rightarrow> string) \<Rightarrow> timedelta \<Rightarrow> instant \<Rightarrow>
   string \<Rightarrow> string \<Rightarrow> string \<Rightarrow> json_object \<Rightarrow> ('w \<Rightarrow> 'r result \<times> 'w) \<Rightarrow>
   'r operation_db \<times> 'w \<Rightarrow> 'r option result \<times> 'r operation_db \<times> 'w" where
  \<comment> \<open>\<open>now\<close> is the database clock of the first transaction\<close>
  "execute_operation_pg px serializable intent_digest lease now tenant_id key operation intent callback s =
     (let (db, w) = s; digest = intent_digest intent in
      if \<not> operation_arguments_ok tenant_id key operation then (Inl bad_arguments, db, w)
      else case tenant_connection px tenant_id db (begin_operation lease now tenant_id key operation digest) of
        (Inl e, db') \<Rightarrow> (Inl e, db', w)
      | (Inr (Replay response), db') \<Rightarrow> (Inr response, db', w)
      | (Inr Proceed, db') \<Rightarrow>
          (case callback w of
             (Inl e, w') \<Rightarrow>
               (Inl e, snd (tenant_connection px tenant_id db'
                  (\<lambda>db. (Inr (), fail_operation tenant_id key digest db))), w')
           | (Inr result, w') \<Rightarrow>
               (case tenant_connection px tenant_id db' (succeed_operation tenant_id key digest (serializable result)) of
                  (Inl e, db'') \<Rightarrow> (Inl e, db'', w')
                | (Inr _, db'') \<Rightarrow> (Inr (Some result), db'', w'))))"

section \<open>The contract of a store that runs an operation once\<close>

fun calls ::
  "('t \<Rightarrow> 'q \<Rightarrow> ('w \<Rightarrow> 'r result \<times> 'w) \<Rightarrow> 's \<times> 'w \<Rightarrow> 'a result \<times> 's \<times> 'w) \<Rightarrow>
   ('t \<times> 'q \<times> ('w \<Rightarrow> 'r result \<times> 'w)) list \<Rightarrow> 's \<times> 'w \<Rightarrow> 'a result list \<times> 's \<times> 'w" where
  \<comment> \<open>calls one after the other: the time, the request and the operation of each\<close>
  "calls exec [] sw = ([], sw)"
| "calls exec ((t, q, operation) # rest) sw =
     (let (r, sw') = exec t q operation sw; (rs, sw'') = calls exec rest sw' in (r # rs, sw''))"

locale once_store =
  fixes exec :: "'t \<Rightarrow> 'q \<Rightarrow> ('w \<Rightarrow> 'r result \<times> 'w) \<Rightarrow> 's \<times> 'w \<Rightarrow> 'a result \<times> 's \<times> 'w"
    and key_of :: "'q \<Rightarrow> 'k"
    and intent_of :: "'q \<Rightarrow> 'i"
  assumes replay: "exec t q operation (s, w) = (Inr a, s', w') \<Longrightarrow>
      \<exists>b. \<forall>t2 q2 operation2 w2. key_of q2 = key_of q \<longrightarrow> intent_of q2 = intent_of q \<longrightarrow>
        exec t2 q2 operation2 (s', w2) = (Inr b, s', w2)"
    and conflict: "exec t q operation (s, w) = (Inr a, s', w') \<Longrightarrow> key_of q2 = key_of q \<Longrightarrow>
      intent_of q2 \<noteq> intent_of q \<Longrightarrow> \<exists>e. exec t2 q2 operation2 (s', w2) = (Inl e, s', w2)"
begin

lemma retries:
  assumes "exec t q operation (s, w) = (Inr a, s', w')"
  shows "\<exists>b. \<forall>cs. (\<forall>(t2, q2, operation2) \<in> set cs. key_of q2 = key_of q \<and> intent_of q2 = intent_of q) \<longrightarrow>
    calls exec cs (s', w') = (replicate (length cs) (Inr b), s', w')"
proof -
  obtain b where b: "\<forall>t2 q2 operation2 w2. key_of q2 = key_of q \<longrightarrow> intent_of q2 = intent_of q \<longrightarrow>
        exec t2 q2 operation2 (s', w2) = (Inr b, s', w2)"
    using replay [OF assms] by blast
  have "(\<forall>(t2, q2, operation2) \<in> set cs. key_of q2 = key_of q \<and> intent_of q2 = intent_of q) \<longrightarrow>
    calls exec cs (s', w') = (replicate (length cs) (Inr b), s', w')" for cs
  proof (induction cs)
    case (Cons c cs)
    then show ?case using b by (cases c) auto
  qed simp
  then show ?thesis by (intro exI allI)
qed

lemma world_untouched:
  assumes "exec t q operation (s, w) = (Inr a, s', w')"
    and "\<forall>(t2, q2, operation2) \<in> set cs. key_of q2 = key_of q"
  shows "snd (calls exec cs (s', w')) = (s', w')"
  using assms(2)
proof (induction cs)
  case (Cons c cs)
  obtain t2 q2 operation2 where c: "c = (t2, q2, operation2)" by (cases c)
  have key: "key_of q2 = key_of q" using Cons.prems c by simp
  have "\<exists>r. exec t2 q2 operation2 (s', w') = (r, s', w')"
  proof (cases "intent_of q2 = intent_of q")
    case True
    then show ?thesis using replay [OF assms(1)] key by metis
  next
    case False
    then show ?thesis using conflict [OF assms(1) key] by metis
  qed
  then obtain r where "exec t2 q2 operation2 (s', w') = (r, s', w')" ..
  moreover have "snd (calls exec cs (s', w')) = (s', w')" using Cons by simp
  ultimately show ?case by (cases "calls exec cs (s', w')") (simp add: c)
qed simp

end

text \<open>
  A request to the action stores: scope or tenant, action, key and intent; to the API store:
  tenant, key, operation and intent.
\<close>

type_synonym action_request = "string \<times> string \<times> string \<times> json_object"
type_synonym operation_request = "string \<times> string \<times> string \<times> json_object"

definition exec_action_memory ::
  "(json_object \<Rightarrow> string) \<Rightarrow> unit \<Rightarrow> action_request \<Rightarrow> ('w \<Rightarrow> 'r result \<times> 'w) \<Rightarrow>
   'r idempotency_store \<times> 'w \<Rightarrow> 'r result \<times> 'r idempotency_store \<times> 'w" where
  "exec_action_memory intent_digest u q operation =
     (case q of (tenant_id, action_id, key, intent) \<Rightarrow>
        execute_once_memory intent_digest key intent operation (Some tenant_id) (Some action_id))"

definition exec_action_pg ::
  "'r execution_db pool_exit \<Rightarrow> ('r \<Rightarrow> 'r) \<Rightarrow> (json_object \<Rightarrow> string) \<Rightarrow> unit \<Rightarrow> action_request \<Rightarrow>
   ('w \<Rightarrow> 'r result \<times> 'w) \<Rightarrow> 'r execution_db \<times> 'w \<Rightarrow> 'r option result \<times> 'r execution_db \<times> 'w" where
  "exec_action_pg px serializable intent_digest u q operation =
     (case q of (tenant_id, action_id, key, intent) \<Rightarrow>
        execute_once_pg px serializable intent_digest key intent operation (Some tenant_id) (Some action_id))"

definition exec_operation_memory ::
  "(json_object \<Rightarrow> string) \<Rightarrow> unit \<Rightarrow> operation_request \<Rightarrow> ('w \<Rightarrow> 'r result \<times> 'w) \<Rightarrow>
   'r operation_memory \<times> 'w \<Rightarrow> 'r result \<times> 'r operation_memory \<times> 'w" where
  "exec_operation_memory intent_digest u q callback =
     (case q of (tenant_id, key, operation, intent) \<Rightarrow>
        execute_memory intent_digest tenant_id key operation intent callback)"

definition exec_operation_pg ::
  "'r operation_db pool_exit \<Rightarrow> ('r \<Rightarrow> 'r) \<Rightarrow> (json_object \<Rightarrow> string) \<Rightarrow> timedelta \<Rightarrow> instant \<Rightarrow> operation_request \<Rightarrow>
   ('w \<Rightarrow> 'r result \<times> 'w) \<Rightarrow> 'r operation_db \<times> 'w \<Rightarrow> 'r option result \<times> 'r operation_db \<times> 'w" where
  "exec_operation_pg px serializable intent_digest lease now q callback =
     (case q of (tenant_id, key, operation, intent) \<Rightarrow>
        execute_operation_pg px serializable intent_digest lease now tenant_id key operation intent callback)"

definition action_key :: "action_request \<Rightarrow> string \<times> string \<times> string" where
  "action_key q = (case q of (tenant_id, action_id, key, intent) \<Rightarrow>
     (or_default (Some tenant_id) ''memory'',
      or_default (Some action_id) (py_str (dget_or intent ''action'' (PStr ''unknown''))), key))"

definition pg_action_key :: "action_request \<Rightarrow> string \<times> string \<times> string" where
  "pg_action_key q = (case q of (tenant_id, action_id, key, intent) \<Rightarrow> (tenant_id, action_id, key))"

definition action_intent :: "(json_object \<Rightarrow> string) \<Rightarrow> action_request \<Rightarrow> string" where
  "action_intent intent_digest q = (case q of (tenant_id, action_id, key, intent) \<Rightarrow> intent_digest intent)"

definition operation_key :: "operation_request \<Rightarrow> string \<times> string" where
  "operation_key q = (case q of (tenant_id, key, operation, intent) \<Rightarrow> (tenant_id, key))"

definition operation_intent :: "(json_object \<Rightarrow> string) \<Rightarrow> operation_request \<Rightarrow> string \<times> string" where
  "operation_intent intent_digest q =
     (case q of (tenant_id, key, operation, intent) \<Rightarrow> (operation, intent_digest intent))"

lemma exec_action_memory_ok:
  assumes "exec_action_memory dg u q operation (s, w) = (Inr a, s', w')"
    and "action_key q = (scope, act, key)"
  shows "dget (im_cancellations s') (scope, act) = None \<and>
    (\<exists>r. dget (im_results s') (scope, key) = Some (action_intent dg q, r))"
  using assms
  by (cases q) (auto simp: exec_action_memory_def execute_once_memory_def begin_memory_def succeed_memory_def
      action_key_def action_intent_def Let_def split: if_splits option.splits sum.splits begun.splits prod.splits)

lemma exec_action_memory_again:
  assumes "dget (im_cancellations s) (scope, act) = None" "dget (im_results s) (scope, key) = Some (d, r)"
    and "action_key q = (scope, act, key)"
  shows "exec_action_memory dg u q operation (s, w) =
    (if action_intent dg q = d then (Inr r, s, w)
     else (Inl (ValueError ''idempotency key reused with different intent''), s, w))"
  using assms
  by (cases q) (auto simp: exec_action_memory_def execute_once_memory_def begin_memory_def
      action_key_def action_intent_def Let_def)

interpretation memory_actions: once_store "exec_action_memory dg" action_key "action_intent dg" for dg
proof unfold_locales
  fix t :: unit and q operation and s :: "'r idempotency_store" and w :: 'w and a s' w'
  assume run: "exec_action_memory dg t q operation (s, w) = (Inr a, s', w')"
  obtain scope act key where k: "action_key q = (scope, act, key)" by (cases "action_key q")
  obtain r where ok: "dget (im_cancellations s') (scope, act) = None"
      "dget (im_results s') (scope, key) = Some (action_intent dg q, r)"
    using exec_action_memory_ok [OF run k] by auto
  show "\<exists>b. \<forall>t2 q2 operation2 w2. action_key q2 = action_key q \<longrightarrow> action_intent dg q2 = action_intent dg q \<longrightarrow>
      exec_action_memory dg t2 q2 operation2 (s', w2) = (Inr b, s', w2)"
    by (intro exI [of _ r] allI impI) (simp add: exec_action_memory_again [OF ok] k)
  fix q2 t2 operation2 and w2 :: 'w
  assume "action_key q2 = action_key q" "action_intent dg q2 \<noteq> action_intent dg q"
  then show "\<exists>e. exec_action_memory dg t2 q2 operation2 (s', w2) = (Inl e, s', w2)"
    by (simp add: exec_action_memory_again [OF ok] k)
qed

abbreviation request_ok :: "(json_object \<Rightarrow> string) \<Rightarrow> operation_request \<Rightarrow> bool" where
  "request_ok dg q \<equiv>
     operation_arguments_ok (fst (operation_key q)) (snd (operation_key q)) (fst (operation_intent dg q))"

lemma exec_operation_memory_ok:
  assumes "exec_operation_memory dg u q callback (s, w) = (Inr a, s', w')"
  shows "request_ok dg q \<and>
    (\<exists>r. dget s' (operation_key q) = Some (fst (operation_intent dg q), snd (operation_intent dg q), r))"
  using assms
  by (cases q) (auto simp: exec_operation_memory_def execute_memory_def operation_key_def operation_intent_def
      Let_def split: if_splits option.splits sum.splits prod.splits)

lemma exec_operation_memory_again:
  assumes "dget s (operation_key q) = Some (p, d, r)" and "request_ok dg q"
  shows "exec_operation_memory dg u q callback (s, w) =
    (if operation_intent dg q = (p, d) then (Inr r, s, w)
     else (Inl (ValueError ''idempotency key reused with a different API operation''), s, w))"
  using assms
  by (cases q) (auto simp: exec_operation_memory_def execute_memory_def operation_key_def operation_intent_def Let_def)

lemma exec_operation_memory_refused:
  "\<not> request_ok dg q \<Longrightarrow> exec_operation_memory dg u q callback (s, w) = (Inl bad_arguments, s, w)"
  by (cases q) (simp add: exec_operation_memory_def execute_memory_def operation_key_def operation_intent_def Let_def)

interpretation memory_operations: once_store "exec_operation_memory dg" operation_key "operation_intent dg" for dg
proof unfold_locales
  fix t :: unit and q callback and s :: "'r operation_memory" and w :: 'w and a s' w'
  assume run: "exec_operation_memory dg t q callback (s, w) = (Inr a, s', w')"
  obtain r where ok: "request_ok dg q"
    and r: "dget s' (operation_key q) = Some (fst (operation_intent dg q), snd (operation_intent dg q), r)"
    using exec_operation_memory_ok [OF run] by auto
  show "\<exists>b. \<forall>t2 q2 callback2 w2. operation_key q2 = operation_key q \<longrightarrow>
      operation_intent dg q2 = operation_intent dg q \<longrightarrow>
      exec_operation_memory dg t2 q2 callback2 (s', w2) = (Inr b, s', w2)"
    by (intro exI [of _ r] allI impI) (simp add: exec_operation_memory_again [of s'] ok r)
  fix q2 t2 callback2 and w2 :: 'w
  assume "operation_key q2 = operation_key q" "operation_intent dg q2 \<noteq> operation_intent dg q"
  then show "\<exists>e. exec_operation_memory dg t2 q2 callback2 (s', w2) = (Inl e, s', w2)"
    by (cases "request_ok dg q2")
      (simp_all add: exec_operation_memory_again [of s' q2] r exec_operation_memory_refused)
qed

section \<open>The stores on PostgreSQL keep the contract\<close>

definition recorded_action ::
  "'r execution_db \<Rightarrow> string \<times> string \<times> string \<Rightarrow> string \<Rightarrow> 'r option \<Rightarrow> bool" where
  \<comment> \<open>the action ran under the key with the digest and is stored with the result; nobody cancelled it\<close>
  "recorded_action db k digest r \<longleftrightarrow>
     (case k of (t, act, key) \<Rightarrow>
        valid_tenant t \<and> act \<noteq> [] \<and> dget (action_cancellations db) (t, act) = None \<and>
        (\<exists>row. dget (action_executions db) (t, key) = Some row \<and> ex_intent_hash row = digest \<and>
           ex_status row = Succeeded \<and> ex_result row = r))"

definition recorded_operation :: "'r operation_db \<Rightarrow> string \<times> string \<Rightarrow> string \<times> string \<Rightarrow> 'r option \<Rightarrow> bool" where
  "recorded_operation db k intent r \<longleftrightarrow>
     valid_tenant (fst k) \<and> operation_arguments_ok (fst k) (snd k) (fst intent) \<and>
     (\<exists>row. dget db k = Some row \<and> ao_operation row = fst intent \<and> ao_intent_hash row = snd intent \<and>
        ao_status row = Succeeded \<and> ao_response row = r)"

locale pg_actions = psycopg px for px :: "'r execution_db pool_exit"
begin

lemma exec_action_pg_ok:
  assumes "exec_action_pg px ser dg u q operation (s, w) = (Inr a, s', w')"
  shows "\<exists>r. recorded_action s' (pg_action_key q) (action_intent dg q) r"
proof -
  obtain t act key intent where q: "q = (t, act, key, intent)" by (cases q)
  have "t \<noteq> []" "act \<noteq> []"
    using assms by (auto simp: q exec_action_pg_def execute_once_pg_def Let_def split: if_splits)
  moreover have t: "valid_tenant t"
    using assms \<open>t \<noteq> []\<close> \<open>act \<noteq> []\<close>
    by (auto simp: q exec_action_pg_def execute_once_pg_def Let_def tenant_connection_def valid_tenant_def split: if_splits)
  ultimately show ?thesis
    using assms
    by (cases "dget (action_cancellations s) (t, act)")
      (auto simp: q exec_action_pg_def execute_once_pg_def Let_def tenant_connection_step [OF t] begin_pg_body_def
        recorded_action_def pg_action_key_def action_intent_def succeed_pg_def update_execution_def
        split: if_splits option.splits sum.splits begun.splits prod.splits)
qed

lemma exec_action_pg_again:
  assumes "recorded_action s (pg_action_key q) d r"
  shows "exec_action_pg px ser dg u q operation (s, w) =
    (if action_intent dg q = d then (Inr r, s, w)
     else (Inl (ValueError ''idempotency key reused with different intent''), s, w))"
proof -
  obtain t act key intent where q: "q = (t, act, key, intent)" by (cases q)
  have t: "valid_tenant t" using assms by (simp add: q recorded_action_def pg_action_key_def)
  then have "t \<noteq> []" by (simp add: valid_tenant_def)
  with assms show ?thesis
    by (auto simp: q exec_action_pg_def execute_once_pg_def Let_def tenant_connection_step [OF t] begin_pg_body_def
        recorded_action_def pg_action_key_def action_intent_def)
qed

end

locale pg_operations = psycopg px for px :: "'r operation_db pool_exit"
begin

lemma exec_operation_pg_ok:
  assumes "exec_operation_pg px ser dg lease now q callback (s, w) = (Inr a, s', w')"
  shows "\<exists>r. recorded_operation s' (operation_key q) (operation_intent dg q) r"
proof -
  obtain t key oper intent where q: "q = (t, key, oper, intent)" by (cases q)
  have ok: "operation_arguments_ok t key oper"
    using assms by (auto simp: q exec_operation_pg_def execute_operation_pg_def Let_def split: if_splits)
  moreover have t: "valid_tenant t"
    using assms ok
    by (auto simp: q exec_operation_pg_def execute_operation_pg_def Let_def tenant_connection_def valid_tenant_def
        split: if_splits)
  ultimately show ?thesis
    using assms
    by (auto simp: q exec_operation_pg_def execute_operation_pg_def Let_def tenant_connection_step [OF t]
        begin_operation_def succeed_operation_def check_identity_def recorded_operation_def
        operation_key_def operation_intent_def
        split: if_splits option.splits sum.splits begun.splits prod.splits)
qed

lemma exec_operation_pg_again:
  assumes "recorded_operation s (operation_key q) i r" and "request_ok dg q"
  shows "exec_operation_pg px ser dg lease now q callback (s, w) =
    (if operation_intent dg q = i then (Inr r, s, w)
     else (Inl (ValueError ''idempotency key reused with a different API operation''), s, w))"
proof -
  obtain t key oper intent where q: "q = (t, key, oper, intent)" by (cases q)
  have t: "valid_tenant t" using assms by (simp add: q recorded_operation_def operation_key_def)
  with assms show ?thesis
    by (cases i) (auto simp: q exec_operation_pg_def execute_operation_pg_def Let_def tenant_connection_step [OF t]
        begin_operation_def check_identity_def recorded_operation_def operation_key_def operation_intent_def)
qed

lemma exec_operation_pg_refused:
  "\<not> request_ok dg q \<Longrightarrow> exec_operation_pg px ser dg lease now q callback (s, w) = (Inl bad_arguments, s, w)"
  by (cases q) (simp add: exec_operation_pg_def execute_operation_pg_def Let_def operation_key_def operation_intent_def)

end

sublocale pg_actions \<subseteq> store: once_store "exec_action_pg px ser dg" pg_action_key "action_intent dg" for ser dg
proof unfold_locales
  fix t :: unit and q operation s and w :: 'b and a s' w'
  assume run: "exec_action_pg px ser dg t q operation (s, w) = (Inr a, s', w')"
  obtain r where ok: "recorded_action s' (pg_action_key q) (action_intent dg q) r"
    using exec_action_pg_ok [OF run] ..
  show "\<exists>b. \<forall>t2 q2 operation2 w2. pg_action_key q2 = pg_action_key q \<longrightarrow> action_intent dg q2 = action_intent dg q \<longrightarrow>
      exec_action_pg px ser dg t2 q2 operation2 (s', w2) = (Inr b, s', w2)"
    using ok by (intro exI [of _ r] allI impI) (simp add: exec_action_pg_again)
  fix q2 t2 operation2 and w2 :: 'b
  assume "pg_action_key q2 = pg_action_key q" "action_intent dg q2 \<noteq> action_intent dg q"
  then show "\<exists>e. exec_action_pg px ser dg t2 q2 operation2 (s', w2) = (Inl e, s', w2)"
    using ok by (simp add: exec_action_pg_again)
qed

sublocale pg_operations \<subseteq> store: once_store "exec_operation_pg px ser dg lease" operation_key "operation_intent dg"
  for ser dg lease
proof unfold_locales
  fix t q callback s and w :: 'b and a s' w'
  assume run: "exec_operation_pg px ser dg lease t q callback (s, w) = (Inr a, s', w')"
  obtain r where ok: "recorded_operation s' (operation_key q) (operation_intent dg q) r"
    using exec_operation_pg_ok [OF run] ..
  then have "request_ok dg q" by (simp add: recorded_operation_def)
  with ok show "\<exists>b. \<forall>t2 q2 callback2 w2. operation_key q2 = operation_key q \<longrightarrow>
      operation_intent dg q2 = operation_intent dg q \<longrightarrow>
      exec_operation_pg px ser dg lease t2 q2 callback2 (s', w2) = (Inr b, s', w2)"
    by (intro exI [of _ r] allI impI) (simp add: exec_operation_pg_again)
  fix q2 t2 callback2 and w2 :: 'b
  assume "operation_key q2 = operation_key q" "operation_intent dg q2 \<noteq> operation_intent dg q"
  with ok show "\<exists>e. exec_operation_pg px ser dg lease t2 q2 callback2 (s', w2) = (Inl e, s', w2)"
    by (cases "request_ok dg q2") (simp_all add: exec_operation_pg_again exec_operation_pg_refused)
qed

interpretation default_actions: pg_actions commit_or_rollback
  by unfold_locales

interpretation default_operations: pg_operations commit_or_rollback
  by unfold_locales

section \<open>Overlapping executions on PostgreSQL\<close>

text \<open>
  Several processes share the database. Each first transaction of \<open>execute_once\<close> that proceeds
  leaves a running operation behind. The operation then raises before it has any effect, or has its
  effect and returns, or has its effect and raises (a request to a provider that times out); what it
  returned or that it raised is recorded later. A process may crash at any point, in particular between
  the effect and its record.
\<close>

datatype 'r phase = Running | Done 'r | Raised

record 'r exec_system =
  es_db :: "'r execution_db"
  es_running :: "((string \<times> string) \<times> string \<times> 'r phase) list" \<comment> \<open>tenant and key, digest, phase\<close>
  es_effects :: "((string \<times> string) \<times> bool) list"
    \<comment> \<open>tenant and key of every operation that had its effect, the latest first, and whether it returned\<close>

inductive exec_step :: "'r execution_db pool_exit \<Rightarrow> ('r \<Rightarrow> 'r) \<Rightarrow> 'r exec_system \<Rightarrow> 'r exec_system \<Rightarrow> bool"
  for px ser where
  proceed: "tenant_connection px t (es_db s) (begin_pg_body t act key digest) = (Inr Proceed, db') \<Longrightarrow>
    exec_step px ser s (s\<lparr>es_db := db', es_running := ((t, key), digest, Running) # es_running s\<rparr>)"
| no_run: "tenant_connection px t (es_db s) (begin_pg_body t act key digest) = (r, db') \<Longrightarrow> r \<noteq> Inr Proceed \<Longrightarrow>
    exec_step px ser s (s\<lparr>es_db := db'\<rparr>)"
| effect: "es_running s = xs @ (tk, digest, Running) # ys \<Longrightarrow>
    exec_step px ser s (s\<lparr>es_running := xs @ (tk, digest, Done result) # ys, es_effects := (tk, True) # es_effects s\<rparr>)"
| effect_raised: "es_running s = xs @ (tk, digest, Running) # ys \<Longrightarrow>
    exec_step px ser s (s\<lparr>es_running := xs @ (tk, digest, Raised) # ys, es_effects := (tk, False) # es_effects s\<rparr>)"
| fail: "es_running s = xs @ ((t, key), digest, phase) # ys \<Longrightarrow> phase \<in> {Running, Raised} \<Longrightarrow>
    tenant_connection px t (es_db s) (\<lambda>db. (Inr (), fail_pg t key digest db)) = (r, db') \<Longrightarrow>
    exec_step px ser s (s\<lparr>es_db := db', es_running := xs @ ys\<rparr>)"
| recorded: "es_running s = xs @ ((t, key), digest, Done result) # ys \<Longrightarrow>
    tenant_connection px t (es_db s) (\<lambda>db. (Inr (), succeed_pg t key digest (ser result) db)) = (r, db') \<Longrightarrow>
    exec_step px ser s (s\<lparr>es_db := db', es_running := xs @ ys\<rparr>)"
| crash: "es_running s = xs @ x # ys \<Longrightarrow> exec_step px ser s (s\<lparr>es_running := xs @ ys\<rparr>)"
| cancel: "cancel_pg px act t actor reason (es_db s) = (r, db') \<Longrightarrow> exec_step px ser s (s\<lparr>es_db := db'\<rparr>)"

definition exec_init :: "'r exec_system" where
  "exec_init = \<lparr>es_db = \<lparr>action_executions = [], action_cancellations = []\<rparr>, es_running = [], es_effects = []\<rparr>"

definition row_status_of :: "'r exec_system \<Rightarrow> string \<times> string \<Rightarrow> (string \<times> execution_status) option" where
  "row_status_of s tk =
     map_option (\<lambda>row. (ex_intent_hash row, ex_status row)) (dget (action_executions (es_db s)) tk)"

definition entry_ok ::
  "(string \<times> string \<Rightarrow> (string \<times> execution_status) option) \<Rightarrow> (string \<times> string) set \<Rightarrow>
   (string \<times> string) \<times> string \<times> 'r phase \<Rightarrow> bool" where
  \<comment> \<open>a running operation holds its row, and has had its effect and returned exactly when it is done\<close>
  "entry_ok status eff x \<longleftrightarrow>
     (case x of (tk, digest, phase) \<Rightarrow>
        status tk = Some (digest, Started) \<and> (tk \<in> eff \<longleftrightarrow> phase \<notin> {Running, Raised}))"

definition effect_ok :: "(string \<times> string \<Rightarrow> (string \<times> execution_status) option) \<Rightarrow> string \<times> string \<Rightarrow> bool" where
  "effect_ok status tk \<longleftrightarrow> map_option snd (status tk) \<in> {Some Started, Some Succeeded}"

fun returned_last :: "((string \<times> string) \<times> bool) list \<Rightarrow> bool" where
  \<comment> \<open>no effect comes after the effect of an operation that returned\<close>
  "returned_last [] = True"
| "returned_last ((tk, _) # effects) \<longleftrightarrow> (tk, True) \<notin> set effects \<and> returned_last effects"

definition returned_keys :: "'r exec_system \<Rightarrow> (string \<times> string) list" where
  "returned_keys s = map fst (filter snd (es_effects s))"

definition exec_inv :: "'r exec_system \<Rightarrow> bool" where
  "exec_inv s \<longleftrightarrow>
     distinct (map fst (es_running s)) \<and> returned_last (es_effects s) \<and>
     list_all (entry_ok (row_status_of s) (set (returned_keys s))) (es_running s) \<and>
     list_all (effect_ok (row_status_of s)) (returned_keys s)"

lemma returned_keys_mem: "tk \<in> set (returned_keys s) \<longleftrightarrow> (tk, True) \<in> set (es_effects s)"
  unfolding returned_keys_def by force

lemma returned_keys_fields [simp]:
  "returned_keys (s\<lparr>es_running := x\<rparr>) = returned_keys s"
  "returned_keys (s\<lparr>es_db := d\<rparr>) = returned_keys s"
  "returned_keys (s\<lparr>es_effects := (tk, b) # es_effects s\<rparr>) = (if b then tk # returned_keys s else returned_keys s)"
  by (simp_all add: returned_keys_def)

lemma returned_last_split: "returned_last (newer @ (tk, b) # older) \<Longrightarrow> (tk, True) \<notin> set older"
  by (induction newer) auto

lemma returned_last_once:
  assumes "returned_last effects" "(tk, False) \<notin> set effects"
  shows "length (filter (\<lambda>e. fst e = tk) effects) \<le> 1"
  using assms
proof (induction effects)
  case (Cons e effects)
  obtain k b where e: "e = (k, b)" by (cases e)
  show ?case
  proof (cases "k = tk")
    case True
    then have "filter (\<lambda>e. fst e = tk) effects = []"
      using Cons.prems e by (auto simp: filter_empty_conv) (metis (full_types))
    then show ?thesis using True e by simp
  qed (use Cons e in simp)
qed simp

lemma entry_ok_cong:
  "fst x \<noteq> tk \<Longrightarrow> entry_ok status (insert tk eff) x = entry_ok status eff x"
  "fst x \<noteq> tk \<Longrightarrow> entry_ok (status(tk := v)) eff x = entry_ok status eff x"
  by (auto simp: entry_ok_def split: prod.splits)

lemma list_all_entry_ok_cong:
  "tk \<notin> fst ` set xs \<Longrightarrow> list_all (entry_ok status (insert tk eff)) xs = list_all (entry_ok status eff) xs"
  "tk \<notin> fst ` set xs \<Longrightarrow> list_all (entry_ok (status(tk := v)) eff) xs = list_all (entry_ok status eff) xs"
  by (induction xs) (auto simp: entry_ok_cong)

lemma list_all_effect_ok_upd:
  "tk \<notin> set es \<or> map_option snd v \<in> {Some Started, Some Succeeded} \<Longrightarrow>
     list_all (effect_ok status) es \<Longrightarrow> list_all (effect_ok (status(tk := v))) es"
  by (induction es) (auto simp: effect_ok_def)

lemma row_status_of_fields [simp]:
  "row_status_of (s\<lparr>es_running := x\<rparr>) = row_status_of s"
  "row_status_of (s\<lparr>es_effects := y\<rparr>) = row_status_of s"
  "row_status_of (s\<lparr>es_db := (es_db s)\<lparr>action_executions := dput tk row (action_executions (es_db s))\<rparr>\<rparr>) =
     (row_status_of s)(tk := Some (ex_intent_hash row, ex_status row))"
  "row_status_of (s\<lparr>es_db := (es_db s)\<lparr>action_cancellations := z\<rparr>\<rparr>) = row_status_of s"
  by (auto simp: row_status_of_def fun_eq_iff)

lemma exec_inv_drop:
  "exec_inv s \<Longrightarrow> es_running s = xs @ x # ys \<Longrightarrow> exec_inv (s\<lparr>es_running := xs @ ys\<rparr>)"
  by (auto simp: exec_inv_def)

lemma exec_inv_effect:
  assumes "exec_inv s" and "es_running s = xs @ (tk, digest, Running) # ys"
  shows "exec_inv (s\<lparr>es_running := xs @ (tk, digest, Done result) # ys, es_effects := (tk, True) # es_effects s\<rparr>)"
    "exec_inv (s\<lparr>es_running := xs @ (tk, digest, Raised) # ys, es_effects := (tk, False) # es_effects s\<rparr>)"
proof -
  have fresh: "tk \<notin> fst ` set xs" "tk \<notin> fst ` set ys" and new: "tk \<notin> set (returned_keys s)"
    and row: "row_status_of s tk = Some (digest, Started)"
    using assms by (auto simp: exec_inv_def entry_ok_def)
  have keys: "returned_keys (s\<lparr>es_running := rs, es_effects := (tk, b) # es_effects s\<rparr>) = (if b then tk # returned_keys s else returned_keys s)"
    for rs :: "((string \<times> string) \<times> string \<times> 'a phase) list" and b
    by (simp add: returned_keys_def)
  show "exec_inv (s\<lparr>es_running := xs @ (tk, digest, Done result) # ys, es_effects := (tk, True) # es_effects s\<rparr>)"
    using assms fresh new row
    by (simp add: exec_inv_def list_all_entry_ok_cong keys flip: returned_keys_mem) (simp add: entry_ok_def effect_ok_def)
  show "exec_inv (s\<lparr>es_running := xs @ (tk, digest, Raised) # ys, es_effects := (tk, False) # es_effects s\<rparr>)"
    using assms fresh new row
    by (simp add: exec_inv_def keys flip: returned_keys_mem) (simp add: entry_ok_def)
qed

lemma exec_inv_free:
  \<comment> \<open>a key whose row is not started and not succeeded has no running operation and no effect of one that returned\<close>
  assumes "exec_inv s" and "map_option snd (row_status_of s tk) \<notin> {Some Started, Some Succeeded}"
  shows "tk \<notin> fst ` set (es_running s)" and "tk \<notin> set (returned_keys s)"
  using assms by (auto simp: exec_inv_def list_all_iff entry_ok_def effect_ok_def)

lemma exec_inv_proceed:
  assumes inv: "exec_inv s" and row: "map_option snd (row_status_of s tk) \<notin> {Some Started, Some Succeeded}"
    and new: "ex_intent_hash r = digest" "ex_status r = Started"
  shows "exec_inv (s\<lparr>es_db := (es_db s)\<lparr>action_executions := dput tk r (action_executions (es_db s))\<rparr>,
     es_running := (tk, digest, Running) # es_running s\<rparr>)"
proof -
  note free = exec_inv_free [OF inv row]
  have "row_status_of (s\<lparr>es_db := (es_db s)\<lparr>action_executions := dput tk r (action_executions (es_db s))\<rparr>,
     es_running := (tk, digest, Running) # es_running s\<rparr>) = (row_status_of s)(tk := Some (digest, Started))"
    using new by (simp add: row_status_of_def fun_eq_iff)
  then show ?thesis
    using inv free by (simp add: exec_inv_def list_all_entry_ok_cong list_all_effect_ok_upd) (simp add: entry_ok_def)
qed

lemma exec_inv_finish:
  assumes inv: "exec_inv s" and run: "es_running s = xs @ (tk, digest, phase) # ys"
    and row: "phase \<notin> {Running, Raised} \<Longrightarrow> ex_status r = Succeeded"
  shows "exec_inv (s\<lparr>es_db := (es_db s)\<lparr>action_executions := dput tk r (action_executions (es_db s))\<rparr>,
     es_running := xs @ ys\<rparr>)"
proof -
  have fresh: "tk \<notin> fst ` set xs" "tk \<notin> fst ` set ys" and eff: "tk \<in> set (returned_keys s) \<longleftrightarrow> phase \<notin> {Running, Raised}"
    using assms by (auto simp: exec_inv_def entry_ok_def)
  have "row_status_of (s\<lparr>es_db := (es_db s)\<lparr>action_executions := dput tk r (action_executions (es_db s))\<rparr>,
     es_running := xs @ ys\<rparr>) = (row_status_of s)(tk := Some (ex_intent_hash r, ex_status r))"
    by (simp add: row_status_of_def fun_eq_iff)
  moreover have "list_all (effect_ok ((row_status_of s)(tk := Some (ex_intent_hash r, ex_status r)))) (returned_keys s)"
    using inv eff row by (intro list_all_effect_ok_upd) (auto simp: exec_inv_def)
  ultimately show ?thesis
    using inv run fresh by (simp add: exec_inv_def list_all_entry_ok_cong)
qed

lemma begin_pg_proceed:
  assumes "begin_pg_body t act key digest db = (Inr Proceed, db')"
  obtains r where "db' = db\<lparr>action_executions := dput (t, key) r (action_executions db)\<rparr>"
    and "ex_intent_hash r = digest" and "ex_status r = Started"
    and "map_option ex_status (dget (action_executions db) (t, key)) \<notin> {Some Started, Some Succeeded}"
  using assms by (auto simp: begin_pg_body_def split: if_splits option.splits)

lemma begin_pg_no_run: "begin_pg_body t act key digest db = (r, db') \<Longrightarrow> r \<noteq> Inr Proceed \<Longrightarrow> db' = db"
  by (auto simp: begin_pg_body_def split: if_splits option.splits)

lemma row_status_of_snd:
  "map_option snd (row_status_of s tk) = map_option ex_status (dget (action_executions (es_db s)) tk)"
  by (simp add: row_status_of_def option.map_comp comp_def)

lemma exec_inv_row:
  assumes "exec_inv s" and "es_running s = xs @ (tk, digest, phase) # ys"
  obtains row where "dget (action_executions (es_db s)) tk = Some row" "ex_intent_hash row = digest"
  using assms by (auto simp: exec_inv_def entry_ok_def row_status_of_def)

lemma exec_inv_cancellations:
  "exec_inv s \<Longrightarrow> exec_inv (s\<lparr>es_db := (es_db s)\<lparr>action_cancellations := z\<rparr>\<rparr>)"
  unfolding exec_inv_def by simp

lemma exec_init_inv: "exec_inv exec_init"
  by (simp add: exec_inv_def exec_init_def returned_keys_def)

context pg_actions
begin

lemma exec_inv_update:
  assumes inv: "exec_inv s" and run: "es_running s = xs @ ((t, key), digest, phase) # ys"
    and conn: "tenant_connection px t (es_db s) (\<lambda>db. (Inr (), update_execution t key digest f db)) = (r, db')"
    and f: "\<And>row. phase \<notin> {Running, Raised} \<Longrightarrow> ex_status (f row) = Succeeded"
  shows "exec_inv (s\<lparr>es_db := db', es_running := xs @ ys\<rparr>)"
proof (cases "valid_tenant t")
  case True
  obtain row where "dget (action_executions (es_db s)) (t, key) = Some row" "ex_intent_hash row = digest"
    using exec_inv_row [OF inv run] .
  with True conn have "db' = (es_db s)\<lparr>action_executions := dput (t, key) (f row) (action_executions (es_db s))\<rparr>"
    by (simp add: tenant_connection_step update_execution_def)
  then show ?thesis using exec_inv_finish [OF inv run f] by simp
next
  case False
  then have "db' = es_db s" using conn by (auto simp: tenant_connection_def valid_tenant_def split: if_splits)
  then show ?thesis using exec_inv_drop [OF inv run] by simp
qed

lemma exec_step_inv: "exec_step px ser s s' \<Longrightarrow> exec_inv s \<Longrightarrow> exec_inv s'"
proof (induction rule: exec_step.induct)
  case (proceed t s act key digest db')
  then have "begin_pg_body t act key digest (es_db s) = (Inr Proceed, db')"
    by (simp add: tenant_connection_commit [OF contract])
  then obtain r where db': "db' = (es_db s)\<lparr>action_executions := dput (t, key) r (action_executions (es_db s))\<rparr>"
    and r: "ex_intent_hash r = digest" "ex_status r = Started"
    and old: "map_option ex_status (dget (action_executions (es_db s)) (t, key)) \<notin> {Some Started, Some Succeeded}"
    by (rule begin_pg_proceed)
  show ?case unfolding db'
    by (rule exec_inv_proceed [OF proceed.prems _ r]) (unfold row_status_of_snd, rule old)
next
  case (no_run t s act key digest r db')
  have "db' = es_db s"
  proof (cases r)
    case (Inl e)
    with no_run.hyps(1) have "tenant_connection px t (es_db s) (begin_pg_body t act key digest) = (Inl e, db')"
      by simp
    then show ?thesis by (rule tenant_connection_rollback [OF contract])
  next
    case (Inr v)
    with no_run.hyps(1) have "begin_pg_body t act key digest (es_db s) = (Inr v, db')"
      by (simp add: tenant_connection_commit [OF contract])
    then show ?thesis by (rule begin_pg_no_run) (use Inr no_run.hyps(2) in simp)
  qed
  then show ?case using no_run.prems by simp
next
  case (effect s xs tk digest ys result)
  then show ?case by (intro exec_inv_effect)
next
  case (effect_raised s xs tk digest ys)
  then show ?case by (intro exec_inv_effect)
next
  case (fail s xs t key digest phase ys r db')
  then show ?case unfolding fail_pg_def by (intro exec_inv_update [OF _ fail.hyps(1)]) auto
next
  case (recorded s xs t key digest result ys r db')
  then show ?case unfolding succeed_pg_def by (intro exec_inv_update [OF _ recorded.hyps(1)]) auto
next
  case (crash s xs x ys)
  then show ?case by (intro exec_inv_drop)
next
  case (cancel act t actor reason s r db')
  have "db' = es_db s \<or> (\<exists>z. db' = (es_db s)\<lparr>action_cancellations := z\<rparr>)"
  proof (cases "valid_tenant t")
    case True
    then show ?thesis
      using cancel.hyps
      by (auto simp: cancel_pg_def Let_def tenant_connection_step split: if_splits option.splits prod.splits)
  next
    case False
    then show ?thesis
      using cancel.hyps
      by (auto simp: cancel_pg_def Let_def tenant_connection_def valid_tenant_def split: if_splits)
  qed
  then show ?case using cancel.prems exec_inv_cancellations by auto
qed

end

sublocale pg_actions \<subseteq> runs: safe_system exec_init "exec_step px ser" exec_inv for ser
  by unfold_locales (rule exec_init_inv, rule exec_step_inv)

section \<open>Properties\<close>

context pg_actions
begin

lemmas reachable_inv = runs.inv_reachable
lemmas retries_replayed = store.retries
lemmas retries_touch_nothing = store.world_untouched

end

lemma pg_actionsI: "pool_contract px \<Longrightarrow> pg_actions px"
  by unfold_locales

text \<open>
  C13: At most once, whatever overlaps. In every interleaving of \<open>execute_once\<close> and \<open>cancel\<close> calls on
  PostgreSQL, with operations that raise before or after their effect and processes that crash even
  between the effect of an operation and its record, an effect under a tenant's idempotency key is
  never followed by another one under that key, unless the operation raised after it had its effect (then
  the execution counts as failed and may be retried). So a key whose operations never raise after
  their effect sees at most one effect.
\<close>
theorem effects_at_most_once:
  assumes "pool_contract px" and "(exec_step px ser)\<^sup>*\<^sup>* exec_init s"
  shows "(\<forall>newer tk b older. es_effects s = newer @ (tk, b) # older \<longrightarrow> (tk, True) \<notin> set older) \<and>
    (\<forall>tk. (tk, False) \<notin> set (es_effects s) \<longrightarrow> length (filter (\<lambda>e. fst e = tk) (es_effects s)) \<le> 1)"
proof -
  have "returned_last (es_effects s)"
    using pg_actions.reachable_inv [OF pg_actionsI [OF assms(1)] assms(2)] by (simp add: exec_inv_def)
  then show ?thesis using returned_last_split returned_last_once by auto
qed

definition one_execution :: "execution_status \<Rightarrow> int execution_db" where
  "one_execution status = \<lparr>action_executions = [((''t1'', ''key-0001''),
     \<lparr>ex_action_id = ''act'', ex_intent_hash = ''h'', ex_status = status, ex_result = None\<rparr>)], action_cancellations = []\<rparr>"

lemma begin_example:
  "tenant_connection commit_or_rollback ''t1'' (es_db (exec_init :: int exec_system))
     (begin_pg_body ''t1'' ''act'' ''key-0001'' ''h'') = (Inr Proceed, one_execution Started)"
  "tenant_connection commit_or_rollback ''t1'' (one_execution Failed)
     (begin_pg_body ''t1'' ''act'' ''key-0001'' ''h'') = (Inr Proceed, one_execution Started)"
  "tenant_connection commit_or_rollback ''t1'' (one_execution Started)
     (\<lambda>db. (Inr (), fail_pg ''t1'' ''key-0001'' ''h'' db)) = (Inr (), one_execution Failed)"
  by (simp_all add: tenant_connection_def connection_def begin_pg_body_def exec_init_def commit_or_rollback_def one_execution_def
      fail_pg_def update_execution_def)

theorem effects_at_most_once_witness:
  "\<exists>s :: int exec_system. (exec_step commit_or_rollback id)\<^sup>*\<^sup>* exec_init s \<and>
     es_effects s = [((''t1'', ''key-0001''), True), ((''t1'', ''key-0001''), False)] \<and>
     ((''t1'', ''key-0001''), True) \<notin> set (tl (es_effects s))"
proof -
  let ?k = "(''t1'', ''key-0001'')" and ?step = "exec_step commit_or_rollback (id :: int \<Rightarrow> int)"
  let ?s = "\<lambda>status running effects. \<lparr>es_db = one_execution status, es_running = running, es_effects = effects\<rparr>"
  have 1: "?step exec_init (?s Started [(?k, ''h'', Running)] [])"
    using exec_step.proceed [OF begin_example(1), of id] by (simp add: exec_init_def)
  have 2: "?step (?s Started [(?k, ''h'', Running)] []) (?s Started [(?k, ''h'', Raised)] [(?k, False)])"
    using exec_step.effect_raised [of "?s Started [(?k, ''h'', Running)] []" "[]" ?k "''h''" "[]" commit_or_rollback id] by simp
  have 3: "?step (?s Started [(?k, ''h'', Raised)] [(?k, False)]) (?s Failed [] [(?k, False)])"
    using exec_step.fail [of "?s Started [(?k, ''h'', Raised)] [(?k, False)]" "[]" "''t1''" "''key-0001''" "''h''" Raised "[]"
        commit_or_rollback "Inr ()" "one_execution Failed" id] begin_example(3) by simp
  have 4: "?step (?s Failed [] [(?k, False)]) (?s Started [(?k, ''h'', Running)] [(?k, False)])"
    using exec_step.proceed [of commit_or_rollback "''t1''" "?s Failed [] [(?k, False)]" "''act''" "''key-0001''" "''h''"
        "one_execution Started" id] begin_example(2) by simp
  have 5: "?step (?s Started [(?k, ''h'', Running)] [(?k, False)]) (?s Started [(?k, ''h'', Done 7)] [(?k, True), (?k, False)])"
    using exec_step.effect [of "?s Started [(?k, ''h'', Running)] [(?k, False)]" "[]" ?k "''h''" "[]" commit_or_rollback id 7] by simp
  note steps = converse_rtranclp_into_rtranclp [of ?step]
  have reach: "?step\<^sup>*\<^sup>* exec_init (?s Started [(?k, ''h'', Done 7)] [(?k, True), (?k, False)])"
    by (rule steps [OF 1 steps [OF 2 steps [OF 3 steps [OF 4 r_into_rtranclp [of ?step, OF 5]]]]])
  from effects_at_most_once [OF commit_or_rollback_contract this, THEN conjunct1, rule_format, of "[]" ?k True "[(?k, False)]"]
  show ?thesis using reach by (intro exI [of _ "?s Started [(?k, ''h'', Done 7)] [(?k, True), (?k, False)]"]) simp
qed

text \<open>
  Further: Retries are replayed. Once an action has been executed on PostgreSQL, any sequence of calls
  for the same tenant, action and key, with whatever operations, runs nothing: the world and the
  database stay as they are, and all calls with the same intent return the same stored result.
\<close>
theorem action_retries_replayed:
  assumes "pool_contract px"
    and "execute_once_pg px ser dg key intent operation (Some t) (Some act) (db, w) = (Inr r, db', w')"
  shows "(\<forall>cs. (\<forall>(u, q, operation2) \<in> set cs. pg_action_key q = (t, act, key)) \<longrightarrow>
       snd (calls (exec_action_pg px ser dg) cs (db', w')) = (db', w')) \<and>
    (\<exists>b. \<forall>cs. (\<forall>(u, q, operation2) \<in> set cs. pg_action_key q = (t, act, key) \<and> action_intent dg q = dg intent) \<longrightarrow>
       calls (exec_action_pg px ser dg) cs (db', w') = (replicate (length cs) (Inr b), db', w'))"
proof -
  have q: "pg_action_key (t, act, key, intent) = (t, act, key)"
    "action_intent dg (t, act, key, intent) = dg intent"
    by (simp_all add: pg_action_key_def action_intent_def)
  have run: "exec_action_pg px ser dg () (t, act, key, intent) operation (db, w) = (Inr r, db', w')"
    using assms(2) by (simp add: exec_action_pg_def)
  show ?thesis
    using pg_actions.retries_touch_nothing [OF pg_actionsI [OF assms(1)] run]
      pg_actions.retries_replayed [OF pg_actionsI [OF assms(1)] run]
    unfolding q by auto
qed

theorem action_retries_replayed_witness:
  "\<exists>b. calls (exec_action_pg commit_or_rollback id (\<lambda>_. ''h''))
       [((), (''t1'', ''act'', ''key-0001'', []), \<lambda>w :: int. (Inr 9, w + 1)),
        ((), (''t1'', ''act'', ''key-0001'', []), \<lambda>w. (Inl ZeroDivisionError, w + 5))]
       (snd (execute_once_pg commit_or_rollback id (\<lambda>_. ''h'') ''key-0001'' [] (\<lambda>w. (Inr (7 :: int), w + 1))
          (Some ''t1'') (Some ''act'') (\<lparr>action_executions = [], action_cancellations = []\<rparr>, 0))) =
     ([Inr b, Inr b], \<lparr>action_executions = [((''t1'', ''key-0001''), \<lparr>ex_action_id = ''act'', ex_intent_hash = ''h'',
          ex_status = Succeeded, ex_result = Some 7\<rparr>)], action_cancellations = []\<rparr>, 1)"
proof -
  let ?db = "\<lparr>action_executions = [((''t1'', ''key-0001''), \<lparr>ex_action_id = ''act'', ex_intent_hash = ''h'',
     ex_status = Succeeded, ex_result = Some (7 :: int)\<rparr>)], action_cancellations = []\<rparr>"
  have run: "execute_once_pg commit_or_rollback id (\<lambda>_. ''h'') ''key-0001'' [] (\<lambda>w :: int. (Inr (7 :: int), w + 1))
      (Some ''t1'') (Some ''act'') (\<lparr>action_executions = [], action_cancellations = []\<rparr>, 0) = (Inr (Some 7), ?db, 1)"
    by (simp add: execute_once_pg_def tenant_connection_def connection_def begin_pg_body_def commit_or_rollback_def
        succeed_pg_def update_execution_def)
  obtain b where b: "\<forall>cs. (\<forall>(u, q, operation2) \<in> set cs. pg_action_key q = (''t1'', ''act'', ''key-0001'') \<and>
        action_intent (\<lambda>_. ''h'') q = ''h'') \<longrightarrow>
      calls (exec_action_pg commit_or_rollback id (\<lambda>_. ''h'')) cs (?db, 1 :: int) =
        (replicate (length cs) (Inr b), ?db, 1)"
    using action_retries_replayed [OF commit_or_rollback_contract run] by blast
  show ?thesis
    unfolding run snd_conv
    by (intro exI [of _ b], subst b [rule_format]) (auto simp: pg_action_key_def action_intent_def)
qed

text \<open>
  Further: A late failure reopens a succeeded API operation. When the lease of a running operation
  ends, a second run may take over and succeed; if the first run then fails, its failure is
  written without a condition on the status, the stored success is overwritten, and the next
  request with the same key executes the operation again.
\<close>
theorem late_failure_reopens_operation:
  assumes "dget db (t, key) = None" and "t1 + lease \<le> t2"
  shows "let (r1, db1) = begin_operation lease t1 t key oper digest db;
           (r2, db2) = begin_operation lease t2 t key oper digest db1;
           (r3, db3) = succeed_operation t key digest response db2;
           db4 = fail_operation t key digest db3;
           (r5, db5) = begin_operation lease t3 t key oper digest db4
       in r1 = Inr Proceed \<and> r2 = Inr Proceed \<and> r3 = Inr () \<and>
          map_option ao_status (dget db3 (t, key)) = Some Succeeded \<and> r5 = Inr Proceed"
  using assms
  by (simp add: begin_operation_def succeed_operation_def fail_operation_def check_identity_def Let_def)

theorem late_failure_reopens_operation_witness:
  "let (r1, db1) = begin_operation 120 0 ''t1'' ''key-0001'' ''op'' ''h'' ([] :: int operation_db);
       (r2, db2) = begin_operation 120 200 ''t1'' ''key-0001'' ''op'' ''h'' db1;
       (r3, db3) = succeed_operation ''t1'' ''key-0001'' ''h'' 5 db2;
       db4 = fail_operation ''t1'' ''key-0001'' ''h'' db3;
       (r5, db5) = begin_operation 120 300 ''t1'' ''key-0001'' ''op'' ''h'' db4
   in r5 = Inr Proceed"
  using late_failure_reopens_operation [of "[] :: int operation_db" "''t1''" "''key-0001''" 0 120 200 "''op''" "''h''" 5 300]
  by (simp add: Let_def case_prod_beta)

end
