(* ===== verification/Workloads.thy ===== *)
theory Workloads
  imports Values
begin

text \<open>
  \<open>packages/workloads\<close>: the job model with the checks of its dataclasses, SLA evaluation, the job
  state machine and the dependency check.

  The dependency check is a depth-first search. Its sets \<open>visiting\<close> and \<open>visited\<close> are Python
  closures over mutable sets; \<open>visiting\<close> is the same after a call of \<open>visit\<close> that returns as before
  it, so that it is an argument here, and \<open>visited\<close> is threaded through. A \<open>frozenset\<close> of
  dependencies is given by the order in which it is iterated. The search accepts exactly the
  closed and acyclic graphs, in whatever order the dependencies come.
\<close>

section \<open>Jobs\<close>

datatype workload_class =
    TRAINING | FINE_TUNING | RL | BATCH_INFERENCE | ONLINE_INFERENCE | PREPROCESSING | EVALUATION

record resource_request =
  rr_gpu_count :: int
  rr_gpu_model :: "string option"
  rr_cpu_cores :: int
  rr_memory_gb :: decimal
  rr_estimated_hours :: decimal
  rr_power_kw_per_gpu :: decimal

record sla =
  sla_deadline :: datetime
  sla_priority :: int
  sla_max_latency_ms :: "int option"
  sla_availability_target :: "decimal option"

record job =
  jb_id :: string
  jb_tenant_id :: string
  jb_project_id :: string
  jb_workload_class :: workload_class
  jb_request :: resource_request
  jb_sla :: sla
  jb_submitted_at :: datetime
  jb_allowed_sites :: "string set"
  jb_data_regions :: "string set"
  jb_dependencies :: "string set"
  jb_checkpointable :: bool
  jb_labels :: "(string, string) dict"

definition check_resource_request :: "resource_request \<Rightarrow> unit result" where
  "check_resource_request r =
     (if rr_gpu_count r < 0 \<or> rr_cpu_cores r < 0 then Inl (ValueError ''resource counts cannot be negative'')
      else if rr_estimated_hours r \<le> 0 then Inl (ValueError ''estimated runtime must be positive'')
      else Inr ())"

definition check_sla :: "sla \<Rightarrow> unit result" where
  "check_sla s =
     (if \<not> (0 \<le> sla_priority s \<and> sla_priority s \<le> 100)
      then Inl (ValueError ''priority must be in [0, 100]'') else Inr ())"

definition valid_job :: "job \<Rightarrow> bool" where
  \<comment> \<open>what the constructors of the parts of a job have checked\<close>
  "valid_job j \<longleftrightarrow> check_resource_request (jb_request j) = Inr () \<and> check_sla (jb_sla j) = Inr ()"

section \<open>Service levels\<close>

record sla_observation =
  so_observed_at :: datetime
  so_completed_at :: "datetime option"
  so_latency_ms :: "int option"
  so_availability :: "decimal option"

record sla_evaluation =
  se_met :: bool
  se_violations :: "string list"
  se_at_risk :: bool

definition deadline_missed :: "sla \<Rightarrow> sla_observation \<Rightarrow> bool result" where
  "deadline_missed s observation =
     (case so_completed_at observation of
        None \<Rightarrow> Inr False
      | Some completed_at \<Rightarrow> dt_gt completed_at (sla_deadline s))"

definition latency_exceeded :: "sla \<Rightarrow> sla_observation \<Rightarrow> bool" where
  "latency_exceeded s observation =
     (case (sla_max_latency_ms s, so_latency_ms observation) of
        (Some maximum, Some latency) \<Rightarrow> latency > maximum
      | _ \<Rightarrow> False)"

definition evaluate_sla :: "sla \<Rightarrow> sla_observation \<Rightarrow> int \<Rightarrow> sla_evaluation result" where
  "evaluate_sla s observation risk_window_seconds =
     (if \<not> is_aware (so_observed_at observation) \<or> \<not> is_aware (sla_deadline s)
      then Inl (ValueError ''SLA timestamps must be timezone-aware'')
      else if risk_window_seconds < 0 then Inl (ValueError ''risk window cannot be negative'')
      else
        rbind (deadline_missed s observation) (\<lambda>missed.
        rbind (if so_completed_at observation = None
               then rbind (dt_sub (sla_deadline s) (so_observed_at observation))
                      (\<lambda>left. Inr (left \<le> seconds risk_window_seconds))
               else Inr False) (\<lambda>at_risk.
          let violations = (if missed then [''DEADLINE_MISSED''] else []) @
                           (if latency_exceeded s observation then [''LATENCY_EXCEEDED''] else [])
          in Inr \<lparr>se_met = (violations = []), se_violations = violations, se_at_risk = at_risk\<rparr>)))"

section \<open>The job state machine\<close>

datatype job_state =
    SUBMITTED | ADMITTED | REJECTED | QUEUED | RUNNING | PAUSED | CANCELLING | CANCELLED
  | SUCCEEDED | FAILED | COMPENSATING

fun job_state_text :: "job_state \<Rightarrow> string" where
  "job_state_text SUBMITTED = ''submitted''"
| "job_state_text ADMITTED = ''admitted''"
| "job_state_text REJECTED = ''rejected''"
| "job_state_text QUEUED = ''queued''"
| "job_state_text RUNNING = ''running''"
| "job_state_text PAUSED = ''paused''"
| "job_state_text CANCELLING = ''cancelling''"
| "job_state_text CANCELLED = ''cancelled''"
| "job_state_text SUCCEEDED = ''succeeded''"
| "job_state_text FAILED = ''failed''"
| "job_state_text COMPENSATING = ''compensating''"

fun TRANSITIONS :: "job_state \<Rightarrow> job_state set" where
  "TRANSITIONS SUBMITTED = {ADMITTED, REJECTED, CANCELLED}"
| "TRANSITIONS ADMITTED = {QUEUED, CANCELLED}"
| "TRANSITIONS REJECTED = {}"
| "TRANSITIONS QUEUED = {RUNNING, CANCELLED, FAILED}"
| "TRANSITIONS RUNNING = {PAUSED, CANCELLING, SUCCEEDED, FAILED}"
| "TRANSITIONS PAUSED = {RUNNING, CANCELLED, FAILED}"
| "TRANSITIONS CANCELLING = {CANCELLED, COMPENSATING}"
| "TRANSITIONS COMPENSATING = {CANCELLED, FAILED}"
| "TRANSITIONS CANCELLED = {}"
| "TRANSITIONS SUCCEEDED = {}"
| "TRANSITIONS FAILED = {}"

definition transition :: "job_state \<Rightarrow> job_state \<Rightarrow> job_state result" where
  "transition current target =
     (if target \<notin> TRANSITIONS current
      then Inl (ValueError (''invalid job transition '' @ job_state_text current @ '' -> '' @ job_state_text target))
      else Inr target)"

section \<open>The dependency check\<close>

type_synonym dependency_job = "string \<times> string list"

function visit ::
    "(string, string list) dict \<Rightarrow> string set \<Rightarrow> string set \<Rightarrow> string \<Rightarrow> string set result"
  and visit_all ::
    "(string, string list) dict \<Rightarrow> string set \<Rightarrow> string set \<Rightarrow> string list \<Rightarrow> string set result" where
  "visit by_id visiting visited job_id =
     (if job_id \<in> visiting then Inl (ValueError ''job dependency cycle'')
      else if job_id \<in> visited then Inr visited
      else case dget by_id job_id of
        None \<Rightarrow> Inl (ValueError (''unknown dependency '' @ job_id))
      | Some dependencies \<Rightarrow>
          (case visit_all by_id (insert job_id visiting) visited dependencies of
             Inl e \<Rightarrow> Inl e
           | Inr visited' \<Rightarrow> Inr (insert job_id visited')))"
| "visit_all by_id visiting visited [] = Inr visited"
| "visit_all by_id visiting visited (d # ds) =
     (case visit by_id visiting visited d of
        Inl e \<Rightarrow> Inl e
      | Inr visited' \<Rightarrow> visit_all by_id visiting visited' ds)"
  by pat_completeness auto

termination
proof (relation "measures [\<lambda>x. case x of
      Inl (by_id, visiting, visited, j) \<Rightarrow> card (set (dkeys by_id) - visiting)
    | Inr (by_id, visiting, visited, ds) \<Rightarrow> card (set (dkeys by_id) - visiting),
    \<lambda>x. case x of Inl _ \<Rightarrow> 0 | Inr (by_id, visiting, visited, ds) \<Rightarrow> length ds]", goal_cases)
  case (2 by_id visiting visited j ds)
  then have "j \<in> set (dkeys by_id) - visiting" using dget_entry by force
  then have "card (set (dkeys by_id) - insert j visiting) < card (set (dkeys by_id) - visiting)"
    by (intro psubset_card_mono) auto
  then show ?case by simp
qed auto

definition validate_dependency_graph :: "dependency_job list \<Rightarrow> unit result" where
  "validate_dependency_graph jobs =
     (let by_id = dict_of jobs
      in rbind (visit_all by_id {} {} (dkeys by_id)) (\<lambda>_. Inr ()))"

section \<open>Correctness of the dependency check\<close>

definition edges :: "(string, string list) dict \<Rightarrow> (string \<times> string) set" where
  "edges by_id = {(j, d). \<exists>ds. dget by_id j = Some ds \<and> d \<in> set ds}"

definition searched :: "(string, string list) dict \<Rightarrow> string set \<Rightarrow> bool" where
  \<comment> \<open>what holds of \<open>visited\<close>: known jobs, with everything they depend on, and on no cycle\<close>
  "searched by_id visited \<longleftrightarrow>
     visited \<subseteq> set (dkeys by_id) \<and> edges by_id `` visited \<subseteq> visited \<and>
     (\<forall>v \<in> visited. (v, v) \<notin> (edges by_id)\<^sup>+)"

lemma edges_step: "dget by_id j = Some ds \<Longrightarrow> (j, d) \<in> edges by_id \<longleftrightarrow> d \<in> set ds"
  by (simp add: edges_def)

lemma closed_rtrancl: "r `` A \<subseteq> A \<Longrightarrow> (a, b) \<in> r\<^sup>* \<Longrightarrow> a \<in> A \<Longrightarrow> b \<in> A"
  by (rotate_tac 1, induction rule: rtrancl_induct) auto

lemma searched_insert:
  assumes "searched by_id visited" and "dget by_id j = Some ds" and "set ds \<subseteq> visited" and "j \<notin> visited"
  shows "searched by_id (insert j visited)"
proof -
  have "j \<in> set (dkeys by_id)" using assms(2) dget_entry by force
  moreover have "edges by_id `` {j} \<subseteq> visited" using assms(2,3) by (auto simp: edges_def)
  moreover have "(j, j) \<notin> (edges by_id)\<^sup>+"
  proof
    assume "(j, j) \<in> (edges by_id)\<^sup>+"
    then obtain d where "(j, d) \<in> edges by_id" "(d, j) \<in> (edges by_id)\<^sup>*" by (metis tranclD)
    then have "j \<in> visited"
      using assms(1-3) closed_rtrancl [of "edges by_id" visited d j] by (auto simp: searched_def edges_step)
    with assms(4) show False ..
  qed
  ultimately show ?thesis using assms(1) by (auto simp: searched_def)
qed

lemma visit_sound:
  "visit by_id visiting visited j = Inr visited' \<Longrightarrow> searched by_id visited \<Longrightarrow> visited \<inter> visiting = {} \<Longrightarrow>
     searched by_id visited' \<and> visited \<subseteq> visited' \<and> visited' \<inter> visiting = {} \<and> j \<in> visited'"
  "visit_all by_id visiting visited ds = Inr visited' \<Longrightarrow> searched by_id visited \<Longrightarrow> visited \<inter> visiting = {} \<Longrightarrow>
     searched by_id visited' \<and> visited \<subseteq> visited' \<and> visited' \<inter> visiting = {} \<and> set ds \<subseteq> visited'"
proof (induction by_id visiting visited j and by_id visiting visited ds
    arbitrary: visited' and visited' rule: visit_visit_all.induct)
  case (1 by_id visiting visited j)
  show ?case
  proof (cases "j \<in> visited")
    case True
    with "1.prems" show ?thesis by (auto split: if_splits)
  next
    case False
    with "1.prems" obtain ds w where ds: "dget by_id j = Some ds" and j: "j \<notin> visiting"
      and w: "visit_all by_id (insert j visiting) visited ds = Inr w" "visited' = insert j w"
      by (auto split: if_splits option.splits sum.splits)
    have "searched by_id w \<and> visited \<subseteq> w \<and> w \<inter> insert j visiting = {} \<and> set ds \<subseteq> w"
      by (rule "1.IH" [OF j False ds w(1) "1.prems"(2)]) (use "1.prems"(3) False in auto)
    then show ?thesis using searched_insert [of by_id w j ds] ds j w(2) by simp blast
  qed
next
  case (3 by_id visiting visited d ds)
  from "3.prems"(1) obtain w
    where w: "visit by_id visiting visited d = Inr w" "visit_all by_id visiting w ds = Inr visited'"
    by (auto simp del: visit.simps split: sum.splits)
  have 1: "searched by_id w \<and> visited \<subseteq> w \<and> w \<inter> visiting = {} \<and> d \<in> w"
    by (rule "3.IH"(1) [OF w(1) "3.prems"(2,3)])
  then have "searched by_id visited' \<and> w \<subseteq> visited' \<and> visited' \<inter> visiting = {} \<and> set ds \<subseteq> visited'"
    by (intro "3.IH"(2) [OF w]) simp_all
  with 1 show ?case by auto
qed auto

definition broken :: "(string, string list) dict \<Rightarrow> py_error \<Rightarrow> bool" where
  \<comment> \<open>what an error of the search tells about the graph\<close>
  "broken by_id e \<longleftrightarrow>
     (e = ValueError ''job dependency cycle'' \<and> \<not> acyclic (edges by_id)) \<or>
     (\<exists>j d. e = ValueError (''unknown dependency '' @ d) \<and> (j, d) \<in> edges by_id \<and> d \<notin> set (dkeys by_id))"

definition asked_for :: "(string, string list) dict \<Rightarrow> string \<Rightarrow> bool" where
  "asked_for by_id d \<longleftrightarrow> d \<in> set (dkeys by_id) \<or> (\<exists>j. (j, d) \<in> edges by_id)"

lemma visit_complete:
  "visit by_id visiting visited j = Inl e \<Longrightarrow> \<forall>v \<in> visiting. (v, j) \<in> (edges by_id)\<^sup>+ \<Longrightarrow>
     asked_for by_id j \<Longrightarrow> broken by_id e"
  "visit_all by_id visiting visited ds = Inl e \<Longrightarrow> \<forall>d \<in> set ds. \<forall>v \<in> visiting. (v, d) \<in> (edges by_id)\<^sup>+ \<Longrightarrow>
     \<forall>d \<in> set ds. asked_for by_id d \<Longrightarrow> broken by_id e"
proof (induction by_id visiting visited j and by_id visiting visited ds
    arbitrary: e and e rule: visit_visit_all.induct)
  case (1 by_id visiting visited j)
  show ?case
  proof (cases "j \<in> visiting")
    case True
    with "1.prems" show ?thesis by (auto simp: broken_def acyclic_def)
  next
    case j: False
    with "1.prems"(1) have fresh: "j \<notin> visited" by (auto split: if_splits)
    show ?thesis
    proof (cases "dget by_id j")
      case None
      with "1.prems"(1) "1.prems"(3) j fresh show ?thesis
        by (auto simp: broken_def asked_for_def dget_None_keys)
    next
      case (Some ds)
      have path: "\<forall>d \<in> set ds. \<forall>v \<in> insert j visiting. (v, d) \<in> (edges by_id)\<^sup>+"
        using "1.prems"(2) edges_step [OF Some] by (auto intro: trancl_into_trancl)
      have "visit_all by_id (insert j visiting) visited ds = Inl e"
        using "1.prems"(1) j fresh Some by (auto split: sum.splits)
      moreover have "\<forall>d \<in> set ds. asked_for by_id d" using edges_step [OF Some] by (auto simp: asked_for_def)
      ultimately show ?thesis using "1.IH" [OF j fresh Some] path by blast
    qed
  qed
next
  case (3 by_id visiting visited d ds)
  show ?case
  proof (cases "visit by_id visiting visited d")
    case (Inl e')
    with 3 show ?thesis by simp
  next
    case (Inr w)
    with "3.prems" have "visit_all by_id visiting w ds = Inl e" by simp
    then show ?thesis using "3.IH"(2) [OF Inr] "3.prems"(2,3) by simp
  qed
qed simp

definition sound_dependencies :: "dependency_job list \<Rightarrow> bool" where
  \<comment> \<open>every dependency is one of the jobs and the dependencies form no cycle\<close>
  "sound_dependencies jobs \<longleftrightarrow>
     edges (dict_of jobs) `` set (dkeys jobs) \<subseteq> set (dkeys jobs) \<and> acyclic (edges (dict_of jobs))"

lemma edges_keys: "(j, d) \<in> edges by_id \<Longrightarrow> j \<in> set (dkeys by_id)"
  by (force simp: edges_def dest: dget_entry)

lemma broken_unsound:
  assumes "broken (dict_of jobs) e"
  shows "\<not> sound_dependencies jobs"
proof
  assume ok: "sound_dependencies jobs"
  then obtain j d where "(j, d) \<in> edges (dict_of jobs)" "d \<notin> set (dkeys (dict_of jobs))"
    using assms by (auto simp: broken_def sound_dependencies_def)
  moreover from this(1) have "j \<in> set (dkeys (dict_of jobs))" by (rule edges_keys)
  ultimately show False using ok by (auto simp: sound_dependencies_def)
qed

text \<open>
  C28: The dependency check decides soundness. It returns exactly when every dependency is one of
  the submitted jobs and the dependencies form no cycle; otherwise it raises the cycle error only
  when there is a cycle, and the unknown-dependency error only for a dependency of some job that
  was not submitted. The order in which the dependencies are iterated does not matter.
\<close>
theorem dependency_check_exact:
  "case validate_dependency_graph jobs of
      Inr u \<Rightarrow> sound_dependencies jobs
    | Inl e \<Rightarrow> broken (dict_of jobs) e \<and> \<not> sound_dependencies jobs"
proof (cases "visit_all (dict_of jobs) {} {} (dkeys (dict_of jobs))")
  case (Inl e)
  have "broken (dict_of jobs) e"
    by (rule visit_complete(2) [OF Inl]) (simp_all add: asked_for_def)
  with Inl show ?thesis by (simp add: validate_dependency_graph_def broken_unsound)
next
  case (Inr visited)
  have "searched (dict_of jobs) visited \<and> {} \<subseteq> visited \<and> visited \<inter> {} = {} \<and> set (dkeys (dict_of jobs)) \<subseteq> visited"
    by (rule visit_sound(2) [OF Inr]) (simp_all add: searched_def)
  then have all: "searched (dict_of jobs) visited" "visited = set (dkeys jobs)"
    by (auto simp: searched_def)
  have "acyclic (edges (dict_of jobs))"
    unfolding acyclic_def
  proof (intro allI notI)
    fix v assume v: "(v, v) \<in> (edges (dict_of jobs))\<^sup>+"
    then obtain d where "(v, d) \<in> edges (dict_of jobs)" by (metis tranclD)
    then have "v \<in> visited" using edges_keys [of v d "dict_of jobs"] all(2) by simp
    with v all(1) show False by (simp add: searched_def)
  qed
  with all Inr show ?thesis
    by (simp add: validate_dependency_graph_def sound_dependencies_def searched_def)
qed

section \<open>The life of a job\<close>

definition job_step :: "job_state \<Rightarrow> job_state \<Rightarrow> bool" where
  "job_step current target \<longleftrightarrow> transition current target = Inr target"

definition terminal :: "job_state \<Rightarrow> bool" where
  "terminal s \<longleftrightarrow> s \<in> {REJECTED, CANCELLED, SUCCEEDED, FAILED}"

lemma job_step_iff: "job_step current target \<longleftrightarrow> target \<in> TRANSITIONS current"
  by (simp add: job_step_def transition_def)

text \<open>
  Further: A job always can end, and its end is final. From every state some sequence of valid
  transitions leads to a terminal state; and from a terminal state (rejected, cancelled, succeeded,
  failed) every transition raises.
\<close>
theorem job_can_end_for_good:
  "(\<exists>target. job_step\<^sup>*\<^sup>* current target \<and> terminal target) \<and>
   (terminal current = (\<forall>target. \<exists>e. transition current target = Inl e))"
proof
  have 1: "job_step RUNNING FAILED" "job_step SUBMITTED REJECTED" "job_step ADMITTED CANCELLED"
    "job_step QUEUED CANCELLED" "job_step PAUSED CANCELLED" "job_step CANCELLING CANCELLED"
    "job_step COMPENSATING CANCELLED"
    by (simp_all add: job_step_iff)
  show "\<exists>target. job_step\<^sup>*\<^sup>* current target \<and> terminal target"
    using 1 by (cases current) (auto simp: terminal_def)
  show "terminal current = (\<forall>target. \<exists>e. transition current target = Inl e)"
    by (cases current) (auto simp: terminal_def transition_def)
qed

end
