(* ===== verification/Quota.thy ===== *)
theory Quota
  imports Persistence Decimal_Arith
begin

text \<open>
  The quota ledger of \<open>packages/workloads/quota.py\<close>, in memory and on PostgreSQL.

  \<open>ledger\<close> is the contract the admission service relies on: an invariant that \<open>reserve\<close> keeps, and
  a refused reservation that changes nothing. On PostgreSQL the invariant is the full
  accounting: the usage of a tenant is the sum of its unreleased reservations and stays within
  its limits. In memory a release does not consult the reservation, so that only the limits are
  kept, and only for releases of non-negative amounts.
\<close>

record quota =
  qt_max_gpus :: int
  qt_max_gpu_hours :: decimal
  qt_max_concurrent_jobs :: int

definition check_quota :: "quota \<Rightarrow> unit result" where
  "check_quota quota =
     (if min (qt_max_gpus quota) (qt_max_concurrent_jobs quota) < 0 \<or> qt_max_gpu_hours quota < 0
      then Inl (ValueError ''quota limits cannot be negative'') else Inr ())"

section \<open>In memory\<close>

record quota_memory =
  qm_quotas :: "(string, quota) dict"
  qm_usage :: "(string, int \<times> decimal \<times> int) dict"
  qm_reservations :: "(string \<times> string, int \<times> decimal) dict"

definition configure_memory :: "string \<Rightarrow> quota \<Rightarrow> quota_memory \<Rightarrow> unit result \<times> quota_memory" where
  "configure_memory tenant_id quota st =
     (case check_quota quota of
        Inl e \<Rightarrow> (Inl e, st)
      | Inr _ \<Rightarrow>
          let (used_gpus, used_hours, jobs) = dget_or (qm_usage st) tenant_id (0, 0, 0)
          in if used_gpus > qt_max_gpus quota \<or> used_hours > qt_max_gpu_hours quota \<or>
                jobs > qt_max_concurrent_jobs quota
             then (Inl (RuntimeError ''quota limits cannot be reduced below current usage''), st)
             else (Inr (), st\<lparr>qm_quotas := dput tenant_id quota (qm_quotas st)\<rparr>))"

definition given_key :: "string option \<Rightarrow> string option" where
  \<comment> \<open>the truth value of \<open>reservation_key\<close>\<close>
  "given_key k = (case k of Some s \<Rightarrow> if s = [] then None else Some s | None \<Rightarrow> None)"

definition reserve_memory ::
  "string \<Rightarrow> int \<Rightarrow> decimal \<Rightarrow> string option \<Rightarrow> quota_memory \<Rightarrow> bool result \<times> quota_memory" where
  "reserve_memory tenant_id gpus gpu_hours reservation_key st =
     (if gpus < 0 \<or> gpu_hours < 0 then (Inl (ValueError ''quota reservation cannot be negative''), st)
      else case (case given_key reservation_key of
                   Some k \<Rightarrow> dget (qm_reservations st) (tenant_id, k) | None \<Rightarrow> None) of
        Some existing \<Rightarrow>
          if existing \<noteq> (gpus, gpu_hours)
          then (Inl (ValueError ''quota reservation key reused with different demand''), st)
          else (Inr True, st)
      | None \<Rightarrow>
          (case dget (qm_quotas st) tenant_id of
             None \<Rightarrow> (Inr False, st)
           | Some quota \<Rightarrow>
               let (used_gpus, used_hours, jobs) = dget_or (qm_usage st) tenant_id (0, 0, 0)
               in if used_gpus + gpus > qt_max_gpus quota \<or> dadd used_hours gpu_hours > qt_max_gpu_hours quota \<or>
                     jobs + 1 > qt_max_concurrent_jobs quota
                  then (Inr False, st)
                  else (Inr True,
                        st\<lparr>qm_usage := dput tenant_id (used_gpus + gpus, dadd used_hours gpu_hours, jobs + 1) (qm_usage st),
                           qm_reservations :=
                             (case given_key reservation_key of
                                Some k \<Rightarrow> dput (tenant_id, k) (gpus, gpu_hours) (qm_reservations st)
                              | None \<Rightarrow> qm_reservations st)\<rparr>)))"

definition release_memory :: "string \<Rightarrow> int \<Rightarrow> decimal \<Rightarrow> quota_memory \<Rightarrow> unit result \<times> quota_memory" where
  "release_memory tenant_id gpus gpu_hours st =
     (case dget (qm_usage st) tenant_id of
        None \<Rightarrow> (Inl (KeyError tenant_id), st)
      | Some (used_gpus, used_hours, jobs) \<Rightarrow>
          (Inr (), st\<lparr>qm_usage := dput tenant_id
             (max 0 (used_gpus - gpus), max 0 (dsub used_hours gpu_hours), max 0 (jobs - 1)) (qm_usage st)\<rparr>))"

definition usage_memory :: "quota_memory \<Rightarrow> string \<Rightarrow> int \<times> decimal \<times> int" where
  "usage_memory st tenant_id = dget_or (qm_usage st) tenant_id (0, 0, 0)"

section \<open>On PostgreSQL\<close>

text \<open>The columns \<open>numeric\<close> are exact.\<close>

record ledger_row =
  lr_max_gpus :: int
  lr_max_gpu_hours :: rat
  lr_max_concurrent_jobs :: int
  lr_used_gpus :: int
  lr_used_gpu_hours :: rat
  lr_active_jobs :: int

record reservation_row =
  rv_gpus :: int
  rv_gpu_hours :: rat
  rv_released :: bool

record quota_db =
  quota_ledgers :: "(string, ledger_row) dict"
  quota_reservations :: "(string \<times> string, reservation_row) dict"

definition configure_pg ::
  "quota_db pool_exit \<Rightarrow> string \<Rightarrow> quota \<Rightarrow> quota_db \<Rightarrow> unit result \<times> quota_db" where
  "configure_pg px tenant_id quota db =
     (case check_quota quota of
        Inl e \<Rightarrow> (Inl e, db)
      | Inr _ \<Rightarrow> tenant_connection px tenant_id db (\<lambda>db.
          case dget (quota_ledgers db) tenant_id of
            None \<Rightarrow>
              (Inr (), db\<lparr>quota_ledgers := dput tenant_id
                 \<lparr>lr_max_gpus = qt_max_gpus quota, lr_max_gpu_hours = qt_max_gpu_hours quota,
                  lr_max_concurrent_jobs = qt_max_concurrent_jobs quota, lr_used_gpus = 0,
                  lr_used_gpu_hours = 0, lr_active_jobs = 0\<rparr> (quota_ledgers db)\<rparr>)
          | Some row \<Rightarrow>
              if lr_used_gpus row \<le> qt_max_gpus quota \<and> lr_used_gpu_hours row \<le> qt_max_gpu_hours quota \<and>
                 lr_active_jobs row \<le> qt_max_concurrent_jobs quota
              then (Inr (), db\<lparr>quota_ledgers := dput tenant_id
                 (row\<lparr>lr_max_gpus := qt_max_gpus quota, lr_max_gpu_hours := qt_max_gpu_hours quota,
                      lr_max_concurrent_jobs := qt_max_concurrent_jobs quota\<rparr>) (quota_ledgers db)\<rparr>)
              else (Inl (RuntimeError ''quota limits cannot be reduced below current usage''), db)))"

definition ledger_add :: "int \<Rightarrow> rat \<Rightarrow> int \<Rightarrow> ledger_row \<Rightarrow> ledger_row" where
  "ledger_add gpus hours jobs row =
     row\<lparr>lr_used_gpus := lr_used_gpus row + gpus, lr_used_gpu_hours := lr_used_gpu_hours row + hours,
         lr_active_jobs := lr_active_jobs row + jobs\<rparr>"

definition ledger_sub :: "int \<Rightarrow> rat \<Rightarrow> ledger_row \<Rightarrow> ledger_row" where
  \<comment> \<open>the \<open>greatest(0, ...)\<close> columns of the release\<close>
  "ledger_sub gpus hours row =
     row\<lparr>lr_used_gpus := max 0 (lr_used_gpus row - gpus), lr_used_gpu_hours := max 0 (lr_used_gpu_hours row - hours),
         lr_active_jobs := max 0 (lr_active_jobs row - 1)\<rparr>"

definition reserve_pg ::
  "quota_db pool_exit \<Rightarrow> string \<Rightarrow> int \<Rightarrow> decimal \<Rightarrow> string option \<Rightarrow> quota_db \<Rightarrow> bool result \<times> quota_db" where
  "reserve_pg px tenant_id gpus gpu_hours reservation_key db =
     (if gpus < 0 \<or> gpu_hours < 0 then (Inl (ValueError ''quota reservation cannot be negative''), db)
      else case given_key reservation_key of
        None \<Rightarrow> (Inl (ValueError ''persistent quota reservations require a key''), db)
      | Some key \<Rightarrow> tenant_connection px tenant_id db (\<lambda>db.
          case dget (quota_reservations db) (tenant_id, key) of
            Some prior \<Rightarrow>
              if rv_gpus prior \<noteq> gpus \<or> rv_gpu_hours prior \<noteq> gpu_hours
              then (Inl (ValueError ''quota reservation key reused with different demand''), db)
              else (Inr (\<not> rv_released prior), db)
          | None \<Rightarrow>
              (case dget (quota_ledgers db) tenant_id of
                 None \<Rightarrow> (Inr False, db)
               | Some row \<Rightarrow>
                   if lr_used_gpus row + gpus \<le> lr_max_gpus row \<and>
                      lr_used_gpu_hours row + gpu_hours \<le> lr_max_gpu_hours row \<and>
                      lr_active_jobs row + 1 \<le> lr_max_concurrent_jobs row
                   then (Inr True,
                         db\<lparr>quota_ledgers := dput tenant_id (ledger_add gpus gpu_hours 1 row) (quota_ledgers db),
                            quota_reservations := dput (tenant_id, key)
                              \<lparr>rv_gpus = gpus, rv_gpu_hours = gpu_hours, rv_released = False\<rparr> (quota_reservations db)\<rparr>)
                   else (Inr False, db))))"

definition release_pg ::
  "quota_db pool_exit \<Rightarrow> string \<Rightarrow> int \<Rightarrow> decimal \<Rightarrow> string option \<Rightarrow> quota_db \<Rightarrow> unit result \<times> quota_db" where
  "release_pg px tenant_id gpus gpu_hours reservation_key db =
     (case given_key reservation_key of
        None \<Rightarrow> (Inl (ValueError ''persistent quota release requires a reservation key''), db)
      | Some key \<Rightarrow> tenant_connection px tenant_id db (\<lambda>db.
          case dget (quota_reservations db) (tenant_id, key) of
            None \<Rightarrow> (Inr (), db)
          | Some row \<Rightarrow>
              if rv_released row \<or> rv_gpus row \<noteq> gpus \<or> rv_gpu_hours row \<noteq> gpu_hours then (Inr (), db)
              else (Inr (), db\<lparr>quota_reservations := dput (tenant_id, key) (row\<lparr>rv_released := True\<rparr>) (quota_reservations db),
                     quota_ledgers :=
                       (case dget (quota_ledgers db) tenant_id of
                          None \<Rightarrow> quota_ledgers db
                        | Some l \<Rightarrow> dput tenant_id (ledger_sub gpus gpu_hours l) (quota_ledgers db))\<rparr>)))"

definition usage_pg ::
  "quota_db pool_exit \<Rightarrow> quota_db \<Rightarrow> string \<Rightarrow> (int \<times> rat \<times> int) result" where
  "usage_pg px db tenant_id =
     fst (tenant_connection px tenant_id db (\<lambda>db.
       (Inr (case dget (quota_ledgers db) tenant_id of
               None \<Rightarrow> (0, 0, 0)
             | Some row \<Rightarrow> (lr_used_gpus row, lr_used_gpu_hours row, lr_active_jobs row)), db)))"

section \<open>The contract\<close>

text \<open>What a client of a ledger relies on, with the usage and the limits of a tenant as observers.\<close>

type_synonym 's reserve_fun = "string \<Rightarrow> int \<Rightarrow> decimal \<Rightarrow> string option \<Rightarrow> 's \<Rightarrow> bool result \<times> 's"

locale ledger =
  fixes reserve :: "'s reserve_fun" and ok :: "'s \<Rightarrow> bool" and limited :: "'s \<Rightarrow> string \<Rightarrow> bool"
  assumes reserve_ok: "ok s \<Longrightarrow> reserve t g h k s = (r, s') \<Longrightarrow> ok s'"
    and refused: "reserve t g h k s = (r, s') \<Longrightarrow> r \<noteq> Inr True \<Longrightarrow> s' = s"
    and within_limits: "ok s \<Longrightarrow> limited s t"

section \<open>The ledger in memory keeps its limits\<close>

fun in_limits :: "quota \<Rightarrow> int \<times> decimal \<times> int \<Rightarrow> bool" where
  "in_limits q (g, h, j) \<longleftrightarrow>
     g \<le> qt_max_gpus q \<and> h \<le> qt_max_gpu_hours q \<and> j \<le> qt_max_concurrent_jobs q"

fun usage_valid :: "int \<times> decimal \<times> int \<Rightarrow> bool" where
  "usage_valid (g, h, j) \<longleftrightarrow> 0 \<le> g \<and> 0 \<le> h \<and> 0 \<le> j \<and> is_dec h"

definition memory_limited :: "quota_memory \<Rightarrow> string \<Rightarrow> bool" where
  \<comment> \<open>a tenant with usage has a quota, and the usage is valid and within it\<close>
  "memory_limited st t \<longleftrightarrow>
     (\<forall>u. dget (qm_usage st) t = Some u \<longrightarrow>
        usage_valid u \<and> (\<exists>q. dget (qm_quotas st) t = Some q \<and> in_limits q u))"

definition memory_ok :: "quota_memory \<Rightarrow> bool" where
  "memory_ok st \<longleftrightarrow> (\<forall>t. memory_limited st t)"

definition quota_memory_init :: quota_memory where
  "quota_memory_init = \<lparr>qm_quotas = [], qm_usage = [], qm_reservations = []\<rparr>"

inductive quota_memory_step :: "quota_memory \<Rightarrow> quota_memory \<Rightarrow> bool" where
  configure: "configure_memory t q st = (r, st') \<Longrightarrow> quota_memory_step st st'"
| reserve: "reserve_memory t g h k st = (r', st') \<Longrightarrow> quota_memory_step st st'"
| release: "release_memory t g h st = (r, st') \<Longrightarrow> 0 \<le> g \<Longrightarrow> 0 \<le> h \<Longrightarrow> quota_memory_step st st'"

lemma memory_ok_configure:
  assumes "memory_ok st" and "in_limits q (dget_or (qm_usage st) t (0, 0, 0))"
  shows "memory_ok (st\<lparr>qm_quotas := dput t q (qm_quotas st)\<rparr>)"
  using assms by (auto simp: memory_ok_def memory_limited_def dget_or_def)

lemma memory_ok_usage:
  assumes "memory_ok st" and "dget (qm_quotas st) t = Some q" and "in_limits q u" and "usage_valid u"
  shows "memory_ok (st\<lparr>qm_usage := dput t u (qm_usage st)\<rparr>)"
  using assms by (auto simp: memory_ok_def memory_limited_def)

lemma memory_ok_reservations: "memory_ok (st\<lparr>qm_reservations := x\<rparr>) = memory_ok st"
  by (simp add: memory_ok_def memory_limited_def)

lemma usage_or_valid: "memory_ok st \<Longrightarrow> usage_valid (dget_or (qm_usage st) t (0, 0, 0))"
  by (auto simp: memory_ok_def memory_limited_def dget_or_def split: option.splits)

lemma configure_memory_ok:
  assumes "memory_ok st" and "configure_memory t q st = (r, st')"
  shows "memory_ok st'"
proof (cases "dget_or (qm_usage st) t (0, 0, 0)")
  case (fields g h j)
  then show ?thesis
    using assms memory_ok_configure [OF assms(1), of q t]
    by (auto simp: configure_memory_def split: sum.splits if_splits)
qed

lemma reserve_memory_ok:
  assumes "memory_ok st" and "reserve_memory t g h k st = (r, st')"
  shows "memory_ok st'"
proof -
  obtain ug uh uj where u: "dget_or (qm_usage st) t (0, 0, 0) = (ug, uh, uj)" by (cases "dget_or (qm_usage st) t (0, 0, 0)")
  have valid: "usage_valid (ug, uh, uj)" using usage_or_valid [OF assms(1), of t] u by simp
  have put: "memory_ok (st\<lparr>qm_usage := dput t (ug + g, dadd uh h, uj + 1) (qm_usage st)\<rparr>)"
    if "dget (qm_quotas st) t = Some q" "in_limits q (ug + g, dadd uh h, uj + 1)" "0 \<le> g" "0 \<le> h" for q
    by (rule memory_ok_usage [OF assms(1) that(1,2)]) (use valid that in auto)
  show ?thesis
    using assms put
    by (auto simp: reserve_memory_def u Let_def memory_ok_reservations split: if_splits option.splits)
qed

lemma release_memory_ok:
  assumes "memory_ok st" and "release_memory t g h st = (r, st')" and "0 \<le> g" "0 \<le> h"
  shows "memory_ok st'"
proof (cases "dget (qm_usage st) t")
  case None
  then show ?thesis using assms by (simp add: release_memory_def)
next
  case (Some u)
  obtain ug uh uj where u: "u = (ug, uh, uj)" by (cases u)
  obtain q where q: "dget (qm_quotas st) t = Some q" "in_limits q u" "usage_valid u"
    using assms(1) Some unfolding memory_ok_def memory_limited_def by blast
  have "dsub uh h \<le> uh"
    using dround_mono [of "uh - h" uh] assms(4) q(3) u by (simp add: dsub_def is_dec_def)
  moreover have "is_dec (max 0 (dsub uh h))" by (simp add: max_def)
  ultimately have "memory_ok (st\<lparr>qm_usage := dput t (max 0 (ug - g), max 0 (dsub uh h), max 0 (uj - 1)) (qm_usage st)\<rparr>)"
    by (intro memory_ok_usage [OF assms(1) q(1)]) (use q(2,3) u assms(3) in auto)
  then show ?thesis using assms(2) Some u by (simp add: release_memory_def)
qed

interpretation quota_memory_system: safe_system quota_memory_init quota_memory_step memory_ok
proof
  show "memory_ok quota_memory_init" by (simp add: memory_ok_def memory_limited_def quota_memory_init_def)
next
  fix s t
  assume "quota_memory_step s t" and "memory_ok s"
  then show "memory_ok t"
    by cases (auto intro: configure_memory_ok reserve_memory_ok release_memory_ok)
qed

interpretation memory_ledger: ledger reserve_memory memory_ok memory_limited
proof
  show "reserve_memory t g h k s = (r, s') \<Longrightarrow> r \<noteq> Inr True \<Longrightarrow> s' = s" for t g h k s r s'
    by (auto simp: reserve_memory_def Let_def split: if_splits option.splits prod.splits)
qed (auto simp: memory_ok_def [symmetric] intro: reserve_memory_ok, simp add: memory_ok_def)

section \<open>The ledger on PostgreSQL accounts for every reservation\<close>

definition active_sum ::
  "(reservation_row \<Rightarrow> 'a :: ab_group_add) \<Rightarrow> (string \<times> string, reservation_row) dict \<Rightarrow> string \<Rightarrow> 'a" where
  \<comment> \<open>the sum of an amount over the unreleased reservations of a tenant\<close>
  "active_sum f rs t =
     sum_list (map (\<lambda>((t', k), row). if t' = t \<and> \<not> rv_released row then f row else 0) rs)"

definition row_accounts :: "quota_db \<Rightarrow> string \<Rightarrow> ledger_row \<Rightarrow> bool" where
  "row_accounts db t row \<longleftrightarrow>
     lr_used_gpus row = active_sum rv_gpus (quota_reservations db) t \<and>
     lr_used_gpu_hours row = active_sum rv_gpu_hours (quota_reservations db) t \<and>
     lr_active_jobs row = active_sum (\<lambda>_. 1) (quota_reservations db) t"

definition row_limited :: "ledger_row \<Rightarrow> bool" where
  "row_limited row \<longleftrightarrow>
     lr_used_gpus row \<le> lr_max_gpus row \<and> lr_used_gpu_hours row \<le> lr_max_gpu_hours row \<and>
     lr_active_jobs row \<le> lr_max_concurrent_jobs row"

definition db_limited :: "quota_db \<Rightarrow> string \<Rightarrow> bool" where
  "db_limited db t \<longleftrightarrow>
     (\<forall>row. dget (quota_ledgers db) t = Some row \<longrightarrow> row_accounts db t row \<and> row_limited row)"

definition reservation_valid :: "quota_db \<Rightarrow> (string \<times> string) \<times> reservation_row \<Rightarrow> bool" where
  "reservation_valid db x \<longleftrightarrow>
     (case x of ((t, k), row) \<Rightarrow>
        0 \<le> rv_gpus row \<and> 0 \<le> rv_gpu_hours row \<and> dget (quota_ledgers db) t \<noteq> None)"

definition db_ok :: "quota_db \<Rightarrow> bool" where
  "db_ok db \<longleftrightarrow>
     distinct (dkeys (quota_reservations db)) \<and> list_all (reservation_valid db) (quota_reservations db) \<and>
     (\<forall>t. db_limited db t)"

definition quota_db_init :: quota_db where
  "quota_db_init = \<lparr>quota_ledgers = [], quota_reservations = []\<rparr>"

inductive quota_db_step :: "quota_db pool_exit \<Rightarrow> quota_db \<Rightarrow> quota_db \<Rightarrow> bool" for px where
  configure: "configure_pg px t q db = (r, db') \<Longrightarrow> quota_db_step px db db'"
| reserve: "reserve_pg px t g h k db = (r', db') \<Longrightarrow> quota_db_step px db db'"
| release: "release_pg px t g h k db = (r, db') \<Longrightarrow> quota_db_step px db db'"

lemma sum_list_dput_fresh:
  fixes f :: "'k \<times> 'v \<Rightarrow> 'a :: ab_group_add"
  shows "dget d k = None \<Longrightarrow> sum_list (map f (dput k v d)) = sum_list (map f d) + f (k, v)"
  by (simp add: dget_None_keys dput_fresh)

lemma sum_list_dput_same:
  fixes f :: "'k \<times> 'v \<Rightarrow> 'a :: ab_group_add"
  assumes "distinct (dkeys d)" and "dget d k = Some old"
  shows "sum_list (map f (dput k v d)) = sum_list (map f d) - f (k, old) + f (k, v)"
  using assms
proof (induction d)
  case (Cons x d)
  obtain k' v' where x: "x = (k', v')" by (cases x)
  show ?case
  proof (cases "k' = k")
    case True
    with Cons.prems x show ?thesis by (auto simp: algebra_simps)
  next
    case False
    with Cons x show ?thesis by (simp add: algebra_simps)
  qed
qed simp

lemma active_sum_reserved:
  assumes "dget rs (t, k) = None" and "\<not> rv_released row"
  shows "active_sum f (dput (t, k) row rs) t' = active_sum f rs t' + (if t' = t then f row else 0)"
  using assms by (simp add: active_sum_def sum_list_dput_fresh)

lemma active_sum_released:
  assumes "distinct (dkeys rs)" and "dget rs (t, k) = Some row" and "\<not> rv_released row" and "rv_released row'"
  shows "active_sum f (dput (t, k) row' rs) t' = active_sum f rs t' - (if t' = t then f row else 0)"
  using assms by (simp add: active_sum_def sum_list_dput_same)

lemma active_sum_ge:
  fixes f :: "reservation_row \<Rightarrow> 'a :: linordered_idom"
  assumes "distinct (dkeys rs)" and "dget rs (t, k) = Some row" and "\<not> rv_released row"
    and "\<And>x. x \<in> set rs \<Longrightarrow> 0 \<le> f (snd x)"
  shows "f row \<le> active_sum f rs t"
proof -
  let ?g = "\<lambda>((t', k), row). if t' = t \<and> \<not> rv_released row then f row else 0"
  have "?g ((t, k), row) \<le> sum_list (map ?g rs)"
    by (rule member_le_sum_list) (use assms dget_entry in \<open>auto intro!: image_eqI\<close>)
  then show ?thesis using assms(3) by (simp add: active_sum_def)
qed

lemma active_sum_none: "\<forall>x \<in> set rs. fst (fst x) \<noteq> t \<Longrightarrow> active_sum f rs t = 0"
  by (induction rs) (auto simp: active_sum_def)

lemma db_okD:
  assumes "db_ok db"
  shows "distinct (dkeys (quota_reservations db))" "list_all (reservation_valid db) (quota_reservations db)"
    "dget (quota_ledgers db) t = Some row \<Longrightarrow> row_accounts db t row \<and> row_limited row"
    "dget (quota_reservations db) tk = Some rv \<Longrightarrow> 0 \<le> rv_gpus rv \<and> 0 \<le> rv_gpu_hours rv"
    "dget (quota_ledgers db) t = None \<Longrightarrow> dget (quota_reservations db) (t, k) = None"
    "dget (quota_ledgers db) t = None \<Longrightarrow> active_sum f (quota_reservations db) t = 0"
proof -
  show 1: "distinct (dkeys (quota_reservations db))" "list_all (reservation_valid db) (quota_reservations db)"
    using assms by (simp_all add: db_ok_def)
  show "dget (quota_ledgers db) t = Some row \<Longrightarrow> row_accounts db t row \<and> row_limited row"
    using assms by (simp add: db_ok_def db_limited_def)
  show "dget (quota_reservations db) tk = Some rv \<Longrightarrow> 0 \<le> rv_gpus rv \<and> 0 \<le> rv_gpu_hours rv"
    using 1(2) dget_entry [of "quota_reservations db" tk rv]
    by (cases tk) (auto simp: list_all_iff reservation_valid_def)
  assume none: "dget (quota_ledgers db) t = None"
  show "dget (quota_reservations db) (t, k) = None"
  proof (cases "dget (quota_reservations db) (t, k)")
    case (Some rv)
    then show ?thesis
      using 1(2) dget_entry [OF Some] none by (auto simp: list_all_iff reservation_valid_def)
  qed
  show "active_sum f (quota_reservations db) t = 0"
    by (rule active_sum_none) (use 1(2) none in \<open>auto simp: list_all_iff reservation_valid_def\<close>)
qed

lemma reservation_valid_mono:
  "list_all (reservation_valid db) xs \<Longrightarrow> set (dkeys (quota_ledgers db)) \<subseteq> set (dkeys (quota_ledgers db')) \<Longrightarrow>
     list_all (reservation_valid db') xs"
  by (auto simp: list_all_iff reservation_valid_def map_of_eq_None_iff split: prod.splits)

lemma list_all_dput: "list_all P d \<Longrightarrow> P (k, v) \<Longrightarrow> list_all P (dput k v d)"
  by (auto simp: list_all_iff dest: dput_entries)

lemma db_ok_configure:
  assumes ok: "db_ok db" and acc: "row_accounts db t row" and lim: "row_limited row"
  shows "db_ok (db\<lparr>quota_ledgers := dput t row (quota_ledgers db)\<rparr>)"
proof -
  have "row_accounts (db\<lparr>quota_ledgers := x\<rparr>) t' r = row_accounts db t' r" for x t' r
    by (simp add: row_accounts_def)
  moreover have "list_all (reservation_valid (db\<lparr>quota_ledgers := dput t row (quota_ledgers db)\<rparr>)) (quota_reservations db)"
    by (rule reservation_valid_mono [OF db_okD(2) [OF ok]]) auto
  ultimately show ?thesis
    using db_okD(1) [OF ok] db_okD(3) [OF ok] acc lim by (simp add: db_ok_def db_limited_def)
qed

lemma db_ok_reserve:
  assumes ok: "db_ok db" and row: "dget (quota_ledgers db) t = Some row"
    and new: "dget (quota_reservations db) (t, k) = None" and nn: "0 \<le> g" "0 \<le> h"
    and lim: "row_limited (ledger_add g h 1 row)"
  shows "db_ok (db\<lparr>quota_ledgers := dput t (ledger_add g h 1 row) (quota_ledgers db),
     quota_reservations := dput (t, k) \<lparr>rv_gpus = g, rv_gpu_hours = h, rv_released = False\<rparr> (quota_reservations db)\<rparr>)"
    (is "db_ok ?db")
proof -
  have "row_accounts ?db t' r" "row_limited r" if "dget (quota_ledgers ?db) t' = Some r" for t' r
    using that db_okD(3) [OF ok] row lim by (auto simp: row_accounts_def active_sum_reserved [OF new] ledger_add_def split: if_splits)
  moreover have "list_all (reservation_valid ?db) (quota_reservations ?db)"
    using reservation_valid_mono [OF db_okD(2) [OF ok], of ?db] nn
    by (auto simp: reservation_valid_def intro!: list_all_dput)
  ultimately show ?thesis
    using db_okD(1) [OF ok] by (simp add: db_ok_def db_limited_def)
qed

lemma db_ok_release:
  assumes ok: "db_ok db" and rv: "dget (quota_reservations db) (t, k) = Some rv" "\<not> rv_released rv"
    and row: "dget (quota_ledgers db) t = Some row"
  shows "db_ok (db\<lparr>quota_reservations := dput (t, k) (rv\<lparr>rv_released := True\<rparr>) (quota_reservations db),
     quota_ledgers := dput t (ledger_sub (rv_gpus rv) (rv_gpu_hours rv) row) (quota_ledgers db)\<rparr>)"
    (is "db_ok ?db")
proof -
  have nn: "0 \<le> rv_gpus (snd x)" "0 \<le> rv_gpu_hours (snd x)" if "x \<in> set (quota_reservations db)" for x
    using that db_okD(2) [OF ok] by (auto simp: list_all_iff reservation_valid_def)
  note ge = active_sum_ge [OF db_okD(1) [OF ok] rv]
  have le: "rv_gpus rv \<le> active_sum rv_gpus (quota_reservations db) t" "rv_gpu_hours rv \<le> active_sum rv_gpu_hours (quota_reservations db) t"
    "(1 :: int) \<le> active_sum (\<lambda>_. 1) (quota_reservations db) t"
    using ge [of rv_gpus] ge [of rv_gpu_hours] ge [of "\<lambda>_. 1 :: int"] nn by auto
  have acc: "row_accounts db t row" "row_limited row" using db_okD(3) [OF ok row] by auto
  have "row_accounts ?db t' r" "row_limited r" if "dget (quota_ledgers ?db) t' = Some r" for t' r
  proof (atomize (full), cases "t' = t")
    case True
    then show "row_accounts ?db t' r \<and> row_limited r"
      using that acc le nn [OF dget_entry [OF rv(1)]]
      by (auto simp: row_accounts_def row_limited_def active_sum_released [OF db_okD(1) [OF ok] rv] ledger_sub_def)
  next
    case False
    then show "row_accounts ?db t' r \<and> row_limited r"
      using that db_okD(3) [OF ok, of t' r]
      by (simp add: row_accounts_def active_sum_released [OF db_okD(1) [OF ok] rv])
  qed
  moreover have "list_all (reservation_valid ?db) (quota_reservations ?db)"
    using reservation_valid_mono [OF db_okD(2) [OF ok], of ?db] db_okD(4) [OF ok rv(1)]
    by (auto simp: reservation_valid_def intro!: list_all_dput)
  ultimately show ?thesis
    using db_okD(1) [OF ok] by (simp add: db_ok_def db_limited_def)
qed

locale pg_quota = psycopg px for px :: "quota_db pool_exit"
begin

lemma configure_pg_ok:
  assumes ok: "db_ok db" and run: "configure_pg px t q db = (r, db')"
  shows "db_ok db'"
proof (cases "valid_tenant t")
  case t: True
  have new: "row_accounts db t \<lparr>lr_max_gpus = a, lr_max_gpu_hours = b, lr_max_concurrent_jobs = c,
      lr_used_gpus = 0, lr_used_gpu_hours = 0, lr_active_jobs = 0\<rparr>" if "dget (quota_ledgers db) t = None" for a b c
    using db_okD(6) [OF ok that, of rv_gpus] db_okD(6) [OF ok that, of rv_gpu_hours]
      db_okD(6) [OF ok that, of "\<lambda>_. 1 :: int"] by (simp add: row_accounts_def)
  have old: "row_accounts db t (row\<lparr>lr_max_gpus := a, lr_max_gpu_hours := b, lr_max_concurrent_jobs := c\<rparr>)"
    if "dget (quota_ledgers db) t = Some row" for row a b c
    using db_okD(3) [OF ok that] by (simp add: row_accounts_def)
  show ?thesis
    using run ok db_ok_configure [OF ok new] db_ok_configure [OF ok old]
    by (auto simp: configure_pg_def tenant_connection_step [OF t] check_quota_def row_limited_def min_less_iff_disj
        split: if_splits option.splits)
next
  case False
  then show ?thesis
    using run ok by (auto simp: configure_pg_def tenant_connection_def valid_tenant_def split: sum.splits if_splits)
qed

lemma reserve_pg_cases:
  assumes "reserve_pg px t g h k db = (r, db')"
  shows "db' = db \<or>
    (\<exists>key row. r = Inr True \<and> given_key k = Some key \<and> dget (quota_ledgers db) t = Some row \<and>
       dget (quota_reservations db) (t, key) = None \<and> 0 \<le> g \<and> 0 \<le> h \<and> row_limited (ledger_add g h 1 row) \<and>
       db' = db\<lparr>quota_ledgers := dput t (ledger_add g h 1 row) (quota_ledgers db), quota_reservations :=
         dput (t, key) \<lparr>rv_gpus = g, rv_gpu_hours = h, rv_released = False\<rparr> (quota_reservations db)\<rparr>)"
proof (cases "valid_tenant t")
  case t: True
  have lim: "row_limited (ledger_add g h 1 row) \<longleftrightarrow> lr_used_gpus row + g \<le> lr_max_gpus row \<and>
      lr_used_gpu_hours row + h \<le> lr_max_gpu_hours row \<and> lr_active_jobs row + 1 \<le> lr_max_concurrent_jobs row" for row
    by (simp add: row_limited_def ledger_add_def)
  show ?thesis
    using assms unfolding reserve_pg_def lim
    by (auto simp: tenant_connection_step [OF t] split: if_splits option.splits)
next
  case False
  then show ?thesis
    using assms
    by (auto simp: reserve_pg_def tenant_connection_def valid_tenant_def split: if_splits option.splits)
qed

lemma reserve_pg_ok:
  assumes ok: "db_ok db" and run: "reserve_pg px t g h k db = (r, db')"
  shows "db_ok db'"
  using reserve_pg_cases [OF run] ok db_ok_reserve [OF ok] by auto

lemma release_pg_ok:
  assumes ok: "db_ok db" and run: "release_pg px t g h k db = (r, db')"
  shows "db_ok db'"
proof (cases "valid_tenant t")
  case t: True
  show ?thesis
    using run ok db_ok_release [OF ok] db_okD(5) [OF ok, of t]
    by (auto simp: release_pg_def tenant_connection_step [OF t] split: if_splits option.splits)
next
  case False
  then show ?thesis
    using run ok by (auto simp: release_pg_def tenant_connection_def valid_tenant_def split: option.splits if_splits)
qed

end

lemma quota_db_init_ok: "db_ok quota_db_init"
  by (simp add: db_ok_def quota_db_init_def db_limited_def)

sublocale pg_quota \<subseteq> system: safe_system quota_db_init "quota_db_step px" db_ok
proof
  show "db_ok quota_db_init" by (rule quota_db_init_ok)
next
  fix s t
  assume "quota_db_step px s t" and "db_ok s"
  then show "db_ok t"
    by cases (auto intro: configure_pg_ok reserve_pg_ok release_pg_ok)
qed

sublocale pg_quota \<subseteq> as_ledger: ledger "reserve_pg px" db_ok db_limited
proof
  show "reserve_pg px t g h k s = (r, s') \<Longrightarrow> r \<noteq> Inr True \<Longrightarrow> s' = s" for t g h k s r s'
    using reserve_pg_cases [of t g h k s r s'] by auto
  show "db_ok s \<Longrightarrow> reserve_pg px t g h k s = (r, s') \<Longrightarrow> db_ok s'" for t g h k s r s'
    by (rule reserve_pg_ok)
  show "db_ok s \<Longrightarrow> db_limited s t" for s t
    by (simp add: db_ok_def)
qed

interpretation default_quota: pg_quota commit_or_rollback
  by unfold_locales

section \<open>Properties\<close>

context pg_quota
begin

lemmas reachable_ok = system.inv_reachable

end

lemma pg_quotaI: "pool_contract px \<Longrightarrow> pg_quota px"
  by unfold_locales

text \<open>
  C26: The ledger on PostgreSQL accounts exactly. In every reachable database, the GPUs, the GPU
  hours and the jobs a tenant is charged with are the sums over its unreleased reservations, and
  none of the three exceeds the tenant's limit, however reservations, repeated releases and changes
  of the limits follow each other.
\<close>
theorem quota_accounting:
  assumes "pool_contract px" and "(quota_db_step px)\<^sup>*\<^sup>* quota_db_init db"
    and "dget (quota_ledgers db) t = Some row"
  shows "lr_used_gpus row = active_sum rv_gpus (quota_reservations db) t \<and>
    lr_used_gpu_hours row = active_sum rv_gpu_hours (quota_reservations db) t \<and>
    lr_active_jobs row = active_sum (\<lambda>_. 1) (quota_reservations db) t \<and>
    lr_used_gpus row \<le> lr_max_gpus row \<and> lr_used_gpu_hours row \<le> lr_max_gpu_hours row \<and>
    lr_active_jobs row \<le> lr_max_concurrent_jobs row"
  using db_okD(3) [OF pg_quota.reachable_ok [OF pg_quotaI [OF assms(1)] assms(2)] assms(3)]
  by (simp add: row_accounts_def row_limited_def)

definition quota_example :: quota where
  "quota_example = \<lparr>qt_max_gpus = 8, qt_max_gpu_hours = 100, qt_max_concurrent_jobs = 4\<rparr>"

theorem quota_accounting_witness:
  "\<exists>db row. (quota_db_step commit_or_rollback)\<^sup>*\<^sup>* quota_db_init db \<and> dget (quota_ledgers db) ''t1'' = Some row \<and>
     lr_used_gpus row = 4 \<and> active_sum rv_gpus (quota_reservations db) ''t1'' = 4"
proof -
  let ?db1 = "snd (configure_pg commit_or_rollback ''t1'' quota_example quota_db_init)"
  let ?db2 = "snd (reserve_pg commit_or_rollback ''t1'' 4 10 (Some ''job-1'') ?db1)"
  have 1: "quota_db_step commit_or_rollback quota_db_init ?db1"
    by (rule quota_db_step.configure [OF prod.collapse [symmetric]])
  have 2: "quota_db_step commit_or_rollback ?db1 ?db2"
    by (rule quota_db_step.reserve [OF prod.collapse [symmetric]])
  have reach: "(quota_db_step commit_or_rollback)\<^sup>*\<^sup>* quota_db_init ?db2"
    by (rule converse_rtranclp_into_rtranclp [of "quota_db_step commit_or_rollback",
          OF 1 r_into_rtranclp [of "quota_db_step commit_or_rollback", OF 2]])
  let ?row = "\<lparr>lr_max_gpus = 8, lr_max_gpu_hours = 100, lr_max_concurrent_jobs = 4, lr_used_gpus = 4,
     lr_used_gpu_hours = 10, lr_active_jobs = 1\<rparr>"
  have row: "dget (quota_ledgers ?db2) ''t1'' = Some ?row"
    by (simp add: configure_pg_def reserve_pg_def check_quota_def quota_example_def quota_db_init_def given_key_def
        tenant_connection_def connection_def commit_or_rollback_def ledger_add_def)
  show ?thesis
    using quota_accounting [OF commit_or_rollback_contract reach row] reach row
    by (intro exI [of _ ?db2] exI [of _ ?row]) simp
qed

text \<open>
  Further: The ledger in memory keeps every tenant within its quota: in every reachable state a tenant
  with usage has a quota, and its GPUs, its GPU hours (as rounded decimals) and its jobs are
  between zero and the limits.
\<close>
theorem quota_memory_limits:
  assumes "quota_memory_step\<^sup>*\<^sup>* quota_memory_init st" and "dget (qm_usage st) t = Some (g, h, j)"
  shows "\<exists>q. dget (qm_quotas st) t = Some q \<and> 0 \<le> g \<and> g \<le> qt_max_gpus q \<and>
    0 \<le> h \<and> h \<le> qt_max_gpu_hours q \<and> 0 \<le> j \<and> j \<le> qt_max_concurrent_jobs q"
  using quota_memory_system.inv_reachable [OF assms(1)] assms(2)
  by (auto simp: memory_ok_def memory_limited_def)

theorem quota_memory_limits_witness:
  "\<exists>st g h j q. quota_memory_step\<^sup>*\<^sup>* quota_memory_init st \<and> dget (qm_usage st) ''t1'' = Some (g, h, j) \<and>
     dget (qm_quotas st) ''t1'' = Some q \<and> g \<le> qt_max_gpus q"
proof -
  let ?s1 = "snd (configure_memory ''t1'' quota_example quota_memory_init)"
  let ?s2 = "snd (reserve_memory ''t1'' 4 10 (Some ''job-1'') ?s1)"
  have 1: "quota_memory_step quota_memory_init ?s1"
    by (rule quota_memory_step.configure [OF prod.collapse [symmetric]])
  have 2: "quota_memory_step ?s1 ?s2"
    by (rule quota_memory_step.reserve [OF prod.collapse [symmetric]])
  have reach: "quota_memory_step\<^sup>*\<^sup>* quota_memory_init ?s2"
    by (rule converse_rtranclp_into_rtranclp [of quota_memory_step, OF 1 r_into_rtranclp [of quota_memory_step, OF 2]])
  have "dget (qm_usage ?s2) ''t1'' = Some (4, 10, 1)"
    by (simp add: configure_memory_def reserve_memory_def check_quota_def quota_example_def quota_memory_init_def
        given_key_def dget_or_def dadd_def)
  from reach this quota_memory_limits [OF reach this] show ?thesis by blast
qed

text \<open>
  Further: A released reservation is remembered in memory. After reserving and releasing under a key,
  the in-memory ledger answers the next reservation under that key with success and charges
  nothing for it, whereas PostgreSQL refuses it.
\<close>
theorem memory_release_forgets_reservation:
  assumes "reserve_memory t g h (Some k) st = (Inr True, st1)" and "k \<noteq> []"
    and "dget (qm_reservations st) (t, k) = None" and "release_memory t g h st1 = (Inr (), st2)"
  shows "reserve_memory t g h (Some k) st2 = (Inr True, st2)"
  using assms
  by (auto simp: reserve_memory_def release_memory_def given_key_def Let_def split: if_splits option.splits prod.splits)

theorem memory_release_forgets_reservation_witness:
  "let st = \<lparr>qm_quotas = [(''t1'', quota_example)], qm_usage = [], qm_reservations = []\<rparr>;
       st1 = snd (reserve_memory ''t1'' 4 10 (Some ''job-1'') st);
       st2 = snd (release_memory ''t1'' 4 10 st1)
   in reserve_memory ''t1'' 4 10 (Some ''job-1'') st2 = (Inr True, st2) \<and> usage_memory st2 ''t1'' = (0, 0, 0)"
  using memory_release_forgets_reservation [of "''t1''" 4 10 "''job-1''"
      "\<lparr>qm_quotas = [(''t1'', quota_example)], qm_usage = [], qm_reservations = []\<rparr>"
      "snd (reserve_memory ''t1'' 4 10 (Some ''job-1'') \<lparr>qm_quotas = [(''t1'', quota_example)], qm_usage = [], qm_reservations = []\<rparr>)"]
  by (simp add: reserve_memory_def release_memory_def quota_example_def given_key_def dget_or_def dadd_def dsub_def
      usage_memory_def)

end
