(* ===== verification/Compute.thy ===== *)
theory Compute
  imports Values
begin

text \<open>
  The compute inventory, source reconciliation and snapshots of \<open>packages/compute\<close>. The digest in a
  snapshot's identifier (SHA-256 of the nodes as JSON) is a parameter, and so is the order in which
  Python iterates the set of nodes that two state maps have in common.
\<close>

section \<open>Inventory\<close>

datatype node_state = READY | MAINTENANCE | NODE_FAILED

record mig_slice =
  ms_id :: string
  ms_memory_gb :: decimal
  ms_compute_fraction :: decimal

record gpu =
  gpu_id :: string
  gpu_model :: string
  gpu_memory_gb :: decimal
  gpu_max_power_kw :: decimal
  gpu_mig_slices :: "mig_slice list"

record compute_node =
  cn_id :: string
  cn_node_tenant_id :: string
  cn_site_id :: string
  cn_topology_asset_id :: string
  cn_gpus :: "gpu list"
  cn_cpu_cores :: int
  cn_memory_gb :: decimal
  cn_state :: node_state
  cn_labels :: "(string, string) dict"

record reservation =
  rs_id :: string
  rs_tenant_id :: string
  rs_gpu_ids :: "string list" \<comment> \<open>a frozenset, in iteration order\<close>
  rs_starts_at :: datetime
  rs_ends_at :: datetime
  rs_purpose :: string
  rs_protected :: bool

definition check_mig_slice :: "mig_slice \<Rightarrow> unit result" where
  "check_mig_slice s =
     (if \<not> (0 < ms_compute_fraction s \<and> ms_compute_fraction s \<le> 1)
      then Inl (ValueError ''MIG compute fraction must be in (0, 1]'') else Inr ())"

definition check_gpu :: "gpu \<Rightarrow> unit result" where
  "check_gpu g =
     (if dsum (map ms_compute_fraction (gpu_mig_slices g)) > 1
      then Inl (ValueError ''MIG slices over-allocate GPU compute'') else Inr ())"

definition check_reservation :: "reservation \<Rightarrow> unit result" where
  "check_reservation r =
     rbind (dt_ge (rs_starts_at r) (rs_ends_at r)) (\<lambda>bad.
       if bad then Inl (ValueError ''reservation must end after it starts'') else Inr ())"

section \<open>Snapshots\<close>

record compute_snapshot =
  cs_id :: string
  cs_tenant_id :: string
  cs_topology_version :: int
  cs_observed_at :: datetime
  cs_source :: string
  cs_freshness_seconds :: int
  cs_quality :: string
  cs_nodes :: "compute_node list"
  cs_reservations :: "reservation list"
  cs_conflicts :: "string list"

definition reserved_gpus :: "reservation list \<Rightarrow> string list" where
  "reserved_gpus rs = concat (map rs_gpu_ids rs)"

definition schedulable_gpus :: "compute_snapshot \<Rightarrow> gpu list" where
  "schedulable_gpus s =
     concat (map (\<lambda>node. filter (\<lambda>g. gpu_id g \<notin> set (reserved_gpus (cs_reservations s))) (cn_gpus node))
       (filter (\<lambda>node. cn_state node = READY) (cs_nodes s)))"

definition schedulable_gpu_count :: "compute_snapshot \<Rightarrow> int" where
  "schedulable_gpu_count s = int (length (schedulable_gpus s))"

definition schedulable_power_kw :: "compute_snapshot \<Rightarrow> decimal" where
  "schedulable_power_kw s = dsum (map gpu_max_power_kw (schedulable_gpus s))"

definition all_gpu_ids :: "compute_node list \<Rightarrow> string list" where
  "all_gpu_ids nodes = concat (map (\<lambda>node. map gpu_id (cn_gpus node)) nodes)"

definition whole_seconds :: "timedelta \<Rightarrow> int" where
  \<comment> \<open>\<open>int(delta.total_seconds())\<close>: truncation towards zero\<close>
  "whole_seconds d = (if d < 0 then - ((- d) div 1000000) else d div 1000000)"

definition build_snapshot ::
  "(compute_node list \<Rightarrow> string) \<Rightarrow> (string set \<Rightarrow> string list) \<Rightarrow> string \<Rightarrow> int \<Rightarrow> string \<Rightarrow> compute_node list \<Rightarrow>
   reservation list \<Rightarrow> datetime \<Rightarrow> datetime \<Rightarrow> (string, string) dict \<Rightarrow> (string, string) dict \<Rightarrow>
   compute_snapshot result" where
  "build_snapshot digest set_order tenant_id topology_version source nodes reservations observed_at now
     scheduler_states telemetry_states =
     (if \<exists>node \<in> set nodes. cn_node_tenant_id node \<noteq> tenant_id
      then Inl (PermissionError ''snapshot contains cross-tenant node'')
      else if \<not> distinct (all_gpu_ids nodes)
      then Inl (ValueError ''duplicate GPU ID would double-count capacity'')
      else if \<not> distinct (reserved_gpus reservations)
      then Inl (ValueError ''GPU is reserved more than once'')
      else if \<not> set (reserved_gpus reservations) \<subseteq> set (all_gpu_ids nodes)
      then Inl (ValueError ''reservation references unknown GPU'')
      else
        let conflicts = filter (\<lambda>n. dget scheduler_states n \<noteq> dget telemetry_states n)
              (set_order (set (dkeys scheduler_states) \<inter> set (dkeys telemetry_states)))
        in rbind (dt_sub now observed_at) (\<lambda>age.
          let freshness = max 0 (whole_seconds age);
              quality = (if conflicts \<noteq> [] then ''conflict'' else if freshness > 300 then ''stale'' else ''good'')
          in Inr \<lparr>cs_id = ''snapshot-'' @ digest nodes, cs_tenant_id = tenant_id,
                  cs_topology_version = topology_version, cs_observed_at = observed_at, cs_source = source,
                  cs_freshness_seconds = freshness, cs_quality = quality, cs_nodes = nodes,
                  cs_reservations = reservations, cs_conflicts = conflicts\<rparr>))"

section \<open>Health\<close>

datatype health_state = HEALTHY | DEGRADED | STALE | CONFLICT

record source_observation =
  ob_source :: string
  ob_observed_at :: datetime
  ob_values :: json_object
  ob_priority :: int

record reconciled_health =
  rh_state :: health_state
  rh_selected_source :: "string option"
  rh_values :: json_object
  rh_stale_sources :: "string list"
  rh_conflicts :: "string list"

fun instant_of :: "datetime \<Rightarrow> int" where
  "instant_of (Aware t) = t"
| "instant_of (Naive t) = t"

definition field_conflict :: "source_observation list \<Rightarrow> string \<Rightarrow> bool" where
  "field_conflict fresh field \<longleftrightarrow>
     card (set (map (\<lambda>item. py_repr (the (dget (ob_values item) field)))
       (filter (\<lambda>item. dget (ob_values item) field \<noteq> None) fresh))) > 1"

definition reconcile_health ::
  "source_observation list \<Rightarrow> datetime \<Rightarrow> timedelta \<Rightarrow> string set \<Rightarrow> reconciled_health result" where
  "reconcile_health observations now freshness conflict_fields =
     (if freshness \<le> 0 then Inl (ValueError ''freshness threshold must be positive'')
      else if (\<exists>item \<in> set observations. \<not> is_aware (ob_observed_at item)) \<or> \<not> is_aware now
      then Inl (ValueError ''health timestamps must be timezone-aware'')
      else
        let is_fresh = (\<lambda>item. instant_of now - instant_of (ob_observed_at item) \<le> freshness);
            fresh = filter is_fresh observations;
            stale = sort (map ob_source (filter (\<lambda>item. item \<notin> set fresh) observations))
        in case fresh of
             [] \<Rightarrow> Inr \<lparr>rh_state = STALE, rh_selected_source = None, rh_values = [], rh_stale_sources = stale,
                     rh_conflicts = []\<rparr>
           | first # rest \<Rightarrow>
               let selected = first_max (\<lambda>item. (ob_priority item, instant_of (ob_observed_at item), ob_source item)) first rest;
                   conflicts = sorted_list_of_set {field \<in> conflict_fields. field_conflict fresh field};
                   state = (if conflicts \<noteq> [] then CONFLICT else if stale \<noteq> [] then DEGRADED else HEALTHY)
               in Inr \<lparr>rh_state = state, rh_selected_source = Some (ob_source selected), rh_values = ob_values selected,
                       rh_stale_sources = stale, rh_conflicts = conflicts\<rparr>)"

section \<open>Correctness\<close>

lemma schedulable_gpus_eq:
  "schedulable_gpus s =
     filter (\<lambda>g. gpu_id g \<notin> set (reserved_gpus (cs_reservations s)))
       (concat (map cn_gpus (filter (\<lambda>node. cn_state node = READY) (cs_nodes s))))"
  by (simp add: schedulable_gpus_def filter_concat comp_def)

definition ready_gpu_ids :: "compute_snapshot \<Rightarrow> string set" where
  "ready_gpu_ids s = (\<Union>node \<in> {n \<in> set (cs_nodes s). cn_state n = READY}. gpu_id ` set (cn_gpus node))"

lemma all_gpu_ids_ready:
  "distinct (all_gpu_ids nodes) \<Longrightarrow>
     distinct (map gpu_id (concat (map cn_gpus (filter (\<lambda>node. cn_state node = READY) nodes))))"
  by (induction nodes) (auto simp: all_gpu_ids_def)

text \<open>
  Further: A snapshot counts its capacity once. In every snapshot that is built, the schedulable GPUs
  are exactly the GPUs of ready nodes that no reservation holds, each counted once: their number
  is the number of GPUs of ready nodes minus the number of reserved ones among them.
\<close>
theorem snapshot_counts_capacity_once:
  assumes "build_snapshot digest ord tenant ver src nodes rs obs now ss ts = Inr s"
  shows "schedulable_gpu_count s =
      int (card (ready_gpu_ids s)) - int (card (ready_gpu_ids s \<inter> set (reserved_gpus (cs_reservations s)))) \<and>
    gpu_id ` set (schedulable_gpus s) = ready_gpu_ids s - set (reserved_gpus (cs_reservations s))"
proof -
  let ?ready = "concat (map cn_gpus (filter (\<lambda>node. cn_state node = READY) (cs_nodes s)))"
  let ?res = "set (reserved_gpus (cs_reservations s))"
  have "distinct (all_gpu_ids nodes)" "cs_nodes s = nodes"
    using assms by (auto simp: build_snapshot_def outcome_simps Let_def split: if_splits)
  then have dist: "distinct (map gpu_id ?ready)" by (simp add: all_gpu_ids_ready)
  have ids: "gpu_id ` set ?ready = ready_gpu_ids s" by (auto simp: ready_gpu_ids_def)
  have free: "gpu_id ` set (schedulable_gpus s) = ready_gpu_ids s - ?res"
    unfolding schedulable_gpus_eq ids [symmetric] by auto
  have "distinct (map gpu_id (schedulable_gpus s))"
    unfolding schedulable_gpus_eq using dist by (rule distinct_map_filter)
  then have "length (schedulable_gpus s) = card (ready_gpu_ids s - ?res)"
    using free distinct_card [of "map gpu_id (schedulable_gpus s)"] by simp
  moreover have "finite (ready_gpu_ids s)" using ids [symmetric] by simp
  ultimately have "int (length (schedulable_gpus s)) = int (card (ready_gpu_ids s)) - int (card (ready_gpu_ids s \<inter> ?res))"
    by (simp add: card_Diff_subset_Int of_nat_diff card_mono)
  with free show ?thesis by (simp add: schedulable_gpu_count_def)
qed

definition gpu_example :: "string \<Rightarrow> gpu" where
  "gpu_example i = \<lparr>gpu_id = i, gpu_model = ''H100'', gpu_memory_gb = 80, gpu_max_power_kw = 7 / 10, gpu_mig_slices = []\<rparr>"

definition node_example :: compute_node where
  "node_example = \<lparr>cn_id = ''n1'', cn_node_tenant_id = ''t1'', cn_site_id = ''site-1'', cn_topology_asset_id = ''a1'',
     cn_gpus = map gpu_example [''g1'', ''g2'', ''g3'', ''g4''], cn_cpu_cores = 64, cn_memory_gb = 512,
     cn_state = READY, cn_labels = []\<rparr>"

definition reservation_example :: reservation where
  "reservation_example = \<lparr>rs_id = ''r1'', rs_tenant_id = ''t1'', rs_gpu_ids = [''g1'', ''g2''], rs_starts_at = Aware 0,
     rs_ends_at = Aware 100, rs_purpose = ''inference'', rs_protected = True\<rparr>"

definition snapshot_example :: compute_snapshot where
  "snapshot_example = \<lparr>cs_id = ''snapshot-h'', cs_tenant_id = ''t1'', cs_topology_version = 1, cs_observed_at = Aware 0,
     cs_source = ''simulator'', cs_freshness_seconds = 0, cs_quality = ''good'', cs_nodes = [node_example],
     cs_reservations = [reservation_example], cs_conflicts = []\<rparr>"

lemma snapshot_example_built:
  "build_snapshot (\<lambda>_. ''h'') (\<lambda>_. []) ''t1'' 1 ''simulator'' [node_example] [reservation_example] (Aware 0) (Aware 0) [] [] =
     Inr snapshot_example"
  by (simp add: build_snapshot_def node_example_def reservation_example_def snapshot_example_def all_gpu_ids_def
      reserved_gpus_def gpu_example_def whole_seconds_def)

theorem snapshot_counts_capacity_once_witness:
  "schedulable_gpu_count snapshot_example = 2 \<and>
   gpu_id ` set (schedulable_gpus snapshot_example) = ready_gpu_ids snapshot_example - {''g1'', ''g2''}"
  using snapshot_counts_capacity_once [OF snapshot_example_built]
  by (simp add: schedulable_gpu_count_def schedulable_gpus_def snapshot_example_def node_example_def
      reservation_example_def reserved_gpus_def gpu_example_def)

text \<open>
  Further: Reconciliation trusts a fresh source of highest priority. When any observation is fresh, the
  values chosen are those of a fresh observation that no other fresh one exceeds in priority (and,
  at the same priority, in recency); the verdict is healthy only if every source is fresh and the
  fresh sources agree on the conflict fields.
\<close>
theorem reconciliation_selects_best:
  assumes "reconcile_health observations now freshness cfs = Inr h" and "rh_selected_source h = Some src"
  shows "\<exists>best \<in> set observations. ob_source best = src \<and> rh_values h = ob_values best \<and>
    instant_of now - instant_of (ob_observed_at best) \<le> freshness \<and>
    (\<forall>o' \<in> set observations. instant_of now - instant_of (ob_observed_at o') \<le> freshness \<longrightarrow>
       (ob_priority o', instant_of (ob_observed_at o'), ob_source o') \<le>
       (ob_priority best, instant_of (ob_observed_at best), ob_source best)) \<and>
    (rh_state h = HEALTHY \<longrightarrow> rh_stale_sources h = [] \<and> rh_conflicts h = [])"
proof -
  let ?fresh = "filter (\<lambda>item. instant_of now - instant_of (ob_observed_at item) \<le> freshness) observations"
  let ?key = "\<lambda>item. (ob_priority item, instant_of (ob_observed_at item), ob_source item)"
  obtain x xs where fresh: "?fresh = x # xs"
    using assms by (cases ?fresh) (auto simp: reconcile_health_def Let_def split: if_splits)
  let ?best = "first_max ?key x xs"
  have h: "ob_source ?best = src" "rh_values h = ob_values ?best"
    "rh_state h = HEALTHY \<longrightarrow> rh_stale_sources h = [] \<and> rh_conflicts h = []"
    using assms fresh by (auto simp: reconcile_health_def Let_def split: if_splits)
  have mem: "y \<in> set (x # xs) \<longleftrightarrow>
      y \<in> set observations \<and> instant_of now - instant_of (ob_observed_at y) \<le> freshness" for y
    unfolding fresh [symmetric] by simp
  have "?best \<in> set (x # xs)" by (rule first_max_in)
  then have best: "?best \<in> set observations" "instant_of now - instant_of (ob_observed_at ?best) \<le> freshness"
    using mem by blast+
  have max: "?key o' \<le> ?key ?best"
    if "o' \<in> set observations" "instant_of now - instant_of (ob_observed_at o') \<le> freshness" for o'
    by (rule first_max_ge) (use mem that in blast)
  show ?thesis
    by (rule bexI [OF _ best(1)]) (use h best(2) max in blast)
qed

theorem reconciliation_selects_best_witness:
  "\<exists>h. reconcile_health
     [\<lparr>ob_source = ''k8s'', ob_observed_at = Aware 0, ob_values = [(''online'', PBool True)], ob_priority = 1\<rparr>,
      \<lparr>ob_source = ''dcgm'', ob_observed_at = Aware 5, ob_values = [(''online'', PBool True)], ob_priority = 2\<rparr>]
     (Aware 10) 60 {''online''} = Inr h \<and> rh_selected_source h = Some ''dcgm'' \<and> rh_values h = [(''online'', PBool True)]"
proof -
  let ?obs = "[\<lparr>ob_source = ''k8s'', ob_observed_at = Aware 0, ob_values = [(''online'', PBool True)], ob_priority = 1\<rparr>,
      \<lparr>ob_source = ''dcgm'', ob_observed_at = Aware 5, ob_values = [(''online'', PBool True)], ob_priority = 2\<rparr>]"
  let ?h = "\<lparr>rh_state = HEALTHY, rh_selected_source = Some ''dcgm'', rh_values = [(''online'', PBool True)],
     rh_stale_sources = [], rh_conflicts = []\<rparr>"
  have conflicts: "{field. field = ''online'' \<and> field_conflict ?obs field} = {}"
    by (auto simp: field_conflict_def)
  have run: "reconcile_health ?obs (Aware 10) 60 {''online''} = Inr ?h"
    using conflicts by (simp add: reconcile_health_def Let_def)
  show ?thesis
    using reconciliation_selects_best [OF run, of "''dcgm''"] run by (intro exI [of _ ?h]) auto
qed

end
