(* ===== verification/Admission.thy ===== *)
theory Admission
  imports Workloads Quota Compute Datetimes
begin

text \<open>
  The admission service of \<open>packages/admission/service.py\<close>, over a quota ledger of either kind: the
  ledger's \<open>reserve\<close> is an argument, and the results are proved once for every ledger that keeps
  the contract \<open>ledger\<close>.

  \<open>timedelta(hours=float(h))\<close> goes through a double: \<open>to_double\<close> rounds to 53 significant bits, half to
  even, and \<open>float_hours\<close> is the conversion of the constructor, which multiplies the fraction of the
  hours as a double and rounds to microseconds. A completion time after the year 9999 is an error.
\<close>

section \<open>Hours as a double\<close>

definition float_hours :: "decimal \<Rightarrow> timedelta" where
  "float_hours h =
     (let f = to_double h; whole = (if f < 0 then \<lceil>f\<rceil> else \<lfloor>f\<rfloor>)
      in whole * 3600000000 + round_half_even (to_double (3600000000 * (f - of_int whole))))"

section \<open>Admission\<close>

record admission_result =
  ad_status :: string
  ad_blocking_constraints :: "string list"
  ad_capacity_shortfall :: int
  ad_earliest_feasible_window :: "datetime option"

definition capacity_shortfall :: "job \<Rightarrow> compute_snapshot \<Rightarrow> int" where
  "capacity_shortfall job snapshot = max 0 (rr_gpu_count (jb_request job) - schedulable_gpu_count snapshot)"

definition protected_gpus :: "compute_snapshot \<Rightarrow> int" where
  "protected_gpus snapshot =
     sum_list (map (\<lambda>r. int (length (rs_gpu_ids r))) (filter rs_protected (cs_reservations snapshot)))"

definition blocking_constraints :: "job \<Rightarrow> compute_snapshot \<Rightarrow> datetime \<Rightarrow> string list result" where
  \<comment> \<open>everything before the quota\<close>
  "blocking_constraints job snapshot now =
     (let request = jb_request job;
          available = schedulable_gpu_count snapshot
      in rbind (dt_plus now (float_hours (rr_estimated_hours request))) (\<lambda>completion.
         rbind (dt_gt completion (sla_deadline (jb_sla job))) (\<lambda>late. Inr (
           (if cs_tenant_id snapshot \<noteq> jb_tenant_id job then [''TENANT_SCOPE''] else []) @
           (if cs_quality snapshot \<in> {''stale'', ''conflict''} then [''COMPUTE_DATA_QUALITY''] else []) @
           (if capacity_shortfall job snapshot \<noteq> 0 then [''GPU_CAPACITY''] else []) @
           (if late then [''DEADLINE''] else []) @
           (if jb_allowed_sites job \<noteq> {} \<and>
               \<not> (\<exists>node \<in> set (cs_nodes snapshot). cn_site_id node \<in> jb_allowed_sites job)
            then [''SOVEREIGNTY''] else []) @
           (if jb_workload_class job \<noteq> ONLINE_INFERENCE \<and>
               available - rr_gpu_count request < protected_gpus snapshot
            then [''PROTECTED_INFERENCE_RESERVATION''] else [])))))"

definition evaluate_admission ::
  "'s reserve_fun \<Rightarrow> job \<Rightarrow> compute_snapshot \<Rightarrow> datetime \<Rightarrow> 's \<Rightarrow> admission_result result \<times> 's" where
  "evaluate_admission reserve job snapshot now quota =
     (case blocking_constraints job snapshot now of
        Inl e \<Rightarrow> (Inl e, quota)
      | Inr blocking \<Rightarrow>
          let request = jb_request job;
              gpu_hours = dmul (of_int (rr_gpu_count request)) (rr_estimated_hours request);
              result = (\<lambda>blocking.
                rbind (if blocking = [] then Inr None else rbind (dt_plus now (seconds 3600)) (\<lambda>window. Inr (Some window))) (\<lambda>window.
                  Inr \<lparr>ad_status = (if blocking = [] then ''admitted'' else ''rejected''),
                   ad_blocking_constraints = blocking,
                   ad_capacity_shortfall = capacity_shortfall job snapshot,
                   ad_earliest_feasible_window = window\<rparr>))
          in if blocking \<noteq> [] then (result blocking, quota)
             else (case reserve (jb_tenant_id job) (rr_gpu_count request) gpu_hours (Some (jb_id job)) quota of
                     (Inl e, quota') \<Rightarrow> (Inl e, quota')
                   | (Inr True, quota') \<Rightarrow> (result [], quota')
                   | (Inr False, quota') \<Rightarrow> (result [''QUOTA''], quota')))"

definition admissible :: "job \<Rightarrow> compute_snapshot \<Rightarrow> datetime \<Rightarrow> bool" where
  \<comment> \<open>what admission demands of the snapshot\<close>
  "admissible job snapshot now \<longleftrightarrow>
     cs_tenant_id snapshot = jb_tenant_id job \<and> cs_quality snapshot \<notin> {''stale'', ''conflict''} \<and>
     rr_gpu_count (jb_request job) \<le> schedulable_gpu_count snapshot \<and>
     (\<exists>completion. dt_plus now (float_hours (rr_estimated_hours (jb_request job))) = Inr completion \<and>
        dt_gt completion (sla_deadline (jb_sla job)) = Inr False) \<and>
     (jb_allowed_sites job = {} \<or> (\<exists>node \<in> set (cs_nodes snapshot). cn_site_id node \<in> jb_allowed_sites job)) \<and>
     (jb_workload_class job = ONLINE_INFERENCE \<or>
      protected_gpus snapshot \<le> schedulable_gpu_count snapshot - rr_gpu_count (jb_request job))"

lemma blocking_constraints_Nil: "blocking_constraints job snapshot now = Inr [] \<longleftrightarrow> admissible job snapshot now"
  by (auto simp: blocking_constraints_def admissible_def capacity_shortfall_def Let_def max_def rbind_eq_Inr)

context ledger
begin

lemma admission_outcome:
  assumes "evaluate_admission reserve job snapshot now s = (r, s')" and "ok s"
  shows "ok s' \<and>
    (if \<exists>a. r = Inr a \<and> ad_status a = ''admitted''
     then admissible job snapshot now \<and> limited s' (jb_tenant_id job) \<and>
       reserve (jb_tenant_id job) (rr_gpu_count (jb_request job))
         (dmul (of_int (rr_gpu_count (jb_request job))) (rr_estimated_hours (jb_request job))) (Some (jb_id job)) s =
       (Inr True, s')
     else s' = s)"
proof -
  let ?res = "reserve (jb_tenant_id job) (rr_gpu_count (jb_request job))
    (dmul (of_int (rr_gpu_count (jb_request job))) (rr_estimated_hours (jb_request job))) (Some (jb_id job)) s"
  obtain x y where res: "?res = (x, y)" by (cases ?res)
  have y: "ok y" "limited y (jb_tenant_id job)" "x \<noteq> Inr True \<longrightarrow> y = s"
    using reserve_ok [OF assms(2) res] within_limits refused [OF res] by auto
  show ?thesis
  proof (cases "blocking_constraints job snapshot now = Inr []")
    case True
    then have "admissible job snapshot now" by (simp add: blocking_constraints_Nil)
    with True assms y res show ?thesis
      by (auto simp: evaluate_admission_def Let_def rbind_eq_Inr split: sum.splits bool.splits)
  next
    case False
    with assms show ?thesis
      by (auto simp: evaluate_admission_def Let_def rbind_eq_Inr split: sum.splits)
  qed
qed

end

context pg_quota
begin

lemmas admission_pg = as_ledger.admission_outcome

end

text \<open>
  C34: Admission on the PostgreSQL ledger. A job is admitted only if the snapshot belongs to its
  tenant and is neither stale nor in conflict, enough schedulable GPUs are left beside the protected
  reservations, it can finish before its deadline, and an allowed site is present; its demand is
  then reserved under its own key and the tenant is still within its limits. In every other case,
  errors included, the ledger is unchanged.
\<close>
theorem admission_reserves_exactly_when_admitted:
  assumes "pool_contract px" and "db_ok db" and "evaluate_admission (reserve_pg px) job snapshot now db = (r, db')"
  shows "db_ok db' \<and>
    (if \<exists>a. r = Inr a \<and> ad_status a = ''admitted''
     then admissible job snapshot now \<and> db_limited db' (jb_tenant_id job) \<and>
       reserve_pg px (jb_tenant_id job) (rr_gpu_count (jb_request job))
         (dmul (of_int (rr_gpu_count (jb_request job))) (rr_estimated_hours (jb_request job))) (Some (jb_id job)) db =
       (Inr True, db')
     else db' = db)"
  by (rule pg_quota.admission_pg [OF pg_quotaI [OF assms(1)] assms(3,2)])

definition job_example :: "int \<Rightarrow> job" where
  "job_example gpus = \<lparr>jb_id = ''job-1'', jb_tenant_id = ''t1'', jb_project_id = ''p'', jb_workload_class = TRAINING,
     jb_request = \<lparr>rr_gpu_count = gpus, rr_gpu_model = None, rr_cpu_cores = 1, rr_memory_gb = 1,
       rr_estimated_hours = 1, rr_power_kw_per_gpu = 1\<rparr>,
     jb_sla = \<lparr>sla_deadline = Aware (seconds 7200), sla_priority = 50, sla_max_latency_ms = None,
       sla_availability_target = None\<rparr>,
     jb_submitted_at = Aware 0, jb_allowed_sites = {}, jb_data_regions = {}, jb_dependencies = {},
     jb_checkpointable = False, jb_labels = []\<rparr>"

lemma float_hours_1: "float_hours 1 = 3600000000"
proof -
  have "exponent2 1 = 0"
    by (simp add: exponent2_def bit_length.simps)
  then have "to_double 1 = 1"
    using round_half_even_int [of "2 ^ 52"] by (simp add: to_double_def Let_def power_int_def power_one_over)
  moreover have "to_double 0 = 0" by (simp add: to_double_def)
  ultimately show ?thesis
    using round_half_even_int [of 0] by (simp add: float_hours_def Let_def)
qed

definition free_snapshot :: compute_snapshot where
  "free_snapshot = snapshot_example\<lparr>cs_reservations := []\<rparr>"

definition ledger_example :: quota_db where
  "ledger_example = \<lparr>quota_ledgers = [(''t1'', \<lparr>lr_max_gpus = 8, lr_max_gpu_hours = 100, lr_max_concurrent_jobs = 4,
     lr_used_gpus = 0, lr_used_gpu_hours = 0, lr_active_jobs = 0\<rparr>)], quota_reservations = []\<rparr>"

lemma ledger_example_ok: "db_ok ledger_example"
  by (simp add: db_ok_def ledger_example_def db_limited_def row_accounts_def row_limited_def active_sum_def)

lemmas admission_eval = evaluate_admission_def blocking_constraints_def capacity_shortfall_def protected_gpus_def
  schedulable_gpu_count_def schedulable_gpus_def job_example_def snapshot_example_def free_snapshot_def
  node_example_def reservation_example_def reserved_gpus_def gpu_example_def float_hours_1 seconds_def dt_plus_def representable_range

theorem admission_reserves_exactly_when_admitted_witness:
  "db_limited (snd (evaluate_admission (reserve_pg commit_or_rollback) (job_example 2) free_snapshot (Aware 0) ledger_example))
     ''t1''"
proof -
  have "fst (evaluate_admission (reserve_pg commit_or_rollback) (job_example 2) free_snapshot (Aware 0) ledger_example) =
      Inr \<lparr>ad_status = ''admitted'', ad_blocking_constraints = [], ad_capacity_shortfall = 0,
           ad_earliest_feasible_window = None\<rparr>"
    by (simp add: admission_eval reserve_pg_def given_key_def tenant_connection_def
        connection_def ledger_example_def dmul_def)
  then show ?thesis
    using admission_reserves_exactly_when_admitted [OF commit_or_rollback_contract ledger_example_ok
        prod.collapse [symmetric], of "job_example 2" free_snapshot "Aware 0"]
    by (simp add: job_example_def)
qed

text \<open>
  Further: Protected reservations are subtracted twice. The schedulable GPUs of a snapshot already leave
  out every reserved GPU, and admission demands as many of them again as are reserved for protected
  inference: with four GPUs of which two are protected, two are free, yet a job that asks for one
  is rejected for the protected reservation.
\<close>
theorem protected_reservation_counted_twice:
  "schedulable_gpu_count snapshot_example = 2 \<and> protected_gpus snapshot_example = 2 \<and>
   fst (evaluate_admission (reserve_pg px) (job_example 1) snapshot_example (Aware 0) ledger_example) =
     Inr \<lparr>ad_status = ''rejected'', ad_blocking_constraints = [''PROTECTED_INFERENCE_RESERVATION''],
          ad_capacity_shortfall = 0, ad_earliest_feasible_window = Some (Aware (seconds 3600))\<rparr>"
  by (simp add: admission_eval)

end
