(* ===== verification/Plans.thy ===== *)
theory Plans
  imports Approvals
begin

text \<open>
  The plan lifecycle of \<open>packages/plans/lifecycle.py\<close>: governed plans, their transition table and the
  optimistic lock. Shown here: two transitions never win with the same expected version, a plan
  becomes active only from approval and in the state it was made for, plans with hard violations
  never advance, and every life of a plan ends.
\<close>

datatype plan_state = DRAFT | VALIDATED | PENDING_APPROVAL | APPROVED | ACTIVE | SUPERSEDED | PLAN_REJECTED

fun plan_state_text :: "plan_state \<Rightarrow> string" where
  "plan_state_text DRAFT = ''draft''"
| "plan_state_text VALIDATED = ''validated''"
| "plan_state_text PENDING_APPROVAL = ''pending_approval''"
| "plan_state_text APPROVED = ''approved''"
| "plan_state_text ACTIVE = ''active''"
| "plan_state_text SUPERSEDED = ''superseded''"
| "plan_state_text PLAN_REJECTED = ''rejected''"

record governed_plan =
  gp_id :: string
  gp_tenant_id :: string
  gp_site_id :: string
  gp_version :: int
  gp_state :: plan_state
  gp_state_version :: string
  gp_policy_versions :: "string list"
  gp_risk :: risk_level
  gp_hard_violations :: "string list"
  gp_required_approvers :: int
  gp_activated_at :: "datetime option"

fun PLAN_TRANSITIONS :: "plan_state \<Rightarrow> plan_state set" where
  "PLAN_TRANSITIONS DRAFT = {VALIDATED, PLAN_REJECTED}"
| "PLAN_TRANSITIONS VALIDATED = {PENDING_APPROVAL, APPROVED}"
| "PLAN_TRANSITIONS PENDING_APPROVAL = {APPROVED, PLAN_REJECTED}"
| "PLAN_TRANSITIONS APPROVED = {ACTIVE, PLAN_REJECTED}"
| "PLAN_TRANSITIONS ACTIVE = {SUPERSEDED}"
| "PLAN_TRANSITIONS SUPERSEDED = {}"
| "PLAN_TRANSITIONS PLAN_REJECTED = {}"

type_synonym plan_store = "(string, governed_plan) dict"

definition create_plan :: "plan_store \<Rightarrow> governed_plan \<Rightarrow> unit result \<times> plan_store" where
  "create_plan st plan =
     (if dget st (gp_id plan) \<noteq> None then (Inl (ValueError ''plan already exists''), st)
      else (Inr (), dput (gp_id plan) plan st))"

definition plan_transition ::
  "plan_store \<Rightarrow> string \<Rightarrow> plan_state \<Rightarrow> int \<Rightarrow> string option \<Rightarrow> datetime option \<Rightarrow> governed_plan result \<times> plan_store" where
  "plan_transition st plan_id target expected_version current_state_version at_time =
     (case dget st plan_id of
        None \<Rightarrow> (Inl (KeyError plan_id), st)
      | Some plan \<Rightarrow>
          if gp_version plan \<noteq> expected_version then (Inl (RuntimeError ''optimistic lock conflict''), st)
          else if target \<notin> PLAN_TRANSITIONS (gp_state plan)
          then (Inl (ValueError (''invalid plan transition '' @ plan_state_text (gp_state plan) @ ''->'' @
                                 plan_state_text target)), st)
          else if gp_hard_violations plan \<noteq> [] \<and> target \<notin> {PLAN_REJECTED}
          then (Inl (ValueError ''plan with hard violations cannot advance''), st)
          else if target = ACTIVE \<and> current_state_version \<noteq> Some (gp_state_version plan)
          then (Inl (ValueError ''stale plan rejected after material state change''), st)
          else if target = ACTIVE \<and> gp_state plan \<noteq> APPROVED
          then (Inl (ValueError ''only approved plan can become active''), st)
          else let updated = plan\<lparr>gp_version := gp_version plan + 1, gp_state := target,
                     gp_activated_at := (if target = ACTIVE then at_time else gp_activated_at plan)\<rparr>
               in (Inr updated, dput plan_id updated st))"

definition get_plan :: "plan_store \<Rightarrow> string \<Rightarrow> string \<Rightarrow> governed_plan result" where
  "get_plan st plan_id tenant_id =
     (case dget st plan_id of
        None \<Rightarrow> Inl (KeyError plan_id)
      | Some plan \<Rightarrow>
          if gp_tenant_id plan \<noteq> tenant_id then Inl (PermissionError ''cross-tenant plan access'') else Inr plan)"

section \<open>Invariant\<close>

inductive plan_step :: "plan_store \<Rightarrow> plan_store \<Rightarrow> bool" where
  create: "gp_state plan = DRAFT \<Longrightarrow> create_plan st plan = (r, st') \<Longrightarrow> plan_step st st'"
| transition: "plan_transition st i target v cur t = (r', st') \<Longrightarrow> plan_step st st'"

definition plan_ok :: "governed_plan \<Rightarrow> bool" where
  "plan_ok plan \<longleftrightarrow> gp_state plan \<in> {DRAFT, PLAN_REJECTED} \<or> gp_hard_violations plan = []"

definition plans_ok :: "plan_store \<Rightarrow> bool" where
  "plans_ok st \<longleftrightarrow> (\<forall>(i, plan) \<in> set st. gp_id plan = i \<and> plan_ok plan)"

lemma plans_ok_put: "plans_ok st \<Longrightarrow> gp_id plan = i \<Longrightarrow> plan_ok plan \<Longrightarrow> plans_ok (dput i plan st)"
  by (auto simp: plans_ok_def dest: dput_entries)

lemma plans_ok_get: "plans_ok st \<Longrightarrow> dget st i = Some plan \<Longrightarrow> gp_id plan = i \<and> plan_ok plan"
  by (auto simp: plans_ok_def dest!: dget_entry)

lemma plan_transition_ok: "plan_transition st i target v cur t = (Inr plan', st') \<longleftrightarrow>
  (\<exists>plan. dget st i = Some plan \<and> gp_version plan = v \<and> target \<in> PLAN_TRANSITIONS (gp_state plan) \<and>
     (gp_hard_violations plan = [] \<or> target = PLAN_REJECTED) \<and>
     (target = ACTIVE \<longrightarrow> cur = Some (gp_state_version plan) \<and> gp_state plan = APPROVED) \<and>
     plan' = plan\<lparr>gp_version := v + 1, gp_state := target,
        gp_activated_at := (if target = ACTIVE then t else gp_activated_at plan)\<rparr> \<and> st' = dput i plan' st)"
  by (auto simp: plan_transition_def Let_def split: option.splits if_splits)

lemma plan_transition_error: "plan_transition st i target v cur t = (Inl e, st') \<Longrightarrow> st' = st"
  by (auto simp: plan_transition_def Let_def split: option.splits if_splits)

interpretation plan_system: safe_system "[]" plan_step plans_ok
proof
  show "plans_ok []" by (simp add: plans_ok_def)
next
  fix s t
  assume "plan_step s t" and ok: "plans_ok s"
  then show "plans_ok t"
  proof cases
    case (create plan r)
    with ok show ?thesis
      by (auto simp: create_plan_def plan_ok_def split: if_splits intro: plans_ok_put)
  next
    case (transition i target v cur time r)
    show ?thesis
    proof (cases r)
      case (Inl e)
      with transition ok show ?thesis using plan_transition_error by blast
    next
      case (Inr plan')
      then obtain plan where plan: "dget s i = Some plan" "t = dput i plan' s"
        "gp_hard_violations plan = [] \<or> target = PLAN_REJECTED"
        "plan' = plan\<lparr>gp_version := v + 1, gp_state := target,
           gp_activated_at := (if target = ACTIVE then time else gp_activated_at plan)\<rparr>"
        using transition by (auto simp: plan_transition_ok)
      have "gp_id plan' = i" "plan_ok plan'"
        using plan plans_ok_get [OF ok plan(1)] by (auto simp: plan_ok_def)
      then show ?thesis unfolding plan(2) by (rule plans_ok_put [OF ok])
    qed
  qed
qed

section \<open>Properties\<close>

text \<open>
  Further: A plan is activated only with everything in place. When a transition of a reachable lifecycle
  makes a plan active, the plan was approved, it has no hard violation, the caller's state version
  is the one the plan was made for, and the expected version was the stored one.
\<close>
theorem activation_is_governed:
  assumes "plan_step\<^sup>*\<^sup>* [] st" and "plan_transition st i ACTIVE v cur t = (Inr plan', st')"
  shows "\<exists>plan. dget st i = Some plan \<and> gp_state plan = APPROVED \<and> gp_hard_violations plan = [] \<and>
    cur = Some (gp_state_version plan) \<and> gp_version plan = v \<and>
    dget st' i = Some (plan\<lparr>gp_version := v + 1, gp_state := ACTIVE, gp_activated_at := t\<rparr>)"
proof -
  obtain plan where plan: "dget st i = Some plan" "gp_version plan = v" "gp_state plan = APPROVED"
    "cur = Some (gp_state_version plan)"
    "plan' = plan\<lparr>gp_version := v + 1, gp_state := ACTIVE, gp_activated_at := t\<rparr>" "st' = dput i plan' st"
    using assms(2) by (auto simp: plan_transition_ok)
  moreover have "gp_hard_violations plan = []"
    using plans_ok_get [OF plan_system.inv_reachable [OF assms(1)] plan(1)] plan(3) by (simp add: plan_ok_def)
  ultimately show ?thesis by simp
qed

definition plan_example :: governed_plan where
  "plan_example = \<lparr>gp_id = ''p1'', gp_tenant_id = ''t1'', gp_site_id = ''s1'', gp_version = 1, gp_state = DRAFT,
     gp_state_version = ''sv'', gp_policy_versions = [], gp_risk = L1, gp_hard_violations = [],
     gp_required_approvers = 0, gp_activated_at = None\<rparr>"

definition plan_at :: "int \<Rightarrow> plan_state \<Rightarrow> governed_plan" where
  "plan_at v s = plan_example\<lparr>gp_version := v, gp_state := s\<rparr>"

lemma plan_example_run:
  "plan_step\<^sup>*\<^sup>* [] [(''p1'', plan_at 3 APPROVED)]"
proof -
  have 1: "plan_step [] [(''p1'', plan_at 1 DRAFT)]"
    by (rule plan_step.create [of "plan_at 1 DRAFT" _ "Inr ()"]) (simp_all add: create_plan_def plan_at_def plan_example_def)
  have 2: "plan_step [(''p1'', plan_at 1 DRAFT)] [(''p1'', plan_at 2 VALIDATED)]"
    by (rule plan_step.transition [of _ "''p1''" VALIDATED 1 None None "Inr (plan_at 2 VALIDATED)"])
      (simp add: plan_transition_def Let_def plan_at_def plan_example_def)
  have 3: "plan_step [(''p1'', plan_at 2 VALIDATED)] [(''p1'', plan_at 3 APPROVED)]"
    by (rule plan_step.transition [of _ "''p1''" APPROVED 2 None None "Inr (plan_at 3 APPROVED)"])
      (simp add: plan_transition_def Let_def plan_at_def plan_example_def)
  note go = rtranclp.rtrancl_into_rtrancl [of plan_step]
  show ?thesis by (rule go [OF go [OF go [OF rtranclp.rtrancl_refl 1] 2] 3])
qed

theorem activation_is_governed_witness:
  "\<exists>plan. dget [(''p1'', plan_at 3 APPROVED)] ''p1'' = Some plan \<and> gp_state plan = APPROVED \<and>
     gp_hard_violations plan = []"
proof -
  have "plan_transition [(''p1'', plan_at 3 APPROVED)] ''p1'' ACTIVE 3 (Some ''sv'') (Some (Aware 5)) =
      (Inr ((plan_at 4 ACTIVE)\<lparr>gp_activated_at := Some (Aware 5)\<rparr>),
       [(''p1'', (plan_at 4 ACTIVE)\<lparr>gp_activated_at := Some (Aware 5)\<rparr>)])"
    by (simp add: plan_transition_def Let_def plan_at_def plan_example_def)
  from activation_is_governed [OF plan_example_run this] show ?thesis by blast
qed

text \<open>
  Further: The optimistic lock admits one winner. After a transition with some expected version has
  succeeded, any other transition of the same plan with that expected version raises the lock
  conflict and changes nothing.
\<close>
theorem plan_lock_one_winner:
  assumes "plan_transition st i target v cur t = (Inr plan, st')"
  shows "plan_transition st' i target2 v cur2 t2 = (Inl (RuntimeError ''optimistic lock conflict''), st')"
proof -
  have "dget st' i = Some plan" "gp_version plan = v + 1"
    using assms by (auto simp: plan_transition_ok)
  then show ?thesis by (simp add: plan_transition_def)
qed

theorem plan_lock_one_winner_witness:
  "plan_transition [(''p1'', plan_at 2 VALIDATED)] ''p1'' PLAN_REJECTED 1 None None =
     (Inl (RuntimeError ''optimistic lock conflict''), [(''p1'', plan_at 2 VALIDATED)])"
  by (rule plan_lock_one_winner [of "[(''p1'', plan_at 1 DRAFT)]" "''p1''" VALIDATED 1 None None "plan_at 2 VALIDATED"])
    (simp add: plan_transition_def Let_def plan_at_def plan_example_def)

fun plan_rank :: "plan_state \<Rightarrow> nat" where
  "plan_rank DRAFT = 5" | "plan_rank VALIDATED = 4" | "plan_rank PENDING_APPROVAL = 3" | "plan_rank APPROVED = 2"
| "plan_rank ACTIVE = 1" | "plan_rank SUPERSEDED = 0" | "plan_rank PLAN_REJECTED = 0"

text \<open>
  Further: Every plan comes to an end. Each successful transition of a plan lowers its rank, so that a
  plan makes at most five transitions, and the states without a successor are exactly superseded
  and rejected.
\<close>
theorem plan_life_is_finite:
  "wf {(b, a). b \<in> PLAN_TRANSITIONS a} \<and> (PLAN_TRANSITIONS a = {}) = (a \<in> {SUPERSEDED, PLAN_REJECTED}) \<and> plan_rank a \<le> 5"
proof (intro conjI)
  have "b \<in> PLAN_TRANSITIONS a \<Longrightarrow> plan_rank b < plan_rank a" for a b
    by (cases a) auto
  then have "{(b, a). b \<in> PLAN_TRANSITIONS a} \<subseteq> measure plan_rank" by auto
  then show "wf {(b, a). b \<in> PLAN_TRANSITIONS a}" by (rule wf_subset [OF wf_measure])
qed (cases a; simp)+

end
