(* ===== verification/Policy.thy ===== *)
theory Policy
  imports Persistence Values
begin

text \<open>
  \<open>packages/policy\<close>: the policy document parser, rule evaluation and the policy engine in memory and on
  PostgreSQL. The \<open>jsonb\<close> columns of a policy give back the value that was written.
\<close>

section \<open>Policies and their documents\<close>

datatype enforcement = HARD | SOFT

record policy_rule =
  pr_field :: string
  pr_operator :: string
  pr_value :: pyval

record policy =
  po_id :: string
  po_version :: int
  po_tenant_id :: string
  po_site_ids :: "string set"
  po_rule :: policy_rule
  po_enforcement :: enforcement
  po_priority :: int
  po_owner :: string
  po_published :: bool

definition parse_enforcement :: "string \<Rightarrow> enforcement result" where
  "parse_enforcement s =
     (if s = ''hard'' then Inr HARD else if s = ''soft'' then Inr SOFT
      else Inl (ValueError (repr_string s @ '' is not a valid Enforcement'')))"

definition policy_operators :: "string set" where
  "policy_operators = {''eq'', ''ne'', ''lt'', ''lte'', ''gt'', ''gte'', ''in'', ''contains''}"

definition policy_fields :: "string set" where
  "policy_fields = {''schema_version'', ''id'', ''version'', ''site_ids'', ''rule'', ''enforcement'', ''priority'', ''owner''}"

definition parse_policy_document :: "json_object \<Rightarrow> string \<Rightarrow> policy result" where
  "parse_policy_document document tenant_id =
     (let unknown = filter (\<lambda>k. k \<notin> policy_fields) (dkeys document) in
      if \<not> py_eq (dget_or document ''schema_version'' PNone) (PStr ''1.0'')
      then Inl (ValueError ''unsupported policy schema version'')
      else if unknown \<noteq> []
      then Inl (ValueError (''unknown policy fields: '' @ py_repr (PList (map PStr (sort unknown)))))
      else case dget document ''rule'' of
        Some (PDict rule) \<Rightarrow>
          let operator = py_str (dget_or rule ''operator'' PNone) in
          if operator \<notin> policy_operators then Inl (ValueError ''unsupported policy operator'')
          else
            rbind (py_item document ''id'') (\<lambda>id_value.
            rbind (py_item document ''version'') (\<lambda>version_value.
            rbind (py_int version_value) (\<lambda>version.
            rbind (py_iter (dget_or document ''site_ids'' (PList []))) (\<lambda>site_ids.
            rbind (py_item rule ''field'') (\<lambda>field_value.
            rbind (py_item rule ''value'') (\<lambda>rule_value.
            rbind (py_item document ''enforcement'') (\<lambda>enforcement_value.
            rbind (parse_enforcement (py_str enforcement_value)) (\<lambda>enforcement.
            rbind (py_item document ''priority'') (\<lambda>priority_value.
            rbind (py_int priority_value) (\<lambda>priority.
            rbind (py_item document ''owner'') (\<lambda>owner_value.
              Inr \<lparr>po_id = py_str id_value, po_version = version, po_tenant_id = tenant_id,
                   po_site_ids = set (map py_str site_ids),
                   po_rule = \<lparr>pr_field = py_str field_value, pr_operator = operator, pr_value = rule_value\<rparr>,
                   po_enforcement = enforcement, po_priority = priority, po_owner = py_str owner_value,
                   po_published = False\<rparr>)))))))))))
      | _ \<Rightarrow> Inl (ValueError ''policy rule must be an object''))"

section \<open>Rules\<close>

definition evaluate_rule :: "policy_rule \<Rightarrow> json_object \<Rightarrow> bool result" where
  "evaluate_rule rule facts =
     (case dget facts (pr_field rule) of
        None \<Rightarrow> Inr False
      | Some actual \<Rightarrow>
          let v = pr_value rule; p = pr_operator rule in
          if p = ''eq'' then Inr (py_eq actual v)
          else if p = ''ne'' then Inr (\<not> py_eq actual v)
          else if p = ''lt'' then py_order Less actual v
          else if p = ''lte'' then py_order LessEq actual v
          else if p = ''gt'' then py_order Greater actual v
          else if p = ''gte'' then py_order GreaterEq actual v
          else if p = ''in'' then py_in actual v
          else if p = ''contains'' then py_in v actual
          else Inl (ValueError (''unsupported policy operator '' @ p)))"

section \<open>The engine\<close>

type_synonym policy_store = "(string \<times> int, policy) dict"

definition conflicts_with :: "policy \<Rightarrow> policy \<Rightarrow> bool" where
  "conflicts_with policy other \<longleftrightarrow>
     po_published other \<and> po_tenant_id other = po_tenant_id policy \<and>
     po_site_ids other \<inter> po_site_ids policy \<noteq> {} \<and>
     pr_field (po_rule other) = pr_field (po_rule policy) \<and> po_priority other = po_priority policy \<and>
     pr_operator (po_rule other) = ''eq'' \<and> pr_operator (po_rule policy) = ''eq'' \<and>
     \<not> py_eq (pr_value (po_rule other)) (pr_value (po_rule policy))"

definition policy_label :: "policy \<Rightarrow> string" where
  "policy_label p = po_id p @ ''@'' @ string_of_int (po_version p)"

definition validate_against :: "policy \<Rightarrow> policy list \<Rightarrow> unit result" where
  "validate_against policy existing =
     (case find (conflicts_with policy) existing of
        Some other \<Rightarrow> Inl (ValueError (''policy conflict with '' @ policy_label other))
      | None \<Rightarrow> Inr ())"

definition tenant_policies :: "policy_store \<Rightarrow> string \<Rightarrow> policy list" where
  "tenant_policies st tenant_id = filter (\<lambda>p. po_tenant_id p = tenant_id) (dvalues st)"

definition publish_checks :: "policy \<Rightarrow> string set \<Rightarrow> unit result" where
  "publish_checks policy actor_roles =
     (if po_enforcement policy = HARD \<and> ''safety_admin'' \<notin> actor_roles
      then Inl (PermissionError ''only safety_admin can publish hard policy'') else Inr ())"

definition publish :: "policy_store \<Rightarrow> policy \<Rightarrow> string set \<Rightarrow> policy result \<times> policy_store" where
  "publish st policy actor_roles =
     (case publish_checks policy actor_roles of
        Inl e \<Rightarrow> (Inl e, st)
      | Inr _ \<Rightarrow>
          (case validate_against policy (tenant_policies st (po_tenant_id policy)) of
             Inl e \<Rightarrow> (Inl e, st)
           | Inr _ \<Rightarrow>
               let published = policy\<lparr>po_published := True\<rparr>
               in (Inr published, dput (po_id policy, po_version policy) published st)))"

record policy_row =
  \<comment> \<open>\<open>policy_versions\<close>: the array \<open>site_ids\<close> is read back as a frozenset\<close>
  pw_policy_id :: string
  pw_version :: int
  pw_tenant_id :: string
  pw_site_ids :: "string set"
  pw_rule :: json_object
  pw_enforcement :: string
  pw_priority :: int
  pw_owner_id :: string
  pw_published :: bool

definition from_row :: "policy_row \<Rightarrow> policy result" where
  "from_row row =
     rbind (py_item (pw_rule row) ''field'') (\<lambda>field_value.
     rbind (py_item (pw_rule row) ''operator'') (\<lambda>operator_value.
     rbind (py_item (pw_rule row) ''value'') (\<lambda>rule_value.
     rbind (parse_enforcement (pw_enforcement row)) (\<lambda>enforcement.
       Inr \<lparr>po_id = pw_policy_id row, po_version = pw_version row, po_tenant_id = pw_tenant_id row,
            po_site_ids = pw_site_ids row,
            po_rule = \<lparr>pr_field = py_str field_value, pr_operator = py_str operator_value, pr_value = rule_value\<rparr>,
            po_enforcement = enforcement, po_priority = pw_priority row, po_owner = pw_owner_id row,
            po_published = pw_published row\<rparr>))))"

fun enforcement_text :: "enforcement \<Rightarrow> string" where
  "enforcement_text HARD = ''hard''"
| "enforcement_text SOFT = ''soft''"

definition inserted_row :: "policy \<Rightarrow> policy_row" where
  "inserted_row policy =
     \<lparr>pw_policy_id = po_id policy, pw_version = po_version policy, pw_tenant_id = po_tenant_id policy,
      pw_site_ids = po_site_ids policy,
      pw_rule = [(''field'', PStr (pr_field (po_rule policy))),
                 (''operator'', PStr (pr_operator (po_rule policy))), (''value'', pr_value (po_rule policy))],
      pw_enforcement = enforcement_text (po_enforcement policy), pw_priority = po_priority policy,
      pw_owner_id = po_owner policy, pw_published = True\<rparr>"

type_synonym policy_db = "(string \<times> string \<times> int, policy_row) dict"

definition tenant_rows :: "policy_db \<Rightarrow> string \<Rightarrow> policy_row list" where
  "tenant_rows db tenant_id = filter (\<lambda>row. pw_tenant_id row = tenant_id) (dvalues db)"

definition tenant_policies_pg :: "policy_db pool_exit \<Rightarrow> policy_db \<Rightarrow> string \<Rightarrow> policy list result" where
  \<comment> \<open>\<open>ORDER BY priority DESC, policy_id, version\<close>\<close>
  "tenant_policies_pg px db tenant_id =
     fst (tenant_connection px tenant_id db (\<lambda>db.
       (rmap_list from_row (sort_key (\<lambda>row. (- pw_priority row, pw_policy_id row, pw_version row)) (tenant_rows db tenant_id)), db)))"

definition publish_pg :: "policy_db pool_exit \<Rightarrow> policy_db \<Rightarrow> policy \<Rightarrow> string set \<Rightarrow> policy result \<times> policy_db" where
  \<comment> \<open>the transaction holds the advisory lock of the tenant, so it is one step\<close>
  "publish_pg px db policy actor_roles =
     (case publish_checks policy actor_roles of
        Inl e \<Rightarrow> (Inl e, db)
      | Inr _ \<Rightarrow> tenant_connection px (po_tenant_id policy) db (\<lambda>db.
          case rbind (rmap_list from_row (tenant_rows db (po_tenant_id policy))) (validate_against policy) of
            Inl e \<Rightarrow> (Inl e, db)
          | Inr _ \<Rightarrow>
              let key = (po_tenant_id policy, po_id policy, po_version policy) in
              if dget db key \<noteq> None
              then (Inl (RuntimeError ''duplicate key value violates unique constraint''), db)
              else (Inr (policy\<lparr>po_published := True\<rparr>), dput key (inserted_row policy) db)))"

record policy_decision =
  pd_allowed :: bool
  pd_hard_violations :: "string list"
  pd_warnings :: "string list"
  pd_active_policies :: "string list"
  pd_explanation :: "string list"

definition active_policies :: "policy list \<Rightarrow> string \<Rightarrow> string \<Rightarrow> policy list" where
  "active_policies policies tenant_id site_id =
     sort_key (\<lambda>p. (- po_priority p, po_id p))
       (filter (\<lambda>p. po_published p \<and> po_tenant_id p = tenant_id \<and>
                    (po_site_ids p = {} \<or> site_id \<in> po_site_ids p)) policies)"

definition decide :: "policy list \<Rightarrow> json_object \<Rightarrow> policy_decision result" where
  "decide active facts =
     rbind (rmap_list (\<lambda>p. rbind (evaluate_rule (po_rule p) facts) (\<lambda>m. Inr (p, m))) active) (\<lambda>outcomes.
       let failed = filter (\<lambda>(p, m). \<not> m) outcomes;
           hard = map (\<lambda>(p, m). po_id p) (filter (\<lambda>(p, m). po_enforcement p = HARD) failed);
           warnings = map (\<lambda>(p, m). po_id p) (filter (\<lambda>(p, m). po_enforcement p \<noteq> HARD) failed)
       in Inr \<lparr>pd_allowed = (hard = []), pd_hard_violations = hard, pd_warnings = warnings,
               pd_active_policies = map policy_label active,
               pd_explanation = map (\<lambda>(p, m). policy_label p @ '':'' @ (if m then ''matched'' else ''failed'')) outcomes\<rparr>)"

definition evaluate_policies :: "policy_store \<Rightarrow> string \<Rightarrow> string \<Rightarrow> json_object \<Rightarrow> policy_decision result" where
  "evaluate_policies st tenant_id site_id facts =
     decide (active_policies (tenant_policies st tenant_id) tenant_id site_id) facts"

definition evaluate_policies_pg ::
  "policy_db pool_exit \<Rightarrow> policy_db \<Rightarrow> string \<Rightarrow> string \<Rightarrow> json_object \<Rightarrow> policy_decision result" where
  "evaluate_policies_pg px db tenant_id site_id facts =
     rbind (tenant_policies_pg px db tenant_id) (\<lambda>policies. decide (active_policies policies tenant_id site_id) facts)"

section \<open>Lemmas\<close>

lemma parse_enforcement_text [simp]: "parse_enforcement (enforcement_text e) = Inr e"
  by (cases e) (simp_all add: parse_enforcement_def)

lemma conflicts_with_sym:
  "conflicts_with p q \<Longrightarrow> po_published p \<Longrightarrow> conflicts_with q p"
  by (auto simp: conflicts_with_def dest: py_eq_sym)

lemma conflicts_with_published [simp]: "conflicts_with (p\<lparr>po_published := b\<rparr>) q = conflicts_with p q"
  by (simp add: conflicts_with_def)

lemma validate_against_ok:
  "validate_against p existing = Inr u \<longleftrightarrow> (\<forall>q \<in> set existing. \<not> conflicts_with p q)"
proof (cases "find (conflicts_with p) existing")
  case None
  then have "\<forall>q \<in> set existing. \<not> conflicts_with p q" by (simp add: find_None_iff)
  with None show ?thesis by (simp add: validate_against_def)
next
  case (Some q)
  then have "\<exists>q \<in> set existing. conflicts_with p q" by (auto simp: find_Some_iff)
  with Some show ?thesis by (simp add: validate_against_def)
qed

lemma from_row_inserted: "from_row (inserted_row p) = Inr (p\<lparr>po_published := True\<rparr>)"
  by (simp add: from_row_def inserted_row_def py_item_def)

lemma decide_ok:
  assumes "decide active facts = Inr d"
  shows "p \<in> set active \<Longrightarrow> is_ok (evaluate_rule (po_rule p) facts)"
    and "set (pd_hard_violations d) = po_id ` {p \<in> set active. po_enforcement p = HARD \<and> evaluate_rule (po_rule p) facts = Inr False}"
    and "set (pd_warnings d) = po_id ` {p \<in> set active. po_enforcement p = SOFT \<and> evaluate_rule (po_rule p) facts = Inr False}"
    and "pd_allowed d = (pd_hard_violations d = [])"
proof -
  let ?f = "\<lambda>p. rbind (evaluate_rule (po_rule p) facts) (\<lambda>m. Inr (p, m))"
  from assms obtain outcomes where o: "rmap_list ?f active = Inr outcomes"
    by (auto simp: decide_def rbind_eq_Inr)
  have ok: "is_ok (evaluate_rule (po_rule p) facts)" if "p \<in> set active" for p
    using that o
  proof (induction active arbitrary: outcomes)
    case (Cons a active)
    then show ?case by (auto simp: rbind_eq_Inr is_ok_iff)
  qed simp
  then show "p \<in> set active \<Longrightarrow> is_ok (evaluate_rule (po_rule p) facts)" .
  have outs: "outcomes = map (\<lambda>p. (p, evaluate_rule (po_rule p) facts = Inr True)) active"
    using o
  proof (induction active arbitrary: outcomes)
    case (Cons a active)
    then show ?case by (auto simp: rbind_eq_Inr)
  qed simp
  have false: "(evaluate_rule (po_rule p) facts \<noteq> Inr True) = (evaluate_rule (po_rule p) facts = Inr False)"
    if "p \<in> set active" for p
    using ok [OF that] by (auto simp: is_ok_iff)
  have soft: "(e \<noteq> HARD) = (e = SOFT)" for e by (cases e) auto
  from assms o have d: "pd_hard_violations d = map (\<lambda>(p, m). po_id p) (filter (\<lambda>(p, m). po_enforcement p = HARD) (filter (\<lambda>(p, m). \<not> m) outcomes))"
    "pd_warnings d = map (\<lambda>(p, m). po_id p) (filter (\<lambda>(p, m). po_enforcement p \<noteq> HARD) (filter (\<lambda>(p, m). \<not> m) outcomes))"
    and al: "pd_allowed d = (pd_hard_violations d = [])"
    by (auto simp: decide_def Let_def)
  show "pd_allowed d = (pd_hard_violations d = [])" by (rule al)
  show "set (pd_hard_violations d) = po_id ` {p \<in> set active. po_enforcement p = HARD \<and> evaluate_rule (po_rule p) facts = Inr False}"
    unfolding d(1) outs using false by (auto simp: image_iff)
  show "set (pd_warnings d) = po_id ` {p \<in> set active. po_enforcement p = SOFT \<and> evaluate_rule (po_rule p) facts = Inr False}"
    unfolding d(2) outs soft using false by (auto simp: image_iff)
qed

lemma set_active_policies:
  "set (active_policies ps tenant_id site_id) =
     {p \<in> set ps. po_published p \<and> po_tenant_id p = tenant_id \<and> (po_site_ids p = {} \<or> site_id \<in> po_site_ids p)}"
  by (auto simp: active_policies_def)

lemma rule_verdict: "is_ok r \<Longrightarrow> r \<noteq> Inr False \<longleftrightarrow> r = Inr True"
  by (auto simp: is_ok_iff)

lemma decide_allowed:
  assumes "decide active facts = Inr d"
  shows "pd_allowed d \<longleftrightarrow> (\<forall>p \<in> set active. po_enforcement p = HARD \<longrightarrow> evaluate_rule (po_rule p) facts = Inr True)"
proof -
  have "pd_allowed d \<longleftrightarrow> (\<forall>p \<in> set active. \<not> (po_enforcement p = HARD \<and> evaluate_rule (po_rule p) facts = Inr False))"
    unfolding decide_ok(4) [OF assms] set_empty [symmetric] decide_ok(2) [OF assms] by auto
  also have "\<dots> \<longleftrightarrow> (\<forall>p \<in> set active. po_enforcement p = HARD \<longrightarrow> evaluate_rule (po_rule p) facts = Inr True)"
    using rule_verdict decide_ok(1) [OF assms] by blast
  finally show ?thesis .
qed

section \<open>Published policies do not contradict each other\<close>

definition policy_key :: "policy \<Rightarrow> string \<times> string \<times> int" where
  "policy_key p = (po_tenant_id p, po_id p, po_version p)"

definition policies_inv :: "policy_db \<Rightarrow> bool" where
  \<comment> \<open>every row is one that publishing inserted, and rows of different keys do not conflict\<close>
  "policies_inv db \<longleftrightarrow> distinct (dkeys db) \<and>
     (\<forall>(k, row) \<in> set db. \<exists>p. row = inserted_row p \<and> k = policy_key p) \<and>
     (\<forall>p q. (policy_key p, inserted_row p) \<in> set db \<longrightarrow> (policy_key q, inserted_row q) \<in> set db \<longrightarrow>
        policy_key p \<noteq> policy_key q \<longrightarrow> \<not> conflicts_with p (q\<lparr>po_published := True\<rparr>))"

inductive publish_step :: "policy_db pool_exit \<Rightarrow> policy_db \<Rightarrow> policy_db \<Rightarrow> bool" for px where
  publish_step: "publish_step px db (snd (publish_pg px db policy actor_roles))"

lemma inserted_row_sel [simp]:
  "pw_tenant_id (inserted_row p) = po_tenant_id p" "pw_policy_id (inserted_row p) = po_id p"
  "pw_version (inserted_row p) = po_version p" "pw_priority (inserted_row p) = po_priority p"
  by (simp_all add: inserted_row_def)

lemma publish_pg_rollback:
  "pool_contract px \<Longrightarrow> publish_pg px db p roles = (Inl e, db') \<Longrightarrow> db' = db"
  by (auto simp: publish_pg_def split: sum.splits dest: tenant_connection_rollback)

lemma publish_pg_ok:
  assumes "pool_contract px" "publish_pg px db p roles = (Inr q, db')"
  shows "publish_checks p roles = Inr ()"
    and "\<exists>ps. rmap_list from_row (tenant_rows db (po_tenant_id p)) = Inr ps \<and> (\<forall>r \<in> set ps. \<not> conflicts_with p r)"
    and "dget db (policy_key p) = None"
    and "q = p\<lparr>po_published := True\<rparr>"
    and "db' = dput (policy_key p) (inserted_row p) db"
  using assms
  by (auto simp: publish_pg_def tenant_connection_commit Let_def validate_against_ok policy_key_def rbind_eq_Inr
      split: sum.splits if_splits prod.splits)

lemma policies_inv_row:
  "policies_inv db \<Longrightarrow> (k, row) \<in> set db \<Longrightarrow> \<exists>p. row = inserted_row p \<and> k = policy_key p"
  by (auto simp: policies_inv_def)

lemma policies_inv_conflict:
  "policies_inv db \<Longrightarrow> (policy_key p, inserted_row p) \<in> set db \<Longrightarrow> (policy_key q, inserted_row q) \<in> set db \<Longrightarrow>
     policy_key p \<noteq> policy_key q \<Longrightarrow> \<not> conflicts_with p (q\<lparr>po_published := True\<rparr>)"
  by (simp add: policies_inv_def)

lemma tenant_rows_policies:
  assumes "policies_inv db" "rmap_list from_row (tenant_rows db t) = Inr ps"
    and "(policy_key q, inserted_row q) \<in> set db" "po_tenant_id q = t"
  shows "q\<lparr>po_published := True\<rparr> \<in> set ps"
proof -
  have "inserted_row q \<in> set (tenant_rows db t)"
    using assms(3,4) by (force simp: tenant_rows_def)
  then show ?thesis
    using rmap_list_mem [OF assms(2)] from_row_inserted [of q] by force
qed

lemma conflicts_with_insert:
  assumes "\<not> conflicts_with p (q\<lparr>po_published := True\<rparr>)"
  shows "\<not> conflicts_with q (p\<lparr>po_published := True\<rparr>)"
  using assms by (auto simp: conflicts_with_def dest: py_eq_sym)

lemma publish_pg_inv:
  assumes "pool_contract px" "policies_inv db"
  shows "policies_inv (snd (publish_pg px db p roles))"
proof (cases "publish_pg px db p roles")
  case (Pair r db')
  show ?thesis
  proof (cases r)
    case (Inl e)
    with assms Pair show ?thesis by (auto dest: publish_pg_rollback)
  next
    case (Inr q)
    note ok = publish_pg_ok [OF assms(1) Pair [unfolded Inr]]
    from ok(2) obtain ps where ps: "rmap_list from_row (tenant_rows db (po_tenant_id p)) = Inr ps"
      "\<And>r. r \<in> set ps \<Longrightarrow> \<not> conflicts_with p r" by blast
    have fresh: "policy_key p \<notin> set (dkeys db)" using ok(3) by (simp add: dget_None_keys)
    have new: "\<not> conflicts_with p (q'\<lparr>po_published := True\<rparr>)" if "(policy_key q', inserted_row q') \<in> set db" for q'
    proof (cases "po_tenant_id q' = po_tenant_id p")
      case True
      then show ?thesis by (rule ps(2) [OF tenant_rows_policies [OF assms(2) ps(1) that]])
    qed (simp add: conflicts_with_def)
    have "policies_inv (db @ [(policy_key p, inserted_row p)])"
      unfolding policies_inv_def
    proof (intro conjI allI impI)
      show "distinct (dkeys (db @ [(policy_key p, inserted_row p)]))"
        using assms(2) fresh by (simp add: policies_inv_def)
      show "\<forall>(k, row) \<in> set (db @ [(policy_key p, inserted_row p)]). \<exists>p. row = inserted_row p \<and> k = policy_key p"
        using assms(2) by (auto simp: policies_inv_def)
      fix a b assume ab: "(policy_key a, inserted_row a) \<in> set (db @ [(policy_key p, inserted_row p)])"
        "(policy_key b, inserted_row b) \<in> set (db @ [(policy_key p, inserted_row p)])" "policy_key a \<noteq> policy_key b"
      have row: "conflicts_with a x = conflicts_with p x \<and> a\<lparr>po_published := True\<rparr> = p\<lparr>po_published := True\<rparr>"
        if "inserted_row a = inserted_row p" for a x
        using from_row_inserted [of a] from_row_inserted [of p] that
          conflicts_with_published [where p = a and b = True and q = x]
          conflicts_with_published [where p = p and b = True and q = x] by simp
      consider "(policy_key a, inserted_row a) \<in> set db" "(policy_key b, inserted_row b) \<in> set db"
        | "inserted_row a = inserted_row p" "(policy_key b, inserted_row b) \<in> set db"
        | "inserted_row b = inserted_row p" "(policy_key a, inserted_row a) \<in> set db"
        using ab by auto
      then show "\<not> conflicts_with a (b\<lparr>po_published := True\<rparr>)"
      proof cases
        case 1
        then show ?thesis by (rule policies_inv_conflict [OF assms(2) _ _ ab(3)])
      next
        case 2
        then show ?thesis using row [of a] new by simp
      next
        case 3
        then show ?thesis using row [of b] conflicts_with_insert [OF new] by simp
      qed
    qed
    then show ?thesis using Pair ok(5) fresh by (simp add: dput_fresh)
  qed
qed

locale pg_policy = psycopg px for px :: "policy_db pool_exit"

sublocale pg_policy \<subseteq> published: safe_system "[]" "publish_step px" policies_inv
proof
  show "policies_inv []" by (simp add: policies_inv_def)
  show "policies_inv t" if "policies_inv s" "publish_step px s t" for s t
    using that(2,1) by cases (simp add: publish_pg_inv [OF contract])
qed

context pg_policy
begin

lemmas published_inv = published.inv_reachable

end

interpretation default_policy: pg_policy commit_or_rollback
  by unfold_locales

lemma pg_policyI: "pool_contract px \<Longrightarrow> pg_policy px"
  by unfold_locales

lemma tenant_policies_pg_set:
  assumes "policies_inv db" "tenant_policies_pg px db t = Inr ps"
  shows "set ps = {p\<lparr>po_published := True\<rparr> | p. (policy_key p, inserted_row p) \<in> set db \<and> po_tenant_id p = t}"
proof -
  let ?rows = "sort_key (\<lambda>row. (- pw_priority row, pw_policy_id row, pw_version row)) (tenant_rows db t)"
  have "rmap_list from_row ?rows = Inr ps"
    using assms(2)
    by (auto simp: tenant_policies_pg_def tenant_connection_def connection_def split: if_splits sum.splits prod.splits)
  then have "set ps = {p. \<exists>row \<in> set (tenant_rows db t). from_row row = Inr p}"
    using rmap_list_set [of from_row ?rows ps] rmap_list_mem [of from_row ?rows ps] by fastforce
  also have "\<dots> = {p\<lparr>po_published := True\<rparr> | p. (policy_key p, inserted_row p) \<in> set db \<and> po_tenant_id p = t}"
  proof (intro set_eqI iffI)
    fix x assume "x \<in> {p. \<exists>row \<in> set (tenant_rows db t). from_row row = Inr p}"
    then obtain k row where row: "(k, row) \<in> set db" "pw_tenant_id row = t" "from_row row = Inr x"
      by (auto simp: tenant_rows_def)
    with policies_inv_row [OF assms(1)] obtain p where "row = inserted_row p" "k = policy_key p" by blast
    with row show "x \<in> {p\<lparr>po_published := True\<rparr> | p. (policy_key p, inserted_row p) \<in> set db \<and> po_tenant_id p = t}"
      by (auto simp: from_row_inserted)
  qed (force simp: tenant_rows_def from_row_inserted)
  finally show ?thesis .
qed

lemma image_filter_image: "g ` {x \<in> f ` A. P x} = (\<lambda>x. g (f x)) ` {x \<in> A. P (f x)}"
  by auto

lemma filter_image_set: "{x \<in> {f q | q. A q}. P x} = f ` {q. A q \<and> P (f q)}"
  by auto

lemma memory_policy_verdict:
  assumes "evaluate_policies st tenant_id site_id facts = Inr d"
  shows "pd_allowed d \<longleftrightarrow>
    (\<forall>p \<in> set (dvalues st). po_published p \<and> po_tenant_id p = tenant_id \<and> (po_site_ids p = {} \<or> site_id \<in> po_site_ids p) \<and>
       po_enforcement p = HARD \<longrightarrow> evaluate_rule (po_rule p) facts = Inr True)"
  unfolding decide_allowed [OF assms [unfolded evaluate_policies_def]] set_active_policies
  by (auto simp: tenant_policies_def)

text \<open>
  C18: Facts are allowed exactly when every hard policy that is published for the tenant and applies to
  the site is satisfied by them: a policy with no sites applies to every site, a fact that is missing
  fails its rule, and soft policies never change the verdict but are exactly the warnings. This holds
  of the engine on PostgreSQL in every state that publishing leads to, through the rows it stores.
\<close>
theorem policy_verdict_exact:
  assumes "pool_contract px" "(publish_step px)\<^sup>*\<^sup>* [] db"
    and "evaluate_policies_pg px db tenant_id site_id facts = Inr d"
  shows "(pd_allowed d \<longleftrightarrow>
      (\<forall>p. (policy_key p, inserted_row p) \<in> set db \<and> po_tenant_id p = tenant_id \<and>
           (po_site_ids p = {} \<or> site_id \<in> po_site_ids p) \<and> po_enforcement p = HARD
           \<longrightarrow> evaluate_rule (po_rule p) facts = Inr True)) \<and>
    set (pd_warnings d) =
      {po_id p | p. (policy_key p, inserted_row p) \<in> set db \<and> po_tenant_id p = tenant_id \<and>
           (po_site_ids p = {} \<or> site_id \<in> po_site_ids p) \<and> po_enforcement p = SOFT \<and>
           evaluate_rule (po_rule p) facts = Inr False}"
proof -
  from assms(3) obtain ps where ps: "tenant_policies_pg px db tenant_id = Inr ps"
    and d: "decide (active_policies ps tenant_id site_id) facts = Inr d"
    by (auto simp: evaluate_policies_pg_def rbind_eq_Inr)
  have inv: "policies_inv db" by (rule pg_policy.published_inv [OF pg_policyI [OF assms(1)] assms(2)])
  have active: "set (active_policies ps tenant_id site_id) = (\<lambda>p. p\<lparr>po_published := True\<rparr>) `
      {p. (policy_key p, inserted_row p) \<in> set db \<and> po_tenant_id p = tenant_id \<and> (po_site_ids p = {} \<or> site_id \<in> po_site_ids p)}"
    unfolding set_active_policies tenant_policies_pg_set [OF inv ps]
    by (subst filter_image_set) (simp add: conj_ac)
  show ?thesis
  proof
    show "set (pd_warnings d) = {po_id p | p. (policy_key p, inserted_row p) \<in> set db \<and> po_tenant_id p = tenant_id \<and>
        (po_site_ids p = {} \<or> site_id \<in> po_site_ids p) \<and> po_enforcement p = SOFT \<and> evaluate_rule (po_rule p) facts = Inr False}"
      unfolding decide_ok(3) [OF d] active image_filter_image by (auto simp: image_iff)
  qed (auto simp: decide_allowed [OF d] active)
qed

definition example_policy :: "string \<Rightarrow> string set \<Rightarrow> pyval \<Rightarrow> policy" where
  "example_policy i sites v =
     \<lparr>po_id = i, po_version = 1, po_tenant_id = ''t1'', po_site_ids = sites,
      po_rule = \<lparr>pr_field = ''region'', pr_operator = ''eq'', pr_value = v\<rparr>,
      po_enforcement = HARD, po_priority = 5, po_owner = ''alice'', po_published = False\<rparr>"

lemmas example_policy_simps = example_policy_def publish_pg_def publish_checks_def tenant_connection_def connection_def
  commit_or_rollback_def tenant_rows_def validate_against_def Let_def policy_key_def

lemma example_publish:
  "publish_step commit_or_rollback [] [(policy_key (example_policy ''p1'' {''s1''} (PStr ''eu'')), inserted_row (example_policy ''p1'' {''s1''} (PStr ''eu'')))]"
  using publish_step [of commit_or_rollback "[]" "example_policy ''p1'' {''s1''} (PStr ''eu'')" "{''safety_admin''}"]
  by (simp add: example_policy_simps)

theorem policy_verdict_exact_witness:
  "\<exists>d. evaluate_policies_pg commit_or_rollback
      [(policy_key (example_policy ''p1'' {''s1''} (PStr ''eu'')), inserted_row (example_policy ''p1'' {''s1''} (PStr ''eu'')))]
      ''t1'' ''s1'' [(''region'', PStr ''us'')] = Inr d \<and> \<not> pd_allowed d \<and> pd_warnings d = []"
proof -
  let ?p = "example_policy ''p1'' {''s1''} (PStr ''eu'')"
  let ?db = "[(policy_key ?p, inserted_row ?p)]"
  have "tenant_policies_pg commit_or_rollback ?db ''t1'' = Inr [?p\<lparr>po_published := True\<rparr>]"
    by (simp add: tenant_policies_pg_def example_policy_simps from_row_inserted)
  then have "\<exists>d. evaluate_policies_pg commit_or_rollback ?db ''t1'' ''s1'' [(''region'', PStr ''us'')] = Inr d"
    by (simp add: evaluate_policies_pg_def active_policies_def example_policy_def decide_def evaluate_rule_def Let_def)
  then obtain d where d: "evaluate_policies_pg commit_or_rollback ?db ''t1'' ''s1'' [(''region'', PStr ''us'')] = Inr d" ..
  note v = policy_verdict_exact [OF commit_or_rollback_contract r_into_rtranclp [of "publish_step commit_or_rollback", OF example_publish] d]
  have e: "evaluate_rule (po_rule ?p) [(''region'', PStr ''us'')] = Inr False"
    by (simp add: evaluate_rule_def example_policy_def py_eq_def)
  have "\<not> pd_allowed d" using e by (subst conjunct1 [OF v]) (auto simp: example_policy_def)
  moreover have "set (pd_warnings d) = {}"
    unfolding conjunct2 [OF v] by (auto simp: inserted_row_def example_policy_def elim: enforcement_text.elims)
  ultimately show ?thesis using d by auto
qed

text \<open>
  C32: Two policies that the PostgreSQL engine has published for one tenant never demand different values
  of a field with the same priority at a site that both of them name, whatever sequence of publications
  led to the database. And on every such database the publication of a hard policy without the role of a
  safety administrator is refused and leaves the database as it is.
\<close>
theorem published_policies_agree:
  assumes "pool_contract px" "(publish_step px)\<^sup>*\<^sup>* [] db"
  shows "(\<forall>p q site. (policy_key p, inserted_row p) \<in> set db \<longrightarrow> (policy_key q, inserted_row q) \<in> set db \<longrightarrow> policy_key p \<noteq> policy_key q \<longrightarrow>
      po_tenant_id p = po_tenant_id q \<longrightarrow> site \<in> po_site_ids p \<inter> po_site_ids q \<longrightarrow>
      pr_field (po_rule p) = pr_field (po_rule q) \<longrightarrow> po_priority p = po_priority q \<longrightarrow>
      pr_operator (po_rule p) = ''eq'' \<longrightarrow> pr_operator (po_rule q) = ''eq'' \<longrightarrow>
      py_eq (pr_value (po_rule p)) (pr_value (po_rule q))) \<and>
    (\<forall>r roles. po_enforcement r = HARD \<longrightarrow> ''safety_admin'' \<notin> roles \<longrightarrow>
      publish_pg px db r roles = (Inl (PermissionError ''only safety_admin can publish hard policy''), db))"
proof (intro conjI allI impI)
  fix p q site
  assume a: "(policy_key p, inserted_row p) \<in> set db" "(policy_key q, inserted_row q) \<in> set db" "policy_key p \<noteq> policy_key q"
    and b: "po_tenant_id p = po_tenant_id q" "site \<in> po_site_ids p \<inter> po_site_ids q"
      "pr_field (po_rule p) = pr_field (po_rule q)" "po_priority p = po_priority q"
      "pr_operator (po_rule p) = ''eq''" "pr_operator (po_rule q) = ''eq''"
  have "policies_inv db" by (rule pg_policy.published_inv [OF pg_policyI [OF assms(1)] assms(2)])
  from policies_inv_conflict [OF this a]
  show "py_eq (pr_value (po_rule p)) (pr_value (po_rule q))"
    using b py_eq_sym by (auto simp: conflicts_with_def)
qed (simp add: publish_pg_def publish_checks_def)

definition example_policies :: policy_db where
  "example_policies =
     map (\<lambda>p. (policy_key p, inserted_row p))
       [example_policy ''p1'' {''s1''} (PStr ''eu''), example_policy ''p2'' {''s1'', ''s2''} (PStr ''eu'')]"

lemma example_published: "(publish_step commit_or_rollback)\<^sup>*\<^sup>* [] example_policies"
proof -
  let ?p = "example_policy ''p1'' {''s1''} (PStr ''eu'')" and ?q = "example_policy ''p2'' {''s1'', ''s2''} (PStr ''eu'')"
  have "publish_step commit_or_rollback [(policy_key ?p, inserted_row ?p)] example_policies"
    using publish_step [of commit_or_rollback "[(policy_key ?p, inserted_row ?p)]" ?q "{''safety_admin''}"]
    by (simp add: example_policies_def example_policy_simps from_row_inserted conflicts_with_def py_eq_def)
  with example_publish show ?thesis
    using converse_rtranclp_into_rtranclp [of "publish_step commit_or_rollback", OF example_publish r_into_rtranclp [of "publish_step commit_or_rollback"]]
    by blast
qed

theorem published_policies_agree_witness:
  "py_eq (pr_value (po_rule (example_policy ''p1'' {''s1''} (PStr ''eu'')))) (pr_value (po_rule (example_policy ''p2'' {''s1'', ''s2''} (PStr ''eu'')))) \<and>
   publish_pg commit_or_rollback example_policies (example_policy ''p3'' {} PNone) {} =
     (Inl (PermissionError ''only safety_admin can publish hard policy''), example_policies)"
proof
  note agree = published_policies_agree [OF commit_or_rollback_contract example_published]
  show "py_eq (pr_value (po_rule (example_policy ''p1'' {''s1''} (PStr ''eu'')))) (pr_value (po_rule (example_policy ''p2'' {''s1'', ''s2''} (PStr ''eu''))))"
    by (rule conjunct1 [OF agree, rule_format, of _ _ "''s1''"])
      (simp_all add: example_policies_def example_policy_def policy_key_def)
  show "publish_pg commit_or_rollback example_policies (example_policy ''p3'' {} PNone) {} =
     (Inl (PermissionError ''only safety_admin can publish hard policy''), example_policies)"
    by (rule conjunct2 [OF agree, rule_format]) (simp_all add: example_policy_def)
qed

text \<open>
  Further: The conflict check overlooks policies that apply to every site. Two hard policies without sites that
  demand different values of one field are both published, and from then on the tenant is refused at
  every site, whatever the facts are.
\<close>
theorem tenant_wide_conflict_undetected:
  assumes "\<not> py_eq a b"
  shows "\<exists>st1 st2. publish [] (example_policy ''p1'' {} a) {''safety_admin''} = (Inr ((example_policy ''p1'' {} a)\<lparr>po_published := True\<rparr>), st1) \<and>
    publish st1 (example_policy ''p2'' {} b) {''safety_admin''} = (Inr ((example_policy ''p2'' {} b)\<lparr>po_published := True\<rparr>), st2) \<and>
    (\<forall>site facts d. evaluate_policies st2 ''t1'' site facts = Inr d \<longrightarrow> \<not> pd_allowed d)"
proof -
  let ?p = "(example_policy ''p1'' {} a)\<lparr>po_published := True\<rparr>" and ?q = "(example_policy ''p2'' {} b)\<lparr>po_published := True\<rparr>"
  let ?st1 = "[((''p1'', 1 :: int), ?p)]" let ?st2 = "?st1 @ [((''p2'', 1), ?q)]"
  have 1: "publish [] (example_policy ''p1'' {} a) {''safety_admin''} = (Inr ?p, ?st1)"
    by (simp add: publish_def publish_checks_def tenant_policies_def validate_against_def Let_def example_policy_def)
  have 2: "publish ?st1 (example_policy ''p2'' {} b) {''safety_admin''} = (Inr ?q, ?st2)"
    by (simp add: publish_def publish_checks_def tenant_policies_def validate_against_def Let_def example_policy_def conflicts_with_def)
  have "\<not> pd_allowed d" if "evaluate_policies ?st2 ''t1'' site facts = Inr d" for site facts d
  proof -
    have "\<not> (evaluate_rule (po_rule ?p) facts = Inr True \<and> evaluate_rule (po_rule ?q) facts = Inr True)"
      using assms by (auto simp: evaluate_rule_def example_policy_def split: option.splits dest: py_eq_sym py_eq_trans)
    then show ?thesis using memory_policy_verdict [OF that] by (auto simp: example_policy_def)
  qed
  with 1 2 show ?thesis by blast
qed

theorem tenant_wide_conflict_undetected_witness:
  "\<exists>st1 q1 st2 q2 d. publish [] (example_policy ''p1'' {} (PInt 1)) {''safety_admin''} = (Inr q1, st1) \<and>
    publish st1 (example_policy ''p2'' {} (PInt 2)) {''safety_admin''} = (Inr q2, st2) \<and>
    evaluate_policies st2 ''t1'' ''s1'' [(''region'', PInt 1)] = Inr d \<and> \<not> pd_allowed d"
proof -
  have "\<not> py_eq (PInt 1) (PInt 2)" by (simp add: py_eq_def)
  from tenant_wide_conflict_undetected [OF this] obtain st1 st2 where
    1: "publish [] (example_policy ''p1'' {} (PInt 1)) {''safety_admin''} = (Inr ((example_policy ''p1'' {} (PInt 1))\<lparr>po_published := True\<rparr>), st1)"
    and 2: "publish st1 (example_policy ''p2'' {} (PInt 2)) {''safety_admin''} = (Inr ((example_policy ''p2'' {} (PInt 2))\<lparr>po_published := True\<rparr>), st2)"
    and 3: "\<And>site facts d. evaluate_policies st2 ''t1'' site facts = Inr d \<Longrightarrow> \<not> pd_allowed d" by blast
  have "\<exists>d. evaluate_policies st2 ''t1'' ''s1'' [(''region'', PInt 1)] = Inr d"
    using 1 2
    by (auto simp: publish_def publish_checks_def tenant_policies_def validate_against_def Let_def example_policy_def conflicts_with_def
        evaluate_policies_def active_policies_def decide_def evaluate_rule_def)
  then show ?thesis using 1 2 3 by blast
qed

text \<open>
  Further: On PostgreSQL publishing leaves the policies of every other tenant as they are. The in-memory engine
  does not: its dictionary is keyed by policy and version only, so a tenant that publishes the same key
  removes a hard policy of another tenant, and facts that were refused there are allowed.
\<close>
theorem publish_keeps_other_tenants:
  assumes "pool_contract px" "(publish_step px)\<^sup>*\<^sup>* [] db" "t \<noteq> po_tenant_id p"
  shows "tenant_policies_pg px (snd (publish_pg px db p roles)) t = tenant_policies_pg px db t \<and>
    (\<exists>st r q d d'. evaluate_policies st ''t1'' ''s1'' [(''region'', PStr ''us'')] = Inr d \<and> \<not> pd_allowed d \<and>
       po_tenant_id q = ''t2'' \<and>
       evaluate_policies (snd (publish st q r)) ''t1'' ''s1'' [(''region'', PStr ''us'')] = Inr d' \<and> pd_allowed d')"
proof
  show "tenant_policies_pg px (snd (publish_pg px db p roles)) t = tenant_policies_pg px db t"
  proof (cases "publish_pg px db p roles")
    case (Pair r db')
    show ?thesis
    proof (cases r)
      case (Inl e)
      with Pair show ?thesis using publish_pg_rollback [OF assms(1), of db p roles e db'] by simp
    next
      case (Inr q)
      note ok = publish_pg_ok [OF assms(1) Pair [unfolded Inr]]
      have "db' = db @ [(policy_key p, inserted_row p)]" using ok(3,5) by (simp add: dput_fresh dget_None_keys)
      then have "tenant_rows db' t = tenant_rows db t" using assms(3) by (simp add: tenant_rows_def)
      then show ?thesis using Pair
        by (simp add: tenant_policies_pg_def tenant_connection_def connection_def split: sum.splits prod.splits)
    qed
  qed
  let ?p = "(example_policy ''p1'' {} (PStr ''eu''))\<lparr>po_published := True\<rparr>"
    and ?q = "(example_policy ''p1'' {} (PStr ''eu''))\<lparr>po_tenant_id := ''t2''\<rparr>"
  let ?st = "[((''p1'', 1 :: int), ?p)]"
  have "\<exists>d. evaluate_policies ?st ''t1'' ''s1'' [(''region'', PStr ''us'')] = Inr d \<and> \<not> pd_allowed d"
    by (simp add: evaluate_policies_def tenant_policies_def active_policies_def decide_def evaluate_rule_def example_policy_def py_eq_def)
  moreover have "\<exists>d. evaluate_policies (snd (publish ?st ?q {''safety_admin''})) ''t1'' ''s1'' [(''region'', PStr ''us'')] = Inr d \<and> pd_allowed d"
    by (simp add: publish_def publish_checks_def validate_against_def Let_def
        evaluate_policies_def tenant_policies_def active_policies_def decide_def example_policy_def)
  moreover have "po_tenant_id ?q = ''t2''" by (simp add: example_policy_def)
  ultimately show "\<exists>st r q d d'. evaluate_policies st ''t1'' ''s1'' [(''region'', PStr ''us'')] = Inr d \<and> \<not> pd_allowed d \<and>
       po_tenant_id q = ''t2'' \<and>
       evaluate_policies (snd (publish st q r)) ''t1'' ''s1'' [(''region'', PStr ''us'')] = Inr d' \<and> pd_allowed d'"
    by blast
qed

theorem publish_keeps_other_tenants_witness:
  "tenant_policies_pg commit_or_rollback (snd (publish_pg commit_or_rollback example_policies
      ((example_policy ''p1'' {} (PInt 1))\<lparr>po_tenant_id := ''t2''\<rparr>) {''safety_admin''})) ''t1'' =
   tenant_policies_pg commit_or_rollback example_policies ''t1''"
  by (rule conjunct1 [OF publish_keeps_other_tenants [OF commit_or_rollback_contract example_published]])
    (simp add: example_policy_def)

section \<open>Documents\<close>

definition policy_document :: "policy \<Rightarrow> string list \<Rightarrow> json_object" where
  \<comment> \<open>the document that describes a policy, with its sites in some order\<close>
  "policy_document p sites =
     [(''schema_version'', PStr ''1.0''), (''id'', PStr (po_id p)), (''version'', PInt (po_version p)),
      (''site_ids'', PList (map PStr sites)),
      (''rule'', PDict [(''field'', PStr (pr_field (po_rule p))), (''operator'', PStr (pr_operator (po_rule p))),
                        (''value'', pr_value (po_rule p))]),
      (''enforcement'', PStr (enforcement_text (po_enforcement p))), (''priority'', PInt (po_priority p)),
      (''owner'', PStr (po_owner p))]"

lemma parse_policy_document_ok:
  assumes "parse_policy_document document tenant_id = Inr p"
  shows "po_tenant_id p = tenant_id" "\<not> po_published p" "pr_operator (po_rule p) \<in> policy_operators"
  using assms
  by (auto simp: parse_policy_document_def Let_def rbind_eq_Inr split: if_splits option.splits pyval.splits)

lemma evaluate_rule_supported:
  assumes "pr_operator rule \<in> policy_operators" "evaluate_rule rule facts = Inl e"
  shows "\<exists>m. e = TypeError m"
proof -
  have order: "py_order c a b = Inl e \<Longrightarrow> \<exists>m. e = TypeError m" for c a b
    by (induction c a b rule: py_order.induct) (auto split: if_splits)
  have "py_in a b = Inl e \<Longrightarrow> \<exists>m. e = TypeError m" for a b
    by (auto simp: py_in_def split: pyval.splits)
  with order show ?thesis
    using assms by (auto simp: evaluate_rule_def policy_operators_def Let_def split: option.splits)
qed

text \<open>
  Further: Policy documents round-trip. The document of a policy with a supported operator is parsed to that
  policy, unpublished and for the tenant of the request, whatever the order in which it lists its sites;
  and the rule of any parsed document either evaluates or compares values of incompatible types, it never
  fails as an unsupported operator.
\<close>
theorem policy_document_roundtrip:
  assumes "pr_operator (po_rule p) \<in> policy_operators" "set sites = po_site_ids p"
  shows "parse_policy_document (policy_document p sites) (po_tenant_id p) = Inr (p\<lparr>po_published := False\<rparr>) \<and>
    (parse_policy_document document tenant_id = Inr q \<longrightarrow> evaluate_rule (po_rule q) facts = Inl e \<longrightarrow> (\<exists>m. e = TypeError m))"
proof
  show "parse_policy_document (policy_document p sites) (po_tenant_id p) = Inr (p\<lparr>po_published := False\<rparr>)"
    using assms
    by (simp add: parse_policy_document_def policy_document_def policy_fields_def Let_def dget_or_def py_item_def py_eq_def image_image)
  show "parse_policy_document document tenant_id = Inr q \<longrightarrow> evaluate_rule (po_rule q) facts = Inl e \<longrightarrow> (\<exists>m. e = TypeError m)"
    using parse_policy_document_ok(3) evaluate_rule_supported by blast
qed

theorem policy_document_roundtrip_witness:
  "parse_policy_document (policy_document (example_policy ''p1'' {''s1'', ''s2''} (PInt 3)) [''s2'', ''s1'']) ''t1'' =
     Inr (example_policy ''p1'' {''s1'', ''s2''} (PInt 3))"
  using policy_document_roundtrip [of "example_policy ''p1'' {''s1'', ''s2''} (PInt 3)" "[''s2'', ''s1'']" "[]" "[]"]
  by (simp add: example_policy_def policy_operators_def insert_commute)

end
