(* ===== verification/Scheduling.thy ===== *)
theory Scheduling
  imports Workloads "HOL-Library.Multiset"
begin

text \<open>
  \<open>packages/scheduling\<close> (contracts and strategies) and \<open>packages/plans/diff.py\<close>: time slots, schedule
  plans, the plan validator and the three list schedulers.

  The digest of an input (\<open>content_hash\<close>) is a parameter. A datetime comparison between an aware and a
  naive datetime raises, so that filtering slots by a deadline has an error path; sorting slots by their
  start has none, because the filter has compared every one of them with the same deadline.
\<close>

section \<open>Contracts\<close>

record time_slot =
  ts_index :: int
  ts_starts_at :: datetime
  ts_duration_hours :: decimal
  ts_gpu_capacity :: int
  ts_power_capacity_kw :: decimal
  ts_price_per_kwh :: decimal
  ts_carbon_kg_per_kwh :: decimal

record schedule_input =
  si_jobs :: "job list"
  si_slots :: "time_slot list"
  si_topology_version :: int
  si_forecast_version :: string
  si_baseline_name :: string

record allocation =
  al_job_id :: string
  al_slot_indices :: "int list"
  al_gpu_count :: int
  al_reason_code :: string

record schedule_plan =
  sp_strategy :: string
  sp_allocations :: "allocation list"
  sp_unscheduled :: "string list"
  sp_energy_intent_kwh :: decimal
  sp_estimated_cost :: decimal
  sp_assumptions :: "string list"
  sp_violations :: "string list"
  sp_input_hash :: string

fun validate_slots ::
  "time_slot list \<Rightarrow> job \<Rightarrow> int \<Rightarrow> int list \<Rightarrow> (int, int) dict \<Rightarrow> (int, int) dict result" where
  "validate_slots slots job gpu_count [] used = Inr used"
| "validate_slots slots job gpu_count (slot_index # rest) used =
     rbind (py_nth slots slot_index) (\<lambda>slot.
     rbind (key_of used string_of_int slot_index) (\<lambda>before.
       let used = dput slot_index (before + gpu_count) used in
       if before + gpu_count > ts_gpu_capacity slot then Inl (ValueError ''schedule exceeds GPU capacity'')
       else
         rbind (dt_ge (ts_starts_at slot) (sla_deadline (jb_sla job))) (\<lambda>late.
           if late then Inl (ValueError ''schedule violates job deadline'')
           else validate_slots slots job gpu_count rest used)))"

fun validate_allocations ::
  "time_slot list \<Rightarrow> (string, job) dict \<Rightarrow> allocation list \<Rightarrow> string set \<Rightarrow> (int, int) dict \<Rightarrow> unit result" where
  "validate_allocations slots jobs [] allocated used = Inr ()"
| "validate_allocations slots jobs (a # rest) allocated used =
     (if al_job_id a \<in> allocated then Inl (ValueError ''job allocated more than once'')
      else
        rbind (key_of jobs (\<lambda>k. k) (al_job_id a)) (\<lambda>job.
        rbind (validate_slots slots job (al_gpu_count a) (al_slot_indices a) used) (\<lambda>used.
          validate_allocations slots jobs rest (insert (al_job_id a) allocated) used)))"

definition validate_plan :: "schedule_input \<Rightarrow> schedule_plan \<Rightarrow> unit result" where
  "validate_plan request plan =
     validate_allocations (si_slots request) (dict_of (map (\<lambda>job. (jb_id job, job)) (si_jobs request)))
       (sp_allocations plan) {} (dict_of (map (\<lambda>slot. (ts_index slot, 0)) (si_slots request)))"

section \<open>List schedulers\<close>

definition consecutive :: "int list \<Rightarrow> bool" where
  "consecutive is = list_all (\<lambda>(left, right). right = left + 1) (zip is (tl is))"

record schedule_state =
  ss_available :: "(int, int) dict"
  ss_allocations :: "allocation list"
  ss_unscheduled :: "string list"
  ss_cost :: decimal
  ss_energy :: decimal

definition required_slots :: "schedule_input \<Rightarrow> job \<Rightarrow> int result" where
  "required_slots request job =
     rbind (ddiv (rr_estimated_hours (jb_request job)) (ts_duration_hours (hd (si_slots request))))
       (\<lambda>q. Inr (to_integral_ceiling q))"

definition slot_eligible :: "job \<Rightarrow> (int, int) dict \<Rightarrow> time_slot \<Rightarrow> bool result" where
  "slot_eligible job available slot =
     rbind (dt_lt (ts_starts_at slot) (sla_deadline (jb_sla job))) (\<lambda>early.
       if \<not> early then Inr False
       else
         rbind (key_of available string_of_int (ts_index slot)) (\<lambda>free.
           Inr (free \<ge> rr_gpu_count (jb_request job) \<and>
                dmul (rr_power_kw_per_gpu (jb_request job)) (of_int (rr_gpu_count (jb_request job))) \<le> ts_power_capacity_kw slot)))"

definition place_slot :: "job \<Rightarrow> time_slot \<Rightarrow> schedule_state \<Rightarrow> schedule_state result" where
  "place_slot job slot st =
     rbind (key_of (ss_available st) string_of_int (ts_index slot)) (\<lambda>free.
       let r = jb_request job;
           slot_energy = dmul (dmul (rr_power_kw_per_gpu r) (of_int (rr_gpu_count r))) (ts_duration_hours slot)
       in Inr (st\<lparr>ss_available := dput (ts_index slot) (free - rr_gpu_count r) (ss_available st),
                  ss_energy := dadd (ss_energy st) slot_energy,
                  ss_cost := dadd (ss_cost st) (dmul slot_energy (ts_price_per_kwh slot))\<rparr>))"

fun place_slots :: "job \<Rightarrow> time_slot list \<Rightarrow> schedule_state \<Rightarrow> schedule_state result" where
  "place_slots job [] st = Inr st"
| "place_slots job (slot # slots) st = rbind (place_slot job slot st) (place_slots job slots)"

definition selected_slots :: "bool \<Rightarrow> int \<Rightarrow> time_slot list \<Rightarrow> time_slot list" where
  "selected_slots price required candidates =
     sort_key (\<lambda>s. dt_value (ts_starts_at s))
       (py_take required
         (if price then sort_key (\<lambda>s. (ts_price_per_kwh s, dt_value (ts_starts_at s))) candidates
          else sort_key (\<lambda>s. dt_value (ts_starts_at s)) candidates))"

definition schedule_job :: "schedule_input \<Rightarrow> string \<Rightarrow> bool \<Rightarrow> job \<Rightarrow> schedule_state \<Rightarrow> schedule_state result" where
  "schedule_job request strategy price job st =
     (if si_slots request = [] then Inr (st\<lparr>ss_unscheduled := ss_unscheduled st @ [jb_id job]\<rparr>)
      else
        rbind (required_slots request job) (\<lambda>required.
        rbind (rfilter (slot_eligible job (ss_available st)) (si_slots request)) (\<lambda>candidates.
          let selected = selected_slots price required candidates;
              indices = map ts_index selected in
          if int (length selected) \<noteq> required \<or> (\<not> jb_checkpointable job \<and> \<not> consecutive indices)
          then Inr (st\<lparr>ss_unscheduled := ss_unscheduled st @ [jb_id job]\<rparr>)
          else
            rbind (place_slots job selected st) (\<lambda>st.
              Inr (st\<lparr>ss_allocations := ss_allocations st @
                [\<lparr>al_job_id = jb_id job, al_slot_indices = indices,
                  al_gpu_count = rr_gpu_count (jb_request job), al_reason_code = upper strategy\<rparr>]\<rparr>)))))"

fun schedule_jobs :: "schedule_input \<Rightarrow> string \<Rightarrow> bool \<Rightarrow> job list \<Rightarrow> schedule_state \<Rightarrow> schedule_state result" where
  "schedule_jobs request strategy price [] st = Inr st"
| "schedule_jobs request strategy price (job # jobs) st =
     rbind (schedule_job request strategy price job st) (schedule_jobs request strategy price jobs)"

definition schedule_start :: "schedule_input \<Rightarrow> schedule_state" where
  "schedule_start request =
     \<lparr>ss_available = dict_of (map (\<lambda>slot. (ts_index slot, ts_gpu_capacity slot)) (si_slots request)),
      ss_allocations = [], ss_unscheduled = [], ss_cost = 0, ss_energy = 0\<rparr>"

definition schedule_ordered ::
  "(schedule_input \<Rightarrow> string) \<Rightarrow> schedule_input \<Rightarrow> job list \<Rightarrow> string \<Rightarrow> bool \<Rightarrow> schedule_plan result" where
  "schedule_ordered content_hash request ordered_jobs strategy price =
     rbind (schedule_jobs request strategy price ordered_jobs (schedule_start request)) (\<lambda>st.
       let plan = \<lparr>sp_strategy = strategy, sp_allocations = ss_allocations st, sp_unscheduled = ss_unscheduled st,
                   sp_energy_intent_kwh = ss_energy st, sp_estimated_cost = ss_cost st,
                   sp_assumptions = [''deterministic input snapshot''], sp_violations = [],
                   sp_input_hash = content_hash request\<rparr>
       in rbind (validate_plan request plan) (\<lambda>_. Inr plan))"

definition sort_jobs :: "(job \<Rightarrow> int) \<Rightarrow> (job \<Rightarrow> datetime) \<Rightarrow> job list \<Rightarrow> job list result" where
  \<comment> \<open>sorting by (number, datetime, id): two datetimes are compared where the numbers are equal\<close>
  "sort_jobs rank time jobs =
     (if \<exists>a \<in> set jobs. \<exists>b \<in> set jobs. rank a = rank b \<and> is_aware (time a) \<noteq> is_aware (time b)
      then Inl mixed_comparison
      else Inr (sort_key (\<lambda>j. (rank j, dt_value (time j), jb_id j)) jobs))"

definition schedule_fifo :: "(schedule_input \<Rightarrow> string) \<Rightarrow> schedule_input \<Rightarrow> schedule_plan result" where
  "schedule_fifo content_hash request =
     rbind (sort_jobs (\<lambda>_. 0) jb_submitted_at (si_jobs request)) (\<lambda>ordered.
       schedule_ordered content_hash request ordered ''fifo'' False)"

definition schedule_priority_edf :: "(schedule_input \<Rightarrow> string) \<Rightarrow> schedule_input \<Rightarrow> schedule_plan result" where
  "schedule_priority_edf content_hash request =
     rbind (sort_jobs (\<lambda>j. - sla_priority (jb_sla j)) (\<lambda>j. sla_deadline (jb_sla j)) (si_jobs request)) (\<lambda>ordered.
       schedule_ordered content_hash request ordered ''priority_edf'' False)"

definition schedule_price_aware :: "(schedule_input \<Rightarrow> string) \<Rightarrow> schedule_input \<Rightarrow> schedule_plan result" where
  "schedule_price_aware content_hash request =
     rbind (sort_jobs (\<lambda>j. - sla_priority (jb_sla j)) (\<lambda>j. sla_deadline (jb_sla j)) (si_jobs request)) (\<lambda>ordered.
       schedule_ordered content_hash request ordered ''price_aware'' True)"

section \<open>Comparison of plans\<close>

record plan_diff =
  df_added_jobs :: "string set"
  df_removed_jobs :: "string set"
  df_changed_jobs :: "string set"
  df_cost_delta :: decimal
  df_energy_delta_kwh :: decimal

definition slot_map :: "schedule_plan \<Rightarrow> (string, int list) dict" where
  "slot_map plan = dict_of (map (\<lambda>a. (al_job_id a, al_slot_indices a)) (sp_allocations plan))"

definition compare_plans :: "schedule_plan \<Rightarrow> schedule_plan \<Rightarrow> plan_diff" where
  "compare_plans left right =
     (let left_map = slot_map left; right_map = slot_map right;
          left_keys = set (dkeys left_map); right_keys = set (dkeys right_map) in
      \<lparr>df_added_jobs = right_keys - left_keys, df_removed_jobs = left_keys - right_keys,
       df_changed_jobs = {j \<in> left_keys \<inter> right_keys. dget left_map j \<noteq> dget right_map j},
       df_cost_delta = dsub (sp_estimated_cost right) (sp_estimated_cost left),
       df_energy_delta_kwh = dsub (sp_energy_intent_kwh right) (sp_energy_intent_kwh left)\<rparr>)"

section \<open>The validator\<close>

definition wf_slots :: "time_slot list \<Rightarrow> bool" where
  \<comment> \<open>the index of a slot is its position\<close>
  "wf_slots slots \<longleftrightarrow> (\<forall>i < length slots. ts_index (slots ! i) = int i)"

definition in_range :: "time_slot list \<Rightarrow> int \<Rightarrow> bool" where
  "in_range slots i \<longleftrightarrow> 0 \<le> i \<and> i < int (length slots)"

definition slot_dict :: "time_slot list \<Rightarrow> (int \<Rightarrow> 'a) \<Rightarrow> (int, 'a) dict \<Rightarrow> bool" where
  \<comment> \<open>a dictionary with the value \<open>f i\<close> at the index of every slot\<close>
  "slot_dict slots f d \<longleftrightarrow> (\<forall>i. dget d i = (if in_range slots i then Some (f i) else None))"

definition used_gpus :: "allocation list \<Rightarrow> int \<Rightarrow> int" where
  "used_gpus allocations i = (\<Sum>a\<leftarrow>allocations. al_gpu_count a * int (count_list (al_slot_indices a) i))"

lemma used_gpus_simps [simp]:
  "used_gpus [] i = 0"
  "used_gpus (a # as) i = al_gpu_count a * int (count_list (al_slot_indices a) i) + used_gpus as i"
  "used_gpus (as @ bs) i = used_gpus as i + used_gpus bs i"
  by (simp_all add: used_gpus_def)

lemma used_gpus_nonneg: "(\<And>a. a \<in> set as \<Longrightarrow> 0 \<le> al_gpu_count a) \<Longrightarrow> 0 \<le> used_gpus as i"
  by (induction as) auto

lemma slot_dict_get: "slot_dict slots f d \<Longrightarrow> in_range slots i \<Longrightarrow> dget d i = Some (f i)"
  by (simp add: slot_dict_def)

lemma slot_dict_key: "slot_dict slots f d \<Longrightarrow> key_of d s i = Inr v \<longleftrightarrow> in_range slots i \<and> v = f i"
  by (auto simp: slot_dict_def key_of_def)

lemma slot_dict_put:
  "slot_dict slots f d \<Longrightarrow> in_range slots i \<Longrightarrow> slot_dict slots (f(i := v)) (dput i v d)"
  by (simp add: slot_dict_def)

lemma slot_dict_cong: "slot_dict slots f d \<Longrightarrow> (\<And>i. in_range slots i \<Longrightarrow> f i = g i) \<Longrightarrow> slot_dict slots g d"
  by (simp add: slot_dict_def)

lemma py_nth_in_range: "in_range xs i \<Longrightarrow> py_nth xs i = Inr (xs ! nat i)"
  by (simp add: py_nth_def in_range_def)

lemma in_set_nthI: "i < length xs \<Longrightarrow> xs ! i = x \<Longrightarrow> x \<in> set xs"
  by auto

lemma slot_dict_start:
  assumes "wf_slots slots"
  shows "slot_dict slots (\<lambda>i. f (slots ! nat i)) (dict_of (map (\<lambda>s. (ts_index s, f s)) slots))"
  unfolding slot_dict_def
proof
  fix i
  let ?kvs = "map (\<lambda>s. (ts_index s, f s)) slots"
  have keys: "map fst ?kvs = map int [0..<length slots]"
    using assms by (intro nth_equalityI) (auto simp: wf_slots_def)
  have d: "distinct (dkeys ?kvs)" unfolding keys by (simp add: distinct_map inj_on_def)
  have "dget ?kvs i = (if in_range slots i then Some (f (slots ! nat i)) else None)"
  proof (cases "in_range slots i")
    case True
    then have "(i, f (slots ! nat i)) \<in> set ?kvs"
      using assms by (intro in_set_nthI [where i = "nat i"]) (auto simp: in_range_def wf_slots_def)
    then show ?thesis using True dget_distinct_iff [OF d] by simp
  next
    case False
    have "set (dkeys ?kvs) = int ` {0..<length slots}" unfolding keys by simp
    with False have "i \<notin> set (dkeys ?kvs)" by (auto simp: in_range_def)
    then show ?thesis using False by (simp add: dget_None_keys del: set_map)
  qed
  then show "dget (dict_of ?kvs) i = (if in_range slots i then Some (f (slots ! nat i)) else None)"
    by (simp add: dict_of_distinct_id [OF d])
qed

lemma validate_slots_ok:
  assumes "validate_slots slots job g is used = Inr used'" "slot_dict slots f used"
  shows "slot_dict slots (\<lambda>i. f i + g * int (count_list is i)) used' \<and>
    (\<forall>i \<in> set is. in_range slots i \<and> f i + g * int (count_list is i) \<le> ts_gpu_capacity (slots ! nat i) \<and>
       dt_lt (ts_starts_at (slots ! nat i)) (sla_deadline (jb_sla job)) = Inr True)"
  using assms
proof (induction "is" arbitrary: used f)
  case (Cons k rest)
  from Cons.prems have k: "in_range slots k"
    by (auto simp: rbind_eq_Inr slot_dict_key)
  note py_nth_in_range [OF k, simp]
  from Cons.prems k have step: "f k + g \<le> ts_gpu_capacity (slots ! nat k)"
    "dt_ge (ts_starts_at (slots ! nat k)) (sla_deadline (jb_sla job)) = Inr False"
    "validate_slots slots job g rest (dput k (f k + g) used) = Inr used'"
    by (auto simp: rbind_eq_Inr slot_dict_key Let_def split: if_splits)
  note IH = Cons.IH [OF step(3) slot_dict_put [OF Cons.prems(2) k]]
  have eq: "(f(k := f k + g)) i + g * int (count_list rest i) = f i + g * int (count_list (k # rest) i)" for i
    by (simp add: algebra_simps)
  have "k \<in> set rest \<or> count_list rest k = 0" by (cases "k \<in> set rest") (simp_all add: count_notin)
  then have "f k + g * int (count_list (k # rest) k) \<le> ts_gpu_capacity (slots ! nat k)"
    using conjunct2 [OF IH] step(1) unfolding eq by auto
  then show ?case
    using IH k step(2) unfolding eq by (auto simp: dt_lt_ge)
qed simp

lemma validate_slots_complete:
  assumes "slot_dict slots f used" "0 \<le> g"
    and "\<And>i. i \<in> set is \<Longrightarrow> in_range slots i \<and> f i + g * int (count_list is i) \<le> ts_gpu_capacity (slots ! nat i) \<and>
       dt_lt (ts_starts_at (slots ! nat i)) (sla_deadline (jb_sla job)) = Inr True"
  shows "\<exists>used'. validate_slots slots job g is used = Inr used'"
  using assms
proof (induction "is" arbitrary: used f)
  case (Cons k rest)
  from Cons.prems(3) [of k] have k: "in_range slots k"
    and cap: "f k + g * int (count_list (k # rest) k) \<le> ts_gpu_capacity (slots ! nat k)"
    and late: "dt_ge (ts_starts_at (slots ! nat k)) (sla_deadline (jb_sla job)) = Inr False"
    by (simp_all add: dt_lt_ge)
  have eq: "(f(k := f k + g)) i + g * int (count_list rest i) = f i + g * int (count_list (k # rest) i)" for i
    by (simp add: algebra_simps)
  have "\<exists>used'. validate_slots slots job g rest (dput k (f k + g) used) = Inr used'"
    by (rule Cons.IH [OF slot_dict_put [OF Cons.prems(1) k] Cons.prems(2)])
      (unfold eq, rule Cons.prems(3), simp)
  moreover have "f k + g \<le> ts_gpu_capacity (slots ! nat k)"
  proof -
    have "0 \<le> g * int (count_list rest k)" using Cons.prems(2) by simp
    then show ?thesis using cap by (simp add: algebra_simps)
  qed
  moreover have "key_of used string_of_int k = Inr (f k)" using Cons.prems(1) k by (simp add: slot_dict_key)
  ultimately show ?case
    using k late by (simp add: py_nth_in_range Let_def)
qed simp

definition allocation_valid :: "schedule_input \<Rightarrow> allocation list \<Rightarrow> allocation \<Rightarrow> bool" where
  \<comment> \<open>the job exists, and every slot exists, starts before the deadline and holds all GPUs placed in it\<close>
  "allocation_valid request allocations a \<longleftrightarrow>
     (\<exists>job \<in> set (si_jobs request). jb_id job = al_job_id a \<and>
        (\<forall>i \<in> set (al_slot_indices a). in_range (si_slots request) i \<and>
           used_gpus allocations i \<le> ts_gpu_capacity (si_slots request ! nat i) \<and>
           dt_lt (ts_starts_at (si_slots request ! nat i)) (sla_deadline (jb_sla job)) = Inr True))"

definition job_dict :: "job list \<Rightarrow> (string, job) dict" where
  "job_dict jobs = dict_of (map (\<lambda>job. (jb_id job, job)) jobs)"

lemma dget_job_dict:
  assumes "distinct (map jb_id jobs)"
  shows "dget (job_dict jobs) k = Some job \<longleftrightarrow> job \<in> set jobs \<and> jb_id job = k"
proof -
  have d: "distinct (dkeys (map (\<lambda>job. (jb_id job, job)) jobs))" using assms by (simp add: comp_def)
  show ?thesis unfolding job_dict_def dict_of_distinct_id [OF d] dget_distinct_iff [OF d, symmetric] by auto
qed

lemma validate_allocations_ok:
  assumes "validate_allocations slots jobs as allocated used = Inr ()" "slot_dict slots f used"
    and "\<And>k job. dget jobs k = Some job \<Longrightarrow> job \<in> J \<and> jb_id job = k"
  shows "distinct (map al_job_id as) \<and> set (map al_job_id as) \<inter> allocated = {} \<and>
    (\<forall>a \<in> set as. \<exists>job \<in> J. jb_id job = al_job_id a \<and>
       (\<forall>i \<in> set (al_slot_indices a). in_range slots i \<and> f i + used_gpus as i \<le> ts_gpu_capacity (slots ! nat i) \<and>
          dt_lt (ts_starts_at (slots ! nat i)) (sla_deadline (jb_sla job)) = Inr True))"
  using assms(1,2)
proof (induction as arbitrary: allocated used f)
  case (Cons a as)
  from Cons.prems(1) obtain job used' where job: "dget jobs (al_job_id a) = Some job"
    and slots: "validate_slots slots job (al_gpu_count a) (al_slot_indices a) used = Inr used'"
    and rest: "validate_allocations slots jobs as (insert (al_job_id a) allocated) used' = Inr ()"
    and new: "al_job_id a \<notin> allocated"
    by (auto simp: rbind_eq_Inr key_of_def split: if_splits option.splits)
  note S = validate_slots_ok [OF slots Cons.prems(2)]
  note IH = Cons.IH [OF rest conjunct1 [OF S]]
  have eq: "f i + al_gpu_count a * int (count_list (al_slot_indices a) i) + used_gpus as i = f i + used_gpus (a # as) i" for i
    by simp
  have capacity: "f i + used_gpus (a # as) i \<le> ts_gpu_capacity (slots ! nat i)" if "i \<in> set (al_slot_indices a)" for i
  proof (cases "\<exists>b \<in> set as. i \<in> set (al_slot_indices b)")
    case True
    then show ?thesis using conjunct2 [OF conjunct2 [OF IH]] unfolding eq by blast
  next
    case False
    then have "used_gpus as i = 0" by (induction as) (auto simp: count_notin)
    then show ?thesis using conjunct2 [OF S] that by simp
  qed
  have head: "\<exists>job \<in> J. jb_id job = al_job_id a \<and>
      (\<forall>i \<in> set (al_slot_indices a). in_range slots i \<and> f i + used_gpus (a # as) i \<le> ts_gpu_capacity (slots ! nat i) \<and>
         dt_lt (ts_starts_at (slots ! nat i)) (sla_deadline (jb_sla job)) = Inr True)"
    using assms(3) [OF job] capacity conjunct2 [OF S] by blast
  have rest': "\<forall>a' \<in> set as. \<exists>job \<in> J. jb_id job = al_job_id a' \<and>
      (\<forall>i \<in> set (al_slot_indices a'). in_range slots i \<and> f i + used_gpus (a # as) i \<le> ts_gpu_capacity (slots ! nat i) \<and>
         dt_lt (ts_starts_at (slots ! nat i)) (sla_deadline (jb_sla job)) = Inr True)"
    using conjunct2 [OF conjunct2 [OF IH]] unfolding eq .
  show ?case
    using head rest' new conjunct1 [OF IH] conjunct1 [OF conjunct2 [OF IH]] by (auto simp del: used_gpus_simps)
qed simp

lemma validate_allocations_complete:
  assumes "slot_dict slots f used" "\<And>a. a \<in> set as \<Longrightarrow> 0 \<le> al_gpu_count a"
    and "distinct (map al_job_id as)" "set (map al_job_id as) \<inter> allocated = {}"
    and "\<And>a. a \<in> set as \<Longrightarrow> \<exists>job. dget jobs (al_job_id a) = Some job \<and>
       (\<forall>i \<in> set (al_slot_indices a). in_range slots i \<and> f i + used_gpus as i \<le> ts_gpu_capacity (slots ! nat i) \<and>
          dt_lt (ts_starts_at (slots ! nat i)) (sla_deadline (jb_sla job)) = Inr True)"
  shows "validate_allocations slots jobs as allocated used = Inr ()"
  using assms
proof (induction as arbitrary: allocated used f)
  case (Cons a as)
  from Cons.prems(5) [of a] obtain job where job: "dget jobs (al_job_id a) = Some job"
    and ok: "\<And>i. i \<in> set (al_slot_indices a) \<Longrightarrow> in_range slots i \<and> f i + used_gpus (a # as) i \<le> ts_gpu_capacity (slots ! nat i) \<and>
          dt_lt (ts_starts_at (slots ! nat i)) (sla_deadline (jb_sla job)) = Inr True" by auto
  have nonneg: "0 \<le> used_gpus as i" for i by (rule used_gpus_nonneg) (simp add: Cons.prems(2))
  have "\<exists>used'. validate_slots slots job (al_gpu_count a) (al_slot_indices a) used = Inr used'"
  proof (rule validate_slots_complete [OF Cons.prems(1)])
    show "0 \<le> al_gpu_count a" by (simp add: Cons.prems(2))
    fix i assume "i \<in> set (al_slot_indices a)"
    then show "in_range slots i \<and> f i + al_gpu_count a * int (count_list (al_slot_indices a) i) \<le> ts_gpu_capacity (slots ! nat i) \<and>
        dt_lt (ts_starts_at (slots ! nat i)) (sla_deadline (jb_sla job)) = Inr True"
      using ok [of i] nonneg [of i] by simp
  qed
  then obtain used' where used': "validate_slots slots job (al_gpu_count a) (al_slot_indices a) used = Inr used'" ..
  note S = conjunct1 [OF validate_slots_ok [OF used' Cons.prems(1)]]
  have "validate_allocations slots jobs as (insert (al_job_id a) allocated) used' = Inr ()"
  proof (rule Cons.IH [OF S])
    show "0 \<le> al_gpu_count b" if "b \<in> set as" for b using Cons.prems(2) that by simp
    show "distinct (map al_job_id as)" "set (map al_job_id as) \<inter> insert (al_job_id a) allocated = {}"
      using Cons.prems(3,4) by auto
    fix b assume "b \<in> set as"
    then show "\<exists>job. dget jobs (al_job_id b) = Some job \<and>
        (\<forall>i \<in> set (al_slot_indices b). in_range slots i \<and>
           f i + al_gpu_count a * int (count_list (al_slot_indices a) i) + used_gpus as i \<le> ts_gpu_capacity (slots ! nat i) \<and>
           dt_lt (ts_starts_at (slots ! nat i)) (sla_deadline (jb_sla job)) = Inr True)"
      using Cons.prems(5) [of b] by (simp add: add.assoc)
  qed
  then show ?case using job used' Cons.prems(4) by (simp add: key_of_def)
qed simp

lemma validate_plan_iff:
  assumes "wf_slots (si_slots request)" "distinct (map jb_id (si_jobs request))"
    and "\<And>a. a \<in> set (sp_allocations plan) \<Longrightarrow> 0 \<le> al_gpu_count a"
  shows "validate_plan request plan = Inr () \<longleftrightarrow>
    distinct (map al_job_id (sp_allocations plan)) \<and>
    (\<forall>a \<in> set (sp_allocations plan). allocation_valid request (sp_allocations plan) a)"
proof -
  have start: "slot_dict (si_slots request) (\<lambda>i. 0) (dict_of (map (\<lambda>slot. (ts_index slot, 0)) (si_slots request)))"
    using slot_dict_start [OF assms(1), of "\<lambda>_. 0"] by simp
  show ?thesis
    unfolding validate_plan_def job_dict_def [symmetric]
  proof
    assume ok: "validate_allocations (si_slots request) (job_dict (si_jobs request)) (sp_allocations plan) {}
      (dict_of (map (\<lambda>slot. (ts_index slot, 0)) (si_slots request))) = Inr ()"
    show "distinct (map al_job_id (sp_allocations plan)) \<and>
      (\<forall>a \<in> set (sp_allocations plan). allocation_valid request (sp_allocations plan) a)"
      using validate_allocations_ok [OF ok start, of "set (si_jobs request)"] dget_job_dict [OF assms(2)]
      by (auto simp: allocation_valid_def)
  next
    assume "distinct (map al_job_id (sp_allocations plan)) \<and>
      (\<forall>a \<in> set (sp_allocations plan). allocation_valid request (sp_allocations plan) a)"
    then show "validate_allocations (si_slots request) (job_dict (si_jobs request)) (sp_allocations plan) {}
      (dict_of (map (\<lambda>slot. (ts_index slot, 0)) (si_slots request))) = Inr ()"
      by (intro validate_allocations_complete [OF start assms(3)])
        (auto simp: allocation_valid_def dget_job_dict [OF assms(2)])
  qed
qed

section \<open>The list schedulers meet the validator\<close>

definition wf_schedule :: "schedule_input \<Rightarrow> bool" where
  \<comment> \<open>slots numbered by position and of a length, distinct jobs with checked requests, comparable datetimes\<close>
  "wf_schedule request \<longleftrightarrow> wf_slots (si_slots request) \<and> distinct (map jb_id (si_jobs request)) \<and>
     (\<forall>s \<in> set (si_slots request). ts_duration_hours s \<noteq> 0 \<and> is_aware (ts_starts_at s)) \<and>
     (\<forall>j \<in> set (si_jobs request). valid_job j \<and> is_aware (sla_deadline (jb_sla j)) \<and> is_aware (jb_submitted_at j))"

definition placement_ok :: "schedule_input \<Rightarrow> job \<Rightarrow> allocation \<Rightarrow> bool" where
  \<comment> \<open>an allocation gives the job the slots it needs: enough of them, in time, with enough power, and
      next to each other unless the job can be interrupted\<close>
  "placement_ok request job a \<longleftrightarrow>
     al_job_id a = jb_id job \<and> al_gpu_count a = rr_gpu_count (jb_request job) \<and>
     distinct (al_slot_indices a) \<and> required_slots request job = Inr (int (length (al_slot_indices a))) \<and>
     (jb_checkpointable job \<or> consecutive (al_slot_indices a)) \<and>
     (\<forall>i \<in> set (al_slot_indices a). in_range (si_slots request) i \<and>
        dt_lt (ts_starts_at (si_slots request ! nat i)) (sla_deadline (jb_sla job)) = Inr True \<and>
        dmul (rr_power_kw_per_gpu (jb_request job)) (of_int (rr_gpu_count (jb_request job)))
          \<le> ts_power_capacity_kw (si_slots request ! nat i))"

definition fits :: "schedule_input \<Rightarrow> allocation list \<Rightarrow> bool" where
  "fits request as \<longleftrightarrow>
     (\<forall>a \<in> set as. \<forall>i \<in> set (al_slot_indices a). used_gpus as i \<le> ts_gpu_capacity (si_slots request ! nat i))"

lemma set_py_take: "set (py_take n xs) \<subseteq> set xs"
  by (auto simp: py_take_def dest: in_set_takeD)

lemma distinct_py_take: "distinct (map f xs) \<Longrightarrow> distinct (map f (py_take n xs))"
  by (simp add: py_take_def take_map [symmetric])

lemma set_selected_slots: "set (selected_slots price required candidates) \<subseteq> set candidates"
  using set_py_take [of required "sort_key (\<lambda>s. (ts_price_per_kwh s, dt_value (ts_starts_at s))) candidates"]
    set_py_take [of required "sort_key (\<lambda>s. dt_value (ts_starts_at s)) candidates"]
  by (simp add: selected_slots_def)

lemma distinct_map_sort_key [simp]: "distinct (map f (sort_key k xs)) = distinct (map f xs)"
  by (simp add: distinct_map)

lemma distinct_selected_slots:
  "distinct (map f candidates) \<Longrightarrow> distinct (map f (selected_slots price required candidates))"
  by (simp add: selected_slots_def distinct_py_take)

lemma place_slots_dict:
  assumes "slot_dict slots f (ss_available st)" "\<And>s. s \<in> set selected \<Longrightarrow> in_range slots (ts_index s)"
  shows "\<exists>st'. place_slots job selected st = Inr st' \<and> ss_allocations st' = ss_allocations st \<and>
    ss_unscheduled st' = ss_unscheduled st \<and>
    slot_dict slots (\<lambda>i. f i - rr_gpu_count (jb_request job) * int (count_list (map ts_index selected) i)) (ss_available st')"
  using assms
proof (induction selected arbitrary: st f)
  case (Cons s selected)
  have s: "in_range slots (ts_index s)" by (simp add: Cons.prems(2))
  have key: "key_of (ss_available st) string_of_int (ts_index s) = Inr (f (ts_index s))"
    using Cons.prems(1) s by (simp add: slot_dict_key)
  obtain st1 where st1: "place_slot job s st = Inr st1" "ss_allocations st1 = ss_allocations st"
    "ss_unscheduled st1 = ss_unscheduled st"
    "ss_available st1 = dput (ts_index s) (f (ts_index s) - rr_gpu_count (jb_request job)) (ss_available st)"
    by (simp add: place_slot_def key Let_def)
  have "slot_dict slots (f(ts_index s := f (ts_index s) - rr_gpu_count (jb_request job))) (ss_available st1)"
    unfolding st1(4) by (rule slot_dict_put [OF Cons.prems(1) s])
  from Cons.IH [OF this] Cons.prems(2) obtain st' where st': "place_slots job selected st1 = Inr st'"
    "ss_allocations st' = ss_allocations st1" "ss_unscheduled st' = ss_unscheduled st1"
    "slot_dict slots (\<lambda>i. (f(ts_index s := f (ts_index s) - rr_gpu_count (jb_request job))) i -
       rr_gpu_count (jb_request job) * int (count_list (map ts_index selected) i)) (ss_available st')"
    by auto
  have "slot_dict slots (\<lambda>i. f i - rr_gpu_count (jb_request job) * int (count_list (map ts_index (s # selected)) i)) (ss_available st')"
    by (rule slot_dict_cong [OF st'(4)]) (simp add: algebra_simps)
  then show ?case using st' st1 by simp
qed simp

definition schedule_inv :: "schedule_input \<Rightarrow> job list \<Rightarrow> schedule_state \<Rightarrow> bool" where
  "schedule_inv request done st \<longleftrightarrow>
     slot_dict (si_slots request) (\<lambda>i. ts_gpu_capacity (si_slots request ! nat i) - used_gpus (ss_allocations st) i) (ss_available st) \<and>
     (\<forall>a \<in> set (ss_allocations st). \<exists>job \<in> set done. placement_ok request job a) \<and>
     fits request (ss_allocations st) \<and>
     mset (map al_job_id (ss_allocations st) @ ss_unscheduled st) = mset (map jb_id done)"

lemma schedule_inv_dict:
  "schedule_inv request done st \<Longrightarrow>
     slot_dict (si_slots request) (\<lambda>i. ts_gpu_capacity (si_slots request ! nat i) - used_gpus (ss_allocations st) i) (ss_available st)"
  by (simp add: schedule_inv_def)

lemma schedule_inv_skip:
  "schedule_inv request done st \<Longrightarrow>
     schedule_inv request (done @ [job]) (st\<lparr>ss_unscheduled := ss_unscheduled st @ [jb_id job]\<rparr>)"
  by (auto simp: schedule_inv_def)

lemma slot_at_index:
  assumes "wf_slots slots" "s \<in> set slots"
  shows "in_range slots (ts_index s)" "slots ! nat (ts_index s) = s"
  using assms by (auto simp: wf_slots_def in_range_def in_set_conv_nth)

lemma distinct_indices:
  assumes "wf_slots slots"
  shows "distinct (map ts_index slots)"
proof -
  have "map ts_index slots = map int [0..<length slots]"
    using assms by (intro nth_equalityI) (auto simp: wf_slots_def)
  then show ?thesis by (simp add: distinct_map inj_on_def)
qed

lemma required_slots_total:
  "wf_schedule request \<Longrightarrow> si_slots request \<noteq> [] \<Longrightarrow> \<exists>n. required_slots request job = Inr n"
  by (auto simp: required_slots_def ddiv_def wf_schedule_def)

lemma slot_eligible_iff:
  assumes "slot_dict slots f available" "in_range slots (ts_index s)"
  shows "slot_eligible job available s = Inr True \<longleftrightarrow>
    dt_lt (ts_starts_at s) (sla_deadline (jb_sla job)) = Inr True \<and> rr_gpu_count (jb_request job) \<le> f (ts_index s) \<and>
    dmul (rr_power_kw_per_gpu (jb_request job)) (of_int (rr_gpu_count (jb_request job))) \<le> ts_power_capacity_kw s"
proof -
  have "key_of available string_of_int (ts_index s) = Inr (f (ts_index s))"
    using assms by (simp add: slot_dict_key)
  then show ?thesis by (auto simp: slot_eligible_def rbind_eq_Inr)
qed

lemma slot_eligible_total:
  assumes "slot_dict slots f available" "in_range slots (ts_index s)"
    and "is_aware (ts_starts_at s)" "is_aware (sla_deadline (jb_sla job))"
  shows "is_ok (slot_eligible job available s)"
proof -
  have "key_of available string_of_int (ts_index s) = Inr (f (ts_index s))"
    using assms by (simp add: slot_dict_key)
  moreover obtain b where "dt_lt (ts_starts_at s) (sla_deadline (jb_sla job)) = Inr b"
    using assms(3,4) by (cases "ts_starts_at s"; cases "sla_deadline (jb_sla job)") (auto simp: dt_lt_def)
  ultimately show ?thesis by (simp add: slot_eligible_def)
qed

lemma count_list_distinct: "distinct xs \<Longrightarrow> count_list xs x = (if x \<in> set xs then 1 else 0)"
  by (induction xs) auto

lemma fits_append:
  assumes "fits request as" "0 \<le> al_gpu_count a" "\<And>b. b \<in> set as \<Longrightarrow> 0 \<le> al_gpu_count b" "distinct (al_slot_indices a)"
    and "\<And>i. i \<in> set (al_slot_indices a) \<Longrightarrow> used_gpus as i + al_gpu_count a \<le> ts_gpu_capacity (si_slots request ! nat i)"
  shows "fits request (as @ [a])"
  unfolding fits_def
proof (intro ballI)
  fix b i assume b: "b \<in> set (as @ [a])" and i: "i \<in> set (al_slot_indices b)"
  have count: "count_list (al_slot_indices a) i = (if i \<in> set (al_slot_indices a) then 1 else 0)"
    by (rule count_list_distinct [OF assms(4)])
  show "used_gpus (as @ [a]) i \<le> ts_gpu_capacity (si_slots request ! nat i)"
  proof (cases "i \<in> set (al_slot_indices a)")
    case True
    then show ?thesis using assms(5) [OF True] count by simp
  next
    case False
    then have "b \<in> set as" using b i by auto
    then show ?thesis using assms(1) i False count by (simp add: fits_def)
  qed
qed

lemma schedule_job_inv:
  assumes wf: "wf_schedule request" and inv: "schedule_inv request done st"
    and job: "job \<in> set (si_jobs request)" and "set done \<subseteq> set (si_jobs request)"
  shows "\<exists>st'. schedule_job request strategy price job st = Inr st' \<and> schedule_inv request (done @ [job]) st'"
proof (cases "si_slots request = []")
  case True
  then show ?thesis using schedule_inv_skip [OF inv] by (simp add: schedule_job_def)
next
  case False
  let ?slots = "si_slots request" and ?g = "rr_gpu_count (jb_request job)"
  have ws: "wf_slots ?slots" using wf by (simp add: wf_schedule_def)
  note dict = schedule_inv_dict [OF inv]
  obtain required where required: "required_slots request job = Inr required"
    using required_slots_total [OF wf False] by blast
  have "\<exists>cs. rfilter (slot_eligible job (ss_available st)) ?slots = Inr cs"
    using wf job by (intro rfilter_total slot_eligible_total [OF dict] slot_at_index(1) [OF ws]) (auto simp: wf_schedule_def)
  then obtain cs where cs: "rfilter (slot_eligible job (ss_available st)) ?slots = Inr cs" ..
  let ?sel = "selected_slots price required cs"
  have sub: "s \<in> set ?slots \<and> slot_eligible job (ss_available st) s = Inr True" if "s \<in> set ?sel" for s
    using that set_selected_slots [of price required cs] rfilter_ok [OF cs] by auto
  have elig: "in_range ?slots (ts_index s) \<and> ?slots ! nat (ts_index s) = s \<and>
      dt_lt (ts_starts_at s) (sla_deadline (jb_sla job)) = Inr True \<and>
      used_gpus (ss_allocations st) (ts_index s) + ?g \<le> ts_gpu_capacity s \<and>
      dmul (rr_power_kw_per_gpu (jb_request job)) (of_int ?g) \<le> ts_power_capacity_kw s" if "s \<in> set ?sel" for s
    using sub [OF that] slot_at_index [OF ws, of s] slot_eligible_iff [OF dict, of s job] by auto
  show ?thesis
  proof (cases "int (length ?sel) \<noteq> required \<or> (\<not> jb_checkpointable job \<and> \<not> consecutive (map ts_index ?sel))")
    case True
    then show ?thesis using schedule_inv_skip [OF inv] required cs False by (auto simp: schedule_job_def Let_def)
  next
    case placed: False
    let ?a = "\<lparr>al_job_id = jb_id job, al_slot_indices = map ts_index ?sel, al_gpu_count = ?g, al_reason_code = upper strategy\<rparr>"
    obtain st1 where st1: "place_slots job ?sel st = Inr st1" "ss_allocations st1 = ss_allocations st"
      "ss_unscheduled st1 = ss_unscheduled st"
      "slot_dict ?slots (\<lambda>i. ts_gpu_capacity (?slots ! nat i) - used_gpus (ss_allocations st) i - ?g * int (count_list (map ts_index ?sel) i)) (ss_available st1)"
      using place_slots_dict [OF dict, of ?sel job] elig by blast
    have dist: "distinct (map ts_index ?sel)"
      unfolding rfilter_ok [OF cs] by (intro distinct_selected_slots distinct_map_filter distinct_indices [OF ws])
    have g: "0 \<le> ?g" using wf job by (auto simp: wf_schedule_def valid_job_def check_resource_request_def split: if_splits)
    have gs: "0 \<le> al_gpu_count b" if "b \<in> set (ss_allocations st)" for b
      using that inv assms(4) wf
      by (fastforce simp: schedule_inv_def placement_ok_def wf_schedule_def valid_job_def check_resource_request_def split: if_splits)
    have ok: "placement_ok request job ?a"
      using placed required dist elig by (auto simp: placement_ok_def)
    have fits: "fits request (ss_allocations st @ [?a])"
    proof (rule fits_append)
      show "fits request (ss_allocations st)" using inv by (simp add: schedule_inv_def)
      fix i assume "i \<in> set (al_slot_indices ?a)"
      then obtain s where "s \<in> set ?sel" "i = ts_index s" by auto
      then show "used_gpus (ss_allocations st) i + al_gpu_count ?a \<le> ts_gpu_capacity (?slots ! nat i)"
        using elig by simp
    qed (use g gs dist in simp_all)
    have "schedule_inv request (done @ [job]) (st1\<lparr>ss_allocations := ss_allocations st1 @ [?a]\<rparr>)"
      unfolding schedule_inv_def
    proof (intro conjI)
      show "slot_dict ?slots (\<lambda>i. ts_gpu_capacity (?slots ! nat i) - used_gpus (ss_allocations (st1\<lparr>ss_allocations := ss_allocations st1 @ [?a]\<rparr>)) i)
          (ss_available (st1\<lparr>ss_allocations := ss_allocations st1 @ [?a]\<rparr>))"
        using slot_dict_cong [OF st1(4)] st1(2) by simp
      show "\<forall>a \<in> set (ss_allocations (st1\<lparr>ss_allocations := ss_allocations st1 @ [?a]\<rparr>)). \<exists>job \<in> set (done @ [job]). placement_ok request job a"
        using inv ok st1(2) by (auto simp: schedule_inv_def)
      show "fits request (ss_allocations (st1\<lparr>ss_allocations := ss_allocations st1 @ [?a]\<rparr>))"
        using fits st1(2) by simp
      show "mset (map al_job_id (ss_allocations (st1\<lparr>ss_allocations := ss_allocations st1 @ [?a]\<rparr>)) @
          ss_unscheduled (st1\<lparr>ss_allocations := ss_allocations st1 @ [?a]\<rparr>)) = mset (map jb_id (done @ [job]))"
        using inv st1(2,3) by (simp add: schedule_inv_def)
    qed
    then show ?thesis using required cs False placed st1 by (auto simp: schedule_job_def Let_def)
  qed
qed

lemma schedule_jobs_inv:
  assumes "wf_schedule request" "schedule_inv request done st"
    and "set done \<union> set jobs \<subseteq> set (si_jobs request)"
  shows "\<exists>st'. schedule_jobs request strategy price jobs st = Inr st' \<and> schedule_inv request (done @ jobs) st'"
  using assms(2,3)
proof (induction jobs arbitrary: "done" st)
  case (Cons job jobs)
  from schedule_job_inv [OF assms(1) Cons.prems(1), of job strategy price] Cons.prems(2)
  obtain st1 where st1: "schedule_job request strategy price job st = Inr st1" "schedule_inv request (done @ [job]) st1"
    by auto
  from Cons.IH [OF st1(2)] Cons.prems(2) st1(1) show ?case by simp
qed simp

lemma schedule_ordered_sound:
  assumes wf: "wf_schedule request" and perm: "mset ordered = mset (si_jobs request)"
  shows "\<exists>plan. schedule_ordered content_hash request ordered strategy price = Inr plan \<and>
    mset (map al_job_id (sp_allocations plan) @ sp_unscheduled plan) = mset (map jb_id (si_jobs request)) \<and>
    (\<forall>a \<in> set (sp_allocations plan). \<exists>job \<in> set (si_jobs request). placement_ok request job a) \<and>
    fits request (sp_allocations plan) \<and> validate_plan request plan = Inr ()"
proof -
  have set: "set ordered = set (si_jobs request)" using perm by (rule mset_eq_setD)
  have ws: "wf_slots (si_slots request)" and dist: "distinct (map jb_id (si_jobs request))"
    using wf by (simp_all add: wf_schedule_def)
  have "schedule_inv request [] (schedule_start request)"
    using slot_dict_start [OF ws, of ts_gpu_capacity] by (simp add: schedule_inv_def schedule_start_def fits_def)
  from schedule_jobs_inv [OF wf this, of ordered strategy price] set
  obtain st where st: "schedule_jobs request strategy price ordered (schedule_start request) = Inr st"
    and inv: "schedule_inv request ordered st" by auto
  define plan where "plan = \<lparr>sp_strategy = strategy, sp_allocations = ss_allocations st, sp_unscheduled = ss_unscheduled st,
    sp_energy_intent_kwh = ss_energy st, sp_estimated_cost = ss_cost st,
    sp_assumptions = [''deterministic input snapshot''], sp_violations = [], sp_input_hash = content_hash request\<rparr>"
  have m: "mset (map al_job_id (sp_allocations plan) @ sp_unscheduled plan) = mset (map jb_id (si_jobs request))"
  proof -
    have "mset (map jb_id ordered) = mset (map jb_id (si_jobs request))" using perm by simp
    then show ?thesis using inv by (simp add: schedule_inv_def plan_def)
  qed
  have p: "\<forall>a \<in> set (sp_allocations plan). \<exists>job \<in> set (si_jobs request). placement_ok request job a"
    using inv set by (simp add: schedule_inv_def plan_def)
  have f: "fits request (sp_allocations plan)" using inv by (simp add: schedule_inv_def plan_def)
  have "distinct (map al_job_id (sp_allocations plan) @ sp_unscheduled plan)"
    using dist m by (metis mset_eq_imp_distinct_iff)
  moreover have "0 \<le> al_gpu_count a" if "a \<in> set (sp_allocations plan)" for a
    using p that wf
    by (fastforce simp: placement_ok_def wf_schedule_def valid_job_def check_resource_request_def split: if_splits)
  moreover have "allocation_valid request (sp_allocations plan) a" if a: "a \<in> set (sp_allocations plan)" for a
  proof -
    from p a obtain job where "job \<in> set (si_jobs request)" "placement_ok request job a" by blast
    then show ?thesis using f a unfolding allocation_valid_def
      by (intro bexI [of _ job]) (auto simp: placement_ok_def fits_def)
  qed
  ultimately have v: "validate_plan request plan = Inr ()"
    by (subst validate_plan_iff [OF ws dist]) auto
  have "schedule_ordered content_hash request ordered strategy price = Inr plan"
    using st v by (simp add: schedule_ordered_def Let_def plan_def)
  then show ?thesis using m p f v by blast
qed

lemma sort_jobs_total:
  assumes "\<And>j. j \<in> set jobs \<Longrightarrow> is_aware (time j)"
  shows "\<exists>ordered. sort_jobs rank time jobs = Inr ordered \<and> mset ordered = mset jobs"
  using assms by (auto simp: sort_jobs_def)

lemma strategies_sorted:
  assumes "wf_schedule request" "strategy \<in> {schedule_fifo, schedule_priority_edf, schedule_price_aware}"
  shows "\<exists>ordered name price. strategy content_hash request = schedule_ordered content_hash request ordered name price \<and>
    mset ordered = mset (si_jobs request)"
proof -
  have "\<exists>ordered. sort_jobs (\<lambda>_. 0) jb_submitted_at (si_jobs request) = Inr ordered \<and> mset ordered = mset (si_jobs request)"
    using assms(1) by (intro sort_jobs_total) (simp add: wf_schedule_def)
  moreover have "\<exists>ordered. sort_jobs (\<lambda>j. - sla_priority (jb_sla j)) (\<lambda>j. sla_deadline (jb_sla j)) (si_jobs request) = Inr ordered
      \<and> mset ordered = mset (si_jobs request)"
    using assms(1) by (intro sort_jobs_total) (simp add: wf_schedule_def)
  moreover have "strategy = schedule_fifo \<or> strategy = schedule_priority_edf \<or> strategy = schedule_price_aware"
    using assms(2) by simp
  ultimately show ?thesis
    by (elim disjE exE conjE) (force simp: schedule_fifo_def schedule_priority_edf_def schedule_price_aware_def)+
qed

text \<open>
  C14: On a well-formed request each of the three list schedulers returns a plan. Every job is either
  allocated or listed as unscheduled, and only once; an allocated job has exactly the number of slots that
  its estimated hours take, all of them before its deadline and with enough power, next to each other
  unless the job can be interrupted; no slot is given more GPUs than it has; and the validator accepts
  the plan.
\<close>
theorem list_schedulers_sound:
  assumes "wf_schedule request" "strategy \<in> {schedule_fifo, schedule_priority_edf, schedule_price_aware}"
  shows "\<exists>plan. strategy content_hash request = Inr plan \<and>
    mset (map al_job_id (sp_allocations plan) @ sp_unscheduled plan) = mset (map jb_id (si_jobs request)) \<and>
    (\<forall>a \<in> set (sp_allocations plan). \<exists>job \<in> set (si_jobs request). placement_ok request job a) \<and>
    fits request (sp_allocations plan) \<and> validate_plan request plan = Inr ()"
  using strategies_sorted [OF assms, of content_hash] schedule_ordered_sound [OF assms(1)] by metis

definition example_job :: "string \<Rightarrow> int \<Rightarrow> decimal \<Rightarrow> job" where
  "example_job i gpus hours =
     \<lparr>jb_id = i, jb_tenant_id = ''t1'', jb_project_id = ''p1'', jb_workload_class = TRAINING,
      jb_request = \<lparr>rr_gpu_count = gpus, rr_gpu_model = None, rr_cpu_cores = 1, rr_memory_gb = 1,
                    rr_estimated_hours = hours, rr_power_kw_per_gpu = 1\<rparr>,
      jb_sla = \<lparr>sla_deadline = Aware 100, sla_priority = 50, sla_max_latency_ms = None, sla_availability_target = None\<rparr>,
      jb_submitted_at = Aware 0, jb_allowed_sites = {''s1''}, jb_data_regions = {}, jb_dependencies = {},
      jb_checkpointable = True, jb_labels = []\<rparr>"

definition example_slot :: "int \<Rightarrow> int \<Rightarrow> decimal \<Rightarrow> decimal \<Rightarrow> time_slot" where
  "example_slot i gpus kw price =
     \<lparr>ts_index = i, ts_starts_at = Aware i, ts_duration_hours = 1, ts_gpu_capacity = gpus,
      ts_power_capacity_kw = kw, ts_price_per_kwh = price, ts_carbon_kg_per_kwh = 0\<rparr>"

definition example_request :: "job list \<Rightarrow> time_slot list \<Rightarrow> schedule_input" where
  "example_request jobs slots =
     \<lparr>si_jobs = jobs, si_slots = slots, si_topology_version = 1, si_forecast_version = ''f1'', si_baseline_name = ''none''\<rparr>"

definition two_jobs :: schedule_input where
  "two_jobs = example_request [example_job ''a'' 2 1, example_job ''b'' 3 1] [example_slot 0 4 9 5, example_slot 1 4 9 3]"

lemma two_jobs_wf: "wf_schedule two_jobs"
  by (simp add: two_jobs_def example_request_def example_job_def example_slot_def wf_schedule_def wf_slots_def
      valid_job_def check_resource_request_def check_sla_def nth_Cons' less_Suc_eq numeral_2_eq_2)

theorem list_schedulers_sound_witness:
  "\<exists>plan. schedule_price_aware (\<lambda>_. ''digest'') two_jobs = Inr plan \<and>
    mset (map al_job_id (sp_allocations plan) @ sp_unscheduled plan) = mset [''a'', ''b''] \<and>
    fits two_jobs (sp_allocations plan) \<and> validate_plan two_jobs plan = Inr ()"
proof -
  have "map jb_id (si_jobs two_jobs) = [''a'', ''b'']"
    by (simp add: two_jobs_def example_request_def example_job_def)
  then show ?thesis
    using list_schedulers_sound [OF two_jobs_wf, of schedule_price_aware "\<lambda>_. ''digest''"] by auto
qed

text \<open>
  Further: The plan validator decides feasibility. It accepts a plan exactly when no job is allocated twice and
  every allocation is of a job of the request, to existing slots that start before the deadline of the
  job and in which the GPUs of all allocations together stay within the capacity.
\<close>
theorem validate_plan_exact:
  assumes "wf_slots (si_slots request)" "distinct (map jb_id (si_jobs request))"
    and "\<forall>a \<in> set (sp_allocations plan). 0 \<le> al_gpu_count a"
  shows "validate_plan request plan = Inr () \<longleftrightarrow>
    distinct (map al_job_id (sp_allocations plan)) \<and>
    (\<forall>a \<in> set (sp_allocations plan). allocation_valid request (sp_allocations plan) a)"
  using assms by (intro validate_plan_iff) auto

theorem validate_plan_exact_witness:
  "validate_plan two_jobs \<lparr>sp_strategy = ''manual'',
     sp_allocations = [\<lparr>al_job_id = ''a'', al_slot_indices = [0], al_gpu_count = 2, al_reason_code = ''R''\<rparr>,
                       \<lparr>al_job_id = ''b'', al_slot_indices = [0], al_gpu_count = 3, al_reason_code = ''R''\<rparr>],
     sp_unscheduled = [], sp_energy_intent_kwh = 0, sp_estimated_cost = 0, sp_assumptions = [], sp_violations = [],
     sp_input_hash = ''h''\<rparr> \<noteq> Inr ()"
proof -
  have wf: "wf_slots (si_slots two_jobs)" "distinct (map jb_id (si_jobs two_jobs))"
    using two_jobs_wf by (simp_all add: wf_schedule_def)
  show ?thesis
    by (subst validate_plan_exact [OF wf])
      (simp_all add: allocation_valid_def in_range_def two_jobs_def example_request_def example_job_def example_slot_def)
qed

end
