(* ===== verification/Optimization.thy ===== *)
theory Optimization
  imports Scheduling "HOL-Library.Sublist"
begin

text \<open>
  \<open>packages/optimization\<close>: the exact optimiser (\<open>engine.py\<close>), the hard constraints, the diagnostics, the
  objectives and the HiGHS back end (\<open>solvers.py\<close>).

  The search of \<open>optimize\<close> is a closure that mutates \<open>capacity\<close> and \<open>current\<close> and restores them on the
  way back; here they are arguments. The best solution, the time-out flag and the number of calls are
  threaded through. Whether the clock has passed the time limit at the \<open>n\<close>-th call is the parameter
  \<open>expired\<close>, and the measured runtime is a parameter. HiGHS is a function from the model it is given to
  an outcome, about which nothing is assumed.
\<close>

section \<open>Model, constraints, diagnostics, objectives\<close>

record objective_weights =
  ow_energy_cost :: decimal
  ow_carbon :: decimal
  ow_delay :: decimal
  ow_migration :: decimal
  ow_degradation :: decimal
  ow_curtailment :: decimal

definition check_weights :: "objective_weights \<Rightarrow> unit result" where
  "check_weights w =
     (let vs = [ow_energy_cost w, ow_carbon w, ow_delay w, ow_migration w, ow_degradation w, ow_curtailment w] in
      if \<exists>v \<in> set vs. v < 0 then Inl (ValueError ''objective weights cannot be negative'')
      else if \<not> (\<exists>v \<in> set vs. v \<noteq> 0) then Inl (ValueError ''at least one objective weight must be positive'')
      else Inr ())"

record model_dimensions =
  md_jobs :: "string list"
  md_slots :: "int list"
  md_sites :: "string list"
  md_gpu_models :: "string list"

definition build_dimensions :: "schedule_input \<Rightarrow> model_dimensions result" where
  "build_dimensions request =
     (let slots = map ts_index (si_slots request); jobs = map jb_id (si_jobs request) in
      if \<not> distinct slots then Inl (ValueError ''optimization slot indices must be unique'')
      else if \<not> distinct jobs then Inl (ValueError ''optimization job IDs must be unique'')
      else Inr \<lparr>md_jobs = jobs, md_slots = slots,
                md_sites = sorted_list_of_set (\<Union>job \<in> set (si_jobs request). jb_allowed_sites job),
                md_gpu_models = sorted_list_of_set
                  ((\<lambda>job. case rr_gpu_model (jb_request job) of
                             Some m \<Rightarrow> (if m = [] then ''any'' else m) | None \<Rightarrow> ''any'') ` set (si_jobs request))\<rparr>)"

record constraint_violation =
  cv_constraint_id :: string
  cv_subject_id :: string
  cv_detail :: string

definition job_violations :: "time_slot list \<Rightarrow> job \<Rightarrow> constraint_violation list result" where
  "job_violations slots job =
     rbind (rfilter (\<lambda>slot. dt_lt (ts_starts_at slot) (sla_deadline (jb_sla job))) slots) (\<lambda>eligible.
       let r = jb_request job;
           violation = (\<lambda>c d. \<lparr>cv_constraint_id = c, cv_subject_id = jb_id job, cv_detail = d\<rparr>);
           required_power = dmul (of_int (rr_gpu_count r)) (rr_power_kw_per_gpu r) in
       Inr (if eligible = [] then [violation ''SLA_DEADLINE'' ''no slot precedes deadline'']
            else
              (if \<forall>slot \<in> set eligible. ts_gpu_capacity slot < rr_gpu_count r
               then [violation ''GPU_CAPACITY'' ''insufficient GPUs''] else []) @
              (if \<forall>slot \<in> set eligible. ts_power_capacity_kw slot < required_power
               then [violation ''POWER_CAPACITY'' ''insufficient site power''] else []) @
              (if jb_allowed_sites job = {} then [violation ''SOVEREIGNTY_SCOPE'' ''no allowed site''] else [])))"

definition validate_hard_constraints :: "schedule_input \<Rightarrow> constraint_violation list result" where
  "validate_hard_constraints request = rbind (rmap_list (job_violations (si_slots request)) (si_jobs request)) (\<lambda>vs. Inr (concat vs))"

definition diagnose_infeasibility :: "schedule_input \<Rightarrow> string list result" where
  "diagnose_infeasibility request =
     (let slots = si_slots request;
          max_gpus = (if slots = [] then 0 else Max (ts_gpu_capacity ` set slots)) in
      rbind (rmap_list (\<lambda>job.
          rbind (any_result (\<lambda>slot. dt_lt (ts_starts_at slot) (sla_deadline (jb_sla job))) slots) (\<lambda>early.
            Inr ((if rr_gpu_count (jb_request job) > max_gpus then [''GPU_CAPACITY:'' @ jb_id job] else []) @
                 (if \<not> early then [''DEADLINE:'' @ jb_id job] else [])))) (si_jobs request))
        (\<lambda>issues. Inr ((if slots = [] then [''NO_TIME_SLOTS''] else []) @ concat issues)))"

record objective_breakdown =
  ob_energy_cost :: decimal
  ob_carbon_kg :: decimal
  ob_delay_slot_hours :: decimal
  ob_weighted_total :: decimal

definition objective_step ::
  "(int, time_slot) dict \<Rightarrow> job \<Rightarrow> int \<Rightarrow> int \<Rightarrow> decimal \<times> decimal \<times> decimal \<Rightarrow> (decimal \<times> decimal \<times> decimal) result" where
  "objective_step slots job gpu_count slot_index acc =
     (case acc of (energy_cost, carbon, delay) \<Rightarrow>
        rbind (key_of slots string_of_int slot_index) (\<lambda>slot.
        rbind (dt_sub (ts_starts_at slot) (jb_submitted_at job)) (\<lambda>wait.
          let energy = dmul (dmul (ts_duration_hours slot) (of_int gpu_count)) (rr_power_kw_per_gpu (jb_request job));
              hours = repr_value (to_double (to_double (of_int wait / 1000000) / 3600)) in
          Inr (dadd energy_cost (dmul energy (ts_price_per_kwh slot)),
               dadd carbon (dmul energy (ts_carbon_kg_per_kwh slot)),
               dadd delay (max 0 hours)))))"

definition evaluate_objectives ::
  "schedule_input \<Rightarrow> schedule_plan \<Rightarrow> objective_weights \<Rightarrow> objective_breakdown result" where
  "evaluate_objectives request plan weights =
     (let slots = dict_of (map (\<lambda>slot. (ts_index slot, slot)) (si_slots request));
          jobs = dict_of (map (\<lambda>job. (jb_id job, job)) (si_jobs request)) in
      rbind (rfold (\<lambda>a acc. rbind (key_of jobs (\<lambda>k. k) (al_job_id a)) (\<lambda>job.
               rfold (objective_step slots job (al_gpu_count a)) (al_slot_indices a) acc))
             (sp_allocations plan) (0, 0, 0))
        (\<lambda>(energy_cost, carbon, delay).
           Inr \<lparr>ob_energy_cost = energy_cost, ob_carbon_kg = carbon, ob_delay_slot_hours = delay,
                ob_weighted_total = dadd (dadd (dmul energy_cost (ow_energy_cost weights)) (dmul carbon (ow_carbon weights)))
                                      (dmul delay (ow_delay weights))\<rparr>))"

section \<open>The exact optimiser\<close>

record optimization_result =
  or_status :: string
  or_plan :: "schedule_plan option"
  or_objective_breakdown :: "(string, decimal) dict"
  or_solver :: string
  or_gap :: decimal
  or_runtime_seconds :: rat
  or_assumptions :: "string list"
  or_diagnostics :: "string list"

fun combinations :: "nat \<Rightarrow> 'a list \<Rightarrow> 'a list list" where
  \<comment> \<open>\<open>itertools.combinations\<close>, in its order\<close>
  "combinations 0 xs = [[]]"
| "combinations (Suc k) [] = []"
| "combinations (Suc k) (x # xs) = map ((#) x) (combinations k xs) @ combinations (Suc k) xs"

definition option_eligible :: "job \<Rightarrow> time_slot \<Rightarrow> bool result" where
  "option_eligible job slot =
     rbind (dt_lt (ts_starts_at slot) (sla_deadline (jb_sla job))) (\<lambda>early.
       Inr (early \<and> rr_gpu_count (jb_request job) \<le> ts_gpu_capacity slot \<and>
            dmul (of_int (rr_gpu_count (jb_request job))) (rr_power_kw_per_gpu (jb_request job)) \<le> ts_power_capacity_kw slot))"

definition job_options :: "schedule_input \<Rightarrow> job \<Rightarrow> int list list result" where
  "job_options request job =
     (if si_slots request = [] then Inr []
      else
        rbind (required_slots request job) (\<lambda>needed.
        rbind (rfilter (option_eligible job) (si_slots request)) (\<lambda>slots.
          if needed < 0 then Inl (ValueError ''r must be non-negative'')
          else Inr (filter (\<lambda>choice. jb_checkpointable job \<or> consecutive choice)
                      (combinations (nat needed) (map ts_index slots))))))"

fun all_fit :: "(int, int) dict \<Rightarrow> int \<Rightarrow> int list \<Rightarrow> bool result" where
  "all_fit capacity gpus [] = Inr True"
| "all_fit capacity gpus (s # ss) =
     rbind (key_of capacity string_of_int s) (\<lambda>free. if free \<ge> gpus then all_fit capacity gpus ss else Inr False)"

definition take_gpus :: "int \<Rightarrow> int \<Rightarrow> (int, int) dict \<Rightarrow> (int, int) dict result" where
  "take_gpus gpus s capacity = rbind (key_of capacity string_of_int s) (\<lambda>free. Inr (dput s (free - gpus) capacity))"

definition option_cost :: "time_slot list \<Rightarrow> job \<Rightarrow> int list \<Rightarrow> decimal result" where
  "option_cost slots job choice =
     rbind (rmap_list (\<lambda>s. rbind (py_nth slots s) (\<lambda>slot.
         Inr (dmul (dmul (dmul (ts_duration_hours slot) (of_int (rr_gpu_count (jb_request job))))
                     (rr_power_kw_per_gpu (jb_request job))) (ts_price_per_kwh slot)))) choice)
       (\<lambda>costs. Inr (dsum costs))"

record search_state =
  sr_best :: "(decimal \<times> int list list) option"
  sr_timed_out :: bool
  sr_calls :: nat

fun search ::
  "time_slot list \<Rightarrow> (nat \<Rightarrow> bool) \<Rightarrow> (job \<times> int list list) list \<Rightarrow> (int, int) dict \<Rightarrow> int list list \<Rightarrow> decimal
     \<Rightarrow> search_state \<Rightarrow> search_state result" where
  "search slots expired todo capacity current running_cost st =
     (let n = sr_calls st; st = st\<lparr>sr_calls := Suc n\<rparr> in
      if expired n then Inr (st\<lparr>sr_timed_out := True\<rparr>)
      else if (case sr_best st of Some (best_cost, _) \<Rightarrow> running_cost \<ge> best_cost | None \<Rightarrow> False) then Inr st
      else case todo of
        [] \<Rightarrow> Inr (st\<lparr>sr_best := Some (running_cost, current)\<rparr>)
      | (job, choices) # rest \<Rightarrow>
          rfold (\<lambda>choice st.
            rbind (all_fit capacity (rr_gpu_count (jb_request job)) choice) (\<lambda>fit.
              if \<not> fit then Inr st
              else
                rbind (rfold (take_gpus (rr_gpu_count (jb_request job))) choice capacity) (\<lambda>capacity.
                rbind (option_cost slots job choice) (\<lambda>cost.
                  search slots expired rest capacity (current @ [choice]) (dadd running_cost cost) st))))
            choices st)"

declare search.simps [simp del]

definition plan_energy :: "time_slot list \<Rightarrow> (job \<times> int list) list \<Rightarrow> decimal result" where
  "plan_energy slots chosen =
     rbind (rmap_list (\<lambda>(job, s). rbind (py_nth slots s) (\<lambda>slot.
         Inr (dmul (dmul (ts_duration_hours slot) (of_int (rr_gpu_count (jb_request job)))) (rr_power_kw_per_gpu (jb_request job)))))
       (concat (map (\<lambda>(job, choice). map (\<lambda>s. (job, s)) choice) chosen)))
     (\<lambda>es. Inr (dsum es))"

definition chosen_plan ::
  "(schedule_input \<Rightarrow> string) \<Rightarrow> schedule_input \<Rightarrow> string \<Rightarrow> string list \<Rightarrow> decimal \<Rightarrow> int list list \<Rightarrow> schedule_plan result" where
  \<comment> \<open>the plan both solvers build from the chosen option of every job, after validation\<close>
  "chosen_plan content_hash request strategy assumptions cost choices =
     rbind (plan_energy (si_slots request) (zip (si_jobs request) choices)) (\<lambda>energy.
       let plan = \<lparr>sp_strategy = strategy,
                   sp_allocations = map (\<lambda>(job, choice).
                     \<lparr>al_job_id = jb_id job, al_slot_indices = choice, al_gpu_count = rr_gpu_count (jb_request job),
                      al_reason_code = ''MIN_TOTAL_COST''\<rparr>) (zip (si_jobs request) choices),
                   sp_unscheduled = [], sp_energy_intent_kwh = energy, sp_estimated_cost = cost,
                   sp_assumptions = assumptions, sp_violations = [], sp_input_hash = content_hash request\<rparr>
       in rbind (validate_plan request plan) (\<lambda>_. Inr plan))"

definition no_plan :: "string \<Rightarrow> string \<Rightarrow> decimal \<Rightarrow> rat \<Rightarrow> string list \<Rightarrow> optimization_result" where
  "no_plan status solver gap runtime diagnostics =
     \<lparr>or_status = status, or_plan = None, or_objective_breakdown = [], or_solver = solver, or_gap = gap,
      or_runtime_seconds = runtime, or_assumptions = [], or_diagnostics = diagnostics\<rparr>"

definition optimize ::
  "(schedule_input \<Rightarrow> string) \<Rightarrow> (nat \<Rightarrow> bool) \<Rightarrow> rat \<Rightarrow> schedule_input \<Rightarrow> optimization_result result" where
  "optimize content_hash expired runtime request =
     rbind (rmap_list (job_options request) (si_jobs request)) (\<lambda>choices.
       let empty = map (\<lambda>(job, os). jb_id job) (filter (\<lambda>(job, os). os = []) (zip (si_jobs request) choices)) in
       if empty \<noteq> [] then
         Inr (no_plan ''infeasible'' ''exact-enumeration'' 0 runtime (map (\<lambda>j. ''JOB_NO_FEASIBLE_WINDOW:'' @ j) empty))
       else
         rbind (search (si_slots request) expired (zip (si_jobs request) choices)
                  (dict_of (map (\<lambda>slot. (ts_index slot, ts_gpu_capacity slot)) (si_slots request))) [] 0
                  \<lparr>sr_best = None, sr_timed_out = False, sr_calls = 0\<rparr>) (\<lambda>st.
           let timed_out = sr_timed_out st in
           case sr_best st of
             None \<Rightarrow>
               Inr (no_plan (if timed_out then ''timeout'' else ''infeasible'') ''exact-enumeration'' (if timed_out then 1 else 0) runtime
                      (if timed_out then [''SEARCH_TIMEOUT''] else [''GPU_CAPACITY_CONFLICT'']))
           | Some (best_cost, best_choices) \<Rightarrow>
               rbind (chosen_plan content_hash request ''exact_co_optimizer''
                        [''perfect slot forecast'', ''single-site bounded MVP''] best_cost best_choices) (\<lambda>plan.
                 Inr \<lparr>or_status = (if timed_out then ''feasible_timeout'' else ''optimal''), or_plan = Some plan,
                      or_objective_breakdown = [(''energy_cost'', sp_estimated_cost plan), (''delay'', 0)],
                      or_solver = ''exact-enumeration'', or_gap = (if timed_out then 1 else 0),
                      or_runtime_seconds = runtime, or_assumptions = sp_assumptions plan, or_diagnostics = []\<rparr>)))"

section \<open>The search is exhaustive\<close>

lemma combinations_subseq: "set (combinations k xs) = {ys. subseq ys xs \<and> length ys = k}"
proof (induction k xs rule: combinations.induct)
  case (3 k x xs)
  show ?case
  proof (intro set_eqI iffI)
    fix ys assume "ys \<in> {ys. subseq ys (x # xs) \<and> length ys = Suc k}"
    then obtain y zs where ys: "ys = y # zs" "subseq (y # zs) (x # xs)" "length zs = k"
      by (cases ys) auto
    then show "ys \<in> set (combinations (Suc k) (x # xs))"
      using 3 by (cases "y = x") auto
  qed (use 3 in \<open>auto intro: subseq_Cons'\<close>)
qed auto

definition choice_cost :: "time_slot list \<Rightarrow> job \<Rightarrow> int list \<Rightarrow> decimal" where
  "choice_cost slots job choice =
     dsum (map (\<lambda>s. dmul (dmul (dmul (ts_duration_hours (slots ! nat s)) (of_int (rr_gpu_count (jb_request job))))
                (rr_power_kw_per_gpu (jb_request job))) (ts_price_per_kwh (slots ! nat s))) choice)"

fun extend_cost :: "time_slot list \<Rightarrow> decimal \<Rightarrow> (job \<times> int list) list \<Rightarrow> decimal" where
  \<comment> \<open>the running cost after the given placements\<close>
  "extend_cost slots c [] = c"
| "extend_cost slots c ((job, choice) # rest) = extend_cost slots (dadd c (choice_cost slots job choice)) rest"

fun feasible :: "(int \<Rightarrow> int) \<Rightarrow> (job \<times> int list list) list \<Rightarrow> int list list \<Rightarrow> bool" where
  \<comment> \<open>one option per job, which fits into what the earlier jobs leave\<close>
  "feasible free [] [] = True"
| "feasible free ((job, choices) # rest) (choice # cs) =
     (choice \<in> set choices \<and> (\<forall>s \<in> set choice. rr_gpu_count (jb_request job) \<le> free s) \<and>
      feasible (\<lambda>s. free s - rr_gpu_count (jb_request job) * int (count_list choice s)) rest cs)"
| "feasible free _ _ = False"

definition choices_ok :: "time_slot list \<Rightarrow> (job \<times> int list list) list \<Rightarrow> bool" where
  "choices_ok slots todo \<longleftrightarrow>
     (\<forall>(job, choices) \<in> set todo. \<forall>choice \<in> set choices. (\<forall>s \<in> set choice. in_range slots s) \<and> 0 \<le> choice_cost slots job choice)"

lemma all_fit_iff:
  "slot_dict slots free capacity \<Longrightarrow> (\<And>s. s \<in> set choice \<Longrightarrow> in_range slots s) \<Longrightarrow>
     all_fit capacity g choice = Inr (\<forall>s \<in> set choice. g \<le> free s)"
proof (induction choice)
  case (Cons s ss)
  then have "key_of capacity string_of_int s = Inr (free s)" by (simp add: slot_dict_key)
  with Cons show ?case by auto
qed simp

lemma take_gpus_dict:
  "slot_dict slots free capacity \<Longrightarrow> (\<And>s. s \<in> set choice \<Longrightarrow> in_range slots s) \<Longrightarrow>
     \<exists>capacity'. rfold (take_gpus g) choice capacity = Inr capacity' \<and>
       slot_dict slots (\<lambda>s. free s - g * int (count_list choice s)) capacity'"
proof (induction choice arbitrary: capacity free)
  case (Cons s ss)
  have s: "in_range slots s" by (simp add: Cons.prems(2))
  have key: "key_of capacity string_of_int s = Inr (free s)" using Cons.prems(1) s by (simp add: slot_dict_key)
  from Cons.IH [OF slot_dict_put [OF Cons.prems(1) s, of "free s - g"]] Cons.prems(2)
  obtain capacity' where c: "rfold (take_gpus g) ss (dput s (free s - g) capacity) = Inr capacity'"
    "slot_dict slots (\<lambda>i. (free(s := free s - g)) i - g * int (count_list ss i)) capacity'" by auto
  have "slot_dict slots (\<lambda>i. free i - g * int (count_list (s # ss) i)) capacity'"
    by (rule slot_dict_cong [OF c(2)]) (simp add: algebra_simps)
  moreover have "take_gpus g s capacity = Inr (dput s (free s - g) capacity)" using key by (simp add: take_gpus_def)
  ultimately show ?case using c(1) by simp
qed simp

lemma option_cost_eq:
  assumes "\<And>s. s \<in> set choice \<Longrightarrow> in_range slots s"
  shows "option_cost slots job choice = Inr (choice_cost slots job choice)"
  unfolding option_cost_def choice_cost_def
  by (subst rmap_list_ok [where g = "\<lambda>s. dmul (dmul (dmul (ts_duration_hours (slots ! nat s)) (of_int (rr_gpu_count (jb_request job))))
                (rr_power_kw_per_gpu (jb_request job))) (ts_price_per_kwh (slots ! nat s))"])
    (simp_all add: py_nth_in_range assms)

lemma feasible_length: "feasible free todo cs \<Longrightarrow> length cs = length todo"
  by (induction free todo cs rule: feasible.induct) auto

lemma extend_cost_increasing:
  assumes "is_dec c" "\<And>job choice. (job, choice) \<in> set placed \<Longrightarrow> 0 \<le> choice_cost slots job choice"
  shows "c \<le> extend_cost slots c placed"
  using assms
proof (induction placed arbitrary: c)
  case (Cons p placed)
  obtain job choice where p: "p = (job, choice)" by (cases p)
  have "c \<le> dadd c (choice_cost slots job choice)"
    using Cons.prems p by (intro dadd_increasing) auto
  also have "\<dots> \<le> extend_cost slots (dadd c (choice_cost slots job choice)) placed"
    by (rule Cons.IH) (use Cons.prems in auto)
  finally show ?case by (simp add: p)
qed simp

lemma feasible_choices:
  "feasible free todo cs \<Longrightarrow> (job, choice) \<in> set (zip (map fst todo) cs) \<Longrightarrow> \<exists>choices. (job, choices) \<in> set todo \<and> choice \<in> set choices"
  by (induction free todo cs rule: feasible.induct) auto

lemma feasible_cost_increasing:
  assumes "choices_ok slots todo" "feasible free todo cs" "is_dec c"
  shows "c \<le> extend_cost slots c (zip (map fst todo) cs)"
proof (rule extend_cost_increasing [OF assms(3)])
  fix job choice assume "(job, choice) \<in> set (zip (map fst todo) cs)"
  from feasible_choices [OF assms(2) this] show "0 \<le> choice_cost slots job choice"
    using assms(1) by (auto simp: choices_ok_def)
qed

definition improves :: "search_state \<Rightarrow> search_state \<Rightarrow> bool" where
  \<comment> \<open>the flag is never cleared and the best solution never gets worse\<close>
  "improves st st' \<longleftrightarrow> (sr_timed_out st \<longrightarrow> sr_timed_out st') \<and>
     (\<forall>b x. sr_best st = Some (b, x) \<longrightarrow> (\<exists>b' x'. sr_best st' = Some (b', x') \<and> b' \<le> b))"

definition covers :: "search_state \<Rightarrow> decimal \<Rightarrow> bool" where
  "covers st c \<longleftrightarrow> (\<exists>b x. sr_best st = Some (b, x) \<and> b \<le> c)"

lemma improves_refl: "improves st (st\<lparr>sr_calls := n\<rparr>)" "improves st st"
  by (auto simp: improves_def)

lemma improves_trans: "improves a b \<Longrightarrow> improves b c \<Longrightarrow> improves a c"
  unfolding improves_def by (meson order_trans)

lemma improves_covers: "improves a b \<Longrightarrow> covers a c \<Longrightarrow> covers b c"
  unfolding improves_def covers_def by (meson order_trans)

lemma improves_flag: "improves a b \<Longrightarrow> \<not> sr_timed_out b \<Longrightarrow> \<not> sr_timed_out a"
  by (auto simp: improves_def)

definition search_ok ::
  "time_slot list \<Rightarrow> (int list list \<Rightarrow> bool) \<Rightarrow> job list \<Rightarrow> int list list \<Rightarrow> decimal \<Rightarrow> search_state \<Rightarrow> search_state \<Rightarrow> bool" where
  \<comment> \<open>what a search over the completions \<open>F\<close> has done when it returns\<close>
  "search_ok slots F jobs current running st st' \<longleftrightarrow> improves st st' \<and>
     (sr_best st' = sr_best st \<or> (\<exists>cs. F cs \<and> sr_best st' = Some (extend_cost slots running (zip jobs cs), current @ cs))) \<and>
     (\<not> sr_timed_out st' \<longrightarrow> (\<forall>cs. F cs \<longrightarrow> covers st' (extend_cost slots running (zip jobs cs))))"

lemma search_ok_none: "search_ok slots (\<lambda>_. False) jobs current running st st"
  by (simp add: search_ok_def improves_refl)

lemma search_ok_trans:
  assumes "search_ok slots F jobs current running st st1" "search_ok slots G jobs current running st1 st2"
  shows "search_ok slots (\<lambda>cs. F cs \<or> G cs) jobs current running st st2"
  unfolding search_ok_def
proof (intro conjI impI allI)
  show imp: "improves st st2"
    using assms improves_trans unfolding search_ok_def by blast
  show "sr_best st2 = sr_best st \<or> (\<exists>cs. (F cs \<or> G cs) \<and> sr_best st2 = Some (extend_cost slots running (zip jobs cs), current @ cs))"
    using assms unfolding search_ok_def by metis
  fix cs assume "\<not> sr_timed_out st2" "F cs \<or> G cs"
  then show "covers st2 (extend_cost slots running (zip jobs cs))"
    using assms improves_covers improves_flag unfolding search_ok_def by blast
qed

lemma search_ok_cong: "search_ok slots F jobs current running st st' \<Longrightarrow> (\<And>cs. F cs = G cs) \<Longrightarrow> search_ok slots G jobs current running st st'"
  by (simp add: search_ok_def)

lemma rfold_search_ok:
  assumes "\<And>choice st. choice \<in> set choices \<Longrightarrow> \<exists>st'. f choice st = Inr st' \<and> search_ok slots (F choice) jobs current running st st'"
  shows "\<exists>st'. rfold f choices st = Inr st' \<and> search_ok slots (\<lambda>cs. \<exists>choice \<in> set choices. F choice cs) jobs current running st st'"
  using assms
proof (induction choices arbitrary: st)
  case Nil
  then show ?case by (simp add: search_ok_none)
next
  case (Cons choice choices)
  from Cons.prems [of choice st] obtain st1 where st1: "f choice st = Inr st1" "search_ok slots (F choice) jobs current running st st1"
    by auto
  from Cons.IH [of st1] Cons.prems obtain st2 where st2: "rfold f choices st1 = Inr st2"
    "search_ok slots (\<lambda>cs. \<exists>choice \<in> set choices. F choice cs) jobs current running st1 st2" by auto
  have "search_ok slots (\<lambda>cs. \<exists>c \<in> set (choice # choices). F c cs) jobs current running st st2"
    by (rule search_ok_cong [OF search_ok_trans [OF st1(2) st2(2)]]) auto
  then show ?case using st1 st2 by simp
qed

lemma search_ok_deeper:
  assumes "search_ok slots F jobs (current @ [choice]) (dadd running (choice_cost slots job choice)) st st'"
  shows "search_ok slots (\<lambda>cs. \<exists>rest. cs = choice # rest \<and> F rest) (job # jobs) current running st st'"
  using assms unfolding search_ok_def by auto

lemma search_ok_pruned:
  assumes "covers st running" "\<And>cs. F cs \<Longrightarrow> running \<le> extend_cost slots running (zip jobs cs)"
  shows "search_ok slots F jobs current running st (st\<lparr>sr_calls := n\<rparr>)"
  using assms by (fastforce simp: search_ok_def improves_refl covers_def)

lemma search_spec:
  assumes "slot_dict slots free capacity" "choices_ok slots todo" "is_dec running"
  shows "\<exists>st'. search slots expired todo capacity current running st = Inr st' \<and>
    search_ok slots (feasible free todo) (map fst todo) current running st st'"
  using assms
proof (induction todo arbitrary: free capacity current running st)
  case Nil
  have F: "feasible free [] cs \<longleftrightarrow> cs = []" for cs by (cases cs) auto
  show ?case
    by (auto simp: search.simps Let_def search_ok_def improves_def F covers_def split: option.splits)
next
  case (Cons jc todo)
  obtain job choices where jc: "jc = (job, choices)" by (cases jc)
  let ?n = "sr_calls st" and ?g = "rr_gpu_count (jb_request job)"
  let ?st = "st\<lparr>sr_calls := Suc ?n\<rparr>"
  consider (expired) "expired ?n" | (pruned) "\<not> expired ?n" "covers st running"
    | (try_all) "\<not> expired ?n" "\<not> covers st running" by blast
  then show ?case
  proof cases
    case expired
    then show ?thesis by (auto simp: search.simps Let_def search_ok_def improves_def)
  next
    case pruned
    have "search_ok slots (feasible free (jc # todo)) (map fst (jc # todo)) current running st ?st"
      by (rule search_ok_pruned [OF pruned(2)]) (rule feasible_cost_increasing [OF Cons.prems(2) _ Cons.prems(3)])
    then show ?thesis using pruned by (auto simp: search.simps Let_def covers_def)
  next
    case try_all
    let ?f = "\<lambda>choice st. rbind (all_fit capacity ?g choice) (\<lambda>fit. if \<not> fit then Inr st else
        rbind (rfold (take_gpus ?g) choice capacity) (\<lambda>capacity. rbind (option_cost slots job choice) (\<lambda>cost.
          search slots expired todo capacity (current @ [choice]) (dadd running cost) st)))"
    let ?F = "\<lambda>choice cs. \<exists>rest. cs = choice # rest \<and> (\<forall>s \<in> set choice. ?g \<le> free s) \<and>
        feasible (\<lambda>s. free s - ?g * int (count_list choice s)) todo rest"
    have "\<exists>st'. ?f choice st = Inr st' \<and> search_ok slots (?F choice) (map fst (jc # todo)) current running st st'"
      if choice: "choice \<in> set choices" for choice st
    proof -
      have range: "in_range slots s" if "s \<in> set choice" for s
        using Cons.prems(2) choice that by (auto simp: choices_ok_def jc)
      show ?thesis
      proof (cases "\<forall>s \<in> set choice. ?g \<le> free s")
        case True
        obtain capacity' where c: "rfold (take_gpus ?g) choice capacity = Inr capacity'"
          "slot_dict slots (\<lambda>s. free s - ?g * int (count_list choice s)) capacity'"
          using take_gpus_dict [OF Cons.prems(1) range] by blast
        have "choices_ok slots todo" using Cons.prems(2) by (simp add: choices_ok_def)
        from Cons.IH [OF c(2) this, of "dadd running (choice_cost slots job choice)" "current @ [choice]" st]
        obtain st' where st': "search slots expired todo capacity' (current @ [choice]) (dadd running (choice_cost slots job choice)) st = Inr st'"
          "search_ok slots (feasible (\<lambda>s. free s - ?g * int (count_list choice s)) todo) (map fst todo)
             (current @ [choice]) (dadd running (choice_cost slots job choice)) st st'" by auto
        have "search_ok slots (?F choice) (map fst (jc # todo)) current running st st'"
          by (simp add: jc) (rule search_ok_cong [OF search_ok_deeper [OF st'(2)]], use True in auto)
        then show ?thesis
          using st'(1) c(1) True by (simp add: all_fit_iff [OF Cons.prems(1) range] option_cost_eq [OF range])
      next
        case False
        have "search_ok slots (?F choice) (map fst (jc # todo)) current running st st"
          by (rule search_ok_cong [OF search_ok_none]) (use False in auto)
        moreover have "all_fit capacity ?g choice = Inr False"
          using False by (simp add: all_fit_iff [OF Cons.prems(1) range])
        then have "?f choice st = Inr st" by simp
        ultimately show ?thesis by blast
      qed
    qed
    from rfold_search_ok [where f = ?f and F = ?F and choices = choices and st = ?st, OF this]
    obtain st' where st': "rfold ?f choices ?st = Inr st'"
      "search_ok slots (\<lambda>cs. \<exists>choice \<in> set choices. ?F choice cs) (map fst (jc # todo)) current running ?st st'" by blast
    have "feasible free (jc # todo) cs = (\<exists>choice \<in> set choices. ?F choice cs)" for cs
      by (cases cs) (auto simp: jc)
    with search_ok_cong [OF st'(2)] have "search_ok slots (feasible free (jc # todo)) (map fst (jc # todo)) current running ?st st'"
      by simp
    then have "search_ok slots (feasible free (jc # todo)) (map fst (jc # todo)) current running st st'"
      by (simp add: search_ok_def improves_def)
    moreover have "search slots expired (jc # todo) capacity current running st = Inr st'"
      using try_all st'(1) by (subst search.simps) (auto simp: Let_def jc covers_def split: option.splits)
    ultimately show ?thesis by blast
  qed
qed

section \<open>The options of a job are its admissible windows\<close>

lemma subseq_sorted_iff:
  fixes xs :: "'a :: linorder list"
  assumes "sorted_wrt (<) xs"
  shows "subseq ys xs \<longleftrightarrow> sorted_wrt (<) ys \<and> set ys \<subseteq> set xs"
  using assms
proof (induction xs arbitrary: ys)
  case (Cons x xs)
  show ?case
  proof (cases ys)
    case (Cons y zs)
    show ?thesis
    proof (cases "y = x")
      case True
      then show ?thesis using Cons.IH Cons.prems Cons by fastforce
    next
      case False
      have "x \<notin> set ys" if "sorted_wrt (<) ys" "set ys \<subseteq> set (x # xs)"
        using that False Cons.prems Cons by fastforce
      then show ?thesis using Cons.IH [of ys] Cons.prems False Cons by auto
    qed
  qed simp
qed (auto dest: list_emb_length)

definition window :: "schedule_input \<Rightarrow> job \<Rightarrow> int list \<Rightarrow> bool" where
  "window request job choice \<longleftrightarrow>
     sorted_wrt (<) choice \<and> required_slots request job = Inr (int (length choice)) \<and>
     (jb_checkpointable job \<or> consecutive choice) \<and>
     (\<forall>i \<in> set choice. in_range (si_slots request) i \<and>
        dt_lt (ts_starts_at (si_slots request ! nat i)) (sla_deadline (jb_sla job)) = Inr True \<and>
        rr_gpu_count (jb_request job) \<le> ts_gpu_capacity (si_slots request ! nat i) \<and>
        dmul (rr_power_kw_per_gpu (jb_request job)) (of_int (rr_gpu_count (jb_request job)))
          \<le> ts_power_capacity_kw (si_slots request ! nat i))"

lemma filter_sorted_indices:
  assumes "wf_slots slots"
  shows "sorted_wrt (<) (map ts_index (filter p slots))"
    and "set (map ts_index (filter p slots)) = {i. in_range slots i \<and> p (slots ! nat i)}"
proof -
  have "map ts_index slots = map int [0..<length slots]"
    using assms by (intro nth_equalityI) (auto simp: wf_slots_def)
  moreover have "sorted_wrt (<) (map int [0..<length slots])"
    by (simp add: sorted_wrt_map)
  ultimately have "sorted_wrt (<) (map ts_index slots)" by simp
  then show "sorted_wrt (<) (map ts_index (filter p slots))"
    by (simp add: sorted_wrt_map sorted_wrt_filter)
  show "set (map ts_index (filter p slots)) = {i. in_range slots i \<and> p (slots ! nat i)}"
  proof (intro set_eqI iffI)
    fix i assume "i \<in> set (map ts_index (filter p slots))"
    then obtain s where "s \<in> set slots" "p s" "i = ts_index s" by auto
    then show "i \<in> {i. in_range slots i \<and> p (slots ! nat i)}" using slot_at_index [OF assms] by simp
  next
    fix i assume "i \<in> {i. in_range slots i \<and> p (slots ! nat i)}"
    then have i: "nat i < length slots" "p (slots ! nat i)" "0 \<le> i" by (auto simp: in_range_def)
    then have "slots ! nat i \<in> set (filter p slots)" "ts_index (slots ! nat i) = i"
      using assms by (auto simp: wf_slots_def)
    then show "i \<in> set (map ts_index (filter p slots))" by (metis image_eqI set_map)
  qed
qed

lemma option_eligible_iff:
  "option_eligible job slot = Inr True \<longleftrightarrow>
     dt_lt (ts_starts_at slot) (sla_deadline (jb_sla job)) = Inr True \<and>
     rr_gpu_count (jb_request job) \<le> ts_gpu_capacity slot \<and>
     dmul (rr_power_kw_per_gpu (jb_request job)) (of_int (rr_gpu_count (jb_request job))) \<le> ts_power_capacity_kw slot"
  by (auto simp: option_eligible_def rbind_eq_Inr dmul_def mult.commute)

definition usable_request :: "schedule_input \<Rightarrow> bool" where
  \<comment> \<open>a well-formed request with slots of positive length, and prices and powers that are not negative\<close>
  "usable_request request \<longleftrightarrow> wf_schedule request \<and> si_slots request \<noteq> [] \<and>
     (\<forall>s \<in> set (si_slots request). 0 < ts_duration_hours s \<and> 0 \<le> ts_price_per_kwh s) \<and>
     (\<forall>j \<in> set (si_jobs request). 0 \<le> rr_power_kw_per_gpu (jb_request j))"

lemma usable_request_job:
  assumes "usable_request request" "job \<in> set (si_jobs request)"
  shows "0 \<le> rr_gpu_count (jb_request job)" "0 < rr_estimated_hours (jb_request job)"
  using assms by (auto simp: usable_request_def wf_schedule_def valid_job_def check_resource_request_def split: if_splits)

lemma job_options_windows:
  assumes u: "usable_request request" and job: "job \<in> set (si_jobs request)"
  shows "\<exists>os. job_options request job = Inr os \<and> set os = {choice. window request job choice}"
proof -
  let ?slots = "si_slots request"
  have wf: "wf_schedule request" and ne: "?slots \<noteq> []" and ws: "wf_slots ?slots"
    using u by (simp_all add: usable_request_def wf_schedule_def)
  have d: "0 < ts_duration_hours (hd ?slots)" using u ne by (simp add: usable_request_def)
  have "\<exists>n. required_slots request job = Inr n \<and> 0 \<le> n"
  proof -
    have "0 \<le> dround (rr_estimated_hours (jb_request job) / ts_duration_hours (hd ?slots))"
      using usable_request_job(2) [OF u job] d by (intro dround_nonneg) simp
    then show ?thesis using d by (auto simp: required_slots_def ddiv_def to_integral_ceiling_def)
  qed
  then obtain n where n: "required_slots request job = Inr n" "0 \<le> n" by blast
  have "\<exists>cs. rfilter (option_eligible job) ?slots = Inr cs"
  proof (rule rfilter_total)
    fix s assume "s \<in> set ?slots"
    then have "is_aware (ts_starts_at s)" "is_aware (sla_deadline (jb_sla job))"
      using wf job by (auto simp: wf_schedule_def)
    then show "is_ok (option_eligible job s)"
      by (cases "ts_starts_at s"; cases "sla_deadline (jb_sla job)") (auto simp: option_eligible_def dt_lt_def)
  qed
  then obtain cs where cs: "rfilter (option_eligible job) ?slots = Inr cs" ..
  let ?is = "map ts_index (filter (\<lambda>s. option_eligible job s = Inr True) ?slots)"
  have "set (filter (\<lambda>choice. jb_checkpointable job \<or> consecutive choice) (combinations (nat n) ?is)) = {choice. window request job choice}"
    using n(2) unfolding window_def set_filter combinations_subseq subseq_sorted_iff [OF filter_sorted_indices(1) [OF ws]]
      filter_sorted_indices(2) [OF ws] option_eligible_iff n(1)
    by auto
  then show ?thesis
    using n cs ne rfilter_ok [OF cs] by (simp add: job_options_def)
qed

definition placement_use :: "(job \<times> int list) list \<Rightarrow> int \<Rightarrow> int" where
  "placement_use placed i = (\<Sum>(job, choice)\<leftarrow>placed. rr_gpu_count (jb_request job) * int (count_list choice i))"

lemma placement_use_simps [simp]:
  "placement_use [] i = 0"
  "placement_use ((job, choice) # placed) i = rr_gpu_count (jb_request job) * int (count_list choice i) + placement_use placed i"
  by (simp_all add: placement_use_def)

lemma placement_use_nonneg:
  "(\<And>job choice. (job, choice) \<in> set placed \<Longrightarrow> 0 \<le> rr_gpu_count (jb_request job)) \<Longrightarrow> 0 \<le> placement_use placed i"
  by (induction placed) (auto simp: placement_use_def intro!: add_nonneg_nonneg mult_nonneg_nonneg)

lemma placement_use_unused:
  "(\<And>job choice. (job, choice) \<in> set placed \<Longrightarrow> i \<notin> set choice) \<Longrightarrow> placement_use placed i = 0"
proof (induction placed)
  case (Cons p placed)
  from Cons.prems [of "fst p" "snd p"] have "count_list (snd p) i = 0" by (simp add: count_notin)
  with Cons show ?case by (cases p) auto
qed simp

lemma feasible_iff:
  assumes "\<And>job choices. (job, choices) \<in> set todo \<Longrightarrow> 0 \<le> rr_gpu_count (jb_request job) \<and> (\<forall>c \<in> set choices. distinct c)"
  shows "feasible free todo cs \<longleftrightarrow> list_all2 (\<lambda>(job, choices) c. c \<in> set choices) todo cs \<and>
    (\<forall>c \<in> set cs. \<forall>i \<in> set c. placement_use (zip (map fst todo) cs) i \<le> free i)"
  using assms
proof (induction free todo cs rule: feasible.induct)
  case (2 free job choices rest choice cs)
  let ?g = "rr_gpu_count (jb_request job)" and ?use = "placement_use (zip (map fst rest) cs)"
  have g: "0 \<le> ?g" and dist: "choice \<in> set choices \<Longrightarrow> distinct choice" using 2(2) by auto
  have nonneg: "0 \<le> ?use i" for i
    using 2(2) by (intro placement_use_nonneg) (fastforce dest!: set_zip_leftD)
  have IH: "feasible (\<lambda>s. free s - ?g * int (count_list choice s)) rest cs \<longleftrightarrow>
      list_all2 (\<lambda>(job, choices) c. c \<in> set choices) rest cs \<and>
      (\<forall>c \<in> set cs. \<forall>i \<in> set c. ?use i \<le> free i - ?g * int (count_list choice i))"
    using 2(2) by (intro 2(1)) auto
  have unused: "?use i = 0" if "\<forall>c \<in> set cs. i \<notin> set c" for i
    using that by (intro placement_use_unused) (auto dest: set_zip_rightD)
  have "(\<forall>s \<in> set choice. ?g \<le> free s) \<and> (\<forall>c \<in> set cs. \<forall>i \<in> set c. ?use i \<le> free i - ?g * int (count_list choice i))
      \<longleftrightarrow> (\<forall>c \<in> set (choice # cs). \<forall>i \<in> set c. ?g * int (count_list choice i) + ?use i \<le> free i)"
    if "choice \<in> set choices"
  proof
    assume L: "(\<forall>s \<in> set choice. ?g \<le> free s) \<and> (\<forall>c \<in> set cs. \<forall>i \<in> set c. ?use i \<le> free i - ?g * int (count_list choice i))"
    show "\<forall>c \<in> set (choice # cs). \<forall>i \<in> set c. ?g * int (count_list choice i) + ?use i \<le> free i"
    proof (intro ballI)
      fix c i assume c: "c \<in> set (choice # cs)" "i \<in> set c"
      show "?g * int (count_list choice i) + ?use i \<le> free i"
      proof (cases "\<exists>c \<in> set cs. i \<in> set c")
        case True
        then show ?thesis using L by fastforce
      next
        case False
        then show ?thesis using L c unused [of i] count_list_distinct [OF dist [OF that], of i] by auto
      qed
    qed
  next
    assume R: "\<forall>c \<in> set (choice # cs). \<forall>i \<in> set c. ?g * int (count_list choice i) + ?use i \<le> free i"
    have "?g \<le> free s" if s: "s \<in> set choice" for s
      using bspec [OF bspec [OF R, of choice], OF _ s] nonneg [of s] count_list_distinct [OF dist [OF \<open>choice \<in> set choices\<close>], of s] s by simp
    then show "(\<forall>s \<in> set choice. ?g \<le> free s) \<and> (\<forall>c \<in> set cs. \<forall>i \<in> set c. ?use i \<le> free i - ?g * int (count_list choice i))"
      using R by (simp add: algebra_simps)
  qed
  then show ?case using IH by auto
qed simp_all

section \<open>Correctness of the optimiser\<close>

definition schedule_feasible :: "schedule_input \<Rightarrow> allocation list \<Rightarrow> bool" where
  \<comment> \<open>every job is placed, in the order of the request, and no slot is overfull\<close>
  "schedule_feasible request as \<longleftrightarrow>
     list_all2 (\<lambda>job a. placement_ok request job a \<and> sorted_wrt (<) (al_slot_indices a)) (si_jobs request) as \<and> fits request as"

definition plan_cost :: "schedule_input \<Rightarrow> allocation list \<Rightarrow> decimal" where
  \<comment> \<open>energy cost in the arithmetic of the code, job by job\<close>
  "plan_cost request as = extend_cost (si_slots request) 0 (zip (si_jobs request) (map al_slot_indices as))"

definition allocations_of :: "(job \<times> int list) list \<Rightarrow> allocation list" where
  "allocations_of placed = map (\<lambda>(job, choice).
     \<lparr>al_job_id = jb_id job, al_slot_indices = choice, al_gpu_count = rr_gpu_count (jb_request job),
      al_reason_code = ''MIN_TOTAL_COST''\<rparr>) placed"

lemma used_gpus_allocations_of: "used_gpus (allocations_of placed) i = placement_use placed i"
  by (induction placed) (auto simp: allocations_of_def)

lemma slot_indices_allocations_of [simp]: "map al_slot_indices (allocations_of placed) = map snd placed"
  by (auto simp: allocations_of_def)

lemma used_gpus_placed:
  "list_all2 (\<lambda>job a. al_gpu_count a = rr_gpu_count (jb_request job)) jobs as \<Longrightarrow>
     used_gpus as i = placement_use (zip jobs (map al_slot_indices as)) i"
  by (induction jobs as rule: list_all2_induct) auto

lemma window_placement:
  assumes "window request job (al_slot_indices a)" "al_job_id a = jb_id job" "al_gpu_count a = rr_gpu_count (jb_request job)"
  shows "placement_ok request job a"
  using assms by (auto simp: window_def placement_ok_def strict_sorted_iff)

lemma windows_distinct: "window request job c \<Longrightarrow> distinct c"
  by (simp add: window_def strict_sorted_iff)

lemma options_total:
  assumes u: "usable_request request"
  shows "\<exists>oss. rmap_list (job_options request) (si_jobs request) = Inr oss \<and>
    list_all2 (\<lambda>job os. set os = {c. window request job c}) (si_jobs request) oss"
proof -
  have "\<exists>oss. rmap_list (job_options request) jobs = Inr oss \<and> list_all2 (\<lambda>job os. set os = {c. window request job c}) jobs oss"
    if "set jobs \<subseteq> set (si_jobs request)" for jobs
    using that
  proof (induction jobs)
    case (Cons job jobs)
    from job_options_windows [OF u, of job] Cons.prems obtain os where
      "job_options request job = Inr os" "set os = {c. window request job c}" by auto
    then show ?case using Cons by auto
  qed simp
  then show ?thesis by simp
qed

lemma list_all2_windows:
  assumes "list_all2 (\<lambda>job os. set os = {c. window request job c}) jobs oss"
  shows "list_all2 (\<lambda>(job, os) c. c \<in> set os) (zip jobs oss) cs \<longleftrightarrow> list_all2 (window request) jobs cs"
  using assms
proof (induction jobs oss arbitrary: cs rule: list_all2_induct)
  case (Cons job jobs os oss)
  then show ?case by (cases cs) auto
qed simp

lemma choices_nonneg:
  assumes u: "usable_request request" and job: "job \<in> set (si_jobs request)" and w: "window request job c"
  shows "0 \<le> choice_cost (si_slots request) job c"
  unfolding choice_cost_def
proof (rule dsum_nonneg)
  fix x assume "x \<in> set (map (\<lambda>s. dmul (dmul (dmul (ts_duration_hours (si_slots request ! nat s)) (of_int (rr_gpu_count (jb_request job))))
                (rr_power_kw_per_gpu (jb_request job))) (ts_price_per_kwh (si_slots request ! nat s))) c)"
  then obtain s where s: "s \<in> set c" and x: "x = dmul (dmul (dmul (ts_duration_hours (si_slots request ! nat s)) (of_int (rr_gpu_count (jb_request job))))
                (rr_power_kw_per_gpu (jb_request job))) (ts_price_per_kwh (si_slots request ! nat s))" by auto
  have "si_slots request ! nat s \<in> set (si_slots request)"
    using w s by (auto simp: window_def in_range_def)
  then have "0 \<le> ts_duration_hours (si_slots request ! nat s)" "0 \<le> ts_price_per_kwh (si_slots request ! nat s)"
    using u by (auto simp: usable_request_def less_imp_le)
  moreover have "0 \<le> rr_power_kw_per_gpu (jb_request job)" using u job by (simp add: usable_request_def)
  ultimately show "0 \<le> x" using usable_request_job(1) [OF u job] unfolding x by simp
qed

lemma zip_choices:
  assumes "list_all2 P jobs oss"
  shows "map fst (zip jobs oss) = jobs" "(job, os) \<in> set (zip jobs oss) \<Longrightarrow> P job os \<and> job \<in> set jobs"
proof -
  show "map fst (zip jobs oss) = jobs" using list_all2_lengthD [OF assms] by simp
  show "P job os \<and> job \<in> set jobs" if "(job, os) \<in> set (zip jobs oss)"
    using assms that set_zip_leftD [OF that] by (simp add: list_all2_iff) blast
qed

lemma feasible_schedule:
  assumes u: "usable_request request" and oss: "list_all2 (\<lambda>job os. set os = {c. window request job c}) (si_jobs request) oss"
  shows "feasible (\<lambda>i. ts_gpu_capacity (si_slots request ! nat i)) (zip (si_jobs request) oss) cs \<longleftrightarrow>
    list_all2 (window request) (si_jobs request) cs \<and>
    (\<forall>c \<in> set cs. \<forall>i \<in> set c. placement_use (zip (si_jobs request) cs) i \<le> ts_gpu_capacity (si_slots request ! nat i))"
proof -
  have pre: "0 \<le> rr_gpu_count (jb_request job) \<and> (\<forall>c \<in> set os. distinct c)" if "(job, os) \<in> set (zip (si_jobs request) oss)" for job os
    using zip_choices(2) [OF oss that] usable_request_job(1) [OF u] windows_distinct by blast
  have "feasible (\<lambda>i. ts_gpu_capacity (si_slots request ! nat i)) (zip (si_jobs request) oss) cs \<longleftrightarrow>
      list_all2 (\<lambda>(job, os) c. c \<in> set os) (zip (si_jobs request) oss) cs \<and>
      (\<forall>c \<in> set cs. \<forall>i \<in> set c. placement_use (zip (map fst (zip (si_jobs request) oss)) cs) i \<le> ts_gpu_capacity (si_slots request ! nat i))"
    by (rule feasible_iff) (rule pre)
  then show ?thesis
    unfolding list_all2_windows [OF oss] zip_choices(1) [OF oss] .
qed

lemma feasible_allocations:
  assumes "list_all2 (window request) (si_jobs request) cs"
    and "\<forall>c \<in> set cs. \<forall>i \<in> set c. placement_use (zip (si_jobs request) cs) i \<le> ts_gpu_capacity (si_slots request ! nat i)"
  shows "schedule_feasible request (allocations_of (zip (si_jobs request) cs))"
proof -
  let ?as = "allocations_of (zip (si_jobs request) cs)"
  have len: "length cs = length (si_jobs request)" using assms(1) by (simp add: list_all2_lengthD)
  have "list_all2 (\<lambda>job a. placement_ok request job a \<and> sorted_wrt (<) (al_slot_indices a)) (si_jobs request) ?as"
    unfolding list_all2_conv_all_nth
  proof (intro conjI allI impI)
    fix i assume i: "i < length (si_jobs request)"
    have w: "window request (si_jobs request ! i) (cs ! i)" using assms(1) i by (simp add: list_all2_conv_all_nth)
    show "placement_ok request (si_jobs request ! i) (?as ! i)"
      using w i len by (intro window_placement) (simp_all add: allocations_of_def)
    show "sorted_wrt (<) (al_slot_indices (?as ! i))" using w i len by (simp add: allocations_of_def window_def)
  qed (simp add: allocations_of_def len)
  moreover have "fits request ?as"
    unfolding fits_def used_gpus_allocations_of using assms(2)
    by (auto simp: allocations_of_def dest: set_zip_rightD)
  ultimately show ?thesis by (simp add: schedule_feasible_def)
qed

lemma schedule_feasible_choices:
  assumes u: "usable_request request" and as: "schedule_feasible request as"
  shows "list_all2 (window request) (si_jobs request) (map al_slot_indices as) \<and>
    (\<forall>c \<in> set (map al_slot_indices as). \<forall>i \<in> set c.
       placement_use (zip (si_jobs request) (map al_slot_indices as)) i \<le> ts_gpu_capacity (si_slots request ! nat i))"
proof
  let ?P = "\<lambda>job a. placement_ok request job a \<and> sorted_wrt (<) (al_slot_indices a)"
  have p: "list_all2 ?P (si_jobs request) as" and f: "fits request as" using as by (simp_all add: schedule_feasible_def)
  have g: "list_all2 (\<lambda>job a. al_gpu_count a = rr_gpu_count (jb_request job)) (si_jobs request) as"
    by (rule list_all2_mono [OF p]) (simp add: placement_ok_def)
  show "\<forall>c \<in> set (map al_slot_indices as). \<forall>i \<in> set c.
       placement_use (zip (si_jobs request) (map al_slot_indices as)) i \<le> ts_gpu_capacity (si_slots request ! nat i)"
    using f unfolding fits_def used_gpus_placed [OF g] by auto
  have nonneg: "0 \<le> al_gpu_count b" if "b \<in> set as" for b
    using that p usable_request_job(1) [OF u] unfolding list_all2_conv_all_nth in_set_conv_nth
    by (metis nth_mem placement_ok_def)
  show "list_all2 (window request) (si_jobs request) (map al_slot_indices as)"
    unfolding list_all2_map2
  proof (rule list.rel_mono_strong [OF p])
    fix job a assume a: "a \<in> set as" and P: "?P job a"
    have "rr_gpu_count (jb_request job) \<le> ts_gpu_capacity (si_slots request ! nat i)" if i: "i \<in> set (al_slot_indices a)" for i
    proof -
      have "al_gpu_count a * int (count_list (al_slot_indices a) i) \<le> used_gpus as i"
        unfolding used_gpus_def using a nonneg by (intro member_le_sum_list) (auto intro!: mult_nonneg_nonneg)
      moreover have "used_gpus as i \<le> ts_gpu_capacity (si_slots request ! nat i)" using f a i by (simp add: fits_def)
      moreover have "count_list (al_slot_indices a) i = 1"
        using P i by (simp add: placement_ok_def count_list_distinct)
      ultimately show ?thesis using P by (simp add: placement_ok_def)
    qed
    then show "window request job (al_slot_indices a)" using P by (auto simp: window_def placement_ok_def)
  qed
qed

lemma plan_energy_total:
  assumes "list_all2 (window request) (si_jobs request) cs"
  shows "\<exists>e. plan_energy (si_slots request) (zip (si_jobs request) cs) = Inr e"
proof -
  have range: "in_range (si_slots request) s" if "(job, c) \<in> set (zip (si_jobs request) cs)" "s \<in> set c" for job c s
    using zip_choices(2) [OF assms that(1)] that(2) by (simp add: window_def)
  let ?xs = "concat (map (\<lambda>(job, choice). map (\<lambda>s. (job, s)) choice) (zip (si_jobs request) cs))"
  have "rmap_list (\<lambda>(job, s). rbind (py_nth (si_slots request) s) (\<lambda>slot.
         Inr (dmul (dmul (ts_duration_hours slot) (of_int (rr_gpu_count (jb_request job)))) (rr_power_kw_per_gpu (jb_request job))))) ?xs =
      Inr (map (\<lambda>(job, s). dmul (dmul (ts_duration_hours (si_slots request ! nat s)) (of_int (rr_gpu_count (jb_request job)))) (rr_power_kw_per_gpu (jb_request job))) ?xs)"
    by (rule rmap_list_ok) (use range in \<open>auto simp: py_nth_in_range\<close>)
  then show ?thesis by (simp add: plan_energy_def)
qed

lemma chosen_plan_ok:
  assumes u: "usable_request request" and w: "list_all2 (window request) (si_jobs request) cs"
    and f: "schedule_feasible request (allocations_of (zip (si_jobs request) cs))"
  shows "\<exists>plan. chosen_plan content_hash request strategy assumptions cost cs = Inr plan \<and>
    sp_allocations plan = allocations_of (zip (si_jobs request) cs) \<and> sp_estimated_cost plan = cost"
proof -
  let ?as = "allocations_of (zip (si_jobs request) cs)"
  have ws: "wf_slots (si_slots request)" and dist: "distinct (map jb_id (si_jobs request))"
    using u by (simp_all add: usable_request_def wf_schedule_def)
  obtain e where e: "plan_energy (si_slots request) (zip (si_jobs request) cs) = Inr e"
    using plan_energy_total [OF w] by blast
  define plan where "plan = \<lparr>sp_strategy = strategy, sp_allocations = ?as, sp_unscheduled = [], sp_energy_intent_kwh = e,
     sp_estimated_cost = cost, sp_assumptions = assumptions, sp_violations = [], sp_input_hash = content_hash request\<rparr>"
  have ids: "map al_job_id ?as = map jb_id (si_jobs request)"
    using list_all2_lengthD [OF w] by (intro nth_equalityI) (auto simp: allocations_of_def)
  have each: "\<exists>job \<in> set (si_jobs request). placement_ok request job a" if "a \<in> set ?as" for a
    using that f unfolding schedule_feasible_def list_all2_conv_all_nth in_set_conv_nth by fastforce
  have "validate_plan request plan = Inr ()"
  proof (subst validate_plan_iff [OF ws dist])
    show "0 \<le> al_gpu_count a" if "a \<in> set (sp_allocations plan)" for a
      using each usable_request_job(1) [OF u] that unfolding plan_def by (fastforce simp: placement_ok_def)
    have "allocation_valid request ?as a" if "a \<in> set ?as" for a
    proof -
      from each [OF that] obtain job where "job \<in> set (si_jobs request)" "placement_ok request job a" by blast
      then show ?thesis using f that unfolding allocation_valid_def
        by (intro bexI [of _ job]) (auto simp: placement_ok_def schedule_feasible_def fits_def)
    qed
    then show "distinct (map al_job_id (sp_allocations plan)) \<and>
        (\<forall>a \<in> set (sp_allocations plan). allocation_valid request (sp_allocations plan) a)"
      using dist unfolding plan_def by (simp add: ids)
  qed
  then have "chosen_plan content_hash request strategy assumptions cost cs = Inr plan"
    by (simp add: chosen_plan_def e Let_def plan_def allocations_of_def)
  then show ?thesis by (auto simp: plan_def)
qed

lemma rfold_keeps:
  assumes "\<And>x s s'. x \<in> set xs \<Longrightarrow> P s \<Longrightarrow> f x s = Inr s' \<Longrightarrow> P s'" "P s" "rfold f xs s = Inr s'"
  shows "P s'"
  using assms by (induction xs arbitrary: s) (auto simp: rbind_eq_Inr)

lemma search_expired:
  assumes "search slots expired todo capacity current running_cost st = Inr st'" "sr_timed_out st \<longrightarrow> (\<exists>n. expired n)"
  shows "sr_timed_out st' \<longrightarrow> (\<exists>n. expired n)"
  using assms
proof (induction todo arbitrary: capacity current running_cost st st')
  case Nil
  then show ?case by (auto simp: search.simps Let_def split: if_splits option.splits)
next
  case (Cons t rest)
  obtain job choices where t: "t = (job, choices)" by (cases t)
  show ?case
  proof (cases "expired (sr_calls st) \<or> (case sr_best st of Some (best_cost, _) \<Rightarrow> running_cost \<ge> best_cost | None \<Rightarrow> False)")
    case True
    then show ?thesis using Cons.prems by (auto simp: search.simps [of _ _ "t # rest"] Let_def split: if_splits)
  next
    case False
    note run = Cons.prems(1) [unfolded t search.simps [of _ _ "(job, choices) # rest"] Let_def]
    show ?thesis
      by (rule rfold_keeps [where P = "\<lambda>st. sr_timed_out st \<longrightarrow> (\<exists>n. expired n)" and s = "st\<lparr>sr_calls := Suc (sr_calls st)\<rparr>" and xs = choices])
        (use run False Cons.prems(2) in \<open>auto simp: rbind_eq_Inr split: if_splits dest: Cons.IH\<close>)
  qed
qed

text \<open>
  C3: On a usable request the optimiser always returns a result, and the result is right. Usable means: there
  are slots, numbered by position, of positive length, at prices that are not negative; the jobs have
  distinct ids, the checked requests and service levels that their constructors ensure, and powers that
  are not negative; and all datetimes are aware. A plan that the optimiser returns places every job
  and overfills no slot, and its cost is the cost of that plan; if the status is \<open>optimal\<close>, no
  feasible schedule is cheaper, although the search prunes; and if it is \<open>infeasible\<close>, there is no
  feasible schedule. The other two statuses, with which a feasible plan may not be the cheapest and
  may not be found, occur only when the deadline of the search expired.
\<close>
theorem optimize_correct:
  assumes "usable_request request"
  shows "\<exists>res. optimize content_hash expired runtime request = Inr res \<and>
    (case or_plan res of
       Some plan \<Rightarrow>
         or_status res \<in> {''optimal'', ''feasible_timeout''} \<and> schedule_feasible request (sp_allocations plan) \<and>
         sp_estimated_cost plan = plan_cost request (sp_allocations plan) \<and>
         (or_status res = ''optimal'' \<longrightarrow>
            (\<forall>as. schedule_feasible request as \<longrightarrow> sp_estimated_cost plan \<le> plan_cost request as))
     | None \<Rightarrow>
         or_status res \<in> {''infeasible'', ''timeout''} \<and>
         (or_status res = ''infeasible'' \<longrightarrow> (\<nexists>as. schedule_feasible request as))) \<and>
    (or_status res \<in> {''feasible_timeout'', ''timeout''} \<longrightarrow> (\<exists>n. expired n))"
proof -
  let ?slots = "si_slots request" and ?jobs = "si_jobs request"
  let ?cap = "\<lambda>i. ts_gpu_capacity (?slots ! nat i)"
  obtain oss where oss: "rmap_list (job_options request) ?jobs = Inr oss"
    and win: "list_all2 (\<lambda>job os. set os = {c. window request job c}) ?jobs oss"
    using options_total [OF assms] by blast
  let ?empty = "map (\<lambda>(job, os). jb_id job) (filter (\<lambda>(job, os). os = []) (zip ?jobs oss))"
  show ?thesis
  proof (cases "?empty = []")
    case False
    then obtain job os where e: "(job, os) \<in> set (zip ?jobs oss)" "os = []"
      by (auto simp: filter_empty_conv)
    have "\<not> schedule_feasible request as" for as
    proof
      assume as: "schedule_feasible request as"
      have l: "list_all2 (window request) ?jobs (map al_slot_indices as)"
        using schedule_feasible_choices [OF assms as] by simp
      obtain i where i: "i < length ?jobs" "?jobs ! i = job"
        using e(1) by (auto simp: set_zip)
      then have "window request job (map al_slot_indices as ! i)" using l by (auto simp: list_all2_conv_all_nth)
      then show False using zip_choices(2) [OF win e(1)] e(2) by auto
    qed
    then show ?thesis using False oss by (simp add: optimize_def no_plan_def Let_def)
  next
    case True
    let ?st0 = "\<lparr>sr_best = None, sr_timed_out = False, sr_calls = 0\<rparr>"
    have ws: "wf_slots ?slots" using assms by (simp add: usable_request_def wf_schedule_def)
    have ok: "choices_ok ?slots (zip ?jobs oss)"
      using zip_choices(2) [OF win] choices_nonneg [OF assms] by (fastforce simp: choices_ok_def window_def)
    from search_spec [OF slot_dict_start [OF ws, of ts_gpu_capacity] ok is_dec_0, of expired "[]" ?st0]
    obtain st where st: "search ?slots expired (zip ?jobs oss) (dict_of (map (\<lambda>slot. (ts_index slot, ts_gpu_capacity slot)) ?slots)) [] 0 ?st0 = Inr st"
      and sok: "search_ok ?slots (feasible ?cap (zip ?jobs oss)) ?jobs [] 0 ?st0 st"
      unfolding zip_choices(1) [OF win] by blast
    have late: "sr_timed_out st \<longrightarrow> (\<exists>n. expired n)" by (rule search_expired [OF st]) simp
    have best: "covers st (plan_cost request as)" if "\<not> sr_timed_out st" "schedule_feasible request as" for as
      using sok that schedule_feasible_choices [OF assms that(2)]
      unfolding search_ok_def feasible_schedule [OF assms win] plan_cost_def by blast
    show ?thesis
    proof (cases "sr_best st")
      case None
      then have "\<not> schedule_feasible request as" if "\<not> sr_timed_out st" for as
        using best [OF that] by (auto simp: covers_def)
      then show ?thesis using True oss st None late by (auto simp: optimize_def no_plan_def Let_def)
    next
      case (Some b)
      from sok Some obtain cs where cs: "feasible ?cap (zip ?jobs oss) cs"
        and b: "b = (extend_cost ?slots 0 (zip ?jobs cs), cs)"
        unfolding search_ok_def by auto
      have c: "list_all2 (window request) ?jobs cs \<and>
          (\<forall>c \<in> set cs. \<forall>i \<in> set c. placement_use (zip ?jobs cs) i \<le> ?cap i)"
        using cs unfolding feasible_schedule [OF assms win] .
      note f = feasible_allocations [OF conjunct1 [OF c] conjunct2 [OF c]]
      have cost: "extend_cost ?slots 0 (zip ?jobs cs) = plan_cost request (allocations_of (zip ?jobs cs))"
        using list_all2_lengthD [OF conjunct1 [OF c]] by (simp add: plan_cost_def)
      obtain plan where plan: "chosen_plan content_hash request ''exact_co_optimizer''
          [''perfect slot forecast'', ''single-site bounded MVP''] (fst b) cs = Inr plan"
        "sp_allocations plan = allocations_of (zip ?jobs cs)" "sp_estimated_cost plan = fst b"
        using chosen_plan_ok [OF assms conjunct1 [OF c] f] by blast
      have le: "\<forall>as. schedule_feasible request as \<longrightarrow> fst b \<le> plan_cost request as" if "\<not> sr_timed_out st"
        using best [OF that] Some b by (auto simp: covers_def)
      have "optimize content_hash expired runtime request =
         Inr \<lparr>or_status = (if sr_timed_out st then ''feasible_timeout'' else ''optimal''), or_plan = Some plan,
              or_objective_breakdown = [(''energy_cost'', sp_estimated_cost plan), (''delay'', 0)],
              or_solver = ''exact-enumeration'', or_gap = (if sr_timed_out st then 1 else 0),
              or_runtime_seconds = runtime, or_assumptions = sp_assumptions plan, or_diagnostics = []\<rparr>"
        using True oss st Some plan(1) b by (simp add: optimize_def Let_def)
      then show ?thesis using f cost le plan b late by auto
    qed
  qed
qed

lemma two_jobs_usable: "usable_request two_jobs"
  using two_jobs_wf by (simp add: usable_request_def two_jobs_def example_request_def example_slot_def example_job_def)

theorem optimize_correct_witness:
  "\<exists>res. optimize (\<lambda>_. ''digest'') (\<lambda>_. False) 0 two_jobs = Inr res \<and>
    (case or_plan res of
       Some plan \<Rightarrow> or_status res = ''optimal'' \<and> schedule_feasible two_jobs (sp_allocations plan)
     | None \<Rightarrow> or_status res = ''infeasible'')"
proof -
  from optimize_correct [OF two_jobs_usable, of "\<lambda>_. ''digest''" "\<lambda>_. False" 0] obtain res where
    "optimize (\<lambda>_. ''digest'') (\<lambda>_. False) 0 two_jobs = Inr res"
    "case or_plan res of
       Some plan \<Rightarrow> or_status res = ''optimal'' \<and> schedule_feasible two_jobs (sp_allocations plan)
     | None \<Rightarrow> or_status res = ''infeasible''"
    by (auto split: option.splits)
  then show ?thesis by blast
qed

section \<open>What the optimiser does not ensure\<close>

lemmas optimize_simps = optimize_def job_options_def required_slots_def ddiv_def to_integral_ceiling_def
  option_eligible_def dt_lt_def dmul_def dadd_def dsum_def search.simps Let_def key_of_def take_gpus_def option_cost_def
  py_nth_def dict_of_def consecutive_def chosen_plan_def plan_energy_def validate_plan_def string_of_int_def

definition slot_power :: "schedule_input \<Rightarrow> allocation list \<Rightarrow> int \<Rightarrow> decimal" where
  \<comment> \<open>the power that the allocations of a request draw in a slot\<close>
  "slot_power request as i =
     (\<Sum>(job, a)\<leftarrow>zip (si_jobs request) as. if i \<in> set (al_slot_indices a)
        then of_int (al_gpu_count a) * rr_power_kw_per_gpu (jb_request job) else 0)"

definition crowded_request :: schedule_input where
  "crowded_request = example_request [example_job ''a'' 2 1, example_job ''b'' 2 1] [example_slot 0 4 3 1]"

lemma crowded_optimum:
  "optimize (\<lambda>_. ''h'') (\<lambda>_. False) 0 crowded_request = Inr
     \<lparr>or_status = ''optimal'', or_plan = Some
        \<lparr>sp_strategy = ''exact_co_optimizer'',
         sp_allocations = [\<lparr>al_job_id = ''a'', al_slot_indices = [0], al_gpu_count = 2, al_reason_code = ''MIN_TOTAL_COST''\<rparr>,
                           \<lparr>al_job_id = ''b'', al_slot_indices = [0], al_gpu_count = 2, al_reason_code = ''MIN_TOTAL_COST''\<rparr>],
         sp_unscheduled = [], sp_energy_intent_kwh = 4, sp_estimated_cost = 4,
         sp_assumptions = [''perfect slot forecast'', ''single-site bounded MVP''], sp_violations = [], sp_input_hash = ''h''\<rparr>,
      or_objective_breakdown = [(''energy_cost'', 4), (''delay'', 0)], or_solver = ''exact-enumeration'', or_gap = 0,
      or_runtime_seconds = 0, or_assumptions = [''perfect slot forecast'', ''single-site bounded MVP''], or_diagnostics = []\<rparr>"
  by (simp add: crowded_request_def example_request_def example_job_def example_slot_def optimize_simps)

definition negative_request :: schedule_input where
  "negative_request = example_request [example_job ''a'' 1 1, example_job ''b'' 3 1] [example_slot 0 3 9 (- 1), example_slot 1 3 9 0]"

lemma negative_optimum:
  "\<exists>res plan. optimize (\<lambda>_. ''h'') (\<lambda>_. False) 0 negative_request = Inr res \<and> or_status res = ''optimal'' \<and>
     or_plan res = Some plan \<and> sp_estimated_cost plan = - 1"
  by (simp add: negative_request_def example_request_def example_job_def example_slot_def optimize_simps)

text \<open>
  Further: Two limits of the optimiser. It checks the power of a slot for each job alone: for two jobs that fit
  one by one it reports a plan as optimal that draws more power in a slot than the slot has. And its
  pruning needs non-negative prices: with a negative price it reports a plan as optimal although a feasible
  schedule is cheaper.
\<close>
theorem optimizer_limits:
  "(\<exists>request res plan. usable_request request \<and> optimize (\<lambda>_. ''h'') (\<lambda>_. False) 0 request = Inr res \<and>
      or_status res = ''optimal'' \<and> or_plan res = Some plan \<and>
      slot_power request (sp_allocations plan) 0 > ts_power_capacity_kw (si_slots request ! 0)) \<and>
   (\<exists>request res plan as. wf_schedule request \<and> optimize (\<lambda>_. ''h'') (\<lambda>_. False) 0 request = Inr res \<and>
      or_status res = ''optimal'' \<and> or_plan res = Some plan \<and>
      schedule_feasible request as \<and> plan_cost request as < sp_estimated_cost plan)"
proof
  have "usable_request crowded_request"
    by (simp add: usable_request_def wf_schedule_def wf_slots_def valid_job_def check_resource_request_def check_sla_def
        crowded_request_def example_request_def example_job_def example_slot_def)
  then show "\<exists>request res plan. usable_request request \<and> optimize (\<lambda>_. ''h'') (\<lambda>_. False) 0 request = Inr res \<and>
      or_status res = ''optimal'' \<and> or_plan res = Some plan \<and>
      slot_power request (sp_allocations plan) 0 > ts_power_capacity_kw (si_slots request ! 0)"
    by (intro exI [of _ crowded_request])
      (simp add: crowded_optimum, simp add: slot_power_def crowded_request_def example_request_def example_job_def example_slot_def)
  have "wf_schedule negative_request"
    by (simp add: wf_schedule_def wf_slots_def valid_job_def check_resource_request_def check_sla_def
        negative_request_def example_request_def example_job_def example_slot_def nth_Cons' less_Suc_eq numeral_2_eq_2)
  moreover have "schedule_feasible negative_request
      [\<lparr>al_job_id = ''a'', al_slot_indices = [1], al_gpu_count = 1, al_reason_code = ''R''\<rparr>,
       \<lparr>al_job_id = ''b'', al_slot_indices = [0], al_gpu_count = 3, al_reason_code = ''R''\<rparr>]"
    by (simp add: schedule_feasible_def placement_ok_def fits_def in_range_def optimize_simps
        negative_request_def example_request_def example_job_def example_slot_def)
  moreover have "plan_cost negative_request
      [\<lparr>al_job_id = ''a'', al_slot_indices = [1], al_gpu_count = 1, al_reason_code = ''R''\<rparr>,
       \<lparr>al_job_id = ''b'', al_slot_indices = [0], al_gpu_count = 3, al_reason_code = ''R''\<rparr>] = - 3"
    by (simp add: plan_cost_def choice_cost_def optimize_simps negative_request_def example_request_def example_job_def example_slot_def)
  ultimately show "\<exists>request res plan as. wf_schedule request \<and> optimize (\<lambda>_. ''h'') (\<lambda>_. False) 0 request = Inr res \<and>
      or_status res = ''optimal'' \<and> or_plan res = Some plan \<and>
      schedule_feasible request as \<and> plan_cost request as < sp_estimated_cost plan"
    using negative_optimum by force
qed

section \<open>HiGHS\<close>

text \<open>
  \<open>HighsSolver.solve\<close>: the rows of the model in compressed form (\<open>row_starts\<close>, \<open>row_indices\<close>,
  \<open>row_values\<close>), with \<open>None\<close> for the infinite lower bound, and what is made of the outcome.
\<close>

datatype highs_status = KOptimal | KTimeLimit | KInfeasible | KOther

record milp =
  ml_costs :: "rat list"
  ml_lower :: "rat option list"
  ml_upper :: "rat list"
  ml_row_starts :: "nat list"
  ml_row_indices :: "nat list"
  ml_row_values :: "rat list"

record highs_outcome =
  ho_status :: highs_status
  ho_status_text :: string
  ho_col_value :: "rat list"
  ho_objective :: decimal
  ho_mip_gap :: decimal
  ho_run_time :: rat
  ho_version :: string

type_synonym variable = "nat \<times> nat \<times> int list"

definition milp_variables :: "int list list list \<Rightarrow> variable list" where
  "milp_variables choices =
     concat (map (\<lambda>(j, os). map (\<lambda>(k, c). (j, k, c)) (enumerate 0 os)) (enumerate 0 choices))"

definition variable_index :: "variable list \<Rightarrow> nat \<Rightarrow> nat \<Rightarrow> nat" where
  \<comment> \<open>the position of the variable of a job and an option\<close>
  "variable_index vars j k = length (takeWhile (\<lambda>(j', k', c). (j', k') \<noteq> (j, k)) vars)"

definition add_row :: "rat option \<Rightarrow> rat \<Rightarrow> (nat \<times> rat) list \<Rightarrow> milp \<Rightarrow> milp" where
  "add_row lo hi entries m =
     m\<lparr>ml_lower := ml_lower m @ [lo], ml_upper := ml_upper m @ [hi],
       ml_row_indices := ml_row_indices m @ map fst entries, ml_row_values := ml_row_values m @ map snd entries,
       ml_row_starts := ml_row_starts m @ [length (ml_row_indices m) + length entries]\<rparr>"

definition slot_entries :: "schedule_input \<Rightarrow> variable list \<Rightarrow> (job \<Rightarrow> rat) \<Rightarrow> time_slot \<Rightarrow> (nat \<times> rat) list" where
  "slot_entries request vars weight slot =
     map (\<lambda>(v, j, k, c). (v, to_double (weight (si_jobs request ! j))))
       (filter (\<lambda>(v, j, k, c). ts_index slot \<in> set c) (enumerate 0 vars))"

definition build_milp :: "schedule_input \<Rightarrow> int list list list \<Rightarrow> milp result" where
  "build_milp request choices =
     (let vars = milp_variables choices in
      rbind (rmap_list (\<lambda>(j, k, c). rbind (option_cost (si_slots request) (si_jobs request ! j) c) (\<lambda>cost. Inr (to_double cost))) vars) (\<lambda>costs.
        let start = \<lparr>ml_costs = costs, ml_lower = [], ml_upper = [], ml_row_starts = [0], ml_row_indices = [], ml_row_values = []\<rparr>;
            one_option = fold (\<lambda>(j, os). add_row (Some 1) 1 (map (\<lambda>k. (variable_index vars j k, 1)) [0..<length os]))
                           (enumerate 0 choices) start;
            gpus = fold (\<lambda>slot. add_row None (to_double (of_int (ts_gpu_capacity slot)))
                           (slot_entries request vars (\<lambda>job. of_int (rr_gpu_count (jb_request job))) slot))
                     (si_slots request) one_option
        in Inr (fold (\<lambda>slot. add_row None (to_double (ts_power_capacity_kw slot))
                        (slot_entries request vars
                           (\<lambda>job. dmul (of_int (rr_gpu_count (jb_request job))) (rr_power_kw_per_gpu (jb_request job))) slot))
                  (si_slots request) gpus)))"

definition selected_options :: "variable list \<Rightarrow> rat list \<Rightarrow> (nat, int list) dict" where
  "selected_options vars col_value =
     dict_of (map (\<lambda>(v, j, k, c). (j, c)) (filter (\<lambda>(v, j, k, c). col_value ! v > 1 / 2) (enumerate 0 vars)))"

definition highs_solve ::
  "(schedule_input \<Rightarrow> string) \<Rightarrow> bool \<Rightarrow> (milp \<Rightarrow> highs_outcome) \<Rightarrow> schedule_input \<Rightarrow> optimization_result result" where
  "highs_solve content_hash available highs request =
     (if \<not> available then Inl (RuntimeError ''HiGHS is not installed; no silent solver fallback is permitted'')
      else
        rbind (rmap_list (job_options request) (si_jobs request)) (\<lambda>choices.
          let empty = map (\<lambda>(job, os). jb_id job) (filter (\<lambda>(job, os). os = []) (zip (si_jobs request) choices));
              vars = milp_variables choices in
          if empty \<noteq> [] then
            Inr (no_plan ''infeasible'' ''highs'' 0 0 (map (\<lambda>j. ''JOB_NO_FEASIBLE_WINDOW:'' @ j) empty))
          else
            rbind (build_milp request choices) (\<lambda>m.
              let out = highs m; solver = ''highs-'' @ ho_version out in
              if ho_status out \<notin> {KOptimal, KTimeLimit} then
                Inr (no_plan (if ho_status out = KInfeasible then ''infeasible'' else ''failed'') solver 0 (ho_run_time out)
                       [''HIGHS_STATUS:'' @ ho_status_text out])
              else if length (ho_col_value out) < length vars then Inl IndexError
              else
                let selected = selected_options vars (ho_col_value out) in
                if length selected \<noteq> length (si_jobs request) then
                  Inr (no_plan ''timeout'' solver (ho_mip_gap out) (ho_run_time out) [''NO_INTEGER_INCUMBENT''])
                else
                  rbind (rmap_list (key_of selected (\<lambda>n. string_of_nat n)) [0..<length (si_jobs request)]) (\<lambda>cs.
                  rbind (chosen_plan content_hash request ''milp_highs'' [''time-indexed binary MILP''] (ho_objective out) cs) (\<lambda>plan.
                    Inr \<lparr>or_status = (if ho_status out = KOptimal then ''optimal'' else ''feasible_timeout''),
                         or_plan = Some plan,
                         or_objective_breakdown = [(''energy_cost'', ho_objective out), (''delay'', 0)],
                         or_solver = solver, or_gap = ho_mip_gap out, or_runtime_seconds = ho_run_time out,
                         or_assumptions = sp_assumptions plan, or_diagnostics = []\<rparr>)))))"

lemma milp_variables_mem:
  "(j, k, c) \<in> set (milp_variables choices) \<Longrightarrow> j < length choices \<and> c \<in> set (choices ! j)"
  by (auto simp: milp_variables_def in_set_enumerate_eq)

lemma selected_options_mem:
  assumes "dget (selected_options (milp_variables choices) xs) j = Some c"
  shows "j < length choices \<and> c \<in> set (choices ! j)"
proof -
  have "(j, c) \<in> set (rev (map (\<lambda>(v, j, k, c). (j, c)) (filter (\<lambda>(v, j, k, c). xs ! v > 1 / 2) (enumerate 0 (milp_variables choices)))))"
    using assms unfolding selected_options_def dget_dict_of by (rule dget_entry)
  then obtain v k where "(v, j, k, c) \<in> set (enumerate 0 (milp_variables choices))" by auto
  then have "(j, k, c) \<in> set (milp_variables choices)"
    using nth_mem [of v "milp_variables choices"] by (simp add: in_set_enumerate_eq)
  then show ?thesis by (rule milp_variables_mem)
qed

lemma chosen_plan_validated:
  assumes u: "usable_request request" and w: "list_all2 (window request) (si_jobs request) cs"
    and ok: "chosen_plan content_hash request strategy assumptions cost cs = Inr plan"
  shows "schedule_feasible request (sp_allocations plan)"
proof -
  let ?as = "allocations_of (zip (si_jobs request) cs)"
  have ws: "wf_slots (si_slots request)" and dist: "distinct (map jb_id (si_jobs request))"
    using u by (simp_all add: usable_request_def wf_schedule_def)
  from ok have p: "sp_allocations plan = ?as" "validate_plan request plan = Inr ()"
    by (auto simp: chosen_plan_def rbind_eq_Inr Let_def allocations_of_def)
  have nonneg: "0 \<le> al_gpu_count a" if "a \<in> set (sp_allocations plan)" for a
    using that usable_request_job(1) [OF u] unfolding p(1) by (auto simp: allocations_of_def dest: set_zip_leftD)
  from p(2) have v: "\<forall>a \<in> set ?as. allocation_valid request ?as a"
    using validate_plan_iff [OF ws dist, of plan] nonneg unfolding p(1) by simp
  have "\<forall>c \<in> set cs. \<forall>i \<in> set c. placement_use (zip (si_jobs request) cs) i \<le> ts_gpu_capacity (si_slots request ! nat i)"
  proof (intro ballI)
    fix c i assume c: "c \<in> set cs" "i \<in> set c"
    have "c \<in> set (map al_slot_indices ?as)" using list_all2_lengthD [OF w] c(1) by simp
    then obtain a where "a \<in> set ?as" "al_slot_indices a = c" unfolding set_map by blast
    then show "placement_use (zip (si_jobs request) cs) i \<le> ts_gpu_capacity (si_slots request ! nat i)"
      using v c(2) unfolding allocation_valid_def used_gpus_allocations_of by blast
  qed
  then show ?thesis unfolding p(1) by (rule feasible_allocations [OF w])
qed

text \<open>
  Further: The HiGHS back end does not trust the solver. Whatever HiGHS answers - a wrong status, values that are
  not integral, an objective of its own - a plan that \<open>solve\<close> returns places every job in a window it may
  use and keeps the GPU capacity of every slot and every deadline.
\<close>
theorem highs_answer_is_checked:
  assumes "usable_request request" "highs_solve content_hash available highs request = Inr res" "or_plan res = Some plan"
  shows "schedule_feasible request (sp_allocations plan)"
proof -
  obtain oss where oss: "rmap_list (job_options request) (si_jobs request) = Inr oss"
    and win: "list_all2 (\<lambda>job os. set os = {c. window request job c}) (si_jobs request) oss"
    using options_total [OF assms(1)] by blast
  from assms(2,3) oss obtain xs cost cs where
    cs: "rmap_list (key_of (selected_options (milp_variables oss) xs) (\<lambda>n. string_of_nat n)) [0..<length (si_jobs request)] = Inr cs"
    and plan: "chosen_plan content_hash request ''milp_highs'' [''time-indexed binary MILP''] cost cs = Inr plan"
    by (auto simp: highs_solve_def rbind_eq_Inr Let_def no_plan_def split: if_splits)
  have "list_all2 (window request) (si_jobs request) cs"
    unfolding list_all2_conv_all_nth
  proof (intro conjI allI impI)
    show "length (si_jobs request) = length cs" using rmap_list_length [OF cs] by simp
    fix i assume i: "i < length (si_jobs request)"
    have "dget (selected_options (milp_variables oss) xs) i = Some (cs ! i)"
      using rmap_list_nth [OF cs, of i] i by (simp add: key_of_def split: option.splits)
    from selected_options_mem [OF this] show "window request (si_jobs request ! i) (cs ! i)"
      using win i by (auto simp: list_all2_conv_all_nth)
  qed
  then show ?thesis by (rule chosen_plan_validated [OF assms(1) _ plan])
qed

definition lying_highs :: "milp \<Rightarrow> highs_outcome" where
  \<comment> \<open>a solver that answers the same to every model and claims a negative objective\<close>
  "lying_highs m =
     \<lparr>ho_status = KOptimal, ho_status_text = ''Optimal'', ho_col_value = [1, 0, 0, 7 / 10],
      ho_objective = - 7, ho_mip_gap = 0, ho_run_time = 0, ho_version = ''1.7''\<rparr>"

lemma to_double_small: "to_double 1 = 1"
proof -
  have "exponent2 1 = 0" by (simp add: exponent2_def bit_length.simps)
  then show ?thesis
    using round_half_even_int [of "2 ^ 52"] by (simp add: to_double_def Let_def power_int_def power_one_over)
qed

theorem highs_answer_is_checked_witness:
  "\<exists>res plan. highs_solve (\<lambda>_. ''digest'') True lying_highs two_jobs = Inr res \<and> or_plan res = Some plan \<and>
     schedule_feasible two_jobs (sp_allocations plan)"
proof -
  have "\<exists>res plan. highs_solve (\<lambda>_. ''digest'') True lying_highs two_jobs = Inr res \<and> or_plan res = Some plan"
    by (simp add: highs_solve_def lying_highs_def build_milp_def milp_variables_def selected_options_def optimize_simps
        two_jobs_def example_request_def example_job_def example_slot_def upt_rec add_row_def slot_entries_def)
  then show ?thesis using highs_answer_is_checked [OF two_jobs_usable] by blast
qed

end
