(* ===== verification/Topology.thy ===== *)
theory Topology
  imports Domain Persistence
begin

text \<open>
  \<open>packages/topology\<close>: the asset graph with its validation (Kahn's algorithm) and traversal, the registry
  of drafts and published versions in memory and on PostgreSQL, version comparison and the CSV import.

  The digest that becomes the etag and the moment \<open>utc_now()\<close> are parameters, and so is the text of a
  decimal (\<open>str(Decimal)\<close> depends on the exponent, which a rational does not have); a row that is stored
  as JSON is what \<open>json.dumps(asdict(item), default=str)\<close> gives.
\<close>

section \<open>Assets\<close>

datatype asset_type =
    ORGANIZATION | REGION | CAMPUS | SITE | DATA_CENTER | ROOM | RACK | POWER_ZONE | COOLING_ZONE | COMPUTE_NODE | ENERGY_ASSET

fun asset_type_text :: "asset_type \<Rightarrow> string" where
  "asset_type_text ORGANIZATION = ''organization''"
| "asset_type_text REGION = ''region''"
| "asset_type_text CAMPUS = ''campus''"
| "asset_type_text SITE = ''site''"
| "asset_type_text DATA_CENTER = ''data_center''"
| "asset_type_text ROOM = ''room''"
| "asset_type_text RACK = ''rack''"
| "asset_type_text POWER_ZONE = ''power_zone''"
| "asset_type_text COOLING_ZONE = ''cooling_zone''"
| "asset_type_text COMPUTE_NODE = ''compute_node''"
| "asset_type_text ENERGY_ASSET = ''energy_asset''"

definition asset_types :: "asset_type list" where
  "asset_types = [ORGANIZATION, REGION, CAMPUS, SITE, DATA_CENTER, ROOM, RACK, POWER_ZONE, COOLING_ZONE, COMPUTE_NODE, ENERGY_ASSET]"

definition parse_asset_type :: "string \<Rightarrow> asset_type result" where
  "parse_asset_type s =
     (case find (\<lambda>k. asset_type_text k = s) asset_types of
        Some k \<Rightarrow> Inr k
      | None \<Rightarrow> Inl (ValueError (repr_string s @ '' is not a valid AssetType'')))"

record asset =
  as_id :: string
  as_tenant_id :: string
  as_site_id :: string
  as_kind :: asset_type
  as_name :: string
  as_capacity_kw :: decimal
  as_attributes :: "(string, string) dict"
  as_effective :: "time_interval option"
  as_decommissioned_at :: "datetime option"

record relationship =
  rl_parent_id :: string
  rl_child_id :: string
  rl_kind :: string

record topology_snapshot =
  tp_version :: int
  tp_tenant_id :: string
  tp_assets :: "asset list"
  tp_relationships :: "relationship list"
  tp_published_at :: datetime
  tp_etag :: string

definition snapshot_asset :: "topology_snapshot \<Rightarrow> string \<Rightarrow> asset result" where
  "snapshot_asset s asset_id =
     (case find (\<lambda>a. as_id a = asset_id) (tp_assets s) of Some a \<Rightarrow> Inr a | None \<Rightarrow> Inl (KeyError asset_id))"

definition asset_active_at :: "datetime \<Rightarrow> asset \<Rightarrow> bool result" where
  "asset_active_at moment a =
     rbind (case as_effective a of None \<Rightarrow> Inr True | Some iv \<Rightarrow> contains iv moment) (\<lambda>effective.
       if \<not> effective then Inr False
       else case as_decommissioned_at a of None \<Rightarrow> Inr True | Some end_of_life \<Rightarrow> dt_lt moment end_of_life)"

definition active_at :: "topology_snapshot \<Rightarrow> datetime \<Rightarrow> asset list result" where
  "active_at s moment = rfilter (asset_active_at moment) (tp_assets s)"

section \<open>Validation\<close>

definition asset_dict_by_id :: "asset list \<Rightarrow> (string, asset) dict" where
  "asset_dict_by_id assets = dict_of (map (\<lambda>a. (as_id a, a)) assets)"

type_synonym child_map = "(string, string list) dict"

definition add_edge :: "relationship \<Rightarrow> child_map \<Rightarrow> child_map" where
  \<comment> \<open>\<open>children[parent].append(child)\<close> on a \<open>defaultdict\<close>\<close>
  "add_edge r children = dput (rl_parent_id r) (dget_or children (rl_parent_id r) [] @ [rl_child_id r]) children"

fun collect_edges ::
  "(string, asset) dict \<Rightarrow> relationship list \<Rightarrow> child_map \<Rightarrow> (string, int) dict \<Rightarrow> (child_map \<times> (string, int) dict) result" where
  "collect_edges by_id [] children indegree = Inr (children, indegree)"
| "collect_edges by_id (r # rs) children indegree =
     (case (dget by_id (rl_parent_id r), dget by_id (rl_child_id r)) of
        (Some parent, Some child) \<Rightarrow>
          if as_tenant_id parent \<noteq> as_tenant_id child then Inl (ValueError ''cross-tenant topology relationship'')
          else
            rbind (key_of indegree (\<lambda>k. k) (rl_child_id r)) (\<lambda>n.
              collect_edges by_id rs (add_edge r children) (dput (rl_child_id r) (n + 1) indegree))
      | _ \<Rightarrow> Inl (ValueError ''orphan topology relationship''))"

fun release_children :: "string list \<Rightarrow> (string, int) dict \<Rightarrow> string list \<Rightarrow> (string, int) dict \<times> string list" where
  \<comment> \<open>the loop over \<open>children[node]\<close>; every child is a key of \<open>indegree\<close>\<close>
  "release_children [] indegree queue = (indegree, queue)"
| "release_children (child # cs) indegree queue =
     (let n = dget_or indegree child 0 - 1;
          indegree = dput child n indegree
      in release_children cs indegree (if n = 0 then queue @ [child] else queue))"

definition waiting :: "(string, int) dict \<Rightarrow> nat" where
  "waiting indegree = card {k. \<exists>n. dget indegree k = Some n \<and> 0 < n}"

lemma waiting_finite: "finite {k. \<exists>n. dget indegree k = Some n \<and> (0 :: int) < n}"
proof (rule finite_subset)
  show "{k. \<exists>n. dget indegree k = Some n \<and> 0 < n} \<subseteq> set (dkeys indegree)"
    by (auto dest: map_of_SomeD simp: rev_image_eqI)
qed simp

lemma waiting_put:
  assumes "n = dget_or indegree child 0 - 1"
  shows "waiting (dput child n indegree) + (if n = 0 then 1 else 0) \<le> waiting indegree"
proof (cases "0 < dget_or indegree child 0")
  case False
  then have "{k. \<exists>m. dget (dput child n indegree) k = Some m \<and> 0 < m} \<subseteq> {k. \<exists>m. dget indegree k = Some m \<and> 0 < m}"
    using assms by (auto split: if_splits)
  then have "waiting (dput child n indegree) \<le> waiting indegree"
    unfolding waiting_def by (rule card_mono [OF waiting_finite])
  then show ?thesis using False assms by auto
next
  case True
  then obtain m where m: "dget indegree child = Some m" "0 < m" "n = m - 1"
    using assms by (auto simp: dget_or_def split: option.splits)
  let ?A = "{k. \<exists>m. dget indegree k = Some m \<and> 0 < m}" and ?B = "{k. \<exists>m. dget (dput child n indegree) k = Some m \<and> 0 < m}"
  show ?thesis
  proof (cases "n = 0")
    case True
    then have "?B = ?A - {child}" by (auto split: if_splits)
    moreover have "child \<in> ?A" using m by auto
    ultimately show ?thesis using True card_Suc_Diff1 [OF waiting_finite [of indegree], of child] by (simp add: waiting_def)
  next
    case False
    then have "?B \<subseteq> ?A" using m by (auto split: if_splits)
    then show ?thesis using False card_mono [OF waiting_finite [of indegree], of ?B] by (simp add: waiting_def)
  qed
qed

lemma release_children_waiting:
  "release_children cs indegree queue = (indegree', queue') \<Longrightarrow>
     waiting indegree' + length queue' \<le> waiting indegree + length queue"
proof (induction cs indegree queue rule: release_children.induct)
  case (2 child cs indegree queue)
  let ?n = "dget_or indegree child 0 - 1"
  have "waiting indegree' + length queue' \<le> waiting (dput child ?n indegree) + length (if ?n = 0 then queue @ [child] else queue)"
    using 2(1) [OF refl refl] 2(2) by (simp add: Let_def)
  then show ?case using waiting_put [of ?n indegree child] by (simp split: if_splits)
qed simp

function kahn :: "child_map \<Rightarrow> string list \<Rightarrow> (string, int) dict \<Rightarrow> nat \<Rightarrow> nat" where
  "kahn children [] indegree visited = visited"
| "kahn children (node # queue) indegree visited =
     (case release_children (dget_or children node []) indegree queue of
        (indegree, queue) \<Rightarrow> kahn children queue indegree (Suc visited))"
  by pat_completeness auto
termination
proof (relation "measure (\<lambda>(children, queue, indegree, visited). waiting indegree + length queue)")
  fix children :: child_map and node queue indegree visited x y
  assume "(x, y) = release_children (dget_or children node []) indegree queue"
  from release_children_waiting [OF this [symmetric]]
  show "((children, y, x, Suc visited), (children, node # queue, indegree, visited))
      \<in> measure (\<lambda>(children, queue, indegree, visited). waiting indegree + length queue)"
    by simp
qed simp

definition capacity_exceeded :: "(string, asset) dict \<Rightarrow> string \<times> string list \<Rightarrow> bool result" where
  "capacity_exceeded by_id entry =
     (case entry of (parent_id, child_ids) \<Rightarrow>
        rbind (key_of by_id (\<lambda>k. k) parent_id) (\<lambda>parent.
        rbind (rmap_list (key_of by_id (\<lambda>k. k)) child_ids) (\<lambda>cs.
          Inr (as_capacity_kw parent > 0 \<and> dsum (map as_capacity_kw cs) > as_capacity_kw parent))))"

fun check_capacities :: "(string, asset) dict \<Rightarrow> child_map \<Rightarrow> unit result" where
  "check_capacities by_id [] = Inr ()"
| "check_capacities by_id (entry # rest) =
     rbind (capacity_exceeded by_id entry) (\<lambda>exceeded.
       if exceeded then Inl (ValueError (''child capacity exceeds boundary '' @ fst entry))
       else check_capacities by_id rest)"

definition validate_graph :: "asset list \<Rightarrow> relationship list \<Rightarrow> unit result" where
  "validate_graph assets relationships =
     (let by_id = asset_dict_by_id assets in
      if length by_id \<noteq> length assets then Inl (ValueError ''duplicate asset ID'')
      else
        rbind (collect_edges by_id relationships [] (dict_of (map (\<lambda>a. (as_id a, 0)) assets))) (\<lambda>(children, indegree).
          let queue = map fst (filter (\<lambda>(k, n). n = 0) indegree) in
          if kahn children queue indegree 0 \<noteq> length assets then Inl (ValueError ''topology contains a cycle'')
          else check_capacities by_id children))"

section \<open>Traversal\<close>

definition edges_of :: "relationship list \<Rightarrow> child_map" where
  "edges_of relationships = fold add_edge relationships []"

function bfs :: "(string, asset) dict \<Rightarrow> child_map \<Rightarrow> string list \<Rightarrow> string set \<Rightarrow> asset list \<Rightarrow> asset list result" where
  "bfs by_id edges [] seen found = Inr found"
| "bfs by_id edges (node # queue) seen found =
     (if node \<in> seen then bfs by_id edges queue seen found
      else
        case dget by_id node of
          None \<Rightarrow> Inl (KeyError node)
        | Some a \<Rightarrow> bfs by_id edges (queue @ dget_or edges node []) (insert node seen) (found @ [a]))"
  by pat_completeness auto
termination
proof (relation "measures [\<lambda>(by_id, edges, queue, seen, found). card (set (dkeys edges) - seen), \<lambda>(by_id, edges, queue, seen, found). length queue]")
  fix by_id :: "(string, asset) dict" and edges :: child_map and node :: string and queue seen found a
  assume "node \<notin> seen"
  show "((by_id, edges, queue @ dget_or edges node [], insert node seen, found @ [a]), (by_id, edges, node # queue, seen, found)) \<in>
      measures [\<lambda>(by_id, edges, queue, seen, found). card (set (dkeys edges) - seen), \<lambda>(by_id, edges, queue, seen, found). length queue]"
  proof (cases "node \<in> set (dkeys edges)")
    case True
    then have "set (dkeys edges) - insert node seen \<subset> set (dkeys edges) - seen" using \<open>node \<notin> seen\<close> by auto
    then have "card (set (dkeys edges) - insert node seen) < card (set (dkeys edges) - seen)"
      by (intro psubset_card_mono) auto
    then show ?thesis by simp
  next
    case False
    then have "set (dkeys edges) - insert node seen = set (dkeys edges) - seen" by auto
    moreover have "dget_or edges node [] = []" using False by (simp add: dget_or_def dget_None_keys [THEN iffD2] del: set_map)
    ultimately show ?thesis by simp
  qed
qed simp_all

definition descendants :: "asset list \<Rightarrow> relationship list \<Rightarrow> string \<Rightarrow> asset list result" where
  "descendants assets relationships start =
     (let by_id = asset_dict_by_id assets; edges = edges_of relationships in
      if dget by_id start = None then Inl (KeyError start)
      else bfs by_id edges (dget_or edges start []) {} [])"

section \<open>Kahn's algorithm decides acyclicity\<close>

definition edge_rel :: "relationship list \<Rightarrow> (string \<times> string) set" where
  "edge_rel rs = {(rl_parent_id r, rl_child_id r) | r. r \<in> set rs}"

definition children_of :: "relationship list \<Rightarrow> string \<Rightarrow> string list" where
  "children_of rs p = map rl_child_id (filter (\<lambda>r. rl_parent_id r = p) rs)"

definition open_parents :: "relationship list \<Rightarrow> string set \<Rightarrow> string \<Rightarrow> nat" where
  \<comment> \<open>the relationships into a node from parents that are not processed\<close>
  "open_parents rs P k = length (filter (\<lambda>r. rl_child_id r = k \<and> rl_parent_id r \<notin> P) rs)"

lemma children_of_edge: "c \<in> set (children_of rs p) \<longleftrightarrow> (p, c) \<in> edge_rel rs"
  by (auto simp: children_of_def edge_rel_def)

lemma open_parents_0: "open_parents rs P k = 0 \<longleftrightarrow> (\<forall>p. (p, k) \<in> edge_rel rs \<longrightarrow> p \<in> P)"
  by (auto simp: open_parents_def edge_rel_def filter_empty_conv)

lemma open_parents_insert:
  assumes "q \<notin> P"
  shows "open_parents rs P k = open_parents rs (insert q P) k + count_list (children_of rs q) k"
  using assms by (induction rs) (auto simp: open_parents_def children_of_def)

lemma dget_or_put [simp]: "dget_or (dput k v d) k' x = (if k' = k then v else dget_or d k' x)"
  by (simp add: dget_or_def)

lemma release_children_spec:
  assumes "release_children cs indegree queue = (indegree', queue')"
    and "\<And>k. k \<in> set cs \<Longrightarrow> int (count_list cs k) \<le> dget_or indegree k 0"
    and "distinct queue" "set queue \<inter> set cs = {}"
  shows "(\<forall>k. dget_or indegree' k 0 = dget_or indegree k 0 - int (count_list cs k)) \<and> distinct queue' \<and>
    set queue' = set queue \<union> {k \<in> set cs. dget_or indegree k 0 = int (count_list cs k)}"
  using assms
proof (induction cs indegree queue rule: release_children.induct)
  case (2 child cs indegree queue)
  let ?n = "dget_or indegree child 0 - 1"
  let ?i = "dput child ?n indegree" and ?q = "if ?n = 0 then queue @ [child] else queue"
  have step: "release_children cs ?i ?q = (indegree', queue')" using 2(2) by (simp add: Let_def)
  have bound: "int (count_list (child # cs) k) \<le> dget_or indegree k 0" if "k \<in> set (child # cs)" for k
    using 2(3) [OF that] .
  have zero: "child \<notin> set cs" if "?n = 0"
  proof
    assume "child \<in> set cs"
    then have "0 < count_list cs child" by (metis count_list_0_iff neq0_conv)
    then show False using bound [of child] that by simp
  qed
  have IH: "(\<forall>k. dget_or indegree' k 0 = dget_or ?i k 0 - int (count_list cs k)) \<and> distinct queue' \<and>
      set queue' = set ?q \<union> {k \<in> set cs. dget_or ?i k 0 = int (count_list cs k)}"
  proof (rule 2(1) [OF refl refl step])
    fix k assume k: "k \<in> set cs"
    then show "int (count_list cs k) \<le> dget_or ?i k 0" using bound [of k] by (auto split: if_splits)
  next
    show "distinct ?q" "set ?q \<inter> set cs = {}" using 2(4,5) zero by auto
  qed
  have eq: "set ?q \<union> {k \<in> set cs. dget_or ?i k 0 = int (count_list cs k)} =
      set queue \<union> {k \<in> set (child # cs). dget_or indegree k 0 = int (count_list (child # cs) k)}"
    using zero by (cases "child \<in> set cs") (auto simp: count_notin split: if_splits)
  show ?case using IH unfolding eq by auto
qed simp

definition kahn_inv :: "string set \<Rightarrow> relationship list \<Rightarrow> string list \<Rightarrow> string list \<Rightarrow> (string, int) dict \<Rightarrow> bool" where
  "kahn_inv N rs P queue indegree \<longleftrightarrow>
     distinct (P @ queue) \<and> set (P @ queue) \<subseteq> N \<and>
     (\<forall>k \<in> N. dget_or indegree k 0 = int (open_parents rs (set P) k)) \<and>
     (\<forall>k \<in> N. k \<in> set (P @ queue) \<longleftrightarrow> open_parents rs (set P) k = 0) \<and>
     (\<forall>i < length P. \<forall>p. (p, P ! i) \<in> edge_rel rs \<longrightarrow> p \<in> set (take i P))"

lemma kahn_inv_step:
  assumes inv: "kahn_inv N rs P (node # queue) indegree" and closed: "edge_rel rs \<subseteq> N \<times> N"
    and rel: "release_children (children_of rs node) indegree queue = (indegree', queue')"
  shows "kahn_inv N rs (P @ [node]) queue' indegree'"
proof -
  have node: "node \<notin> set P" "node \<in> N" "node \<notin> set queue" using inv by (auto simp: kahn_inv_def)
  have split: "open_parents rs (set P) k = open_parents rs (set (P @ [node])) k + count_list (children_of rs node) k" for k
    using open_parents_insert [OF node(1), of rs k] by (simp add: insert_commute)
  have ind: "dget_or indegree k 0 = int (open_parents rs (set P) k)" if "k \<in> N" for k
    using inv that by (simp add: kahn_inv_def)
  have zero: "k \<in> set (P @ node # queue) \<longleftrightarrow> open_parents rs (set P) k = 0" if "k \<in> N" for k
    using inv that by (simp add: kahn_inv_def)
  have cN: "k \<in> N" if "k \<in> set (children_of rs node)" for k
    using that closed by (auto simp: children_of_edge)
  have "0 < count_list (children_of rs node) k" if "k \<in> set (children_of rs node)" for k
    using that by (metis count_list_0_iff neq0_conv)
  then have fresh: "k \<notin> set (P @ node # queue)" if "k \<in> set (children_of rs node)" for k
    using zero [OF cN [OF that]] split [of k] that by fastforce
  have spec: "(\<forall>k. dget_or indegree' k 0 = dget_or indegree k 0 - int (count_list (children_of rs node) k)) \<and> distinct queue' \<and>
      set queue' = set queue \<union> {k \<in> set (children_of rs node). dget_or indegree k 0 = int (count_list (children_of rs node) k)}"
  proof (rule release_children_spec [OF rel])
    show "int (count_list (children_of rs node) k) \<le> dget_or indegree k 0" if "k \<in> set (children_of rs node)" for k
      using ind [OF cN [OF that]] split [of k] by simp
    show "distinct queue" using inv by (simp add: kahn_inv_def)
    show "set queue \<inter> set (children_of rs node) = {}" using fresh by auto
  qed
  have q: "set queue' = set queue \<union> {k \<in> set (children_of rs node). open_parents rs (set (P @ [node])) k = 0}"
    using spec ind cN split by fastforce
  show ?thesis
    unfolding kahn_inv_def
  proof (intro conjI ballI allI impI)
    show "distinct ((P @ [node]) @ queue')" using inv spec q fresh by (auto simp: kahn_inv_def)
    show "set ((P @ [node]) @ queue') \<subseteq> N" using inv q cN by (auto simp: kahn_inv_def)
    fix k assume k: "k \<in> N"
    show "dget_or indegree' k 0 = int (open_parents rs (set (P @ [node])) k)"
      using spec ind [OF k] split [of k] by simp
    show "k \<in> set ((P @ [node]) @ queue') \<longleftrightarrow> open_parents rs (set (P @ [node])) k = 0"
    proof (cases "k \<in> set (children_of rs node)")
      case True
      then show ?thesis using q fresh by auto
    next
      case False
      then have "count_list (children_of rs node) k = 0" by (simp add: count_notin)
      then show ?thesis using q False zero [OF k] split [of k] by auto
    qed
  next
    fix i p assume i: "i < length (P @ [node])" and e: "(p, (P @ [node]) ! i) \<in> edge_rel rs"
    show "p \<in> set (take i (P @ [node]))"
    proof (cases "i < length P")
      case True
      then show ?thesis using inv e by (auto simp: kahn_inv_def nth_append)
    next
      case False
      then have "i = length P" using i by simp
      then show ?thesis using e zero [OF node(2)] by (auto simp: open_parents_0)
    qed
  qed
qed

lemma kahn_result:
  assumes "\<And>p. dget_or children p [] = children_of rs p" "edge_rel rs \<subseteq> N \<times> N" "kahn_inv N rs P queue indegree" "visited = length P"
  shows "\<exists>P' indegree'. kahn children queue indegree visited = length P' \<and> kahn_inv N rs P' [] indegree'"
  using assms(1,3,4)
proof (induction children queue indegree visited arbitrary: P rule: kahn.induct)
  case (2 children node queue indegree visited)
  obtain indegree' queue' where rel: "release_children (dget_or children node []) indegree queue = (indegree', queue')"
    by (cases "release_children (dget_or children node []) indegree queue")
  have "kahn_inv N rs (P @ [node]) queue' indegree'"
    by (rule kahn_inv_step [OF 2(3) assms(2)]) (use rel 2(2) in simp)
  from 2(1) [OF rel [symmetric] 2(2) this] show ?case using 2(4) rel by simp
qed auto

lemma kahn_decides:
  assumes inv: "kahn_inv N rs P [] indegree" and closed: "edge_rel rs \<subseteq> N \<times> N" and "finite N"
  shows "length P = card N \<longleftrightarrow> acyclic (edge_rel rs)"
proof
  have P: "distinct P" "set P \<subseteq> N" using inv by (simp_all add: kahn_inv_def)
  assume "length P = card N"
  then have N: "set P = N" using P \<open>finite N\<close> by (metis card_subset_eq distinct_card)
  define idx where "idx x = (LEAST i. i < length P \<and> P ! i = x)" for x
  have idx: "idx (P ! i) = i" if "i < length P" for i
    unfolding idx_def using P(1) that by (intro Least_equality) (auto simp: nth_eq_iff_index_eq)
  have "edge_rel rs \<subseteq> measure idx"
  proof
    fix e assume e: "e \<in> edge_rel rs"
    obtain p c where pc: "e = (p, c)" by (cases e)
    then have "c \<in> set P" using e closed N by auto
    then obtain i where i: "i < length P" "c = P ! i" by (auto simp: in_set_conv_nth)
    then have "p \<in> set (take i P)" using inv e pc by (auto simp: kahn_inv_def)
    then obtain j where "j < i" "p = P ! j" using i by (auto simp: in_set_conv_nth)
    then show "e \<in> measure idx" using i idx pc by simp
  qed
  then have "wf (edge_rel rs)" by (rule wf_subset [OF wf_measure])
  then show "acyclic (edge_rel rs)" by (rule wf_acyclic)
next
  assume ac: "acyclic (edge_rel rs)"
  have "finite (edge_rel rs)" using closed \<open>finite N\<close> by (meson finite_SigmaI finite_subset)
  with ac have wf: "wf (edge_rel rs)" by (rule finite_acyclic_wf [rotated])
  have "N - set P = {}"
  proof (rule ccontr)
    assume "N - set P \<noteq> {}"
    with wf obtain z where z: "z \<in> N - set P" "\<And>y. (y, z) \<in> edge_rel rs \<Longrightarrow> y \<notin> N - set P"
      by (metis wfE_min ex_in_conv)
    then have "open_parents rs (set P) z = 0" using closed by (auto simp: open_parents_0)
    then show False using z(1) inv by (auto simp: kahn_inv_def)
  qed
  then have "set P = N" "distinct P" using inv by (auto simp: kahn_inv_def)
  then show "length P = card N" by (metis distinct_card)
qed

section \<open>The validator accepts exactly the sound topologies\<close>

lemma collect_edges_ok:
  assumes "collect_edges by_id rs children indegree = Inr (children', indegree')"
  shows "(\<forall>r \<in> set rs. \<exists>p c. dget by_id (rl_parent_id r) = Some p \<and> dget by_id (rl_child_id r) = Some c \<and> as_tenant_id p = as_tenant_id c) \<and>
    (\<forall>p. dget_or children' p [] = dget_or children p [] @ children_of rs p) \<and>
    set (dkeys children') = set (dkeys children) \<union> rl_parent_id ` set rs \<and>
    (distinct (dkeys children) \<longrightarrow> distinct (dkeys children')) \<and>
    (\<forall>k. dget_or indegree' k 0 = dget_or indegree k 0 + int (open_parents rs {} k)) \<and>
    set (dkeys indegree') = set (dkeys indegree) \<and> (distinct (dkeys indegree) \<longrightarrow> distinct (dkeys indegree'))"
  using assms
proof (induction rs arbitrary: children indegree)
  case (Cons r rs)
  from Cons.prems obtain p c n where r: "dget by_id (rl_parent_id r) = Some p" "dget by_id (rl_child_id r) = Some c"
    "as_tenant_id p = as_tenant_id c" "dget indegree (rl_child_id r) = Some n"
    and step: "collect_edges by_id rs (add_edge r children) (dput (rl_child_id r) (n + 1) indegree) = Inr (children', indegree')"
    by (auto simp: key_of_def split: option.splits if_splits)
  have key: "rl_child_id r \<in> set (dkeys indegree)" using r(4) by (metis dget_None_keys option.distinct(1))
  have IH: "(\<forall>r \<in> set rs. \<exists>p c. dget by_id (rl_parent_id r) = Some p \<and> dget by_id (rl_child_id r) = Some c \<and> as_tenant_id p = as_tenant_id c) \<and>
    (\<forall>p. dget_or children' p [] = dget_or (add_edge r children) p [] @ children_of rs p) \<and>
    set (dkeys children') = set (dkeys (add_edge r children)) \<union> rl_parent_id ` set rs \<and>
    (distinct (dkeys (add_edge r children)) \<longrightarrow> distinct (dkeys children')) \<and>
    (\<forall>k. dget_or indegree' k 0 = dget_or (dput (rl_child_id r) (n + 1) indegree) k 0 + int (open_parents rs {} k)) \<and>
    set (dkeys indegree') = set (dkeys (dput (rl_child_id r) (n + 1) indegree)) \<and>
    (distinct (dkeys (dput (rl_child_id r) (n + 1) indegree)) \<longrightarrow> distinct (dkeys indegree'))"
    by (rule Cons.IH [OF step])
  then show ?case
    using r key by (auto simp: add_edge_def children_of_def open_parents_def dget_or_def insert_absorb)
qed (simp add: children_of_def open_parents_def)

lemma collect_edges_total:
  assumes "\<forall>r \<in> set rs. \<exists>p c. dget by_id (rl_parent_id r) = Some p \<and> dget by_id (rl_child_id r) = Some c \<and> as_tenant_id p = as_tenant_id c"
    and "rl_child_id ` set rs \<subseteq> set (dkeys indegree)"
  shows "\<exists>x. collect_edges by_id rs children indegree = Inr x"
  using assms
proof (induction rs arbitrary: children indegree)
  case (Cons r rs)
  obtain n where n: "dget indegree (rl_child_id r) = Some n"
    using Cons.prems(2) dget_None_keys [of indegree "rl_child_id r"] by (cases "dget indegree (rl_child_id r)") auto
  have "\<exists>x. collect_edges by_id rs (add_edge r children) (dput (rl_child_id r) (n + 1) indegree) = Inr x"
    using Cons.prems by (intro Cons.IH) auto
  moreover obtain p c where "dget by_id (rl_parent_id r) = Some p" "dget by_id (rl_child_id r) = Some c" "as_tenant_id p = as_tenant_id c"
    using Cons.prems(1) by auto
  ultimately show ?case using n by (simp add: key_of_def)
qed simp

definition child_capacities :: "asset list \<Rightarrow> relationship list \<Rightarrow> string \<Rightarrow> decimal list" where
  "child_capacities assets rs p =
     map (\<lambda>c. as_capacity_kw (the (dget (asset_dict_by_id assets) c))) (children_of rs p)"

definition sound_topology :: "asset list \<Rightarrow> relationship list \<Rightarrow> bool" where
  \<comment> \<open>distinct assets, relationships between assets of one tenant, no cycle, and no boundary with a
      capacity that its children exceed\<close>
  "sound_topology assets rs \<longleftrightarrow>
     distinct (map as_id assets) \<and>
     (\<forall>r \<in> set rs. \<exists>p \<in> set assets. \<exists>c \<in> set assets.
        as_id p = rl_parent_id r \<and> as_id c = rl_child_id r \<and> as_tenant_id p = as_tenant_id c) \<and>
     acyclic (edge_rel rs) \<and>
     (\<forall>p \<in> set assets. as_capacity_kw p > 0 \<longrightarrow> dsum (child_capacities assets rs (as_id p)) \<le> as_capacity_kw p)"

lemma length_by_id: "length (asset_dict_by_id assets) = length assets \<longleftrightarrow> distinct (map as_id assets)"
proof -
  let ?kvs = "map (\<lambda>a. (as_id a, a)) assets"
  have keys: "dkeys ?kvs = map as_id assets" by simp
  have "length (asset_dict_by_id assets) = card (set (map as_id assets))"
    using distinct_card [OF dict_of_distinct, of ?kvs] unfolding asset_dict_by_id_def by (simp add: image_image)
  then show ?thesis by (metis card_distinct distinct_card length_map)
qed

lemma dget_by_id:
  assumes "distinct (map as_id assets)"
  shows "dget (asset_dict_by_id assets) k = Some a \<longleftrightarrow> a \<in> set assets \<and> as_id a = k"
proof -
  have d: "distinct (dkeys (map (\<lambda>a. (as_id a, a)) assets))" using assms by (simp add: comp_def)
  show ?thesis unfolding asset_dict_by_id_def dict_of_distinct_id [OF d] dget_distinct_iff [OF d, symmetric] by auto
qed

lemma check_capacities_iff:
  assumes "\<And>p cs. (p, cs) \<in> set entries \<Longrightarrow> \<exists>a. dget by_id p = Some a \<and> (\<forall>c \<in> set cs. dget by_id c \<noteq> None)"
  shows "check_capacities by_id entries = Inr () \<longleftrightarrow>
    (\<forall>(p, cs) \<in> set entries. as_capacity_kw (the (dget by_id p)) > 0 \<longrightarrow>
       dsum (map (\<lambda>c. as_capacity_kw (the (dget by_id c))) cs) \<le> as_capacity_kw (the (dget by_id p)))"
  using assms
proof (induction entries)
  case (Cons e entries)
  obtain p cs where e: "e = (p, cs)" by (cases e)
  from Cons.prems [of p cs] e obtain a where a: "dget by_id p = Some a" "\<forall>c \<in> set cs. dget by_id c \<noteq> None" by auto
  have "rmap_list (key_of by_id (\<lambda>k. k)) cs = Inr (map (\<lambda>c. the (dget by_id c)) cs)"
    by (rule rmap_list_ok) (use a(2) in \<open>auto simp: key_of_def\<close>)
  then have "capacity_exceeded by_id e = Inr (as_capacity_kw a > 0 \<and> dsum (map (\<lambda>c. as_capacity_kw (the (dget by_id c))) cs) > as_capacity_kw a)"
    using a(1) by (simp add: capacity_exceeded_def e key_of_def comp_def)
  moreover have "check_capacities by_id entries = Inr () \<longleftrightarrow>
      (\<forall>(p, cs) \<in> set entries. as_capacity_kw (the (dget by_id p)) > 0 \<longrightarrow>
         dsum (map (\<lambda>c. as_capacity_kw (the (dget by_id c))) cs) \<le> as_capacity_kw (the (dget by_id p)))"
    by (rule Cons.IH) (rule Cons.prems, simp)
  ultimately show ?case using a(1) e by auto
qed simp

lemma queue_of_zeros:
  assumes "distinct (dkeys d)"
  shows "set (map fst (filter (\<lambda>(k, n). n = 0) d)) = {k \<in> set (dkeys d). dget_or d k 0 = (0 :: int)}"
    and "distinct (map fst (filter (\<lambda>(k, n). n = 0) d))"
proof -
  show "distinct (map fst (filter (\<lambda>(k, n). n = 0) d))" using assms by (rule distinct_map_filter)
  have get: "dget_or d k 0 = n" if "(k, n) \<in> set d" for k n
    using dget_distinct_iff [OF assms, of k n] that by (simp add: dget_or_def)
  show "set (map fst (filter (\<lambda>(k, n). n = 0) d)) = {k \<in> set (dkeys d). dget_or d k 0 = 0}"
  proof (intro set_eqI iffI)
    fix k assume "k \<in> set (map fst (filter (\<lambda>(k, n). n = 0) d))"
    then have "(k, 0) \<in> set d" by auto
    then show "k \<in> {k \<in> set (dkeys d). dget_or d k 0 = 0}" using get by force
  next
    fix k assume "k \<in> {k \<in> set (dkeys d). dget_or d k 0 = 0}"
    then obtain n where "(k, n) \<in> set d" "dget_or d k 0 = 0" by auto
    then have "(k, 0) \<in> set (filter (\<lambda>(k, n). n = 0) d)" using get by auto
    then show "k \<in> set (map fst (filter (\<lambda>(k, n). n = 0) d))" by (metis fst_conv image_eqI set_map)
  qed
qed

lemma validate_graph_sound:
  "validate_graph assets rs = Inr () \<longleftrightarrow> sound_topology assets rs"
proof (cases "distinct (map as_id assets)")
  case False
  then show ?thesis using length_by_id [of assets] by (simp add: validate_graph_def sound_topology_def Let_def)
next
  case True
  let ?tab = "asset_dict_by_id assets" and ?N = "as_id ` set assets"
  let ?ind0 = "dict_of (map (\<lambda>a. (as_id a, 0 :: int)) assets)"
  have look: "dget ?tab k = Some a \<longleftrightarrow> a \<in> set assets \<and> as_id a = k" for k a by (rule dget_by_id [OF True])
  let ?closed = "\<forall>r \<in> set rs. \<exists>p c. dget ?tab (rl_parent_id r) = Some p \<and> dget ?tab (rl_child_id r) = Some c \<and> as_tenant_id p = as_tenant_id c"
  have closed_eq: "?closed \<longleftrightarrow> (\<forall>r \<in> set rs. \<exists>p \<in> set assets. \<exists>c \<in> set assets.
      as_id p = rl_parent_id r \<and> as_id c = rl_child_id r \<and> as_tenant_id p = as_tenant_id c)"
    unfolding look by blast
  have len: "length ?tab = length assets" using True length_by_id by blast
  show ?thesis
  proof (cases "collect_edges ?tab rs [] ?ind0")
    case (Inl e)
    have "set (dkeys ?ind0) = ?N" by (simp add: image_image)
    then have "\<not> ?closed" using collect_edges_total [of rs ?tab ?ind0 "[]"] Inl by (force simp: look)
    then have "\<not> sound_topology assets rs" unfolding sound_topology_def closed_eq by blast
    then show ?thesis using Inl len by (simp add: validate_graph_def Let_def)
  next
    case (Inr x)
    obtain children indegree where x: "x = (children, indegree)" by (cases x)
    note C = collect_edges_ok [OF Inr [unfolded x]]
    have cl: ?closed using C by blast
    have E: "edge_rel rs \<subseteq> ?N \<times> ?N" using cl unfolding look edge_rel_def by (auto, (metis image_eqI)+)
    have ch: "dget_or children p [] = children_of rs p" for p using C by (simp add: dget_or_def)
    have zero: "dget_or ?ind0 k 0 = 0" for k
      by (simp add: dget_or_def dget_dict_of split: option.splits) (metis (mono_tags, lifting) dget_entry imageE prod.inject set_map set_rev)
    have ind: "dget_or indegree k 0 = int (open_parents rs {} k)" for k using C zero by simp
    have dk: "set (dkeys indegree) = ?N" "distinct (dkeys indegree)" using C by (simp_all add: image_image)
    let ?q = "map fst (filter (\<lambda>(k, n). n = 0) indegree)"
    have "kahn_inv ?N rs [] ?q indegree"
      using queue_of_zeros [OF dk(2)] dk(1) ind by (auto simp: kahn_inv_def simp del: set_map)
    from kahn_result [OF ch E this] obtain P indegree' where P: "kahn children ?q indegree 0 = length P" "kahn_inv ?N rs P [] indegree'" by auto
    have card: "card ?N = length assets" using True by (metis distinct_card length_map set_map)
    have ac: "kahn children ?q indegree 0 = length assets \<longleftrightarrow> acyclic (edge_rel rs)"
      using kahn_decides [OF P(2) E] card P(1) by simp
    have caps: "check_capacities ?tab children = Inr () \<longleftrightarrow>
        (\<forall>p \<in> set assets. as_capacity_kw p > 0 \<longrightarrow> dsum (child_capacities assets rs (as_id p)) \<le> as_capacity_kw p)"
    proof -
      have dc: "distinct (dkeys children)" using C by simp
      have entry: "(p, cs) \<in> set children \<longleftrightarrow> p \<in> rl_parent_id ` set rs \<and> cs = children_of rs p" for p cs
        using dget_distinct_iff [OF dc, of p cs] ch [of p] C dget_None_keys [of children p]
        by (auto simp: dget_or_def split: option.splits)
      have total: "\<exists>a. dget ?tab p = Some a \<and> (\<forall>c \<in> set cs. dget ?tab c \<noteq> None)" if "(p, cs) \<in> set children" for p cs
        using that cl unfolding entry by (fastforce simp: children_of_def)
      have "dsum (child_capacities assets rs (as_id p)) \<le> as_capacity_kw p"
        if "as_id p \<notin> rl_parent_id ` set rs" "as_capacity_kw p > 0" for p
      proof -
        have "children_of rs (as_id p) = []" using that(1) by (auto simp: children_of_def filter_empty_conv image_iff)
        then show ?thesis using that(2) by (simp add: child_capacities_def)
      qed
      moreover have "check_capacities ?tab children = Inr () \<longleftrightarrow>
          (\<forall>p \<in> set assets. as_id p \<in> rl_parent_id ` set rs \<longrightarrow> as_capacity_kw p > 0 \<longrightarrow>
             dsum (child_capacities assets rs (as_id p)) \<le> as_capacity_kw p)"
      proof -
        have the: "the (dget ?tab (as_id a)) = a" if "a \<in> set assets" for a using look [of "as_id a" a] that by simp
        have sc: "set children = (\<lambda>p. (p, children_of rs p)) ` rl_parent_id ` set rs" using entry by auto
        have cc: "check_capacities ?tab children = Inr () \<longleftrightarrow>
            (\<forall>(p, cs) \<in> set children. as_capacity_kw (the (dget ?tab p)) > 0 \<longrightarrow>
              dsum (map (\<lambda>c. as_capacity_kw (the (dget ?tab c))) cs) \<le> as_capacity_kw (the (dget ?tab p)))"
          by (rule check_capacities_iff) (rule total)
        have "check_capacities ?tab children = Inr () \<longleftrightarrow> (\<forall>p \<in> rl_parent_id ` set rs. as_capacity_kw (the (dget ?tab p)) > 0 \<longrightarrow>
            dsum (child_capacities assets rs p) \<le> as_capacity_kw (the (dget ?tab p)))"
          unfolding cc sc by (simp add: child_capacities_def)
        also have "\<dots> \<longleftrightarrow> (\<forall>p \<in> set assets. as_id p \<in> rl_parent_id ` set rs \<longrightarrow> as_capacity_kw p > 0 \<longrightarrow>
             dsum (child_capacities assets rs (as_id p)) \<le> as_capacity_kw p)"
        proof -
          have "\<exists>a \<in> set assets. as_id a = p" if "p \<in> rl_parent_id ` set rs" for p
            using that cl unfolding look by auto
          then show ?thesis using the by metis
        qed
        finally show ?thesis .
      qed
      ultimately show ?thesis by blast
    qed
    show ?thesis
      using Inr x ac caps cl closed_eq len True by (simp add: validate_graph_def sound_topology_def Let_def)
  qed
qed

text \<open>
  C16: The topology validator is exact. It accepts a graph if and only if the asset ids are distinct, every
  relationship connects two of the assets of one tenant, there is no cycle, and the children of a boundary
  with a capacity do not exceed it together. The loop of Kahn's algorithm ends on every input.
\<close>
theorem validate_graph_exact:
  "validate_graph assets rs = Inr () \<longleftrightarrow> sound_topology assets rs"
  by (rule validate_graph_sound)

section \<open>Traversal visits the descendants\<close>

lemma edges_of_children: "dget_or (edges_of rs) p [] = children_of rs p"
proof -
  have "dget_or (fold add_edge rs d) p [] = dget_or d p [] @ children_of rs p" for d
    by (induction rs arbitrary: d) (auto simp: add_edge_def children_of_def)
  then show ?thesis by (simp add: edges_of_def dget_or_def)
qed

definition bfs_inv :: "relationship list \<Rightarrow> string \<Rightarrow> string list \<Rightarrow> string set \<Rightarrow> asset list \<Rightarrow> bool" where
  "bfs_inv rs start queue seen found \<longleftrightarrow>
     map as_id found = remdups (map as_id found) \<and> set (map as_id found) = seen \<and>
     seen \<union> set queue \<subseteq> (edge_rel rs)\<^sup>+ `` {start} \<and>
     (\<forall>x \<in> insert start seen. \<forall>c. (x, c) \<in> edge_rel rs \<longrightarrow> c \<in> seen \<union> set queue)"

lemma bfs_spec:
  assumes "\<And>p. dget_or edges p [] = children_of rs p"
    and "\<And>p c. (p, c) \<in> edge_rel rs \<Longrightarrow> dget by_id c \<noteq> None"
    and "\<And>k a. dget by_id k = Some a \<Longrightarrow> as_id a = k \<and> a \<in> A"
    and "bfs_inv rs start queue seen found" "set found \<subseteq> A"
  shows "\<exists>out. bfs by_id edges queue seen found = Inr out \<and> distinct (map as_id out) \<and> set out \<subseteq> A \<and>
    set (map as_id out) = (edge_rel rs)\<^sup>+ `` {start}"
  using assms
proof (induction by_id edges queue seen found rule: bfs.induct)
  case (1 by_id edges seen found)
  from 1(4) have f: "distinct (map as_id found)" "set (map as_id found) = seen" "seen \<subseteq> (edge_rel rs)\<^sup>+ `` {start}"
    and closed: "\<And>x c. x \<in> insert start seen \<Longrightarrow> (x, c) \<in> edge_rel rs \<Longrightarrow> c \<in> seen"
    by (auto simp: bfs_inv_def) (metis distinct_remdups)
  have "x \<in> seen" if "(start, x) \<in> (edge_rel rs)\<^sup>+" for x
    using that by (induction rule: trancl_induct) (auto intro: closed)
  then have "seen = (edge_rel rs)\<^sup>+ `` {start}" using f(3) by auto
  then show ?case using f 1(5) by simp
next
  case (2 by_id edges node queue seen found)
  have reach: "(start, node) \<in> (edge_rel rs)\<^sup>+" using 2(6) by (simp add: bfs_inv_def)
  show ?case
  proof (cases "node \<in> seen")
    case True
    then have "seen \<union> set (node # queue) = seen \<union> set queue" by auto
    then have "bfs_inv rs start queue seen found" using 2(6) unfolding bfs_inv_def by metis
    then show ?thesis using 2(1) [OF True 2(3) 2(4) 2(5) _ 2(7)] True by simp
  next
    case False
    obtain p where "(p, node) \<in> edge_rel rs" using reach by (metis tranclE)
    with 2(4) obtain a where a: "dget by_id node = Some a" by blast
    note aid = 2(5) [OF a]
    have "bfs_inv rs start (queue @ dget_or edges node []) (insert node seen) (found @ [a])"
      unfolding bfs_inv_def
    proof (intro conjI)
      have d: "distinct (map as_id found)" "set (map as_id found) = seen" using 2(6) unfolding bfs_inv_def by (metis distinct_remdups, simp)
      then show "map as_id (found @ [a]) = remdups (map as_id (found @ [a]))"
        using False aid by (simp add: distinct_remdups_id)
      show "set (map as_id (found @ [a])) = insert node seen" using d aid by simp
      have "(start, c) \<in> (edge_rel rs)\<^sup>+" if "c \<in> set (children_of rs node)" for c
        using reach that by (simp add: children_of_edge trancl_into_trancl)
      then show "insert node seen \<union> set (queue @ dget_or edges node []) \<subseteq> (edge_rel rs)\<^sup>+ `` {start}"
        using 2(6) unfolding 2(3) by (auto simp: bfs_inv_def)
      show "\<forall>x \<in> insert start (insert node seen). \<forall>c. (x, c) \<in> edge_rel rs \<longrightarrow>
          c \<in> insert node seen \<union> set (queue @ dget_or edges node [])"
        using 2(6) unfolding 2(3) by (auto simp: bfs_inv_def children_of_edge)
    qed
    then show ?thesis using 2(2) [OF False a 2(3) 2(4) 2(5)] 2(7) aid False a by simp
  qed
qed

text \<open>
  Further: Traversal of a validated topology returns exactly the descendants of an asset: every asset that a
  chain of relationships leads to, once, and no other; an unknown root is a \<open>KeyError\<close>.
\<close>
theorem descendants_exact:
  assumes "validate_graph assets rs = Inr ()"
  shows "if start \<in> as_id ` set assets
    then \<exists>out. descendants assets rs start = Inr out \<and> distinct (map as_id out) \<and> set out \<subseteq> set assets \<and>
           set (map as_id out) = (edge_rel rs)\<^sup>+ `` {start}
    else descendants assets rs start = Inl (KeyError start)"
proof -
  have s: "sound_topology assets rs" using assms validate_graph_sound by blast
  have look: "dget (asset_dict_by_id assets) k = Some a \<longleftrightarrow> a \<in> set assets \<and> as_id a = k" for k a
    using s by (intro dget_by_id) (simp add: sound_topology_def)
  show ?thesis
  proof (cases "start \<in> as_id ` set assets")
    case False
    then have "dget (asset_dict_by_id assets) start = None"
      using look by (cases "dget (asset_dict_by_id assets) start") auto
    then show ?thesis using False by (simp add: descendants_def Let_def)
  next
    case True
    have known: "dget (asset_dict_by_id assets) c \<noteq> None" if "(p, c) \<in> edge_rel rs" for p c
      using s that look by (fastforce simp: sound_topology_def edge_rel_def)
    have "bfs_inv rs start (dget_or (edges_of rs) start []) {} []"
      by (auto simp: bfs_inv_def edges_of_children children_of_edge)
    from bfs_spec [OF edges_of_children known _ this, where A = "set assets"]
    have "\<exists>out. descendants assets rs start = Inr out \<and> distinct (map as_id out) \<and> set out \<subseteq> set assets \<and>
        set (map as_id out) = (edge_rel rs)\<^sup>+ `` {start}"
      using True look by (auto simp: descendants_def Let_def)
    then show ?thesis using True by simp
  qed
qed

definition example_asset :: "string \<Rightarrow> decimal \<Rightarrow> asset" where
  "example_asset i kw = \<lparr>as_id = i, as_tenant_id = ''t1'', as_site_id = ''s1'', as_kind = RACK, as_name = i, as_capacity_kw = kw,
     as_attributes = [(''row'', ''4'')], as_effective = None, as_decommissioned_at = None\<rparr>"

definition example_relationships :: "relationship list" where
  "example_relationships = [\<lparr>rl_parent_id = ''a'', rl_child_id = ''b'', rl_kind = ''contains''\<rparr>,
                            \<lparr>rl_parent_id = ''b'', rl_child_id = ''c'', rl_kind = ''contains''\<rparr>]"

definition example_assets :: "asset list" where
  "example_assets = [example_asset ''a'' 0, example_asset ''b'' 9, example_asset ''c'' 5]"

lemmas topology_simps = validate_graph_def Let_def asset_dict_by_id_def dict_of_def add_edge_def key_of_def dget_or_def
  capacity_exceeded_def dsum_def dadd_def example_assets_def example_asset_def example_relationships_def

lemma example_topology_valid: "validate_graph example_assets example_relationships = Inr ()"
  by (simp add: topology_simps)

theorem descendants_exact_witness:
  "\<exists>out. descendants example_assets example_relationships ''a'' = Inr out \<and> distinct (map as_id out) \<and>
     set out \<subseteq> set example_assets \<and> set (map as_id out) = (edge_rel example_relationships)\<^sup>+ `` {''a''}"
  using descendants_exact [OF example_topology_valid, of "''a''"] by (simp add: example_assets_def example_asset_def)

section \<open>Stored assets\<close>

definition interval_dict :: "time_interval \<Rightarrow> pyval" where
  "interval_dict iv = PDict [(''start'', PStr (datetime_str (iv_start iv))), (''end'', PStr (datetime_str (iv_end iv)))]"

definition asset_json :: "(decimal \<Rightarrow> string) \<Rightarrow> asset \<Rightarrow> json_object" where
  \<comment> \<open>\<open>json.loads(json.dumps(asdict(asset), default=str))\<close>\<close>
  "asset_json str_decimal a =
     [(''id'', PStr (as_id a)), (''tenant_id'', PStr (as_tenant_id a)), (''site_id'', PStr (as_site_id a)),
      (''kind'', PStr (asset_type_text (as_kind a))), (''name'', PStr (as_name a)),
      (''capacity_kw'', PStr (str_decimal (as_capacity_kw a))),
      (''attributes'', PDict (map (\<lambda>(k, v). (k, PStr v)) (as_attributes a))),
      (''effective'', case as_effective a of None \<Rightarrow> PNone | Some iv \<Rightarrow> interval_dict iv),
      (''decommissioned_at'', case as_decommissioned_at a of None \<Rightarrow> PNone | Some d \<Rightarrow> PStr (datetime_str d))]"

definition parse_interval :: "pyval \<Rightarrow> time_interval option result" where
  "parse_interval effective =
     (case effective of
        PDict e \<Rightarrow>
          rbind (py_item e ''start'') (\<lambda>a. rbind (fromisoformat (py_str a)) (\<lambda>first.
          rbind (py_item e ''end'') (\<lambda>b. rbind (fromisoformat (py_str b)) (\<lambda>last.
          rbind (mk_interval first last) (\<lambda>iv. Inr (Some iv))))))
      | _ \<Rightarrow> Inr None)"

definition asset_from_dict :: "json_object \<Rightarrow> asset result" where
  "asset_from_dict raw =
     rbind (parse_interval (dget_or raw ''effective'' PNone)) (\<lambda>interval.
       let decommissioned = dget_or raw ''decommissioned_at'' PNone in
       case dget_or raw ''attributes'' (PDict []) of
         PDict attributes \<Rightarrow>
           rbind (py_item raw ''id'') (\<lambda>i. rbind (py_item raw ''tenant_id'') (\<lambda>t.
           rbind (py_item raw ''site_id'') (\<lambda>s. rbind (py_item raw ''kind'') (\<lambda>k.
           rbind (parse_asset_type (py_str k)) (\<lambda>kind. rbind (py_item raw ''name'') (\<lambda>n.
           rbind (decimal_of_value (dget_or raw ''capacity_kw'' (PInt 0))) (\<lambda>d. rbind (finite_decimal d) (\<lambda>kw.
           rbind (if truthy decommissioned
                  then rbind (fromisoformat (py_str decommissioned)) (\<lambda>d. Inr (Some d)) else Inr None) (\<lambda>end_of_life.
             Inr \<lparr>as_id = py_str i, as_tenant_id = py_str t, as_site_id = py_str s, as_kind = kind, as_name = py_str n,
                  as_capacity_kw = kw, as_attributes = dict_of (map (\<lambda>(k, v). (k, py_str v)) attributes),
                  as_effective = interval, as_decommissioned_at = end_of_life\<rparr>)))))))))
       | _ \<Rightarrow> Inl (ValueError ''topology asset attributes must be an object''))"

definition storable :: "(decimal \<Rightarrow> string) \<Rightarrow> asset \<Rightarrow> bool" where
  \<comment> \<open>what the constructors and Python itself ensure of an asset: a dict has distinct keys, an interval
      is checked, datetimes are within the years of the calendar, and the text of a decimal reads back\<close>
  "storable str_decimal a \<longleftrightarrow>
     distinct (dkeys (as_attributes a)) \<and>
     (case as_effective a of None \<Rightarrow> True | Some iv \<Rightarrow> check_interval iv = Inr () \<and> representable (iv_start iv) \<and> representable (iv_end iv)) \<and>
     (case as_decommissioned_at a of None \<Rightarrow> True | Some d \<Rightarrow> representable d) \<and>
     decimal_of_string (str_decimal (as_capacity_kw a)) = Inr (Fin (as_capacity_kw a))"

lemma parse_asset_type_text [simp]: "parse_asset_type (asset_type_text k) = Inr k"
  by (cases k) (simp_all add: parse_asset_type_def asset_types_def)

lemma datetime_str_nonempty: "datetime_str d \<noteq> []"
  by (cases d) (simp_all add: datetime_str_def)

lemma parse_interval_dict:
  "check_interval iv = Inr () \<Longrightarrow> representable (iv_start iv) \<Longrightarrow> representable (iv_end iv) \<Longrightarrow>
     parse_interval (interval_dict iv) = Inr (Some iv)"
  by (cases iv) (simp add: parse_interval_def interval_dict_def py_item_def datetime_str_def fromisoformat_isoformat mk_interval_def Let_def)

lemma asset_roundtrip:
  assumes "storable str_decimal a"
  shows "asset_from_dict (asset_json str_decimal a) = Inr a"
proof -
  have interval: "parse_interval (case as_effective a of None \<Rightarrow> PNone | Some iv \<Rightarrow> interval_dict iv) = Inr (as_effective a)"
    using assms by (cases "as_effective a") (simp_all add: storable_def parse_interval_dict, simp add: parse_interval_def)
  have attributes: "dict_of (map (\<lambda>(k, v). (k, py_str v)) (map (\<lambda>(k, v). (k, PStr v)) (as_attributes a))) = as_attributes a"
    using assms by (simp add: storable_def comp_def split_beta dict_of_distinct_id)
  show ?thesis
  proof (cases "as_decommissioned_at a")
    case None
    then show ?thesis
      using assms interval attributes
      by (simp add: asset_from_dict_def asset_json_def dget_or_def py_item_def finite_decimal_def storable_def)
  next
    case (Some d)
    then show ?thesis
      using assms interval attributes fromisoformat_isoformat [of d] datetime_str_nonempty [of d]
      by (simp add: asset_from_dict_def asset_json_def dget_or_def py_item_def finite_decimal_def storable_def datetime_str_def)
  qed
qed

end
