(* ===== verification/Topology_Registry.thy ===== *)
theory Topology_Registry
  imports Topology
begin

text \<open>
  \<open>packages/topology/registry.py\<close>, \<open>versioning.py\<close> and \<open>importers.py\<close>: the registry of drafts and
  published versions in memory and on PostgreSQL, the comparison of versions and the CSV import.

  \<open>digest\<close> is the SHA-256 of the canonical JSON text of assets, relationships and version, \<open>now\<close> is
  \<open>utc_now()\<close>, and \<open>str_decimal\<close> the text of a decimal. Rows of \<open>csv.DictReader\<close> are a parameter of
  the import. Timestamps of the database are compared in UTC.
\<close>

section \<open>In memory\<close>

type_synonym digest = "asset list \<Rightarrow> relationship list \<Rightarrow> int \<Rightarrow> string"

record topology_memory =
  tm_drafts :: "(string, asset list \<times> relationship list \<times> int) dict"
  tm_published :: "(string, topology_snapshot list) dict"

definition draft_checks :: "string \<Rightarrow> asset list \<Rightarrow> relationship list \<Rightarrow> unit result" where
  "draft_checks tenant_id assets relationships =
     (if \<exists>a \<in> set assets. as_tenant_id a \<noteq> tenant_id then Inl (PermissionError ''draft contains foreign tenant assets'')
      else validate_graph assets relationships)"

definition draft_name :: "string \<Rightarrow> int \<Rightarrow> string" where
  "draft_name tenant_id revision = ''draft-'' @ tenant_id @ ''-'' @ string_of_int revision"

definition create_draft ::
  "topology_memory \<Rightarrow> string \<Rightarrow> asset list \<Rightarrow> relationship list \<Rightarrow> string result \<times> topology_memory" where
  "create_draft st tenant_id assets relationships =
     (case draft_checks tenant_id assets relationships of
        Inl e \<Rightarrow> (Inl e, st)
      | Inr _ \<Rightarrow>
          let revision = snd (snd (dget_or (tm_drafts st) tenant_id ([], [], 0))) + 1
          in (Inr (draft_name tenant_id revision),
              st\<lparr>tm_drafts := dput tenant_id (assets, relationships, revision) (tm_drafts st)\<rparr>))"

definition mk_snapshot ::
  "digest \<Rightarrow> datetime \<Rightarrow> string \<Rightarrow> int \<Rightarrow> asset list \<Rightarrow> relationship list \<Rightarrow> topology_snapshot" where
  "mk_snapshot digest now tenant_id version assets relationships =
     \<lparr>tp_version = version, tp_tenant_id = tenant_id, tp_assets = assets, tp_relationships = relationships,
      tp_published_at = now, tp_etag = digest assets relationships version\<rparr>"

definition publish_topology ::
  "digest \<Rightarrow> datetime \<Rightarrow> topology_memory \<Rightarrow> string \<Rightarrow> int \<Rightarrow> topology_snapshot result \<times> topology_memory" where
  "publish_topology digest now st tenant_id expected_draft_revision =
     (case dget (tm_drafts st) tenant_id of
        None \<Rightarrow> (Inl (ValueError ''no draft exists''), st)
      | Some (assets, relationships, revision) \<Rightarrow>
          if revision \<noteq> expected_draft_revision then (Inl (RuntimeError ''draft changed since validation''), st)
          else
            (case validate_graph assets relationships of
               Inl e \<Rightarrow> (Inl e, st)
             | Inr _ \<Rightarrow>
                 let versions = dget_or (tm_published st) tenant_id [];
                     snapshot = mk_snapshot digest now tenant_id (int (length versions) + 1) assets relationships
                 in (Inr snapshot, st\<lparr>tm_published := dput tenant_id (versions @ [snapshot]) (tm_published st)\<rparr>)))"

definition active_topology :: "topology_memory \<Rightarrow> string \<Rightarrow> datetime option \<Rightarrow> topology_snapshot result" where
  "active_topology st tenant_id moment =
     (let versions = dget_or (tm_published st) tenant_id [] in
      if versions = [] then Inl (KeyError ''no published topology'')
      else case moment of
        None \<Rightarrow> Inr (last versions)
      | Some t \<Rightarrow>
          rbind (rfilter (\<lambda>v. dt_ge t (tp_published_at v)) versions) (\<lambda>candidates.
            if candidates = [] then Inl (KeyError ''no topology active at timestamp'') else Inr (last candidates)))"

definition traverse :: "topology_memory \<Rightarrow> string \<Rightarrow> string \<Rightarrow> asset list result" where
  "traverse st tenant_id start =
     rbind (active_topology st tenant_id None) (\<lambda>s. descendants (tp_assets s) (tp_relationships s) start)"

definition versions :: "topology_memory \<Rightarrow> string \<Rightarrow> topology_snapshot list" where
  "versions st tenant_id = dget_or (tm_published st) tenant_id []"

definition version_of :: "topology_memory \<Rightarrow> string \<Rightarrow> int \<Rightarrow> topology_snapshot result" where
  "version_of st tenant_id version = rbind (key_of (tm_published st) (\<lambda>k. k) tenant_id) (\<lambda>vs. py_nth vs (version - 1))"

section \<open>On PostgreSQL\<close>

record draft_row =
  dr_revision :: int
  dr_assets :: "json_object list"
  dr_relationships :: "relationship list"

record version_row =
  vr_assets :: "json_object list"
  vr_relationships :: "relationship list"
  vr_published_at :: datetime
  vr_etag :: string

record topology_db =
  topology_drafts :: "(string, draft_row) dict"
  topology_versions :: "(string \<times> int, version_row) dict"

definition create_draft_pg ::
  "topology_db pool_exit \<Rightarrow> (decimal \<Rightarrow> string) \<Rightarrow> topology_db \<Rightarrow> string \<Rightarrow> asset list \<Rightarrow> relationship list \<Rightarrow> string result \<times> topology_db" where
  "create_draft_pg px str_decimal db tenant_id assets relationships =
     (case draft_checks tenant_id assets relationships of
        Inl e \<Rightarrow> (Inl e, db)
      | Inr _ \<Rightarrow> tenant_connection px tenant_id db (\<lambda>db.
          let revision = (case dget (topology_drafts db) tenant_id of Some row \<Rightarrow> dr_revision row + 1 | None \<Rightarrow> 1);
              row = \<lparr>dr_revision = revision, dr_assets = map (asset_json str_decimal) assets, dr_relationships = relationships\<rparr>
          in (Inr (draft_name tenant_id revision), db\<lparr>topology_drafts := dput tenant_id row (topology_drafts db)\<rparr>)))"

definition tenant_versions :: "topology_db \<Rightarrow> string \<Rightarrow> int list" where
  "tenant_versions db tenant_id = map (\<lambda>((t, v), row). v) (filter (\<lambda>((t, v), row). t = tenant_id) (topology_versions db))"

definition next_version :: "topology_db \<Rightarrow> string \<Rightarrow> int" where
  \<comment> \<open>\<open>COALESCE(max(version), 0) + 1\<close>\<close>
  "next_version db tenant_id = (let vs = tenant_versions db tenant_id in (if vs = [] then 0 else Max (set vs)) + 1)"

definition publish_topology_pg ::
  "topology_db pool_exit \<Rightarrow> (decimal \<Rightarrow> string) \<Rightarrow> digest \<Rightarrow> datetime \<Rightarrow> topology_db \<Rightarrow> string \<Rightarrow> int
     \<Rightarrow> topology_snapshot result \<times> topology_db" where
  "publish_topology_pg px str_decimal digest now db tenant_id expected_draft_revision =
     tenant_connection px tenant_id db (\<lambda>db.
       case dget (topology_drafts db) tenant_id of
         None \<Rightarrow> (Inl (ValueError ''no draft exists''), db)
       | Some draft \<Rightarrow>
           if dr_revision draft \<noteq> expected_draft_revision then (Inl (RuntimeError ''draft changed since validation''), db)
           else
             (case rbind (rmap_list asset_from_dict (dr_assets draft)) (\<lambda>assets.
                     rbind (validate_graph assets (dr_relationships draft)) (\<lambda>_. Inr assets)) of
                Inl e \<Rightarrow> (Inl e, db)
              | Inr assets \<Rightarrow>
                  let version = next_version db tenant_id;
                      snapshot = mk_snapshot digest now tenant_id version assets (dr_relationships draft);
                      row = \<lparr>vr_assets = map (asset_json str_decimal) assets, vr_relationships = dr_relationships draft,
                             vr_published_at = now, vr_etag = tp_etag snapshot\<rparr>
                  in if dget (topology_versions db) (tenant_id, version) \<noteq> None
                     then (Inl (RuntimeError ''duplicate key value violates unique constraint''), db)
                     else (Inr snapshot, db\<lparr>topology_versions := dput (tenant_id, version) row (topology_versions db)\<rparr>)))"

definition row_snapshot :: "string \<Rightarrow> int \<Rightarrow> version_row \<Rightarrow> topology_snapshot result" where
  "row_snapshot tenant_id version row =
     rbind (rmap_list asset_from_dict (vr_assets row)) (\<lambda>assets.
       Inr \<lparr>tp_version = version, tp_tenant_id = tenant_id, tp_assets = assets, tp_relationships = vr_relationships row,
            tp_published_at = vr_published_at row, tp_etag = vr_etag row\<rparr>)"

definition version_pg :: "topology_db pool_exit \<Rightarrow> topology_db \<Rightarrow> string \<Rightarrow> int \<Rightarrow> topology_snapshot result" where
  "version_pg px db tenant_id version =
     fst (tenant_connection px tenant_id db (\<lambda>db.
       (case dget (topology_versions db) (tenant_id, version) of
          None \<Rightarrow> Inl (KeyError (string_of_int version))
        | Some row \<Rightarrow> row_snapshot tenant_id version row, db)))"

definition active_topology_pg :: "topology_db pool_exit \<Rightarrow> topology_db \<Rightarrow> string \<Rightarrow> datetime option \<Rightarrow> topology_snapshot result" where
  "active_topology_pg px db tenant_id moment =
     fst (tenant_connection px tenant_id db (\<lambda>db.
       let vs = filter (\<lambda>v. case moment of
                   None \<Rightarrow> True
                 | Some t \<Rightarrow> dt_value (vr_published_at (the (dget (topology_versions db) (tenant_id, v)))) \<le> dt_value t)
                (tenant_versions db tenant_id)
       in (if vs = [] then Inl (KeyError ''no published topology'')
           else row_snapshot tenant_id (Max (set vs)) (the (dget (topology_versions db) (tenant_id, Max (set vs)))), db)))"

definition versions_pg :: "topology_db pool_exit \<Rightarrow> topology_db \<Rightarrow> string \<Rightarrow> topology_snapshot list result" where
  "versions_pg px db tenant_id =
     rbind (fst (tenant_connection px tenant_id db (\<lambda>db. (Inr (sort (tenant_versions db tenant_id)), db))))
       (rmap_list (version_pg px db tenant_id))"

section \<open>Comparison of versions\<close>

record asset_change =
  ac_asset_id :: string
  ac_fields :: "string list"

record topology_diff =
  tf_from_version :: int
  tf_to_version :: int
  tf_added_assets :: "string set"
  tf_removed_assets :: "string set"
  tf_changed_assets :: "asset_change list"
  tf_added_relationships :: nat
  tf_removed_relationships :: nat
  tf_capacity_delta_kw :: decimal

definition changed_fields :: "asset \<Rightarrow> asset \<Rightarrow> string list" where
  "changed_fields a b =
     map fst (filter snd
       [(''site_id'', as_site_id a \<noteq> as_site_id b), (''kind'', as_kind a \<noteq> as_kind b), (''name'', as_name a \<noteq> as_name b),
        (''capacity_kw'', as_capacity_kw a \<noteq> as_capacity_kw b),
        (''attributes'', map_of (as_attributes a) \<noteq> map_of (as_attributes b)),
        (''effective'', as_effective a \<noteq> as_effective b),
        (''decommissioned_at'', as_decommissioned_at a \<noteq> as_decommissioned_at b)])"

definition compare_versions :: "topology_snapshot \<Rightarrow> topology_snapshot \<Rightarrow> topology_diff result" where
  "compare_versions left right =
     (if tp_tenant_id left \<noteq> tp_tenant_id right
      then Inl (PermissionError ''cannot compare topology versions across tenants'')
      else
        let l = asset_dict_by_id (tp_assets left); r = asset_dict_by_id (tp_assets right);
            lk = set (dkeys l); rk = set (dkeys r);
            changes = map (\<lambda>k. \<lparr>ac_asset_id = k, ac_fields = changed_fields (the (dget l k)) (the (dget r k))\<rparr>)
                        (sorted_list_of_set (lk \<inter> rk));
            lr = set (tp_relationships left); rr = set (tp_relationships right)
        in Inr \<lparr>tf_from_version = tp_version left, tf_to_version = tp_version right,
                tf_added_assets = rk - lk, tf_removed_assets = lk - rk,
                tf_changed_assets = filter (\<lambda>c. ac_fields c \<noteq> []) changes,
                tf_added_relationships = card (rr - lr), tf_removed_relationships = card (lr - rr),
                tf_capacity_delta_kw = dsub (dsum (map as_capacity_kw (tp_assets right))) (dsum (map as_capacity_kw (tp_assets left)))\<rparr>)"

section \<open>CSV import\<close>

record import_result =
  ir_assets :: "asset list"
  ir_conflicts :: "string list"

type_synonym csv_row = "(string, string) dict" \<comment> \<open>a text in every column of the header\<close>

definition row_field :: "csv_row \<Rightarrow> string \<Rightarrow> string result" where
  "row_field row name = key_of row (\<lambda>k. k) name"

definition parse_row :: "string \<Rightarrow> csv_row \<Rightarrow> asset result" where
  "parse_row tenant_id row =
     rbind (row_field row ''id'') (\<lambda>i. rbind (row_field row ''site_id'') (\<lambda>s.
     rbind (row_field row ''kind'') (\<lambda>k. rbind (parse_asset_type k) (\<lambda>kind.
     rbind (row_field row ''name'') (\<lambda>n.
     rbind (case dget row ''capacity_kw'' of
              Some t \<Rightarrow> if t = [] then Inr (Fin 0) else decimal_of_string t
            | None \<Rightarrow> Inr (Fin 0)) (\<lambda>d. rbind (finite_decimal d) (\<lambda>kw.
       Inr \<lparr>as_id = i, as_tenant_id = tenant_id, as_site_id = s, as_kind = kind, as_name = n, as_capacity_kw = kw,
            as_attributes = [], as_effective = None, as_decommissioned_at = None\<rparr>)))))))"

definition caught_text :: "py_error \<Rightarrow> string option" where
  \<comment> \<open>\<open>except (KeyError, ValueError)\<close> and the text of the exception\<close>
  "caught_text e = (case e of KeyError k \<Rightarrow> Some (repr_string k) | ValueError m \<Rightarrow> Some m | _ \<Rightarrow> None)"

fun import_rows :: "string \<Rightarrow> csv_row list \<Rightarrow> int \<Rightarrow> string set \<Rightarrow> import_result \<Rightarrow> import_result result" where
  "import_rows tenant_id [] row_number seen out = Inr out"
| "import_rows tenant_id (row # rows) row_number seen out =
     (let step = rbind (row_field row ''id'') (\<lambda>i.
            if i \<in> seen then Inl (ValueError ''duplicate id'') else parse_row tenant_id row);
          seen = (case row_field row ''id'' of Inr i \<Rightarrow> insert i seen | Inl _ \<Rightarrow> seen) in
      case step of
        Inr a \<Rightarrow> import_rows tenant_id rows (row_number + 1) seen (out\<lparr>ir_assets := ir_assets out @ [a]\<rparr>)
      | Inl e \<Rightarrow>
          (case caught_text e of
             None \<Rightarrow> Inl e
           | Some m \<Rightarrow>
               import_rows tenant_id rows (row_number + 1) seen
                 (out\<lparr>ir_conflicts := ir_conflicts out @ [''row '' @ string_of_int row_number @ '': '' @ m]\<rparr>)))"

definition import_csv :: "string \<Rightarrow> csv_row list \<Rightarrow> import_result result" where
  "import_csv tenant_id rows = import_rows tenant_id rows 2 {} \<lparr>ir_assets = [], ir_conflicts = []\<rparr>"

section \<open>The registry on PostgreSQL\<close>

definition json_of_tenant :: "(decimal \<Rightarrow> string) \<Rightarrow> string \<Rightarrow> asset list \<Rightarrow> json_object list \<Rightarrow> bool" where
  "json_of_tenant str_decimal t assets js \<longleftrightarrow> js = map (asset_json str_decimal) assets \<and> (\<forall>a \<in> set assets. as_tenant_id a = t)"

definition registry_inv :: "(decimal \<Rightarrow> string) \<Rightarrow> topology_db \<Rightarrow> bool" where
  \<comment> \<open>drafts and versions hold assets of their own tenant, versions are sound and numbered without gaps\<close>
  "registry_inv str_decimal db \<longleftrightarrow> distinct (dkeys (topology_versions db)) \<and>
     (\<forall>t d. dget (topology_drafts db) t = Some d \<longrightarrow> (\<exists>assets. json_of_tenant str_decimal t assets (dr_assets d))) \<and>
     (\<forall>t v row. dget (topology_versions db) (t, v) = Some row \<longrightarrow>
        1 \<le> v \<and> (\<forall>w. 1 \<le> w \<and> w < v \<longrightarrow> dget (topology_versions db) (t, w) \<noteq> None) \<and>
        (\<exists>assets. json_of_tenant str_decimal t assets (vr_assets row) \<and> sound_topology assets (vr_relationships row)))"

inductive registry_step :: "topology_db pool_exit \<Rightarrow> (decimal \<Rightarrow> string) \<Rightarrow> topology_db \<Rightarrow> topology_db \<Rightarrow> bool" for px str_decimal where
  draft: "registry_step px str_decimal db (snd (create_draft_pg px str_decimal db t assets relationships))"
| publish: "registry_step px str_decimal db (snd (publish_topology_pg px str_decimal digest now db t revision))"

lemma asset_json_tenant:
  "asset_from_dict (asset_json str_decimal a) = Inr a' \<Longrightarrow> as_tenant_id a' = as_tenant_id a"
  by (auto simp: asset_from_dict_def asset_json_def rbind_eq_Inr dget_or_def py_item_def Let_def)

lemma tenant_versions_mem: "v \<in> set (tenant_versions db t) \<longleftrightarrow> dget (topology_versions db) (t, v) \<noteq> None"
proof -
  have "v \<in> set (tenant_versions db t) \<longleftrightarrow> (t, v) \<in> set (dkeys (topology_versions db))"
    by (force simp: tenant_versions_def)
  then show ?thesis unfolding dget_None_keys by simp
qed

lemma registry_inv_draft:
  "registry_inv str_decimal db \<Longrightarrow> dget (topology_drafts db) t = Some d \<Longrightarrow> \<exists>assets. json_of_tenant str_decimal t assets (dr_assets d)"
  unfolding registry_inv_def by blast

lemma registry_inv_version:
  assumes "registry_inv str_decimal db" "dget (topology_versions db) (t, v) = Some row"
  shows "1 \<le> v" "1 \<le> w \<Longrightarrow> w < v \<Longrightarrow> dget (topology_versions db) (t, w) \<noteq> None"
    "\<exists>assets. json_of_tenant str_decimal t assets (vr_assets row) \<and> sound_topology assets (vr_relationships row)"
  using assms unfolding registry_inv_def by blast+

lemma next_version_bound:
  shows "dget (topology_versions db) (t, v) \<noteq> None \<Longrightarrow> v < next_version db t"
    and "dget (topology_versions db) (t, next_version db t) = None"
proof -
  show less: "v < next_version db t" if "dget (topology_versions db) (t, v) \<noteq> None" for v
  proof -
    have v: "v \<in> set (tenant_versions db t)" using that unfolding tenant_versions_mem .
    then have "v \<le> Max (set (tenant_versions db t))" by (intro Max_ge) simp_all
    then show ?thesis using v by (auto simp: next_version_def Let_def)
  qed
  show "dget (topology_versions db) (t, next_version db t) = None"
    using less [of "next_version db t"] by blast
qed

lemma last_version:
  assumes "tenant_versions db t \<noteq> []"
  shows "dget (topology_versions db) (t, next_version db t - 1) \<noteq> None"
proof -
  have "Max (set (tenant_versions db t)) \<in> set (tenant_versions db t)" using assms by (intro Max_in) auto
  then have "dget (topology_versions db) (t, Max (set (tenant_versions db t))) \<noteq> None" unfolding tenant_versions_mem .
  then show ?thesis using assms by (simp add: next_version_def Let_def)
qed

lemma next_version_gapless:
  assumes "registry_inv str_decimal db" "1 \<le> w" "w < next_version db t"
  shows "dget (topology_versions db) (t, w) \<noteq> None"
proof -
  have "tenant_versions db t \<noteq> []" using assms(2,3) by (auto simp: next_version_def Let_def split: if_splits)
  from last_version [OF this] obtain row where row: "dget (topology_versions db) (t, next_version db t - 1) = Some row" by blast
  show ?thesis
  proof (cases "w = next_version db t - 1")
    case True
    then show ?thesis using row by simp
  next
    case False
    then show ?thesis using registry_inv_version(2) [OF assms(1) row assms(2)] assms(3) by simp
  qed
qed

lemma publish_topology_pg_ok:
  assumes "pool_contract px" "publish_topology_pg px str_decimal digest now db t revision = (Inr s, db')"
  shows "\<exists>draft assets. dget (topology_drafts db) t = Some draft \<and> dr_revision draft = revision \<and>
    rmap_list asset_from_dict (dr_assets draft) = Inr assets \<and> validate_graph assets (dr_relationships draft) = Inr () \<and>
    s = mk_snapshot digest now t (next_version db t) assets (dr_relationships draft) \<and> valid_tenant t \<and>
    db' = db\<lparr>topology_versions := dput (t, next_version db t)
      \<lparr>vr_assets = map (asset_json str_decimal) assets, vr_relationships = dr_relationships draft,
       vr_published_at = now, vr_etag = tp_etag s\<rparr> (topology_versions db)\<rparr>"
  using assms
  by (auto simp: publish_topology_pg_def tenant_connection_commit rbind_eq_Inr Let_def next_version_bound(2)
      split: option.splits if_splits sum.splits)

lemma create_draft_pg_ok:
  assumes "pool_contract px" "create_draft_pg px str_decimal db t assets relationships = (Inr n, db')"
  shows "(\<forall>a \<in> set assets. as_tenant_id a = t) \<and> topology_versions db' = topology_versions db \<and>
    (\<exists>revision. topology_drafts db' = dput t \<lparr>dr_revision = revision, dr_assets = map (asset_json str_decimal) assets,
       dr_relationships = relationships\<rparr> (topology_drafts db))"
  using assms
  by (auto simp: create_draft_pg_def draft_checks_def tenant_connection_commit Let_def split: sum.splits if_splits)

lemma registry_rollback:
  "pool_contract px \<Longrightarrow> publish_topology_pg px str_decimal digest now db t revision = (Inl e, db') \<Longrightarrow> db' = db"
  "pool_contract px \<Longrightarrow> create_draft_pg px str_decimal db t assets relationships = (Inl e, db') \<Longrightarrow> db' = db"
  by (auto simp: publish_topology_pg_def create_draft_pg_def split: sum.splits dest: tenant_connection_rollback)

lemma publish_topology_inv:
  assumes inv: "registry_inv str_decimal db" and px: "pool_contract px"
    and ok: "publish_topology_pg px str_decimal digest now db t revision = (Inr s, db')"
  shows "registry_inv str_decimal db'"
proof -
  from publish_topology_pg_ok [OF px ok] obtain draft assets where
    d: "dget (topology_drafts db) t = Some draft" "rmap_list asset_from_dict (dr_assets draft) = Inr assets"
      "validate_graph assets (dr_relationships draft) = Inr ()"
    and db': "db' = db\<lparr>topology_versions := dput (t, next_version db t)
      \<lparr>vr_assets = map (asset_json str_decimal) assets, vr_relationships = dr_relationships draft,
       vr_published_at = now, vr_etag = tp_etag s\<rparr> (topology_versions db)\<rparr>" by blast
  from registry_inv_draft [OF inv d(1)] obtain assets0 where a0: "json_of_tenant str_decimal t assets0 (dr_assets draft)" ..
  have tenant: "as_tenant_id a = t" if "a \<in> set assets" for a
  proof -
    from rmap_list_set [OF d(2) that] obtain j where j: "j \<in> set (dr_assets draft)" "asset_from_dict j = Inr a" by blast
    with a0 obtain b where "b \<in> set assets0" "j = asset_json str_decimal b" by (auto simp: json_of_tenant_def)
    then show ?thesis using asset_json_tenant [of str_decimal b a] j(2) a0 by (auto simp: json_of_tenant_def)
  qed
  have sound: "sound_topology assets (dr_relationships draft)" using d(3) validate_graph_sound by blast
  have one: "1 \<le> next_version db t"
  proof (cases "tenant_versions db t = []")
    case False
    from last_version [OF this] obtain row where "dget (topology_versions db) (t, next_version db t - 1) = Some row" by blast
    from registry_inv_version(1) [OF inv this] show ?thesis by simp
  qed (simp add: next_version_def)
  show ?thesis
    unfolding registry_inv_def
  proof (intro conjI allI impI)
    show "distinct (dkeys (topology_versions db'))" using inv by (simp add: db' registry_inv_def)
    show "\<exists>assets. json_of_tenant str_decimal t' assets (dr_assets d)" if "dget (topology_drafts db') t' = Some d" for t' d
      using registry_inv_draft [OF inv] that by (simp add: db')
    fix t' v row assume row: "dget (topology_versions db') (t', v) = Some row"
    show "1 \<le> v"
      using row registry_inv_version(1) [OF inv] one by (auto simp: db' split: if_splits)
    show "dget (topology_versions db') (t', w) \<noteq> None" if "1 \<le> w \<and> w < v" for w
    proof (cases "(t', v) = (t, next_version db t)")
      case True
      then show ?thesis using that next_version_gapless [OF inv, of w t] by (auto simp: db')
    next
      case False
      then have "dget (topology_versions db) (t', v) = Some row" using row by (auto simp: db' split: if_splits)
      from registry_inv_version(2) [OF inv this, of w] that show ?thesis by (auto simp: db')
    qed
    show "\<exists>assets. json_of_tenant str_decimal t' assets (vr_assets row) \<and> sound_topology assets (vr_relationships row)"
    proof (cases "(t', v) = (t, next_version db t)")
      case True
      then show ?thesis using row tenant sound by (auto simp: db' json_of_tenant_def)
    next
      case False
      then have "dget (topology_versions db) (t', v) = Some row" using row by (auto simp: db' split: if_splits)
      then show ?thesis by (rule registry_inv_version(3) [OF inv])
    qed
  qed
qed

lemma create_draft_inv:
  assumes inv: "registry_inv str_decimal db" and px: "pool_contract px"
    and ok: "create_draft_pg px str_decimal db t assets relationships = (Inr n, db')"
  shows "registry_inv str_decimal db'"
proof -
  from create_draft_pg_ok [OF px ok] obtain revision where
    t: "\<forall>a \<in> set assets. as_tenant_id a = t" and v: "topology_versions db' = topology_versions db"
    and d: "topology_drafts db' = dput t \<lparr>dr_revision = revision, dr_assets = map (asset_json str_decimal) assets,
       dr_relationships = relationships\<rparr> (topology_drafts db)" by blast
  have "\<exists>assets. json_of_tenant str_decimal t' assets (dr_assets d')" if "dget (topology_drafts db') t' = Some d'" for t' d'
    using that t registry_inv_draft [OF inv, of t' d'] by (auto simp: d json_of_tenant_def split: if_splits)
  then show ?thesis using inv unfolding registry_inv_def v by blast
qed

locale pg_topology = psycopg px for px :: "topology_db pool_exit"

definition empty_topology_db :: topology_db where
  "empty_topology_db = \<lparr>topology_drafts = [], topology_versions = []\<rparr>"

sublocale pg_topology \<subseteq> registry: safe_system empty_topology_db "registry_step px str_decimal" "registry_inv str_decimal" for str_decimal
proof
  show "registry_inv str_decimal empty_topology_db" by (simp add: registry_inv_def empty_topology_db_def)
  show "registry_inv str_decimal t" if "registry_step px str_decimal s t" "registry_inv str_decimal s" for s t
    using that(1)
  proof cases
    case (draft tenant assets relationships)
    then show ?thesis
      using that(2) create_draft_inv [OF that(2) contract] registry_rollback(2) [OF contract]
      by (cases "create_draft_pg px str_decimal s tenant assets relationships"; cases "fst (create_draft_pg px str_decimal s tenant assets relationships)") fastforce+
  next
    case (publish digest now tenant revision)
    then show ?thesis
      using that(2) publish_topology_inv [OF that(2) contract] registry_rollback(1) [OF contract]
      by (cases "publish_topology_pg px str_decimal digest now s tenant revision"; cases "fst (publish_topology_pg px str_decimal digest now s tenant revision)") fastforce+
  qed
qed

context pg_topology
begin

lemmas registry_reachable = registry.inv_reachable

end

interpretation default_topology: pg_topology commit_or_rollback
  by unfold_locales

lemma pg_topologyI: "pool_contract px \<Longrightarrow> pg_topology px"
  by unfold_locales

text \<open>
  C33: Published topologies on PostgreSQL are sound for good. After any sequence of drafts and publications,
  the versions of a tenant are numbered from 1 without gaps, and every version holds assets of that tenant
  only, in a graph that the validator accepts; and no operation changes or removes a version that exists.
\<close>
theorem published_topologies_sound:
  assumes "pool_contract px" "(registry_step px str_decimal)\<^sup>*\<^sup>* empty_topology_db db"
    and "dget (topology_versions db) (t, v) = Some row" "registry_step px str_decimal db db'"
  shows "1 \<le> v \<and> (\<forall>w. 1 \<le> w \<and> w < v \<longrightarrow> dget (topology_versions db) (t, w) \<noteq> None) \<and>
    (\<exists>assets. vr_assets row = map (asset_json str_decimal) assets \<and> (\<forall>a \<in> set assets. as_tenant_id a = t) \<and>
       sound_topology assets (vr_relationships row)) \<and>
    dget (topology_versions db') (t, v) = Some row"
proof -
  have inv: "registry_inv str_decimal db" by (rule pg_topology.registry_reachable [OF pg_topologyI [OF assms(1)] assms(2)])
  have "dget (topology_versions db') (t, v) = Some row"
    using assms(4)
  proof cases
    case (draft tenant assets relationships)
    then show ?thesis
      using assms(3) create_draft_pg_ok [OF assms(1)] registry_rollback(2) [OF assms(1)]
      by (cases "create_draft_pg px str_decimal db tenant assets relationships"; cases "fst (create_draft_pg px str_decimal db tenant assets relationships)") fastforce+
  next
    case (publish digest now tenant revision)
    obtain r d where rd: "publish_topology_pg px str_decimal digest now db tenant revision = (r, d)" by (cases "publish_topology_pg px str_decimal digest now db tenant revision")
    show ?thesis
    proof (cases r)
      case (Inl e)
      then show ?thesis using rd publish registry_rollback(1) [OF assms(1)] assms(3) by force
    next
      case (Inr s)
      have "(t, v) \<noteq> (tenant, next_version db tenant)" using assms(3) next_version_bound(2) [of db tenant] by auto
      then show ?thesis using publish_topology_pg_ok [OF assms(1) rd [unfolded Inr]] rd publish assms(3) by auto
    qed
  qed
  then show ?thesis
    using registry_inv_version [OF inv assms(3)] unfolding json_of_tenant_def by blast
qed

definition drafted_db :: topology_db where
  "drafted_db = \<lparr>topology_drafts = [(''t1'', \<lparr>dr_revision = 1, dr_assets = map (asset_json (\<lambda>_. ''12.5'')) [example_asset ''a'' (25 / 2)], dr_relationships = []\<rparr>)],
     topology_versions = []\<rparr>"

definition published_db :: topology_db where
  "published_db = drafted_db\<lparr>topology_versions := [((''t1'', 1), \<lparr>vr_assets = map (asset_json (\<lambda>_. ''12.5'')) [example_asset ''a'' (25 / 2)],
     vr_relationships = [], vr_published_at = Aware 7, vr_etag = ''e''\<rparr>)]\<rparr>"

lemma example_storable: "storable (\<lambda>_. ''12.5'') (example_asset i (25 / 2))"
  using decimal_of_string_examples by (simp add: storable_def example_asset_def)

lemma single_asset_valid: "validate_graph [example_asset i kw] [] = Inr ()"
  by (simp add: topology_simps)

lemma example_registry:
  "registry_step commit_or_rollback (\<lambda>_. ''12.5'') empty_topology_db drafted_db"
  "registry_step commit_or_rollback (\<lambda>_. ''12.5'') drafted_db published_db"
proof -
  have "draft_checks ''t1'' [example_asset ''a'' (25 / 2)] [] = Inr ()"
    by (simp add: draft_checks_def single_asset_valid) (simp add: example_asset_def)
  then have "snd (create_draft_pg commit_or_rollback (\<lambda>_. ''12.5'') empty_topology_db ''t1'' [example_asset ''a'' (25 / 2)] []) = drafted_db"
    by (simp add: create_draft_pg_def tenant_connection_def connection_def commit_or_rollback_def empty_topology_db_def drafted_db_def)
  then show "registry_step commit_or_rollback (\<lambda>_. ''12.5'') empty_topology_db drafted_db" by (metis draft)
  have "snd (publish_topology_pg commit_or_rollback (\<lambda>_. ''12.5'') (\<lambda>_ _ _. ''e'') (Aware 7) drafted_db ''t1'' 1) = published_db"
    by (simp add: publish_topology_pg_def tenant_connection_def connection_def commit_or_rollback_def drafted_db_def published_db_def
        asset_roundtrip [OF example_storable] single_asset_valid next_version_def tenant_versions_def mk_snapshot_def)
  then show "registry_step commit_or_rollback (\<lambda>_. ''12.5'') drafted_db published_db" by (metis publish)
qed

theorem published_topologies_sound_witness:
  "\<exists>assets. map (asset_json (\<lambda>_. ''12.5'')) [example_asset ''a'' (25 / 2)] = map (asset_json (\<lambda>_. ''12.5'')) assets \<and>
     sound_topology assets []"
proof -
  let ?s = "registry_step commit_or_rollback (\<lambda>_. ''12.5'')"
  let ?row = "\<lparr>vr_assets = map (asset_json (\<lambda>_. ''12.5'')) [example_asset ''a'' (25 / 2)],
     vr_relationships = [], vr_published_at = Aware 7, vr_etag = ''e''\<rparr>"
  have reach: "?s\<^sup>*\<^sup>* empty_topology_db published_db"
    by (rule converse_rtranclp_into_rtranclp [of ?s, OF example_registry(1) r_into_rtranclp [of ?s, OF example_registry(2)]])
  have row: "dget (topology_versions published_db) (''t1'', 1) = Some ?row" by (simp add: published_db_def)
  obtain db' where "?s published_db db'" using draft by blast
  from published_topologies_sound [OF commit_or_rollback_contract reach row this] show ?thesis unfolding version_row.simps by blast
qed

text \<open>
  Further: Reading back what was published. The snapshot that \<open>publish\<close> returns is the one that \<open>active\<close> returns
  next, with all its assets, as long as nothing is published in between; so every asset, with its interval,
  its end of life and its attributes, survives two passes through the JSON column.
\<close>
theorem publish_then_active:
  assumes "pool_contract px" "publish_topology_pg px str_decimal digest now db t revision = (Inr s, db')"
    and "\<forall>a \<in> set (tp_assets s). storable str_decimal a"
  shows "active_topology_pg px db' t None = Inr s \<and> version_pg px db' t (tp_version s) = Inr s"
proof -
  from publish_topology_pg_ok [OF assms(1,2)] obtain draft :: draft_row and assets where
    s: "s = mk_snapshot digest now t (next_version db t) assets (dr_relationships draft)" and t: "valid_tenant t"
    and db': "db' = db\<lparr>topology_versions := dput (t, next_version db t)
      \<lparr>vr_assets = map (asset_json str_decimal) assets, vr_relationships = dr_relationships draft,
       vr_published_at = now, vr_etag = tp_etag s\<rparr> (topology_versions db)\<rparr>" by blast
  let ?v = "next_version db t" and ?row = "the (dget (topology_versions db') (t, next_version db t))"
  have "rmap_list asset_from_dict (map (asset_json str_decimal) assets) = Inr assets"
    using assms(3) asset_roundtrip by (intro rmap_list_map_id) (simp add: s mk_snapshot_def)
  then have row: "row_snapshot t ?v ?row = Inr s"
    by (simp add: db' row_snapshot_def s mk_snapshot_def)
  have mem: "v \<in> set (tenant_versions db' t) \<longleftrightarrow> v = ?v \<or> v \<in> set (tenant_versions db t)" for v
    unfolding tenant_versions_mem by (simp add: db')
  have max: "Max (set (tenant_versions db' t)) = ?v"
  proof (rule Max_eqI)
    show "v \<le> ?v" if "v \<in> set (tenant_versions db' t)" for v
      using that next_version_bound(1) [of db t v] tenant_versions_mem [of v db t] mem [of v] by fastforce
  qed (simp_all add: mem)
  have ne: "tenant_versions db' t \<noteq> []" using mem [of ?v] by auto
  have "active_topology_pg px db' t None = Inr s"
    using row max ne by (simp add: active_topology_pg_def tenant_connection_fst [OF t] Let_def)
  moreover have "version_pg px db' t (tp_version s) = Inr s"
    using row by (simp add: version_pg_def tenant_connection_fst [OF t]) (simp add: s mk_snapshot_def db')
  ultimately show ?thesis ..
qed

theorem publish_then_active_witness:
  "\<exists>s. publish_topology_pg commit_or_rollback (\<lambda>_. ''12.5'') (\<lambda>_ _ _. ''e'') (Aware 7) drafted_db ''t1'' 1 = (Inr s, published_db) \<and>
     active_topology_pg commit_or_rollback published_db ''t1'' None = Inr s"
proof -
  let ?s = "mk_snapshot (\<lambda>_ _ _. ''e'') (Aware 7) ''t1'' 1 [example_asset ''a'' (25 / 2)] []"
  have p: "publish_topology_pg commit_or_rollback (\<lambda>_. ''12.5'') (\<lambda>_ _ _. ''e'') (Aware 7) drafted_db ''t1'' 1 = (Inr ?s, published_db)"
    by (simp add: publish_topology_pg_def tenant_connection_def connection_def commit_or_rollback_def drafted_db_def published_db_def
        asset_roundtrip [OF example_storable] single_asset_valid next_version_def tenant_versions_def mk_snapshot_def)
  show ?thesis
    using publish_then_active [OF commit_or_rollback_contract p] p example_storable by (auto simp: mk_snapshot_def)
qed

end
