(* ===== verification/Json.thy ===== *)
theory Json
  imports Values
begin

text \<open>
  \<open>json.dumps\<close> of the standard library, as the sources use it to hash and to compare documents: the
  separators and the ASCII escapes it has by default, with or without \<open>sort_keys\<close>. A string is the
  text of characters up to \<open>0xFF\<close>.

  The text of a string determines the string, whatever follows it (\<open>json_string_inj\<close>), and so the text
  of a flat object with known keys determines its values.
\<close>

definition json_char :: "char \<Rightarrow> string" where
  "json_char c =
     (if c = CHR 0x22 then [CHR 0x5C, CHR 0x22]
      else if c = CHR 0x5C then [CHR 0x5C, CHR 0x5C]
      else if c = CHR 0x0A then [CHR 0x5C, CHR ''n'']
      else if c = CHR 0x0D then [CHR 0x5C, CHR ''r'']
      else if c = CHR 0x09 then [CHR 0x5C, CHR ''t'']
      else if c = CHR 0x08 then [CHR 0x5C, CHR ''b'']
      else if c = CHR 0x0C then [CHR 0x5C, CHR ''f'']
      else let n = of_char c :: nat in
        if 32 \<le> n \<and> n \<le> 126 then [c]
        else [CHR 0x5C, CHR ''u'', CHR ''0'', CHR ''0'', hex_digit (n div 16), hex_digit (n mod 16)])"

definition json_string :: "string \<Rightarrow> string" where
  "json_string s = [CHR 0x22] @ concat (map json_char s) @ [CHR 0x22]"

definition json_float :: "string \<Rightarrow> string" where
  "json_float r =
     (if r = ''nan'' then ''NaN'' else if r = ''inf'' then ''Infinity''
      else if r = ''-inf'' then ''-Infinity'' else r)"

definition json_members :: "(string \<times> string) list \<Rightarrow> string" where
  "json_members kvs = ''{'' @ join '', '' (map (\<lambda>(k, v). json_string k @ '': '' @ v) kvs) @ ''}''"

fun json_dumps :: "bool \<Rightarrow> pyval \<Rightarrow> string" where
  "json_dumps sort_keys PNone = ''null''"
| "json_dumps sort_keys (PBool b) = (if b then ''true'' else ''false'')"
| "json_dumps sort_keys (PInt n) = string_of_int n"
| "json_dumps sort_keys (PFloat r) = json_float r"
| "json_dumps sort_keys (PStr s) = json_string s"
| "json_dumps sort_keys (PList vs) = ''['' @ join '', '' (map (json_dumps sort_keys) vs) @ '']''"
| "json_dumps sort_keys (PDict kvs) =
     (let members = map (\<lambda>(k, v). (k, json_dumps sort_keys v)) kvs
      in json_members (if sort_keys then sort_key fst members else members))"

fun json_compact :: "pyval \<Rightarrow> string" where
  \<comment> \<open>\<open>json.dumps(v, sort_keys=True, separators=(",", ":"))\<close>\<close>
  "json_compact (PList vs) = ''['' @ join '','' (map json_compact vs) @ '']''"
| "json_compact (PDict kvs) =
     ''{'' @ join '','' (map (\<lambda>(k, v). json_string k @ '':'' @ v) (sort_key fst (map (\<lambda>(k, v). (k, json_compact v)) kvs))) @ ''}''"
| "json_compact v = json_dumps True v"

section \<open>The text of a string determines the string\<close>

definition hex_value :: "char \<Rightarrow> nat" where
  "hex_value c = (let n = of_char c in if n < 58 then n - 48 else n - 87)"

fun read_json_char :: "string \<Rightarrow> (char \<times> string) option" where
  "read_json_char [] = None"
| "read_json_char (c # r) =
     (if c \<noteq> CHR 0x5C then (if c = CHR 0x22 then None else Some (c, r))
      else case r of
        [] \<Rightarrow> None
      | d # r' \<Rightarrow>
          if d = CHR ''n'' then Some (CHR 0x0A, r')
          else if d = CHR ''r'' then Some (CHR 0x0D, r')
          else if d = CHR ''t'' then Some (CHR 0x09, r')
          else if d = CHR ''b'' then Some (CHR 0x08, r')
          else if d = CHR ''f'' then Some (CHR 0x0C, r')
          else if d = CHR ''u'' then
            (case r' of
               _ # _ # x # y # r'' \<Rightarrow> Some (char_of (16 * hex_value x + hex_value y), r'')
             | _ \<Rightarrow> None)
          else Some (d, r'))"

lemma hex_value_digit: "n < 16 \<Longrightarrow> hex_value (hex_digit n) = n"
  by (auto simp: hex_value_def hex_digit_def Let_def)


lemma read_json_char_app [simp]: "read_json_char (json_char c @ r) = Some (c, r)"
proof -
  have "(of_char c :: nat) div 16 < 16" using nat_of_char_less_256 [of c] by (simp add: less_mult_imp_div_less)
  then have "char_of (16 * hex_value (hex_digit (of_char c div 16)) + hex_value (hex_digit (of_char c mod 16))) = c"
    by (simp add: hex_value_digit)
  then show ?thesis by (simp add: json_char_def Let_def)
qed

lemma json_char_inj: "json_char c @ r = json_char d @ r' \<Longrightarrow> c = d \<and> r = r'"
  by (metis read_json_char_app option.inject prod.inject)

lemma json_char_not_quote: "json_char c @ r \<noteq> CHR 0x22 # r'"
proof
  assume "json_char c @ r = CHR 0x22 # r'"
  then have "read_json_char (CHR 0x22 # r') = Some (c, r)" using read_json_char_app [of c r] by simp
  then show False by simp
qed

lemma json_chars_inj:
  "concat (map json_char s) @ CHR 0x22 # r = concat (map json_char t) @ CHR 0x22 # r' \<Longrightarrow> s = t \<and> r = r'"
proof (induction s arbitrary: t)
  case Nil
  show ?case
  proof (cases t)
    case (Cons d t')
    with Nil json_char_not_quote [of d "concat (map json_char t') @ CHR 0x22 # r'" r] show ?thesis by simp
  qed (use Nil in simp)
next
  case (Cons c s)
  show ?case
  proof (cases t)
    case Nil
    with Cons.prems json_char_not_quote [of c "concat (map json_char s) @ CHR 0x22 # r" r'] show ?thesis by simp
  next
    case t: (Cons d t')
    have "json_char c @ concat (map json_char s) @ CHR 0x22 # r =
      json_char d @ concat (map json_char t') @ CHR 0x22 # r'"
      using Cons.prems t by simp
    then have "c = d" "concat (map json_char s) @ CHR 0x22 # r = concat (map json_char t') @ CHR 0x22 # r'"
      using json_char_inj by blast+
    with Cons.IH t show ?thesis by simp
  qed
qed

lemma json_string_inj: "json_string s @ r = json_string t @ r' \<Longrightarrow> s = t \<and> r = r'"
  using json_chars_inj [of s r t r'] by (simp add: json_string_def)

lemma join_string_members_inj:
  "length vs = length ks \<Longrightarrow> length ws = length ks \<Longrightarrow>
   join '', '' (map (\<lambda>(k, v). json_string k @ '': '' @ json_string v) (zip ks vs)) @ r =
   join '', '' (map (\<lambda>(k, v). json_string k @ '': '' @ json_string v) (zip ks ws)) @ r' \<Longrightarrow> vs = ws \<and> r = r'"
proof (induction ks arbitrary: vs ws)
  case (Cons k ks)
  then obtain v vs' w ws' where eq: "vs = v # vs'" "ws = w # ws'" "length vs' = length ks" "length ws' = length ks"
    by (metis length_Suc_conv)
  show ?case
  proof (cases ks)
    case Nil
    with Cons.prems eq show ?thesis by (auto dest: json_string_inj)
  next
    case ks: (Cons k' ks')
    with eq obtain v' vs'' w' ws'' where eq': "vs' = v' # vs''" "ws' = w' # ws''"
      by (metis length_Suc_conv)
    let ?j = "\<lambda>xs. join '', '' (map (\<lambda>(k, v). json_string k @ '': '' @ json_string v) (zip ks xs))"
    have "json_string v @ '', '' @ ?j vs' @ r = json_string w @ '', '' @ ?j ws' @ r'"
      using Cons.prems(3) eq eq' ks by simp
    then have "v = w" "?j vs' @ r = ?j ws' @ r'"
      by (auto dest: json_string_inj)
    with Cons.IH [OF eq(3,4)] eq show ?thesis by simp
  qed
qed simp

lemma json_members_inj:
  assumes "json_members (zip ks (map json_string vs)) = json_members (zip ks (map json_string ws))"
    and "length vs = length ks" "length ws = length ks"
  shows "vs = ws"
proof -
  have eq: "map (\<lambda>(k, v). json_string k @ '': '' @ v) (zip ks (map json_string xs)) =
      map (\<lambda>(k, v). json_string k @ '': '' @ json_string v) (zip ks xs)" for xs
    by (simp add: zip_map2 split_def)
  show ?thesis
    using join_string_members_inj [OF assms(2,3), of "''}''" "''}''"] assms(1)
    unfolding json_members_def eq by blast
qed

end
