(* ===== verification/Audit_Log.thy ===== *)
theory Audit_Log
  imports Persistence Json Datetimes
begin

text \<open>
  The hash-chained audit log of \<open>packages/observability/audit.py\<close>, in memory and on PostgreSQL.

  \<open>sha256\<close> (the hexadecimal digest of the text) is a parameter; the text it is applied to is modelled
  character by character. The clock is an argument. A \<open>timestamptz\<close> keeps microseconds, so a row gives
  back the instant it was written with; rows are in the order of \<open>sequence\<close>.

  The properties: chains on PostgreSQL verify in every reachable database; two chains that verify and
  end in the same digest are the same chain, unless two of their own records collide under the digest.
  In memory one chain runs through all tenants, which \<open>verify_tenant\<close> does not take into account.
\<close>

section \<open>Records\<close>

record audit_record =
  ar_timestamp :: instant
  ar_actor_id :: string
  ar_tenant_id :: string
  ar_action :: string
  ar_resource :: string
  ar_outcome :: string
  ar_correlation_id :: string
  ar_previous_hash :: string
  ar_record_hash :: string

definition audit_source ::
  "instant \<Rightarrow> string \<Rightarrow> string \<Rightarrow> string \<Rightarrow> string \<Rightarrow> string \<Rightarrow> string \<Rightarrow> string \<Rightarrow> string" where
  "audit_source timestamp actor_id tenant_id action resource outcome correlation_id previous =
     json_dumps True (PDict [
       (''timestamp'', PStr (isoformat (CHR ''T'') (Aware timestamp))),
       (''actor_id'', PStr actor_id),
       (''tenant_id'', PStr tenant_id),
       (''action'', PStr action),
       (''resource'', PStr resource),
       (''outcome'', PStr outcome),
       (''correlation_id'', PStr correlation_id),
       (''previous_hash'', PStr previous)])"

definition new_record ::
  "(string \<Rightarrow> string) \<Rightarrow> instant \<Rightarrow> string \<Rightarrow> string \<Rightarrow> string \<Rightarrow> string \<Rightarrow> string \<Rightarrow> string \<Rightarrow> string \<Rightarrow> audit_record" where
  "new_record sha256 timestamp actor_id tenant_id action resource outcome correlation_id previous =
     \<lparr>ar_timestamp = timestamp, ar_actor_id = actor_id, ar_tenant_id = tenant_id, ar_action = action,
      ar_resource = resource, ar_outcome = outcome, ar_correlation_id = correlation_id,
      ar_previous_hash = previous,
      ar_record_hash =
        sha256 (audit_source timestamp actor_id tenant_id action resource outcome correlation_id previous)\<rparr>"

definition last_hash :: "audit_record list \<Rightarrow> string" where
  "last_hash rs = (if rs = [] then ''GENESIS'' else ar_record_hash (last rs))"

section \<open>The log in memory\<close>

definition append_memory ::
  "(string \<Rightarrow> string) \<Rightarrow> instant \<Rightarrow> string \<Rightarrow> string \<Rightarrow> string \<Rightarrow> string \<Rightarrow> string \<Rightarrow> string \<Rightarrow>
   audit_record list \<Rightarrow> audit_record \<times> audit_record list" where
  "append_memory sha256 now actor_id tenant_id action resource outcome correlation_id trail =
     (let r = new_record sha256 now actor_id tenant_id action resource outcome correlation_id (last_hash trail)
      in (r, trail @ [r]))"

definition record_source :: "audit_record \<Rightarrow> string" where
  \<comment> \<open>\<open>asdict(record)\<close> without the hash, with the timestamp as text\<close>
  "record_source r =
     audit_source (ar_timestamp r) (ar_actor_id r) (ar_tenant_id r) (ar_action r) (ar_resource r)
       (ar_outcome r) (ar_correlation_id r) (ar_previous_hash r)"

fun verify_from :: "(string \<Rightarrow> string) \<Rightarrow> string \<Rightarrow> audit_record list \<Rightarrow> bool" where
  "verify_from sha256 previous [] = True"
| "verify_from sha256 previous (r # rs) =
     (if ar_previous_hash r \<noteq> previous then False
      else if sha256 (record_source r) \<noteq> ar_record_hash r then False
      else verify_from sha256 (ar_record_hash r) rs)"

definition verify_memory :: "(string \<Rightarrow> string) \<Rightarrow> audit_record list \<Rightarrow> bool" where
  "verify_memory sha256 trail = verify_from sha256 ''GENESIS'' trail"

definition records_memory :: "string \<Rightarrow> audit_record list \<Rightarrow> audit_record list" where
  "records_memory tenant_id trail = filter (\<lambda>r. ar_tenant_id r = tenant_id) trail"

definition verify_tenant_memory :: "(string \<Rightarrow> string) \<Rightarrow> string \<Rightarrow> audit_record list \<Rightarrow> bool" where
  "verify_tenant_memory sha256 tenant_id trail = verify_from sha256 ''GENESIS'' (records_memory tenant_id trail)"

section \<open>The log on PostgreSQL\<close>

type_synonym audit_db = "audit_record list" \<comment> \<open>\<open>audit_records\<close>, by \<open>sequence\<close>\<close>

definition audit_rows :: "string \<Rightarrow> audit_db \<Rightarrow> audit_record list" where
  "audit_rows tenant_id db = filter (\<lambda>r. ar_tenant_id r = tenant_id) db"

definition append_pg ::
  "audit_db pool_exit \<Rightarrow> (string \<Rightarrow> string) \<Rightarrow> instant \<Rightarrow> string \<Rightarrow> string \<Rightarrow> string \<Rightarrow> string \<Rightarrow> string \<Rightarrow> string \<Rightarrow>
   audit_db \<Rightarrow> audit_record result \<times> audit_db" where
  "append_pg px sha256 now actor_id tenant_id action resource outcome correlation_id db =
     tenant_connection px tenant_id db (\<lambda>db.
       let previous = last_hash (audit_rows tenant_id db);
           r = new_record sha256 now actor_id tenant_id action resource outcome correlation_id previous
       in if \<exists>row \<in> set db. ar_record_hash row = ar_record_hash r
          then (Inl (RuntimeError ''duplicate key value violates unique constraint''), db)
          else (Inr r, db @ [r]))"

definition records_pg :: "audit_db pool_exit \<Rightarrow> string \<Rightarrow> audit_db \<Rightarrow> audit_record list result" where
  "records_pg px tenant_id db = fst (tenant_connection px tenant_id db (\<lambda>db. (Inr (audit_rows tenant_id db), db)))"

definition verify_pg :: "bool result" where
  "verify_pg = Inl (ValueError ''tenant_id is required to verify a persistent audit chain'')"

definition verify_tenant_pg :: "audit_db pool_exit \<Rightarrow> (string \<Rightarrow> string) \<Rightarrow> string \<Rightarrow> audit_db \<Rightarrow> bool result" where
  "verify_tenant_pg px sha256 tenant_id db =
     rbind (records_pg px tenant_id db) (\<lambda>rs. Inr (verify_from sha256 ''GENESIS'' rs))"

inductive audit_step :: "audit_db pool_exit \<Rightarrow> (string \<Rightarrow> string) \<Rightarrow> audit_db \<Rightarrow> audit_db \<Rightarrow> bool"
  for px :: "audit_db pool_exit" and sha256 :: "string \<Rightarrow> string" where
  append: "append_pg px sha256 now actor_id tenant_id action resource outcome correlation_id db = (r, db') \<Longrightarrow>
    audit_step px sha256 db db'"

section \<open>Chains\<close>

lemma verify_from_snoc:
  "verify_from sha256 p (rs @ [r]) \<longleftrightarrow>
     verify_from sha256 p rs \<and> ar_previous_hash r = (if rs = [] then p else ar_record_hash (last rs)) \<and>
     sha256 (record_source r) = ar_record_hash r"
  by (induction rs arbitrary: p) auto

lemma verify_genesis_snoc:
  "verify_from sha256 ''GENESIS'' (rs @ [r]) \<longleftrightarrow>
     verify_from sha256 ''GENESIS'' rs \<and> ar_previous_hash r = last_hash rs \<and> sha256 (record_source r) = ar_record_hash r"
  by (simp add: verify_from_snoc last_hash_def)

lemma new_record_linked:
  "ar_previous_hash (new_record sha256 now a t ac re ou co p) = p"
  "sha256 (record_source (new_record sha256 now a t ac re ou co p)) = ar_record_hash (new_record sha256 now a t ac re ou co p)"
  "ar_tenant_id (new_record sha256 now a t ac re ou co p) = t"
  by (simp_all add: new_record_def record_source_def)

lemma verify_append:
  "verify_from sha256 ''GENESIS'' rs \<Longrightarrow>
     verify_from sha256 ''GENESIS'' (rs @ [new_record sha256 now a t ac re ou co (last_hash rs)])"
  by (simp add: verify_genesis_snoc new_record_linked)

definition audit_keys :: "string list" where
  "audit_keys = [''action'', ''actor_id'', ''correlation_id'', ''outcome'', ''previous_hash'', ''resource'',
     ''tenant_id'', ''timestamp'']"

lemma audit_source_members:
  "audit_source ts a t ac re ou co p =
     json_members (zip audit_keys (map json_string [ac, a, co, ou, p, re, t, isoformat (CHR ''T'') (Aware ts)]))"
  by (simp add: audit_source_def audit_keys_def Let_def less_eq_char_def less_char_def)

lemma isoformat_inj:
  "representable d \<Longrightarrow> representable d' \<Longrightarrow> isoformat sep d = isoformat sep d' \<Longrightarrow> d = d'"
  by (metis fromisoformat_isoformat sum.inject(2))

definition dated :: "audit_record \<Rightarrow> bool" where
  "dated r = representable (Aware (ar_timestamp r))"

lemma record_source_inj:
  assumes "record_source r = record_source r'" and "dated r" "dated r'" and "ar_record_hash r = ar_record_hash r'"
  shows "r = r'"
proof -
  let ?f = "\<lambda>r. [ar_action r, ar_actor_id r, ar_correlation_id r, ar_outcome r, ar_previous_hash r, ar_resource r,
    ar_tenant_id r, isoformat (CHR ''T'') (Aware (ar_timestamp r))]"
  have "?f r = ?f r'"
    by (rule json_members_inj [of audit_keys])
      (use assms(1) in \<open>simp_all only: record_source_def audit_source_members, simp_all add: audit_keys_def\<close>)
  then show ?thesis
    using assms(2-4) isoformat_inj [of "Aware (ar_timestamp r)" "Aware (ar_timestamp r')"]
    by (auto simp: dated_def intro!: audit_record.equality)
qed

definition collision :: "(string \<Rightarrow> string) \<Rightarrow> audit_record list \<Rightarrow> audit_record list \<Rightarrow> bool" where
  \<comment> \<open>two records, one of each chain, with different texts and the same digest\<close>
  "collision sha256 rs rs' \<longleftrightarrow>
     (\<exists>r \<in> set rs. \<exists>r' \<in> set rs'. record_source r \<noteq> record_source r' \<and> sha256 (record_source r) = sha256 (record_source r'))"

lemma chains_agree:
  assumes "\<And>s. sha256 s \<noteq> ''GENESIS''"
  shows "verify_from sha256 ''GENESIS'' rs \<Longrightarrow> verify_from sha256 ''GENESIS'' rs' \<Longrightarrow> last_hash rs = last_hash rs' \<Longrightarrow>
    list_all dated rs \<Longrightarrow> list_all dated rs' \<Longrightarrow> \<not> collision sha256 rs rs' \<Longrightarrow> rs = rs'"
proof (induction rs arbitrary: rs' rule: rev_induct)
  case Nil
  show ?case
  proof (cases rs' rule: rev_cases)
    case (snoc qs q)
    then have "sha256 (record_source q) = ''GENESIS''"
      using Nil by (simp add: verify_genesis_snoc last_hash_def)
    with assms show ?thesis by blast
  qed simp
next
  case (snoc r rs)
  have r: "verify_from sha256 ''GENESIS'' rs" "ar_previous_hash r = last_hash rs"
    "sha256 (record_source r) = ar_record_hash r"
    using snoc.prems(1) by (simp_all add: verify_genesis_snoc)
  show ?case
  proof (cases rs' rule: rev_cases)
    case Nil
    then have "sha256 (record_source r) = ''GENESIS''" using snoc.prems(3) r(3) by (simp add: last_hash_def)
    with assms show ?thesis by blast
  next
    case q: (snoc qs q)
    have q': "verify_from sha256 ''GENESIS'' qs" "ar_previous_hash q = last_hash qs"
      "sha256 (record_source q) = ar_record_hash q"
      using snoc.prems(2) q by (simp_all add: verify_genesis_snoc)
    have hash: "ar_record_hash r = ar_record_hash q" using snoc.prems(3) q by (simp add: last_hash_def)
    have "record_source r = record_source q"
      using snoc.prems(6) q hash r(3) q'(3) by (auto simp: collision_def)
    then have "r = q" using snoc.prems(4,5) q hash by (auto intro: record_source_inj)
    moreover have "rs = qs"
      using snoc.IH [OF r(1) q'(1)] r(2) q'(2) \<open>r = q\<close> snoc.prems(4-6) q by (auto simp: collision_def)
    ultimately show ?thesis using q by simp
  qed
qed

section \<open>The persistent log as a transition system\<close>

definition chains_ok :: "(string \<Rightarrow> string) \<Rightarrow> audit_db \<Rightarrow> bool" where
  "chains_ok sha256 db \<longleftrightarrow> (\<forall>t. verify_from sha256 ''GENESIS'' (audit_rows t db))"

lemma append_pg_cases:
  assumes "pool_contract px" "append_pg px sha256 now a t ac re ou co db = (r, db')"
  obtains (refused) e where "r = Inl e" "db' = db"
    | (added) "r = Inr (new_record sha256 now a t ac re ou co (last_hash (audit_rows t db)))"
        "db' = db @ [new_record sha256 now a t ac re ou co (last_hash (audit_rows t db))]" "valid_tenant t"
proof (cases r)
  case (Inl e)
  with assms show ?thesis
    using refused by (auto simp: append_pg_def dest: tenant_connection_rollback)
next
  case (Inr x)
  with assms show ?thesis
    using added by (auto simp: append_pg_def tenant_connection_commit Let_def split: if_splits)
qed

lemma chains_ok_append:
  assumes "chains_ok sha256 db"
  shows "chains_ok sha256 (db @ [new_record sha256 now a t ac re ou co (last_hash (audit_rows t db))])"
  using assms verify_append by (simp add: chains_ok_def audit_rows_def new_record_linked)

locale pg_audit = psycopg px for px :: "audit_db pool_exit" +
  fixes sha256 :: "string \<Rightarrow> string"

sublocale pg_audit \<subseteq> system: safe_system "[]" "audit_step px sha256" "chains_ok sha256"
proof
  show "chains_ok sha256 []" by (simp add: chains_ok_def audit_rows_def)
next
  fix s t
  assume "audit_step px sha256 s t" and "chains_ok sha256 s"
  then show "chains_ok sha256 t"
    by cases (auto elim: append_pg_cases [OF contract] intro: chains_ok_append)
qed

context pg_audit
begin

lemmas reachable_chains = system.inv_reachable

end

interpretation default_audit: pg_audit commit_or_rollback "\<lambda>s. s"
  by unfold_locales

lemma pg_auditI: "pool_contract px \<Longrightarrow> pg_audit px"
  by unfold_locales

lemma verify_tenant_pg_eq:
  "valid_tenant t \<Longrightarrow> verify_tenant_pg px sha256 t db = Inr (verify_from sha256 ''GENESIS'' (audit_rows t db))"
  by (simp add: verify_tenant_pg_def records_pg_def tenant_connection_fst)

section \<open>Properties\<close>

text \<open>
  Further: The audit trail on PostgreSQL is append-only and verifies: in every database that any sequence
  of appends by any tenants leads to, \<open>verify_tenant\<close> answers True for every tenant, and a further
  append that succeeds leaves every earlier row where it was, adds its own record at the end of the
  tenant's records and changes the records of no other tenant.
\<close>
theorem audit_trail_intact:
  assumes "pool_contract px" and "(audit_step px sha256)\<^sup>*\<^sup>* [] db" and "valid_tenant t"
    and "append_pg px sha256 now actor tenant action resource outcome correlation db = (Inr r, db')"
  shows "verify_tenant_pg px sha256 t db' = Inr True \<and>
    records_pg px tenant db' = Inr (audit_rows tenant db @ [r]) \<and>
    (t \<noteq> tenant \<longrightarrow> records_pg px t db' = records_pg px t db) \<and>
    ar_actor_id r = actor \<and> ar_action r = action \<and> ar_resource r = resource \<and> ar_outcome r = outcome \<and> db' = db @ [r]"
proof -
  have "(audit_step px sha256)\<^sup>*\<^sup>* [] db'"
    using assms(2) audit_step.append [OF assms(4)] by (rule rtranclp.rtrancl_into_rtrancl)
  then have ok: "chains_ok sha256 db'" by (rule pg_audit.reachable_chains [OF pg_auditI [OF assms(1)]])
  show ?thesis
  proof (rule append_pg_cases [OF assms(1,4)])
    fix e assume "Inr r = Inl e"
    then show ?thesis by simp
  next
    let ?n = "new_record sha256 now actor tenant action resource outcome correlation (last_hash (audit_rows tenant db))"
    assume eq: "Inr r = Inr ?n" "db' = db @ [?n]" and v: "valid_tenant tenant"
    have t: "ar_tenant_id r = tenant" using eq by (simp add: new_record_linked)
    show ?thesis
      using ok eq v t assms(3)
      by (auto simp: verify_tenant_pg_eq chains_ok_def records_pg_def tenant_connection_fst audit_rows_def new_record_def)
  qed
qed

definition example_digest :: "string \<Rightarrow> string" where
  "example_digest s = ''sha256:'' @ s"

theorem audit_trail_intact_witness:
  "\<exists>r db'. append_pg commit_or_rollback example_digest 0 ''alice'' ''t1'' ''approve'' ''plan-1'' ''ok'' ''c-1'' [] = (Inr r, db') \<and>
     verify_tenant_pg commit_or_rollback example_digest ''t2'' db' = Inr True \<and> db' = [r]"
proof -
  let ?r = "new_record example_digest 0 ''alice'' ''t1'' ''approve'' ''plan-1'' ''ok'' ''c-1'' ''GENESIS''"
  have run: "append_pg commit_or_rollback example_digest 0 ''alice'' ''t1'' ''approve'' ''plan-1'' ''ok'' ''c-1'' [] = (Inr ?r, [?r])"
    by (simp add: append_pg_def tenant_connection_def connection_def commit_or_rollback_def Let_def audit_rows_def last_hash_def)
  have t2: "valid_tenant ''t2''" by (simp add: valid_tenant_def)
  show ?thesis
    using audit_trail_intact [OF commit_or_rollback_contract rtranclp.rtrancl_refl t2 run] run by auto
qed

text \<open>
  C4: The chain is tamper-evident. Let \<open>sha256\<close> give 64 characters, and take two chains that both pass
  verification and end in the same digest. Then they are the same list of records, field by field,
  unless a record of one and a record of the other are a collision of the digest: changing,
  inserting, dropping or reordering records is detected by whoever knows the last digest.
\<close>
theorem audit_tamper_evident:
  assumes "\<forall>s. length (sha256 s) = 64"
    and "verify_from sha256 ''GENESIS'' rs" and "verify_from sha256 ''GENESIS'' rs'"
    and "last_hash rs = last_hash rs'" and "list_all dated rs" and "list_all dated rs'"
  shows "rs = rs' \<or> collision sha256 rs rs'"
proof -
  have "sha256 s \<noteq> ''GENESIS''" for s
    using assms(1) [rule_format, of s] by auto
  from chains_agree [of sha256, OF this assms(2-6)] show ?thesis by blast
qed

definition padded_digest :: "string \<Rightarrow> string" where
  \<comment> \<open>64 characters, and no text collides with the first source of the examples\<close>
  "padded_digest s =
     replicate 64 (if s = audit_source 0 ''alice'' ''t1'' ''approve'' ''plan-1'' ''ok'' ''c-1'' ''GENESIS''
                   then CHR ''1'' else CHR ''0'')"

lemma padded_digest_length: "\<forall>s. length (padded_digest s) = 64"
  by (simp add: padded_digest_def)

theorem audit_tamper_evident_witness:
  "let r = new_record padded_digest 0 ''alice'' ''t1'' ''approve'' ''plan-1'' ''ok'' ''c-1'' ''GENESIS'';
       r' = r\<lparr>ar_outcome := ''denied''\<rparr>
   in verify_from padded_digest ''GENESIS'' [r] \<and> last_hash [r] = last_hash [r'] \<and> \<not> collision padded_digest [r] [r'] \<and>
      \<not> verify_from padded_digest ''GENESIS'' [r']"
proof -
  let ?r = "new_record padded_digest 0 ''alice'' ''t1'' ''approve'' ''plan-1'' ''ok'' ''c-1'' ''GENESIS''"
  let ?r' = "?r\<lparr>ar_outcome := ''denied''\<rparr>"
  have src: "record_source ?r = audit_source 0 ''alice'' ''t1'' ''approve'' ''plan-1'' ''ok'' ''c-1'' ''GENESIS''"
    by (simp add: record_source_def new_record_def)
  have nc: "\<not> collision padded_digest [?r] [?r']"
    using src by (simp add: collision_def padded_digest_def)
  have ok: "verify_from padded_digest ''GENESIS'' [?r]"
    by (simp add: new_record_linked)
  have last: "last_hash [?r] = last_hash [?r']" by (simp add: last_hash_def)
  have "representable (Aware 0)" by code_simp
  then have d: "list_all dated [?r]" "list_all dated [?r']" by (simp_all add: dated_def new_record_def)
  have "[?r] \<noteq> [?r']" by (simp add: new_record_def)
  then have "\<not> verify_from padded_digest ''GENESIS'' [?r']"
    using audit_tamper_evident [OF padded_digest_length ok _ last d] nc by blast
  with ok last nc show ?thesis unfolding Let_def by blast
qed

text \<open>
  Further: In memory the log is one chain over all tenants, and it always verifies as a whole; but
  \<open>verify_tenant\<close> expects each tenant's records to start at GENESIS, and answers False for a tenant
  whose first record follows one of another tenant, although nothing was tampered with.
\<close>
theorem memory_tenant_chain_rejected:
  assumes "\<forall>s. length (sha256 s) = 64" and "verify_memory sha256 trail" and "trail \<noteq> []" and "records_memory t trail = []"
    and "append_memory sha256 now actor t action resource outcome correlation trail = (r, trail')"
  shows "verify_memory sha256 trail' \<and> \<not> verify_tenant_memory sha256 t trail'"
proof -
  have trail': "trail' = trail @ [new_record sha256 now actor t action resource outcome correlation (last_hash trail)]"
    using assms(5) by (auto simp: append_memory_def Let_def)
  obtain qs q where q: "trail = qs @ [q]" using assms(3) by (cases trail rule: rev_cases) auto
  have "sha256 (record_source q) = ar_record_hash q"
    using assms(2) q by (simp add: verify_memory_def verify_genesis_snoc)
  then have "last_hash trail \<noteq> ''GENESIS''"
    using assms(1) [rule_format, of "record_source q"] q by (auto simp: last_hash_def)
  then show ?thesis
    using assms(2,4) verify_append trail'
    by (simp add: verify_memory_def verify_tenant_memory_def records_memory_def new_record_linked)
qed

theorem memory_tenant_chain_rejected_witness:
  "let (r1, trail1) = append_memory padded_digest 0 ''alice'' ''t1'' ''approve'' ''plan-1'' ''ok'' ''c-1'' [];
       (r2, trail2) = append_memory padded_digest 1 ''bob'' ''t2'' ''approve'' ''plan-2'' ''ok'' ''c-2'' trail1
   in verify_memory padded_digest trail2 \<and> \<not> verify_tenant_memory padded_digest ''t2'' trail2"
proof -
  let ?r = "new_record padded_digest 0 ''alice'' ''t1'' ''approve'' ''plan-1'' ''ok'' ''c-1'' ''GENESIS''"
  have one: "append_memory padded_digest 0 ''alice'' ''t1'' ''approve'' ''plan-1'' ''ok'' ''c-1'' [] = (?r, [?r])"
    by (simp add: append_memory_def Let_def last_hash_def)
  have v: "verify_memory padded_digest [?r]"
    by (simp add: verify_memory_def new_record_linked)
  have none: "records_memory ''t2'' [?r] = []" by (simp add: records_memory_def new_record_linked)
  show ?thesis
    using memory_tenant_chain_rejected [OF padded_digest_length v _ none prod.collapse [symmetric]] one by (auto simp: split_def)
qed

end
