(* ===== verification/Job_Queue.thy ===== *)
theory Job_Queue
  imports Persistence Json
begin

text \<open>
  The durable job queue of \<open>packages/jobs/queue.py\<close> and the worker loop body of
  \<open>apps/worker/main.py\<close>.

  The table \<open>durable_jobs\<close> is a list of rows in the order of insertion with the next value of its
  sequence. Every operation is one transaction and so one atomic step; \<open>FOR UPDATE SKIP LOCKED\<close>
  lets two claims that overlap take different rows, as they do one after the other. The database
  clock is the argument \<open>now\<close>. \<open>jsonb\<close> is what the server gives back of a stored document.

  \<open>queue_step\<close> has one rule per operation, with any caller, any clock and any job object. The
  properties: rows keep their identity and a settled job never changes again; a claim takes exactly
  the oldest job that is due and not under a live lease, and the job stays with its worker until the lease
  ends or the worker lets it go; a repeated enqueue finds the first job. A
  lease that runs out is claimed again whatever \<open>max_attempts\<close> says.
\<close>

section \<open>Rows and jobs\<close>

datatype job_status = JPending | JRunning | JSucceeded | JFailed | JDead_Letter

record job_row =
  jr_id :: int
  jr_tenant_id :: string
  jr_kind :: string
  jr_payload :: json_object
  jr_idempotency_key :: string
  jr_status :: job_status
  jr_attempt :: int
  jr_max_attempts :: int
  jr_available_at :: instant
  jr_leased_by :: "string option"
  jr_lease_expires_at :: "instant option"
  jr_last_error :: "string option"
  jr_result :: "json_object option"

record job_db =
  durable_jobs :: "job_row list"
  next_job_id :: int

record durable_job =
  dj_id :: int
  dj_tenant_id :: string
  dj_kind :: string
  dj_payload :: json_object
  dj_idempotency_key :: string
  dj_attempt :: int
  dj_max_attempts :: int
  dj_lease_expires_at :: instant

definition job_db_init :: job_db where
  "job_db_init = \<lparr>durable_jobs = [], next_job_id = 1\<rparr>"

section \<open>Operations\<close>

definition enqueue ::
  "job_db pool_exit \<Rightarrow> (json_object \<Rightarrow> json_object) \<Rightarrow> instant \<Rightarrow> string \<Rightarrow> string \<Rightarrow> json_object \<Rightarrow> string \<Rightarrow> int \<Rightarrow>
   instant option \<Rightarrow> job_db \<Rightarrow> int result \<times> job_db" where
  "enqueue px jsonb now tenant_id kind payload idempotency_key max_attempts available_at db =
     (if max_attempts < 1 then (Inl (ValueError ''max_attempts must be positive''), db)
      else tenant_connection px tenant_id db (\<lambda>db.
        case find (\<lambda>r. jr_tenant_id r = tenant_id \<and> jr_idempotency_key r = idempotency_key) (durable_jobs db) of
          Some existing \<Rightarrow>
            if jr_kind existing \<noteq> kind \<or>
               json_dumps True (PDict (jr_payload existing)) \<noteq> json_dumps True (PDict payload)
            then (Inl (ValueError ''job idempotency key reused with different payload''), db)
            else (Inr (jr_id existing), db)
        | None \<Rightarrow>
            (Inr (next_job_id db),
             db\<lparr>durable_jobs := durable_jobs db @
                  [\<lparr>jr_id = next_job_id db, jr_tenant_id = tenant_id, jr_kind = kind, jr_payload = jsonb payload,
                    jr_idempotency_key = idempotency_key, jr_status = JPending, jr_attempt = 0,
                    jr_max_attempts = max_attempts,
                    jr_available_at = (case available_at of Some t \<Rightarrow> t | None \<Rightarrow> now),
                    jr_leased_by = None, jr_lease_expires_at = None, jr_last_error = None, jr_result = None\<rparr>],
                next_job_id := next_job_id db + 1\<rparr>)))"

definition claimable :: "instant \<Rightarrow> job_row \<Rightarrow> bool" where
  "claimable now r \<longleftrightarrow>
     jr_status r = JPending \<and> jr_available_at r \<le> now \<or>
     jr_status r = JRunning \<and> (case jr_lease_expires_at r of Some t \<Rightarrow> t \<le> now | None \<Rightarrow> False)"

definition update_job :: "int \<Rightarrow> (job_row \<Rightarrow> job_row) \<Rightarrow> job_db \<Rightarrow> job_db" where
  "update_job i f db = db\<lparr>durable_jobs := map (\<lambda>r. if jr_id r = i then f r else r) (durable_jobs db)\<rparr>"

definition lease_job :: "instant \<Rightarrow> string \<Rightarrow> int \<Rightarrow> job_row \<Rightarrow> job_row" where
  "lease_job now worker_id lease_seconds r =
     r\<lparr>jr_status := JRunning, jr_attempt := jr_attempt r + 1, jr_leased_by := Some worker_id,
       jr_lease_expires_at := Some (now + seconds lease_seconds)\<rparr>"

definition claimed_job :: "instant \<Rightarrow> job_row \<Rightarrow> durable_job" where
  "claimed_job expires r =
     \<lparr>dj_id = jr_id r, dj_tenant_id = jr_tenant_id r, dj_kind = jr_kind r, dj_payload = jr_payload r,
      dj_idempotency_key = jr_idempotency_key r, dj_attempt = jr_attempt r, dj_max_attempts = jr_max_attempts r,
      dj_lease_expires_at = expires\<rparr>"

definition claim ::
  "job_db pool_exit \<Rightarrow> instant \<Rightarrow> string \<Rightarrow> int \<Rightarrow> job_db \<Rightarrow> durable_job option result \<times> job_db" where
  "claim px now worker_id lease_seconds db =
     (if lease_seconds < 5 then (Inl (ValueError ''lease must be at least five seconds''), db)
      else connection px db (\<lambda>db.
        case sort_key (\<lambda>r. (jr_available_at r, jr_id r)) (filter (claimable now) (durable_jobs db)) of
          [] \<Rightarrow> (Inr None, db)
        | candidate # _ \<Rightarrow>
            (Inr (Some (claimed_job (now + seconds lease_seconds) (lease_job now worker_id lease_seconds candidate))),
             update_job (jr_id candidate) (lease_job now worker_id lease_seconds) db)))"

definition held_by :: "int \<Rightarrow> string \<Rightarrow> job_row \<Rightarrow> bool" where
  \<comment> \<open>\<open>WHERE id = %s AND status = 'running' AND leased_by = %s\<close>\<close>
  "held_by i worker_id r \<longleftrightarrow> jr_id r = i \<and> jr_status r = JRunning \<and> jr_leased_by r = Some worker_id"

definition heartbeat ::
  "job_db pool_exit \<Rightarrow> instant \<Rightarrow> durable_job \<Rightarrow> string \<Rightarrow> int \<Rightarrow> job_db \<Rightarrow> bool result \<times> job_db" where
  "heartbeat px now job worker_id lease_seconds db =
     tenant_connection px (dj_tenant_id job) db (\<lambda>db.
       (Inr (\<exists>r \<in> set (durable_jobs db). held_by (dj_id job) worker_id r),
        update_job (dj_id job)
          (\<lambda>r. if held_by (dj_id job) worker_id r
               then r\<lparr>jr_lease_expires_at := Some (now + seconds lease_seconds)\<rparr> else r) db))"

definition succeed ::
  "job_db pool_exit \<Rightarrow> (json_object \<Rightarrow> json_object) \<Rightarrow> durable_job \<Rightarrow> string \<Rightarrow> json_object \<Rightarrow> job_db \<Rightarrow> unit result \<times> job_db" where
  "succeed px jsonb job worker_id res db =
     tenant_connection px (dj_tenant_id job) db (\<lambda>db.
       if \<exists>r \<in> set (durable_jobs db). held_by (dj_id job) worker_id r
       then (Inr (), update_job (dj_id job)
               (\<lambda>r. if held_by (dj_id job) worker_id r
                    then r\<lparr>jr_status := JSucceeded, jr_result := Some (jsonb res), jr_leased_by := None,
                           jr_lease_expires_at := None\<rparr> else r) db)
       else (Inl (RuntimeError ''job lease was lost before completion''), db))"

definition backoff :: "int \<Rightarrow> int" where
  \<comment> \<open>in seconds; \<open>attempt\<close> is at least 1 in a job that was claimed\<close>
  "backoff attempt = min 300 (2 ^ nat (min attempt 8))"

definition fail ::
  "job_db pool_exit \<Rightarrow> instant \<Rightarrow> durable_job \<Rightarrow> string \<Rightarrow> string \<Rightarrow> job_db \<Rightarrow> job_status result \<times> job_db" where
  "fail px now job worker_id error db =
     (let terminal = dj_attempt job \<ge> dj_max_attempts job;
          status = (if terminal then JDead_Letter else JPending)
      in tenant_connection px (dj_tenant_id job) db (\<lambda>db.
        if \<exists>r \<in> set (durable_jobs db). held_by (dj_id job) worker_id r
        then (Inr status, update_job (dj_id job)
                (\<lambda>r. if held_by (dj_id job) worker_id r
                     then r\<lparr>jr_status := status, jr_last_error := Some (take 4000 error),
                            jr_available_at := now + seconds (backoff (dj_attempt job)),
                            jr_leased_by := None, jr_lease_expires_at := None\<rparr> else r) db)
        else (Inl (RuntimeError ''job lease was lost before failure recording''), db)))"

definition job_status_of :: "job_db pool_exit \<Rightarrow> string \<Rightarrow> int \<Rightarrow> job_db \<Rightarrow> job_row result" where
  "job_status_of px tenant_id job_id db =
     fst (tenant_connection px tenant_id db (\<lambda>db.
       (case find (\<lambda>r. jr_tenant_id r = tenant_id \<and> jr_id r = job_id) (durable_jobs db) of
          None \<Rightarrow> Inl (KeyError (string_of_int job_id))
        | Some r \<Rightarrow> Inr r, db)))"

section \<open>The worker\<close>

record 'w worker_state =
  wk_db :: job_db
  wk_world :: 'w
  wk_processed :: int

type_synonym 'w job_handler = "durable_job \<Rightarrow> 'w worker_state \<Rightarrow> json_object result \<times> 'w worker_state"

definition run_once ::
  "job_db pool_exit \<Rightarrow> (json_object \<Rightarrow> json_object) \<Rightarrow> (py_error \<Rightarrow> string) \<Rightarrow> string \<Rightarrow> (string, 'w job_handler) dict \<Rightarrow>
   instant \<Rightarrow> instant \<Rightarrow> 'w worker_state \<Rightarrow> bool result \<times> 'w worker_state" where
  \<comment> \<open>\<open>claimed_at\<close> and \<open>failed_at\<close> are the clock of the two transactions; while a handler runs, other
    workers change the queue, so the handler acts on all of the state\<close>
  "run_once px jsonb error_text worker_id handlers claimed_at failed_at st =
     (case claim px claimed_at worker_id 60 (wk_db st) of
        (Inl e, db) \<Rightarrow> (Inl e, st\<lparr>wk_db := db\<rparr>)
      | (Inr None, db) \<Rightarrow> (Inr False, st\<lparr>wk_db := db\<rparr>)
      | (Inr (Some job), db) \<Rightarrow>
          (let st1 = st\<lparr>wk_db := db\<rparr>;
               (outcome, st2) =
                 (case dget handlers (dj_kind job) of
                    None \<Rightarrow> (Inl (KeyError (dj_kind job)), st1)
                  | Some handler \<Rightarrow>
                      (case handler job st1 of
                         (Inl e, st') \<Rightarrow> (Inl e, st')
                       | (Inr res, st') \<Rightarrow>
                           (case succeed px jsonb job worker_id res (wk_db st') of
                              (Inl e, db') \<Rightarrow> (Inl e, st'\<lparr>wk_db := db'\<rparr>)
                            | (Inr _, db') \<Rightarrow>
                                (Inr (), st'\<lparr>wk_db := db', wk_processed := wk_processed st' + 1\<rparr>))))
           in case outcome of
                Inr _ \<Rightarrow> (Inr True, st2)
              | Inl e \<Rightarrow>
                  (case fail px failed_at job worker_id (error_text e) (wk_db st2) of
                     (Inl e', db') \<Rightarrow> (Inl e', st2\<lparr>wk_db := db'\<rparr>)
                   | (Inr _, db') \<Rightarrow> (Inr True, st2\<lparr>wk_db := db'\<rparr>))))"

section \<open>The queue as a transition system\<close>

inductive queue_step :: "job_db pool_exit \<Rightarrow> (json_object \<Rightarrow> json_object) \<Rightarrow> job_db \<Rightarrow> job_db \<Rightarrow> bool"
  for px :: "job_db pool_exit" and jsonb :: "json_object \<Rightarrow> json_object" where
  enqueue: "enqueue px jsonb now tenant_id kind payload key max_attempts available_at db = (r, db') \<Longrightarrow>
    queue_step px jsonb db db'"
| claim: "claim px now worker_id lease_seconds db = (r', db') \<Longrightarrow> queue_step px jsonb db db'"
| heartbeat: "heartbeat px now job worker_id lease_seconds db = (b, db') \<Longrightarrow> queue_step px jsonb db db'"
| succeed: "succeed px jsonb job worker_id res db = (u, db') \<Longrightarrow> queue_step px jsonb db db'"
| fail: "fail px now job worker_id error db = (s, db') \<Longrightarrow> queue_step px jsonb db db'"

section \<open>What a step can do to the table\<close>

definition job_identity :: "job_row \<Rightarrow> int \<times> string \<times> string \<times> json_object \<times> string \<times> int" where
  "job_identity r = (jr_id r, jr_tenant_id r, jr_kind r, jr_payload r, jr_idempotency_key r, jr_max_attempts r)"

definition settled :: "job_row \<Rightarrow> bool" where
  "settled r \<longleftrightarrow> jr_status r = JSucceeded \<or> jr_status r = JDead_Letter"

definition job_row_ok :: "job_row \<Rightarrow> bool" where
  "job_row_ok r \<longleftrightarrow>
     (jr_status r = JRunning \<longleftrightarrow> jr_leased_by r \<noteq> None) \<and> (jr_leased_by r \<noteq> None \<longleftrightarrow> jr_lease_expires_at r \<noteq> None) \<and>
     (jr_status r = JSucceeded \<longleftrightarrow> jr_result r \<noteq> None) \<and> jr_status r \<noteq> JFailed \<and> 0 \<le> jr_attempt r \<and> 1 \<le> jr_max_attempts r \<and>
     valid_tenant (jr_tenant_id r)"

definition job_key :: "job_row \<Rightarrow> string \<times> string" where
  "job_key r = (jr_tenant_id r, jr_idempotency_key r)"

definition job_ok :: "job_db \<Rightarrow> bool" where
  "job_ok db \<longleftrightarrow> distinct (map jr_id (durable_jobs db)) \<and> distinct (map job_key (durable_jobs db)) \<and>
     (\<forall>r \<in> set (durable_jobs db). jr_id r < next_job_id db \<and> job_row_ok r)"

lemma job_okD:
  assumes "job_ok db"
  shows "distinct (map jr_id (durable_jobs db))" "distinct (map job_key (durable_jobs db))"
    "r \<in> set (durable_jobs db) \<Longrightarrow> jr_id r < next_job_id db" "r \<in> set (durable_jobs db) \<Longrightarrow> job_row_ok r"
  using assms by (auto simp: job_ok_def)

lemma job_id_unique:
  "job_ok db \<Longrightarrow> r \<in> set (durable_jobs db) \<Longrightarrow> r' \<in> set (durable_jobs db) \<Longrightarrow> jr_id r = jr_id r' \<Longrightarrow> r = r'"
  using job_okD(1) by (metis distinct_map inj_onD)

definition job_update :: "job_db \<Rightarrow> (job_row \<Rightarrow> job_row) \<Rightarrow> bool" where
  \<comment> \<open>what a transaction may make of a row\<close>
  "job_update db f \<longleftrightarrow>
     (\<forall>r \<in> set (durable_jobs db). job_identity (f r) = job_identity r \<and> (settled r \<longrightarrow> f r = r) \<and> job_row_ok (f r))"

definition job_insert :: "job_db \<Rightarrow> job_row \<Rightarrow> bool" where
  "job_insert db row \<longleftrightarrow> jr_id row = next_job_id db \<and> job_key row \<notin> set (map job_key (durable_jobs db)) \<and> job_row_ok row"

lemma claim_cases:
  assumes "pool_contract px" "claim px now w secs db = (r, db')"
  obtains (refused) e where "r = Inl e" "db' = db"
    | (idle) "r = Inr None" "db' = db" "filter (claimable now) (durable_jobs db) = []"
    | (taken) row rest where "sort_key (\<lambda>r. (jr_available_at r, jr_id r)) (filter (claimable now) (durable_jobs db)) = row # rest"
        "r = Inr (Some (claimed_job (now + seconds secs) (lease_job now w secs row)))"
        "db' = update_job (jr_id row) (lease_job now w secs) db" "5 \<le> secs"
proof (cases "secs < 5")
  case True
  with assms refused show ?thesis by (auto simp: claim_def)
next
  case False
  show ?thesis
  proof (cases "sort_key (\<lambda>r. (jr_available_at r, jr_id r)) (filter (claimable now) (durable_jobs db))")
    case Nil
    then have "filter (claimable now) (durable_jobs db) = []"
      by (metis set_empty set_sort)
    with Nil assms False idle show ?thesis
      by (simp add: claim_def connection_def pool_contract_def)
  next
    case (Cons row rest)
    with assms False taken show ?thesis
      by (simp add: claim_def connection_def pool_contract_def)
  qed
qed

lemma sorted_head:
  assumes "sort_key f xs = y # ys"
  shows "y \<in> set xs" "\<And>x. x \<in> set xs \<Longrightarrow> f y \<le> f x"
proof -
  have "set (sort_key f xs) = set xs" "sorted (map f (sort_key f xs))" by simp_all
  with assms show "y \<in> set xs" "\<And>x. x \<in> set xs \<Longrightarrow> f y \<le> f x" by force+
qed

lemma claim_head:
  assumes "sort_key (\<lambda>r. (jr_available_at r, jr_id r)) (filter (claimable now) (durable_jobs db)) = row # rest"
  shows "row \<in> set (durable_jobs db)" "claimable now row"
    "\<And>r. r \<in> set (durable_jobs db) \<Longrightarrow> claimable now r \<Longrightarrow> (jr_available_at row, jr_id row) \<le> (jr_available_at r, jr_id r)"
  using sorted_head [OF assms] by auto

lemma job_update_lease:
  assumes "job_ok db" "row \<in> set (durable_jobs db)" "claimable now row"
  shows "job_update db (\<lambda>r. if jr_id r = jr_id row then lease_job now w secs r else r)"
proof -
  have row: "job_row_ok row" by (rule job_okD(4) [OF assms(1,2)])
  have "\<not> settled row" "job_row_ok (lease_job now w secs row)"
    using assms(3) row by (auto simp: settled_def claimable_def lease_job_def job_row_ok_def)
  moreover have "job_identity (lease_job now w secs r) = job_identity r" for r
    by (simp add: job_identity_def lease_job_def)
  ultimately show ?thesis
    using job_id_unique [OF assms(1) _ assms(2)] job_okD(4) [OF assms(1)]
    unfolding job_update_def by metis
qed

lemma held_unresulted: "held_by i w r \<Longrightarrow> job_row_ok r \<Longrightarrow> jr_result r = None"
  by (auto simp: held_by_def job_row_ok_def)

lemma job_update_held:
  assumes "job_ok db"
    and "\<And>r. r \<in> set (durable_jobs db) \<Longrightarrow> held_by i w r \<Longrightarrow> job_identity (f r) = job_identity r \<and> job_row_ok (f r)"
  shows "job_update db (\<lambda>r. if jr_id r = i then (if held_by i w r then f r else r) else r)"
  using assms(2) job_okD(4) [OF assms(1)] unfolding job_update_def
  by (auto simp: settled_def held_by_def)

lemma job_step_cases:
  assumes px: "pool_contract px" and step: "queue_step px jsonb db db'" and ok: "job_ok db"
  obtains (same) "db' = db"
    | (insert) row where "db' = db\<lparr>durable_jobs := durable_jobs db @ [row], next_job_id := next_job_id db + 1\<rparr>"
        "job_insert db row"
    | (update) f where "db' = db\<lparr>durable_jobs := map f (durable_jobs db)\<rparr>" "job_update db f"
  using step
proof cases
  case (enqueue now t kind payload key m available r)
  show ?thesis
  proof (cases r)
    case (Inl e)
    with enqueue px same show ?thesis by (auto simp: enqueue_def split: if_splits dest: tenant_connection_rollback)
  next
    case (Inr i)
    show ?thesis
    proof (cases "find (\<lambda>r. jr_tenant_id r = t \<and> jr_idempotency_key r = key) (durable_jobs db)")
      case None
      let ?row = "\<lparr>jr_id = next_job_id db, jr_tenant_id = t, jr_kind = kind, jr_payload = jsonb payload,
        jr_idempotency_key = key, jr_status = JPending, jr_attempt = 0, jr_max_attempts = m,
        jr_available_at = (case available of Some t \<Rightarrow> t | None \<Rightarrow> now), jr_leased_by = None, jr_lease_expires_at = None,
        jr_last_error = None, jr_result = None\<rparr>"
      have "job_insert db ?row"
        using None enqueue Inr px
        by (auto simp: job_insert_def job_key_def find_None_iff job_row_ok_def enqueue_def tenant_connection_commit split: if_splits)
      then show ?thesis
        using enqueue Inr px None
        by (intro insert [of ?row]) (auto simp: enqueue_def tenant_connection_commit split: if_splits)
    next
      case (Some row)
      with enqueue Inr px same show ?thesis
        by (auto simp: enqueue_def tenant_connection_commit split: if_splits)
    qed
  qed
next
  case (claim now w secs r)
  show ?thesis
  proof (rule claim_cases [OF px claim])
    fix row rest
    assume head: "sort_key (\<lambda>r. (jr_available_at r, jr_id r)) (filter (claimable now) (durable_jobs db)) = row # rest"
      and db': "db' = update_job (jr_id row) (lease_job now w secs) db"
    show ?thesis
      using update [OF db' [unfolded update_job_def] job_update_lease [OF ok claim_head(1,2) [OF head]]] .
  qed (use same in auto)
next
  case (heartbeat now job w secs b)
  let ?f = "\<lambda>r. r\<lparr>jr_lease_expires_at := Some (now + seconds secs)\<rparr>"
  have "job_update db (\<lambda>r. if jr_id r = dj_id job then (if held_by (dj_id job) w r then ?f r else r) else r)"
    by (rule job_update_held [OF ok]) (use job_okD(4) [OF ok] in \<open>auto simp: job_identity_def job_row_ok_def held_by_def\<close>)
  from update [OF _ this] heartbeat same px show ?thesis
    by (cases b) (auto simp: heartbeat_def update_job_def tenant_connection_commit dest: tenant_connection_rollback)
next
  case (succeed job w res u)
  let ?f = "\<lambda>r. r\<lparr>jr_status := JSucceeded, jr_result := Some (jsonb res), jr_leased_by := None, jr_lease_expires_at := None\<rparr>"
  have "job_update db (\<lambda>r. if jr_id r = dj_id job then (if held_by (dj_id job) w r then ?f r else r) else r)"
    by (rule job_update_held [OF ok]) (use job_okD(4) [OF ok] in \<open>auto simp: job_identity_def job_row_ok_def held_by_def\<close>)
  from update [OF _ this] succeed same px show ?thesis
    by (cases u) (auto simp: succeed_def update_job_def tenant_connection_commit dest: tenant_connection_rollback split: if_splits)
next
  case (fail now job w error s)
  define st where "st = (if dj_attempt job \<ge> dj_max_attempts job then JDead_Letter else JPending)"
  let ?f = "\<lambda>r. r\<lparr>jr_status := st, jr_last_error := Some (take 4000 error),
    jr_available_at := now + seconds (backoff (dj_attempt job)), jr_leased_by := None, jr_lease_expires_at := None\<rparr>"
  have st: "st \<noteq> JRunning" "st \<noteq> JSucceeded" "st \<noteq> JFailed" by (simp_all add: st_def)
  have "job_update db (\<lambda>r. if jr_id r = dj_id job then (if held_by (dj_id job) w r then ?f r else r) else r)"
    by (rule job_update_held [OF ok])
      (use job_okD(4) [OF ok] st held_unresulted in \<open>auto simp: job_identity_def job_row_ok_def\<close>)
  then have f: ?thesis if "db' = update_job (dj_id job) (\<lambda>r. if held_by (dj_id job) w r then ?f r else r) db"
    using update that unfolding update_job_def by blast
  have "fail px now job w error db = tenant_connection px (dj_tenant_id job) db (\<lambda>db.
      if \<exists>r \<in> set (durable_jobs db). held_by (dj_id job) w r
      then (Inr st, update_job (dj_id job) (\<lambda>r. if held_by (dj_id job) w r then ?f r else r) db)
      else (Inl (RuntimeError ''job lease was lost before failure recording''), db))"
    unfolding fail_def Let_def st_def by (rule refl)
  with fail have run: "tenant_connection px (dj_tenant_id job) db (\<lambda>db.
      if \<exists>r \<in> set (durable_jobs db). held_by (dj_id job) w r
      then (Inr st, update_job (dj_id job) (\<lambda>r. if held_by (dj_id job) w r then ?f r else r) db)
      else (Inl (RuntimeError ''job lease was lost before failure recording''), db)) = (s, db')"
    by (rule back_subst)
  show ?thesis
  proof (cases s)
    case (Inl e)
    with run px same show ?thesis by (blast dest: tenant_connection_rollback)
  next
    case (Inr v)
    then show ?thesis
      using run f by (auto simp only: tenant_connection_commit [OF px] split: if_splits)
  qed
qed

section \<open>The contract of the table\<close>

lemma job_ok_insert:
  "job_ok db \<Longrightarrow> job_insert db row \<Longrightarrow>
     job_ok (db\<lparr>durable_jobs := durable_jobs db @ [row], next_job_id := next_job_id db + 1\<rparr>)"
  by (auto simp: job_ok_def job_insert_def)

lemma job_identity_eq:
  "job_identity r = job_identity r' \<Longrightarrow> jr_id r = jr_id r' \<and> job_key r = job_key r'"
  by (simp add: job_identity_def job_key_def)

lemma job_ok_update:
  assumes ok: "job_ok db" and f: "job_update db f"
  shows "job_ok (db\<lparr>durable_jobs := map f (durable_jobs db)\<rparr>)"
proof -
  have id: "jr_id (f r) = jr_id r" "job_key (f r) = job_key r" if "r \<in> set (durable_jobs db)" for r
    using f that job_identity_eq unfolding job_update_def by blast+
  have "map jr_id (map f (durable_jobs db)) = map jr_id (durable_jobs db)"
    "map job_key (map f (durable_jobs db)) = map job_key (durable_jobs db)"
    using id by simp_all
  then show ?thesis
    using ok f id unfolding job_ok_def job_update_def by (simp del: map_map)
qed

locale pg_jobs = psycopg px for px :: "job_db pool_exit" +
  fixes jsonb :: "json_object \<Rightarrow> json_object"
begin

lemma job_ok_step: "queue_step px jsonb s t \<Longrightarrow> job_ok s \<Longrightarrow> job_ok t"
  by (erule job_step_cases [OF contract]) (auto intro: job_ok_insert job_ok_update)

lemma row_step:
  assumes "queue_step px jsonb s t" "job_ok s" "r \<in> set (durable_jobs s)"
  shows "\<exists>r' \<in> set (durable_jobs t). job_identity r' = job_identity r \<and> (settled r \<longrightarrow> r' = r)"
  using assms(3) by (cases rule: job_step_cases [OF contract assms(1,2)]) (auto simp: job_update_def)

end

sublocale pg_jobs \<subseteq> system: safe_system job_db_init "queue_step px jsonb" job_ok
proof
  show "job_ok job_db_init" by (simp add: job_ok_def job_db_init_def)
qed (rule job_ok_step)

context pg_jobs
begin

lemmas reachable_jobs = system.inv_reachable

lemma row_steps:
  assumes "(queue_step px jsonb)\<^sup>*\<^sup>* s t" "job_ok s" "r \<in> set (durable_jobs s)"
  shows "\<exists>r' \<in> set (durable_jobs t). job_identity r' = job_identity r \<and> (settled r \<longrightarrow> r' = r)"
  using assms(1)
proof (induction rule: rtranclp_induct)
  case (step t u)
  then obtain r' where r': "r' \<in> set (durable_jobs t)" "job_identity r' = job_identity r" "settled r \<longrightarrow> r' = r" by blast
  have "job_ok t" by (rule system.inv_steps [OF step(1) assms(2)])
  from row_step [OF step(2) this r'(1)] r' show ?case by metis
qed (use assms(3) in blast)

end

interpretation default_jobs: pg_jobs commit_or_rollback "\<lambda>v. v"
  by unfold_locales

lemma pg_jobsI: "pool_contract px \<Longrightarrow> pg_jobs px"
  by unfold_locales

section \<open>Properties\<close>

lemma job_reachable:
  "pool_contract px \<Longrightarrow> (queue_step px jsonb)\<^sup>*\<^sup>* job_db_init db \<Longrightarrow> job_ok db"
  by (rule pg_jobs.reachable_jobs [OF pg_jobsI])

lemma update_job_rows:
  assumes "job_ok db" "row \<in> set (durable_jobs db)"
  shows "durable_jobs (update_job (jr_id row) f db) = map (\<lambda>r. if r = row then f r else r) (durable_jobs db)"
  using job_id_unique [OF assms(1) _ assms(2)] by (auto simp: update_job_def)

lemma claim_some:
  assumes px: "pool_contract px" and ok: "job_ok db" and run: "claim px now w secs db = (Inr (Some job), db')"
  obtains row where "row \<in> set (durable_jobs db)" "claimable now row"
    "\<And>r. r \<in> set (durable_jobs db) \<Longrightarrow> claimable now r \<Longrightarrow> (jr_available_at row, jr_id row) \<le> (jr_available_at r, jr_id r)"
    "job = claimed_job (now + seconds secs) (lease_job now w secs row)"
    "durable_jobs db' = map (\<lambda>r. if r = row then lease_job now w secs r else r) (durable_jobs db)"
    "next_job_id db' = next_job_id db" "5 \<le> secs"
proof (rule claim_cases [OF px run])
  fix row rest
  assume head: "sort_key (\<lambda>r. (jr_available_at r, jr_id r)) (filter (claimable now) (durable_jobs db)) = row # rest"
    and job: "Inr (Some job) = Inr (Some (claimed_job (now + seconds secs) (lease_job now w secs row)))"
    and db': "db' = update_job (jr_id row) (lease_job now w secs) db" and "5 \<le> secs"
  have "next_job_id db' = next_job_id db" using db' by (simp add: update_job_def)
  with job \<open>5 \<le> secs\<close> show thesis
    by (intro that [OF claim_head [OF head]]) (simp_all only: db' update_job_rows [OF ok claim_head(1) [OF head]] sum.inject option.inject)
qed simp_all

lemma lease_job_simps [simp]:
  "jr_id (lease_job now w secs r) = jr_id r" "jr_attempt (lease_job now w secs r) = jr_attempt r + 1"
  "jr_status (lease_job now w secs r) = JRunning" "jr_leased_by (lease_job now w secs r) = Some w"
  "jr_lease_expires_at (lease_job now w secs r) = Some (now + seconds secs)"
  "jr_max_attempts (lease_job now w secs r) = jr_max_attempts r" "jr_kind (lease_job now w secs r) = jr_kind r"
  "jr_tenant_id (lease_job now w secs r) = jr_tenant_id r"
  by (simp_all add: lease_job_def)

lemma claimed_job_simps [simp]:
  "dj_id (claimed_job t r) = jr_id r" "dj_attempt (claimed_job t r) = jr_attempt r"
  "dj_max_attempts (claimed_job t r) = jr_max_attempts r" "dj_kind (claimed_job t r) = jr_kind r"
  "dj_tenant_id (claimed_job t r) = jr_tenant_id r"
  by (simp_all add: claimed_job_def)

lemma claim_avoids:
  assumes "pool_contract px" "job_ok db" "row \<in> set (durable_jobs db)" "\<not> claimable now row"
    and "claim px now w secs db = (Inr (Some job), db')"
  shows "dj_id job \<noteq> jr_id row"
  using claim_some [OF assms(1,2,5)] job_id_unique [OF assms(2,3)] assms(4) by (metis claimed_job_simps(1) lease_job_simps(1))

lemma claim_step: "claim px now w secs db = (r, db') \<Longrightarrow> queue_step px jsonb db db'"
  by (rule queue_step.claim)

lemma find_distinct_key:
  "distinct (map job_key rows) \<Longrightarrow> r \<in> set rows \<Longrightarrow> job_key r = (t, key) \<Longrightarrow>
     find (\<lambda>q. jr_tenant_id q = t \<and> jr_idempotency_key q = key) rows = Some r"
  by (induction rows) (auto simp: job_key_def image_iff)

inductive others_step ::
  "job_db pool_exit \<Rightarrow> (json_object \<Rightarrow> json_object) \<Rightarrow> int \<Rightarrow> string \<Rightarrow> instant \<Rightarrow> job_db \<Rightarrow> job_db \<Rightarrow> bool"
  for px :: "job_db pool_exit" and jsonb :: "json_object \<Rightarrow> json_object" and i :: int and w :: string and until :: instant where
  \<comment> \<open>a step before \<open>until\<close> in which worker \<open>w\<close> neither settles job \<open>i\<close> nor shortens its lease\<close>
  enqueue: "enqueue px jsonb now tenant_id kind payload key max_attempts available_at db = (r, db') \<Longrightarrow>
    others_step px jsonb i w until db db'"
| claim: "now < until \<Longrightarrow> claim px now worker_id lease_seconds db = (r', db') \<Longrightarrow> others_step px jsonb i w until db db'"
| heartbeat: "dj_id job \<noteq> i \<or> worker_id \<noteq> w \<or> until \<le> now + seconds lease_seconds \<Longrightarrow>
    heartbeat px now job worker_id lease_seconds db = (b, db') \<Longrightarrow> others_step px jsonb i w until db db'"
| succeed: "dj_id job \<noteq> i \<or> worker_id \<noteq> w \<Longrightarrow> succeed px jsonb job worker_id res db = (u, db') \<Longrightarrow>
    others_step px jsonb i w until db db'"
| fail: "dj_id job \<noteq> i \<or> worker_id \<noteq> w \<Longrightarrow> fail px now job worker_id error db = (s, db') \<Longrightarrow>
    others_step px jsonb i w until db db'"

definition leased_until :: "int \<Rightarrow> string \<Rightarrow> instant \<Rightarrow> job_row \<Rightarrow> bool" where
  "leased_until i w until r \<longleftrightarrow> held_by i w r \<and> (case jr_lease_expires_at r of None \<Rightarrow> False | Some t \<Rightarrow> until \<le> t)"

lemma leased_not_claimable: "leased_until i w until r \<Longrightarrow> now < until \<Longrightarrow> \<not> claimable now r"
  by (auto simp: leased_until_def held_by_def claimable_def split: option.splits)

lemma others_step_queue: "others_step px jsonb i w until db db' \<Longrightarrow> queue_step px jsonb db db'"
  by (erule others_step.cases) (auto intro: queue_step.intros)

lemma update_job_keeps:
  "r \<in> set (durable_jobs db) \<Longrightarrow> leased_until i w until r \<Longrightarrow> (jr_id r = j \<Longrightarrow> leased_until i w until (f r)) \<Longrightarrow>
   \<exists>r' \<in> set (durable_jobs (update_job j f db)). leased_until i w until r'"
  by (auto simp: update_job_def)

lemma tenant_connection_keeps:
  assumes px: "pool_contract px" and run: "tenant_connection px t db body = (r, db')"
    and "P db" "\<And>v db''. body db = (Inr v, db'') \<Longrightarrow> P db''"
  shows "P db'"
proof (cases r)
  case (Inl e)
  then show ?thesis using tenant_connection_rollback [OF px run [unfolded Inl]] assms(3) by simp
next
  case (Inr v)
  then show ?thesis using run assms(4) by (simp add: tenant_connection_commit [OF px])
qed

lemma others_step_leased:
  assumes px: "pool_contract px" and ok: "job_ok db" and step: "others_step px jsonb i w until db db'"
    and r: "r \<in> set (durable_jobs db)" "leased_until i w until r"
  shows "\<exists>r' \<in> set (durable_jobs db'). leased_until i w until r'"
  using step
proof cases
  case (enqueue now t kind payload key m available q)
  have "r \<in> set (durable_jobs db')"
    using r(1) tenant_connection_keeps [where P = "\<lambda>db'. r \<in> set (durable_jobs db')", OF px] enqueue
    by (fastforce simp: enqueue_def split: if_splits option.splits)
  with r(2) show ?thesis by blast
next
  case (claim now worker secs q)
  show ?thesis
  proof (rule claim_cases [OF px claim(2)])
    fix row rest
    assume head: "sort_key (\<lambda>r. (jr_available_at r, jr_id r)) (filter (claimable now) (durable_jobs db)) = row # rest"
      and db': "db' = update_job (jr_id row) (lease_job now worker secs) db"
    have "jr_id row \<noteq> jr_id r"
      using claim_head(1,2) [OF head] leased_not_claimable [OF r(2) claim(1)] job_id_unique [OF ok _ r(1)] by blast
    then show ?thesis unfolding db' by (intro update_job_keeps [OF r]) simp
  qed (use r in auto)
next
  case (heartbeat job worker now secs b)
  let ?P = "\<lambda>db. \<exists>r' \<in> set (durable_jobs db). leased_until i w until r'"
  have "?P (update_job (dj_id job)
      (\<lambda>r. if held_by (dj_id job) worker r then r\<lparr>jr_lease_expires_at := Some (now + seconds secs)\<rparr> else r) db)"
    by (rule update_job_keeps [OF r]) (use r(2) heartbeat(1) in \<open>auto simp: leased_until_def held_by_def\<close>)
  then show ?thesis
    by (intro tenant_connection_keeps [where P = ?P, OF px heartbeat(2) [unfolded heartbeat_def]]) (use r in auto)
next
  case (succeed job worker res u)
  let ?P = "\<lambda>db. \<exists>r' \<in> set (durable_jobs db). leased_until i w until r'"
  have "?P (update_job (dj_id job) (\<lambda>r. if held_by (dj_id job) worker r then f r else r) db)" for f
    by (rule update_job_keeps [OF r]) (use r(2) succeed(1) in \<open>auto simp: leased_until_def held_by_def\<close>)
  then show ?thesis
    by (intro tenant_connection_keeps [where P = ?P, OF px succeed(2) [unfolded succeed_def]]) (use r in \<open>auto split: if_splits\<close>)
next
  case (fail job worker now error s)
  let ?P = "\<lambda>db. \<exists>r' \<in> set (durable_jobs db). leased_until i w until r'"
  have "?P (update_job (dj_id job) (\<lambda>r. if held_by (dj_id job) worker r then f r else r) db)" for f
    by (rule update_job_keeps [OF r]) (use r(2) fail(1) in \<open>auto simp: leased_until_def held_by_def\<close>)
  then show ?thesis
    by (intro tenant_connection_keeps [where P = ?P, OF px fail(2) [unfolded fail_def Let_def]]) (use r in \<open>auto split: if_splits\<close>)
qed

lemma others_steps_leased:
  assumes px: "pool_contract px" and steps: "(others_step px jsonb i w until)\<^sup>*\<^sup>* db db'" and ok: "job_ok db"
    and r: "r \<in> set (durable_jobs db)" "leased_until i w until r"
  shows "job_ok db' \<and> (\<exists>r' \<in> set (durable_jobs db'). leased_until i w until r')"
  using steps
proof (induction rule: rtranclp_induct)
  case (step t u)
  then obtain r' where "job_ok t" "r' \<in> set (durable_jobs t)" "leased_until i w until r'" by blast
  with others_step_leased [OF px _ step(2)] pg_jobs.job_ok_step [OF pg_jobsI [OF px] others_step_queue [OF step(2)]]
  show ?case by blast
qed (use ok r in blast)

text \<open>
  C5: A claim is exclusive and in order. The job that \<open>claim\<close> returns was due (pending and available, or
  under a lease that had run out), no job that was due is older by \<open>available_at\<close> and id, its row and
  no other row changes, and it is leased to the caller. It stays leased to the caller, and no claim by
  any worker returns it, until that lease runs out: after any sequence of enqueues, of claims made
  before that time, and of heartbeats, completions and failures, except those by which the
  caller itself settles this job or sets an earlier end of the lease.
\<close>
theorem claim_exclusive:
  assumes px: "pool_contract px" and reach: "(queue_step px jsonb)\<^sup>*\<^sup>* job_db_init db"
    and run: "claim px now w secs db = (Inr (Some job), db')"
  shows "(\<exists>row \<in> set (durable_jobs db). jr_id row = dj_id job \<and> claimable now row \<and> dj_attempt job = jr_attempt row + 1 \<and>
      (\<forall>r \<in> set (durable_jobs db). claimable now r \<longrightarrow> (jr_available_at row, jr_id row) \<le> (jr_available_at r, jr_id r)) \<and>
      durable_jobs db' = map (\<lambda>r. if r = row then lease_job now w secs r else r) (durable_jobs db)) \<and>
    (\<forall>db1. (others_step px jsonb (dj_id job) w (now + seconds secs))\<^sup>*\<^sup>* db' db1 \<longrightarrow>
      (\<exists>row \<in> set (durable_jobs db1). held_by (dj_id job) w row) \<and>
      (\<forall>now' w' secs' other db2. now' < now + seconds secs \<longrightarrow> claim px now' w' secs' db1 = (Inr (Some other), db2) \<longrightarrow>
        dj_id other \<noteq> dj_id job))"
proof -
  have ok: "job_ok db" by (rule job_reachable [OF px reach])
  have ok': "job_ok db'"
    by (rule job_reachable [OF px rtranclp.rtrancl_into_rtrancl [of "queue_step px jsonb", OF reach claim_step [OF run]]])
  obtain row where row: "row \<in> set (durable_jobs db)" "claimable now row"
    "\<And>r. r \<in> set (durable_jobs db) \<Longrightarrow> claimable now r \<Longrightarrow> (jr_available_at row, jr_id row) \<le> (jr_available_at r, jr_id r)"
    "job = claimed_job (now + seconds secs) (lease_job now w secs row)"
    "durable_jobs db' = map (\<lambda>r. if r = row then lease_job now w secs r else r) (durable_jobs db)"
    by (rule claim_some [OF px ok run]) blast
  have leased: "lease_job now w secs row \<in> set (durable_jobs db')" using row(1,5) by auto
  have until: "leased_until (dj_id job) w (now + seconds secs) (lease_job now w secs row)"
    by (simp add: leased_until_def held_by_def row(4))
  have kept: "(\<exists>row \<in> set (durable_jobs db1). held_by (dj_id job) w row) \<and>
      (\<forall>now' w' secs' other db2. now' < now + seconds secs \<longrightarrow> claim px now' w' secs' db1 = (Inr (Some other), db2) \<longrightarrow>
        dj_id other \<noteq> dj_id job)"
    if "(others_step px jsonb (dj_id job) w (now + seconds secs))\<^sup>*\<^sup>* db' db1" for db1
  proof -
    from others_steps_leased [OF px that ok' leased until] obtain r where ok1: "job_ok db1" and r: "r \<in> set (durable_jobs db1)"
      "leased_until (dj_id job) w (now + seconds secs) r" by (elim conjE bexE)
    then have held: "held_by (dj_id job) w r" by (simp add: leased_until_def)
    show ?thesis
    proof (intro conjI allI impI)
      show "\<exists>row \<in> set (durable_jobs db1). held_by (dj_id job) w row" using held r(1) by (rule bexI)
    next
      fix now' w' secs' other db2
      assume "now' < now + seconds secs" "claim px now' w' secs' db1 = (Inr (Some other), db2)"
      from claim_avoids [OF px ok1 r(1) leased_not_claimable [OF r(2) this(1)] this(2)] held
      show "dj_id other \<noteq> dj_id job" by (simp add: held_by_def)
    qed
  qed
  show ?thesis
    by (rule conjI, rule bexI [OF _ row(1)]) (use row in simp, intro allI impI, erule kept)
qed

definition job_example_db :: job_db where
  "job_example_db = snd (enqueue commit_or_rollback (\<lambda>v. v) 0 ''t1'' ''heartbeat'' [] ''key-0001'' 1 None job_db_init)"

lemma job_example_eq:
  "job_example_db = \<lparr>durable_jobs = [\<lparr>jr_id = 1, jr_tenant_id = ''t1'', jr_kind = ''heartbeat'', jr_payload = [],
     jr_idempotency_key = ''key-0001'', jr_status = JPending, jr_attempt = 0, jr_max_attempts = 1, jr_available_at = 0,
     jr_leased_by = None, jr_lease_expires_at = None, jr_last_error = None, jr_result = None\<rparr>], next_job_id = 2\<rparr>"
  by (simp add: job_example_db_def enqueue_def job_db_init_def tenant_connection_def connection_def commit_or_rollback_def)

lemma job_example_reachable: "(queue_step commit_or_rollback (\<lambda>v. v))\<^sup>*\<^sup>* job_db_init job_example_db"
  unfolding job_example_db_def
  by (rule r_into_rtranclp, rule queue_step.enqueue [OF prod.collapse [symmetric]])

theorem claim_exclusive_witness:
  "\<exists>job db'. claim commit_or_rollback 10 ''w1'' 60 job_example_db = (Inr (Some job), db') \<and> dj_id job = 1 \<and>
     fst (claim commit_or_rollback 60000009 ''w2'' 60 (snd (succeed commit_or_rollback (\<lambda>v. v) job ''w2'' [] db'))) = Inr None"
proof -
  let ?c = "claim commit_or_rollback 10 ''w1'' 60 job_example_db"
  obtain job db' where run: "?c = (Inr (Some job), db')" and id: "dj_id job = 1" and t: "dj_tenant_id job = ''t1''"
    by (simp add: claim_def job_example_eq claimable_def connection_def commit_or_rollback_def claimed_job_def lease_job_def)
  let ?db1 = "snd (succeed commit_or_rollback (\<lambda>v. v) job ''w2'' [] db')"
  have "others_step commit_or_rollback (\<lambda>v. v) (dj_id job) ''w1'' (10 + seconds 60) db' ?db1"
    by (rule others_step.succeed [OF _ prod.collapse [symmetric]]) simp
  then have steps: "(others_step commit_or_rollback (\<lambda>v. v) (dj_id job) ''w1'' (10 + seconds 60))\<^sup>*\<^sup>* db' ?db1" by (rule r_into_rtranclp)
  note exclusive = claim_exclusive [OF commit_or_rollback_contract job_example_reachable run, THEN conjunct2, rule_format, OF steps, THEN conjunct2, rule_format]
  have one: "\<And>r. r \<in> set (durable_jobs ?db1) \<Longrightarrow> jr_id r = 1"
    using run t by (auto simp: claim_def job_example_eq claimable_def connection_def commit_or_rollback_def update_job_def succeed_def
        tenant_connection_def valid_tenant_def split: if_splits)
  have "fst (claim commit_or_rollback 60000009 ''w2'' 60 ?db1) = Inr None"
  proof (rule claim_cases [OF commit_or_rollback_contract prod.collapse [symmetric]])
    fix row rest
    assume head: "sort_key (\<lambda>r. (jr_available_at r, jr_id r)) (filter (claimable 60000009) (durable_jobs ?db1)) = row # rest"
      and got: "fst (claim commit_or_rollback 60000009 ''w2'' 60 ?db1) =
        Inr (Some (claimed_job (60000009 + seconds 60) (lease_job 60000009 ''w2'' 60 row)))"
    have "jr_id row = 1" by (rule one [OF claim_head(1) [OF head]])
    moreover have "claim commit_or_rollback 60000009 ''w2'' 60 ?db1 =
        (Inr (Some (claimed_job (60000009 + seconds 60) (lease_job 60000009 ''w2'' 60 row))), snd (claim commit_or_rollback 60000009 ''w2'' 60 ?db1))"
      unfolding got [symmetric] by (rule prod.collapse [symmetric])
    then have "dj_id (claimed_job (60000009 + seconds 60) (lease_job 60000009 ''w2'' 60 row)) \<noteq> dj_id job"
      by (rule exclusive [rotated]) (simp add: seconds_def)
    ultimately show ?thesis using id by simp
  qed (auto simp: claim_def connection_def commit_or_rollback_def split: list.splits)
  with run id show ?thesis by blast
qed

text \<open>
  Further: A settled job stays settled. From any reachable database, whatever enqueues, claims, heartbeats,
  completions and failures follow, by whichever workers and with whichever stale job objects, a row
  that has succeeded or is in the dead-letter state is still there, unchanged, and no claim returns it.
\<close>
theorem settled_jobs_final:
  assumes px: "pool_contract px" and reach: "(queue_step px jsonb)\<^sup>*\<^sup>* job_db_init db"
    and row: "row \<in> set (durable_jobs db)" "settled row" and steps: "(queue_step px jsonb)\<^sup>*\<^sup>* db db'"
  shows "row \<in> set (durable_jobs db') \<and> (\<forall>job. fst (claim px now w secs db') = Inr (Some job) \<longrightarrow> dj_id job \<noteq> jr_id row)"
proof -
  have ok: "job_ok db" by (rule job_reachable [OF px reach])
  have ok': "job_ok db'" by (rule job_reachable [OF px rtranclp_trans [OF reach steps]])
  have "row \<in> set (durable_jobs db')"
    using pg_jobs.row_steps [OF pg_jobsI [OF px] steps ok row(1)] row(2) by blast
  moreover have "\<not> claimable now row" using row(2) by (auto simp: settled_def claimable_def)
  ultimately show ?thesis
    using claim_avoids [OF px ok', of row now w secs] by (cases "claim px now w secs db'") auto
qed

definition claim_example :: "durable_job option result \<times> job_db" where
  "claim_example = claim commit_or_rollback 10 ''w1'' 60 job_example_db"

definition claimed_row :: job_row where
  "claimed_row = lease_job 10 ''w1'' 60 (hd (durable_jobs job_example_db))"

lemma claim_example_eq:
  "claim_example = (Inr (Some (claimed_job 60000010 claimed_row)), \<lparr>durable_jobs = [claimed_row], next_job_id = 2\<rparr>)"
  by (simp add: claim_example_def claimed_row_def claim_def job_example_eq claimable_def connection_def commit_or_rollback_def
      update_job_def lease_job_def seconds_def)

lemma claim_example_reachable: "(queue_step commit_or_rollback (\<lambda>v. v))\<^sup>*\<^sup>* job_db_init (snd claim_example)"
  using job_example_reachable queue_step.claim [OF prod.collapse [symmetric]] unfolding claim_example_def
  by (rule rtranclp.rtrancl_into_rtrancl)

definition done_example :: job_db where
  "done_example = snd (succeed commit_or_rollback (\<lambda>v. v) (claimed_job 60000010 claimed_row) ''w1'' [] (snd claim_example))"

theorem settled_jobs_final_witness:
  "\<exists>row db'. row \<in> set (durable_jobs done_example) \<and> jr_status row = JSucceeded \<and>
     db' = snd (fail commit_or_rollback 20 (claimed_job 60000010 claimed_row) ''w1'' ''late'' done_example) \<and>
     row \<in> set (durable_jobs db')"
proof -
  let ?row = "claimed_row\<lparr>jr_status := JSucceeded, jr_result := Some [], jr_leased_by := None, jr_lease_expires_at := None\<rparr>"
  let ?db' = "snd (fail commit_or_rollback 20 (claimed_job 60000010 claimed_row) ''w1'' ''late'' done_example)"
  have reach: "(queue_step commit_or_rollback (\<lambda>v. v))\<^sup>*\<^sup>* job_db_init done_example"
    using claim_example_reachable queue_step.succeed [OF prod.collapse [symmetric]] unfolding done_example_def
    by (rule rtranclp.rtrancl_into_rtrancl)
  have row: "?row \<in> set (durable_jobs done_example)"
    by (simp add: done_example_def claim_example_eq succeed_def tenant_connection_def connection_def commit_or_rollback_def
        update_job_def held_by_def claimed_row_def job_example_eq)
  have settled: "settled ?row" by (simp add: settled_def)
  have steps: "(queue_step commit_or_rollback (\<lambda>v. v))\<^sup>*\<^sup>* done_example ?db'"
    by (rule r_into_rtranclp, rule queue_step.fail [OF prod.collapse [symmetric]])
  show ?thesis
    using settled_jobs_final [OF commit_or_rollback_contract reach row settled steps] row
    by (intro exI [of _ ?row] exI [of _ ?db']) simp
qed

text \<open>
  Further: Enqueueing is idempotent over the whole life of the job. Suppose the server gives a document back
  with the same sorted JSON text. Once a tenant has enqueued a payload under a key, then after any
  further steps, even when the job has run, the same request returns the same id and inserts
  nothing, and a request with another kind under that key is refused.
\<close>
theorem enqueue_once:
  assumes px: "pool_contract px" and reach: "(queue_step px jsonb)\<^sup>*\<^sup>* job_db_init db"
    and jsonb: "json_dumps True (PDict (jsonb payload)) = json_dumps True (PDict payload)"
    and first: "find (\<lambda>r. jr_tenant_id r = t \<and> jr_idempotency_key r = key) (durable_jobs db) = None"
    and run: "enqueue px jsonb now t kind payload key m available db = (Inr i, db1)"
    and steps: "(queue_step px jsonb)\<^sup>*\<^sup>* db1 db2" and m': "1 \<le> m'"
  shows "enqueue px jsonb now' t kind payload key m' available' db2 = (Inr i, db2) \<and>
    (kind' \<noteq> kind \<longrightarrow> enqueue px jsonb now' t kind' payload' key m' available' db2 =
       (Inl (ValueError ''job idempotency key reused with different payload''), db2))"
proof -
  have reach1: "(queue_step px jsonb)\<^sup>*\<^sup>* job_db_init db1"
    using reach queue_step.enqueue [OF run] by (rule rtranclp.rtrancl_into_rtrancl)
  have ok1: "job_ok db1" by (rule job_reachable [OF px reach1])
  have ok2: "job_ok db2" by (rule job_reachable [OF px rtranclp_trans [OF reach1 steps]])
  have t: "valid_tenant t" and new: "\<exists>r \<in> set (durable_jobs db1). job_key r = (t, key) \<and> jr_id r = i \<and> jr_kind r = kind \<and>
      jr_payload r = jsonb payload"
    using run first px
    by (auto simp: enqueue_def tenant_connection_commit job_key_def split: if_splits)
  from new obtain r where r: "r \<in> set (durable_jobs db1)" "job_key r = (t, key)" "jr_id r = i" "jr_kind r = kind"
    "jr_payload r = jsonb payload" by blast
  obtain r2 where r2: "r2 \<in> set (durable_jobs db2)" "job_identity r2 = job_identity r"
    using pg_jobs.row_steps [OF pg_jobsI [OF px] steps ok1 r(1)] by blast
  then have r2': "job_key r2 = (t, key)" "jr_id r2 = i" "jr_kind r2 = kind" "jr_payload r2 = jsonb payload"
    using r by (auto simp: job_identity_def job_key_def)
  have find: "find (\<lambda>r. jr_tenant_id r = t \<and> jr_idempotency_key r = key) (durable_jobs db2) = Some r2"
    by (rule find_distinct_key [OF job_okD(2) [OF ok2] r2(1) r2'(1)])
  show ?thesis
    using t m' jsonb r2' by (simp add: enqueue_def tenant_connection_eq [OF px t] find)
qed

theorem enqueue_once_witness:
  "enqueue commit_or_rollback (\<lambda>v. v) 99 ''t1'' ''heartbeat'' [] ''key-0001'' 5 None (snd claim_example) = (Inr 1, snd claim_example)"
proof -
  have run: "enqueue commit_or_rollback (\<lambda>v. v) 0 ''t1'' ''heartbeat'' [] ''key-0001'' 1 None job_db_init = (Inr 1, job_example_db)"
    by (simp add: job_example_eq enqueue_def job_db_init_def tenant_connection_def connection_def commit_or_rollback_def)
  have first: "find (\<lambda>r. jr_tenant_id r = ''t1'' \<and> jr_idempotency_key r = ''key-0001'') (durable_jobs job_db_init) = None"
    by (simp add: job_db_init_def)
  have steps: "(queue_step commit_or_rollback (\<lambda>v. v))\<^sup>*\<^sup>* job_example_db (snd claim_example)"
    unfolding claim_example_def by (rule r_into_rtranclp, rule queue_step.claim [OF prod.collapse [symmetric]])
  show ?thesis
    using enqueue_once [OF commit_or_rollback_contract rtranclp.rtrancl_refl _ first run steps, of 5] by simp
qed

text \<open>
  Further: \<open>max_attempts\<close> bounds only the failures a worker reports. A worker that dies while it holds a job
  never calls \<open>fail\<close>, and \<open>claim\<close> takes a job whose lease has run out without looking at its attempts:
  for every \<open>n\<close> there is a run in which a job that allows one attempt is running its \<open>n\<close>-th.
\<close>
theorem crashed_jobs_retried_forever:
  "\<exists>db row. (queue_step commit_or_rollback (\<lambda>v. v))\<^sup>*\<^sup>* job_db_init db \<and> row \<in> set (durable_jobs db) \<and>
     jr_status row = JRunning \<and> jr_max_attempts row = 1 \<and> jr_attempt row = int (Suc n)"
proof -
  have "\<exists>db row. (queue_step commit_or_rollback (\<lambda>v. v))\<^sup>*\<^sup>* job_db_init db \<and> durable_jobs db = [row] \<and>
     jr_status row = JRunning \<and> jr_max_attempts row = 1 \<and> jr_attempt row = int (Suc n) \<and> jr_lease_expires_at row \<noteq> None"
  proof (induction n)
    case 0
    show ?case
      using claim_example_reachable
      by (intro exI [of _ "snd claim_example"] exI [of _ claimed_row])
        (simp add: claim_example_eq claimed_row_def job_example_eq)
  next
    case (Suc n)
    then obtain db row t where db: "(queue_step commit_or_rollback (\<lambda>v. v))\<^sup>*\<^sup>* job_db_init db" "durable_jobs db = [row]"
      "jr_status row = JRunning" "jr_max_attempts row = 1" "jr_attempt row = int (Suc n)" "jr_lease_expires_at row = Some t"
      by blast
    let ?db' = "snd (claim commit_or_rollback t ''w1'' 60 db)"
    have "durable_jobs ?db' = [lease_job t ''w1'' 60 row]"
      using db by (simp add: claim_def claimable_def connection_def commit_or_rollback_def update_job_def)
    moreover have "(queue_step commit_or_rollback (\<lambda>v. v))\<^sup>*\<^sup>* job_db_init ?db'"
      using db(1) queue_step.claim [OF prod.collapse [symmetric]] by (rule rtranclp.rtrancl_into_rtrancl)
    ultimately show ?case
      using db(4,5) by (intro exI [of _ ?db'] exI [of _ "lease_job t ''w1'' 60 row"]) simp
  qed
  then show ?thesis by force
qed

section \<open>The worker settles what it claims\<close>

lemma held_leased:
  assumes "job_ok db" "row \<in> set (durable_jobs db)"
    and "durable_jobs db' = map (\<lambda>r. if r = row then lease_job now w secs r else r) (durable_jobs db)"
  shows "{r \<in> set (durable_jobs db'). held_by (jr_id row) w r} = {lease_job now w secs row}"
  using job_id_unique [OF assms(1) _ assms(2)] assms(2,3) by (auto simp: held_by_def)

lemma update_leased:
  assumes "job_ok db" "row \<in> set (durable_jobs db)"
    and "durable_jobs db' = map (\<lambda>r. if r = row then lease_job now w secs r else r) (durable_jobs db)"
  shows "durable_jobs (update_job (jr_id row) (\<lambda>r. if held_by (jr_id row) w r then f r else r) db') =
    map (\<lambda>r. if r = row then f (lease_job now w secs r) else r) (durable_jobs db)"
  using job_id_unique [OF assms(1) _ assms(2)] assms(3) by (auto simp: update_job_def held_by_def)

lemma backoff_bounds:
  assumes "1 \<le> n"
  shows "2 \<le> backoff n \<and> backoff n \<le> 256"
proof -
  have "1 \<le> nat (min n 8)" "nat (min n 8) \<le> 8" using assms by auto
  then have "(2 :: int) ^ 1 \<le> 2 ^ nat (min n 8)" "(2 :: int) ^ nat (min n 8) \<le> 2 ^ 8"
    by (intro power_increasing; simp)+
  then show ?thesis by (simp add: backoff_def)
qed

definition job_outcome :: "(string, 'w job_handler) dict \<Rightarrow> 'w job_handler" where
  "job_outcome handlers job st =
     (case dget handlers (dj_kind job) of None \<Rightarrow> (Inl (KeyError (dj_kind job)), st) | Some handler \<Rightarrow> handler job st)"

definition settled_row ::
  "(json_object \<Rightarrow> json_object) \<Rightarrow> (py_error \<Rightarrow> string) \<Rightarrow> instant \<Rightarrow> json_object result \<Rightarrow> job_row \<Rightarrow> job_row" where
  \<comment> \<open>what becomes of the row of a claimed job\<close>
  "settled_row jsonb error_text failed_at res r =
     (case res of
        Inr v \<Rightarrow> r\<lparr>jr_status := JSucceeded, jr_result := Some (jsonb v), jr_leased_by := None, jr_lease_expires_at := None\<rparr>
      | Inl e \<Rightarrow> r\<lparr>jr_status := if jr_attempt r \<ge> jr_max_attempts r then JDead_Letter else JPending,
           jr_last_error := Some (take 4000 (error_text e)),
           jr_available_at := failed_at + seconds (backoff (jr_attempt r)), jr_leased_by := None, jr_lease_expires_at := None\<rparr>)"

text \<open>
  C31: One round of the worker settles the job it claims. If the handler, or the lookup that finds no
  handler, leaves the queue alone, \<open>run_once\<close> returns True, and of all rows only the claimed one has
  changed: to succeeded with the result, or, when the handler raised, to dead letter when the attempts
  are used up and otherwise back to pending, due after a back-off of at least 2 and at most 256 seconds.
\<close>
theorem run_once_settles:
  assumes px: "pool_contract px" and reach: "(queue_step px jsonb)\<^sup>*\<^sup>* job_db_init (wk_db st)"
    and claim: "claim px claimed_at w 60 (wk_db st) = (Inr (Some job), db1)"
    and handler: "job_outcome handlers job (st\<lparr>wk_db := db1\<rparr>) = (res, st2)" and alone: "wk_db st2 = db1"
    and run: "run_once px jsonb error_text w handlers claimed_at failed_at st = (r, st')"
  shows "r = Inr True \<and>
    (\<exists>row \<in> set (durable_jobs (wk_db st)). jr_id row = dj_id job \<and>
      durable_jobs (wk_db st') = map (\<lambda>q. if q = row
        then settled_row jsonb error_text failed_at res (lease_job claimed_at w 60 q) else q) (durable_jobs (wk_db st))) \<and>
    wk_processed st' = wk_processed st2 + (if is_ok res then 1 else 0) \<and>
    2 \<le> backoff (dj_attempt job) \<and> backoff (dj_attempt job) \<le> 256"
proof -
  have ok: "job_ok (wk_db st)" by (rule job_reachable [OF px reach])
  obtain row where row: "row \<in> set (durable_jobs (wk_db st))"
    "job = claimed_job (claimed_at + seconds 60) (lease_job claimed_at w 60 row)"
    "durable_jobs db1 = map (\<lambda>r. if r = row then lease_job claimed_at w 60 r else r) (durable_jobs (wk_db st))"
    by (rule claim_some [OF px ok claim]) blast
  have ok_row: "job_row_ok row" by (rule job_okD(4) [OF ok row(1)])
  then have t: "valid_tenant (jr_tenant_id row)" and a: "0 \<le> jr_attempt row" by (simp_all add: job_row_ok_def)
  have held: "\<exists>r \<in> set (durable_jobs db1). held_by (jr_id row) w r"
    using held_leased [OF ok row(1,3)] by blast
  have id: "dj_id job = jr_id row" "dj_tenant_id job = jr_tenant_id row" "dj_attempt job = jr_attempt row + 1"
    "dj_max_attempts job = jr_max_attempts row"
    using row(2) by simp_all
  have upd: "durable_jobs (update_job (jr_id row) (\<lambda>r. if held_by (jr_id row) w r then f r else r) db1) =
      map (\<lambda>r. if r = row then f (lease_job claimed_at w 60 r) else r) (durable_jobs (wk_db st))" for f
    by (rule update_leased [OF ok row(1,3)])
  have succ: "succeed px jsonb job w v db1 = (Inr (), update_job (jr_id row) (\<lambda>r. if held_by (jr_id row) w r
      then r\<lparr>jr_status := JSucceeded, jr_result := Some (jsonb v), jr_leased_by := None, jr_lease_expires_at := None\<rparr> else r) db1)" for v
    using held by (simp add: succeed_def id tenant_connection_eq [OF px t])
  have b: "2 \<le> backoff (dj_attempt job) \<and> backoff (dj_attempt job) \<le> 256"
    using a id(3) backoff_bounds by simp
  show ?thesis
  proof (cases res)
    case (Inr v)
    then have "run_once px jsonb error_text w handlers claimed_at failed_at st =
        (Inr True, st2\<lparr>wk_db := snd (succeed px jsonb job w v db1), wk_processed := wk_processed st2 + 1\<rparr>)"
      using handler alone succ [of v]
      by (auto simp: run_once_def claim job_outcome_def split: option.splits sum.splits prod.splits)
    with run Inr b row(1) id(1) show ?thesis
      by (auto simp: succ upd settled_row_def)
  next
    case (Inl e)
    have fail: "fail px failed_at job w (error_text e) db1 =
        (Inr (if jr_max_attempts row \<le> jr_attempt row + 1 then JDead_Letter else JPending),
         update_job (jr_id row) (\<lambda>r. if held_by (jr_id row) w r
           then r\<lparr>jr_status := if jr_max_attempts row \<le> jr_attempt row + 1 then JDead_Letter else JPending,
             jr_last_error := Some (take 4000 (error_text e)),
             jr_available_at := failed_at + seconds (backoff (jr_attempt row + 1)), jr_leased_by := None, jr_lease_expires_at := None\<rparr>
           else r) db1)"
      unfolding fail_def Let_def id tenant_connection_eq [OF px t] using held by simp
    have "run_once px jsonb error_text w handlers claimed_at failed_at st =
        (Inr True, st2\<lparr>wk_db := snd (fail px failed_at job w (error_text e) db1)\<rparr>)"
      using handler alone Inl fail
      by (auto simp: run_once_def claim job_outcome_def split: option.splits sum.splits prod.splits)
    with run have st': "r = Inr True" "wk_db st' = snd (fail px failed_at job w (error_text e) db1)"
      "wk_processed st' = wk_processed st2" by auto
    have "durable_jobs (wk_db st') = map (\<lambda>q. if q = row
        then settled_row jsonb error_text failed_at res (lease_job claimed_at w 60 q) else q) (durable_jobs (wk_db st))"
      unfolding st'(2) fail snd_conv upd by (rule map_cong) (simp_all add: settled_row_def Inl)
    with st'(1,3) Inl b row(1) id(1) show ?thesis by auto
  qed
qed

definition echo_handler :: "unit job_handler" where
  "echo_handler job st = (Inr [(''status'', PStr ''ok'')], st)"

theorem run_once_settles_witness:
  "\<exists>st'. run_once commit_or_rollback (\<lambda>v. v) (\<lambda>e. []) ''w1'' [(''heartbeat'', echo_handler)] 10 20
       \<lparr>wk_db = job_example_db, wk_world = (), wk_processed = 0\<rparr> = (Inr True, st') \<and>
     wk_processed st' = 1 \<and> map jr_status (durable_jobs (wk_db st')) = [JSucceeded]"
proof -
  let ?st = "\<lparr>wk_db = job_example_db, wk_world = (), wk_processed = 0\<rparr>"
  let ?job = "claimed_job 60000010 claimed_row" and ?db1 = "snd claim_example"
  have claim: "claim commit_or_rollback 10 ''w1'' 60 (wk_db ?st) = (Inr (Some ?job), ?db1)"
    using claim_example_eq unfolding claim_example_def by simp
  have handler: "job_outcome [(''heartbeat'', echo_handler)] ?job (?st\<lparr>wk_db := ?db1\<rparr>) =
      (Inr [(''status'', PStr ''ok'')], ?st\<lparr>wk_db := ?db1\<rparr>)"
    by (simp add: job_outcome_def echo_handler_def claimed_row_def job_example_eq)
  have reach: "(queue_step commit_or_rollback (\<lambda>v. v))\<^sup>*\<^sup>* job_db_init (wk_db ?st)" by (simp add: job_example_reachable)
  obtain r st' where run: "run_once commit_or_rollback (\<lambda>v. v) (\<lambda>e. []) ''w1'' [(''heartbeat'', echo_handler)] 10 20 ?st = (r, st')"
    by (rule prod.exhaust)
  have alone: "wk_db (?st\<lparr>wk_db := ?db1\<rparr>) = ?db1" by simp
  note settles = run_once_settles [OF commit_or_rollback_contract reach claim handler alone run]
  have "map jr_status (durable_jobs (wk_db st')) = [JSucceeded]"
    using settles by (auto simp: job_example_eq settled_row_def)
  then show ?thesis using settles run by auto
qed

end
