(* ===== verification/Resource_Store.thy ===== *)
theory Resource_Store
  imports Persistence Json
begin

text \<open>
  The versioned resource store of \<open>apps/api/store.py\<close>: \<open>ResourceStore\<close> in memory and
  \<open>PostgresResourceStore\<close>. A body is a JSON object, on which \<open>_json_safe\<close> is the identity. SHA-256, the
  clocks (of the database and of the process) and what a \<open>jsonb\<close> column gives back of a document are
  parameters; the text that is hashed is modelled.

  \<open>versioned\<close> is the contract both stores keep: what an identity points at now, and what it pointed at
  at each version, change only together, one version at a time. Its interpretations give that
  histories are complete and immutable.
\<close>

section \<open>Resources\<close>

record stored_resource =
  sr_kind :: string
  sr_id :: string
  sr_tenant_id :: string
  sr_version :: int
  sr_etag :: string
  sr_body :: json_object

definition normalized :: "json_object \<Rightarrow> string \<Rightarrow> json_object" where
  \<comment> \<open>\<open>{**body, "id": resource_id}\<close>\<close>
  "normalized body resource_id = dput ''id'' (PStr resource_id) body"

definition request_text :: "string \<Rightarrow> string \<Rightarrow> json_object \<Rightarrow> string" where
  "request_text kind resource_id body =
     json_dumps True (PDict [(''kind'', PStr kind), (''resource_id'', PStr resource_id), (''body'', PDict body)])"

definition etag_text :: "string \<Rightarrow> string \<Rightarrow> int \<Rightarrow> json_object \<Rightarrow> string" where
  "etag_text tenant_id kind version body =
     json_dumps True (PDict [(''tenant'', PStr tenant_id), (''kind'', PStr kind), (''version'', PInt version), (''body'', PDict body)])"

section \<open>The store in memory\<close>

record resource_store =
  rs_items :: "(string \<times> string \<times> string, stored_resource) dict"
  rs_versions :: "((string \<times> string \<times> string) \<times> int, stored_resource) dict"
  rs_idempotency :: "(string \<times> string, string \<times> stored_resource) dict"

definition resource_store_init :: resource_store where
  "resource_store_init = \<lparr>rs_items = [], rs_versions = [], rs_idempotency = []\<rparr>"

definition etag_conflict :: "string option \<Rightarrow> string option \<Rightarrow> bool" where
  \<comment> \<open>\<open>previous and if_match != previous.etag\<close>\<close>
  "etag_conflict previous_etag if_match = (case previous_etag of None \<Rightarrow> False | Some e \<Rightarrow> if_match \<noteq> Some e)"

definition resource_put ::
  "(string \<Rightarrow> string) \<Rightarrow> string \<Rightarrow> string \<Rightarrow> string \<Rightarrow> json_object \<Rightarrow> string \<Rightarrow> string option \<Rightarrow> resource_store \<Rightarrow>
   stored_resource result \<times> resource_store" where
  "resource_put sha256 kind resource_id tenant_id body idempotency_key if_match st =
     (let request_hash = sha256 (request_text kind resource_id body) in
      case dget (rs_idempotency st) (tenant_id, idempotency_key) of
        Some (previous_hash, resource) \<Rightarrow>
          if request_hash \<noteq> previous_hash
          then (Inl (ValueError ''idempotency key reused with different request''), st)
          else (Inr resource, st)
      | None \<Rightarrow>
          let key = (tenant_id, kind, resource_id); previous = dget (rs_items st) key in
          if etag_conflict (map_option sr_etag previous) if_match
          then (Inl (RuntimeError ''If-Match optimistic concurrency conflict''), st)
          else
            let version = (case previous of Some p \<Rightarrow> sr_version p + 1 | None \<Rightarrow> 1);
                body' = normalized body resource_id;
                etag = sha256 (etag_text tenant_id kind version body');
                resource = \<lparr>sr_kind = kind, sr_id = resource_id, sr_tenant_id = tenant_id, sr_version = version,
                            sr_etag = etag, sr_body = body'\<rparr>
            in (Inr resource,
                \<lparr>rs_items = dput key resource (rs_items st),
                 rs_versions = dput (key, version) resource (rs_versions st),
                 rs_idempotency = dput (tenant_id, idempotency_key) (request_hash, resource) (rs_idempotency st)\<rparr>))"

definition tuple_repr :: "string list \<Rightarrow> string" where
  "tuple_repr parts = ''('' @ join '', '' parts @ '')''"

definition resource_get :: "string \<Rightarrow> string \<Rightarrow> string \<Rightarrow> resource_store \<Rightarrow> stored_resource result" where
  "resource_get kind resource_id tenant_id st =
     key_of (rs_items st) (\<lambda>(t, k, i). tuple_repr [repr_string t, repr_string k, repr_string i])
       (tenant_id, kind, resource_id)"

definition resource_list :: "string \<Rightarrow> string \<Rightarrow> resource_store \<Rightarrow> stored_resource list" where
  "resource_list kind tenant_id st =
     sort_key sr_id (map snd (filter (\<lambda>((t, k, i), item). t = tenant_id \<and> k = kind) (rs_items st)))"

definition resource_version :: "string \<Rightarrow> string \<Rightarrow> string \<Rightarrow> int \<Rightarrow> resource_store \<Rightarrow> stored_resource result" where
  "resource_version kind resource_id tenant_id version st =
     key_of (rs_versions st)
       (\<lambda>((t, k, i), v). tuple_repr [repr_string t, repr_string k, repr_string i, string_of_int v])
       ((tenant_id, kind, resource_id), version)"

definition resource_history :: "string \<Rightarrow> string \<Rightarrow> string \<Rightarrow> resource_store \<Rightarrow> stored_resource list result" where
  "resource_history kind resource_id tenant_id st =
     rmap_list (\<lambda>version. resource_version kind resource_id tenant_id version st)
       (sort (map snd (filter (\<lambda>(key, version). key = (tenant_id, kind, resource_id)) (dkeys (rs_versions st)))))"

section \<open>The store on PostgreSQL\<close>

record resource_row =
  rr_version :: int
  rr_etag :: string
  rr_body :: json_object

record replay_row =
  ir_request_hash :: string
  ir_response_body :: json_object
  ir_expires_at :: instant

record store_db =
  resources :: "(string \<times> string \<times> string, resource_row) dict"
  resource_versions :: "((string \<times> string \<times> string) \<times> int, resource_row) dict"
  idempotency_records :: "(string \<times> string, replay_row) dict"

definition store_db_init :: store_db where
  "store_db_init = \<lparr>resources = [], resource_versions = [], idempotency_records = []\<rparr>"

definition stored :: "(pyval \<Rightarrow> pyval) \<Rightarrow> json_object \<Rightarrow> json_object" where
  \<comment> \<open>a document after a round trip through a \<open>jsonb\<close> column\<close>
  "stored jsonb body = (case jsonb (PDict body) of PDict kvs \<Rightarrow> kvs | _ \<Rightarrow> body)"

definition response_of :: "stored_resource \<Rightarrow> json_object" where
  "response_of r =
     [(''kind'', PStr (sr_kind r)), (''id'', PStr (sr_id r)), (''tenant_id'', PStr (sr_tenant_id r)),
      (''version'', PInt (sr_version r)), (''etag'', PStr (sr_etag r)), (''body'', PDict (sr_body r))]"

definition dict_of_value :: "pyval \<Rightarrow> json_object result" where
  \<comment> \<open>\<open>dict(value)\<close>\<close>
  "dict_of_value v = (case v of PDict kvs \<Rightarrow> Inr kvs | _ \<Rightarrow> Inl (TypeError ''object is not a mapping''))"

definition from_response :: "json_object \<Rightarrow> stored_resource result" where
  "from_response response =
     rbind (py_item response ''kind'') (\<lambda>kind.
     rbind (py_item response ''id'') (\<lambda>id.
     rbind (py_item response ''tenant_id'') (\<lambda>tenant_id.
     rbind (py_item response ''version'') (\<lambda>version. rbind (py_int version) (\<lambda>version.
     rbind (py_item response ''etag'') (\<lambda>etag.
     rbind (py_item response ''body'') (\<lambda>body. rbind (dict_of_value body) (\<lambda>body.
     Inr \<lparr>sr_kind = py_str kind, sr_id = py_str id, sr_tenant_id = py_str tenant_id, sr_version = version,
          sr_etag = py_str etag, sr_body = body\<rparr>))))))))"

definition live_records :: "string \<times> string \<Rightarrow> instant \<Rightarrow> store_db \<Rightarrow> (string \<times> string, replay_row) dict" where
  \<comment> \<open>\<open>DELETE FROM idempotency_records\<close> of the slot once it has expired\<close>
  "live_records slot db_now db = filter (\<lambda>(k, row). \<not> (k = slot \<and> ir_expires_at row \<le> db_now)) (idempotency_records db)"

definition resource_put_body ::
  "(string \<Rightarrow> string) \<Rightarrow> (pyval \<Rightarrow> pyval) \<Rightarrow> timedelta \<Rightarrow> instant \<Rightarrow> instant \<Rightarrow> string \<Rightarrow> string \<Rightarrow> string \<Rightarrow> json_object \<Rightarrow>
   string \<Rightarrow> string option \<Rightarrow> store_db \<Rightarrow> stored_resource result \<times> store_db" where
  "resource_put_body sha256 jsonb ttl db_now now kind resource_id tenant_id body idempotency_key if_match db =
     (let body' = normalized body resource_id;
          request_hash = sha256 (request_text kind resource_id body');
          slot = (tenant_id, idempotency_key);
          live = live_records slot db_now db;
          db = db\<lparr>idempotency_records := live\<rparr>
      in case dget live slot of
        Some replay \<Rightarrow>
          if ir_request_hash replay \<noteq> request_hash
          then (Inl (ValueError ''idempotency key reused with different request''), db)
          else (from_response (ir_response_body replay), db)
      | None \<Rightarrow>
          let key = (tenant_id, kind, resource_id); previous = dget (resources db) key in
          if etag_conflict (map_option rr_etag previous) if_match
          then (Inl (RuntimeError ''If-Match optimistic concurrency conflict''), db)
          else
            let version = (case previous of Some p \<Rightarrow> rr_version p + 1 | None \<Rightarrow> 1);
                etag = sha256 (etag_text tenant_id kind version body');
                resource = \<lparr>sr_kind = kind, sr_id = resource_id, sr_tenant_id = tenant_id, sr_version = version,
                            sr_etag = etag, sr_body = body'\<rparr>;
                row = \<lparr>rr_version = version, rr_etag = etag, rr_body = stored jsonb body'\<rparr>
            in if dget (resource_versions db) (key, version) \<noteq> None
               then (Inl (RuntimeError ''duplicate key value violates unique constraint''), db)
               else (Inr resource,
                 \<lparr>resources = dput key row (resources db),
                  resource_versions = dput (key, version) row (resource_versions db),
                  idempotency_records = dput slot
                    \<lparr>ir_request_hash = request_hash, ir_response_body = stored jsonb (response_of resource),
                     ir_expires_at = now + ttl\<rparr> live\<rparr>))"

definition resource_put_pg ::
  "store_db pool_exit \<Rightarrow> (string \<Rightarrow> string) \<Rightarrow> (pyval \<Rightarrow> pyval) \<Rightarrow> timedelta \<Rightarrow> instant \<Rightarrow> instant \<Rightarrow> string \<Rightarrow> string \<Rightarrow>
   string \<Rightarrow> json_object \<Rightarrow> string \<Rightarrow> string option \<Rightarrow> store_db \<Rightarrow> stored_resource result \<times> store_db" where
  "resource_put_pg px sha256 jsonb ttl db_now now kind resource_id tenant_id body idempotency_key if_match db =
     tenant_connection px tenant_id db
       (resource_put_body sha256 jsonb ttl db_now now kind resource_id tenant_id body idempotency_key if_match)"

definition row_resource :: "string \<Rightarrow> string \<Rightarrow> string \<Rightarrow> resource_row \<Rightarrow> stored_resource" where
  "row_resource kind resource_id tenant_id row =
     \<lparr>sr_kind = kind, sr_id = resource_id, sr_tenant_id = tenant_id, sr_version = rr_version row,
      sr_etag = rr_etag row, sr_body = rr_body row\<rparr>"

definition resource_get_pg :: "store_db pool_exit \<Rightarrow> string \<Rightarrow> string \<Rightarrow> string \<Rightarrow> store_db \<Rightarrow> stored_resource result" where
  "resource_get_pg px kind resource_id tenant_id db =
     fst (tenant_connection px tenant_id db (\<lambda>db.
       (case dget (resources db) (tenant_id, kind, resource_id) of
          None \<Rightarrow> Inl (KeyError resource_id)
        | Some row \<Rightarrow> Inr (row_resource kind resource_id tenant_id row), db)))"

definition resource_list_pg :: "store_db pool_exit \<Rightarrow> string \<Rightarrow> string \<Rightarrow> store_db \<Rightarrow> stored_resource list result" where
  "resource_list_pg px kind tenant_id db =
     fst (tenant_connection px tenant_id db (\<lambda>db.
       (Inr (sort_key sr_id (map (\<lambda>((t, k, i), row). row_resource kind i tenant_id row)
          (filter (\<lambda>((t, k, i), row). t = tenant_id \<and> k = kind) (resources db)))), db)))"

definition resource_version_pg ::
  "store_db pool_exit \<Rightarrow> string \<Rightarrow> string \<Rightarrow> string \<Rightarrow> int \<Rightarrow> store_db \<Rightarrow> stored_resource result" where
  "resource_version_pg px kind resource_id tenant_id version db =
     fst (tenant_connection px tenant_id db (\<lambda>db.
       (case dget (resource_versions db) ((tenant_id, kind, resource_id), version) of
          None \<Rightarrow> Inl (KeyError (resource_id @ ''@'' @ string_of_int version))
        | Some row \<Rightarrow> Inr (row_resource kind resource_id tenant_id (row\<lparr>rr_version := version\<rparr>)), db)))"

definition resource_history_pg ::
  "store_db pool_exit \<Rightarrow> string \<Rightarrow> string \<Rightarrow> string \<Rightarrow> store_db \<Rightarrow> stored_resource list result" where
  "resource_history_pg px kind resource_id tenant_id db =
     fst (tenant_connection px tenant_id db (\<lambda>db.
       (Inr (map (row_resource kind resource_id tenant_id) (sort_key rr_version
          (map snd (filter (\<lambda>((key, version), row). key = (tenant_id, kind, resource_id)) (resource_versions db))))), db)))"

section \<open>The contract of a versioned store\<close>

fun next_version_of :: "(int \<times> 'e) option \<Rightarrow> int" where
  "next_version_of None = 1"
| "next_version_of (Some (n, e)) = n + 1"

definition complete_history :: "('k \<Rightarrow> (int \<times> 'e) option) \<Rightarrow> ('k \<Rightarrow> int \<Rightarrow> 'e option) \<Rightarrow> bool" where
  "complete_history current past \<longleftrightarrow> (\<forall>k. case current k of
     None \<Rightarrow> \<forall>v. past k v = None
   | Some (n, e) \<Rightarrow> 1 \<le> n \<and> past k n = Some e \<and> (\<forall>v. past k v \<noteq> None \<longleftrightarrow> 1 \<le> v \<and> v \<le> n))"

locale versioned =
  fixes init :: 's
    and step :: "'s \<Rightarrow> 's \<Rightarrow> bool"
    and current :: "'s \<Rightarrow> 'k \<Rightarrow> (int \<times> 'e) option"
    and past :: "'s \<Rightarrow> 'k \<Rightarrow> int \<Rightarrow> 'e option"
  assumes init_empty: "current init k = None" "past init k v = None"
    and step_one: "step s t \<Longrightarrow> current t = current s \<and> past t = past s \<or>
      (\<exists>k e. current t = (current s)(k \<mapsto> (next_version_of (current s k), e)) \<and>
        past t = (past s)(k := (past s k)(next_version_of (current s k) \<mapsto> e)))"
begin

lemma complete_step:
  assumes "step s t" "complete_history (current s) (past s)"
  shows "complete_history (current t) (past t)"
  using step_one [OF assms(1)]
proof (elim disjE exE conjE)
  fix k e
  assume cur: "current t = (current s)(k \<mapsto> (next_version_of (current s k), e))"
    and past: "past t = (past s)(k := (past s k)(next_version_of (current s k) \<mapsto> e))"
  show ?thesis
    unfolding complete_history_def
  proof
    fix k'
    show "case current t k' of None \<Rightarrow> \<forall>v. past t k' v = None
      | Some (n, e) \<Rightarrow> 1 \<le> n \<and> past t k' n = Some e \<and> (\<forall>v. past t k' v \<noteq> None \<longleftrightarrow> 1 \<le> v \<and> v \<le> n)"
    proof (cases "k' = k")
      case True
      then show ?thesis
        using assms(2) [unfolded complete_history_def, rule_format, of k] cur past
        by (cases "current s k") (auto split: prod.splits)
    next
      case False
      then show ?thesis
        using assms(2) [unfolded complete_history_def, rule_format, of k'] cur past
        by (cases "current s k'") (auto split: prod.splits)
    qed
  qed
qed (use assms(2) in \<open>simp add: complete_history_def\<close>)

end

sublocale versioned \<subseteq> versions: safe_system init step "\<lambda>s. complete_history (current s) (past s)"
proof
  show "complete_history (current init) (past init)" by (simp add: complete_history_def init_empty)
qed (rule complete_step)

context versioned
begin

lemma past_immutable:
  assumes "step\<^sup>*\<^sup>* s t" "complete_history (current s) (past s)" "past s k v = Some e"
  shows "past t k v = Some e"
  using assms(1)
proof (induction rule: rtranclp_induct)
  case (step t u)
  have ok: "complete_history (current t) (past t)" by (rule versions.inv_steps [OF step(1) assms(2)])
  show ?case
    using step_one [OF step(2)]
  proof (elim disjE exE conjE)
    fix k' e'
    assume u: "past u = (past t)(k' := (past t k')(next_version_of (current t k') \<mapsto> e'))"
    show ?thesis
    proof (cases "k' = k \<and> next_version_of (current t k) = v")
      case True
      have False
      proof (cases "current t k")
        case None
        then show ?thesis using ok [unfolded complete_history_def, rule_format, of k] step(3) by simp
      next
        case (Some p)
        then obtain n e0 where p: "current t k = Some (n, e0)" by (cases p) auto
        then have "past t k v \<noteq> None \<longleftrightarrow> 1 \<le> v \<and> v \<le> n"
          using ok [unfolded complete_history_def, rule_format, of k] by simp
        with p True step(3) show ?thesis by simp
      qed
      then show ?thesis ..
    qed (use u step(3) in auto)
  qed (use step(3) in simp)
qed (use assms(3) in simp)

lemma reachable_complete: "step\<^sup>*\<^sup>* init s \<Longrightarrow> complete_history (current s) (past s)"
  by (rule versions.inv_reachable)

lemma current_version:
  assumes "step\<^sup>*\<^sup>* init s" "current s k = Some (n, e)"
  shows "1 \<le> n" "past s k n = Some e" "past s k v \<noteq> None \<longleftrightarrow> 1 \<le> v \<and> v \<le> n"
  using reachable_complete [OF assms(1), unfolded complete_history_def, rule_format, of k] assms(2) by auto

end

section \<open>Both stores keep the contract\<close>

inductive resource_step :: "(string \<Rightarrow> string) \<Rightarrow> resource_store \<Rightarrow> resource_store \<Rightarrow> bool" for sha256 where
  put: "resource_put sha256 kind i t body key if_match st = (r, st') \<Longrightarrow> resource_step sha256 st st'"

definition memory_current :: "resource_store \<Rightarrow> string \<times> string \<times> string \<Rightarrow> (int \<times> stored_resource) option" where
  "memory_current st k = map_option (\<lambda>r. (sr_version r, r)) (dget (rs_items st) k)"

definition memory_past :: "resource_store \<Rightarrow> string \<times> string \<times> string \<Rightarrow> int \<Rightarrow> stored_resource option" where
  "memory_past st k v = dget (rs_versions st) (k, v)"

lemma memory_put_cases:
  assumes "resource_put sha256 kind i t body key if_match st = (r, st')"
  obtains (same) "st' = st"
    | (new) n resource where "n = next_version_of (memory_current st (t, kind, i))" "sr_version resource = n" "r = Inr resource"
        "rs_items st' = dput (t, kind, i) resource (rs_items st)"
        "rs_versions st' = dput ((t, kind, i), n) resource (rs_versions st)"
proof (cases "dget (rs_idempotency st) (t, key)")
  case (Some p)
  then show ?thesis
    using assms same by (cases p) (auto simp: resource_put_def Let_def split: if_splits)
next
  case None
  show ?thesis
  proof (cases "etag_conflict (map_option sr_etag (dget (rs_items st) (t, kind, i))) if_match")
    case True
    with None assms same show ?thesis by (auto simp: resource_put_def Let_def)
  next
    case False
    with None assms show ?thesis
      by (intro new [OF refl, of "projr r"])
        (auto simp: resource_put_def Let_def memory_current_def split: option.splits)
  qed
qed

interpretation memory_store: versioned resource_store_init "resource_step sha256" memory_current memory_past for sha256
proof
  show "resource_step sha256 s t \<Longrightarrow> memory_current t = memory_current s \<and> memory_past t = memory_past s \<or>
      (\<exists>k e. memory_current t = (memory_current s)(k \<mapsto> (next_version_of (memory_current s k), e)) \<and>
        memory_past t = (memory_past s)(k := (memory_past s k)(next_version_of (memory_current s k) \<mapsto> e)))" for s t
    by (erule resource_step.cases, erule memory_put_cases)
      (auto simp: memory_current_def memory_past_def fun_eq_iff)
qed (simp_all add: memory_current_def memory_past_def resource_store_init_def)

inductive store_step ::
  "store_db pool_exit \<Rightarrow> (string \<Rightarrow> string) \<Rightarrow> (pyval \<Rightarrow> pyval) \<Rightarrow> timedelta \<Rightarrow> (instant \<Rightarrow> bool) \<Rightarrow> store_db \<Rightarrow> store_db \<Rightarrow> bool"
  for px sha256 jsonb ttl clock where
  put: "clock db_now \<Longrightarrow> resource_put_pg px sha256 jsonb ttl db_now now kind i t body key if_match db = (r, db') \<Longrightarrow>
    store_step px sha256 jsonb ttl clock db db'"

definition row_current :: "store_db \<Rightarrow> string \<times> string \<times> string \<Rightarrow> (int \<times> resource_row) option" where
  "row_current db k = map_option (\<lambda>r. (rr_version r, r)) (dget (resources db) k)"

definition row_past :: "store_db \<Rightarrow> string \<times> string \<times> string \<Rightarrow> int \<Rightarrow> resource_row option" where
  "row_past db k v = dget (resource_versions db) (k, v)"

lemma pg_put_cases:
  assumes px: "pool_contract px"
    and run: "resource_put_pg px sha256 jsonb ttl db_now now kind i t body key if_match db = (r, db')"
  obtains (refused) e where "r = Inl e" "db' = db"
    | (replayed) replay where "valid_tenant t" "dget (live_records (t, key) db_now db) (t, key) = Some replay"
        "ir_request_hash replay = sha256 (request_text kind i (normalized body i))" "r = from_response (ir_response_body replay)"
        "db' = db\<lparr>idempotency_records := live_records (t, key) db_now db\<rparr>"
    | (new) resource row where "valid_tenant t" "r = Inr resource" "dget (live_records (t, key) db_now db) (t, key) = None"
        "sr_version resource = next_version_of (row_current db (t, kind, i))" "rr_version row = sr_version resource"
        "rr_etag row = sr_etag resource" "rr_body row = stored jsonb (sr_body resource)"
        "sr_body resource = normalized body i" "sr_kind resource = kind" "sr_id resource = i" "sr_tenant_id resource = t"
        "sr_etag resource = sha256 (etag_text t kind (sr_version resource) (normalized body i))"
        "\<not> etag_conflict (map_option rr_etag (dget (resources db) (t, kind, i))) if_match"
        "db' = \<lparr>resources = dput (t, kind, i) row (resources db),
           resource_versions = dput ((t, kind, i), sr_version resource) row (resource_versions db),
           idempotency_records = dput (t, key) \<lparr>ir_request_hash = sha256 (request_text kind i (normalized body i)),
             ir_response_body = stored jsonb (response_of resource), ir_expires_at = now + ttl\<rparr> (live_records (t, key) db_now db)\<rparr>"
proof (cases r)
  case (Inl e)
  with run px refused show ?thesis by (auto simp: resource_put_pg_def dest: tenant_connection_rollback)
next
  case (Inr resource)
  then have t: "valid_tenant t"
    and body: "resource_put_body sha256 jsonb ttl db_now now kind i t body key if_match db = (Inr resource, db')"
    using run px by (simp_all add: resource_put_pg_def tenant_connection_commit)
  show ?thesis
  proof (cases "dget (live_records (t, key) db_now db) (t, key)")
    case (Some replay)
    then show ?thesis
      using body t Inr replayed
      by (auto simp: resource_put_body_def Let_def split: if_splits)
  next
    case None
    let ?row = "\<lparr>rr_version = sr_version resource, rr_etag = sr_etag resource, rr_body = stored jsonb (normalized body i)\<rparr>"
    show ?thesis
      using body None
      by (intro new [OF t Inr None, of ?row])
        (auto simp: resource_put_body_def Let_def row_current_def split: if_splits option.splits)
  qed
qed

locale pg_resources = psycopg px for px :: "store_db pool_exit" +
  fixes sha256 :: "string \<Rightarrow> string" and jsonb :: "pyval \<Rightarrow> pyval" and ttl :: timedelta and clock :: "instant \<Rightarrow> bool"

sublocale pg_resources \<subseteq> store: versioned store_db_init "store_step px sha256 jsonb ttl clock" row_current row_past
proof
  show "store_step px sha256 jsonb ttl clock s t \<Longrightarrow> row_current t = row_current s \<and> row_past t = row_past s \<or>
      (\<exists>k e. row_current t = (row_current s)(k \<mapsto> (next_version_of (row_current s k), e)) \<and>
        row_past t = (row_past s)(k := (row_past s k)(next_version_of (row_current s k) \<mapsto> e)))" for s t
    by (erule store_step.cases, erule pg_put_cases [OF contract])
      (auto simp: row_current_def row_past_def fun_eq_iff)
qed (simp_all add: row_current_def row_past_def store_db_init_def)

context pg_resources
begin

lemmas row_version = store.current_version
lemmas row_immutable = store.past_immutable
lemmas row_complete = store.reachable_complete

end

interpretation default_resources: pg_resources commit_or_rollback "\<lambda>s. s" "\<lambda>v. v" 86400000000 "\<lambda>t. True"
  by unfold_locales

lemma pg_resourcesI: "pool_contract px \<Longrightarrow> pg_resources px"
  by unfold_locales

section \<open>Rows carry the version they are filed under\<close>

definition versions_filed :: "store_db \<Rightarrow> bool" where
  "versions_filed db \<longleftrightarrow> distinct (dkeys (resource_versions db)) \<and>
     (\<forall>k v row. ((k, v), row) \<in> set (resource_versions db) \<longrightarrow> rr_version row = v)"

lemma versions_filedD:
  assumes "versions_filed db"
  shows "distinct (dkeys (resource_versions db))" "((k, v), row) \<in> set (resource_versions db) \<Longrightarrow> rr_version row = v"
  using assms unfolding versions_filed_def by blast+

lemma versions_filed_step:
  assumes "pool_contract px" "store_step px sha256 jsonb ttl clock s t" "versions_filed s"
  shows "versions_filed t"
  using assms(2)
proof cases
  case (put db_now now kind i tenant body key if_match r)
  from assms(3) show ?thesis
    by (cases rule: pg_put_cases [OF assms(1) put(2)]) (auto simp: versions_filed_def dest!: dput_entries)
qed

lemma versions_filed_reachable:
  assumes "pool_contract px" "(store_step px sha256 jsonb ttl clock)\<^sup>*\<^sup>* store_db_init db"
  shows "versions_filed db"
  using assms(2)
proof (induction rule: rtranclp_induct)
  case base
  show ?case by (simp add: versions_filed_def store_db_init_def)
next
  case (step y z)
  show ?case by (rule versions_filed_step [OF assms(1) step(2,3)])
qed

definition identity_rows :: "string \<times> string \<times> string \<Rightarrow> store_db \<Rightarrow> resource_row list" where
  "identity_rows k db = map snd (filter (\<lambda>((key, version), row). key = k) (resource_versions db))"

lemma identity_rows_mem:
  assumes "versions_filed db"
  shows "row \<in> set (identity_rows k db) \<longleftrightarrow> row_past db k (rr_version row) = Some row"
proof -
  have "row \<in> set (identity_rows k db) \<longleftrightarrow> (\<exists>v. ((k, v), row) \<in> set (resource_versions db))"
    by (force simp: identity_rows_def)
  also have "\<dots> \<longleftrightarrow> ((k, rr_version row), row) \<in> set (resource_versions db)"
    using versions_filedD(2) [OF assms] by (metis (no_types, lifting))
  finally show ?thesis
    using dget_distinct_iff [OF versions_filedD(1) [OF assms]] by (simp add: row_past_def)
qed

lemma identity_rows_distinct:
  assumes "versions_filed db"
  shows "distinct (map rr_version (identity_rows k db))"
proof -
  let ?es = "filter (\<lambda>((key, version), row). key = k) (resource_versions db)"
  have "distinct (dkeys ?es)"
    using assms unfolding versions_filed_def by (blast intro: distinct_map_filter_intro)
  moreover have "map rr_version (map snd ?es) = map snd (dkeys ?es)"
    using assms by (auto simp: versions_filed_def)
  moreover have "inj_on snd (set (dkeys ?es))"
    by (rule inj_onI) auto
  ultimately have "distinct (map rr_version (map snd ?es))"
    by (simp only: distinct_map [of snd "dkeys ?es"])
  then show ?thesis by (simp only: identity_rows_def)
qed

lemma identity_rows_sorted:
  assumes filed: "versions_filed db" and ex: "\<And>v. row_past db k v \<noteq> None \<longleftrightarrow> 1 \<le> v \<and> v \<le> n"
  shows "map rr_version (sort_key rr_version (identity_rows k db)) = [1..n]"
proof (rule sorted_distinct_set_unique)
  have "set (map rr_version (identity_rows k db)) = {1..n}"
  proof
    show "set (map rr_version (identity_rows k db)) \<subseteq> {1..n}"
    proof
      fix v assume "v \<in> set (map rr_version (identity_rows k db))"
      then obtain row where "row \<in> set (identity_rows k db)" "v = rr_version row" by auto
      then show "v \<in> {1..n}" using identity_rows_mem [OF filed, of row k] ex [of v] by simp
    qed
    show "{1..n} \<subseteq> set (map rr_version (identity_rows k db))"
    proof
      fix v assume "v \<in> {1..n}"
      then obtain row where row: "row_past db k v = Some row" using ex [of v] by auto
      have "rr_version row = v"
        by (rule versions_filedD(2) [OF filed dget_entry [OF row [unfolded row_past_def]]])
      with row identity_rows_mem [OF filed, of row k] show "v \<in> set (map rr_version (identity_rows k db))" by force
    qed
  qed
  then show "set (map rr_version (sort_key rr_version (identity_rows k db))) = set [1..n]" by simp
  show "distinct (map rr_version (sort_key rr_version (identity_rows k db)))"
    using identity_rows_distinct [OF filed] by (simp add: distinct_map inj_on_def)
qed simp_all

lemma resource_history_eq:
  "valid_tenant t \<Longrightarrow> resource_history_pg px kind i t db =
     Inr (map (row_resource kind i t) (sort_key rr_version (identity_rows (t, kind, i) db)))"
  by (simp add: resource_history_pg_def tenant_connection_fst identity_rows_def)

lemma resource_version_eq:
  assumes "versions_filed db" "valid_tenant t" "row_past db (t, kind, i) v = Some row"
  shows "resource_version_pg px kind i t v db = Inr (row_resource kind i t row)"
proof -
  have "rr_version row = v"
    by (rule versions_filedD(2) [OF assms(1) dget_entry [OF assms(3) [unfolded row_past_def]]])
  then have "row\<lparr>rr_version := v\<rparr> = row" by simp
  with assms show ?thesis
    by (simp add: resource_version_pg_def tenant_connection_fst row_past_def)
qed

lemma resource_get_ok:
  assumes "resource_get_pg px kind i t db = Inr r"
  obtains row where "valid_tenant t" "dget (resources db) (t, kind, i) = Some row" "r = row_resource kind i t row"
  using assms
  by (auto simp: resource_get_pg_def tenant_connection_def connection_def valid_tenant_def split: if_splits option.splits)

section \<open>Properties\<close>

text \<open>
  C6: Histories are complete. In every database that puts lead to, a resource that \<open>get\<close> finds at
  version n has exactly the versions 1 to n: \<open>history\<close> returns one entry for each, in order, the last
  of them is what \<open>get\<close> returns, and \<open>get_version\<close> returns for each of them that entry, for ever: no
  later put changes it.
\<close>
theorem resource_history_complete:
  assumes px: "pool_contract px" and reach: "(store_step px sha256 jsonb ttl clock)\<^sup>*\<^sup>* store_db_init db"
    and get: "resource_get_pg px kind i t db = Inr r" and later: "(store_step px sha256 jsonb ttl clock)\<^sup>*\<^sup>* db db'"
  shows "\<exists>rs. resource_history_pg px kind i t db = Inr rs \<and> map sr_version rs = [1..sr_version r] \<and> last rs = r \<and>
    (\<forall>x \<in> set rs. resource_version_pg px kind i t (sr_version x) db' = Inr x)"
proof -
  obtain row where t: "valid_tenant t" and row: "dget (resources db) (t, kind, i) = Some row" "r = row_resource kind i t row"
    by (rule resource_get_ok [OF get])
  have filed: "versions_filed db" "versions_filed db'"
    using versions_filed_reachable [OF px] reach rtranclp_trans [OF reach later] by blast+
  have cur: "row_current db (t, kind, i) = Some (rr_version row, row)" using row by (simp add: row_current_def)
  note v = pg_resources.row_version [OF pg_resourcesI [OF px] reach cur]
  let ?rows = "sort_key rr_version (identity_rows (t, kind, i) db)"
  have sorted: "map rr_version ?rows = [1..rr_version row]"
    by (rule identity_rows_sorted [OF filed(1) v(3)])
  have mem: "row_past db (t, kind, i) (rr_version q) = Some q" if "q \<in> set ?rows" for q
    using that identity_rows_mem [OF filed(1), of q] by simp
  have ne: "?rows \<noteq> []" using sorted v(1) by force
  have "rr_version (last ?rows) = rr_version row"
  proof -
    have "rr_version (last ?rows) = last (map rr_version ?rows)" by (simp only: last_map [OF ne])
    also have "\<dots> = last [1..rr_version row]" by (simp only: sorted)
    also have "\<dots> = rr_version row" by (simp only: upto_rec2 [OF v(1)] last_snoc)
    finally show ?thesis .
  qed
  with mem [OF last_in_set [OF ne]] have "row_past db (t, kind, i) (rr_version row) = Some (last ?rows)" by (simp only:)
  with v(2) have last: "last ?rows = row" by (simp only: option.inject)
  have complete: "complete_history (row_current db) (row_past db)"
    by (rule pg_resources.row_complete [OF pg_resourcesI [OF px] reach])
  have "resource_version_pg px kind i t (sr_version x) db' = Inr x" if "x \<in> set (map (row_resource kind i t) ?rows)" for x
  proof -
    from that obtain q where q: "q \<in> set ?rows" "x = row_resource kind i t q" by auto
    have "row_past db' (t, kind, i) (rr_version q) = Some q"
      by (rule pg_resources.row_immutable [OF pg_resourcesI [OF px] later complete mem [OF q(1)]])
    from resource_version_eq [OF filed(2) t this] q show ?thesis by (simp add: row_resource_def)
  qed
  then show ?thesis
    using resource_history_eq [OF t] sorted last ne row(2)
    by (intro exI [of _ "map (row_resource kind i t) ?rows"]) (simp add: last_map comp_def row_resource_def)
qed

definition put_example :: "string option \<Rightarrow> string \<Rightarrow> store_db \<Rightarrow> stored_resource result \<times> store_db" where
  "put_example if_match key db =
     resource_put_pg commit_or_rollback (\<lambda>s. s) (\<lambda>v. v) 100 0 0 ''site'' ''site-1'' ''t1'' [(''name'', PStr ''north'')] key if_match db"

definition put_example_db :: store_db where
  "put_example_db = snd (put_example None ''key-0001'' store_db_init)"

lemma put_example_reachable:
  "clock 0 \<Longrightarrow> (store_step commit_or_rollback (\<lambda>s. s) (\<lambda>v. v) 100 clock)\<^sup>*\<^sup>* store_db_init put_example_db"
  unfolding put_example_db_def put_example_def
  by (rule r_into_rtranclp, rule store_step.put [OF _ prod.collapse [symmetric]])

definition example_resource :: stored_resource where
  "example_resource = \<lparr>sr_kind = ''site'', sr_id = ''site-1'', sr_tenant_id = ''t1'', sr_version = 1,
     sr_etag = etag_text ''t1'' ''site'' 1 [(''name'', PStr ''north''), (''id'', PStr ''site-1'')],
     sr_body = [(''name'', PStr ''north''), (''id'', PStr ''site-1'')]\<rparr>"

lemma put_example_run: "put_example None ''key-0001'' store_db_init = (Inr example_resource, put_example_db)"
  by (simp add: put_example_db_def put_example_def example_resource_def resource_put_pg_def resource_put_body_def
      store_db_init_def live_records_def etag_conflict_def normalized_def stored_def tenant_connection_def connection_def
      commit_or_rollback_def Let_def)

lemma put_example_rows:
  "dget (resources put_example_db) (''t1'', ''site'', ''site-1'') =
     Some \<lparr>rr_version = 1, rr_etag = sr_etag example_resource, rr_body = sr_body example_resource\<rparr>"
  by (simp add: put_example_db_def put_example_def example_resource_def resource_put_pg_def resource_put_body_def
      store_db_init_def live_records_def etag_conflict_def normalized_def stored_def tenant_connection_def connection_def
      commit_or_rollback_def Let_def)

lemma example_get: "resource_get_pg commit_or_rollback ''site'' ''site-1'' ''t1'' put_example_db = Inr example_resource"
proof -
  have t: "valid_tenant ''t1''" by (simp add: valid_tenant_def)
  show ?thesis
    by (simp add: resource_get_pg_def tenant_connection_fst [OF t] put_example_rows row_resource_def example_resource_def)
qed

theorem resource_history_complete_witness:
  "resource_history_pg commit_or_rollback ''site'' ''site-1'' ''t1'' put_example_db = Inr [example_resource]"
proof -
  obtain rs where rs: "resource_history_pg commit_or_rollback ''site'' ''site-1'' ''t1'' put_example_db = Inr rs"
    "map sr_version rs = [1..sr_version example_resource]" "last rs = example_resource"
    using resource_history_complete [OF commit_or_rollback_contract put_example_reachable [of "\<lambda>_. True"] example_get
        rtranclp.rtrancl_refl] by auto
  then have "map sr_version rs = [1]" by (simp add: example_resource_def)
  then have "rs = [last rs]" by (cases rs) auto
  with rs show ?thesis by simp
qed

text \<open>
  C15: Writes are compare-and-swap, and reads return what was written. With a key that is not a replay,
  a put creates version 1 when there is no such resource; otherwise it succeeds exactly when
  \<open>If-Match\<close> is the ETag of the current version, and then makes the next version. A refused put
  changes nothing. After a successful one, \<open>get\<close> returns the resource with the new body and no other
  resource of any tenant has changed.
\<close>
theorem put_compare_and_swap:
  assumes px: "pool_contract px" and reach: "(store_step px sha256 jsonb ttl clock)\<^sup>*\<^sup>* store_db_init db"
    and t: "valid_tenant t" and first: "dget (live_records (t, key) db_now db) (t, key) = None"
    and run: "resource_put_pg px sha256 jsonb ttl db_now now kind i t body key if_match db = (r, db')"
  shows "(r = Inl (RuntimeError ''If-Match optimistic concurrency conflict'') \<and> db' = db \<longleftrightarrow>
      (\<exists>row. dget (resources db) (t, kind, i) = Some row \<and> if_match \<noteq> Some (rr_etag row))) \<and>
    ((\<exists>x. r = Inr x) \<longleftrightarrow> (\<forall>row. dget (resources db) (t, kind, i) = Some row \<longrightarrow> if_match = Some (rr_etag row))) \<and>
    (\<forall>x. r = Inr x \<longrightarrow>
      sr_version x = (case dget (resources db) (t, kind, i) of None \<Rightarrow> 1 | Some row \<Rightarrow> rr_version row + 1) \<and>
      sr_body x = normalized body i \<and>
      resource_get_pg px kind i t db' = Inr (x\<lparr>sr_body := stored jsonb (sr_body x)\<rparr>) \<and>
      (\<forall>k. k \<noteq> (t, kind, i) \<longrightarrow> dget (resources db') k = dget (resources db) k))"
proof -
  let ?k = "(t, kind, i)"
  let ?v = "next_version_of (row_current db ?k)"
  have free: "dget (resource_versions db) (?k, ?v) = None"
  proof (cases "row_current db ?k")
    case None
    then show ?thesis
      using pg_resources.row_complete [OF pg_resourcesI [OF px] reach, unfolded complete_history_def, rule_format, of ?k]
      by (simp add: row_past_def)
  next
    case (Some p)
    then obtain n row where p: "row_current db ?k = Some (n, row)" by (cases p) auto
    have "\<not> row_past db ?k (n + 1) \<noteq> None"
      using pg_resources.row_version(3) [OF pg_resourcesI [OF px] reach p, of "n + 1"] by simp
    with p show ?thesis by (simp add: row_past_def)
  qed
  have v: "?v = (case dget (resources db) ?k of None \<Rightarrow> 1 | Some row \<Rightarrow> rr_version row + 1)"
    by (auto simp: row_current_def split: option.splits)
  show ?thesis
  proof (cases "etag_conflict (map_option rr_etag (dget (resources db) ?k)) if_match")
    case True
    then have "resource_put_pg px sha256 jsonb ttl db_now now kind i t body key if_match db =
        (Inl (RuntimeError ''If-Match optimistic concurrency conflict''), db)"
      using first by (simp add: resource_put_pg_def tenant_connection_eq [OF px t] resource_put_body_def Let_def)
    with run True show ?thesis by (auto simp: etag_conflict_def split: option.splits)
  next
    case False
    have ok: "\<exists>x. r = Inr x"
      using run first False free
      by (auto simp: resource_put_pg_def tenant_connection_eq [OF px t] resource_put_body_def Let_def v split: option.splits)
    have cond: "\<forall>row. dget (resources db) ?k = Some row \<longrightarrow> if_match = Some (rr_etag row)"
      using False by (auto simp: etag_conflict_def)
    have "sr_version x = ?v \<and> sr_body x = normalized body i \<and>
      resource_get_pg px kind i t db' = Inr (x\<lparr>sr_body := stored jsonb (sr_body x)\<rparr>) \<and>
      (\<forall>k. k \<noteq> ?k \<longrightarrow> dget (resources db') k = dget (resources db) k)" if x: "r = Inr x" for x
      using x first
      by (cases rule: pg_put_cases [OF px run])
        (auto simp: resource_get_pg_def tenant_connection_fst row_resource_def)
    with ok cond v show ?thesis by auto
  qed
qed

theorem put_compare_and_swap_witness:
  "fst (put_example None ''key-0002'' put_example_db) = Inl (RuntimeError ''If-Match optimistic concurrency conflict'') \<and>
   (\<exists>x db'. put_example (Some (sr_etag example_resource)) ''key-0002'' put_example_db = (Inr x, db') \<and> sr_version x = 2)"
proof -
  have t: "valid_tenant ''t1''" by (simp add: valid_tenant_def)
  have first: "dget (live_records (''t1'', ''key-0002'') 0 put_example_db) (''t1'', ''key-0002'') = None"
    by (simp add: put_example_db_def put_example_def resource_put_pg_def resource_put_body_def store_db_init_def
        live_records_def etag_conflict_def tenant_connection_def connection_def commit_or_rollback_def Let_def)
  note cas = put_compare_and_swap [OF commit_or_rollback_contract put_example_reachable [of "\<lambda>_. True"] t first prod.collapse [symmetric]]
  have "fst (put_example None ''key-0002'' put_example_db) = Inl (RuntimeError ''If-Match optimistic concurrency conflict'')"
    using cas [of 0 "''site''" "''site-1''" "[(''name'', PStr ''north'')]" None] put_example_rows
    unfolding put_example_def [of None "''key-0002''"] by auto
  moreover have "\<exists>x. fst (put_example (Some (sr_etag example_resource)) ''key-0002'' put_example_db) = Inr x \<and> sr_version x = 2"
    using cas [of 0 "''site''" "''site-1''" "[(''name'', PStr ''north'')]" "Some (sr_etag example_resource)"] put_example_rows
    unfolding put_example_def [of _ "''key-0002''"] by auto
  ultimately show ?thesis by (metis prod.collapse)
qed

section \<open>Replays\<close>

definition jsonb_contract :: "(pyval \<Rightarrow> pyval) \<Rightarrow> bool" where
  \<comment> \<open>a \<open>jsonb\<close> column keeps strings, integers, nulls, the order of arrays and the members of an object,
    not their order\<close>
  "jsonb_contract jsonb \<longleftrightarrow>
     (\<forall>s. jsonb (PStr s) = PStr s) \<and> (\<forall>n. jsonb (PInt n) = PInt n) \<and> jsonb PNone = PNone \<and>
     (\<forall>vs. jsonb (PList vs) = PList (map jsonb vs)) \<and>
     (\<forall>kvs. \<exists>kvs'. jsonb (PDict kvs) = PDict kvs' \<and> (\<forall>k. dget kvs' k = map_option jsonb (dget kvs k)))"

lemma jsonb_id_contract: "jsonb_contract (\<lambda>v. v)"
  by (simp add: jsonb_contract_def option.map_ident)

lemma jsonb_dict:
  assumes "jsonb_contract jsonb"
  shows "jsonb (PDict kvs) = PDict (stored jsonb kvs)" "dget (stored jsonb kvs) k = map_option jsonb (dget kvs k)"
proof -
  obtain kvs' where "jsonb (PDict kvs) = PDict kvs'" "\<forall>k. dget kvs' k = map_option jsonb (dget kvs k)"
    using assms unfolding jsonb_contract_def by blast
  then show "jsonb (PDict kvs) = PDict (stored jsonb kvs)" "dget (stored jsonb kvs) k = map_option jsonb (dget kvs k)"
    by (simp_all add: stored_def)
qed

lemma jsonb_scalar:
  assumes "jsonb_contract jsonb"
  shows "jsonb (PStr s) = PStr s" "jsonb (PInt n) = PInt n" "jsonb PNone = PNone" "jsonb (PList vs) = PList (map jsonb vs)"
  using assms unfolding jsonb_contract_def by blast+

lemma from_stored_response:
  assumes "jsonb_contract jsonb"
  shows "from_response (stored jsonb (response_of r)) = Inr (r\<lparr>sr_body := stored jsonb (sr_body r)\<rparr>)"
proof -
  have "jsonb (PStr s) = PStr s" "jsonb (PInt n) = PInt n" for s n
    using assms by (simp_all add: jsonb_contract_def)
  then show ?thesis
    by (simp add: from_response_def py_item_def jsonb_dict [OF assms] response_of_def dict_of_value_def)
qed

lemma dget_filter_keep: "dget d k = Some v \<Longrightarrow> P (k, v) \<Longrightarrow> dget (filter P d) k = Some v"
  by (induction d) (auto split: if_splits)

lemma replay_kept_step:
  assumes px: "pool_contract px" and step: "store_step px sha256 jsonb ttl clock s u"
    and clock: "\<And>c. clock c \<Longrightarrow> c < ir_expires_at rec" and rec: "dget (idempotency_records s) slot = Some rec"
  shows "dget (idempotency_records u) slot = Some rec"
  using step
proof cases
  case (put db_now now kind i t body key if_match r)
  have kept: "dget (live_records (t, key) db_now s) slot = Some rec"
    unfolding live_records_def using rec clock [OF put(1)] by (intro dget_filter_keep) auto
  show ?thesis
    by (cases rule: pg_put_cases [OF px put(2)]) (use rec kept in auto)
qed

lemma replay_kept:
  assumes px: "pool_contract px" and steps: "(store_step px sha256 jsonb ttl clock)\<^sup>*\<^sup>* s u"
    and clock: "\<And>c. clock c \<Longrightarrow> c < ir_expires_at rec" and rec: "dget (idempotency_records s) slot = Some rec"
  shows "dget (idempotency_records u) slot = Some rec"
  using steps
proof (induction rule: rtranclp_induct)
  case (step y z)
  show ?case by (rule replay_kept_step [OF px step(2) clock step(3)])
qed (rule rec)

lemma put_again:
  assumes px: "pool_contract px" and jsonb: "jsonb_contract jsonb"
    and first: "dget (live_records (t, key) db_now db) (t, key) = None"
    and run: "resource_put_pg px sha256 jsonb ttl db_now now kind i t body key if_match db = (Inr x, db1)"
    and steps: "(store_step px sha256 jsonb ttl (\<lambda>c. c < now + ttl))\<^sup>*\<^sup>* db1 db2" and live: "later < now + ttl"
    and again: "resource_put_pg px sha256 jsonb ttl later now' kind' i' t body' key if_match' db2 = (r, db3)"
  shows "(kind' = kind \<and> i' = i \<and> body' = body \<longrightarrow> r = Inr (x\<lparr>sr_body := stored jsonb (sr_body x)\<rparr>)) \<and>
    (sha256 (request_text kind' i' (normalized body' i')) \<noteq> sha256 (request_text kind i (normalized body i)) \<longrightarrow>
      r = Inl (ValueError ''idempotency key reused with different request'')) \<and>
    resources db3 = resources db2 \<and> resource_versions db3 = resource_versions db2"
proof -
  have "\<exists>rec. dget (idempotency_records db1) (t, key) = Some rec \<and> ir_expires_at rec = now + ttl \<and>
      ir_request_hash rec = sha256 (request_text kind i (normalized body i)) \<and>
      ir_response_body rec = stored jsonb (response_of x) \<and> valid_tenant t"
    using first by (cases rule: pg_put_cases [OF px run]) auto
  then obtain rec where rec: "dget (idempotency_records db1) (t, key) = Some rec" "ir_expires_at rec = now + ttl"
    "ir_request_hash rec = sha256 (request_text kind i (normalized body i))"
    "ir_response_body rec = stored jsonb (response_of x)" and t: "valid_tenant t" by blast
  have "dget (idempotency_records db2) (t, key) = Some rec"
    by (rule replay_kept [OF px steps _ rec(1)]) (simp add: rec(2))
  then have found: "dget (live_records (t, key) later db2) (t, key) = Some rec"
    unfolding live_records_def using live rec(2) by (intro dget_filter_keep) auto
  show ?thesis
    using again found rec(3,4) from_stored_response [OF jsonb, of x]
    by (auto simp: resource_put_pg_def tenant_connection_eq [OF px t] resource_put_body_def Let_def split: if_splits sum.splits)
qed

text \<open>
  Further: A retried put is answered from the record of the first. Suppose \<open>jsonb\<close> columns keep the members
  of documents. Once a put under a key has succeeded, then after any further puts by anyone, until
  the record expires (\<open>idempotency_ttl\<close> after the put), the same request under that key returns the
  same resource, whatever \<open>If-Match\<close> it now carries and whatever has become of the resource since, and
  writes nothing; another request under that key is refused unless the two texts collide under SHA-256.
\<close>
theorem put_replayed:
  assumes px: "pool_contract px" and jsonb: "jsonb_contract jsonb"
    and first: "dget (live_records (t, key) db_now db) (t, key) = None"
    and run: "resource_put_pg px sha256 jsonb ttl db_now now kind i t body key if_match db = (Inr x, db1)"
    and steps: "(store_step px sha256 jsonb ttl (\<lambda>c. c < now + ttl))\<^sup>*\<^sup>* db1 db2" and live: "later < now + ttl"
    and again: "resource_put_pg px sha256 jsonb ttl later now' kind' i' t body' key if_match' db2 = (r, db3)"
  shows "(kind' = kind \<and> i' = i \<and> body' = body \<longrightarrow> r = Inr (x\<lparr>sr_body := stored jsonb (sr_body x)\<rparr>)) \<and>
    (sha256 (request_text kind' i' (normalized body' i')) \<noteq> sha256 (request_text kind i (normalized body i)) \<longrightarrow>
      r = Inl (ValueError ''idempotency key reused with different request'')) \<and>
    resources db3 = resources db2 \<and> resource_versions db3 = resource_versions db2"
  by (rule put_again [OF assms])

theorem put_replayed_witness:
  "put_example (Some ''stale'') ''key-0001'' put_example_db = (Inr example_resource, put_example_db)"
proof -
  have first: "dget (live_records (''t1'', ''key-0001'') 0 store_db_init) (''t1'', ''key-0001'') = None"
    by (simp add: live_records_def store_db_init_def)
  note run = put_example_run [unfolded put_example_def]
  let ?again = "put_example (Some ''stale'') ''key-0001'' put_example_db"
  have live: "0 < (0 :: instant) + 100" by simp
  have "fst ?again = Inr example_resource"
    using put_replayed [OF commit_or_rollback_contract jsonb_id_contract first run rtranclp.rtrancl_refl live prod.collapse [symmetric],
        where now' = 0 and kind' = "''site''" and i' = "''site-1''" and body' = "[(''name'', PStr ''north'')]"
          and if_match' = "Some ''stale''"]
    unfolding put_example_def [of _ "''key-0001''"] by (simp add: stored_def)
  moreover have "snd ?again = put_example_db"
    by (simp add: put_example_db_def put_example_def resource_put_pg_def resource_put_body_def store_db_init_def
        live_records_def etag_conflict_def tenant_connection_def connection_def commit_or_rollback_def Let_def
        from_response_def py_item_def stored_def response_of_def dict_of_value_def)
  ultimately show ?thesis by (simp add: prod_eq_iff)
qed

text \<open>
  Further: The store in memory keeps the same contract: the current version of a resource is the last of
  its versions 1 to n, and no version changes.
\<close>
theorem memory_versions_complete:
  assumes "(resource_step sha256)\<^sup>*\<^sup>* resource_store_init st" and "resource_get kind i t st = Inr r"
  shows "1 \<le> sr_version r \<and> resource_version kind i t (sr_version r) st = Inr r \<and>
    (is_ok (resource_version kind i t v st) \<longleftrightarrow> 1 \<le> v \<and> v \<le> sr_version r)"
proof -
  have cur: "memory_current st (t, kind, i) = Some (sr_version r, r)"
    using assms(2) by (auto simp: resource_get_def key_of_def memory_current_def split: option.splits)
  have eq: "is_ok (resource_version kind i t v st) \<longleftrightarrow> memory_past st (t, kind, i) v \<noteq> None"
    by (auto simp: resource_version_def key_of_def memory_past_def split: option.splits)
  show ?thesis
    using memory_store.current_version [OF assms(1) cur] eq
    by (auto simp: resource_version_def key_of_def memory_past_def)
qed

end
