(* ===== verification/Serialization.thy ===== *)
theory Serialization
  imports Optimization Datetimes
begin

text \<open>
  \<open>packages/scheduling/serialization.py\<close>: schedule inputs and plans from JSON documents, and the
  document of a plan (\<open>dataclasses.asdict\<close> written as JSON with \<open>default=str\<close>), with which the
  controller and the API store plans.

  Arguments are evaluated in the order of the source, so that a document with several faults raises
  what Python raises. \<open>str_decimal\<close>, the text of a decimal, is a parameter. A \<open>gpu_model\<close> that is not
  text and a \<open>max_latency_ms\<close> that is not an integer are outside of the model.
\<close>

section \<open>Reading documents\<close>

definition subscript :: "pyval \<Rightarrow> string \<Rightarrow> pyval result" where
  \<comment> \<open>\<open>value[key]\<close>\<close>
  "subscript v k =
     (case v of
        PDict kvs \<Rightarrow> py_item kvs k
      | PList _ \<Rightarrow> Inl (TypeError ''list indices must be integers or slices, not str'')
      | PStr _ \<Rightarrow> Inl (TypeError ''string indices must be integers'')
      | _ \<Rightarrow> Inl (TypeError ''object is not subscriptable''))"

definition value_get :: "pyval \<Rightarrow> string \<Rightarrow> pyval \<Rightarrow> pyval" where
  \<comment> \<open>\<open>value.get(key, default)\<close> of a dictionary\<close>
  "value_get v k d = (case v of PDict kvs \<Rightarrow> dget_or kvs k d | _ \<Rightarrow> d)"

definition read_decimal :: "pyval \<Rightarrow> decimal result" where
  \<comment> \<open>\<open>Decimal(str(value))\<close>\<close>
  "read_decimal v = rbind (decimal_of_value v) finite_decimal"

definition read_strings :: "pyval \<Rightarrow> string list result" where
  "read_strings v = rbind (py_iter v) (\<lambda>vs. Inr (map py_str vs))"

definition read_datetime :: "pyval \<Rightarrow> datetime result" where
  "read_datetime v = fromisoformat (py_str v)"

definition optional_text :: "pyval \<Rightarrow> string option result" where
  "optional_text v = (case v of PNone \<Rightarrow> Inr None | PStr s \<Rightarrow> Inr (Some s) | _ \<Rightarrow> Inl (TypeError ''text expected''))"

definition optional_int :: "pyval \<Rightarrow> int option result" where
  "optional_int v = (case v of PNone \<Rightarrow> Inr None | PInt n \<Rightarrow> Inr (Some n) | _ \<Rightarrow> Inl (TypeError ''integer expected''))"

definition optional_decimal :: "pyval \<Rightarrow> decimal option result" where
  "optional_decimal v = (case v of PNone \<Rightarrow> Inr None | _ \<Rightarrow> rbind (read_decimal v) (\<lambda>d. Inr (Some d)))"

fun workload_text :: "workload_class \<Rightarrow> string" where
  "workload_text TRAINING = ''training''"
| "workload_text FINE_TUNING = ''fine_tuning''"
| "workload_text RL = ''rl''"
| "workload_text BATCH_INFERENCE = ''batch_inference''"
| "workload_text ONLINE_INFERENCE = ''online_inference''"
| "workload_text PREPROCESSING = ''preprocessing''"
| "workload_text EVALUATION = ''evaluation''"

definition parse_workload :: "pyval \<Rightarrow> workload_class result" where
  "parse_workload v =
     (case find (\<lambda>w. v = PStr (workload_text w))
             [TRAINING, FINE_TUNING, RL, BATCH_INFERENCE, ONLINE_INFERENCE, PREPROCESSING, EVALUATION] of
        Some w \<Rightarrow> Inr w
      | None \<Rightarrow> Inl (ValueError (py_repr v @ '' is not a valid WorkloadClass'')))"

section \<open>Schedule inputs\<close>

definition parse_request :: "pyval \<Rightarrow> resource_request result" where
  "parse_request request =
     rbind (rbind (subscript request ''gpu_count'') py_int) (\<lambda>gpu_count.
     rbind (optional_text (value_get request ''gpu_model'' PNone)) (\<lambda>gpu_model.
     rbind (py_int (value_get request ''cpu_cores'' (PInt 0))) (\<lambda>cpu_cores.
     rbind (read_decimal (value_get request ''memory_gb'' (PInt 0))) (\<lambda>memory_gb.
     rbind (rbind (subscript request ''estimated_hours'') read_decimal) (\<lambda>estimated_hours.
     rbind (rbind (subscript request ''power_kw_per_gpu'') read_decimal) (\<lambda>power_kw_per_gpu.
       let r = \<lparr>rr_gpu_count = gpu_count, rr_gpu_model = gpu_model, rr_cpu_cores = cpu_cores, rr_memory_gb = memory_gb,
                rr_estimated_hours = estimated_hours, rr_power_kw_per_gpu = power_kw_per_gpu\<rparr>
       in rbind (check_resource_request r) (\<lambda>_. Inr r)))))))"

definition parse_sla :: "pyval \<Rightarrow> sla result" where
  "parse_sla v =
     rbind (rbind (subscript v ''deadline'') read_datetime) (\<lambda>deadline.
     rbind (py_int (value_get v ''priority'' (PInt 50))) (\<lambda>priority.
     rbind (optional_int (value_get v ''max_latency_ms'' PNone)) (\<lambda>max_latency_ms.
     rbind (optional_decimal (value_get v ''availability_target'' PNone)) (\<lambda>availability_target.
       let s = \<lparr>sla_deadline = deadline, sla_priority = priority, sla_max_latency_ms = max_latency_ms,
                sla_availability_target = availability_target\<rparr>
       in rbind (check_sla s) (\<lambda>_. Inr s)))))"

definition parse_job :: "pyval \<Rightarrow> string \<Rightarrow> job result" where
  "parse_job data tenant_id =
     rbind (subscript data ''request'') (\<lambda>request.
     rbind (subscript data ''sla'') (\<lambda>sla.
     rbind (subscript data ''id'') (\<lambda>id.
     rbind (subscript data ''project_id'') (\<lambda>project_id.
     rbind (rbind (subscript data ''workload_class'') parse_workload) (\<lambda>workload.
     rbind (parse_request request) (\<lambda>request.
     rbind (parse_sla sla) (\<lambda>sla.
     rbind (rbind (subscript data ''submitted_at'') read_datetime) (\<lambda>submitted_at.
     rbind (read_strings (value_get data ''allowed_sites'' (PList []))) (\<lambda>allowed_sites.
     rbind (read_strings (value_get data ''data_regions'' (PList []))) (\<lambda>data_regions.
     rbind (read_strings (value_get data ''dependencies'' (PList []))) (\<lambda>dependencies.
     rbind (case value_get data ''labels'' (PDict []) of
              PDict kvs \<Rightarrow> Inr kvs | _ \<Rightarrow> Inl (TypeError ''labels must be an object'')) (\<lambda>labels.
       Inr \<lparr>jb_id = py_str id, jb_tenant_id = tenant_id, jb_project_id = py_str project_id, jb_workload_class = workload,
            jb_request = request, jb_sla = sla, jb_submitted_at = submitted_at, jb_allowed_sites = set allowed_sites,
            jb_data_regions = set data_regions, jb_dependencies = set dependencies,
            jb_checkpointable = truthy (value_get data ''checkpointable'' (PBool False)),
            jb_labels = map (\<lambda>(k, v). (k, py_str v)) labels\<rparr>))))))))))))"

definition parse_slot :: "pyval \<Rightarrow> time_slot result" where
  "parse_slot v =
     rbind (rbind (subscript v ''index'') py_int) (\<lambda>index.
     rbind (rbind (subscript v ''starts_at'') read_datetime) (\<lambda>starts_at.
     rbind (rbind (subscript v ''duration_hours'') read_decimal) (\<lambda>duration_hours.
     rbind (rbind (subscript v ''gpu_capacity'') py_int) (\<lambda>gpu_capacity.
     rbind (rbind (subscript v ''power_capacity_kw'') read_decimal) (\<lambda>power_capacity_kw.
     rbind (rbind (subscript v ''price_per_kwh'') read_decimal) (\<lambda>price_per_kwh.
     rbind (read_decimal (value_get v ''carbon_kg_per_kwh'' (PInt 0))) (\<lambda>carbon.
       Inr \<lparr>ts_index = index, ts_starts_at = starts_at, ts_duration_hours = duration_hours, ts_gpu_capacity = gpu_capacity,
            ts_power_capacity_kw = power_capacity_kw, ts_price_per_kwh = price_per_kwh, ts_carbon_kg_per_kwh = carbon\<rparr>)))))))"

definition parse_schedule_input :: "json_object \<Rightarrow> string \<Rightarrow> schedule_input result" where
  "parse_schedule_input data tenant_id =
     rbind (rbind (py_item data ''jobs'') py_iter) (\<lambda>js. rbind (rmap_list (\<lambda>v. parse_job v tenant_id) js) (\<lambda>jobs.
     rbind (rbind (py_item data ''slots'') py_iter) (\<lambda>ss. rbind (rmap_list parse_slot ss) (\<lambda>slots.
     rbind (rbind (py_item data ''topology_version'') py_int) (\<lambda>topology_version.
     rbind (py_item data ''forecast_version'') (\<lambda>forecast_version.
       Inr \<lparr>si_jobs = jobs, si_slots = slots, si_topology_version = topology_version,
            si_forecast_version = py_str forecast_version,
            si_baseline_name = py_str (dget_or data ''baseline_name'' (PStr ''none''))\<rparr>))))))"

section \<open>Plans\<close>

definition parse_allocation :: "pyval \<Rightarrow> allocation result" where
  "parse_allocation v =
     rbind (subscript v ''job_id'') (\<lambda>job_id.
     rbind (rbind (subscript v ''slot_indices'') py_iter) (\<lambda>is. rbind (rmap_list py_int is) (\<lambda>slot_indices.
     rbind (rbind (subscript v ''gpu_count'') py_int) (\<lambda>gpu_count.
     rbind (subscript v ''reason_code'') (\<lambda>reason_code.
       Inr \<lparr>al_job_id = py_str job_id, al_slot_indices = slot_indices, al_gpu_count = gpu_count,
            al_reason_code = py_str reason_code\<rparr>)))))"

definition parse_schedule_plan :: "json_object \<Rightarrow> schedule_plan result" where
  "parse_schedule_plan data =
     rbind (py_item data ''strategy'') (\<lambda>strategy.
     rbind (py_iter (dget_or data ''allocations'' (PList []))) (\<lambda>as. rbind (rmap_list parse_allocation as) (\<lambda>allocations.
     rbind (read_strings (dget_or data ''unscheduled'' (PList []))) (\<lambda>unscheduled.
     rbind (rbind (py_item data ''energy_intent_kwh'') read_decimal) (\<lambda>energy.
     rbind (rbind (py_item data ''estimated_cost'') read_decimal) (\<lambda>cost.
     rbind (read_strings (dget_or data ''assumptions'' (PList []))) (\<lambda>assumptions.
     rbind (read_strings (dget_or data ''violations'' (PList []))) (\<lambda>violations.
     rbind (py_item data ''input_hash'') (\<lambda>input_hash.
       Inr \<lparr>sp_strategy = py_str strategy, sp_allocations = allocations, sp_unscheduled = unscheduled,
            sp_energy_intent_kwh = energy, sp_estimated_cost = cost, sp_assumptions = assumptions,
            sp_violations = violations, sp_input_hash = py_str input_hash\<rparr>)))))))))"

definition allocation_json :: "allocation \<Rightarrow> pyval" where
  "allocation_json a =
     PDict [(''job_id'', PStr (al_job_id a)), (''slot_indices'', PList (map PInt (al_slot_indices a))),
            (''gpu_count'', PInt (al_gpu_count a)), (''reason_code'', PStr (al_reason_code a))]"

definition plan_json :: "(decimal \<Rightarrow> string) \<Rightarrow> schedule_plan \<Rightarrow> json_object" where
  "plan_json str_decimal p =
     [(''strategy'', PStr (sp_strategy p)), (''allocations'', PList (map allocation_json (sp_allocations p))),
      (''unscheduled'', PList (map PStr (sp_unscheduled p))),
      (''energy_intent_kwh'', PStr (str_decimal (sp_energy_intent_kwh p))),
      (''estimated_cost'', PStr (str_decimal (sp_estimated_cost p))),
      (''assumptions'', PList (map PStr (sp_assumptions p))), (''violations'', PList (map PStr (sp_violations p))),
      (''input_hash'', PStr (sp_input_hash p))]"

section \<open>Integers from their text\<close>

lemma digit_facts: "is_digit c \<Longrightarrow> \<not> is_space c \<and> c \<noteq> CHR ''_'' \<and> c \<noteq> CHR ''-'' \<and> c \<noteq> CHR ''+''"
  by (auto simp: is_digit_def is_space_def less_eq_char_def)

lemma lstrip_digits: "list_all is_digit s \<Longrightarrow> lstrip s = s"
  by (cases s) (auto simp: lstrip_def dest: digit_facts)

lemma strip_digits: "list_all is_digit s \<Longrightarrow> strip s = s"
  by (simp add: strip_def lstrip_digits)

lemma not_substring_digits: "list_all is_digit s \<Longrightarrow> \<not> is_substring ''__'' s"
proof (induction s)
  case (Cons c s)
  then have "c \<noteq> CHR ''_''" using digit_facts by simp
  with Cons show ?case by simp
qed simp

lemma parse_int_string:
  assumes "0 \<le> n"
  shows "parse_int (string_of_int n) = Inr n"
proof -
  let ?s = "string_of_nat (nat n)"
  have d: "list_all is_digit ?s" using string_of_nat_digits by (auto simp: list_all_iff)
  have ne: "?s \<noteq> []" by (subst string_of_nat.simps) simp
  then obtain c cs where s: "?s = c # cs" by (cases ?s) auto
  have sign: "split_sign ?s = (False, ?s)" using s d digit_facts by simp
  have filter: "filter (\<lambda>c. c \<noteq> CHR ''_'') ?s = ?s"
    using d digit_facts by (auto simp: list_all_iff filter_id_conv)
  have ends: "hd ?s \<noteq> CHR ''_''" "last ?s \<noteq> CHR ''_''"
    using d ne digit_facts by (auto simp: list_all_iff)
  have "parse_int ?s = Inr (digits_value ?s)"
    unfolding parse_int_def strip_digits [OF d] sign Let_def prod.case filter
    using d ne ends not_substring_digits [OF d] by (simp only: simp_thms if_True if_False)
  with assms show ?thesis by (simp add: string_of_int_def)
qed

section \<open>Round trip and typing\<close>

definition readable :: "(decimal \<Rightarrow> string) \<Rightarrow> decimal \<Rightarrow> bool" where
  \<comment> \<open>the text of the decimal is read back as the decimal\<close>
  "readable str_decimal d \<longleftrightarrow> decimal_of_string (str_decimal d) = Inr (Fin d)"

lemma read_decimal_text: "readable str_decimal d \<Longrightarrow> read_decimal (PStr (str_decimal d)) = Inr d"
  by (simp add: read_decimal_def readable_def finite_decimal_def)

lemma read_strings_json [simp]: "read_strings (PList (map PStr ss)) = Inr ss"
  by (simp add: read_strings_def comp_def)

lemma parse_allocation_json [simp]: "parse_allocation (allocation_json a) = Inr a"
  by (simp add: parse_allocation_def allocation_json_def subscript_def py_item_def rmap_list_map_id)

lemma parse_plan_json:
  assumes "readable str_decimal (sp_energy_intent_kwh p)" "readable str_decimal (sp_estimated_cost p)"
  shows "parse_schedule_plan (plan_json str_decimal p) = Inr p"
  by (simp add: parse_schedule_plan_def plan_json_def py_item_def dget_or_def rmap_list_map_id
      read_decimal_text [OF assms(1)] read_decimal_text [OF assms(2)])

lemma parse_job_typed: "parse_job v t = Inr j \<Longrightarrow> valid_job j \<and> jb_tenant_id j = t"
  by (auto simp: parse_job_def parse_request_def parse_sla_def rbind_eq_Inr valid_job_def Let_def)

lemma valid_job_bounds:
  "valid_job j \<Longrightarrow> 0 \<le> rr_gpu_count (jb_request j) \<and> 0 \<le> rr_cpu_cores (jb_request j) \<and>
     0 < rr_estimated_hours (jb_request j) \<and> 0 \<le> sla_priority (jb_sla j) \<and> sla_priority (jb_sla j) \<le> 100"
  by (auto simp: valid_job_def check_resource_request_def check_sla_def split: if_splits)

text \<open>
  C25: A schedule input that is read from a document is well typed, whatever the document is: every job
  belongs to the tenant that the caller gave (a tenant in the document is ignored), has counts that
  are not negative, a positive running time and a priority from 0 to 100; there is one job and one
  slot for each entry of the document.
\<close>
theorem parsed_input_well_typed:
  assumes "parse_schedule_input data t = Inr request"
  shows "(\<forall>j \<in> set (si_jobs request). jb_tenant_id j = t \<and> 0 \<le> rr_gpu_count (jb_request j) \<and> 0 \<le> rr_cpu_cores (jb_request j) \<and>
      0 < rr_estimated_hours (jb_request j) \<and> 0 \<le> sla_priority (jb_sla j) \<and> sla_priority (jb_sla j) \<le> 100) \<and>
    (\<exists>js ss. rbind (py_item data ''jobs'') py_iter = Inr js \<and> rbind (py_item data ''slots'') py_iter = Inr ss \<and>
      length (si_jobs request) = length js \<and> length (si_slots request) = length ss)"
proof -
  obtain js ss where js: "rbind (py_item data ''jobs'') py_iter = Inr js" "rmap_list (\<lambda>v. parse_job v t) js = Inr (si_jobs request)"
    and ss: "rbind (py_item data ''slots'') py_iter = Inr ss" "rmap_list parse_slot ss = Inr (si_slots request)"
    using assms by (auto simp: parse_schedule_input_def rbind_eq_Inr)
  have "valid_job j \<and> jb_tenant_id j = t" if "j \<in> set (si_jobs request)" for j
    using rmap_list_set [OF js(2) that] parse_job_typed by blast
  then have "\<forall>j \<in> set (si_jobs request). jb_tenant_id j = t \<and> 0 \<le> rr_gpu_count (jb_request j) \<and> 0 \<le> rr_cpu_cores (jb_request j) \<and>
      0 < rr_estimated_hours (jb_request j) \<and> 0 \<le> sla_priority (jb_sla j) \<and> sla_priority (jb_sla j) \<le> 100"
    using valid_job_bounds by blast
  then show ?thesis
    using js(1) ss(1) rmap_list_length [OF js(2)] rmap_list_length [OF ss(2)] by auto
qed

definition schedule_document :: json_object where
  "schedule_document =
     [(''jobs'', PList [PDict [(''id'', PStr ''job-1''), (''tenant_id'', PStr ''other''), (''project_id'', PStr ''p1''),
        (''workload_class'', PStr ''training''),
        (''request'', PDict [(''gpu_count'', PInt 2), (''estimated_hours'', PInt 1), (''power_kw_per_gpu'', PInt 1)]),
        (''sla'', PDict [(''deadline'', PStr (isoformat (CHR ''T'') (Aware 0)))]),
        (''submitted_at'', PStr (isoformat (CHR ''T'') (Aware 0)))]]),
      (''slots'', PList []), (''topology_version'', PInt 1), (''forecast_version'', PStr ''f1'')]"

theorem parsed_input_well_typed_witness:
  "\<exists>request. parse_schedule_input schedule_document ''t1'' = Inr request \<and> map jb_tenant_id (si_jobs request) = [''t1'']"
proof -
  have "representable (Aware 0)" by code_simp
  then have "fromisoformat (isoformat (CHR ''T'') (Aware 0)) = Inr (Aware 0)" by (rule fromisoformat_isoformat)
  then have "is_ok (parse_schedule_input schedule_document ''t1'')"
    by (simp add: parse_schedule_input_def schedule_document_def py_item_def parse_job_def subscript_def parse_workload_def
        parse_request_def value_get_def dget_or_def optional_text_def read_decimal_def finite_decimal_def
        check_resource_request_def parse_sla_def read_datetime_def optional_int_def optional_decimal_def check_sla_def
        read_strings_def Let_def del: isoformat.simps)
  then obtain request where request: "parse_schedule_input schedule_document ''t1'' = Inr request" by (auto simp: is_ok_iff)
  from parsed_input_well_typed [OF request]
  have "\<forall>j \<in> set (si_jobs request). jb_tenant_id j = ''t1''" "length (si_jobs request) = 1"
    by (auto simp: schedule_document_def py_item_def simp del: isoformat.simps)
  then have "map jb_tenant_id (si_jobs request) = [''t1'']" by (cases "si_jobs request") auto
  with request show ?thesis by (intro exI [of _ request] conjI)
qed

end
