(* ===== verification/Mpc.thy ===== *)
theory Mpc
  imports Serialization Resource_Store
begin

text \<open>
  \<open>packages/mpc\<close>: the rolling-horizon controller with its state estimator, the horizon partition, the
  stability score, warm starts, the fallback selection, and the repository that keeps a controller
  in the resource store between cycles.

  The optimiser is the one of the theory \<open>Optimization\<close>; its digest, its clock and its run time are
  arguments here as they are there. A controller is the record of its attributes.
\<close>

section \<open>State estimation\<close>

record observed_state =
  os_completed_jobs :: "string set"
  os_running_progress :: "(string, decimal) dict"
  os_available_gpus :: int
  os_battery_soc :: decimal
  os_grid_limit_kw :: decimal
  os_data_quality :: decimal
  os_version :: string

record state_diff =
  sd_removed_jobs :: "string set"
  sd_progress_errors :: "(string, decimal) dict"
  sd_material :: bool

definition progress_error :: "observed_state \<Rightarrow> string \<times> decimal \<Rightarrow> (string \<times> decimal) option" where
  "progress_error observed entry =
     (case entry of (job_id, planned) \<Rightarrow>
        case dget (os_running_progress observed) job_id of
          None \<Rightarrow> None
        | Some progress \<Rightarrow> if \<bar>dsub progress planned\<bar> > 1 / 100 then Some (job_id, dsub progress planned) else None)"

definition reconcile :: "(string, decimal) dict \<Rightarrow> observed_state \<Rightarrow> state_diff" where
  "reconcile planned_progress observed =
     (let removed = set (dkeys planned_progress) - set (dkeys (os_running_progress observed)) - os_completed_jobs observed;
          errors = List.map_filter (progress_error observed) planned_progress
      in \<lparr>sd_removed_jobs = removed, sd_progress_errors = errors, sd_material = (removed \<noteq> {} \<or> errors \<noteq> [])\<rparr>)"

section \<open>The controller\<close>

record mpc_cycle =
  cy_id :: int
  cy_started_at :: datetime
  cy_observed_state :: observed_state
  cy_state_diff :: state_diff
  cy_previous_plan :: "schedule_plan option"
  cy_new_plan :: schedule_plan
  cy_current_allocations :: "allocation list"
  cy_fallback_status :: "string option"
  cy_revision_reasons :: "string list"

record mpc_controller =
  mc_stability_penalty :: decimal
  mc_last_safe :: "schedule_plan option"
  mc_cycles :: "mpc_cycle list"
  mc_cycle_sequence :: int
  mc_executed_slots :: "int set"

definition new_controller :: "decimal \<Rightarrow> mpc_controller" where
  "new_controller stability_penalty =
     \<lparr>mc_stability_penalty = stability_penalty, mc_last_safe = None, mc_cycles = [], mc_cycle_sequence = 0,
      mc_executed_slots = {}\<rparr>"

definition placements :: "schedule_plan \<Rightarrow> (string \<times> int list) set" where
  "placements plan = set (map (\<lambda>a. (al_job_id a, al_slot_indices a)) (sp_allocations plan))"

definition churn :: "schedule_plan \<Rightarrow> schedule_plan \<Rightarrow> decimal result" where
  "churn left right =
     (let l = placements left; r = placements right
      in ddiv (of_nat (card ((l - r) \<union> (r - l)))) (of_nat (max 1 (card (l \<union> r)))))"

definition choose_plan ::
  "optimization_result \<Rightarrow> state_diff \<Rightarrow> schedule_plan option \<Rightarrow>
   (schedule_plan \<times> string option \<times> string list \<times> schedule_plan option) result" where
  \<comment> \<open>the plan, the fallback status, the reasons and the new \<open>_last_safe\<close>\<close>
  "choose_plan res diff previous =
     (case or_plan res of
        None \<Rightarrow>
          (case previous of
             None \<Rightarrow> Inl (RuntimeError ''no feasible plan and no tested fallback'')
           | Some p \<Rightarrow> Inr (p, Some ''last_safe_plan'', or_diagnostics res, previous))
      | Some plan \<Rightarrow>
          rbind (case previous of None \<Rightarrow> Inr 0 | Some p \<Rightarrow> churn p plan) (\<lambda>c.
            case previous of
              Some p \<Rightarrow>
                if c > 1 / 2 \<and> \<not> sd_material diff then Inr (p, Some ''stability_hold'', [''PLAN_CHURN_LIMIT''], previous)
                else Inr (plan, None, [''OPTIMIZATION_RESULT''], Some plan)
            | None \<Rightarrow> Inr (plan, None, [''OPTIMIZATION_RESULT''], Some plan)))"

definition current_slot :: "schedule_input \<Rightarrow> int set \<Rightarrow> int option" where
  "current_slot request executed =
     (let indices = filter (\<lambda>i. i \<notin> executed) (map ts_index (si_slots request))
      in if indices = [] then None else Some (Min (set indices)))"

definition current_allocations :: "schedule_plan \<Rightarrow> int option \<Rightarrow> allocation list" where
  "current_allocations plan current =
     (case current of
        None \<Rightarrow> []
      | Some i \<Rightarrow> map (\<lambda>a. a\<lparr>al_slot_indices := [i]\<rparr>) (filter (\<lambda>a. i \<in> set (al_slot_indices a)) (sp_allocations plan)))"

definition cycle ::
  "(schedule_input \<Rightarrow> string) \<Rightarrow> (nat \<Rightarrow> bool) \<Rightarrow> rat \<Rightarrow> schedule_input \<Rightarrow> observed_state \<Rightarrow> datetime \<Rightarrow> (string, decimal) dict \<Rightarrow>
   mpc_controller \<Rightarrow> mpc_cycle result \<times> mpc_controller" where
  "cycle content_hash expired runtime request observed started_at planned_progress st =
     (if \<exists>slot \<in> set (si_slots request). ts_index slot \<in> mc_executed_slots st
      then (Inl (ValueError ''already executed intervals cannot be rewritten''), st)
      else
        let previous = mc_last_safe st; diff = reconcile planned_progress observed in
        case optimize content_hash expired runtime request of
          Inl e \<Rightarrow> (Inl e, st)
        | Inr solved \<Rightarrow>
            let res = (if os_data_quality observed < 6 / 10
                       then no_plan ''quality_blocked'' ''none'' 1 0 [''LOW_DATA_QUALITY''] else solved) in
            case choose_plan res diff previous of
              Inl e \<Rightarrow> (Inl e, st)
            | Inr (plan, fallback, reasons, last_safe) \<Rightarrow>
                let current = current_slot request (mc_executed_slots st);
                    c = \<lparr>cy_id = mc_cycle_sequence st + 1, cy_started_at = started_at, cy_observed_state = observed,
                         cy_state_diff = diff, cy_previous_plan = previous, cy_new_plan = plan,
                         cy_current_allocations = current_allocations plan current, cy_fallback_status = fallback,
                         cy_revision_reasons = (if sd_material diff then [''OBSERVED_STATE_DIVERGENCE''] else []) @ reasons\<rparr>
                in (Inr c,
                    st\<lparr>mc_last_safe := last_safe,
                       mc_executed_slots := (case current of None \<Rightarrow> mc_executed_slots st | Some i \<Rightarrow> insert i (mc_executed_slots st)),
                       mc_cycle_sequence := mc_cycle_sequence st + 1, mc_cycles := mc_cycles st @ [c]\<rparr>))"

section \<open>Controller documents\<close>

definition export_state :: "(decimal \<Rightarrow> string) \<Rightarrow> mpc_controller \<Rightarrow> json_object" where
  "export_state str_decimal st =
     [(''stability_penalty'', PStr (str_decimal (mc_stability_penalty st))),
      (''last_safe'', case mc_last_safe st of None \<Rightarrow> PNone | Some p \<Rightarrow> PDict (plan_json str_decimal p)),
      (''executed_slots'', PList (map PInt (sorted_list_of_set (mc_executed_slots st)))),
      (''cycle_sequence'', PInt (mc_cycle_sequence st))]"

definition required_strings :: "json_object \<Rightarrow> string \<Rightarrow> string list result" where
  "required_strings data k = rbind (py_item data k) read_strings"

definition plan_from_state :: "json_object \<Rightarrow> schedule_plan result" where
  "plan_from_state plan =
     rbind (py_item plan ''strategy'') (\<lambda>strategy.
     rbind (rbind (py_item plan ''allocations'') py_iter) (\<lambda>as. rbind (rmap_list parse_allocation as) (\<lambda>allocations.
     rbind (required_strings plan ''unscheduled'') (\<lambda>unscheduled.
     rbind (rbind (py_item plan ''energy_intent_kwh'') read_decimal) (\<lambda>energy.
     rbind (rbind (py_item plan ''estimated_cost'') read_decimal) (\<lambda>cost.
     rbind (required_strings plan ''assumptions'') (\<lambda>assumptions.
     rbind (required_strings plan ''violations'') (\<lambda>violations.
     rbind (py_item plan ''input_hash'') (\<lambda>input_hash.
       Inr \<lparr>sp_strategy = py_str strategy, sp_allocations = allocations, sp_unscheduled = unscheduled,
            sp_energy_intent_kwh = energy, sp_estimated_cost = cost, sp_assumptions = assumptions,
            sp_violations = violations, sp_input_hash = py_str input_hash\<rparr>)))))))))"

definition from_state :: "json_object \<Rightarrow> mpc_controller result" where
  "from_state document =
     rbind (read_decimal (dget_or document ''stability_penalty'' (PStr ''0.01''))) (\<lambda>stability_penalty.
     rbind (case dget_or document ''last_safe'' PNone of
              PDict plan \<Rightarrow> rbind (plan_from_state plan) (\<lambda>p. Inr (Some p)) | _ \<Rightarrow> Inr None) (\<lambda>last_safe.
     rbind (py_iter (dget_or document ''executed_slots'' (PList []))) (\<lambda>is. rbind (rmap_list py_int is) (\<lambda>executed.
     rbind (parse_int (py_str (dget_or document ''cycle_sequence'' (PInt 0)))) (\<lambda>sequence.
       Inr \<lparr>mc_stability_penalty = stability_penalty, mc_last_safe = last_safe, mc_cycles = [], mc_cycle_sequence = sequence,
            mc_executed_slots = set executed\<rparr>)))))"

section \<open>Horizon, stability, fallback, warm start\<close>

record horizon_partition =
  hp_locked :: "time_slot list"
  hp_controllable :: "time_slot list"
  hp_forecast_only :: "time_slot list"

definition sort_slots :: "time_slot list \<Rightarrow> time_slot list result" where
  \<comment> \<open>\<open>sorted(slots, key=lambda item: (item.starts_at, item.index))\<close>\<close>
  "sort_slots slots =
     (if \<exists>a \<in> set slots. \<exists>b \<in> set slots. is_aware (ts_starts_at a) \<noteq> is_aware (ts_starts_at b)
      then Inl mixed_comparison
      else Inr (sort_key (\<lambda>s. (dt_value (ts_starts_at s), ts_index s)) slots))"

definition partition_horizon :: "time_slot list \<Rightarrow> int \<Rightarrow> int \<Rightarrow> horizon_partition result" where
  "partition_horizon slots locked_count controllable_count =
     (if locked_count < 0 \<or> controllable_count < 1 then Inl (ValueError ''invalid MPC horizon sizes'')
      else
        rbind (sort_slots slots) (\<lambda>ordered.
          if \<not> distinct (map ts_index ordered) then Inl (ValueError ''MPC horizon contains duplicate slots'')
          else
            let l = nat locked_count; c = nat controllable_count;
                locked = take l ordered; controllable = take c (drop l ordered) in
            if controllable = [] then Inl (ValueError ''MPC horizon has no controllable interval'')
            else Inr \<lparr>hp_locked = locked, hp_controllable = controllable, hp_forecast_only = drop (l + c) ordered\<rparr>))"

record stability_score =
  sc_changed_jobs :: int
  sc_total_jobs :: int
  sc_churn :: decimal
  sc_acceptable :: bool

definition score_stability :: "schedule_plan \<Rightarrow> schedule_plan \<Rightarrow> decimal \<Rightarrow> stability_score result" where
  "score_stability previous candidate maximum_churn =
     (if \<not> (0 \<le> maximum_churn \<and> maximum_churn \<le> 1) then Inl (ValueError ''maximum churn must be in [0,1]'')
      else
        let before = slot_map previous; after = slot_map candidate;
            subjects = set (dkeys before) \<union> set (dkeys after);
            changed = card {job \<in> subjects. dget before job \<noteq> dget after job}
        in rbind (ddiv (of_nat changed) (of_nat (max 1 (card subjects)))) (\<lambda>churn.
             Inr \<lparr>sc_changed_jobs = int changed, sc_total_jobs = int (card subjects), sc_churn = churn,
                  sc_acceptable = (churn \<le> maximum_churn)\<rparr>))"

record fallback_decision =
  fb_mode :: string
  fb_plan :: "schedule_plan option"
  fb_automation_allowed :: bool
  fb_reason :: string

definition select_fallback :: "schedule_plan option \<Rightarrow> bool \<Rightarrow> bool \<Rightarrow> fallback_decision" where
  "select_fallback last_safe_plan data_quality_ok emergency_shedding_allowed =
     (if last_safe_plan \<noteq> None \<and> data_quality_ok
      then \<lparr>fb_mode = ''last_safe'', fb_plan = last_safe_plan, fb_automation_allowed = True, fb_reason = ''solver unavailable''\<rparr>
      else if emergency_shedding_allowed
      then \<lparr>fb_mode = ''emergency_shed'', fb_plan = None, fb_automation_allowed = False, fb_reason = ''manual approval required''\<rparr>
      else \<lparr>fb_mode = ''hold'', fb_plan = None, fb_automation_allowed = False, fb_reason = ''no safe automatic fallback''\<rparr>)"

definition reusable_allocations :: "schedule_plan \<Rightarrow> schedule_input \<Rightarrow> allocation list" where
  "reusable_allocations previous request =
     filter (\<lambda>a. al_job_id a \<in> set (map jb_id (si_jobs request)) \<and>
               set (al_slot_indices a) \<subseteq> set (map ts_index (si_slots request))) (sp_allocations previous)"

section \<open>What a cycle does\<close>

lemma chosen_plan_checked: "chosen_plan content_hash request s as c cs = Inr plan \<Longrightarrow> validate_plan request plan = Inr ()"
  by (auto simp: chosen_plan_def rbind_eq_Inr Let_def)

lemma optimize_plan_validated:
  assumes "optimize content_hash expired runtime request = Inr res" "or_plan res = Some plan"
  shows "validate_plan request plan = Inr ()"
  using assms unfolding optimize_def Let_def rbind_eq_Inr
  by (elim exE conjE)
    (auto simp: no_plan_def rbind_eq_Inr dest: chosen_plan_checked split: if_splits option.splits prod.splits)

definition solved_within :: "observed_state \<Rightarrow> optimization_result \<Rightarrow> optimization_result" where
  "solved_within observed solved =
     (if os_data_quality observed < 6 / 10 then no_plan ''quality_blocked'' ''none'' 1 0 [''LOW_DATA_QUALITY''] else solved)"

lemma cycle_cases:
  assumes "cycle content_hash expired runtime request observed started_at planned st = (r, st')"
  obtains (refused) e where "r = Inl e" "st' = st"
    | (ran) c solved reasons where "r = Inr c" "\<forall>slot \<in> set (si_slots request). ts_index slot \<notin> mc_executed_slots st"
        "optimize content_hash expired runtime request = Inr solved"
        "choose_plan (solved_within observed solved) (reconcile planned observed) (mc_last_safe st) =
           Inr (cy_new_plan c, cy_fallback_status c, reasons, mc_last_safe st')"
        "cy_previous_plan c = mc_last_safe st"
        "cy_current_allocations c = current_allocations (cy_new_plan c) (current_slot request (mc_executed_slots st))"
        "mc_executed_slots st' = (case current_slot request (mc_executed_slots st) of
           None \<Rightarrow> mc_executed_slots st | Some i \<Rightarrow> insert i (mc_executed_slots st))"
        "mc_cycle_sequence st' = mc_cycle_sequence st + 1"
proof (cases r)
  case (Inl e)
  then show ?thesis
    using assms refused by (auto simp: cycle_def Let_def split: if_splits sum.splits prod.splits)
next
  case (Inr c)
  have free: "\<not> (\<exists>slot \<in> set (si_slots request). ts_index slot \<in> mc_executed_slots st)"
    using assms Inr by (auto simp: cycle_def split: if_splits)
  then obtain solved where solved: "optimize content_hash expired runtime request = Inr solved"
    using assms Inr by (cases "optimize content_hash expired runtime request") (auto simp: cycle_def Let_def)
  obtain plan fallback reasons last_safe where choice:
    "choose_plan (solved_within observed solved) (reconcile planned observed) (mc_last_safe st) =
       Inr (plan, fallback, reasons, last_safe)"
    using assms Inr free solved
    by (cases "choose_plan (solved_within observed solved) (reconcile planned observed) (mc_last_safe st)")
      (auto simp: cycle_def Let_def solved_within_def)
  note eq = assms [unfolded cycle_def Let_def if_not_P [OF free] solved sum.case solved_within_def [symmetric] choice prod.case]
  show ?thesis
    using eq Inr choice free by (intro ran [OF Inr _ solved, of reasons]) auto
qed

inductive mpc_step ::
  "(schedule_input \<Rightarrow> string) \<Rightarrow> mpc_controller \<Rightarrow> mpc_controller \<Rightarrow> bool" for content_hash where
  cycle: "cycle content_hash expired runtime request observed started_at planned st = (r, st') \<Longrightarrow> mpc_step content_hash st st'"

definition planned_by_cycle :: "(schedule_input \<Rightarrow> string) \<Rightarrow> decimal \<Rightarrow> mpc_controller \<Rightarrow> schedule_plan \<Rightarrow> bool" where
  \<comment> \<open>a cycle on the way to this state made the plan, from an optimisation that validated it against the request of the cycle\<close>
  "planned_by_cycle content_hash penalty st plan \<longleftrightarrow>
     (\<exists>st0 st1 expired runtime request observed started_at planned c.
        (mpc_step content_hash)\<^sup>*\<^sup>* (new_controller penalty) st0 \<and>
        cycle content_hash expired runtime request observed started_at planned st0 = (Inr c, st1) \<and>
        (mpc_step content_hash)\<^sup>*\<^sup>* st1 st \<and>
        cy_fallback_status c = None \<and> cy_new_plan c = plan \<and> validate_plan request plan = Inr () \<and>
        6 / 10 \<le> os_data_quality observed)"

definition last_safe_ok :: "(schedule_input \<Rightarrow> string) \<Rightarrow> decimal \<Rightarrow> mpc_controller \<Rightarrow> bool" where
  "last_safe_ok content_hash penalty st \<longleftrightarrow> (mpc_step content_hash)\<^sup>*\<^sup>* (new_controller penalty) st \<and>
     (\<forall>p. mc_last_safe st = Some p \<longrightarrow> planned_by_cycle content_hash penalty st p)"

lemma choose_plan_ok:
  assumes "choose_plan res diff previous = Inr (plan, fallback, reasons, last_safe)"
  shows "fallback = None \<longleftrightarrow> last_safe = Some plan \<and> or_plan res = Some plan \<and> reasons = [''OPTIMIZATION_RESULT'']"
    "fallback \<noteq> None \<Longrightarrow> previous = Some plan \<and> last_safe = previous"
  using assms by (auto simp: choose_plan_def rbind_eq_Inr split: option.splits if_splits)

lemma new_plan_validated:
  assumes run: "cycle content_hash expired runtime request observed started_at planned st = (Inr c, st')"
    and new: "cy_fallback_status c = None"
  shows "validate_plan request (cy_new_plan c) = Inr () \<and> mc_last_safe st' = Some (cy_new_plan c) \<and> 6 / 10 \<le> os_data_quality observed"
proof (rule cycle_cases [OF run])
  fix c' solved reasons
  assume c: "Inr c = Inr c'" and solved: "optimize content_hash expired runtime request = Inr solved"
    and choice: "choose_plan (solved_within observed solved) (reconcile planned observed) (mc_last_safe st) =
           Inr (cy_new_plan c', cy_fallback_status c', reasons, mc_last_safe st')"
  have p: "mc_last_safe st' = Some (cy_new_plan c')" "or_plan (solved_within observed solved) = Some (cy_new_plan c')"
    using choose_plan_ok(1) [OF choice] new c by simp_all
  then have "or_plan solved = Some (cy_new_plan c')" "\<not> os_data_quality observed < 6 / 10"
    by (auto simp: solved_within_def no_plan_def split: if_splits)
  with optimize_plan_validated [OF solved] p c show ?thesis by simp
qed simp

lemma fallback_keeps_plan:
  assumes run: "cycle content_hash expired runtime request observed started_at planned st = (Inr c, st')"
    and old: "cy_fallback_status c \<noteq> None"
  shows "mc_last_safe st = Some (cy_new_plan c) \<and> mc_last_safe st' = mc_last_safe st"
proof (rule cycle_cases [OF run])
  fix c' solved reasons
  assume "Inr c = Inr c'" and "choose_plan (solved_within observed solved) (reconcile planned observed) (mc_last_safe st) =
           Inr (cy_new_plan c', cy_fallback_status c', reasons, mc_last_safe st')"
  then show ?thesis using choose_plan_ok(2) old by simp
qed simp

lemma planned_by_cycle_later:
  "planned_by_cycle content_hash penalty st p \<Longrightarrow> mpc_step content_hash st st' \<Longrightarrow> planned_by_cycle content_hash penalty st' p"
  unfolding planned_by_cycle_def by (elim exE conjE) (intro exI conjI, assumption+, rule rtranclp.rtrancl_into_rtrancl)

lemma planned_by_cycle_now:
  assumes reach: "(mpc_step content_hash)\<^sup>*\<^sup>* (new_controller penalty) st"
    and run: "cycle content_hash expired runtime request observed started_at planned st = (Inr c, st')" and new: "cy_fallback_status c = None"
  shows "planned_by_cycle content_hash penalty st' (cy_new_plan c)"
proof -
  note valid = new_plan_validated [OF run new, THEN conjunct1] new_plan_validated [OF run new, THEN conjunct2, THEN conjunct2]
  show ?thesis
    unfolding planned_by_cycle_def
    by (intro exI conjI) (rule reach, rule run, rule rtranclp.rtrancl_refl, rule new, rule refl, rule valid(1), rule valid(2))
qed

lemma last_safe_ok_step:
  assumes ok: "last_safe_ok content_hash penalty st" and step: "mpc_step content_hash st st'"
  shows "last_safe_ok content_hash penalty st'"
proof -
  have reach: "(mpc_step content_hash)\<^sup>*\<^sup>* (new_controller penalty) st" using ok by (simp add: last_safe_ok_def)
  have reach': "(mpc_step content_hash)\<^sup>*\<^sup>* (new_controller penalty) st'" using reach step by (rule rtranclp.rtrancl_into_rtrancl)
  have kept: ?thesis if "mc_last_safe st' = mc_last_safe st"
    using ok reach' planned_by_cycle_later [OF _ step] that by (simp add: last_safe_ok_def)
  from step show ?thesis
  proof cases
    case (cycle expired runtime request observed started_at planned r)
    show ?thesis
    proof (cases r)
      case (Inl e)
      then have "st' = st" by (cases rule: cycle_cases [OF cycle]) auto
      then show ?thesis using ok by simp
    next
      case (Inr c)
      note run = cycle [unfolded Inr]
      show ?thesis
      proof (cases "cy_fallback_status c = None")
        case True
        then show ?thesis
          using reach' new_plan_validated [OF run True] planned_by_cycle_now [OF reach run True] by (simp add: last_safe_ok_def)
      qed (use kept fallback_keeps_plan [OF run] in simp)
    qed
  qed
qed

interpretation controller: safe_system "new_controller penalty" "mpc_step content_hash" "last_safe_ok content_hash penalty"
  for penalty content_hash
  by unfold_locales (simp add: last_safe_ok_def new_controller_def, rule last_safe_ok_step)

section \<open>Properties\<close>

lemma executed_mono: "mpc_step content_hash st st' \<Longrightarrow> mc_executed_slots st \<subseteq> mc_executed_slots st'"
  by (erule mpc_step.cases, erule cycle_cases) (auto split: option.splits)

lemma executed_steps: "(mpc_step content_hash)\<^sup>*\<^sup>* st st' \<Longrightarrow> mc_executed_slots st \<subseteq> mc_executed_slots st'"
  by (induction rule: rtranclp_induct) (auto dest: executed_mono)

lemma current_slot_Some:
  assumes "current_slot request executed = Some i"
  shows "i \<in> set (map ts_index (si_slots request))" "i \<notin> executed"
    "\<And>j. j \<in> set (map ts_index (si_slots request)) \<Longrightarrow> j \<notin> executed \<Longrightarrow> i \<le> j"
proof -
  let ?is = "set (filter (\<lambda>i. i \<notin> executed) (map ts_index (si_slots request)))"
  have i: "?is \<noteq> {}" "i = Min ?is"
    using assms unfolding current_slot_def Let_def by (auto simp only: set_empty split: if_splits option.splits)
  then have "i \<in> ?is" using Min_in [OF finite_set i(1)] by (simp only:)
  then show "i \<in> set (map ts_index (si_slots request))" "i \<notin> executed" by auto
  show "i \<le> j" if "j \<in> set (map ts_index (si_slots request))" "j \<notin> executed" for j
    unfolding i(2) using that by (intro Min_le) auto
qed

text \<open>
  Further: No interval is dispatched twice. When a cycle over a horizon with slots returns, what it dispatches
  is for one slot, the first of the horizon, which had not been dispatched before; and from then on,
  after any further cycles, a cycle whose horizon contains that slot is refused and leaves the
  controller as it is.
\<close>
theorem mpc_dispatches_once:
  assumes run: "cycle content_hash expired runtime request observed started_at planned st = (Inr c, st')"
    and slots: "si_slots request \<noteq> []" and later: "(mpc_step content_hash)\<^sup>*\<^sup>* st' st''"
  shows "\<exists>i \<in> set (map ts_index (si_slots request)). i \<notin> mc_executed_slots st \<and>
    (\<forall>j \<in> set (map ts_index (si_slots request)). i \<le> j) \<and>
    (\<forall>a \<in> set (cy_current_allocations c). al_slot_indices a = [i]) \<and>
    (\<forall>request'. i \<in> set (map ts_index (si_slots request')) \<longrightarrow>
      cycle content_hash expired' runtime' request' observed' started_at' planned' st'' =
        (Inl (ValueError ''already executed intervals cannot be rewritten''), st''))"
proof (rule cycle_cases [OF run])
  fix c'
  assume free: "\<forall>slot \<in> set (si_slots request). ts_index slot \<notin> mc_executed_slots st" and c: "Inr c = Inr c'"
    and cur: "cy_current_allocations c' = current_allocations (cy_new_plan c') (current_slot request (mc_executed_slots st))"
    and ex: "mc_executed_slots st' = (case current_slot request (mc_executed_slots st) of
           None \<Rightarrow> mc_executed_slots st | Some i \<Rightarrow> insert i (mc_executed_slots st))"
  obtain i where i: "current_slot request (mc_executed_slots st) = Some i"
    using slots free by (cases "si_slots request") (auto simp: current_slot_def)
  note first = current_slot_Some [OF i]
  have "i \<in> mc_executed_slots st''" using ex i executed_steps [OF later] by auto
  then have "cycle content_hash expired' runtime' request' observed' started_at' planned' st'' =
        (Inl (ValueError ''already executed intervals cannot be rewritten''), st'')"
    if "i \<in> set (map ts_index (si_slots request'))" for request'
    using that by (auto simp: cycle_def)
  moreover have "\<forall>j \<in> set (map ts_index (si_slots request)). i \<le> j"
    using first(3) free by auto
  moreover have "\<forall>a \<in> set (cy_current_allocations c). al_slot_indices a = [i]"
    using c cur i by (auto simp: current_allocations_def)
  ultimately show ?thesis using first(1,2) by blast
qed simp

definition empty_horizon :: "int list \<Rightarrow> schedule_input" where
  "empty_horizon is =
     \<lparr>si_jobs = [], si_slots = map (\<lambda>i. \<lparr>ts_index = i, ts_starts_at = Aware (i * 3600000000), ts_duration_hours = 1,
        ts_gpu_capacity = 8, ts_power_capacity_kw = 100, ts_price_per_kwh = 1, ts_carbon_kg_per_kwh = 0\<rparr>) is,
      si_topology_version = 1, si_forecast_version = ''f1'', si_baseline_name = ''none''\<rparr>"

definition observed_example :: "decimal \<Rightarrow> observed_state" where
  "observed_example quality =
     \<lparr>os_completed_jobs = {''job-1''}, os_running_progress = [], os_available_gpus = 8, os_battery_soc = 1 / 2,
      os_grid_limit_kw = 100, os_data_quality = quality, os_version = ''v1''\<rparr>"

lemma optimize_empty: "\<exists>res. optimize (\<lambda>_. ''digest'') (\<lambda>_. False) 0 (empty_horizon is) = Inr res \<and> or_plan res \<noteq> None"
  by (simp add: optimize_def empty_horizon_def search.simps chosen_plan_def validate_plan_def plan_energy_def Let_def)

lemma cycle_example:
  "\<exists>c st'. cycle (\<lambda>_. ''digest'') (\<lambda>_. False) 0 (empty_horizon [0, 1]) (observed_example 1) (Aware 0) [] (new_controller 0) = (Inr c, st')"
proof -
  obtain res plan where "optimize (\<lambda>_. ''digest'') (\<lambda>_. False) 0 (empty_horizon [0, 1]) = Inr res" "or_plan res = Some plan"
    using optimize_empty [of "[0, 1]"] by blast
  then show ?thesis
    by (simp add: cycle_def new_controller_def observed_example_def choose_plan_def Let_def)
qed

theorem mpc_dispatches_once_witness:
  "\<exists>c st'. cycle (\<lambda>_. ''digest'') (\<lambda>_. False) 0 (empty_horizon [0, 1]) (observed_example 1) (Aware 0) [] (new_controller 0) = (Inr c, st') \<and>
     cycle (\<lambda>_. ''digest'') (\<lambda>_. False) 0 (empty_horizon [0]) (observed_example 1) (Aware 0) [] st' =
       (Inl (ValueError ''already executed intervals cannot be rewritten''), st')"
proof -
  obtain c st' where run:
    "cycle (\<lambda>_. ''digest'') (\<lambda>_. False) 0 (empty_horizon [0, 1]) (observed_example 1) (Aware 0) [] (new_controller 0) = (Inr c, st')"
    using cycle_example by blast
  have slots: "si_slots (empty_horizon [0, 1]) \<noteq> []" by (simp add: empty_horizon_def)
  obtain i where i: "i \<in> {0, 1}" "\<forall>j \<in> {0, 1}. i \<le> j"
    and again: "\<And>request'. i \<in> set (map ts_index (si_slots request')) \<Longrightarrow>
      cycle (\<lambda>_. ''digest'') (\<lambda>_. False) 0 request' (observed_example 1) (Aware 0) [] st' =
        (Inl (ValueError ''already executed intervals cannot be rewritten''), st')"
    using mpc_dispatches_once [OF run slots rtranclp.rtrancl_refl, where expired' = "\<lambda>_. False" and runtime' = 0
        and observed' = "observed_example 1" and started_at' = "Aware 0" and planned' = "[]"]
    by (auto simp: empty_horizon_def)
  have "i = 0" using i by auto
  with run again [of "empty_horizon [0]"] show ?thesis by (auto simp: empty_horizon_def)
qed

text \<open>
  C23: Every plan the controller works with has been validated. In every state that cycles lead to from a
  new controller, a cycle that returns either follows a plan that the optimiser has just validated
  against the request, and keeps it as the last safe plan, or says with its fallback status that it
  follows the last safe plan, and then a cycle on the way to this state had made this plan as its new
  plan and the optimiser had validated it against the request of that cycle. Data of quality below 0.6
  never leads to a new plan.
\<close>
theorem mpc_plan_validated:
  assumes reach: "(mpc_step content_hash)\<^sup>*\<^sup>* (new_controller penalty) st"
    and run: "cycle content_hash expired runtime request observed started_at planned st = (Inr c, st')"
  shows "case cy_fallback_status c of
      None \<Rightarrow> validate_plan request (cy_new_plan c) = Inr () \<and> mc_last_safe st' = Some (cy_new_plan c) \<and>
        6 / 10 \<le> os_data_quality observed
    | Some _ \<Rightarrow> mc_last_safe st = Some (cy_new_plan c) \<and> mc_last_safe st' = mc_last_safe st \<and>
        planned_by_cycle content_hash penalty st (cy_new_plan c)"
proof (cases "cy_fallback_status c")
  case None
  with new_plan_validated [OF run] show ?thesis by simp
next
  case (Some f)
  then have kept: "mc_last_safe st = Some (cy_new_plan c) \<and> mc_last_safe st' = mc_last_safe st"
    using fallback_keeps_plan [OF run] by simp
  have "last_safe_ok content_hash penalty st" by (rule controller.inv_reachable [OF reach])
  with kept Some show ?thesis by (simp add: last_safe_ok_def)
qed

theorem mpc_plan_validated_witness:
  "\<exists>c st'. cycle (\<lambda>_. ''digest'') (\<lambda>_. False) 0 (empty_horizon [0, 1]) (observed_example 1) (Aware 0) [] (new_controller 0) = (Inr c, st') \<and>
     (cy_fallback_status c = None \<or> mc_last_safe (new_controller 0) = Some (cy_new_plan c))"
proof -
  obtain c st' where run:
    "cycle (\<lambda>_. ''digest'') (\<lambda>_. False) 0 (empty_horizon [0, 1]) (observed_example 1) (Aware 0) [] (new_controller 0) = (Inr c, st')"
    using cycle_example by blast
  from mpc_plan_validated [OF rtranclp.rtrancl_refl run]
  have "cy_fallback_status c = None \<or> mc_last_safe (new_controller 0) = Some (cy_new_plan c)"
    by (cases "cy_fallback_status c") auto
  with run show ?thesis by blast
qed

text \<open>
  Further: The fallback of the controller ignores what was observed. When the data quality is too low, a cycle
  dispatches the allocations of the last safe plan for the current slot, also of a job that the
  observation reports as completed; \<open>select_fallback\<close>, the module's own rule for this situation, allows
  no automatic plan at all when the data quality is not sufficient.
\<close>
theorem mpc_fallback_ignores_observation:
  assumes safe: "mc_last_safe st = Some p" and solved: "optimize content_hash expired runtime request = Inr res"
    and quality: "os_data_quality observed < 6 / 10"
    and free: "\<forall>slot \<in> set (si_slots request). ts_index slot \<notin> mc_executed_slots st"
    and slot: "current_slot request (mc_executed_slots st) = Some i"
    and a: "a \<in> set (sp_allocations p)" "i \<in> set (al_slot_indices a)" "al_job_id a \<in> os_completed_jobs observed"
  shows "\<exists>c st'. cycle content_hash expired runtime request observed started_at planned st = (Inr c, st') \<and>
    a\<lparr>al_slot_indices := [i]\<rparr> \<in> set (cy_current_allocations c) \<and>
    \<not> fb_automation_allowed (select_fallback (Some p) False shed)"
  using assms
  by (auto simp: cycle_def Let_def choose_plan_def no_plan_def current_allocations_def select_fallback_def)

definition safe_plan_example :: schedule_plan where
  "safe_plan_example =
     \<lparr>sp_strategy = ''fifo'', sp_allocations = [\<lparr>al_job_id = ''job-1'', al_slot_indices = [0, 1], al_gpu_count = 2, al_reason_code = ''r''\<rparr>],
      sp_unscheduled = [], sp_energy_intent_kwh = 0, sp_estimated_cost = 0, sp_assumptions = [], sp_violations = [],
      sp_input_hash = ''digest''\<rparr>"

theorem mpc_fallback_ignores_observation_witness:
  "\<exists>c st'. cycle (\<lambda>_. ''digest'') (\<lambda>_. False) 0 (empty_horizon [1]) (observed_example 0) (Aware 0) []
       (new_controller 0\<lparr>mc_last_safe := Some safe_plan_example, mc_executed_slots := {0}\<rparr>) = (Inr c, st') \<and>
     map al_job_id (cy_current_allocations c) = [''job-1''] \<and> ''job-1'' \<in> os_completed_jobs (observed_example 0)"
proof -
  let ?st = "new_controller 0\<lparr>mc_last_safe := Some safe_plan_example, mc_executed_slots := {0}\<rparr>"
  let ?a = "\<lparr>al_job_id = ''job-1'', al_slot_indices = [0, 1], al_gpu_count = 2, al_reason_code = ''r''\<rparr>"
  obtain res where solved: "optimize (\<lambda>_. ''digest'') (\<lambda>_. False) 0 (empty_horizon [1]) = Inr res"
    using optimize_empty [of "[1]"] by blast
  have "\<exists>c st'. cycle (\<lambda>_. ''digest'') (\<lambda>_. False) 0 (empty_horizon [1]) (observed_example 0) (Aware 0) [] ?st = (Inr c, st') \<and>
    ?a\<lparr>al_slot_indices := [1]\<rparr> \<in> set (cy_current_allocations c) \<and> \<not> fb_automation_allowed (select_fallback (Some safe_plan_example) False True)"
    by (rule mpc_fallback_ignores_observation [OF _ solved])
      (simp_all add: safe_plan_example_def observed_example_def empty_horizon_def current_slot_def)
  moreover have "cy_current_allocations c = [?a\<lparr>al_slot_indices := [1]\<rparr>]"
    if "cycle (\<lambda>_. ''digest'') (\<lambda>_. False) 0 (empty_horizon [1]) (observed_example 0) (Aware 0) [] ?st = (Inr c, st')" for c st'
    using that solved
    by (auto simp: cycle_def Let_def choose_plan_def no_plan_def current_allocations_def observed_example_def empty_horizon_def
        current_slot_def safe_plan_example_def)
  ultimately show ?thesis by (force simp: observed_example_def)
qed

section \<open>Documents of a controller\<close>

lemma plan_from_state_json:
  assumes "readable str_decimal (sp_energy_intent_kwh p)" "readable str_decimal (sp_estimated_cost p)"
  shows "plan_from_state (plan_json str_decimal p) = Inr p"
  by (simp add: plan_from_state_def plan_json_def py_item_def required_strings_def rmap_list_map_id
      read_decimal_text [OF assms(1)] read_decimal_text [OF assms(2)])

definition storable_controller :: "(decimal \<Rightarrow> string) \<Rightarrow> mpc_controller \<Rightarrow> bool" where
  "storable_controller str_decimal st \<longleftrightarrow> finite (mc_executed_slots st) \<and> 0 \<le> mc_cycle_sequence st \<and>
     readable str_decimal (mc_stability_penalty st) \<and>
     (\<forall>p. mc_last_safe st = Some p \<longrightarrow> readable str_decimal (sp_energy_intent_kwh p) \<and> readable str_decimal (sp_estimated_cost p))"

text \<open>
  Further: A controller survives the store: reading the exported state back gives the same penalty, last safe
  plan, executed slots and cycle number, whenever the decimals of the state are read back from their
  text; only the log of past cycles starts anew. So the refusal to rewrite executed slots outlives
  the process.
\<close>
theorem controller_roundtrip:
  assumes "storable_controller str_decimal st"
  shows "from_state (export_state str_decimal st) = Inr (st\<lparr>mc_cycles := []\<rparr>)"
proof -
  have last: "(case (case mc_last_safe st of None \<Rightarrow> PNone | Some p \<Rightarrow> PDict (plan_json str_decimal p)) of
      PDict plan \<Rightarrow> rbind (plan_from_state plan) (\<lambda>p. Inr (Some p)) | _ \<Rightarrow> Inr None) = Inr (mc_last_safe st)"
    using assms plan_from_state_json by (auto simp: storable_controller_def split: option.splits)
  have "rmap_list py_int (map PInt is) = Inr is" for "is"
    by (rule rmap_list_map_id) simp
  then show ?thesis
    using assms last
    by (simp add: from_state_def export_state_def dget_or_def storable_controller_def read_decimal_text parse_int_string)
qed

theorem controller_roundtrip_witness:
  "from_state (export_state (\<lambda>_. ''0'') (new_controller 0\<lparr>mc_last_safe := Some safe_plan_example, mc_executed_slots := {0}, mc_cycle_sequence := 1\<rparr>)) =
     Inr (new_controller 0\<lparr>mc_last_safe := Some safe_plan_example, mc_executed_slots := {0}, mc_cycle_sequence := 1\<rparr>)"
proof -
  have "readable (\<lambda>_. ''0'') 0" unfolding readable_def by code_simp
  then have "storable_controller (\<lambda>_. ''0'')
      (new_controller 0\<lparr>mc_last_safe := Some safe_plan_example, mc_executed_slots := {0}, mc_cycle_sequence := 1\<rparr>)"
    by (simp add: storable_controller_def new_controller_def safe_plan_example_def)
  from controller_roundtrip [OF this] show ?thesis by (simp add: new_controller_def)
qed

section \<open>Horizon and churn\<close>

lemma split_three:
  assumes "n < length xs"
  shows "h = \<lparr>hp_locked = take n xs, hp_controllable = take m (drop n xs), hp_forecast_only = drop (n + m) xs\<rparr> \<longleftrightarrow>
    xs = hp_locked h @ hp_controllable h @ hp_forecast_only h \<and> length (hp_locked h) = n \<and>
    (length (hp_controllable h) = m \<or> length (hp_controllable h) \<le> m \<and> hp_forecast_only h = [])"
proof
  assume h: "h = \<lparr>hp_locked = take n xs, hp_controllable = take m (drop n xs), hp_forecast_only = drop (n + m) xs\<rparr>"
  have "xs = take n xs @ take m (drop n xs) @ drop m (drop n xs)" by (simp only: append_take_drop_id)
  with h assms show "xs = hp_locked h @ hp_controllable h @ hp_forecast_only h \<and> length (hp_locked h) = n \<and>
    (length (hp_controllable h) = m \<or> length (hp_controllable h) \<le> m \<and> hp_forecast_only h = [])"
    by (auto simp: add.commute min_def)
next
  assume "xs = hp_locked h @ hp_controllable h @ hp_forecast_only h \<and> length (hp_locked h) = n \<and>
    (length (hp_controllable h) = m \<or> length (hp_controllable h) \<le> m \<and> hp_forecast_only h = [])"
  then show "h = \<lparr>hp_locked = take n xs, hp_controllable = take m (drop n xs), hp_forecast_only = drop (n + m) xs\<rparr>"
    by (cases h) auto
qed

text \<open>
  Further: A horizon is partitioned without loss. \<open>partition_horizon\<close> returns exactly when the sizes are
  admissible, no index occurs twice and some slot is left after the locked part; its three parts one
  after the other are then all the slots in order of their start, the locked part has the requested
  length, and the controllable part has the requested length or takes all that is left.
\<close>
theorem horizon_partitioned:
  "partition_horizon slots l c = Inr h \<longleftrightarrow>
     0 \<le> l \<and> 1 \<le> c \<and> distinct (map ts_index slots) \<and> l < int (length slots) \<and>
     sort_slots slots = Inr (hp_locked h @ hp_controllable h @ hp_forecast_only h) \<and> int (length (hp_locked h)) = l \<and>
     (int (length (hp_controllable h)) = c \<or> int (length (hp_controllable h)) \<le> c \<and> hp_forecast_only h = [])"
proof (cases "0 \<le> l \<and> 1 \<le> c \<and> is_ok (sort_slots slots)")
  case True
  then obtain ordered where sorted: "sort_slots slots = Inr ordered" by (auto simp: is_ok_iff)
  then have len: "length ordered = length slots" "distinct (map ts_index ordered) = distinct (map ts_index slots)"
    by (auto simp: sort_slots_def split: if_splits)
  define n m where "n = nat l" and "m = nat c"
  have nm: "l = int n" "c = int m" "0 < m" using True by (simp_all add: n_def m_def)
  have "partition_horizon slots l c = Inr h \<longleftrightarrow> distinct (map ts_index slots) \<and> n < length slots \<and>
      h = \<lparr>hp_locked = take n ordered, hp_controllable = take m (drop n ordered), hp_forecast_only = drop (n + m) ordered\<rparr>"
    using True nm len by (auto simp: partition_horizon_def sorted Let_def n_def [symmetric] m_def [symmetric])
  also have "\<dots> \<longleftrightarrow> distinct (map ts_index slots) \<and> n < length slots \<and> ordered = hp_locked h @ hp_controllable h @ hp_forecast_only h \<and>
      length (hp_locked h) = n \<and> (length (hp_controllable h) = m \<or> length (hp_controllable h) \<le> m \<and> hp_forecast_only h = [])"
    using split_three [of n ordered h m] len(1) by auto
  finally show ?thesis using True nm sorted by auto
next
  case False
  then show ?thesis by (auto simp: partition_horizon_def is_ok_iff rbind_eq_Inr)
qed

lemma ddiv_card_bounds:
  assumes "a \<le> b" "ddiv (of_nat a) (of_nat (max 1 b)) = Inr q"
  shows "0 \<le> q \<and> q \<le> 1"
proof -
  have q: "q = dround (of_nat a / of_nat (max 1 b))" using assms(2) by (auto simp: ddiv_def split: if_splits)
  have "a \<le> max 1 b" using assms(1) by simp
  then have "of_nat a / of_nat (max 1 b) \<le> (1 :: rat)" by (simp add: divide_le_eq del: of_nat_max)
  from dround_mono [OF this] show ?thesis unfolding q by simp
qed

text \<open>
  Further: Both measures of plan instability are shares: the churn of the controller and the score of
  \<open>score_stability\<close> always exist (no division by zero, also for empty plans) and lie between 0 and 1,
  and a plan has churn 0 against itself.
\<close>
theorem churn_is_a_share:
  "(\<exists>q. churn left right = Inr q \<and> 0 \<le> q \<and> q \<le> 1) \<and> churn left left = Inr 0 \<and>
   (case score_stability left right maximum of
      Inl e \<Rightarrow> maximum < 0 \<or> 1 < maximum
    | Inr s \<Rightarrow> 0 \<le> sc_churn s \<and> sc_churn s \<le> 1 \<and> sc_changed_jobs s \<le> sc_total_jobs s \<and>
        (sc_acceptable s \<longleftrightarrow> sc_churn s \<le> maximum))"
proof -
  let ?l = "placements left" and ?r = "placements right"
  have fin: "finite (?l \<union> ?r)" by (simp add: placements_def)
  have le: "card ((?l - ?r) \<union> (?r - ?l)) \<le> card (?l \<union> ?r)" by (rule card_mono [OF fin]) auto
  obtain q where q: "churn left right = Inr q" by (auto simp: churn_def ddiv_def Let_def)
  then have "0 \<le> q \<and> q \<le> 1" using ddiv_card_bounds [OF le] by (simp add: churn_def Let_def)
  moreover have "churn left left = Inr 0" by (simp add: churn_def Let_def ddiv_def)
  moreover have "case score_stability left right maximum of
      Inl e \<Rightarrow> maximum < 0 \<or> 1 < maximum
    | Inr s \<Rightarrow> 0 \<le> sc_churn s \<and> sc_churn s \<le> 1 \<and> sc_changed_jobs s \<le> sc_total_jobs s \<and>
        (sc_acceptable s \<longleftrightarrow> sc_churn s \<le> maximum)"
  proof (cases "0 \<le> maximum \<and> maximum \<le> 1")
    case True
    define subjects where "subjects = set (dkeys (slot_map left)) \<union> set (dkeys (slot_map right))"
    define changed where "changed = card {job \<in> subjects. dget (slot_map left) job \<noteq> dget (slot_map right) job}"
    have sub: "changed \<le> card subjects"
      unfolding changed_def by (rule card_mono) (auto simp: subjects_def)
    obtain d where d: "ddiv (of_nat changed) (of_nat (max 1 (card subjects))) = Inr d" by (auto simp: ddiv_def)
    have "score_stability left right maximum = Inr \<lparr>sc_changed_jobs = int changed, sc_total_jobs = int (card subjects),
        sc_churn = d, sc_acceptable = (d \<le> maximum)\<rparr>"
      unfolding score_stability_def Let_def subjects_def [symmetric] changed_def [symmetric] d using True by simp
    with ddiv_card_bounds [OF sub d] sub show ?thesis by simp
  qed (auto simp: score_stability_def)
  ultimately show ?thesis using q by blast
qed

end
