(* ===== verification/Mpc_Repository.thy ===== *)
theory Mpc_Repository
  imports Mpc Job_Queue
begin

text \<open>
  Components that keep their work in the resource store: \<open>MpcRepository\<close> of \<open>packages/mpc/repository.py\<close>
  on \<open>PostgresResourceStore\<close>, and the handlers of the worker (\<open>default_handlers\<close> of
  \<open>apps/worker/main.py\<close>).

  Every call of the store is a transaction of its own; \<open>clock n\<close> gives the clocks of the database and
  of the process for the n-th. The text of a decimal and of a frozenset are parameters. \<open>repository_call\<close> is
  what any process may do to the store later: create controllers, run cycles, write other resources.
\<close>

section \<open>The repository\<close>

definition observed_json :: "(decimal \<Rightarrow> string) \<Rightarrow> (string set \<Rightarrow> string) \<Rightarrow> observed_state \<Rightarrow> pyval" where
  "observed_json str_decimal str_set s =
     PDict [(''completed_jobs'', PStr (str_set (os_completed_jobs s))),
            (''running_progress'', PDict (map (\<lambda>(k, v). (k, PStr (str_decimal v))) (os_running_progress s))),
            (''available_gpus'', PInt (os_available_gpus s)), (''battery_soc'', PStr (str_decimal (os_battery_soc s))),
            (''grid_limit_kw'', PStr (str_decimal (os_grid_limit_kw s))),
            (''data_quality'', PStr (str_decimal (os_data_quality s))), (''version'', PStr (os_version s))]"

definition diff_json :: "(decimal \<Rightarrow> string) \<Rightarrow> (string set \<Rightarrow> string) \<Rightarrow> state_diff \<Rightarrow> pyval" where
  "diff_json str_decimal str_set d =
     PDict [(''removed_jobs'', PStr (str_set (sd_removed_jobs d))),
            (''progress_errors'', PDict (map (\<lambda>(k, v). (k, PStr (str_decimal v))) (sd_progress_errors d))),
            (''material'', PBool (sd_material d))]"

definition cycle_json :: "(decimal \<Rightarrow> string) \<Rightarrow> (string set \<Rightarrow> string) \<Rightarrow> mpc_cycle \<Rightarrow> json_object" where
  \<comment> \<open>\<open>{**asdict(cycle), "cycle_id": cycle.id}\<close>\<close>
  "cycle_json str_decimal str_set c =
     [(''id'', PInt (cy_id c)), (''started_at'', PStr (datetime_str (cy_started_at c))),
      (''observed_state'', observed_json str_decimal str_set (cy_observed_state c)),
      (''state_diff'', diff_json str_decimal str_set (cy_state_diff c)),
      (''previous_plan'', case cy_previous_plan c of None \<Rightarrow> PNone | Some p \<Rightarrow> PDict (plan_json str_decimal p)),
      (''new_plan'', PDict (plan_json str_decimal (cy_new_plan c))),
      (''current_allocations'', PList (map allocation_json (cy_current_allocations c))),
      (''fallback_status'', case cy_fallback_status c of None \<Rightarrow> PNone | Some s \<Rightarrow> PStr s),
      (''revision_reasons'', PList (map PStr (cy_revision_reasons c))), (''cycle_id'', PInt (cy_id c))]"

record store_context =
  sx_pool :: "store_db pool_exit"
  sx_sha256 :: "string \<Rightarrow> string"
  sx_jsonb :: "pyval \<Rightarrow> pyval"
  sx_ttl :: timedelta
  sx_clock :: "nat \<Rightarrow> instant \<times> instant"

definition store_put ::
  "store_context \<Rightarrow> nat \<Rightarrow> string \<Rightarrow> string \<Rightarrow> string \<Rightarrow> json_object \<Rightarrow> string \<Rightarrow> string option \<Rightarrow> store_db \<Rightarrow>
   stored_resource result \<times> store_db" where
  "store_put sx n kind resource_id tenant_id body key if_match db =
     resource_put_pg (sx_pool sx) (sx_sha256 sx) (sx_jsonb sx) (sx_ttl sx) (fst (sx_clock sx n)) (snd (sx_clock sx n))
       kind resource_id tenant_id body key if_match db"

definition repository_create ::
  "store_context \<Rightarrow> (decimal \<Rightarrow> string) \<Rightarrow> nat \<Rightarrow> string \<Rightarrow> string \<Rightarrow> decimal \<Rightarrow> string \<Rightarrow> store_db \<Rightarrow>
   (string \<times> int \<times> string) result \<times> store_db" where
  "repository_create sx str_decimal n controller_id tenant_id stability_penalty idempotency_key db =
     (case store_put sx n ''mpc_controller_state'' controller_id tenant_id
             (export_state str_decimal (new_controller stability_penalty)) (''mpc-create:'' @ idempotency_key) None db of
        (Inl e, db) \<Rightarrow> (Inl e, db)
      | (Inr resource, db) \<Rightarrow> (Inr (controller_id, sr_version resource, sr_etag resource), db))"

definition load_controller ::
  "store_context \<Rightarrow> (decimal \<Rightarrow> string) \<Rightarrow> string \<Rightarrow> string \<Rightarrow> store_db \<Rightarrow> stored_resource result \<times> store_db" where
  "load_controller sx str_decimal controller_id tenant_id db =
     (case resource_get_pg (sx_pool sx) ''mpc_controller_state'' controller_id tenant_id db of
        Inr resource \<Rightarrow> (Inr resource, db)
      | Inl (KeyError _) \<Rightarrow>
          (case repository_create sx str_decimal 0 controller_id tenant_id (1 / 100) (''implicit-'' @ controller_id) db of
             (Inl e, db) \<Rightarrow> (Inl e, db)
           | (Inr _, db) \<Rightarrow> (resource_get_pg (sx_pool sx) ''mpc_controller_state'' controller_id tenant_id db, db))
      | Inl e \<Rightarrow> (Inl e, db))"

definition repository_cycle ::
  "store_context \<Rightarrow> (decimal \<Rightarrow> string) \<Rightarrow> (string set \<Rightarrow> string) \<Rightarrow> (schedule_input \<Rightarrow> string) \<Rightarrow> (nat \<Rightarrow> bool) \<Rightarrow> rat \<Rightarrow>
   string \<Rightarrow> string \<Rightarrow> schedule_input \<Rightarrow> observed_state \<Rightarrow> datetime \<Rightarrow> string \<Rightarrow> store_db \<Rightarrow> mpc_cycle result \<times> store_db" where
  "repository_cycle sx str_decimal str_set content_hash expired runtime controller_id tenant_id request observed started_at
     idempotency_key db =
     (case load_controller sx str_decimal controller_id tenant_id db of
        (Inl e, db) \<Rightarrow> (Inl e, db)
      | (Inr resource, db) \<Rightarrow>
          (case from_state (sr_body resource) of
             Inl e \<Rightarrow> (Inl e, db)
           | Inr controller \<Rightarrow>
               (case cycle content_hash expired runtime request observed started_at [] controller of
                  (Inl e, _) \<Rightarrow> (Inl e, db)
                | (Inr c, controller) \<Rightarrow>
                    (case store_put sx 1 ''mpc_controller_state'' controller_id tenant_id (export_state str_decimal controller)
                            (''mpc-state:'' @ idempotency_key) (Some (sr_etag resource)) db of
                       (Inl e, db) \<Rightarrow> (Inl e, db)
                     | (Inr _, db) \<Rightarrow>
                         (case store_put sx 2 ''mpc_cycle'' (controller_id @ ''-'' @ string_of_int (cy_id c)) tenant_id
                                 (cycle_json str_decimal str_set c) (''mpc-cycle:'' @ idempotency_key) None db of
                            (Inl e, db) \<Rightarrow> (Inl e, db)
                          | (Inr _, db) \<Rightarrow> (Inr c, db))))))"

section \<open>The handlers of the worker\<close>

definition resource_put_handler ::
  "store_context \<Rightarrow> durable_job \<Rightarrow> store_db \<Rightarrow> json_object result \<times> store_db" where
  "resource_put_handler sx job db =
     (let payload = dj_payload job in
      case rbind (py_item payload ''kind'') (\<lambda>kind. rbind (py_item payload ''resource_id'') (\<lambda>resource_id.
             rbind (rbind (py_item payload ''body'') dict_of_value) (\<lambda>body.
             rbind (optional_text (dget_or payload ''if_match'' PNone)) (\<lambda>if_match.
               Inr (py_str kind, py_str resource_id, body, if_match))))) of
        Inl e \<Rightarrow> (Inl e, db)
      | Inr (kind, resource_id, body, if_match) \<Rightarrow>
          (case store_put sx 0 kind resource_id (dj_tenant_id job) body (''job:'' @ dj_idempotency_key job) if_match db of
             (Inl e, db) \<Rightarrow> (Inl e, db)
           | (Inr resource, db) \<Rightarrow>
               (Inr [(''resource_id'', PStr (sr_id resource)), (''version'', PInt (sr_version resource)),
                     (''etag'', PStr (sr_etag resource))], db)))"

definition heartbeat_handler :: "durable_job \<Rightarrow> json_object" where
  "heartbeat_handler job = [(''status'', PStr ''ok''), (''job_id'', PInt (dj_id job))]"

definition optimization_handler ::
  "(schedule_input \<Rightarrow> pyval \<Rightarrow> optimization_result result) \<Rightarrow> (optimization_result \<Rightarrow> json_object) \<Rightarrow> (optimization_result \<Rightarrow> string) \<Rightarrow>
   durable_job \<Rightarrow> json_object result" where
  \<comment> \<open>\<open>solve\<close> is \<open>HighsSolver().solve\<close> with the budget as the payload gives it\<close>
  "optimization_handler solve asdict status_text job =
     rbind (rbind (py_item (dj_payload job) ''schedule'') dict_of_value) (\<lambda>schedule.
     rbind (parse_schedule_input schedule (dj_tenant_id job)) (\<lambda>request.
     rbind (solve request (dget_or (dj_payload job) ''timeout_seconds'' (PInt 10))) (\<lambda>solved.
       if or_plan solved = None
       then Inl (RuntimeError (''optimization did not produce a safe plan: '' @ status_text solved))
       else Inr (asdict solved))))"

definition in_world :: "(durable_job \<Rightarrow> 'w \<Rightarrow> json_object result \<times> 'w) \<Rightarrow> 'w job_handler" where
  \<comment> \<open>a handler that leaves the queue alone\<close>
  "in_world f job st = (case f job (wk_world st) of (r, w) \<Rightarrow> (r, st\<lparr>wk_world := w\<rparr>))"

definition default_handlers ::
  "store_context \<Rightarrow> (schedule_input \<Rightarrow> pyval \<Rightarrow> optimization_result result) \<Rightarrow> (optimization_result \<Rightarrow> json_object) \<Rightarrow>
   (optimization_result \<Rightarrow> string) \<Rightarrow> (string, store_db job_handler) dict" where
  "default_handlers sx solve asdict status_text =
     [(''resource_put'', in_world (resource_put_handler sx)),
      (''heartbeat'', in_world (\<lambda>job db. (Inr (heartbeat_handler job), db))),
      (''optimization_run'', in_world (\<lambda>job db. (optimization_handler solve asdict status_text job, db)))]"

section \<open>A controller in the store\<close>

lemma allocation_jsonb:
  assumes "jsonb_contract jsonb"
  shows "parse_allocation (jsonb (allocation_json a)) = Inr a"
  by (simp add: parse_allocation_def allocation_json_def subscript_def py_item_def jsonb_dict [OF assms] jsonb_scalar [OF assms]
      rmap_list_map_id comp_def)

lemma allocations_jsonb:
  assumes "jsonb_contract jsonb"
  shows "rmap_list parse_allocation (map (\<lambda>a. jsonb (allocation_json a)) as) = Inr as"
  by (rule rmap_list_map_id) (simp add: allocation_jsonb [OF assms])

lemma plan_jsonb:
  assumes "jsonb_contract jsonb" "readable str_decimal (sp_energy_intent_kwh p)" "readable str_decimal (sp_estimated_cost p)"
  shows "plan_from_state (stored jsonb (plan_json str_decimal p)) = Inr p"
  by (simp add: plan_from_state_def plan_json_def py_item_def required_strings_def jsonb_dict [OF assms(1)] jsonb_scalar [OF assms(1)]
      allocations_jsonb [OF assms(1)] read_decimal_text [OF assms(2)] read_decimal_text [OF assms(3)] comp_def)

lemma controller_jsonb:
  assumes j: "jsonb_contract jsonb" and st: "storable_controller str_decimal st"
  shows "from_state (stored jsonb (normalized (export_state str_decimal st) i)) = Inr (st\<lparr>mc_cycles := []\<rparr>)"
proof -
  have last: "(case jsonb (case mc_last_safe st of None \<Rightarrow> PNone | Some p \<Rightarrow> PDict (plan_json str_decimal p)) of
      PDict plan \<Rightarrow> rbind (plan_from_state plan) (\<lambda>p. Inr (Some p)) | _ \<Rightarrow> Inr None) = Inr (mc_last_safe st)"
    using st plan_jsonb [OF j] by (auto simp: storable_controller_def jsonb_dict [OF j] jsonb_scalar [OF j] split: option.splits)
  have "rmap_list py_int (map PInt is) = Inr is" for "is"
    by (rule rmap_list_map_id) simp
  then show ?thesis
    using st last
    by (simp add: from_state_def export_state_def normalized_def dget_or_def jsonb_dict [OF j] jsonb_scalar [OF j] comp_def
        storable_controller_def read_decimal_text parse_int_string)
qed

lemma get_found:
  "valid_tenant t \<Longrightarrow> dget (resources db) (t, kind, i) = Some row \<Longrightarrow> resource_get_pg px kind i t db = Inr (row_resource kind i t row)"
  by (simp add: resource_get_pg_def tenant_connection_fst)

lemma put_fresh:
  assumes px: "pool_contract px" and run: "resource_put_pg px sha256 jsonb ttl db_now now kind i t body key if_match db = (Inr x, db')"
    and fresh: "dget (live_records (t, key) db_now db) (t, key) = None"
  obtains row where "valid_tenant t" "dget (resources db') (t, kind, i) = Some row" "rr_version row = next_version_of (row_current db (t, kind, i))"
    "rr_body row = stored jsonb (normalized body i)"
  using pg_put_cases [OF px run] fresh that by (cases rule: pg_put_cases [OF px run]) auto

lemma put_elsewhere:
  assumes px: "pool_contract px" and run: "resource_put_pg px sha256 jsonb ttl db_now now kind i t body key if_match db = (r, db')"
    and "k \<noteq> (t, kind, i)"
  shows "dget (resources db') k = dget (resources db) k"
  using assms(3) by (cases rule: pg_put_cases [OF px run]) auto

lemma dput_entry: "k' \<noteq> k \<Longrightarrow> (k', v') \<in> set (dput k v d) \<longleftrightarrow> (k', v') \<in> set d"
  by (induction d) (auto split: if_splits)

lemma put_state_key:
  assumes px: "pool_contract px" and run: "resource_put_pg px sha256 jsonb ttl db_now now kind i t body key if_match db = (r, db')"
    and fresh: "dget (live_records (t, key') now' db) (t, key') = None" and "key' \<noteq> key"
  shows "dget (live_records (t, key') now' db') (t, key') = None"
  using fresh assms(4)
  by (cases rule: pg_put_cases [OF px run]) (auto simp: live_records_def dget_None_keys dput_entry)

lemma read_back_executed:
  assumes j: "jsonb_contract jsonb" and fin: "finite (mc_executed_slots st)"
    and read: "from_state (stored jsonb (normalized (export_state str_decimal st) i)) = Inr st'"
  shows "mc_executed_slots st' = mc_executed_slots st"
proof -
  have ints: "rmap_list py_int (map PInt is) = Inr is" for "is"
    by (rule rmap_list_map_id) simp
  show ?thesis
    using read fin
    by (auto simp: from_state_def export_state_def normalized_def dget_or_def jsonb_dict [OF j] jsonb_scalar [OF j] comp_def
        rbind_eq_Inr ints)
qed

lemma from_state_finite: "from_state body = Inr st \<Longrightarrow> finite (mc_executed_slots st)"
  by (auto simp: from_state_def rbind_eq_Inr)

lemma cycle_finite:
  assumes "cycle content_hash expired runtime request observed started_at planned st = (r, st')" "finite (mc_executed_slots st)"
  shows "finite (mc_executed_slots st')"
  using assms(2) by (cases rule: cycle_cases [OF assms(1)]) (auto split: option.splits)

inductive repository_call :: "store_db \<Rightarrow> store_db \<Rightarrow> bool" where
  create: "pool_contract (sx_pool sx) \<Longrightarrow> jsonb_contract (sx_jsonb sx) \<Longrightarrow>
    repository_create sx str_decimal n i t penalty key db = (r, db') \<Longrightarrow> repository_call db db'"
| cycle: "pool_contract (sx_pool sx) \<Longrightarrow> jsonb_contract (sx_jsonb sx) \<Longrightarrow>
    repository_cycle sx str_decimal str_set content_hash expired runtime i t request observed started_at key db = (r', db') \<Longrightarrow>
    repository_call db db'"
| put: "pool_contract (sx_pool sx) \<Longrightarrow> kind \<noteq> ''mpc_controller_state'' \<Longrightarrow>
    store_put sx n kind i t body key if_match db = (r'', db') \<Longrightarrow> repository_call db db'"

definition slot_taken :: "string \<Rightarrow> string \<Rightarrow> int \<Rightarrow> store_db \<Rightarrow> bool" where
  \<comment> \<open>whoever reads the controller finds the slot among the executed ones\<close>
  "slot_taken i t slot db \<longleftrightarrow>
     (case dget (resources db) (t, ''mpc_controller_state'', i) of
        None \<Rightarrow> False
      | Some row \<Rightarrow> (case from_state (rr_body row) of Inl _ \<Rightarrow> True | Inr st \<Rightarrow> slot \<in> mc_executed_slots st))"

lemma slot_taken_same:
  "dget (resources db') (t, ''mpc_controller_state'', i) = dget (resources db) (t, ''mpc_controller_state'', i) \<Longrightarrow>
   slot_taken i t slot db' = slot_taken i t slot db"
  by (simp add: slot_taken_def)

lemma load_controller_cases:
  assumes px: "pool_contract (sx_pool sx)" and load: "load_controller sx str_decimal i t db = (r, db')"
  obtains (failed) e where "r = Inl e"
  | (found) row where "dget (resources db) (t, ''mpc_controller_state'', i) = Some row" "db' = db"
      "r = Inr (row_resource ''mpc_controller_state'' i t row)"
  | (made) row x where "dget (resources db) (t, ''mpc_controller_state'', i) = None"
      "repository_create sx str_decimal 0 i t (1 / 100) (''implicit-'' @ i) db = (Inr x, db')"
      "dget (resources db') (t, ''mpc_controller_state'', i) = Some row" "r = Inr (row_resource ''mpc_controller_state'' i t row)"
proof (cases "resource_get_pg (sx_pool sx) ''mpc_controller_state'' i t db")
  case (Inr resource)
  then obtain row where row: "dget (resources db) (t, ''mpc_controller_state'', i) = Some row"
    "resource = row_resource ''mpc_controller_state'' i t row" by (rule resource_get_ok)
  have "db' = db" "r = Inr resource" using Inr load by (simp_all add: load_controller_def)
  then show ?thesis using row by (intro found) simp_all
next
  case (Inl e)
  show ?thesis
  proof (cases r)
    case (Inr resource)
    with load Inl obtain x where x: "repository_create sx str_decimal 0 i t (1 / 100) (''implicit-'' @ i) db = (Inr x, db')"
      and get: "resource_get_pg (sx_pool sx) ''mpc_controller_state'' i t db' = Inr resource"
      by (auto simp: load_controller_def split: py_error.splits sum.splits prod.splits)
    from get obtain row where t: "valid_tenant t" and row: "dget (resources db') (t, ''mpc_controller_state'', i) = Some row"
      "resource = row_resource ''mpc_controller_state'' i t row" by (rule resource_get_ok)
    have "dget (resources db) (t, ''mpc_controller_state'', i) = None"
    proof (rule ccontr)
      assume "dget (resources db) (t, ''mpc_controller_state'', i) \<noteq> None"
      then show False using get_found [OF t, of db "''mpc_controller_state''" i _ "sx_pool sx"] Inl by auto
    qed
    with x row Inr made show ?thesis by blast
  qed (use failed in blast)
qed

lemma create_elsewhere:
  assumes px: "pool_contract (sx_pool sx)" and run: "repository_create sx str_decimal n i' t' penalty key db = (r, db')"
    and "k \<noteq> (t', ''mpc_controller_state'', i')"
  shows "dget (resources db') k = dget (resources db) k"
  using run put_elsewhere [OF px _ assms(3)] by (auto simp: repository_create_def store_put_def split: prod.splits sum.splits)

lemma create_existing:
  assumes px: "pool_contract (sx_pool sx)" and run: "repository_create sx str_decimal n i t penalty key db = (r, db')"
    and row: "dget (resources db) (t, ''mpc_controller_state'', i) = Some row"
  shows "dget (resources db') k = dget (resources db) k"
proof -
  obtain r1 where put: "store_put sx n ''mpc_controller_state'' i t (export_state str_decimal (new_controller penalty))
      (''mpc-create:'' @ key) None db = (r1, db')"
    using run by (auto simp: repository_create_def split: prod.splits sum.splits)
  show ?thesis
    using row by (cases rule: pg_put_cases [OF px put [unfolded store_put_def]]) (auto simp: etag_conflict_def)
qed

lemma load_elsewhere:
  assumes px: "pool_contract (sx_pool sx)" and run: "load_controller sx str_decimal i' t' db = (r, db')"
    and k: "k \<noteq> (t', ''mpc_controller_state'', i')"
  shows "dget (resources db') k = dget (resources db) k"
  using run create_elsewhere [OF px _ k] by (auto simp: load_controller_def split: prod.splits sum.splits py_error.splits)

lemma cycle_elsewhere:
  assumes px: "pool_contract (sx_pool sx)"
    and run: "repository_cycle sx str_decimal str_set content_hash expired runtime i' t' request observed started_at key db = (r, db')"
    and k: "k \<noteq> (t', ''mpc_controller_state'', i')" and kind: "fst (snd k) = ''mpc_controller_state''"
  shows "dget (resources db') k = dget (resources db) k"
proof -
  have k': "k \<noteq> (t', ''mpc_cycle'', j)" for j using kind by auto
  note steps = load_elsewhere [OF px _ k] put_elsewhere [OF px _ k] put_elsewhere [OF px _ k']
  obtain rl db1 where load: "load_controller sx str_decimal i' t' db = (rl, db1)" by fastforce
  note same = load_elsewhere [OF px load k]
  show ?thesis
  proof (cases rl)
    case (Inr resource)
    show ?thesis
      using run same put_elsewhere [OF px _ k] put_elsewhere [OF px _ k']
      by (auto simp: repository_cycle_def load Inr store_put_def split: prod.splits sum.splits)
  qed (use run same load in \<open>simp add: repository_cycle_def\<close>)
qed

lemma taken_after_put:
  assumes px: "pool_contract px" and j: "jsonb_contract jsonb" and fin: "finite (mc_executed_slots st)"
    and run: "resource_put_pg px sha256 jsonb ttl db_now now ''mpc_controller_state'' i t (export_state str_decimal st) key if_match db = (r, db')"
    and "slot_taken i t slot db" "slot \<in> mc_executed_slots st"
  shows "slot_taken i t slot db'"
proof (cases rule: pg_put_cases [OF px run, case_names refused replayed new])
  case (new resource row)
  then have "rr_body row = stored jsonb (normalized (export_state str_decimal st) i)" by simp
  with new(14) assms(6) read_back_executed [OF j fin, of str_decimal i] show ?thesis
    by (auto simp: slot_taken_def split: sum.splits)
qed (use assms(5) in \<open>simp_all add: slot_taken_def\<close>)

lemma taken_call:
  assumes "repository_call db db'" "slot_taken i t slot db" "valid_tenant t"
  shows "slot_taken i t slot db'"
  using assms(1)
proof cases
  case (create sx str_decimal n i' t' penalty key r)
  show ?thesis
  proof (cases "(t, i) = (t', i')")
    case True
    then show ?thesis
      using assms(2) create_existing [OF create(1,3)] by (auto simp: slot_taken_def split: option.splits)
  next
    case False
    then show ?thesis using assms(2) create_elsewhere [OF create(1,3)] by (auto simp: slot_taken_def)
  qed
next
  case (put sx kind n i' t' body key if_match r)
  then show ?thesis using assms(2) put_elsewhere [OF put(1) put(3) [unfolded store_put_def]] by (auto simp: slot_taken_def)
next
  case (cycle sx str_decimal str_set content_hash expired runtime i' t' request observed started_at key r)
  show ?thesis
  proof (cases "(t, i) = (t', i')")
    case True
    obtain row where row: "dget (resources db) (t, ''mpc_controller_state'', i) = Some row"
      using assms(2) by (auto simp: slot_taken_def split: option.splits)
    note got = get_found [OF assms(3) row, of "sx_pool sx"]
    have load: "load_controller sx str_decimal i t db = (Inr (row_resource ''mpc_controller_state'' i t row), db)"
      by (simp add: load_controller_def got)
    show ?thesis
    proof (cases "from_state (rr_body row)")
      case (Inl e)
      then show ?thesis using cycle(3) True assms(2) load by (simp add: repository_cycle_def row_resource_def)
    next
      case (Inr st)
      then have slot: "slot \<in> mc_executed_slots st" using assms(2) row by (simp add: slot_taken_def)
      obtain rc st' where run: "Mpc.cycle content_hash expired runtime request observed started_at [] st = (rc, st')" by fastforce
      have st': "finite (mc_executed_slots st')" "slot \<in> mc_executed_slots st'"
        using cycle_finite [OF run from_state_finite [OF Inr]] executed_mono [OF mpc_step.cycle [OF run]] slot by auto
      obtain r1 db1 where put1: "store_put sx 1 ''mpc_controller_state'' i t (export_state str_decimal st') (''mpc-state:'' @ key)
          (Some (rr_etag row)) db = (r1, db1)" by fastforce
      note taken1 = taken_after_put [OF cycle(1,2) st'(1) put1 [unfolded store_put_def] assms(2) st'(2)]
      have "db' = db \<or> db' = db1 \<or> (\<exists>j body r2. store_put sx 2 ''mpc_cycle'' j t body (''mpc-cycle:'' @ key) None db1 = (r2, db'))"
        using cycle(3) True load run put1 Inr
        by (auto simp: repository_cycle_def row_resource_def split: sum.splits prod.splits)
      then show ?thesis
        using assms(2) taken1 put_elsewhere [OF cycle(1)]
        by (auto simp: store_put_def slot_taken_def)
    qed
  next
    case False
    then have "dget (resources db') (t, ''mpc_controller_state'', i) = dget (resources db) (t, ''mpc_controller_state'', i)"
      by (intro cycle_elsewhere [OF cycle(1,3)]) auto
    then show ?thesis using assms(2) by (simp add: slot_taken_def)
  qed
qed

lemma taken_calls: "repository_call\<^sup>*\<^sup>* db db' \<Longrightarrow> slot_taken i t slot db \<Longrightarrow> valid_tenant t \<Longrightarrow> slot_taken i t slot db'"
  by (induction rule: rtranclp_induct) (auto dest: taken_call)

lemma taken_refused:
  assumes "slot_taken i t slot db" "valid_tenant t" "slot \<in> set (map ts_index (si_slots request))"
  obtains resource where "resource_get_pg (sx_pool sx) ''mpc_controller_state'' i t db = Inr resource"
    "repository_cycle sx str_decimal str_set content_hash expired runtime i t request observed started_at key db =
       (case from_state (sr_body resource) of
          Inl e \<Rightarrow> (Inl e, db) | Inr _ \<Rightarrow> (Inl (ValueError ''already executed intervals cannot be rewritten''), db))"
proof -
  obtain row where row: "dget (resources db) (t, ''mpc_controller_state'', i) = Some row"
    and ex: "\<forall>st. from_state (rr_body row) = Inr st \<longrightarrow> slot \<in> mc_executed_slots st"
    using assms(1) by (auto simp: slot_taken_def split: option.splits sum.splits)
  note got = get_found [OF assms(2) row, of "sx_pool sx"]
  have "cycle content_hash expired runtime request observed started_at [] st =
      (Inl (ValueError ''already executed intervals cannot be rewritten''), st)" if "from_state (rr_body row) = Inr st" for st
    using that ex assms(3) by (auto simp: cycle_def)
  then have "repository_cycle sx str_decimal str_set content_hash expired runtime i t request observed started_at key db =
       (case from_state (sr_body (row_resource ''mpc_controller_state'' i t row)) of
          Inl e \<Rightarrow> (Inl e, db) | Inr _ \<Rightarrow> (Inl (ValueError ''already executed intervals cannot be rewritten''), db))"
    by (auto simp: repository_cycle_def load_controller_def got row_resource_def split: sum.splits)
  with got that show ?thesis by blast
qed

lemma repository_cycle_ok:
  assumes rep: "repository_cycle sx str_decimal str_set content_hash expired runtime i t request observed started_at key db = (Inr c, db')"
  obtains resource db0 st st' x1 x2 db1 where "load_controller sx str_decimal i t db = (Inr resource, db0)"
    "from_state (sr_body resource) = Inr st" "cycle content_hash expired runtime request observed started_at [] st = (Inr c, st')"
    "store_put sx 1 ''mpc_controller_state'' i t (export_state str_decimal st') (''mpc-state:'' @ key) (Some (sr_etag resource)) db0 = (Inr x1, db1)"
    "store_put sx 2 ''mpc_cycle'' (i @ ''-'' @ string_of_int (cy_id c)) t (cycle_json str_decimal str_set c) (''mpc-cycle:'' @ key) None db1 =
       (Inr x2, db')"
  using rep that by (auto simp: repository_cycle_def split: prod.splits sum.splits)

lemma load_keeps_fresh:
  assumes px: "pool_contract (sx_pool sx)" and load: "load_controller sx str_decimal i t db = (Inr resource, db0)"
    and fresh: "dget (live_records (t, ''mpc-state:'' @ key) now db) (t, ''mpc-state:'' @ key) = None"
  shows "dget (live_records (t, ''mpc-state:'' @ key) now db0) (t, ''mpc-state:'' @ key) = None"
proof (cases rule: load_controller_cases [OF px load, case_names failed found made])
  case (made row x)
  then obtain x' where "store_put sx 0 ''mpc_controller_state'' i t (export_state str_decimal (new_controller (1 / 100)))
      (''mpc-create:'' @ ''implicit-'' @ i) None db = (Inr x', db0)"
    by (auto simp: repository_create_def split: prod.splits sum.splits)
  from put_state_key [OF px this [unfolded store_put_def] fresh] show ?thesis by simp
qed (use fresh in auto)

lemma stored_after_cycle:
  assumes px: "pool_contract (sx_pool sx)"
    and load: "load_controller sx str_decimal i t db = (Inr resource, db0)"
    and fresh: "dget (live_records (t, ''mpc-state:'' @ key) (fst (sx_clock sx 1)) db) (t, ''mpc-state:'' @ key) = None"
    and put1: "store_put sx 1 ''mpc_controller_state'' i t body (''mpc-state:'' @ key) if_match db0 = (Inr x1, db1)"
    and put2: "store_put sx 2 ''mpc_cycle'' j t body' key' None db1 = (Inr x2, db')"
  obtains row where "valid_tenant t" "dget (resources db') (t, ''mpc_controller_state'', i) = Some row"
    "rr_version row = sr_version resource + 1" "rr_body row = stored (sx_jsonb sx) (normalized body i)"
proof -
  let ?k = "(t, ''mpc_controller_state'', i)"
  obtain row0 where row0: "dget (resources db0) ?k = Some row0" "resource = row_resource ''mpc_controller_state'' i t row0"
    by (cases rule: load_controller_cases [OF px load]) auto
  obtain row where t: "valid_tenant t" and row: "dget (resources db1) ?k = Some row"
    "rr_version row = next_version_of (row_current db0 ?k)" "rr_body row = stored (sx_jsonb sx) (normalized body i)"
    by (rule put_fresh [OF px put1 [unfolded store_put_def] load_keeps_fresh [OF px load fresh]])
  show ?thesis
    using t row row0 put_elsewhere [OF px put2 [unfolded store_put_def], of ?k]
    by (intro that [of row]) (auto simp: row_resource_def row_current_def)
qed

lemma cycle_dispatches:
  assumes run: "cycle content_hash expired runtime request observed started_at planned st = (Inr c, st')"
    and slots: "si_slots request \<noteq> []"
  obtains slot where "slot \<in> set (map ts_index (si_slots request))" "\<forall>j \<in> set (map ts_index (si_slots request)). slot \<le> j"
    "slot \<notin> mc_executed_slots st" "mc_executed_slots st' = insert slot (mc_executed_slots st)"
    "\<forall>a \<in> set (cy_current_allocations c). al_slot_indices a = [slot]"
proof (rule cycle_cases [OF run])
  fix c'
  assume free: "\<forall>slot \<in> set (si_slots request). ts_index slot \<notin> mc_executed_slots st" and c: "Inr c = Inr c'"
    and cur: "cy_current_allocations c' = current_allocations (cy_new_plan c') (current_slot request (mc_executed_slots st))"
    and ex: "mc_executed_slots st' = (case current_slot request (mc_executed_slots st) of
           None \<Rightarrow> mc_executed_slots st | Some i \<Rightarrow> insert i (mc_executed_slots st))"
  obtain slot where slot: "current_slot request (mc_executed_slots st) = Some slot"
    using slots free by (cases "si_slots request") (auto simp: current_slot_def)
  note first = current_slot_Some [OF slot]
  show ?thesis
    using first(1,2) first(3) free c cur slot ex by (intro that [of slot]) (auto simp: current_allocations_def)
qed simp

text \<open>
  C17: A controller in the store dispatches every slot once, over restarts of the process too. A cycle of
  the repository over a horizon with slots that returns, under an idempotency key without a live
  record, ran on the stored controller (created on the spot when there was none) and dispatched for
  one slot, the first of the horizon, which that controller had not executed before; the controller
  after the cycle has executed exactly this slot more, it is stored as the next version, and it reads
  back as it was when its decimals do. From then on, after any sequence of creations and cycles of
  any controllers and of writes of other resources, in any process, a cycle of the controller whose
  horizon has the slot is refused and writes nothing: the stored controller reads with the slot
  executed, or it does not read and the cycle raises that error.
\<close>
theorem repository_dispatches_once:
  assumes px: "pool_contract (sx_pool sx)" and jsonb: "jsonb_contract (sx_jsonb sx)"
    and slots: "si_slots request \<noteq> []"
    and fresh: "dget (live_records (t, ''mpc-state:'' @ key) (fst (sx_clock sx 1)) db) (t, ''mpc-state:'' @ key) = None"
    and rep: "repository_cycle sx str_decimal str_set content_hash expired runtime i t request observed started_at key db = (Inr c, db')"
  shows "\<exists>resource db0 st st' slot resource'.
    load_controller sx str_decimal i t db = (Inr resource, db0) \<and> from_state (sr_body resource) = Inr st \<and>
    cycle content_hash expired runtime request observed started_at [] st = (Inr c, st') \<and>
    slot \<in> set (map ts_index (si_slots request)) \<and> (\<forall>j \<in> set (map ts_index (si_slots request)). slot \<le> j) \<and>
    slot \<notin> mc_executed_slots st \<and> mc_executed_slots st' = insert slot (mc_executed_slots st) \<and>
    (\<forall>a \<in> set (cy_current_allocations c). al_slot_indices a = [slot]) \<and>
    resource_get_pg (sx_pool sx) ''mpc_controller_state'' i t db' = Inr resource' \<and> sr_version resource' = sr_version resource + 1 \<and>
    (storable_controller str_decimal st' \<longrightarrow> from_state (sr_body resource') = Inr (st'\<lparr>mc_cycles := []\<rparr>)) \<and>
    (\<forall>db'' sx' request'. repository_call\<^sup>*\<^sup>* db' db'' \<longrightarrow> slot \<in> set (map ts_index (si_slots request')) \<longrightarrow>
      (\<exists>resource''. resource_get_pg (sx_pool sx') ''mpc_controller_state'' i t db'' = Inr resource'' \<and>
        repository_cycle sx' str_decimal' str_set' content_hash' expired' runtime' i t request' observed' started_at' key' db'' =
          (case from_state (sr_body resource'') of
             Inl e \<Rightarrow> (Inl e, db'')
           | Inr _ \<Rightarrow> (Inl (ValueError ''already executed intervals cannot be rewritten''), db''))))"
proof (rule repository_cycle_ok [OF rep])
  fix resource db0 st st' x1 x2 db1
  assume load: "load_controller sx str_decimal i t db = (Inr resource, db0)" and st: "from_state (sr_body resource) = Inr st"
    and run: "cycle content_hash expired runtime request observed started_at [] st = (Inr c, st')"
    and put1: "store_put sx 1 ''mpc_controller_state'' i t (export_state str_decimal st') (''mpc-state:'' @ key)
      (Some (sr_etag resource)) db0 = (Inr x1, db1)"
    and put2: "store_put sx 2 ''mpc_cycle'' (i @ ''-'' @ string_of_int (cy_id c)) t (cycle_json str_decimal str_set c)
      (''mpc-cycle:'' @ key) None db1 = (Inr x2, db')"
  obtain slot where slot: "slot \<in> set (map ts_index (si_slots request))" "\<forall>j \<in> set (map ts_index (si_slots request)). slot \<le> j"
    "slot \<notin> mc_executed_slots st" "mc_executed_slots st' = insert slot (mc_executed_slots st)"
    "\<forall>a \<in> set (cy_current_allocations c). al_slot_indices a = [slot]"
    by (rule cycle_dispatches [OF run slots])
  obtain row where t: "valid_tenant t" and row: "dget (resources db') (t, ''mpc_controller_state'', i) = Some row"
    "rr_version row = sr_version resource + 1" "rr_body row = stored (sx_jsonb sx) (normalized (export_state str_decimal st') i)"
    by (rule stored_after_cycle [OF px load fresh put1 put2])
  let ?r = "row_resource ''mpc_controller_state'' i t row"
  have taken: "slot_taken i t slot db'"
    using row slot(4) read_back_executed [OF jsonb cycle_finite [OF run from_state_finite [OF st]], of str_decimal i]
    by (auto simp: slot_taken_def split: sum.splits)
  have reread: "storable_controller str_decimal st' \<longrightarrow> from_state (sr_body ?r) = Inr (st'\<lparr>mc_cycles := []\<rparr>)"
    using controller_jsonb [OF jsonb] by (simp add: row_resource_def row(3))
  have later: "\<exists>resource''. resource_get_pg (sx_pool sx') ''mpc_controller_state'' i t db'' = Inr resource'' \<and>
        repository_cycle sx' str_decimal' str_set' content_hash' expired' runtime' i t request' observed' started_at' key' db'' =
          (case from_state (sr_body resource'') of
             Inl e \<Rightarrow> (Inl e, db'')
           | Inr _ \<Rightarrow> (Inl (ValueError ''already executed intervals cannot be rewritten''), db''))"
    if "repository_call\<^sup>*\<^sup>* db' db''" "slot \<in> set (map ts_index (si_slots request'))" for db'' sx' request'
    by (rule taken_refused [OF taken_calls [OF that(1) taken t] t that(2)]) (rule exI, rule conjI)
  have "resource_get_pg (sx_pool sx) ''mpc_controller_state'' i t db' = Inr ?r" "sr_version ?r = sr_version resource + 1"
    using get_found [OF t row(1)] row(2) by (simp_all add: row_resource_def)
  with load st run slot reread show ?thesis
    by (intro exI [of _ resource] exI [of _ db0] exI [of _ st] exI [of _ st'] exI [of _ slot] exI [of _ ?r] conjI)
      (assumption+, intro allI impI, rule later)
qed

definition example_context :: store_context where
  "example_context =
     \<lparr>sx_pool = commit_or_rollback, sx_sha256 = (\<lambda>s. s), sx_jsonb = (\<lambda>v. v), sx_ttl = 100, sx_clock = (\<lambda>n. (int n, int n))\<rparr>"

definition example_controller :: mpc_controller where
  "example_controller = new_controller 0\<lparr>mc_last_safe := Some safe_plan_example, mc_executed_slots := {0}\<rparr>"

definition example_row :: resource_row where
  "example_row = \<lparr>rr_version = 1, rr_etag = ''e1'',
     rr_body = stored (\<lambda>v. v) (normalized (export_state (\<lambda>_. ''0'') example_controller) ''c1'')\<rparr>"

definition example_store :: store_db where
  "example_store =
     \<lparr>resources = [((''t1'', ''mpc_controller_state'', ''c1''), example_row)], resource_versions = [], idempotency_records = []\<rparr>"

abbreviation example_run :: "store_db \<Rightarrow> mpc_cycle result \<times> store_db" where
  "example_run \<equiv> repository_cycle example_context (\<lambda>_. ''0'') (\<lambda>_. ''frozenset()'') (\<lambda>_. ''digest'') (\<lambda>_. False) 0 ''c1'' ''t1''
     (empty_horizon [1]) (observed_example 0) (Aware 0) ''key-1''"

lemma example_controller_storable:
  "storable_controller (\<lambda>_. ''0'') (example_controller\<lparr>mc_executed_slots := {0, 1}, mc_cycle_sequence := 1, mc_cycles := cs\<rparr>)"
  "storable_controller (\<lambda>_. ''0'') example_controller"
proof -
  have "readable (\<lambda>_. ''0'') 0" unfolding readable_def by code_simp
  then show "storable_controller (\<lambda>_. ''0'') (example_controller\<lparr>mc_executed_slots := {0, 1}, mc_cycle_sequence := 1, mc_cycles := cs\<rparr>)"
    "storable_controller (\<lambda>_. ''0'') example_controller"
    by (simp_all add: storable_controller_def example_controller_def new_controller_def safe_plan_example_def)
qed

lemma example_controller_cycle:
  obtains c where
    "cycle (\<lambda>_. ''digest'') (\<lambda>_. False) 0 (empty_horizon [1]) (observed_example 0) (Aware 0) [] example_controller =
      (Inr c, example_controller\<lparr>mc_executed_slots := {0, 1}, mc_cycle_sequence := 1, mc_cycles := [c]\<rparr>)"
proof -
  obtain res where "optimize (\<lambda>_. ''digest'') (\<lambda>_. False) 0 (empty_horizon [1]) = Inr res"
    using optimize_empty [of "[1]"] by blast
  moreover have "current_slot (empty_horizon [1]) {0} = Some 1"
    by (simp add: current_slot_def empty_horizon_def)
  ultimately show ?thesis
    using that
    by (auto simp: cycle_def Let_def choose_plan_def no_plan_def observed_example_def empty_horizon_def
        example_controller_def new_controller_def)
qed

lemma example_controller_get:
  "resource_get_pg commit_or_rollback ''mpc_controller_state'' ''c1'' ''t1'' example_store =
     Inr (row_resource ''mpc_controller_state'' ''c1'' ''t1'' example_row)"
  by (rule get_found) (simp_all add: valid_tenant_def example_store_def)

lemma example_controller_read:
  "from_state (sr_body (row_resource ''mpc_controller_state'' ''c1'' ''t1'' example_row)) = Inr example_controller"
  by (simp add: row_resource_def example_row_def controller_jsonb [OF jsonb_id_contract example_controller_storable(2)])
    (simp add: example_controller_def new_controller_def)

lemma example_run_ok:
  assumes "cycle (\<lambda>_. ''digest'') (\<lambda>_. False) 0 (empty_horizon [1]) (observed_example 0) (Aware 0) [] example_controller = (Inr c, st')"
  obtains db' where "example_run example_store = (Inr c, db')"
proof -
  have t: "valid_tenant ''t1''" by (simp add: valid_tenant_def)
  note put = resource_put_pg_def store_put_def tenant_connection_eq [OF commit_or_rollback_contract t] resource_put_body_def Let_def
    live_records_def etag_conflict_def example_context_def
  show ?thesis
    using assms that example_controller_get example_controller_read
    by (simp add: repository_cycle_def load_controller_def put row_resource_def example_store_def example_row_def)
qed

theorem repository_dispatches_once_witness:
  "\<exists>c db'. example_run example_store = (Inr c, db') \<and>
     example_run db' = (Inl (ValueError ''already executed intervals cannot be rewritten''), db')"
proof -
  obtain c where run: "cycle (\<lambda>_. ''digest'') (\<lambda>_. False) 0 (empty_horizon [1]) (observed_example 0) (Aware 0) [] example_controller =
      (Inr c, example_controller\<lparr>mc_executed_slots := {0, 1}, mc_cycle_sequence := 1, mc_cycles := [c]\<rparr>)"
    by (rule example_controller_cycle)
  obtain db' where rep: "example_run example_store = (Inr c, db')" by (rule example_run_ok [OF run])
  have load: "load_controller example_context (\<lambda>_. ''0'') ''c1'' ''t1'' example_store =
      (Inr (row_resource ''mpc_controller_state'' ''c1'' ''t1'' example_row), example_store)"
    by (simp add: load_controller_def example_context_def example_controller_get)
  have hyps: "pool_contract (sx_pool example_context)" "jsonb_contract (sx_jsonb example_context)" "si_slots (empty_horizon [1]) \<noteq> []"
    "dget (live_records (''t1'', ''mpc-state:'' @ ''key-1'') (fst (sx_clock example_context 1)) example_store) (''t1'', ''mpc-state:'' @ ''key-1'') = None"
    by (simp_all add: example_context_def commit_or_rollback_contract jsonb_id_contract empty_horizon_def example_store_def live_records_def)
  obtain resource db0 st st' slot resource' where
    l: "load_controller example_context (\<lambda>_. ''0'') ''c1'' ''t1'' example_store = (Inr resource, db0)"
    and f: "from_state (sr_body resource) = Inr st"
    and r: "cycle (\<lambda>_. ''digest'') (\<lambda>_. False) 0 (empty_horizon [1]) (observed_example 0) (Aware 0) [] st = (Inr c, st')"
    and slot: "slot \<in> set (map ts_index (si_slots (empty_horizon [1])))"
    and got: "resource_get_pg (sx_pool example_context) ''mpc_controller_state'' ''c1'' ''t1'' db' = Inr resource'"
    and read: "storable_controller (\<lambda>_. ''0'') st' \<longrightarrow> from_state (sr_body resource') = Inr (st'\<lparr>mc_cycles := []\<rparr>)"
    and later: "\<forall>db'' sx' request'. repository_call\<^sup>*\<^sup>* db' db'' \<longrightarrow> slot \<in> set (map ts_index (si_slots request')) \<longrightarrow>
      (\<exists>resource''. resource_get_pg (sx_pool sx') ''mpc_controller_state'' ''c1'' ''t1'' db'' = Inr resource'' \<and>
        repository_cycle sx' (\<lambda>_. ''0'') (\<lambda>_. ''frozenset()'') (\<lambda>_. ''digest'') (\<lambda>_. False) 0 ''c1'' ''t1'' request' (observed_example 0)
          (Aware 0) ''key-1'' db'' =
          (case from_state (sr_body resource'') of
             Inl e \<Rightarrow> (Inl e, db'')
           | Inr _ \<Rightarrow> (Inl (ValueError ''already executed intervals cannot be rewritten''), db'')))"
    using repository_dispatches_once [OF hyps rep, of "\<lambda>_. ''0''" "\<lambda>_. ''frozenset()''" "\<lambda>_. ''digest''" "\<lambda>_. False" 0 "observed_example 0"
        "Aware 0" "''key-1''"]
    by (elim exE conjE)
  have "st = example_controller" using l f load example_controller_read by simp
  then have "st' = example_controller\<lparr>mc_executed_slots := {0, 1}, mc_cycle_sequence := 1, mc_cycles := [c]\<rparr>" using r run by simp
  then have "from_state (sr_body resource') = Inr (st'\<lparr>mc_cycles := []\<rparr>)" using read example_controller_storable(1) by simp
  with later [rule_format, OF rtranclp.rtrancl_refl slot, of example_context] got
  have "example_run db' = (Inl (ValueError ''already executed intervals cannot be rewritten''), db')" by auto
  with rep show ?thesis by (intro exI conjI)
qed

section \<open>Jobs that put resources\<close>

text \<open>
  Further: A job that puts a resource takes effect once, although the queue may run it more than once. After a
  run of the handler (the first under the key of the job) the worker may crash before it settles the
  job; when the job is claimed again, after any other puts and before the replay record expires, the
  handler returns the same result and changes no resource and no version, even when the job carries
  an \<open>if_match\<close> that its own first run has made stale.
\<close>
theorem resource_put_job_once:
  assumes px: "pool_contract (sx_pool sx)" and jsonb: "jsonb_contract (sx_jsonb sx)"
    and first: "dget (live_records (dj_tenant_id job, ''job:'' @ dj_idempotency_key job) (fst (sx_clock sx 0)) db)
      (dj_tenant_id job, ''job:'' @ dj_idempotency_key job) = None"
    and run: "resource_put_handler sx job db = (Inr res, db1)"
    and steps: "(store_step (sx_pool sx) (sx_sha256 sx) (sx_jsonb sx) (sx_ttl sx) (\<lambda>c. c < snd (sx_clock sx 0) + sx_ttl sx))\<^sup>*\<^sup>* db1 db2"
    and live: "fst (clock' 0) < snd (sx_clock sx 0) + sx_ttl sx"
  shows "\<exists>db3. resource_put_handler (sx\<lparr>sx_clock := clock'\<rparr>) job db2 = (Inr res, db3) \<and>
    resources db3 = resources db2 \<and> resource_versions db3 = resource_versions db2"
proof -
  obtain kind i body if_match where args: "rbind (py_item (dj_payload job) ''kind'') (\<lambda>kind. rbind (py_item (dj_payload job) ''resource_id'') (\<lambda>resource_id.
      rbind (rbind (py_item (dj_payload job) ''body'') dict_of_value) (\<lambda>body.
      rbind (optional_text (dget_or (dj_payload job) ''if_match'' PNone)) (\<lambda>if_match.
        Inr (py_str kind, py_str resource_id, body, if_match))))) = Inr (kind, i, body, if_match)"
    using run by (auto simp: resource_put_handler_def Let_def split: sum.splits)
  obtain x where put: "store_put sx 0 kind i (dj_tenant_id job) body (''job:'' @ dj_idempotency_key job) if_match db = (Inr x, db1)"
    and res: "res = [(''resource_id'', PStr (sr_id x)), (''version'', PInt (sr_version x)), (''etag'', PStr (sr_etag x))]"
    using run args by (auto simp: resource_put_handler_def Let_def split: sum.splits prod.splits)
  let ?sx = "sx\<lparr>sx_clock := clock'\<rparr>"
  obtain r db3 where again: "store_put ?sx 0 kind i (dj_tenant_id job) body (''job:'' @ dj_idempotency_key job) if_match db2 = (r, db3)"
    by fastforce
  have "r = Inr (x\<lparr>sr_body := stored (sx_jsonb sx) (sr_body x)\<rparr>) \<and> resources db3 = resources db2 \<and> resource_versions db3 = resource_versions db2"
    using put_again [OF px jsonb first put [unfolded store_put_def] steps live, of "snd (clock' 0)" kind i body if_match r db3] again
    by (simp add: store_put_def)
  with again args res show ?thesis by (simp add: resource_put_handler_def Let_def)
qed

definition example_put_job :: durable_job where
  "example_put_job =
     \<lparr>dj_id = 1, dj_tenant_id = ''t1'', dj_kind = ''resource_put'',
      dj_payload = [(''kind'', PStr ''site''), (''resource_id'', PStr ''site-1''), (''body'', PDict [(''name'', PStr ''north'')])],
      dj_idempotency_key = ''job-key'', dj_attempt = 1, dj_max_attempts = 5, dj_lease_expires_at = 30\<rparr>"

theorem resource_put_job_once_witness:
  "\<exists>res db1 db3. resource_put_handler example_context example_put_job store_db_init = (Inr res, db1) \<and>
     resource_put_handler (example_context\<lparr>sx_clock := \<lambda>n. (50, 50)\<rparr>) example_put_job db1 = (Inr res, db3) \<and>
     resources db3 = resources db1 \<and> dkeys (resources db1) = [(''t1'', ''site'', ''site-1'')]"
proof -
  have t: "valid_tenant ''t1''" by (simp add: valid_tenant_def)
  have "\<exists>res db1. resource_put_handler example_context example_put_job store_db_init = (Inr res, db1) \<and>
      dkeys (resources db1) = [(''t1'', ''site'', ''site-1'')]"
    by (simp add: resource_put_handler_def example_put_job_def example_context_def store_put_def resource_put_pg_def Let_def
        tenant_connection_eq [OF commit_or_rollback_contract t] resource_put_body_def store_db_init_def live_records_def
        etag_conflict_def py_item_def dict_of_value_def optional_text_def dget_or_def)
  then obtain res db1 where run: "resource_put_handler example_context example_put_job store_db_init = (Inr res, db1)"
    and rows: "dkeys (resources db1) = [(''t1'', ''site'', ''site-1'')]" by (elim exE conjE)
  have "pool_contract (sx_pool example_context)" "jsonb_contract (sx_jsonb example_context)"
    by (simp_all add: example_context_def commit_or_rollback_contract jsonb_id_contract)
  note once = resource_put_job_once [OF this _ run rtranclp.rtrancl_refl, of "\<lambda>n. (50, 50)"]
  have "\<exists>db3. resource_put_handler (example_context\<lparr>sx_clock := \<lambda>n. (50, 50)\<rparr>) example_put_job db1 = (Inr res, db3) \<and>
      resources db3 = resources db1 \<and> resource_versions db3 = resource_versions db1"
    by (rule once) (simp_all add: live_records_def store_db_init_def example_context_def)
  then obtain db3 where "resource_put_handler (example_context\<lparr>sx_clock := \<lambda>n. (50, 50)\<rparr>) example_put_job db1 = (Inr res, db3)"
    "resources db3 = resources db1" by (elim exE conjE)
  with run rows show ?thesis by (intro exI conjI)
qed

end
