(* ===== verification/Energy.thy ===== *)
theory Energy
  imports Domain "HOL-Library.Multiset"
begin

text \<open>
  \<open>packages/energy\<close> (assets, battery, PUE, power balance), \<open>packages/resilience/planner.py\<close> and
  \<open>packages/island/planner.py\<close>. Decimals are those of the theory \<open>Decimal_Arith\<close>: every operation
  rounds to the 28 digits of the default context.
\<close>

section \<open>Assets\<close>

record grid_connection =
  gc_id :: string
  gc_topology_asset_id :: string
  gc_import_limit_kw :: decimal
  gc_export_limit_kw :: decimal

record battery =
  bt_id :: string
  bt_topology_asset_id :: string
  bt_capacity_kwh :: decimal
  bt_max_charge_kw :: decimal
  bt_max_discharge_kw :: decimal
  bt_charge_efficiency :: decimal
  bt_discharge_efficiency :: decimal
  bt_min_soc :: decimal
  bt_max_soc :: decimal
  bt_reserve_soc :: decimal
  bt_degradation_cost_per_kwh :: decimal

definition mk_battery :: "battery \<Rightarrow> battery result" where
  "mk_battery b =
     (if \<not> (0 < bt_charge_efficiency b \<and> bt_charge_efficiency b \<le> 1) \<or>
         \<not> (0 < bt_discharge_efficiency b \<and> bt_discharge_efficiency b \<le> 1)
      then Inl (ValueError ''battery efficiency must be in (0, 1]'')
      else if \<not> (0 \<le> bt_min_soc b \<and> bt_min_soc b \<le> bt_reserve_soc b \<and> bt_reserve_soc b \<le> bt_max_soc b \<and> bt_max_soc b \<le> 1)
      then Inl (ValueError ''invalid battery SOC bounds'')
      else Inr b)"

definition next_soc :: "battery \<Rightarrow> decimal \<Rightarrow> decimal \<Rightarrow> decimal \<Rightarrow> decimal \<Rightarrow> decimal result" where
  "next_soc asset soc charge_kw discharge_kw hours =
     (if charge_kw < 0 \<or> discharge_kw < 0 \<or> hours \<le> 0
      then Inl (ValueError ''battery dispatch values must be non-negative and duration positive'')
      else if charge_kw > 0 \<and> discharge_kw > 0
      then Inl (ValueError ''battery cannot charge and discharge simultaneously'')
      else if charge_kw > bt_max_charge_kw asset \<or> discharge_kw > bt_max_discharge_kw asset
      then Inl (ValueError ''battery power limit exceeded'')
      else
        let stored_delta = dmul (dmul charge_kw (bt_charge_efficiency asset)) hours in
        rbind (ddiv discharge_kw (bt_discharge_efficiency asset)) (\<lambda>drawn.
          let withdrawn_delta = dmul drawn hours in
          rbind (ddiv (dsub stored_delta withdrawn_delta) (bt_capacity_kwh asset)) (\<lambda>change.
            let res = dadd soc change in
            if \<not> (bt_min_soc asset \<le> res \<and> res \<le> bt_max_soc asset)
            then Inl (ValueError ''battery SOC bound violated'') else Inr res)))"

definition degradation_cost :: "battery \<Rightarrow> decimal \<Rightarrow> decimal \<Rightarrow> decimal \<Rightarrow> decimal" where
  "degradation_cost asset charge_kw discharge_kw hours =
     dmul (dmul (dadd charge_kw discharge_kw) hours) (bt_degradation_cost_per_kwh asset)"

section \<open>Power balance\<close>

definition facility_power_kw :: "decimal \<Rightarrow> decimal \<Rightarrow> decimal \<Rightarrow> decimal result" where
  "facility_power_kw it_power_kw pue fixed_load_kw =
     (if it_power_kw < 0 \<or> fixed_load_kw < 0 \<or> pue < 1
      then Inl (ValueError ''PUE must be >= 1 and loads non-negative'')
      else Inr (dadd (dmul it_power_kw pue) fixed_load_kw))"

record dispatch =
  ds_grid_import_kw :: decimal
  ds_grid_export_kw :: decimal
  ds_pv_kw :: decimal
  ds_battery_charge_kw :: decimal
  ds_battery_discharge_kw :: decimal
  ds_generator_kw :: decimal
  ds_curtailed_kw :: decimal

record power_balance_result =
  pb_facility_load_kw :: decimal
  pb_supply_kw :: decimal
  pb_demand_kw :: decimal
  pb_residual_kw :: decimal
  pb_violations :: "string list"

definition validate_power_balance ::
  "decimal \<Rightarrow> decimal \<Rightarrow> decimal \<Rightarrow> dispatch \<Rightarrow> grid_connection \<Rightarrow> decimal \<Rightarrow> power_balance_result result" where
  "validate_power_balance compute_load_kw pue fixed_load_kw d grid tolerance_kw =
     (let values = [ds_grid_import_kw d, ds_grid_export_kw d, ds_pv_kw d, ds_battery_charge_kw d, ds_battery_discharge_kw d,
                    ds_generator_kw d, ds_curtailed_kw d] in
      if \<exists>v \<in> set values. v < 0 then Inl (ValueError ''dispatch powers cannot be negative'')
      else if ds_battery_charge_kw d > 0 \<and> ds_battery_discharge_kw d > 0
      then Inl (ValueError ''simultaneous battery charge/discharge'')
      else
        rbind (facility_power_kw compute_load_kw pue fixed_load_kw) (\<lambda>facility.
          let supply = dadd (dadd (dadd (ds_grid_import_kw d) (ds_pv_kw d)) (ds_battery_discharge_kw d)) (ds_generator_kw d);
              demand = dadd (dadd (dadd facility (ds_battery_charge_kw d)) (ds_grid_export_kw d)) (ds_curtailed_kw d);
              residual = dsub supply demand
          in Inr \<lparr>pb_facility_load_kw = facility, pb_supply_kw = supply, pb_demand_kw = demand, pb_residual_kw = residual,
                  pb_violations =
                    (if \<bar>residual\<bar> > tolerance_kw then [''POWER_BALANCE''] else []) @
                    (if ds_grid_import_kw d > gc_import_limit_kw grid then [''GRID_IMPORT_CAPACITY''] else []) @
                    (if ds_grid_export_kw d > gc_export_limit_kw grid then [''GRID_EXPORT_CAPACITY''] else [])\<rparr>))"

section \<open>Degraded operation\<close>

record critical_load =
  cl_id :: string
  cl_power_kw :: decimal
  cl_priority :: int
  cl_critical :: bool

record degraded_plan =
  dg_served :: "string list"
  dg_shed :: "string list"
  dg_used_power_kw :: decimal
  dg_hard_violations :: "string list"

definition load_key :: "critical_load \<Rightarrow> bool \<times> int \<times> string" where
  "load_key l = (\<not> cl_critical l, - cl_priority l, cl_id l)"

fun serve_loads :: "decimal \<Rightarrow> critical_load list \<Rightarrow> string list \<times> string list \<times> decimal \<Rightarrow> string list \<times> string list \<times> decimal" where
  "serve_loads available [] acc = acc"
| "serve_loads available (l # ls) (served, shed, used) =
     (if dadd used (cl_power_kw l) \<le> available
      then serve_loads available ls (served @ [cl_id l], shed, dadd used (cl_power_kw l))
      else serve_loads available ls (served, shed @ [cl_id l], used))"

definition plan_degraded_mode :: "critical_load list \<Rightarrow> decimal \<Rightarrow> degraded_plan" where
  "plan_degraded_mode loads available_power_kw =
     (case serve_loads available_power_kw (sort_key load_key loads) ([], [], 0) of (served, shed, used) \<Rightarrow>
        \<lparr>dg_served = served, dg_shed = shed, dg_used_power_kw = used,
         dg_hard_violations =
           map (\<lambda>l. ''CRITICAL_LOAD_SHED:'' @ cl_id l) (filter (\<lambda>l. cl_critical l \<and> cl_id l \<in> set shed) loads)\<rparr>)"

record island_plan =
  ip_served :: "string list"
  ip_shed :: "string list"
  ip_survival_hours :: decimal
  ip_reserve_kwh :: decimal
  ip_violations :: "string list"

definition plan_island_survival ::
  "critical_load list \<Rightarrow> decimal \<Rightarrow> decimal \<Rightarrow> decimal \<Rightarrow> decimal \<Rightarrow> island_plan result" where
  "plan_island_survival loads battery_kwh reserved_kwh generator_kwh pv_kw =
     (if \<not> (0 \<le> reserved_kwh \<and> reserved_kwh \<le> battery_kwh) then Inl (ValueError ''invalid island reserve'')
      else
        let usable = dadd (dsub battery_kwh reserved_kwh) generator_kwh;
            available_power = dadd pv_kw usable;
            degraded = plan_degraded_mode loads available_power;
            net_load = max (1 / 1000) (dsub (dg_used_power_kw degraded) pv_kw)
        in rbind (ddiv usable net_load) (\<lambda>survival.
             Inr \<lparr>ip_served = dg_served degraded, ip_shed = dg_shed degraded, ip_survival_hours = survival,
                  ip_reserve_kwh = reserved_kwh, ip_violations = dg_hard_violations degraded\<rparr>))"

section \<open>State of charge\<close>

lemma ddiv_sign:
  assumes "ddiv x y = Inr q" "0 < y"
  shows "0 \<le> x \<Longrightarrow> 0 \<le> q" "x \<le> 0 \<Longrightarrow> q \<le> 0"
  using assms by (auto simp: ddiv_def divide_nonpos_nonneg intro: dround_le_dec split: if_splits)

text \<open>
  C40: Charging never lowers and discharging never raises the state of charge, given as a decimal of at most 28
  digits (what decimal arithmetic returns), of a battery with positive capacity, and every accepted dispatch leaves it within the bounds of the battery, which are within
  0 and 1; the rounding of the decimal arithmetic does not change that. A dispatch that moves both
  ways or exceeds the power limits is refused.
\<close>
theorem soc_follows_dispatch:
  assumes "mk_battery b = Inr asset" and "0 < bt_capacity_kwh asset" and "is_dec soc"
    and "next_soc asset soc charge discharge hours = Inr soc'"
  shows "0 \<le> soc' \<and> soc' \<le> 1 \<and> bt_min_soc asset \<le> soc' \<and> soc' \<le> bt_max_soc asset \<and>
    (discharge = 0 \<longrightarrow> soc \<le> soc') \<and> (charge = 0 \<longrightarrow> soc' \<le> soc) \<and>
    (charge = 0 \<or> discharge = 0) \<and> charge \<le> bt_max_charge_kw asset \<and> discharge \<le> bt_max_discharge_kw asset"
proof -
  have b: "0 < bt_charge_efficiency asset" "0 < bt_discharge_efficiency asset" "0 \<le> bt_min_soc asset" "bt_max_soc asset \<le> 1"
    using assms(1) by (auto simp: mk_battery_def split: if_splits)
  obtain drawn change where drawn: "ddiv discharge (bt_discharge_efficiency asset) = Inr drawn"
    and change: "ddiv (dsub (dmul (dmul charge (bt_charge_efficiency asset)) hours) (dmul drawn hours)) (bt_capacity_kwh asset) = Inr change"
    and soc': "soc' = dadd soc change" "bt_min_soc asset \<le> soc'" "soc' \<le> bt_max_soc asset"
    and ok: "0 \<le> charge" "0 \<le> discharge" "0 < hours" "charge = 0 \<or> discharge = 0" "charge \<le> bt_max_charge_kw asset"
      "discharge \<le> bt_max_discharge_kw asset"
    using assms(4) by (auto simp: next_soc_def Let_def rbind_eq_Inr split: if_splits)
  have "soc \<le> soc'" if "discharge = 0"
  proof -
    have "drawn = 0" using drawn that by (simp add: ddiv_def split: if_splits)
    then have "0 \<le> change"
      using ddiv_sign(1) [OF change assms(2)] b ok by (simp add: dsub_def dmul_def)
    then show ?thesis using assms(3) soc' by (simp add: dadd_def dround_ge_dec)
  qed
  moreover have "soc' \<le> soc" if "charge = 0"
  proof -
    have "0 \<le> drawn" using ddiv_sign(1) [OF drawn b(2)] ok by simp
    then have "0 \<le> dmul drawn hours" using ok by simp
    then have "change \<le> 0"
      using ddiv_sign(2) [OF change assms(2)] that by (simp add: dsub_def dmul_def)
    then show ?thesis using assms(3) soc' by (simp add: dadd_def dround_le_dec)
  qed
  ultimately show ?thesis using b soc' ok by auto
qed

definition example_battery :: battery where
  "example_battery =
     \<lparr>bt_id = ''b1'', bt_topology_asset_id = ''a1'', bt_capacity_kwh = 100, bt_max_charge_kw = 50, bt_max_discharge_kw = 50,
      bt_charge_efficiency = 9 / 10, bt_discharge_efficiency = 9 / 10, bt_min_soc = 1 / 10, bt_max_soc = 9 / 10,
      bt_reserve_soc = 2 / 10, bt_degradation_cost_per_kwh = 0\<rparr>"

theorem soc_follows_dispatch_witness:
  "\<exists>soc'. next_soc example_battery (1 / 2) 20 0 1 = Inr soc' \<and> 1 / 2 \<le> soc' \<and> soc' \<le> 1"
proof -
  have r: "dround (9 / 50) = 9 / 50" "dround (17 / 25) = 17 / 25" "dround (1 / 2) = 1 / 2"
    using dround_frac [of 18 2] dround_frac [of 68 2] dround_frac [of 5 1] by simp_all
  have "next_soc example_battery (1 / 2) 20 0 1 = Inr (17 / 25)"
    by (simp add: next_soc_def example_battery_def decimal_defs r)
  note run = this
  have "1 / 2 \<le> (17 / 25 :: rat) \<and> (17 / 25 :: rat) \<le> 1"
    using soc_follows_dispatch [OF _ _ _ run, of example_battery]
    by (simp add: mk_battery_def example_battery_def is_dec_def r)
  with run show ?thesis by (intro exI [of _ "17 / 25"] conjI) auto
qed

section \<open>Shedding\<close>

lemma serve_loads_append: "serve_loads a (xs @ ys) acc = serve_loads a ys (serve_loads a xs acc)"
  by (induction a xs acc rule: serve_loads.induct) auto

lemma foldl_dadd_increasing:
  "is_dec u \<Longrightarrow> \<forall>x \<in> set xs. 0 \<le> x \<Longrightarrow> u \<le> foldl dadd u xs"
proof (induction xs arbitrary: u)
  case (Cons x xs)
  then have "u \<le> dadd u x" by (simp add: dadd_increasing)
  also have "\<dots> \<le> foldl dadd (dadd u x) xs" using Cons by simp
  finally show ?case by simp
qed simp

lemma serve_loads_fit:
  assumes "is_dec u" "\<forall>l \<in> set ls. 0 \<le> cl_power_kw l" "foldl dadd u (map cl_power_kw ls) \<le> a"
  shows "serve_loads a ls (served, shed, u) = (served @ map cl_id ls, shed, foldl dadd u (map cl_power_kw ls))"
  using assms
proof (induction ls arbitrary: u served)
  case (Cons l ls)
  have "dadd u (cl_power_kw l) \<le> foldl dadd (dadd u (cl_power_kw l)) (map cl_power_kw ls)"
    using Cons.prems by (intro foldl_dadd_increasing) auto
  then have "dadd u (cl_power_kw l) \<le> a" using Cons.prems(3) by simp
  then show ?case using Cons by simp
qed simp

lemma serve_loads_outcome:
  "\<exists>ins out u'. serve_loads a ls (served, shed, u) = (served @ ins, shed @ out, u') \<and>
     mset ins + mset out = mset (map cl_id ls) \<and> u' \<le> max u a \<and>
     (out = [] \<longrightarrow> u' = foldl dadd u (map cl_power_kw ls) \<and> (ls \<noteq> [] \<longrightarrow> u' \<le> a))"
proof (induction ls arbitrary: served shed u)
  case (Cons l ls)
  show ?case
  proof (cases "dadd u (cl_power_kw l) \<le> a")
    case True
    obtain ins out u' where *: "serve_loads a ls (served @ [cl_id l], shed, dadd u (cl_power_kw l)) = ((served @ [cl_id l]) @ ins, shed @ out, u')"
      "mset ins + mset out = mset (map cl_id ls)" "u' \<le> max (dadd u (cl_power_kw l)) a"
      "out = [] \<longrightarrow> u' = foldl dadd (dadd u (cl_power_kw l)) (map cl_power_kw ls) \<and> (ls \<noteq> [] \<longrightarrow> u' \<le> a)"
      using Cons.IH by blast
    then have "u' \<le> a" using True by simp
    with * True show ?thesis by (intro exI [of _ "cl_id l # ins"] exI [of _ out] exI [of _ u']) auto
  next
    case False
    obtain ins out u' where *: "serve_loads a ls (served, shed @ [cl_id l], u) = (served @ ins, (shed @ [cl_id l]) @ out, u')"
      "mset ins + mset out = mset (map cl_id ls)" "u' \<le> max u a"
      using Cons.IH by blast
    with False show ?thesis by (intro exI [of _ ins] exI [of _ "cl_id l # out"] exI [of _ u']) auto
  qed
qed simp

lemma sort_key_bool_first:
  assumes "\<And>x. fst (f x) = (\<not> P x)"
  shows "sort_key f xs = filter P (sort_key f xs) @ filter (\<lambda>x. \<not> P x) (sort_key f xs)"
proof -
  have "ys = filter P ys @ filter (\<lambda>x. \<not> P x) ys" if "sorted (map f ys)" for ys
    using that
  proof (induction ys)
    case (Cons y ys)
    show ?case
    proof (cases "P y")
      case True
      then show ?thesis using Cons by simp
    next
      case False
      have "\<not> P x" if "x \<in> set ys" for x
      proof -
        have "f y \<le> f x" using Cons.prems that by simp
        then have "fst (f y) \<le> fst (f x)" by (auto simp: less_eq_prod_def)
        then show ?thesis using assms False by simp
      qed
      then show ?thesis using False by (simp add: filter_id_conv filter_empty_conv)
    qed
  qed simp
  then show ?thesis by simp
qed

text \<open>
  C37: Degraded operation sheds no critical load needlessly. When loads have powers that are not negative
  and identifiers of their own, every load is either served or shed, the power used stays within what
  is available, and critical loads are considered before all others: none of them is shed exactly
  when all of them fit together, however many other loads there are.
\<close>
theorem critical_loads_first:
  fixes loads :: "critical_load list" and a :: decimal
  defines "plan \<equiv> plan_degraded_mode loads a" and "critical \<equiv> filter cl_critical (sort_key load_key loads)"
  assumes "\<forall>l \<in> set loads. 0 \<le> cl_power_kw l" and ids: "distinct (map cl_id loads)"
  shows "mset (dg_served plan @ dg_shed plan) = mset (map cl_id loads) \<and> dg_used_power_kw plan \<le> max 0 a \<and>
    (dg_hard_violations plan = [] \<longleftrightarrow> critical = [] \<or> dsum (map cl_power_kw critical) \<le> a)"
proof -
  define ls where "ls = sort_key load_key loads"
  define others where "others = filter (\<lambda>l. \<not> cl_critical l) ls"
  have ls: "ls = critical @ others"
    unfolding ls_def critical_def others_def by (rule sort_key_bool_first) (simp add: load_key_def)
  obtain ins1 out1 u1 where run1: "serve_loads a critical ([], [], 0) = (ins1, out1, u1)"
    and one: "mset ins1 + mset out1 = mset (map cl_id critical)"
    and fits: "out1 = [] \<longrightarrow> u1 = dsum (map cl_power_kw critical) \<and> (critical \<noteq> [] \<longrightarrow> u1 \<le> a)" and le1: "u1 \<le> max 0 a"
    using serve_loads_outcome [of a critical "[]" "[]" 0] by (auto simp: dsum_def)
  obtain ins2 out2 u2 where run2: "serve_loads a others (ins1, out1, u1) = (ins1 @ ins2, out1 @ out2, u2)"
    and two: "mset ins2 + mset out2 = mset (map cl_id others)" and le2: "u2 \<le> max u1 a"
    using serve_loads_outcome [of a others ins1 out1 u1] by blast
  have "serve_loads a ls ([], [], 0) = (ins1 @ ins2, out1 @ out2, u2)"
    by (simp add: ls serve_loads_append run1 run2)
  then have plan: "dg_served plan = ins1 @ ins2" "dg_shed plan = out1 @ out2" "dg_used_power_kw plan = u2"
    "dg_hard_violations plan =
       map (\<lambda>l. ''CRITICAL_LOAD_SHED:'' @ cl_id l) (filter (\<lambda>l. cl_critical l \<and> cl_id l \<in> set (out1 @ out2)) loads)"
    by (simp_all add: plan_def plan_degraded_mode_def ls_def)
  have ids_eq: "mset (map cl_id ls) = mset (map cl_id loads)" by (simp add: ls_def)
  then have "distinct (map cl_id ls)" using ids by (metis mset_eq_imp_distinct_iff)
  then have disjoint: "cl_id ` set critical \<inter> set out2 = {}"
    using arg_cong [OF two, of set_mset] by (auto simp: ls)
  have outs: "set out1 \<subseteq> cl_id ` set critical" using arg_cong [OF one, of set_mset] by auto
  have crit: "set critical = {l \<in> set loads. cl_critical l}" by (auto simp: critical_def)
  have "dg_hard_violations plan = [] \<longleftrightarrow> (\<forall>l \<in> set critical. cl_id l \<notin> set (out1 @ out2))"
    by (auto simp: plan(4) filter_empty_conv crit)
  also have "\<dots> \<longleftrightarrow> out1 = []" using disjoint outs by (cases out1) auto
  also have "\<dots> \<longleftrightarrow> critical = [] \<or> dsum (map cl_power_kw critical) \<le> a"
  proof
    assume "critical = [] \<or> dsum (map cl_power_kw critical) \<le> a"
    then show "out1 = []"
    proof
      assume "dsum (map cl_power_kw critical) \<le> a"
      then show ?thesis
        using serve_loads_fit [of 0 critical a "[]" "[]"] assms(3) run1 crit by (simp add: dsum_def)
    qed (use one in auto)
  qed (use fits in auto)
  finally have violations: "dg_hard_violations plan = [] \<longleftrightarrow> critical = [] \<or> dsum (map cl_power_kw critical) \<le> a" .
  have "mset (dg_served plan @ dg_shed plan) = (mset ins1 + mset out1) + (mset ins2 + mset out2)"
    by (simp only: plan mset_append ac_simps)
  also have "\<dots> = mset (map cl_id loads)" by (simp only: one two ids_eq [symmetric] ls map_append mset_append)
  finally have all: "mset (dg_served plan @ dg_shed plan) = mset (map cl_id loads)" .
  have "dg_used_power_kw plan \<le> max 0 a" using plan(3) le1 le2 by simp
  with all violations show ?thesis by simp
qed

definition example_loads :: "critical_load list" where
  "example_loads =
     [\<lparr>cl_id = ''batch'', cl_power_kw = 40, cl_priority = 90, cl_critical = False\<rparr>,
      \<lparr>cl_id = ''cooling'', cl_power_kw = 30, cl_priority = 10, cl_critical = True\<rparr>]"

theorem critical_loads_first_witness:
  "dg_hard_violations (plan_degraded_mode example_loads 50) = [] \<and>
   mset (dg_served (plan_degraded_mode example_loads 50) @ dg_shed (plan_degraded_mode example_loads 50)) = {#''batch'', ''cooling''#}"
proof -
  have sorted: "filter cl_critical (sort_key load_key example_loads) = [\<lparr>cl_id = ''cooling'', cl_power_kw = 30, cl_priority = 10, cl_critical = True\<rparr>]"
    by (simp add: example_loads_def load_key_def)
  show ?thesis
    using critical_loads_first [of example_loads 50] unfolding sorted
    by (simp add: example_loads_def dsum_def dadd_def)
qed

end
