(* ===== verification/Tariffs.thy ===== *)
theory Tariffs
  imports Domain Datetimes "HOL-Library.Multiset"
begin

text \<open>
  \<open>packages/tariffs\<close> (time-of-use plans, the calculator, tiered and real-time prices, the billing
  calendar), \<open>packages/carbon/calculator.py\<close> and the region pack of \<open>packages/region_packs\<close>.

  A date is its ordinal (\<open>date.toordinal\<close>), a time of day its microseconds after midnight and a wall
  clock reading its microseconds since the epoch, as if it were UTC. The time zone database is not
  part of the sources: \<open>zone tz\<close> is the offset of the zone from UTC at an instant (or the error of
  \<open>ZoneInfo\<close>), and \<open>local_zone tz\<close> the instant of a wall clock reading. The text of a decimal is the
  parameter \<open>str_decimal\<close>.
\<close>

section \<open>Plans\<close>

type_synonym zone_info = "string \<Rightarrow> (instant \<Rightarrow> timedelta) result"

definition ordinal_of :: "int \<Rightarrow> int" where
  "ordinal_of local = local div day_micros + epoch_ordinal"

definition weekday :: "int \<Rightarrow> int" where
  \<comment> \<open>\<open>date.weekday\<close>: Monday is 0\<close>
  "weekday ordinal = (ordinal + 6) mod 7"

record price_period =
  pp_name :: string
  pp_start_local :: int
  pp_end_local :: int
  pp_price_per_kwh :: decimal
  pp_weekdays :: "int set"

definition matches :: "price_period \<Rightarrow> int \<Rightarrow> bool" where
  "matches p local =
     (let clock = local mod day_micros;
          in_time = (if pp_start_local p < pp_end_local p then pp_start_local p \<le> clock \<and> clock < pp_end_local p
                     else clock \<ge> pp_start_local p \<or> clock < pp_end_local p)
      in weekday (ordinal_of local) \<in> pp_weekdays p \<and> in_time)"

record tariff_plan =
  tp_id :: string
  tp_version :: int
  tp_currency :: string
  tp_timezone :: string
  tp_effective_from :: int
  tp_effective_to :: "int option"
  tp_periods :: "price_period list"
  tp_demand_charge_per_kw :: decimal
  tp_capacity_charge_per_kw :: decimal
  tp_tax_rate :: decimal
  tp_feed_in_price_per_kwh :: decimal

definition mk_tariff :: "tariff_plan \<Rightarrow> tariff_plan result" where
  "mk_tariff p =
     (if tp_periods p = [] then Inl (ValueError ''tariff requires at least one price period'')
      else if tp_demand_charge_per_kw p < 0 \<or> tp_tax_rate p < 0 then Inl (ValueError ''tariff charges cannot be negative'')
      else Inr p)"

definition active_on :: "tariff_plan \<Rightarrow> int \<Rightarrow> bool" where
  "active_on p date \<longleftrightarrow>
     tp_effective_from p \<le> date \<and> (case tp_effective_to p of None \<Rightarrow> True | Some until \<Rightarrow> date < until)"

section \<open>The calculator\<close>

record meter_interval =
  mi_started_at :: datetime
  mi_duration_hours :: decimal
  mi_import_kwh :: decimal
  mi_export_kwh :: decimal
  mi_peak_kw :: decimal

record cost_breakdown =
  cb_energy :: money
  cb_demand :: money
  cb_capacity :: money
  cb_export_credit :: money
  cb_tax :: money
  cb_total :: money
  cb_line_items :: "(string, string) dict list"

record metering =
  mt_energy :: decimal
  mt_export_credit :: decimal
  mt_peak :: decimal
  mt_lines :: "(string, string) dict list"

definition price_interval ::
  "(decimal \<Rightarrow> string) \<Rightarrow> (instant \<Rightarrow> timedelta) \<Rightarrow> tariff_plan \<Rightarrow> meter_interval \<Rightarrow> metering \<Rightarrow> metering result" where
  "price_interval str_decimal offset tariff interval m =
     (case mi_started_at interval of
        Naive _ \<Rightarrow> Inl (ValueError ''meter interval timestamp must be timezone-aware'')
      | Aware t \<Rightarrow>
          let local = t + offset t in
          if \<not> active_on tariff (ordinal_of local) then Inl (ValueError ''tariff is not active for interval'')
          else (case filter (\<lambda>p. matches p local) (tp_periods tariff) of
             [period] \<Rightarrow>
               let line_cost = dmul (mi_import_kwh interval) (pp_price_per_kwh period) in
               Inr \<lparr>mt_energy = dadd (mt_energy m) line_cost,
                    mt_export_credit = dadd (mt_export_credit m) (dmul (mi_export_kwh interval) (tp_feed_in_price_per_kwh tariff)),
                    mt_peak = max (mt_peak m) (mi_peak_kw interval),
                    mt_lines = mt_lines m @ [[(''period'', pp_name period), (''import_kwh'', str_decimal (mi_import_kwh interval)),
                      (''unit_price'', str_decimal (pp_price_per_kwh period)), (''cost'', str_decimal line_cost)]]\<rparr>
           | _ \<Rightarrow> Inl (ValueError ''tariff periods must cover each interval exactly once'')))"

definition money_rounded :: "decimal \<Rightarrow> string \<Rightarrow> money result" where
  \<comment> \<open>\<open>Money(amount, currency).rounded()\<close>\<close>
  "money_rounded amount currency = rbind (mk_money amount currency) (\<lambda>m. rounded m 2)"

definition calculate ::
  "(decimal \<Rightarrow> string) \<Rightarrow> zone_info \<Rightarrow> tariff_plan \<Rightarrow> meter_interval list \<Rightarrow> decimal \<Rightarrow> decimal \<Rightarrow> decimal \<Rightarrow>
   cost_breakdown result" where
  "calculate str_decimal zone tariff intervals contracted_capacity_kw demand_response_credit demand_response_penalty =
     rbind (zone (tp_timezone tariff)) (\<lambda>offset.
     rbind (rfold (price_interval str_decimal offset tariff) intervals
              \<lparr>mt_energy = 0, mt_export_credit = 0, mt_peak = 0, mt_lines = []\<rparr>) (\<lambda>m.
       let demand = dmul (mt_peak m) (tp_demand_charge_per_kw tariff);
           capacity = dmul contracted_capacity_kw (tp_capacity_charge_per_kw tariff);
           subtotal = dadd (dsub (dsub (dadd (dadd (mt_energy m) demand) capacity) (mt_export_credit m)) demand_response_credit)
                        demand_response_penalty;
           tax = dmul subtotal (tp_tax_rate tariff);
           currency = tp_currency tariff
       in rbind (money_rounded (dadd subtotal tax) currency) (\<lambda>total.
          rbind (money_rounded (mt_energy m) currency) (\<lambda>energy.
          rbind (money_rounded demand currency) (\<lambda>demand.
          rbind (money_rounded capacity currency) (\<lambda>capacity.
          rbind (money_rounded (mt_export_credit m) currency) (\<lambda>export_credit.
          rbind (money_rounded tax currency) (\<lambda>tax.
            Inr \<lparr>cb_energy = energy, cb_demand = demand, cb_capacity = capacity, cb_export_credit = export_credit,
                 cb_tax = tax, cb_total = total, cb_line_items = mt_lines m\<rparr>))))))))"

fun overlapping :: "tariff_plan list \<Rightarrow> bool" where
  "overlapping (left # right # rest) =
     ((case tp_effective_to left of None \<Rightarrow> True | Some until \<Rightarrow> until > tp_effective_from right) \<or> overlapping (right # rest))"
| "overlapping _ = False"

definition versions_by_id :: "tariff_plan list \<Rightarrow> (string, tariff_plan list) dict" where
  "versions_by_id plans = fold (\<lambda>p by_id. dput (tp_id p) (dget_or by_id (tp_id p) [] @ [p]) by_id) plans []"

definition validate_tariff_versions :: "tariff_plan list \<Rightarrow> unit result" where
  "validate_tariff_versions plans =
     (if \<exists>versions \<in> set (dvalues (versions_by_id plans)). overlapping (sort_key tp_effective_from versions)
      then Inl (ValueError ''overlapping tariff versions'') else Inr ())"

section \<open>Region pack\<close>

definition region_validate :: "tariff_plan \<Rightarrow> unit result" where
  "region_validate tariff = (if tp_tax_rate tariff > 1 then Inl (ValueError ''tax rate cannot exceed 100%'') else Inr ())"

definition region_normalize :: "tariff_plan \<Rightarrow> tariff_plan result" where
  "region_normalize tariff = rbind (region_validate tariff) (\<lambda>_. Inr tariff)"

definition region_calculate ::
  "(decimal \<Rightarrow> string) \<Rightarrow> zone_info \<Rightarrow> tariff_plan \<Rightarrow> meter_interval list \<Rightarrow> cost_breakdown result" where
  "region_calculate str_decimal zone tariff intervals =
     rbind (region_validate tariff) (\<lambda>_. calculate str_decimal zone tariff intervals 0 0 0)"

definition region_explain :: "(decimal \<Rightarrow> string) \<Rightarrow> cost_breakdown \<Rightarrow> string list" where
  "region_explain str_decimal r =
     [''energy='' @ str_decimal (mo_amount (cb_energy r)) @ '' '' @ mo_currency (cb_energy r),
      ''demand='' @ str_decimal (mo_amount (cb_demand r)) @ '' '' @ mo_currency (cb_demand r),
      ''total='' @ str_decimal (mo_amount (cb_total r)) @ '' '' @ mo_currency (cb_total r)]"

section \<open>Tiers, real-time prices, subsidies, carbon\<close>

record energy_tier =
  et_up_to_kwh :: "decimal option"
  et_price_per_kwh :: decimal

definition mk_tier :: "energy_tier \<Rightarrow> energy_tier result" where
  "mk_tier t =
     (if (case et_up_to_kwh t of None \<Rightarrow> False | Some u \<Rightarrow> u \<le> 0) then Inl (ValueError ''tier boundary must be positive'')
      else if et_price_per_kwh t < 0 then Inl (ValueError ''tier price cannot be negative'')
      else Inr t)"

definition tier_width :: "energy_tier \<Rightarrow> decimal \<Rightarrow> decimal \<Rightarrow> decimal" where
  "tier_width t remaining below =
     max 0 (case et_up_to_kwh t of None \<Rightarrow> remaining | Some u \<Rightarrow> min remaining (dsub u below))"

fun tier_cost :: "energy_tier list \<Rightarrow> decimal \<Rightarrow> decimal \<Rightarrow> decimal \<Rightarrow> decimal" where
  "tier_cost [] remaining below cost = cost"
| "tier_cost (t # ts) remaining below cost =
     (let width = tier_width t remaining below;
          cost = dadd cost (dmul width (et_price_per_kwh t));
          remaining = dsub remaining width
      in if remaining \<le> 0 then cost
         else tier_cost ts remaining (case et_up_to_kwh t of None \<Rightarrow> below | Some u \<Rightarrow> u) cost)"

definition calculate_tiered_energy :: "decimal \<Rightarrow> energy_tier list \<Rightarrow> string \<Rightarrow> money result" where
  "calculate_tiered_energy import_kwh tiers currency =
     (if import_kwh < 0 \<or> tiers = [] \<or> et_up_to_kwh (last tiers) \<noteq> None
      then Inl (ValueError ''tiered tariff requires nonnegative usage and an open final tier'')
      else
        let finite = List.map_filter et_up_to_kwh tiers in
        if finite \<noteq> sort (remdups finite) then Inl (ValueError ''tier boundaries must be unique and increasing'')
        else money_rounded (tier_cost tiers import_kwh 0 0) currency)"

record real_time_price =
  rp_observed_at :: datetime
  rp_price_per_kwh :: decimal

definition real_time_price_at :: "real_time_price list \<Rightarrow> datetime \<Rightarrow> timedelta \<Rightarrow> decimal result" where
  "real_time_price_at prices moment maximum_age =
     (if \<not> is_aware moment \<or> maximum_age \<le> 0
      then Inl (ValueError ''real-time price lookup requires aware time and positive maximum age'')
      else if \<exists>p \<in> set prices. \<not> is_aware (rp_observed_at p) \<or> rp_price_per_kwh p < 0
      then Inl (ValueError ''real-time prices must be aware and nonnegative'')
      else (case filter (\<lambda>p. dt_value (rp_observed_at p) \<le> dt_value moment) prices of
         [] \<Rightarrow> Inl (LookupError ''no real-time price is available'')
       | c # cs \<Rightarrow>
           let selected = first_max (\<lambda>p. dt_value (rp_observed_at p)) c cs in
           if dt_value moment - dt_value (rp_observed_at selected) > maximum_age
           then Inl (LookupError ''real-time price is stale'') else Inr (rp_price_per_kwh selected)))"

definition subsidy_credit :: "decimal \<Rightarrow> decimal \<Rightarrow> string \<Rightarrow> money result" where
  "subsidy_credit import_kwh subsidy_per_kwh currency =
     (if import_kwh < 0 \<or> subsidy_per_kwh < 0 then Inl (ValueError ''subsidy inputs cannot be negative'')
      else money_rounded (dmul import_kwh subsidy_per_kwh) currency)"

record carbon_result =
  cr_emissions :: decimal
  cr_carbon_cost :: money

definition calculate_carbon :: "decimal \<Rightarrow> decimal \<Rightarrow> decimal \<Rightarrow> string \<Rightarrow> carbon_result result" where
  "calculate_carbon import_kwh intensity_kg_per_kwh price_per_kg currency =
     (if min (min import_kwh intensity_kg_per_kwh) price_per_kg < 0 then Inl (ValueError ''carbon inputs cannot be negative'')
      else
        rbind (mk_carbon (dmul import_kwh intensity_kg_per_kwh)) (\<lambda>emissions.
        rbind (money_rounded (dmul emissions price_per_kg) currency) (\<lambda>cost.
          Inr \<lparr>cr_emissions = emissions, cr_carbon_cost = cost\<rparr>)))"

section \<open>The billing calendar\<close>

definition local_billing_date :: "zone_info \<Rightarrow> datetime \<Rightarrow> string \<Rightarrow> int result" where
  "local_billing_date zone moment timezone =
     (case moment of
        Naive _ \<Rightarrow> Inl (ValueError ''billing timestamp must be timezone-aware'')
      | Aware t \<Rightarrow> rbind (zone timezone) (\<lambda>offset. Inr (ordinal_of (t + offset t))))"

definition normalize_local :: "(string \<Rightarrow> (int \<Rightarrow> instant) result) \<Rightarrow> datetime \<Rightarrow> string \<Rightarrow> datetime result" where
  "normalize_local local_zone moment timezone =
     (case moment of
        Naive w \<Rightarrow> rbind (local_zone timezone) (\<lambda>instant_at. Inr (Aware (instant_at w)))
      | Aware t \<Rightarrow> Inr (Aware t))"

record billing_calendar =
  bc_timezone :: string
  bc_holidays :: "int set"
  bc_weekend_days :: "int set"

definition is_business_day :: "billing_calendar \<Rightarrow> int \<Rightarrow> bool" where
  "is_business_day c day \<longleftrightarrow> weekday day \<notin> bc_weekend_days c \<and> day \<notin> bc_holidays c"

definition date_max :: int where
  "date_max = 3652059"

definition next_day :: "int \<Rightarrow> int result" where
  \<comment> \<open>\<open>day + timedelta(days=1)\<close>\<close>
  "next_day day = (if day + 1 > date_max then Inl (OverflowError ''date value out of range'') else Inr (day + 1))"

fun search_business_day :: "billing_calendar \<Rightarrow> nat \<Rightarrow> int \<Rightarrow> int result" where
  "search_business_day c 0 candidate = Inl (RuntimeError ''billing calendar has no business day in bounded search'')"
| "search_business_day c (Suc n) candidate =
     (if is_business_day c candidate then Inr candidate else rbind (next_day candidate) (search_business_day c n))"

definition next_business_day :: "billing_calendar \<Rightarrow> int \<Rightarrow> int result" where
  "next_business_day c day = rbind (next_day day) (search_business_day c 370)"

section \<open>Business days\<close>

lemma search_business_day_iff:
  "x \<le> date_max \<Longrightarrow> search_business_day c n x = Inr d \<longleftrightarrow>
     x \<le> d \<and> d < x + int n \<and> d \<le> date_max \<and> is_business_day c d \<and> {y. x \<le> y \<and> y < d \<and> is_business_day c y} = {}"
proof (induction n arbitrary: x)
  case (Suc n)
  show ?case
  proof (cases "is_business_day c x")
    case True
    then show ?thesis using Suc.prems by (auto simp: order_le_less)
  next
    case False
    have sets: "{y. x \<le> y \<and> y < d \<and> is_business_day c y} = {y. x + 1 \<le> y \<and> y < d \<and> is_business_day c y}"
      using False by (force simp: order_le_less)
    have ge: "x \<le> d \<and> is_business_day c d \<longleftrightarrow> x + 1 \<le> d \<and> is_business_day c d"
      using False by (force simp: order_le_less)
    show ?thesis
    proof (cases "x + 1 \<le> date_max")
      case True
      then show ?thesis using False Suc.IH [of "x + 1"] sets ge by (auto simp: next_day_def)
    next
      case False': False
      then show ?thesis using False ge by (auto simp: next_day_def)
    qed
  qed
qed auto

text \<open>
  Further: The billing calendar finds the next business day: the first day after the given one that is neither
  a weekend day nor a holiday, provided that it is within 370 days and within the range of dates; it
  fails in no other case.
\<close>
theorem next_business_day_first:
  "next_business_day c day = Inr d \<longleftrightarrow>
     day < d \<and> d \<le> day + 370 \<and> d \<le> date_max \<and> is_business_day c d \<and> {x. day < x \<and> x < d \<and> is_business_day c x} = {}"
proof (cases "day + 1 \<le> date_max")
  case True
  have "{x. day < x \<and> x < d \<and> is_business_day c x} = {x. day + 1 \<le> x \<and> x < d \<and> is_business_day c x}" by auto
  then show ?thesis
    using search_business_day_iff [OF True, of c 370 d] True by (auto simp: next_business_day_def next_day_def)
qed (auto simp: next_business_day_def next_day_def)

section \<open>Price periods\<close>








definition day_night :: tariff_plan where
  "day_night =
     \<lparr>tp_id = ''t'', tp_version = 1, tp_currency = ''EUR'', tp_timezone = ''UTC'', tp_effective_from = 1, tp_effective_to = None,
      tp_periods =
        [\<lparr>pp_name = ''day'', pp_start_local = 21600000000, pp_end_local = 79200000000, pp_price_per_kwh = 3, pp_weekdays = {0..6}\<rparr>,
         \<lparr>pp_name = ''night'', pp_start_local = 79200000000, pp_end_local = 21600000000, pp_price_per_kwh = 1, pp_weekdays = {0..6}\<rparr>],
      tp_demand_charge_per_kw = 0, tp_capacity_charge_per_kw = 0, tp_tax_rate = 0, tp_feed_in_price_per_kwh = 0\<rparr>"


lemma money_rounded_euros: "\<bar>n\<bar> < 10 ^ 20 \<Longrightarrow> \<exists>m. money_rounded (of_int n) ''EUR'' = Inr m"
proof -
  have eur: "mk_money x ''EUR'' = Inr \<lparr>mo_amount = x, mo_currency = ''EUR''\<rparr>" for x
  proof -
    have "upper ''EUR'' = ''EUR''" "list_all is_alpha ''EUR''" by code_simp+
    then show ?thesis by (simp only: mk_money_def Let_def) simp
  qed
  assume "\<bar>n\<bar> < 10 ^ 20"
  moreover have "round_half_even (of_int n * 100) = n * 100" using round_half_even_int [of "n * 100"] by simp
  ultimately show ?thesis by (simp add: money_rounded_def eur rounded_def quantize_def abs_mult)
qed



section \<open>Versions of a tariff\<close>

lemma versions_by_id_aux:
  "dget (fold (\<lambda>p by_id. dput (tp_id p) (dget_or by_id (tp_id p) [] @ [p]) by_id) ps d) i =
     (if \<exists>p \<in> set ps. tp_id p = i then Some (dget_or d i [] @ filter (\<lambda>p. tp_id p = i) ps) else dget d i)"
  by (induction ps arbitrary: d) (auto simp: dget_or_def)

lemma versions_by_id_get:
  "p \<in> set plans \<Longrightarrow> dget (versions_by_id plans) (tp_id p) = Some (filter (\<lambda>q. tp_id q = tp_id p) plans)"
  using versions_by_id_aux [of plans "[]" "tp_id p"] by (auto simp: versions_by_id_def dget_or_def [of "[]"])

lemma not_overlapping_active:
  assumes "sorted (map tp_effective_from ps)" "\<not> overlapping ps"
  shows "length (filter (\<lambda>p. active_on p day) ps) \<le> 1"
  using assms
proof (induction ps rule: overlapping.induct)
  case (1 left right rest)
  show ?case
  proof (cases "active_on left day")
    case True
    then have "day < tp_effective_from right"
      using "1.prems"(2) by (auto simp: active_on_def split: option.splits)
    then have "\<not> active_on p day" if "p \<in> set (right # rest)" for p
      using "1.prems"(1) that by (auto simp: active_on_def)
    then have "filter (\<lambda>p. active_on p day) (right # rest) = []" by (auto simp: filter_empty_conv)
    then show ?thesis using True by simp
  next
    case False
    then show ?thesis using "1.IH" "1.prems" by simp
  qed
qed auto

lemma length_filter_sort_key: "length (filter P (sort_key f xs)) = length (filter P xs)"
  by (metis mset_filter mset_sort size_mset)

text \<open>
  Further: Validated tariff versions never compete: when \<open>validate_tariff_versions\<close> accepts a list of plans, in
  whatever order they are given, at most one version of each tariff is active on any day.
\<close>
theorem one_tariff_version_active:
  assumes "validate_tariff_versions plans = Inr ()"
  shows "length (filter (\<lambda>p. tp_id p = i \<and> active_on p day) plans) \<le> 1"
proof (cases "\<exists>p \<in> set plans. tp_id p = i")
  case True
  let ?versions = "filter (\<lambda>q. tp_id q = i) plans"
  have "dget (versions_by_id plans) i = Some ?versions" using True versions_by_id_get by blast
  then have "?versions \<in> set (dvalues (versions_by_id plans))" by (force dest: dget_entry)
  then have "\<not> overlapping (sort_key tp_effective_from ?versions)"
    using assms by (auto simp: validate_tariff_versions_def split: if_splits)
  then have "length (filter (\<lambda>p. active_on p day) (sort_key tp_effective_from ?versions)) \<le> 1"
    by (intro not_overlapping_active) simp_all
  then show ?thesis by (simp add: length_filter_sort_key conj_commute)
next
  case False
  then have "filter (\<lambda>p. tp_id p = i \<and> active_on p day) plans = []" by (auto simp: filter_empty_conv)
  then show ?thesis by simp
qed

theorem one_tariff_version_active_witness:
  "length (filter (\<lambda>p. tp_id p = ''t'' \<and> active_on p 10)
     [day_night\<lparr>tp_effective_from := 10\<rparr>, day_night\<lparr>tp_effective_to := Some 10\<rparr>]) \<le> 1 \<and> active_on (day_night\<lparr>tp_effective_from := 10\<rparr>) 10"
proof -
  have "validate_tariff_versions [day_night\<lparr>tp_effective_from := 10\<rparr>, day_night\<lparr>tp_effective_to := Some 10\<rparr>] = Inr ()"
    by (simp add: validate_tariff_versions_def versions_by_id_def dget_or_def day_night_def)
  from one_tariff_version_active [OF this] show ?thesis by (simp add: active_on_def day_night_def)
qed

section \<open>Tiered prices\<close>

lemma tier_width_mono: "r \<le> r' \<Longrightarrow> tier_width t r b \<le> tier_width t r' b"
  by (auto simp: tier_width_def split: option.splits)

lemma tier_width_nonneg: "0 \<le> tier_width t r b"
  by (simp add: tier_width_def)

lemma tier_rest_mono: "r \<le> r' \<Longrightarrow> r - tier_width t r b \<le> r' - tier_width t r' b"
  by (auto simp: tier_width_def max_def min_def split: option.splits)

lemma dmul_mono: "0 \<le> p \<Longrightarrow> x \<le> y \<Longrightarrow> dmul x p \<le> dmul y p"
  by (simp add: dmul_def dround_mono mult_right_mono)

lemma tier_cost_ge:
  "is_dec c \<Longrightarrow> \<forall>t \<in> set ts. 0 \<le> et_price_per_kwh t \<Longrightarrow> c \<le> tier_cost ts r b c"
proof (induction ts arbitrary: r b c)
  case (Cons t ts)
  have "c \<le> dadd c (dmul (tier_width t r b) (et_price_per_kwh t))"
    using Cons.prems by (intro dadd_increasing) (simp_all add: tier_width_nonneg)
  then show ?case using Cons.IH Cons.prems by (auto simp: Let_def intro: order_trans)
qed simp

lemma tier_cost_mono:
  "r \<le> r' \<Longrightarrow> c \<le> c' \<Longrightarrow> is_dec c' \<Longrightarrow> \<forall>t \<in> set ts. 0 \<le> et_price_per_kwh t \<Longrightarrow> tier_cost ts r b c \<le> tier_cost ts r' b c'"
proof (induction ts arbitrary: r r' b c c')
  case (Cons t ts)
  let ?c = "dadd c (dmul (tier_width t r b) (et_price_per_kwh t))" and ?c' = "dadd c' (dmul (tier_width t r' b) (et_price_per_kwh t))"
  let ?r = "dsub r (tier_width t r b)" and ?r' = "dsub r' (tier_width t r' b)"
  have c: "?c \<le> ?c'" using Cons.prems by (intro dadd_mono dmul_mono tier_width_mono) auto
  have r: "?r \<le> ?r'" unfolding dsub_def by (intro dround_mono tier_rest_mono Cons.prems(1))
  have "?c \<le> tier_cost ts ?r' b' ?c'" for b'
    using c tier_cost_ge [of ?c' ts ?r' b'] Cons.prems(4) by auto
  then show ?case using Cons.IH [OF r c] Cons.prems(4) r c by (simp add: Let_def)
qed simp

lemma quantize_mono: "quantize n x = Inr a \<Longrightarrow> quantize n y = Inr b \<Longrightarrow> x \<le> y \<Longrightarrow> a \<le> b"
  by (auto simp: quantize_def Let_def divide_right_mono round_half_even_mono mult_right_mono split: if_splits)

lemma money_rounded_amount: "money_rounded x cur = Inr m \<Longrightarrow> quantize 2 x = Inr (mo_amount m)"
  by (auto simp: money_rounded_def rounded_def mk_money_def Let_def rbind_eq_Inr split: if_splits)

text \<open>
  Further: With tiered prices, more energy never costs less: the charge, rounded to cents after decimal
  arithmetic that rounds at every step, is monotone in the consumption and never negative.
\<close>
theorem tiered_energy_monotone:
  assumes "\<forall>t \<in> set tiers. mk_tier t = Inr t" and "x \<le> y"
    and "calculate_tiered_energy x tiers currency = Inr mx" and "calculate_tiered_energy y tiers currency = Inr my"
  shows "0 \<le> mo_amount mx \<and> mo_amount mx \<le> mo_amount my"
proof -
  have prices: "\<forall>t \<in> set tiers. 0 \<le> et_price_per_kwh t"
    using assms(1) by (auto simp: mk_tier_def split: if_splits)
  have q: "quantize 2 (tier_cost tiers x 0 0) = Inr (mo_amount mx)" "quantize 2 (tier_cost tiers y 0 0) = Inr (mo_amount my)"
    using assms(3,4) by (auto simp: calculate_tiered_energy_def Let_def dest: money_rounded_amount split: if_splits)
  have "0 \<le> tier_cost tiers x 0 0" by (rule tier_cost_ge) (use prices in auto)
  moreover have "tier_cost tiers x 0 0 \<le> tier_cost tiers y 0 0" by (rule tier_cost_mono) (use prices assms(2) in auto)
  ultimately show ?thesis using q quantize_nonneg quantize_mono by blast
qed

definition two_tiers :: "energy_tier list" where
  "two_tiers = [\<lparr>et_up_to_kwh = Some 100, et_price_per_kwh = 1\<rparr>, \<lparr>et_up_to_kwh = None, et_price_per_kwh = 2\<rparr>]"

theorem tiered_energy_monotone_witness:
  "\<exists>mx my. calculate_tiered_energy 50 two_tiers ''EUR'' = Inr mx \<and> calculate_tiered_energy 150 two_tiers ''EUR'' = Inr my \<and>
     mo_amount mx \<le> mo_amount my"
proof -
  have "\<exists>m. calculate_tiered_energy 50 two_tiers ''EUR'' = Inr m" "\<exists>m. calculate_tiered_energy 150 two_tiers ''EUR'' = Inr m"
    using money_rounded_euros [of 50] money_rounded_euros [of 200]
    by (simp_all add: calculate_tiered_energy_def two_tiers_def tier_width_def decimal_defs map_filter_simps)
  moreover have "\<forall>t \<in> set two_tiers. mk_tier t = Inr t" by (simp add: two_tiers_def mk_tier_def)
  ultimately show ?thesis using tiered_energy_monotone [of two_tiers 50 150] by fastforce
qed

end
