(* ===== verification/Json_Reader.thy ===== *)
theory Json_Reader
  imports Json
begin

text \<open>
  \<open>json.loads\<close> of the standard library: the scanner with its white space, escapes, numbers and constants,
  a dict taking the last value of a repeated key. A float is kept as the text that it is read from, which
  is its \<open>repr\<close> in every text that \<open>json.dumps\<close> wrote. A string is the text of characters up to \<open>0xFF\<close>, so
  an escape beyond them is an error here.

  The recursion is bounded by the length of the text: every call reads at least one character. Reading
  what \<open>json.dumps\<close> wrote gives the value back (\<open>json_loads_text\<close>), with the keys in the order written.
\<close>

section \<open>The scanner\<close>

definition decode_error :: py_error where
  "decode_error = ValueError ''JSONDecodeError''"

definition is_json_space :: "char \<Rightarrow> bool" where
  "is_json_space c \<longleftrightarrow> c \<in> {CHR '' '', CHR 0x09, CHR 0x0A, CHR 0x0D}"

definition skip_space :: "string \<Rightarrow> string" where
  "skip_space s = dropWhile is_json_space s"

definition is_hex :: "char \<Rightarrow> bool" where
  "is_hex c \<longleftrightarrow> is_digit c \<or> (CHR ''a'' \<le> lower_char c \<and> lower_char c \<le> CHR ''f'')"

definition read_escape :: "char \<Rightarrow> char option" where
  "read_escape c =
     map_of [(CHR 0x22, CHR 0x22), (CHR 0x5C, CHR 0x5C), (CHR ''/'', CHR ''/''), (CHR ''b'', CHR 0x08), (CHR ''f'', CHR 0x0C),
             (CHR ''n'', CHR 0x0A), (CHR ''r'', CHR 0x0D), (CHR ''t'', CHR 0x09)] c"

fun read_chars :: "string \<Rightarrow> (string \<times> string) option" where
  \<comment> \<open>the rest of a string after its opening quote\<close>
  "read_chars [] = None"
| "read_chars (c # r) =
     (if c = CHR 0x22 then Some ([], r)
      else if c = CHR 0x5C then
        (case r of
           [] \<Rightarrow> None
         | d # r' \<Rightarrow>
             if d = CHR ''u'' then
               (case r' of
                  a # b # x # y # r'' \<Rightarrow>
                    if list_all is_hex [a, b, x, y] \<and> a = CHR ''0'' \<and> b = CHR ''0''
                    then map_option (\<lambda>(s, r). (char_of (16 * hex_value (lower_char x) + hex_value (lower_char y)) # s, r)) (read_chars r'')
                    else None
                | _ \<Rightarrow> None)
             else
               (case read_escape d of
                  Some e \<Rightarrow> map_option (\<lambda>(s, r). (e # s, r)) (read_chars r')
                | None \<Rightarrow> None))
      else if (of_char c :: nat) < 32 then None
      else map_option (\<lambda>(s, r). (c # s, r)) (read_chars r))"

definition scan_int :: "string \<Rightarrow> (string \<times> string) option" where
  \<comment> \<open>\<open>-?(0|[1-9][0-9]*)\<close>\<close>
  "scan_int s =
     (let neg = (take 1 s = ''-''); sign = (if neg then ''-'' else []); r = (if neg then drop 1 s else s) in
      case r of
        [] \<Rightarrow> None
      | c # r' \<Rightarrow>
          if c = CHR ''0'' then Some (sign @ [c], r')
          else if is_digit c then Some (sign @ takeWhile is_digit r, dropWhile is_digit r)
          else None)"

definition scan_fraction :: "string \<Rightarrow> string \<times> string" where
  "scan_fraction s =
     (case s of
        c # d # r \<Rightarrow> if c = CHR ''.'' \<and> is_digit d then (c # takeWhile is_digit (d # r), dropWhile is_digit (d # r)) else ([], s)
      | _ \<Rightarrow> ([], s))"

definition scan_sign :: "string \<Rightarrow> string" where
  "scan_sign s = (if take 1 s = ''+'' \<or> take 1 s = ''-'' then take 1 s else [])"

definition scan_exponent :: "string \<Rightarrow> string \<times> string" where
  "scan_exponent s =
     (if take 1 s = ''e'' \<or> take 1 s = ''E'' then
        let sign = scan_sign (drop 1 s); r = drop (Suc (length sign)) s; ds = takeWhile is_digit r
        in if ds = [] then ([], s) else (take 1 s @ sign @ ds, dropWhile is_digit r)
      else ([], s))"

definition int_of_text :: "string \<Rightarrow> int" where
  "int_of_text s = (if take 1 s = ''-'' then - digits_value (drop 1 s) else digits_value s)"

definition starts_with :: "string \<Rightarrow> string \<Rightarrow> bool" where
  "starts_with p s \<longleftrightarrow> take (length p) s = p"

definition read_atom :: "string \<Rightarrow> (pyval \<times> string) option" where
  "read_atom s =
     (if starts_with ''null'' s then Some (PNone, drop 4 s)
      else if starts_with ''true'' s then Some (PBool True, drop 4 s)
      else if starts_with ''false'' s then Some (PBool False, drop 5 s)
      else case scan_int s of
        Some (i, r) \<Rightarrow>
          (case scan_fraction r of (f, r) \<Rightarrow>
           case scan_exponent r of (e, r) \<Rightarrow>
             Some (if f @ e = [] then PInt (int_of_text i) else PFloat (i @ f @ e), r))
      | None \<Rightarrow>
          if starts_with ''NaN'' s then Some (PFloat ''nan'', drop 3 s)
          else if starts_with ''Infinity'' s then Some (PFloat ''inf'', drop 8 s)
          else if starts_with ''-Infinity'' s then Some (PFloat ''-inf'', drop 9 s)
          else None)"

fun read_value :: "nat \<Rightarrow> string \<Rightarrow> (pyval \<times> string) option"
and read_elements :: "nat \<Rightarrow> string \<Rightarrow> (pyval list \<times> string) option"
and read_members :: "nat \<Rightarrow> string \<Rightarrow> ((string \<times> pyval) list \<times> string) option" where
  "read_value 0 s = None"
| "read_value (Suc n) s =
     (if starts_with [CHR 0x22] s then map_option (\<lambda>(t, r). (PStr t, r)) (read_chars (drop 1 s))
      else if starts_with ''{'' s then
        (let r = skip_space (drop 1 s) in
         if starts_with ''}'' r then Some (PDict [], drop 1 r)
         else map_option (\<lambda>(kvs, r). (PDict (dict_of kvs), r)) (read_members n r))
      else if starts_with ''['' s then
        (let r = skip_space (drop 1 s) in
         if starts_with '']'' r then Some (PList [], drop 1 r)
         else map_option (\<lambda>(vs, r). (PList vs, r)) (read_elements n r))
      else read_atom s)"
| "read_elements 0 s = None"
| "read_elements (Suc n) s =
     (case read_value n s of
        None \<Rightarrow> None
      | Some (v, r) \<Rightarrow>
          let r = skip_space r in
          if starts_with '']'' r then Some ([v], drop 1 r)
          else if starts_with '','' r then map_option (\<lambda>(vs, r). (v # vs, r)) (read_elements n (skip_space (drop 1 r)))
          else None)"
| "read_members 0 s = None"
| "read_members (Suc n) s =
     (if \<not> starts_with [CHR 0x22] s then None
      else case read_chars (drop 1 s) of
        None \<Rightarrow> None
      | Some (k, r) \<Rightarrow>
          let r = skip_space r in
          if \<not> starts_with '':'' r then None
          else case read_value n (skip_space (drop 1 r)) of
            None \<Rightarrow> None
          | Some (v, r) \<Rightarrow>
              let r = skip_space r in
              if starts_with ''}'' r then Some ([(k, v)], drop 1 r)
              else if starts_with '','' r
              then map_option (\<lambda>(kvs, r). ((k, v) # kvs, r)) (read_members n (skip_space (drop 1 r)))
              else None)"

definition json_loads :: "string \<Rightarrow> pyval result" where
  "json_loads s =
     (case read_value (Suc (length s)) (skip_space s) of
        Some (v, r) \<Rightarrow> if skip_space r = [] then Inr v else Inl decode_error
      | None \<Rightarrow> Inl decode_error)"

section \<open>The printers share one shape\<close>

fun json_text :: "bool \<Rightarrow> string \<Rightarrow> pyval \<Rightarrow> string" where
  \<comment> \<open>the separators are a comma and a colon, with white space after them\<close>
  "json_text srt ws (PList vs) = ''['' @ join ('','' @ ws) (map (json_text srt ws) vs) @ '']''"
| "json_text srt ws (PDict kvs) =
     ''{'' @ join ('','' @ ws) (map (\<lambda>(k, v). json_string k @ '':'' @ ws @ v)
       ((if srt then sort_key fst else id) (map (\<lambda>(k, v). (k, json_text srt ws v)) kvs))) @ ''}''"
| "json_text srt ws v = json_dumps srt v"

lemma json_dumps_text: "json_dumps srt v = json_text srt '' '' v"
proof (induction srt "'' ''" v rule: json_text.induct)
  case (2 srt kvs)
  then have "map (\<lambda>(k, v). (k, json_dumps srt v)) kvs = map (\<lambda>(k, v). (k, json_text srt '' '' v)) kvs" by auto
  note eq = this
  show ?case unfolding json_dumps.simps json_text.simps Let_def json_members_def eq by simp
qed (simp_all cong: map_cong)

lemma json_compact_text: "json_compact v = json_text True [] v"
proof (induction v rule: json_compact.induct)
  case (2 kvs)
  then have "map (\<lambda>(k, v). (k, json_compact v)) kvs = map (\<lambda>(k, v). (k, json_text True [] v)) kvs" by auto
  note eq = this
  show ?case unfolding json_compact.simps json_text.simps eq by simp
qed (simp_all cong: map_cong)

fun json_value :: "bool \<Rightarrow> pyval \<Rightarrow> pyval" where
  \<comment> \<open>the value that the text of another one stands for: \<open>sort_keys\<close> orders the keys\<close>
  "json_value srt (PList vs) = PList (map (json_value srt) vs)"
| "json_value srt (PDict kvs) = PDict ((if srt then sort_key fst else id) (map (\<lambda>(k, v). (k, json_value srt v)) kvs))"
| "json_value srt v = v"

definition float_text :: "string \<Rightarrow> bool" where
  \<comment> \<open>the shape of the \<open>repr\<close> of a float\<close>
  "float_text r \<longleftrightarrow> r \<in> {''nan'', ''inf'', ''-inf''} \<or>
     (case scan_int r of None \<Rightarrow> False
      | Some (i, r1) \<Rightarrow> (case scan_fraction r1 of (f, r2) \<Rightarrow> case scan_exponent r2 of (e, r3) \<Rightarrow> f @ e \<noteq> [] \<and> r3 = []))"

fun json_ok :: "pyval \<Rightarrow> bool" where
  \<comment> \<open>what a Python value satisfies: the keys of a dict are distinct, a float has the text of a float\<close>
  "json_ok (PFloat r) = float_text r"
| "json_ok (PList vs) = list_all json_ok vs"
| "json_ok (PDict kvs) = (distinct (dkeys kvs) \<and> list_all (\<lambda>(k, v). json_ok v) kvs)"
| "json_ok v = True"


section \<open>Reading what was written\<close>

lemma sort_key_map_values:
  "sort_key fst (map (\<lambda>(k, v). (k, f v)) kvs) = map (\<lambda>(k, v). (k, f v)) (sort_key fst kvs)"
proof (induction kvs)
  case (Cons kv kvs)
  have "insort_key fst (case kv of (k, v) \<Rightarrow> (k, f v)) (map (\<lambda>(k, v). (k, f v)) xs) = map (\<lambda>(k, v). (k, f v)) (insort_key fst kv xs)" for xs
    by (induction xs) (auto split: prod.splits)
  with Cons show ?case by simp
qed simp

lemma starts_with_simps [simp]:
  "starts_with [] s" "\<not> starts_with (c # p) []" "starts_with (c # p) (d # s) \<longleftrightarrow> d = c \<and> starts_with p s"
  by (auto simp: starts_with_def)

lemma skip_space_simps [simp]:
  "skip_space [] = []" "is_json_space c \<Longrightarrow> skip_space (c # s) = skip_space s" "\<not> is_json_space c \<Longrightarrow> skip_space (c # s) = c # s"
  by (simp_all add: skip_space_def)

lemma skip_space_app: "list_all is_json_space ws \<Longrightarrow> skip_space (ws @ s) = skip_space s"
  by (induction ws) auto

lemma hex_digit_reads:
  assumes "n < 16"
  shows "lower_char (hex_digit n) = hex_digit n" "is_hex (hex_digit n)"
proof -
  have "list_all (\<lambda>n. lower_char (hex_digit n) = hex_digit n \<and> is_hex (hex_digit n)) [0..<16]" by code_simp
  then show "lower_char (hex_digit n) = hex_digit n" "is_hex (hex_digit n)" using assms by (simp_all add: list_all_iff)
qed

lemma read_chars_char: "read_chars (json_char c @ r) = map_option (\<lambda>(s, r). (c # s, r)) (read_chars r)"
proof -
  have small: "(of_char c :: nat) div 16 < 16" using nat_of_char_less_256 [of c] by (simp add: less_mult_imp_div_less)
  have again: "char_of (16 * hex_value (hex_digit (of_char c div 16)) + hex_value (hex_digit (of_char c mod 16))) = c"
    using small by (simp add: hex_value_digit)
  have zero: "is_hex CHR ''0''" by (simp add: is_hex_def is_digit_def)
  note hex = hex_digit_reads [OF small] hex_digit_reads [of "of_char c mod 16"]
  consider "c \<in> {CHR 0x22, CHR 0x5C, CHR 0x0A, CHR 0x0D, CHR 0x09, CHR 0x08, CHR 0x0C}"
    | "c \<notin> {CHR 0x22, CHR 0x5C, CHR 0x0A, CHR 0x0D, CHR 0x09, CHR 0x08, CHR 0x0C}" "32 \<le> (of_char c :: nat)" "of_char c \<le> (126 :: nat)"
    | "c \<notin> {CHR 0x22, CHR 0x5C, CHR 0x0A, CHR 0x0D, CHR 0x09, CHR 0x08, CHR 0x0C}" "\<not> (32 \<le> (of_char c :: nat) \<and> of_char c \<le> (126 :: nat))"
    by blast
  then show ?thesis
  proof cases
    case 1
    then show ?thesis by (elim insertE emptyE) (simp_all add: json_char_def read_escape_def)
  next
    case 2
    then show ?thesis by (simp add: json_char_def Let_def)
  next
    case 3
    then have "json_char c = [CHR 0x5C, CHR ''u'', CHR ''0'', CHR ''0'', hex_digit (of_char c div 16), hex_digit (of_char c mod 16)]"
      by (simp add: json_char_def Let_def)
    then show ?thesis using again zero hex by simp
  qed
qed

lemma read_chars_string [simp]: "read_chars (concat (map json_char s) @ CHR 0x22 # r) = Some (s, r)"
  by (induction s) (simp_all add: read_chars_char)

definition delimited :: "string \<Rightarrow> bool" where
  \<comment> \<open>no character that continues a number\<close>
  "delimited r \<longleftrightarrow> (case r of [] \<Rightarrow> True | c # _ \<Rightarrow> \<not> is_digit c \<and> c \<notin> {CHR ''.'', CHR ''e'', CHR ''E'', CHR ''+'', CHR ''-''})"

lemma delimited_simps [simp]:
  "delimited []" "delimited (CHR '','' # r)" "delimited (CHR '']'' # r)" "delimited (CHR ''}'' # r)" "delimited (CHR 0x0A # r)"
  by (simp_all add: delimited_def is_digit_def less_eq_char_def)

lemma span_app:
  assumes "dropWhile P x \<noteq> [] \<or> r = [] \<or> \<not> P (hd r)"
  shows "takeWhile P (x @ r) = takeWhile P x" "dropWhile P (x @ r) = dropWhile P x @ r"
proof -
  have "takeWhile P (x @ r) = takeWhile P x \<and> dropWhile P (x @ r) = dropWhile P x @ r"
    using assms
  proof (induction x)
    case Nil
    then show ?case by (cases r) auto
  qed (auto split: if_splits)
  then show "takeWhile P (x @ r) = takeWhile P x" "dropWhile P (x @ r) = dropWhile P x @ r" by simp_all
qed

lemma delimited_hd: "delimited r \<Longrightarrow> r = [] \<or> \<not> is_digit (hd r)"
  by (cases r) (auto simp: delimited_def)

lemma scan_int_app:
  assumes "scan_int x = Some (i, y)" "delimited r"
  shows "scan_int (x @ r) = Some (i, y @ r)"
proof -
  note hd = delimited_hd [OF assms(2)]
  have body: "(case z @ r of [] \<Rightarrow> None | c # r' \<Rightarrow> if c = CHR ''0'' then Some (sg @ [c], r')
        else if is_digit c then Some (sg @ takeWhile is_digit (z @ r), dropWhile is_digit (z @ r)) else None) = Some (i, y @ r)"
    if "(case z of [] \<Rightarrow> None | c # r' \<Rightarrow> if c = CHR ''0'' then Some (sg @ [c], r')
        else if is_digit c then Some (sg @ takeWhile is_digit z, dropWhile is_digit z) else None) = Some (i, y)" for z sg
  proof (cases z)
    case (Cons c z')
    have "takeWhile is_digit (z @ r) = takeWhile is_digit z" "dropWhile is_digit (z @ r) = dropWhile is_digit z @ r"
      using span_app [of is_digit z r] hd by simp_all
    with Cons that show ?thesis by (simp split: if_splits)
  qed (use that in simp)
  have "x \<noteq> []" using assms(1) by (auto simp: scan_int_def)
  then have "take 1 (x @ r) = take 1 x" "drop 1 (x @ r) = drop 1 x @ r" by (cases x; simp)+
  then show ?thesis
    using assms(1) body [where z = "drop 1 x" and sg = "''-''"] body [where z = x and sg = "[]"]
    by (cases "take 1 x = ''-''") (simp_all only: scan_int_def Let_def if_True if_False append_Nil refl)
qed

lemma scan_fraction_app:
  assumes "scan_fraction x = (f, y)" "delimited r"
  shows "scan_fraction (x @ r) = (f, y @ r)"
proof (cases x)
  case Nil
  with assms show ?thesis by (cases r) (auto simp: scan_fraction_def delimited_def split: list.splits)
next
  case (Cons c x')
  show ?thesis
  proof (cases x')
    case Nil
    with Cons assms delimited_hd [OF assms(2)] show ?thesis by (cases r) (auto simp: scan_fraction_def)
  next
    case x': (Cons d x'')
    have "takeWhile is_digit (x' @ r) = takeWhile is_digit x'" "dropWhile is_digit (x' @ r) = dropWhile is_digit x' @ r"
      using span_app [of is_digit x' r] delimited_hd [OF assms(2)] by simp_all
    with x' Cons assms show ?thesis by (auto simp: scan_fraction_def split: if_splits)
  qed
qed

lemma scan_sign_app: "delimited r \<Longrightarrow> scan_sign (x @ r) = scan_sign x \<and> length (scan_sign x) \<le> length x"
  by (cases x; cases r) (auto simp: scan_sign_def delimited_def)

lemma scan_exponent_app:
  assumes "scan_exponent x = (e, y)" "delimited r"
  shows "scan_exponent (x @ r) = (e, y @ r)"
proof (cases x)
  case Nil
  with assms show ?thesis by (cases r) (auto simp: scan_exponent_def delimited_def)
next
  case (Cons c x')
  let ?d = "drop (length (scan_sign x')) x'"
  have sign: "scan_sign (x' @ r) = scan_sign x'" "drop (length (scan_sign x')) (x' @ r) = ?d @ r"
    using scan_sign_app [OF assms(2), of x'] by simp_all
  have "takeWhile is_digit (?d @ r) = takeWhile is_digit ?d" "dropWhile is_digit (?d @ r) = dropWhile is_digit ?d @ r"
    using span_app [of is_digit ?d r] delimited_hd [OF assms(2)] by simp_all
  with assms(1) sign show ?thesis
    unfolding Cons scan_exponent_def Let_def by (auto split: if_splits)
qed

lemma string_of_nat_head: "string_of_nat n \<noteq> [] \<and> is_digit (hd (string_of_nat n)) \<and> (hd (string_of_nat n) = CHR ''0'' \<longrightarrow> n = 0)"
proof (induction n rule: string_of_nat.induct)
  case (1 n)
  show ?case
  proof (cases "n < 10")
    case True
    then have eq: "string_of_nat n = [char_of (48 + n)]" by (subst string_of_nat.simps) simp
    have "n = 0" if "char_of (48 + n) = CHR ''0''"
      using of_char_digit [OF True] unfolding that by simp
    with eq string_of_nat_digits [of "char_of (48 + n)" n] show ?thesis by simp
  next
    case False
    then have "string_of_nat n = string_of_nat (n div 10) @ [char_of (48 + n mod 10)]" by (subst string_of_nat.simps) simp
    with 1 [OF False] False show ?thesis by auto
  qed
qed

lemma scan_int_string: "scan_int (string_of_int n) = Some (string_of_int n, [])" "int_of_text (string_of_int n) = n"
proof -
  have all: "list_all is_digit (string_of_nat m)" for m using string_of_nat_digits by (auto simp: list_all_iff)
  have span: "takeWhile is_digit (string_of_nat m) = string_of_nat m" "dropWhile is_digit (string_of_nat m) = []" for m
    using all [of m] by (simp_all add: list_all_iff)
  obtain c s where head: "string_of_nat (nat \<bar>n\<bar>) = c # s" "is_digit c" "c = CHR ''0'' \<Longrightarrow> n = 0"
    using string_of_nat_head [of "nat \<bar>n\<bar>"] by (cases "string_of_nat (nat \<bar>n\<bar>)") auto
  have minus: "c \<noteq> CHR ''-''" using head(2) by (auto simp: is_digit_def less_eq_char_def)
  have zero: "string_of_nat 0 = ''0''" by (subst string_of_nat.simps) (simp add: char_of_def bit_0)
  have val: "digits_value (c # s) = \<bar>n\<bar>" using digits_value_string_of_nat [of "nat \<bar>n\<bar>"] head(1) by simp
  show "scan_int (string_of_int n) = Some (string_of_int n, [])"
    using head minus span [of "nat \<bar>n\<bar>"] zero
    by (cases "n = 0"; cases "n < 0") (auto simp: scan_int_def string_of_int_def Let_def)
  show "int_of_text (string_of_int n) = n"
    using head(1) minus val by (cases "n < 0") (auto simp: int_of_text_def string_of_int_def)
qed

lemma read_atom_number:
  assumes "scan_int x = Some (i, y)" "scan_fraction y = (f, z)" "scan_exponent z = (e, [])" "delimited r"
  shows "read_atom (x @ r) = Some (if f @ e = [] then PInt (int_of_text i) else PFloat (i @ f @ e), r)"
proof -
  obtain c x' where x: "x = c # x'" "c = CHR ''-'' \<or> is_digit c"
  proof (cases x)
    case (Cons c x')
    have "c = CHR ''-'' \<or> is_digit c"
    proof (rule ccontr)
      assume "\<not> (c = CHR ''-'' \<or> is_digit c)"
      moreover from this have "c \<noteq> CHR ''0''" by (auto simp: is_digit_def)
      ultimately have "scan_int x = None" by (simp add: scan_int_def Cons)
      with assms(1) show False by simp
    qed
    with Cons that show thesis by blast
  qed (use assms(1) in \<open>simp add: scan_int_def\<close>)
  then have "c \<noteq> CHR ''n''" "c \<noteq> CHR ''t''" "c \<noteq> CHR ''f''" by (auto simp: is_digit_def less_eq_char_def)
  then show ?thesis
    using x scan_int_app [OF assms(1,4)] scan_fraction_app [OF assms(2,4)] scan_exponent_app [OF assms(3,4)]
    by (simp add: read_atom_def)
qed

lemma scan_parts: "scan_int x = Some (i, y) \<Longrightarrow> scan_fraction y = (f, z) \<Longrightarrow> scan_exponent z = (e, w) \<Longrightarrow> x = i @ f @ e @ w"
proof -
  assume a: "scan_int x = Some (i, y)" "scan_fraction y = (f, z)" "scan_exponent z = (e, w)"
  have "x = i @ y"
  proof (cases "take 1 x = ''-''")
    case True
    then obtain z where x: "x = CHR ''-'' # z" by (cases x) auto
    with a(1) show ?thesis by (cases z) (auto simp: scan_int_def Let_def split: if_splits)
  next
    case False
    with a(1) show ?thesis by (cases x) (auto simp: scan_int_def Let_def split: if_splits)
  qed
  moreover have "y = f @ z"
  proof (cases "scan_fraction y = ([], y)")
    case False
    then obtain d r where "y = CHR ''.'' # d # r" "is_digit d" by (auto simp: scan_fraction_def split: list.splits if_splits)
    with a(2) show ?thesis by (auto simp: scan_fraction_def)
  qed (use a(2) in simp)
  moreover have "z = e @ w"
  proof -
    have "scan_sign s = take (length (scan_sign s)) s" for s by (cases s) (auto simp: scan_sign_def)
    then have "z = take 1 z @ scan_sign (drop 1 z) @ drop (Suc (length (scan_sign (drop 1 z)))) z"
      by (metis append_take_drop_id drop_drop plus_1_eq_Suc add.commute)
    then have split: "z = take 1 z @ scan_sign (drop 1 z) @ takeWhile is_digit (drop (Suc (length (scan_sign (drop 1 z)))) z) @
        dropWhile is_digit (drop (Suc (length (scan_sign (drop 1 z)))) z)" by simp
    show ?thesis
    proof (cases "scan_exponent z = ([], z)")
      case False
      then have "e = take 1 z @ scan_sign (drop 1 z) @ takeWhile is_digit (drop (Suc (length (scan_sign (drop 1 z)))) z)"
        "w = dropWhile is_digit (drop (Suc (length (scan_sign (drop 1 z)))) z)"
        using a(3) by (auto simp: scan_exponent_def Let_def simp del: One_nat_def split: if_splits)
      with split show ?thesis by simp
    qed (use a(3) in simp)
  qed
  ultimately show ?thesis by simp
qed

definition value_start :: "char \<Rightarrow> bool" where
  "value_start c \<longleftrightarrow> \<not> is_json_space c \<and> c \<notin> {CHR '']'', CHR ''}''}"

lemma value_start_digit: "is_digit c \<Longrightarrow> value_start c"
  by (auto simp: value_start_def is_digit_def is_json_space_def less_eq_char_def)

lemma float_text_head: "float_text r \<Longrightarrow> \<exists>c t. json_float r = c # t \<and> value_start c \<and> c \<notin> {CHR 0x22, CHR ''{'', CHR ''[''}"
proof -
  assume ok: "float_text r"
  show ?thesis
  proof (cases "r \<in> {''nan'', ''inf'', ''-inf''}")
    case True
    then show ?thesis by (elim insertE emptyE) (simp_all add: json_float_def value_start_def is_json_space_def)
  next
    case False
    then obtain i r' where scan: "scan_int r = Some (i, r')" using ok by (auto simp: float_text_def split: option.splits)
    then obtain c t where r: "r = c # t" by (cases r) (auto simp: scan_int_def)
    have "c = CHR ''-'' \<or> is_digit c"
    proof (rule ccontr)
      assume "\<not> (c = CHR ''-'' \<or> is_digit c)"
      moreover from this have "c \<noteq> CHR ''0''" by (auto simp: is_digit_def)
      ultimately have "scan_int r = None" by (simp add: scan_int_def r)
      with scan show False by simp
    qed
    then have "value_start c" "c \<notin> {CHR 0x22, CHR ''{'', CHR ''[''}"
      using value_start_digit [of c] by (auto simp: value_start_def is_json_space_def is_digit_def less_eq_char_def)
    moreover have "json_float r = r" using False by (simp add: json_float_def)
    ultimately show ?thesis using r by simp
  qed
qed

lemma json_text_head: "json_ok v \<Longrightarrow> \<exists>c t. json_text srt ws v = c # t \<and> value_start c"
proof (cases v)
  case (PInt n)
  obtain c t where "string_of_int n = c # t" "c = CHR ''-'' \<or> is_digit c"
    using string_of_nat_head [of "nat n"] by (cases "n < 0"; cases "string_of_nat (nat n)") (auto simp: string_of_int_def)
  with PInt value_start_digit [of c] show ?thesis by (auto simp: value_start_def is_json_space_def)
qed (auto dest: float_text_head simp: json_string_def value_start_def is_json_space_def)

definition reads_back :: "bool \<Rightarrow> string \<Rightarrow> pyval \<Rightarrow> bool" where
  "reads_back srt ws v \<longleftrightarrow> (\<forall>n r. delimited r \<longrightarrow> length (json_text srt ws v) \<le> n \<longrightarrow>
     read_value n (json_text srt ws v @ r) = Some (json_value srt v, r))"

lemma skip_space_text: "json_ok v \<Longrightarrow> skip_space (json_text srt ws v @ r) = json_text srt ws v @ r"
  using json_text_head [of v srt ws] by (auto simp: value_start_def)

lemma read_elements_text:
  assumes "list_all is_json_space ws" "\<forall>v \<in> set vs. reads_back srt ws v \<and> json_ok v" "vs \<noteq> []"
    and "length (join ('','' @ ws) (map (json_text srt ws) vs)) < n"
  shows "read_elements n (join ('','' @ ws) (map (json_text srt ws) vs) @ '']'' @ r) = Some (map (json_value srt) vs, r)"
  using assms(2-)
proof (induction vs arbitrary: n)
  case (Cons v vs)
  then obtain m where n: "n = Suc m" by (cases n) auto
  have space: "\<not> is_json_space CHR '']''" "\<not> is_json_space CHR '',''" by (simp_all add: is_json_space_def)
  show ?case
  proof (cases vs)
    case Nil
    have "read_value m (json_text srt ws v @ '']'' @ r) = Some (json_value srt v, '']'' @ r)"
      using Cons.prems n Nil by (auto simp: reads_back_def)
    with n Nil space show ?thesis by simp
  next
    case vs: (Cons w ws')
    let ?rest = "join ('','' @ ws) (map (json_text srt ws) vs)"
    have "read_value m (json_text srt ws v @ CHR '','' # ws @ ?rest @ '']'' @ r) = Some (json_value srt v, CHR '','' # ws @ ?rest @ '']'' @ r)"
      using Cons.prems n vs by (auto simp: reads_back_def)
    moreover have "skip_space (ws @ ?rest @ '']'' @ r) = ?rest @ '']'' @ r"
    proof -
      obtain t where "?rest = json_text srt ws w @ t" using vs by (cases ws') auto
      then show ?thesis using skip_space_app [OF assms(1)] skip_space_text [of w srt ws] Cons.prems(1) vs by simp
    qed
    moreover have "read_elements m (?rest @ '']'' @ r) = Some (map (json_value srt) vs, r)"
      using Cons.IH [of m] Cons.prems n vs by simp
    ultimately show ?thesis using n vs space by simp
  qed
qed simp

definition member_text :: "bool \<Rightarrow> string \<Rightarrow> string \<times> pyval \<Rightarrow> string" where
  "member_text srt ws kv = (case kv of (k, v) \<Rightarrow> json_string k @ '':'' @ ws @ json_text srt ws v)"

lemma read_members_text:
  assumes "list_all is_json_space ws" "\<forall>(k, v) \<in> set kvs. reads_back srt ws v \<and> json_ok v" "kvs \<noteq> []"
    and "length (join ('','' @ ws) (map (member_text srt ws) kvs)) < n"
  shows "read_members n (join ('','' @ ws) (map (member_text srt ws) kvs) @ ''}'' @ r) =
    Some (map (\<lambda>(k, v). (k, json_value srt v)) kvs, r)"
  using assms(2-)
proof (induction kvs arbitrary: n)
  case (Cons kv kvs)
  obtain k v where kv: "kv = (k, v)" by (cases kv)
  obtain m where n: "n = Suc m" using Cons.prems by (cases n) auto
  have space: "\<not> is_json_space CHR ''}''" "\<not> is_json_space CHR '',''" "\<not> is_json_space CHR '':''"
    by (simp_all add: is_json_space_def)
  have v: "reads_back srt ws v" "json_ok v" using Cons.prems(1) kv by auto
  have member: "read_members (Suc m) (member_text srt ws kv @ t) =
      (case read_value m (json_text srt ws v @ t) of None \<Rightarrow> None
       | Some (v, r) \<Rightarrow> let r = skip_space r in
           if starts_with ''}'' r then Some ([(k, v)], drop 1 r)
           else if starts_with '','' r then map_option (\<lambda>(kvs, r). ((k, v) # kvs, r)) (read_members m (skip_space (drop 1 r)))
           else None)" for t
    using space skip_space_app [OF assms(1)] skip_space_text [OF v(2)]
    by (simp add: member_text_def kv json_string_def)
  have len: "length (json_text srt ws v) \<le> m" if "length (member_text srt ws kv) < Suc m"
    using that by (simp add: member_text_def kv)
  show ?case
  proof (cases kvs)
    case Nil
    have "read_value m (json_text srt ws v @ ''}'' @ r) = Some (json_value srt v, ''}'' @ r)"
      using v(1) len Cons.prems(3) n Nil by (auto simp: reads_back_def)
    with n Nil space member show ?thesis by (simp add: kv)
  next
    case kvs: (Cons kw kws)
    let ?rest = "join ('','' @ ws) (map (member_text srt ws) kvs)"
    have "read_value m (json_text srt ws v @ CHR '','' # ws @ ?rest @ ''}'' @ r) = Some (json_value srt v, CHR '','' # ws @ ?rest @ ''}'' @ r)"
      using v(1) len Cons.prems(3) n kvs by (auto simp: reads_back_def)
    moreover have "skip_space (ws @ ?rest @ ''}'' @ r) = ?rest @ ''}'' @ r"
    proof -
      obtain t where "?rest = CHR 0x22 # t" using kvs by (cases kws; cases kw) (auto simp: member_text_def json_string_def)
      then show ?thesis using skip_space_app [OF assms(1)] by (simp add: is_json_space_def)
    qed
    moreover have "read_members m (?rest @ ''}'' @ r) = Some (map (\<lambda>(k, v). (k, json_value srt v)) kvs, r)"
      using Cons.IH [of m] Cons.prems n kvs by simp
    ultimately show ?thesis
      using n kvs space member [of "CHR '','' # ws @ ?rest @ ''}'' @ r"] by (simp add: kv)
  qed
qed simp

lemma json_text_members:
  "json_text srt ws (PDict kvs) = ''{'' @ join ('','' @ ws) (map (member_text srt ws) ((if srt then sort_key fst else id) kvs)) @ ''}''"
proof -
  have "map (\<lambda>(k, v). json_string k @ '':'' @ ws @ v) (map (\<lambda>(k, v). (k, json_text srt ws v)) xs) = map (member_text srt ws) xs" for xs
    by (simp add: member_text_def split_def)
  then show ?thesis by (cases srt) (simp_all only: json_text.simps sort_key_map_values if_True if_False id_apply)
qed

lemma json_value_members:
  "json_value srt (PDict kvs) = PDict (map (\<lambda>(k, v). (k, json_value srt v)) ((if srt then sort_key fst else id) kvs))"
  by (simp add: sort_key_map_values)

lemma read_constants:
  "read_atom (''null'' @ r) = Some (PNone, r)" "read_atom (''true'' @ r) = Some (PBool True, r)"
  "read_atom (''false'' @ r) = Some (PBool False, r)" "read_atom (''NaN'' @ r) = Some (PFloat ''nan'', r)"
  "read_atom (''Infinity'' @ r) = Some (PFloat ''inf'', r)" "read_atom (''-Infinity'' @ r) = Some (PFloat ''-inf'', r)"
  by (simp_all add: read_atom_def scan_int_def is_digit_def less_eq_char_def)

lemma read_atom_text:
  assumes "json_ok v" "delimited r" "v = PNone \<or> v = PBool b \<or> v = PInt i \<or> v = PFloat f"
  shows "read_atom (json_dumps srt v @ r) = Some (v, r)"
proof -
  have none: "scan_fraction [] = ([], [])" "scan_exponent [] = ([], [])" by (simp_all add: scan_fraction_def scan_exponent_def)
  have float: "read_atom (json_float f @ r) = Some (PFloat f, r)" if ok: "float_text f"
  proof (cases "f \<in> {''nan'', ''inf'', ''-inf''}")
    case True
    then show ?thesis by (elim insertE emptyE) (simp_all add: json_float_def read_constants [simplified])
  next
    case False
    then obtain j y g z e where scan: "scan_int f = Some (j, y)" "scan_fraction y = (g, z)" "scan_exponent z = (e, [])" "g @ e \<noteq> []"
      using ok by (auto simp: float_text_def split: option.splits prod.splits)
    have "json_float f = f" using False by (simp add: json_float_def)
    with read_atom_number [OF scan(1-3) assms(2)] scan_parts [OF scan(1-3)] scan(4) show ?thesis by auto
  qed
  have "read_atom (string_of_int i @ r) = Some (PInt i, r)"
    using read_atom_number [OF scan_int_string(1) none assms(2)] scan_int_string(2) by simp
  with assms(1,3) float show ?thesis
    by (elim disjE) (auto simp: read_constants [simplified])
qed

lemma reads_back_atom:
  assumes "json_ok v" "v = PNone \<or> v = PBool b \<or> v = PInt i \<or> v = PFloat f"
  shows "reads_back srt ws v"
  unfolding reads_back_def
proof (intro allI impI)
  have same: "json_text srt ws v = json_dumps srt v" "json_value srt v = v" using assms(2) by auto
  fix n r assume n: "length (json_text srt ws v) \<le> n" and r: "delimited r"
  obtain c t where c: "json_dumps srt v = c # t" "c \<notin> {CHR 0x22, CHR ''{'', CHR ''[''}"
  proof -
    have "\<exists>c t. string_of_int i = c # t \<and> (c = CHR ''-'' \<or> is_digit c)"
      using string_of_nat_head [of "nat i"] by (cases "i < 0"; cases "string_of_nat (nat i)") (auto simp: string_of_int_def)
    then have "\<exists>c t. string_of_int i = c # t \<and> c \<notin> {CHR 0x22, CHR ''{'', CHR ''[''}"
      by (auto simp: is_digit_def less_eq_char_def)
    then have "\<exists>c t. json_dumps srt v = c # t \<and> c \<notin> {CHR 0x22, CHR ''{'', CHR ''[''}"
      using assms float_text_head [of f] by (elim disjE) auto
    with that show thesis by blast
  qed
  then obtain m where m: "n = Suc m" using n same by (cases n) auto
  have "read_value (Suc m) (json_dumps srt v @ r) = read_atom (json_dumps srt v @ r)" using c by simp
  then show "read_value n (json_text srt ws v @ r) = Some (json_value srt v, r)"
    using read_atom_text [OF assms(1) r assms(2)] by (simp only: same m)
qed

lemma reads_back_string: "reads_back srt ws (PStr s)"
  unfolding reads_back_def
proof (intro allI impI)
  fix n r assume "length (json_text srt ws (PStr s)) \<le> n"
  then obtain m where "n = Suc m" by (cases n) (auto simp: json_string_def)
  then show "read_value n (json_text srt ws (PStr s) @ r) = Some (json_value srt (PStr s), r)"
    by (simp add: json_string_def)
qed

lemma read_value_text: "json_ok v \<Longrightarrow> list_all is_json_space ws \<Longrightarrow> reads_back srt ws v"
proof (induction srt ws v rule: json_text.induct)
  case (1 srt ws vs)
  have all: "\<forall>v \<in> set vs. reads_back srt ws v \<and> json_ok v" using 1 by (auto simp: list_all_iff)
  show ?case unfolding reads_back_def
  proof (intro allI impI)
    fix n r assume n: "length (json_text srt ws (PList vs)) \<le> n"
    let ?body = "join ('','' @ ws) (map (json_text srt ws) vs)"
    obtain m where m: "n = Suc m" "length ?body < m" using n by (cases n) auto
    show "read_value n (json_text srt ws (PList vs) @ r) = Some (json_value srt (PList vs), r)"
    proof (cases vs)
      case Nil
      with m show ?thesis by (simp add: is_json_space_def)
    next
      case (Cons w vs')
      obtain c t where "?body = c # t" "value_start c"
        using json_text_head [of w srt ws] all Cons by (cases vs') auto
      then have "\<not> starts_with '']'' (?body @ '']'' @ r)" "skip_space (?body @ '']'' @ r) = ?body @ '']'' @ r"
        by (auto simp: value_start_def)
      with read_elements_text [OF 1(3) all _ m(2), of r] m(1) Cons show ?thesis by simp
    qed
  qed
next
  case (2 srt ws kvs)
  let ?kvs = "(if srt then sort_key fst else id) kvs"
  have set: "set ?kvs = set kvs" and dist: "distinct (dkeys ?kvs)" using 2 by (simp_all add: distinct_map)
  have all: "\<forall>(k, v) \<in> set ?kvs. reads_back srt ws v \<and> json_ok v" using 2 unfolding set by (auto simp: list_all_iff)
  have keys: "dkeys (map (\<lambda>(k, v). (k, json_value srt v)) ?kvs) = dkeys ?kvs" by auto
  have dict: "dict_of (map (\<lambda>(k, v). (k, json_value srt v)) ?kvs) = map (\<lambda>(k, v). (k, json_value srt v)) ?kvs"
    using dist keys by (metis dict_of_distinct_id)
  show ?case unfolding reads_back_def json_text_members json_value_members
  proof (intro allI impI)
    let ?body = "join ('','' @ ws) (map (member_text srt ws) ?kvs)"
    fix n r assume n: "length (''{'' @ ?body @ ''}'') \<le> n"
    obtain m where m: "n = Suc m" "length ?body < m" using n by (cases n) auto
    show "read_value n ((''{'' @ ?body @ ''}'') @ r) = Some (PDict (map (\<lambda>(k, v). (k, json_value srt v)) ?kvs), r)"
    proof (cases ?kvs)
      case Nil
      with m show ?thesis by (simp add: is_json_space_def)
    next
      case (Cons kw kvs')
      obtain t where "?body = CHR 0x22 # t"
        unfolding Cons by (cases kvs'; cases kw) (auto simp: member_text_def json_string_def)
      then have "\<not> starts_with ''}'' (?body @ ''}'' @ r)" "skip_space (?body @ ''}'' @ r) = ?body @ ''}'' @ r"
        by (auto simp: is_json_space_def)
      with read_members_text [OF 2(3) all _ m(2), of r] m(1) Cons dict show ?thesis by simp
    qed
  qed
qed (rule reads_back_string | (rule reads_back_atom, assumption, blast))+

lemma json_loads_text:
  assumes "json_ok v" "list_all is_json_space ws"
  shows "json_loads (json_text srt ws v) = Inr (json_value srt v)" "json_loads (json_text srt ws v @ [CHR 0x0A]) = Inr (json_value srt v)"
proof -
  have "json_loads (json_text srt ws v @ r) = Inr (json_value srt v)" if "delimited r" "skip_space r = []" for r
  proof -
    let ?s = "json_text srt ws v @ r"
    have "read_value (Suc (length ?s)) ?s = Some (json_value srt v, r)"
      using read_value_text [OF assms, of srt] that(1) by (simp add: reads_back_def del: read_value.simps)
    with that(2) skip_space_text [OF assms(1), of srt ws r] show ?thesis
      unfolding json_loads_def by (simp del: read_value.simps)
  qed
  from this [of "[]"] this [of "[CHR 0x0A]"]
  show "json_loads (json_text srt ws v) = Inr (json_value srt v)" "json_loads (json_text srt ws v @ [CHR 0x0A]) = Inr (json_value srt v)"
    by (simp_all add: is_json_space_def)
qed

lemma json_value_ok: "json_ok v \<Longrightarrow> json_ok (json_value srt v)"
proof (induction srt v rule: json_value.induct)
  case (2 srt kvs)
  let ?kvs = "(if srt then sort_key fst else id) kvs"
  have set: "set ?kvs = set kvs" and dist: "distinct (dkeys ?kvs)" using 2 by (simp_all add: distinct_map)
  have "dkeys (map (\<lambda>(k, v). (k, json_value srt v)) ?kvs) = dkeys ?kvs" by auto
  moreover have "list_all (\<lambda>(k, v). json_ok v) (map (\<lambda>(k, v). (k, json_value srt v)) ?kvs)"
    using 2 set by (fastforce simp: list_all_iff)
  ultimately show ?case using dist by (simp only: json_value_members json_ok.simps)
qed (auto simp: list_all_iff)

lemma json_text_value: "json_text True ws (json_value True v) = json_text True ws v"
proof (induction v rule: json_compact.induct)
  case (2 kvs)
  have member: "member_text True ws (k, json_value True v) = member_text True ws (k, v)" if "(k, v) \<in> set kvs" for k v
    using 2 [OF that refl] by (simp add: member_text_def)
  have "sort_key fst (map (\<lambda>(k, v). (k, json_value True v)) (sort_key fst kvs)) = map (\<lambda>(k, v). (k, json_value True v)) (sort_key fst kvs)"
    by (simp add: sort_key_map_values sort_key_id_if_sorted)
  moreover have "map (member_text True ws) (map (\<lambda>(k, v). (k, json_value True v)) (sort_key fst kvs)) = map (member_text True ws) (sort_key fst kvs)"
    using member by auto
  ultimately show ?case by (simp only: json_text_members json_value_members if_True)
qed (simp_all cong: map_cong)

lemma json_value_idem: "json_value True (json_value True v) = json_value True v"
proof (induction v rule: json_compact.induct)
  case (2 kvs)
  have "map (\<lambda>(k, v). (k, json_value True v)) (map (\<lambda>(k, v). (k, json_value True v)) (sort_key fst kvs)) =
      map (\<lambda>(k, v). (k, json_value True v)) (sort_key fst kvs)"
    using 2 by auto
  moreover have "sort_key fst (map (\<lambda>(k, v). (k, json_value True v)) (sort_key fst kvs)) = map (\<lambda>(k, v). (k, json_value True v)) (sort_key fst kvs)"
    by (simp add: sort_key_map_values sort_key_id_if_sorted)
  ultimately show ?case by (simp only: json_value_members if_True)
qed simp_all

lemma json_value_unsorted: "json_value False v = v"
proof (induction v rule: json_compact.induct)
  case (2 kvs)
  then have "map (\<lambda>(k, v). (k, json_value False v)) kvs = map id kvs" by (intro map_cong) auto
  then show ?case by simp
qed (simp_all cong: map_cong)

lemma json_loads_dumps: "json_ok v \<Longrightarrow> json_loads (json_dumps srt v) = Inr (json_value srt v)"
  using json_loads_text(1) [of v "'' ''" srt] by (simp add: json_dumps_text is_json_space_def)

lemmas json_loads_compact = json_loads_text [where ws = "[]" and srt = True, folded json_compact_text, simplified]

lemma json_dumps_value: "json_dumps True (json_value True v) = json_dumps True v"
  unfolding json_dumps_text by (rule json_text_value)

lemma json_compact_value: "json_compact (json_value True v) = json_compact v"
  unfolding json_compact_text by (rule json_text_value)

lemma dget_json_value:
  assumes "distinct (dkeys kvs)"
  shows "json_value True (PDict kvs) = PDict d \<Longrightarrow> dget d k = map_option (json_value True) (dget kvs k)"
    and "json_value True (PDict kvs) = PDict d \<Longrightarrow> set (dkeys d) = set (dkeys kvs)"
proof -
  assume "json_value True (PDict kvs) = PDict d"
  then have d: "d = map (\<lambda>(k, v). (k, json_value True v)) (sort_key fst kvs)" by (simp add: sort_key_map_values)
  have "distinct (dkeys (sort_key fst kvs))" using assms by (simp add: distinct_map)
  then have "map_of (sort_key fst kvs) = map_of kvs" using assms by (intro map_of_inject_set [THEN iffD2]) auto
  then show "dget d k = map_option (json_value True) (dget kvs k)" by (simp add: d map_of_map)
  show "set (dkeys d) = set (dkeys kvs)" unfolding d by force
qed

end
