(* ===== verification/Governance.thy ===== *)
theory Governance
  imports Domain Json_Reader Resource_Store Scheduling
begin

text \<open>
  Small services of the control plane: cost allocation (\<open>packages/chargeback\<close>), tenant budgets
  (\<open>packages/budgets\<close>), versioned configuration (\<open>packages/admin\<close>), notification routing
  (\<open>packages/notifications\<close>), the constraint catalogue (\<open>packages/constraints\<close>), savings reports
  (\<open>packages/reports\<close>), the event store and the request contracts (\<open>packages/contracts\<close>), backups and
  their reconciliation (\<open>packages/dr/service.py\<close>). Locks are left out: a call is one step.
\<close>

section \<open>Chargeback\<close>

record cost_share =
  cs_dimension :: string
  cs_value :: string
  cs_weight :: decimal
  cs_amount :: decimal

fun allocate_from ::
  "decimal \<Rightarrow> decimal \<Rightarrow> nat \<Rightarrow> decimal \<Rightarrow> ((string \<times> string) \<times> decimal) list \<Rightarrow> cost_share list result" where
  "allocate_from cost denominator places assigned [] = Inr []"
| "allocate_from cost denominator places assigned (((dimension, val), weight) # rest) =
     rbind (if rest = [] then Inr (dsub cost assigned)
            else rbind (ddiv (dmul cost weight) denominator) (quantize places)) (\<lambda>amount.
     rbind (allocate_from cost denominator places (dadd assigned amount) rest) (\<lambda>shares.
       Inr (\<lparr>cs_dimension = dimension, cs_value = val, cs_weight = weight, cs_amount = amount\<rparr> # shares)))"

definition allocate_cost :: "decimal \<Rightarrow> (string \<times> string, decimal) dict \<Rightarrow> nat \<Rightarrow> cost_share list result" where
  "allocate_cost cost weights places =
     (if cost < 0 \<or> (\<exists>w \<in> set (dvalues weights). w < 0) then Inl (ValueError ''cost and weights cannot be negative'')
      else
        let denominator = dsum (dvalues weights) in
        if denominator \<le> 0 then Inl (ValueError ''positive allocation weight is required'')
        else rbind (allocate_from cost denominator places 0 (sort_key fst weights)) (\<lambda>shares.
          if dsum (map cs_amount shares) \<noteq> cost then Inl (RuntimeError ''chargeback reconciliation failed'') else Inr shares))"

section \<open>Budgets\<close>

record budget =
  bg_tenant_id :: string
  bg_cost_limit :: decimal
  bg_carbon_limit_kg :: decimal
  bg_power_limit_kw :: decimal
  bg_quota_gpu_hours :: decimal
  bg_warn_at :: decimal

record budget_status =
  bs_cost_used :: decimal
  bs_carbon_used :: decimal
  bs_gpu_hours_used :: decimal
  bs_warning :: bool
  bs_exceeded :: bool

record budget_ledger =
  bl_budgets :: "(string, budget) dict"
  bl_usage :: "(string, decimal \<times> decimal \<times> decimal) dict"

definition budget_configure :: "budget \<Rightarrow> budget_ledger \<Rightarrow> budget_ledger" where
  "budget_configure b st = st\<lparr>bl_budgets := dput (bg_tenant_id b) b (bl_budgets st)\<rparr>"

definition usage_ratio :: "decimal \<Rightarrow> decimal \<Rightarrow> decimal result" where
  "usage_ratio used limit = (if limit \<noteq> 0 then ddiv used limit else Inr 1)"

definition budget_status_of :: "string \<Rightarrow> budget_ledger \<Rightarrow> budget_status result" where
  "budget_status_of tenant_id st =
     rbind (key_of (bl_budgets st) repr_string tenant_id) (\<lambda>b.
       case dget_or (bl_usage st) tenant_id (0, 0, 0) of (cost, carbon, gpu_hours) \<Rightarrow>
         rbind (usage_ratio cost (bg_cost_limit b)) (\<lambda>r1.
         rbind (usage_ratio carbon (bg_carbon_limit_kg b)) (\<lambda>r2.
         rbind (usage_ratio gpu_hours (bg_quota_gpu_hours b)) (\<lambda>r3.
           let highest = max (max r1 r2) r3 in
           Inr \<lparr>bs_cost_used = cost, bs_carbon_used = carbon, bs_gpu_hours_used = gpu_hours,
                bs_warning = (highest \<ge> bg_warn_at b), bs_exceeded = (highest \<ge> 1)\<rparr>))))"

definition budget_record ::
  "string \<Rightarrow> decimal \<Rightarrow> decimal \<Rightarrow> decimal \<Rightarrow> budget_ledger \<Rightarrow> budget_status result \<times> budget_ledger" where
  "budget_record tenant_id cost carbon_kg gpu_hours st =
     (if min (min cost carbon_kg) gpu_hours < 0 then (Inl (ValueError ''budget usage cannot be negative''), st)
      else
        case dget_or (bl_usage st) tenant_id (0, 0, 0) of (c, k, g) \<Rightarrow>
          let st' = st\<lparr>bl_usage := dput tenant_id (dadd c cost, dadd k carbon_kg, dadd g gpu_hours) (bl_usage st)\<rparr>
          in (budget_status_of tenant_id st', st'))"

section \<open>Versioned configuration\<close>

record config_version =
  cv_version :: int
  cv_values :: json_object
  cv_actor_id :: string
  cv_created_at :: datetime
  cv_content_hash :: string

record versioned_config =
  vc_allowed_keys :: "string set"
  vc_versions :: "config_version list"

definition config_init :: "string set \<Rightarrow> versioned_config" where
  "config_init allowed = \<lparr>vc_allowed_keys = allowed, vc_versions = []\<rparr>"

definition config_update ::
  "(string \<Rightarrow> string) \<Rightarrow> json_object \<Rightarrow> string \<Rightarrow> datetime \<Rightarrow> versioned_config \<Rightarrow> config_version result \<times> versioned_config" where
  "config_update sha256 values actor_id now st =
     (let unknown = filter (\<lambda>k. k \<notin> vc_allowed_keys st) (dkeys values) in
      if unknown \<noteq> []
      then (Inl (ValueError (''unknown configuration keys '' @ py_repr (PList (map PStr (sort (remdups unknown)))))), st)
      else
        let base = (if vc_versions st = [] then [] else cv_values (last (vc_versions st)));
            current = fold (\<lambda>(k, v) d. dput k v d) values base;
            version = \<lparr>cv_version = int (length (vc_versions st)) + 1, cv_values = current, cv_actor_id = actor_id,
                       cv_created_at = now, cv_content_hash = sha256 (json_dumps True (PDict current))\<rparr>
        in (Inr version, st\<lparr>vc_versions := vc_versions st @ [version]\<rparr>))"

definition config_rollback ::
  "(string \<Rightarrow> string) \<Rightarrow> int \<Rightarrow> string \<Rightarrow> datetime \<Rightarrow> versioned_config \<Rightarrow> config_version result \<times> versioned_config" where
  "config_rollback sha256 target_version actor_id now st =
     (if \<not> (1 \<le> target_version \<and> target_version \<le> int (length (vc_versions st)))
      then (Inl (ValueError ''unknown configuration version''), st)
      else config_update sha256 (cv_values (vc_versions st ! nat (target_version - 1))) actor_id now st)"

definition config_current :: "versioned_config \<Rightarrow> config_version result" where
  "config_current st = (if vc_versions st = [] then Inl IndexError else Inr (last (vc_versions st)))"

section \<open>Notifications\<close>

record route =
  rt_event_type :: string
  rt_channel :: string
  rt_destination :: string
  rt_minimum_severity :: int
  rt_suppress_for :: timedelta
  rt_escalation_after :: "timedelta option"

record notification_router =
  nr_routes :: "route list"
  nr_sent :: "(string \<times> string, datetime) dict"

definition add_route :: "route \<Rightarrow> notification_router \<Rightarrow> notification_router" where
  "add_route r st = st\<lparr>nr_routes := nr_routes st @ [r]\<rparr>"

fun route_all ::
  "string \<Rightarrow> string \<Rightarrow> int \<Rightarrow> datetime \<Rightarrow> route list \<Rightarrow> (string \<times> string, datetime) dict \<Rightarrow> (string, string) dict list \<Rightarrow>
   (string, string) dict list result \<times> (string \<times> string, datetime) dict" where
  "route_all event_id event_type severity now [] sent messages = (Inr messages, sent)"
| "route_all event_id event_type severity now (r # rs) sent messages =
     (if rt_event_type r \<noteq> event_type \<or> severity < rt_minimum_severity r
      then route_all event_id event_type severity now rs sent messages
      else
        let key = (event_type, rt_destination r) in
        case (case dget sent key of None \<Rightarrow> Inr False | Some earlier \<Rightarrow> rbind (dt_sub now earlier) (\<lambda>age. Inr (age < rt_suppress_for r))) of
          Inl e \<Rightarrow> (Inl e, sent)
        | Inr True \<Rightarrow> route_all event_id event_type severity now rs sent messages
        | Inr False \<Rightarrow>
            route_all event_id event_type severity now rs (dput key now sent)
              (messages @ [[(''event_id'', event_id), (''channel'', rt_channel r), (''destination'', rt_destination r),
                            (''status'', ''routed'')]]))"

definition route_event ::
  "string \<Rightarrow> string \<Rightarrow> int \<Rightarrow> datetime \<Rightarrow> notification_router \<Rightarrow> (string, string) dict list result \<times> notification_router" where
  "route_event event_id event_type severity now st =
     (case route_all event_id event_type severity now (nr_routes st) (nr_sent st) [] of
        (r, sent) \<Rightarrow> (r, st\<lparr>nr_sent := sent\<rparr>))"

section \<open>The constraint catalogue\<close>

record governed_constraint =
  gv_id :: string
  gv_severity :: string
  gv_owner :: string
  gv_enforcement :: string
  gv_description :: string

definition constraint_register ::
  "governed_constraint \<Rightarrow> (string, governed_constraint) dict \<Rightarrow> unit result \<times> (string, governed_constraint) dict" where
  "constraint_register c items =
     (case dget items (gv_id c) of
        Some d \<Rightarrow> if d \<noteq> c then (Inl (ValueError ''constraint ID cannot be redefined''), items)
                  else (Inr (), dput (gv_id c) c items)
      | None \<Rightarrow> (Inr (), dput (gv_id c) c items))"

definition constraint_require :: "string \<Rightarrow> (string, governed_constraint) dict \<Rightarrow> governed_constraint result" where
  "constraint_require i items =
     (case dget items i of None \<Rightarrow> Inl (ValueError (''unknown governed constraint '' @ i)) | Some c \<Rightarrow> Inr c)"

definition constraint_all :: "(string, governed_constraint) dict \<Rightarrow> governed_constraint list" where
  "constraint_all items = sort_key gv_id (dvalues items)"

section \<open>Savings reports\<close>

record savings_report =
  sv_baseline_name :: string
  sv_baseline_cost :: decimal
  sv_candidate_cost :: decimal
  sv_savings :: decimal
  sv_savings_percent :: decimal
  sv_assumptions :: "string list"
  sv_uncertainty :: "string list"
  sv_provenance :: "(string, string) dict"
  sv_content_hash :: string

definition build_savings_report ::
  "(decimal \<Rightarrow> string) \<Rightarrow> (string \<Rightarrow> string) \<Rightarrow> schedule_plan \<Rightarrow> schedule_plan \<Rightarrow> string \<Rightarrow> string \<Rightarrow> string list \<Rightarrow>
   savings_report result" where
  "build_savings_report str_decimal sha256 baseline candidate tariff_version run_id uncertainty =
     (if sp_strategy baseline = '''' \<or> sp_strategy baseline = ''none'' then Inl (ValueError ''a named baseline is required'')
      else
        let savings = dsub (sp_estimated_cost baseline) (sp_estimated_cost candidate) in
        rbind (if sp_estimated_cost baseline \<noteq> 0 then ddiv savings (sp_estimated_cost baseline) else Inr 0) (\<lambda>percent.
          let body = [(''baseline_name'', PStr (sp_strategy baseline)),
                      (''baseline_cost'', PStr (str_decimal (sp_estimated_cost baseline))),
                      (''candidate_cost'', PStr (str_decimal (sp_estimated_cost candidate))),
                      (''tariff_version'', PStr tariff_version), (''run_id'', PStr run_id)]
          in Inr \<lparr>sv_baseline_name = sp_strategy baseline, sv_baseline_cost = sp_estimated_cost baseline,
                  sv_candidate_cost = sp_estimated_cost candidate, sv_savings = savings, sv_savings_percent = percent,
                  sv_assumptions = sp_assumptions candidate, sv_uncertainty = uncertainty,
                  sv_provenance = [(''baseline_input_hash'', sp_input_hash baseline),
                    (''candidate_input_hash'', sp_input_hash candidate), (''tariff_version'', tariff_version),
                    (''run_id'', run_id)],
                  sv_content_hash = sha256 (json_dumps True (PDict body))\<rparr>))"

definition grounded_narrative :: "(decimal \<Rightarrow> string) \<Rightarrow> savings_report \<Rightarrow> string" where
  "grounded_narrative str_decimal r =
     ''Against '' @ sv_baseline_name r @ '', the candidate changes estimated cost from '' @ str_decimal (sv_baseline_cost r) @
     '' to '' @ str_decimal (sv_candidate_cost r) @ '', a difference of '' @ str_decimal (sv_savings r) @ ''. Assumptions: '' @
     (let listed = join '', '' (sv_assumptions r) in if listed = '''' then ''none recorded'' else listed) @ ''.''"

section \<open>Events and request contracts\<close>

record event_envelope =
  ee_event_id :: string
  ee_event_type :: string
  ee_schema_version :: string
  ee_occurred_at :: datetime
  ee_observed_at :: datetime
  ee_tenant_id :: string
  ee_site_id :: string
  ee_trace_id :: string
  ee_payload :: json_object

definition mk_event :: "event_envelope \<Rightarrow> event_envelope result" where
  \<comment> \<open>the field validators, in the order of the fields; pydantic reports them as one \<open>ValueError\<close>\<close>
  "mk_event e =
     (if is_ok (ensure_aware (ee_occurred_at e)) \<and> is_ok (ensure_aware (ee_observed_at e)) \<and> is_ok (validate_id (ee_tenant_id e)) \<and>
         is_ok (validate_id (ee_site_id e))
      then rbind (ensure_aware (ee_occurred_at e)) (\<lambda>occurred. rbind (ensure_aware (ee_observed_at e)) (\<lambda>observed.
             Inr (e\<lparr>ee_occurred_at := occurred, ee_observed_at := observed\<rparr>)))
      else Inl (ValueError ''validation error for EventEnvelope''))"

record event_store =
  es_events :: "event_envelope list"
  es_event_ids :: "string set"

definition event_store_init :: event_store where
  "event_store_init = \<lparr>es_events = [], es_event_ids = {}\<rparr>"

definition event_append :: "event_envelope \<Rightarrow> event_store \<Rightarrow> bool \<times> event_store" where
  "event_append e st =
     (if ee_event_id e \<in> es_event_ids st then (False, st)
      else (True, st\<lparr>es_events := es_events st @ [e], es_event_ids := insert (ee_event_id e) (es_event_ids st)\<rparr>))"

definition event_query :: "string \<Rightarrow> string option \<Rightarrow> event_store \<Rightarrow> event_envelope list" where
  "event_query tenant_id event_type st =
     filter (\<lambda>e. ee_tenant_id e = tenant_id \<and> (event_type = None \<or> Some (ee_event_type e) = event_type)) (es_events st)"

definition verify_chain :: "event_store \<Rightarrow> bool" where
  "verify_chain st \<longleftrightarrow> card (es_event_ids st) = length (es_events st)"

definition require_role :: "string set \<Rightarrow> string list \<Rightarrow> unit result" where
  "require_role roles allowed =
     (if roles \<inter> set allowed = {} then Inl (PermissionError (''one of roles '' @ tuple_repr allowed @ '' is required'')) else Inr ())"

definition require_if_match :: "string \<Rightarrow> string option \<Rightarrow> unit result" where
  "require_if_match current_etag supplied =
     (case supplied of
        None \<Rightarrow> Inl (ValueError ''If-Match header is required'')
      | Some s \<Rightarrow> if s \<noteq> current_etag then Inl (RuntimeError ''optimistic concurrency conflict'') else Inr ())"

section \<open>Backups\<close>

record backup =
  bk_created_at :: datetime
  bk_state :: pyval
  bk_sha256 :: string

record reconciliation =
  rc_missing_external :: "string list"
  rc_unexpected_external :: "string list"
  rc_mismatched :: "string list"
  rc_safe :: bool

definition backup_state :: "(string \<Rightarrow> string) \<Rightarrow> json_object \<Rightarrow> datetime \<Rightarrow> backup result" where
  "backup_state sha256 st now =
     (let payload = json_compact (PDict st) in
      rbind (json_loads payload) (\<lambda>state. Inr \<lparr>bk_created_at = now, bk_state = state, bk_sha256 = sha256 payload\<rparr>))"

definition verify_backup :: "(string \<Rightarrow> string) \<Rightarrow> backup \<Rightarrow> bool" where
  "verify_backup sha256 b \<longleftrightarrow> sha256 (json_compact (bk_state b)) = bk_sha256 b"

definition reconcile_restore :: "json_object \<Rightarrow> json_object \<Rightarrow> reconciliation" where
  "reconcile_restore planned actual =
     (let missing = sort (filter (\<lambda>k. k \<notin> set (dkeys actual)) (dkeys planned));
          unexpected = sort (filter (\<lambda>k. k \<notin> set (dkeys planned)) (dkeys actual));
          mismatched = sort (filter (\<lambda>k. case (dget planned k, dget actual k) of
                                       (Some v, Some w) \<Rightarrow> \<not> py_eq v w | _ \<Rightarrow> False) (dkeys planned))
      in \<lparr>rc_missing_external = missing, rc_unexpected_external = unexpected, rc_mismatched = mismatched,
          rc_safe = (missing = [] \<and> mismatched = [])\<rparr>)"

section \<open>Shares of a cost\<close>

definition fair_share :: "nat \<Rightarrow> decimal \<Rightarrow> decimal \<Rightarrow> cost_share \<Rightarrow> bool" where
  \<comment> \<open>within half a unit of the last place of the weighted share\<close>
  "fair_share places cost denominator s \<longleftrightarrow>
     \<bar>cs_amount s - dround (dmul cost (cs_weight s) / denominator)\<bar> \<le> 1 / (2 * 10 ^ places)"

lemma allocate_from_shares:
  assumes "allocate_from cost denominator places assigned entries = Inr shares"
  shows "map (\<lambda>s. ((cs_dimension s, cs_value s), cs_weight s)) shares = entries \<and>
    (\<forall>s \<in> set (butlast shares). fair_share places cost denominator s)"
  using assms
proof (induction cost denominator places assigned entries arbitrary: shares rule: allocate_from.induct)
  case (2 cost denominator places assigned dimension val weight rest)
  then obtain amount shares' where amount: "(if rest = [] then Inr (dsub cost assigned)
            else rbind (ddiv (dmul cost weight) denominator) (quantize places)) = Inr amount"
    and rest: "allocate_from cost denominator places (dadd assigned amount) rest = Inr shares'"
    and shares: "shares = \<lparr>cs_dimension = dimension, cs_value = val, cs_weight = weight, cs_amount = amount\<rparr> # shares'"
    by (auto simp: rbind_eq_Inr)
  have IH: "map (\<lambda>s. ((cs_dimension s, cs_value s), cs_weight s)) shares' = rest"
    "\<forall>s \<in> set (butlast shares'). fair_share places cost denominator s"
    using "2.IH" amount rest by blast+
  have "fair_share places cost denominator \<lparr>cs_dimension = dimension, cs_value = val, cs_weight = weight, cs_amount = amount\<rparr>"
    if "rest \<noteq> []"
    using amount that quantize_error by (auto simp: fair_share_def rbind_eq_Inr ddiv_def split: if_splits)
  then show ?case using IH shares by (cases "rest = []") auto
qed simp

text \<open>
  Further: A cost is allocated without loss: when \<open>allocate_cost\<close> returns, there is one share for every key of
  the weights, in the order of the keys, with its weight; the shares sum up to exactly the cost; and
  every share except the last is within half a unit of the last place of its weighted part.
\<close>
theorem chargeback_reconciles:
  assumes "allocate_cost cost weights places = Inr shares"
  shows "map (\<lambda>s. ((cs_dimension s, cs_value s), cs_weight s)) shares = sort_key fst weights \<and>
    dsum (map cs_amount shares) = cost \<and> (\<forall>s \<in> set (butlast shares). fair_share places cost (dsum (dvalues weights)) s)"
proof -
  have run: "allocate_from cost (dsum (dvalues weights)) places 0 (sort_key fst weights) = Inr shares"
    "dsum (map cs_amount shares) = cost"
    using assms by (auto simp: allocate_cost_def Let_def rbind_eq_Inr split: if_splits)
  then show ?thesis using allocate_from_shares [OF run(1)] by blast
qed

definition five_projects :: "(string \<times> string, decimal) dict" where
  "five_projects = map (\<lambda>c. ((''project'', [c]), 1)) ''abcde''"

lemma five_projects_shares:
  "\<exists>shares. allocate_cost (3 / 100) five_projects 2 = Inr shares \<and> map cs_amount shares = [1 / 100, 1 / 100, 1 / 100, 1 / 100, - 1 / 100]"
proof -
  have r: "dround (3 / 100) = 3 / 100" "dround (3 / 500) = 3 / 500" "dround (1 / 100) = 1 / 100" "dround (1 / 50) = 1 / 50"
      "dround (1 / 25) = 1 / 25"
    using dround_frac [of 3 2] dround_frac [of 6 3] dround_frac [of 1 2] dround_frac [of 2 2] dround_frac [of 4 2] by simp_all
  have q: "quantize 2 (3 / 500) = Inr (1 / 100)" by code_simp
  have m: "dround (- (1 / 100)) = - (1 / 100)" using r(3) by simp
  have den: "dsum (dvalues five_projects) = 5" by (simp add: five_projects_def dsum_def dadd_def)
  have sorted: "sort_key fst five_projects = five_projects" by (simp add: five_projects_def)
  show ?thesis
    unfolding allocate_cost_def Let_def den sorted
    by (simp add: five_projects_def decimal_defs r q m dsum_def)
qed

theorem chargeback_reconciles_witness:
  "\<exists>shares. allocate_cost (3 / 100) five_projects 2 = Inr shares \<and> dsum (map cs_amount shares) = 3 / 100 \<and> length shares = 5"
proof -
  obtain shares where run: "allocate_cost (3 / 100) five_projects 2 = Inr shares" using five_projects_shares by blast
  from chargeback_reconciles [OF this]
  have sum: "dsum (map cs_amount shares) = 3 / 100"
    and keys: "map (\<lambda>s. ((cs_dimension s, cs_value s), cs_weight s)) shares = sort_key fst five_projects" by auto
  have "length shares = 5" using arg_cong [OF keys, of length] by (simp add: five_projects_def)
  with run sum show ?thesis by blast
qed

text \<open>
  Further: A share can be negative although cost and weights are not: five equal weights share three cents as
  four times one cent and minus one cent.
\<close>
theorem chargeback_negative_share:
  "\<exists>shares. allocate_cost (3 / 100) five_projects 2 = Inr shares \<and> cs_amount (last shares) = - 1 / 100"
proof -
  obtain shares where run: "allocate_cost (3 / 100) five_projects 2 = Inr shares"
    and amounts: "map cs_amount shares = [1 / 100, 1 / 100, 1 / 100, 1 / 100, - 1 / 100]"
    using five_projects_shares by (elim exE conjE)
  have "cs_amount (last shares) = last (map cs_amount shares)" using amounts by (intro last_map [symmetric]) auto
  with run amounts show ?thesis by auto
qed

section \<open>Usage of a budget\<close>

text \<open>
  Further: Usage is recorded exactly once and for its tenant only. A call with a negative amount changes
  nothing; every other call adds its amounts to the usage of the tenant, whether the tenant has a
  budget or not (without one the call fails with \<open>KeyError\<close>, but the usage is recorded all the same),
  and reports that usage; usage never decreases and other tenants keep theirs.
\<close>
theorem budget_usage_recorded:
  "case budget_record t cost carbon gpu st of (r, st') \<Rightarrow>
     if min (min cost carbon) gpu < 0 then r = Inl (ValueError ''budget usage cannot be negative'') \<and> st' = st
     else
       (case dget_or (bl_usage st) t (0, 0, 0) of (c, k, g) \<Rightarrow>
          dget (bl_usage st') t = Some (dadd c cost, dadd k carbon, dadd g gpu) \<and>
          (is_dec c \<and> is_dec k \<and> is_dec g \<longrightarrow> c \<le> dadd c cost \<and> k \<le> dadd k carbon \<and> g \<le> dadd g gpu) \<and>
          (case r of
             Inl e \<Rightarrow> e = KeyError (repr_string t) \<longleftrightarrow> dget (bl_budgets st) t = None
           | Inr s \<Rightarrow> bs_cost_used s = dadd c cost \<and> bs_carbon_used s = dadd k carbon \<and> bs_gpu_hours_used s = dadd g gpu)) \<and>
       bl_budgets st' = bl_budgets st \<and> (\<forall>u. u \<noteq> t \<longrightarrow> dget (bl_usage st') u = dget (bl_usage st) u)"
proof -
  obtain c k g where u: "dget_or (bl_usage st) t (0, 0, 0) = (c, k, g)" by (metis prod_cases3)
  show ?thesis
  proof (cases "min (min cost carbon) gpu < 0")
    case True
    then show ?thesis by (simp add: budget_record_def)
  next
    case False
    then have nonneg: "0 \<le> cost" "0 \<le> carbon" "0 \<le> gpu" by auto
    show ?thesis
      using nonneg u
      by (auto simp: budget_record_def budget_status_of_def Let_def dget_or_def key_of_def usage_ratio_def ddiv_def dadd_increasing
          rbind_eq_Inl rbind_eq_Inr split: option.splits sum.splits if_splits)
  qed
qed

theorem budget_usage_recorded_witness:
  "\<exists>st'. budget_record ''t1'' 5 1 2 \<lparr>bl_budgets = [], bl_usage = []\<rparr> = (Inl (KeyError (repr_string ''t1'')), st') \<and>
     dget (bl_usage st') ''t1'' = Some (5, 1, 2)"
proof -
  obtain r st' where run: "budget_record ''t1'' 5 1 2 \<lparr>bl_budgets = [], bl_usage = []\<rparr> = (r, st')" by fastforce
  have "r = Inl (KeyError (repr_string ''t1''))"
    using run by (auto simp: budget_record_def budget_status_of_def key_of_def dget_or_def Let_def)
  moreover have "dget (bl_usage st') ''t1'' = Some (dadd 0 5, dadd 0 1, dadd 0 2)"
    using budget_usage_recorded [where t = "''t1''" and cost = 5 and carbon = 1 and gpu = 2 and st = "\<lparr>bl_budgets = [], bl_usage = []\<rparr>"] run by (simp add: dget_or_def)
  ultimately show ?thesis using run by (simp add: dadd_def)
qed

section \<open>Versions of a configuration\<close>

inductive config_step :: "(string \<Rightarrow> string) \<Rightarrow> versioned_config \<Rightarrow> versioned_config \<Rightarrow> bool" for sha256 where
  update: "config_update sha256 vals actor now st = (r, st') \<Longrightarrow> config_step sha256 st st'"
| rollback: "config_rollback sha256 target actor now st = (r, st') \<Longrightarrow> config_step sha256 st st'"

definition config_entry :: "versioned_config \<Rightarrow> unit \<Rightarrow> (int \<times> config_version) option" where
  "config_entry st u = (if vc_versions st = [] then None else Some (int (length (vc_versions st)), last (vc_versions st)))"

definition config_past :: "versioned_config \<Rightarrow> unit \<Rightarrow> int \<Rightarrow> config_version option" where
  "config_past st u n = (if 1 \<le> n \<and> n \<le> int (length (vc_versions st)) then Some (vc_versions st ! nat (n - 1)) else None)"

lemma config_update_outcome:
  assumes "config_update sha256 vals actor now st = (r, st')"
  obtains (refused) e where "r = Inl e" "st' = st"
    | (added) v where "r = Inr v" "st' = st\<lparr>vc_versions := vc_versions st @ [v]\<rparr>" "cv_version v = int (length (vc_versions st)) + 1"
        "cv_values v = fold (\<lambda>(k, v) d. dput k v d) vals (if vc_versions st = [] then [] else cv_values (last (vc_versions st)))"
        "set (dkeys vals) \<subseteq> vc_allowed_keys st"
proof (cases "filter (\<lambda>k. k \<notin> vc_allowed_keys st) (dkeys vals) = []")
  case True
  then have allowed: "set (dkeys vals) \<subseteq> vc_allowed_keys st" by (auto simp: filter_empty_conv)
  show ?thesis
    using assms True by (auto simp: config_update_def Let_def intro: added [OF _ _ _ _ allowed])
next
  case False
  then show ?thesis using assms refused by (auto simp: config_update_def Let_def)
qed

lemma config_step_outcome:
  assumes "config_step sha256 st st'"
  shows "st' = st \<or> (\<exists>v. st' = st\<lparr>vc_versions := vc_versions st @ [v]\<rparr> \<and> cv_version v = int (length (vc_versions st)) + 1)"
  using assms
proof cases
  case (update vals actor now r)
  then show ?thesis by (cases rule: config_update_outcome [OF update]) auto
next
  case (rollback target actor now r)
  show ?thesis
  proof (cases "1 \<le> target \<and> target \<le> int (length (vc_versions st))")
    case True
    then have "config_update sha256 (cv_values (vc_versions st ! nat (target - 1))) actor now st = (r, st')"
      using rollback by (simp add: config_rollback_def)
    then show ?thesis by (cases rule: config_update_outcome) auto
  qed (use rollback in \<open>auto simp: config_rollback_def\<close>)
qed

lemma config_past_append:
  "config_past (st\<lparr>vc_versions := vc_versions st @ [v]\<rparr>) u =
     (config_past st u)(next_version_of (config_entry st u) \<mapsto> v)"
  by (rule ext) (auto simp: config_past_def config_entry_def nth_append)

interpretation config_store: versioned "config_init allowed" "config_step sha256" config_entry config_past for allowed sha256
proof
  fix s t
  assume "config_step sha256 s t"
  from config_step_outcome [OF this]
  show "config_entry t = config_entry s \<and> config_past t = config_past s \<or>
      (\<exists>k e. config_entry t = (config_entry s)(k \<mapsto> (next_version_of (config_entry s k), e)) \<and>
        config_past t = (config_past s)(k := (config_past s k)(next_version_of (config_entry s k) \<mapsto> e)))"
  proof (elim disjE exE conjE)
    fix v
    assume t: "t = s\<lparr>vc_versions := vc_versions s @ [v]\<rparr>"
    have "config_past t = (config_past s)(() := (config_past s ())(next_version_of (config_entry s ()) \<mapsto> v))"
      by (rule ext) (simp add: t config_past_append)
    moreover have "config_entry t = (config_entry s)(() \<mapsto> (next_version_of (config_entry s ()), v))"
      by (rule ext) (simp add: t config_entry_def)
    ultimately show ?thesis by blast
  qed simp
qed (simp_all add: config_init_def config_entry_def config_past_def)

lemma dget_fold_dput: "distinct (dkeys vals) \<Longrightarrow> dget (fold (\<lambda>(k, v) d. dput k v d) vals d) k = (case dget vals k of None \<Rightarrow> dget d k | Some v \<Rightarrow> Some v)"
proof (induction "vals" arbitrary: d)
  case (Cons kv kvs)
  obtain k' v where kv: "kv = (k', v)" by fastforce
  have "dget kvs k' = None" using Cons.prems by (simp add: kv dget_None_keys)
  then show ?case using Cons by (auto simp: kv split: option.splits)
qed simp

text \<open>
  Further: A rollback of the configuration restores the values of the target version, but removes nothing: each
  key of the target has its old value again, while every key that was first set after the target keeps
  its current value. The rollback is a new version on top; the target stays in the history.
\<close>
theorem rollback_merges:
  assumes "1 \<le> target" and "target \<le> int (length (vc_versions st))"
    and "distinct (dkeys (cv_values (vc_versions st ! nat (target - 1))))"
    and "config_rollback sha256 target actor now st = (Inr v, st')"
  shows "dget (cv_values v) k = (case dget (cv_values (vc_versions st ! nat (target - 1))) k of
      None \<Rightarrow> dget (cv_values (last (vc_versions st))) k | Some old \<Rightarrow> Some old) \<and>
    vc_versions st' = vc_versions st @ [v] \<and> cv_version v = int (length (vc_versions st')) \<and> config_current st' = Inr v"
proof -
  have ne: "vc_versions st \<noteq> []" using assms(1,2) by auto
  have "config_update sha256 (cv_values (vc_versions st ! nat (target - 1))) actor now st = (Inr v, st')"
    using assms(1,2,4) by (simp add: config_rollback_def)
  then show ?thesis
    using ne dget_fold_dput [OF assms(3)] by (cases rule: config_update_outcome) (auto simp: config_current_def)
qed

definition config_example :: versioned_config where
  "config_example = snd (config_update (\<lambda>s. s) [(''b'', PInt 2)] ''ops'' (Aware 1)
     (snd (config_update (\<lambda>s. s) [(''a'', PInt 1)] ''ops'' (Aware 0) (config_init {''a'', ''b''}))))"

theorem rollback_merges_witness:
  "\<exists>v st'. config_rollback (\<lambda>s. s) 1 ''ops'' (Aware 2) config_example = (Inr v, st') \<and> dget (cv_values v) ''b'' = Some (PInt 2)"
proof -
  have vs: "map cv_values (vc_versions config_example) = [[(''a'', PInt 1)], [(''a'', PInt 1), (''b'', PInt 2)]]"
    "vc_allowed_keys config_example = {''a'', ''b''}"
    by (simp_all add: config_example_def config_update_def config_init_def Let_def)
  then have len: "length (vc_versions config_example) = 2" by (metis length_map length_Cons list.size(3) numeral_2_eq_2)
  have nth: "cv_values (vc_versions config_example ! i) = map cv_values (vc_versions config_example) ! i" if "i < 2" for i
    using that len by simp
  have lst: "last (vc_versions config_example) = vc_versions config_example ! 1" using len last_conv_nth [of "vc_versions config_example"] by fastforce
  have first: "cv_values (vc_versions config_example ! 0) = [(''a'', PInt 1)]" "cv_values (last (vc_versions config_example)) = [(''a'', PInt 1), (''b'', PInt 2)]"
    using nth [of 0] nth [of 1] lst by (simp_all add: vs)
  obtain v st' where run: "config_rollback (\<lambda>s. s) 1 ''ops'' (Aware 2) config_example = (Inr v, st')"
    by (simp add: config_rollback_def config_update_def Let_def len first vs)
  have "dget (cv_values v) ''b'' = Some (PInt 2)"
    using rollback_merges [OF _ _ _ run, of "''b''"] by (simp add: len first)
  with run show ?thesis by blast
qed

text \<open>
  Further: Configuration versions are immutable and complete: after any updates and rollbacks the versions are
  numbered from 1 to n without a gap, the current one is version n, and whatever happens later every
  version stays what it was.
\<close>
theorem config_versions_immutable:
  assumes "(config_step sha256)\<^sup>*\<^sup>* (config_init allowed) st" and "(config_step sha256)\<^sup>*\<^sup>* st st'"
    and "config_past st () n = Some v"
  shows "config_past st' () n = Some v \<and> cv_version v = n \<and> 1 \<le> n \<and>
    (case config_entry st () of None \<Rightarrow> False | Some (m, current) \<Rightarrow> config_current st = Inr current \<and> n \<le> m)"
proof -
  have numbered: "map cv_version (vc_versions s) = [1..int (length (vc_versions s))]"
    if "(config_step sha256)\<^sup>*\<^sup>* (config_init allowed) s" for s
    using that
  proof (induction rule: rtranclp_induct)
    case (step s t)
    show ?case
      using config_step_outcome [OF step(2)] step(3) upto_rec2 [of 1 "int (length (vc_versions s)) + 1"] by (auto simp: add.commute)
  qed (simp add: config_init_def)
  have n: "1 \<le> n" "n \<le> int (length (vc_versions st))" "v = vc_versions st ! nat (n - 1)"
    using assms(3) by (auto simp: config_past_def split: if_splits)
  then have "cv_version v = map cv_version (vc_versions st) ! nat (n - 1)" by simp
  also have "\<dots> = n" using n by (simp add: numbered [OF assms(1)])
  finally have "cv_version v = n" .
  moreover have "config_past st' () n = Some v"
    using config_store.past_immutable [OF assms(2) config_store.reachable_complete [OF assms(1)] assms(3)] .
  ultimately show ?thesis using n by (auto simp: config_entry_def config_current_def)
qed

theorem config_versions_immutable_witness:
  "\<exists>v. config_past config_example () 1 = Some v \<and> cv_version v = 1"
proof -
  let ?one = "snd (config_update (\<lambda>s. s) [(''a'', PInt 1)] ''ops'' (Aware 0) (config_init {''a'', ''b''}))"
  have one: "config_step (\<lambda>s. s) (config_init {''a'', ''b''}) ?one" by (rule config_step.update [OF prod.collapse [symmetric]])
  have two: "config_step (\<lambda>s. s) ?one config_example"
    unfolding config_example_def by (rule config_step.update [OF prod.collapse [symmetric]])
  obtain v where v: "config_past config_example () 1 = Some v"
    by (simp add: config_past_def config_example_def config_update_def config_init_def Let_def)
  have "(config_step (\<lambda>s. s))\<^sup>*\<^sup>* (config_init {''a'', ''b''}) config_example"
    by (rule rtranclp.rtrancl_into_rtrancl, rule r_into_rtranclp, rule one, rule two)
  from config_versions_immutable [OF this rtranclp.rtrancl_refl v] show ?thesis using v by blast
qed

section \<open>Suppressed notifications\<close>

lemma route_all_sent:
  assumes "route_all i ty sev (Aware t) rs sent ms = (Inr out, sent')"
    and "\<forall>m \<in> set ms. \<exists>d. dget m ''destination'' = Some d \<and> dget sent (ty, d) = Some (Aware t)"
  shows "\<forall>m \<in> set out. \<exists>d. dget m ''destination'' = Some d \<and> dget sent' (ty, d) = Some (Aware t)"
  using assms
proof (induction rs arbitrary: sent ms)
  case (Cons r rs)
  show ?case
  proof (cases "rt_event_type r \<noteq> ty \<or> sev < rt_minimum_severity r")
    case True
    then show ?thesis using Cons by auto
  next
    case False
    then consider (skip) "route_all i ty sev (Aware t) rs sent ms = (Inr out, sent')"
      | (send) "route_all i ty sev (Aware t) rs (dput (ty, rt_destination r) (Aware t) sent)
          (ms @ [[(''event_id'', i), (''channel'', rt_channel r), (''destination'', rt_destination r), (''status'', ''routed'')]]) = (Inr out, sent')"
      using Cons.prems(1) by (auto simp: Let_def split: option.splits sum.splits bool.splits)
    then show ?thesis
    proof cases
      case skip
      then show ?thesis using Cons by blast
    next
      case send
      show ?thesis by (rule Cons.IH [OF send]) (use Cons.prems(2) in fastforce)
    qed
  qed
qed simp

lemma route_all_suppressed:
  assumes "dget sent (ty, d) = Some (Aware t)" and "\<forall>r \<in> set rs. u - t < rt_suppress_for r"
    and "\<forall>m \<in> set ms. dget m ''destination'' \<noteq> Some d"
  shows "case route_all i ty sev (Aware u) rs sent ms of
    (Inl e, _) \<Rightarrow> True | (Inr out, _) \<Rightarrow> \<forall>m \<in> set out. dget m ''destination'' \<noteq> Some d"
  using assms
proof (induction rs arbitrary: sent ms)
  case (Cons r rs)
  let ?quiet = "\<lambda>res. case res of (Inl e, _) \<Rightarrow> True | (Inr out, _) \<Rightarrow> \<forall>m \<in> set out. dget m ''destination'' \<noteq> Some d"
  have later: "?quiet (route_all i ty sev (Aware u) rs sent ms)" using Cons.prems by (intro Cons.IH) auto
  show ?case
  proof (cases "rt_event_type r \<noteq> ty \<or> sev < rt_minimum_severity r \<or> rt_destination r = d")
    case True
    then have "route_all i ty sev (Aware u) (r # rs) sent ms = route_all i ty sev (Aware u) rs sent ms"
      using Cons.prems(1,2) by (auto simp: Let_def)
    then show ?thesis using later by (simp only:)
  next
    case False
    have "?quiet (route_all i ty sev (Aware u) rs (dput (ty, rt_destination r) (Aware u) sent)
          (ms @ [[(''event_id'', i), (''channel'', rt_channel r), (''destination'', rt_destination r), (''status'', ''routed'')]]))"
      using Cons.prems False by (intro Cons.IH) auto
    with later show ?thesis
      using False by (auto simp: Let_def split: option.splits sum.splits bool.splits)
  qed
qed auto

text \<open>
  Further: A destination is not notified twice within the suppression time: once an event has been routed to a
  destination at time t, no event of that type, whatever its identifier and however severe, is routed
  to it before the suppression time of the routes is over.
\<close>
theorem notifications_suppressed:
  assumes "route_event i ty sev (Aware t) st = (Inr out, st')" and "m \<in> set out" and "dget m ''destination'' = Some d"
    and "\<forall>r \<in> set (nr_routes st). u - t < rt_suppress_for r"
    and "route_event i' ty sev' (Aware u) st' = (Inr out', st'')"
  shows "\<forall>m' \<in> set out'. dget m' ''destination'' \<noteq> Some d"
proof -
  have run: "route_all i ty sev (Aware t) (nr_routes st) (nr_sent st) [] = (Inr out, nr_sent st')" "nr_routes st' = nr_routes st"
    using assms(1) by (auto simp: route_event_def split: prod.splits)
  have sent: "dget (nr_sent st') (ty, d) = Some (Aware t)"
    using route_all_sent [OF run(1)] assms(2,3) by fastforce
  have "route_all i' ty sev' (Aware u) (nr_routes st) (nr_sent st') [] = (Inr out', nr_sent st'')"
    using assms(5) run(2) by (auto simp: route_event_def split: prod.splits)
  then show ?thesis
    using route_all_suppressed [OF sent, of "nr_routes st" u "[]" i' sev'] assms(4) by simp
qed

definition pager :: route where
  "pager = \<lparr>rt_event_type = ''fault'', rt_channel = ''page'', rt_destination = ''oncall'', rt_minimum_severity = 1,
     rt_suppress_for = 100, rt_escalation_after = None\<rparr>"

theorem notifications_suppressed_witness:
  "\<exists>out st' st''. route_event ''e1'' ''fault'' 1 (Aware 0) \<lparr>nr_routes = [pager], nr_sent = []\<rparr> = (Inr out, st') \<and> out \<noteq> [] \<and>
     route_event ''e2'' ''fault'' 9 (Aware 50) st' = (Inr [], st'')"
proof -
  let ?m = "[(''event_id'', ''e1''), (''channel'', ''page''), (''destination'', ''oncall''), (''status'', ''routed'')]"
  define st' where "st' = \<lparr>nr_routes = [pager], nr_sent = [((''fault'', ''oncall''), Aware 0)]\<rparr>"
  have st': "nr_routes st' = [pager]" "nr_sent st' = [((''fault'', ''oncall''), Aware 0)]" by (simp_all add: st'_def)
  have first: "route_event ''e1'' ''fault'' 1 (Aware 0) \<lparr>nr_routes = [pager], nr_sent = []\<rparr> = (Inr [?m], st')"
    by (simp add: route_event_def pager_def st'_def)
  obtain out' st'' where second: "route_event ''e2'' ''fault'' 9 (Aware 50) st' = (Inr out', st'')"
    by (simp add: route_event_def st' pager_def)
  have "\<forall>m' \<in> set out'. dget m' ''destination'' \<noteq> Some ''oncall''"
    by (rule notifications_suppressed [OF first _ _ _ second, where m = ?m]) (simp_all add: pager_def)
  moreover have "\<forall>m' \<in> set out'. dget m' ''destination'' = Some ''oncall''"
    using second by (auto simp: route_event_def st' pager_def)
  ultimately have "out' = []" by (cases out') auto
  with first second show ?thesis by blast
qed

section \<open>The event store\<close>

inductive event_step :: "event_store \<Rightarrow> event_store \<Rightarrow> bool" where
  append: "event_append e st = (b, st') \<Longrightarrow> event_step st st'"

definition events_indexed :: "event_store \<Rightarrow> bool" where
  "events_indexed st \<longleftrightarrow> distinct (map ee_event_id (es_events st)) \<and> es_event_ids st = set (map ee_event_id (es_events st))"

interpretation events: safe_system event_store_init event_step events_indexed
  by unfold_locales (auto simp: events_indexed_def event_store_init_def event_append_def elim!: event_step.cases split: if_splits)

lemma event_steps_extend: "event_step\<^sup>*\<^sup>* st st' \<Longrightarrow> \<exists>new. es_events st' = es_events st @ new"
  by (induction rule: rtranclp_induct) (auto simp: event_append_def elim!: event_step.cases split: if_splits)

text \<open>
  Further: The event store is append-only and keeps one event per identifier. Whatever is appended, the
  identifiers are distinct and \<open>verify_chain\<close> holds; an event that was ever appended stays and is not
  replaced by a later one with its identifier; and a query returns events of the given tenant only,
  extending what the same query returned before.
\<close>
theorem event_store_append_only:
  assumes "event_step\<^sup>*\<^sup>* event_store_init st" and "event_step\<^sup>*\<^sup>* st st'"
  shows "verify_chain st \<and> distinct (map ee_event_id (es_events st)) \<and>
    (\<exists>new. event_query tenant ty st' = event_query tenant ty st @ new) \<and>
    (\<forall>e \<in> set (event_query tenant ty st'). ee_tenant_id e = tenant) \<and>
    (ee_event_id e \<in> ee_event_id ` set (es_events st) \<longrightarrow> event_append e st' = (False, st'))"
proof -
  have inv: "events_indexed st" by (rule events.inv_reachable [OF assms(1)])
  have inv': "events_indexed st'" by (rule events.inv_steps [OF assms(2) inv])
  obtain new where new: "es_events st' = es_events st @ new" using event_steps_extend [OF assms(2)] by blast
  have "card (es_event_ids st) = length (es_events st)"
    using inv distinct_card [of "map ee_event_id (es_events st)"] by (simp add: events_indexed_def)
  then have "verify_chain st" by (simp add: verify_chain_def)
  moreover have "ee_event_id e \<in> ee_event_id ` set (es_events st) \<longrightarrow> event_append e st' = (False, st')"
    using inv' new by (auto simp: events_indexed_def event_append_def)
  ultimately show ?thesis using inv new by (auto simp: events_indexed_def event_query_def)
qed

definition example_event :: event_envelope where
  "example_event = \<lparr>ee_event_id = ''evt-1'', ee_event_type = ''fault'', ee_schema_version = ''1.0.0'', ee_occurred_at = Aware 0,
     ee_observed_at = Aware 0, ee_tenant_id = ''t1'', ee_site_id = ''s1'', ee_trace_id = ''tr'', ee_payload = []\<rparr>"

theorem event_store_append_only_witness:
  "verify_chain (snd (event_append example_event event_store_init)) \<and>
   event_append (example_event\<lparr>ee_payload := [(''k'', PInt 1)]\<rparr>) (snd (event_append example_event event_store_init)) =
     (False, snd (event_append example_event event_store_init))"
proof -
  have "event_step\<^sup>*\<^sup>* event_store_init (snd (event_append example_event event_store_init))"
    by (rule r_into_rtranclp, rule event_step.append [OF prod.collapse [symmetric]])
  from event_store_append_only [OF this rtranclp.rtrancl_refl, of "''t1''" None "example_event\<lparr>ee_payload := [(''k'', PInt 1)]\<rparr>"]
  show ?thesis by (simp add: event_append_def event_store_init_def example_event_def)
qed

section \<open>What a report's digest covers\<close>

text \<open>
  Further: The digest of a savings report covers the costs, the strategy, the tariff and the run, not its
  provenance: reports on other inputs, with other assumptions and another statement of uncertainty
  have the same digest when strategy and costs agree.
\<close>
theorem report_digest_ignores_provenance:
  assumes "build_savings_report str_decimal sha256 baseline candidate tariff run u = Inr r"
    and "build_savings_report str_decimal sha256 (baseline\<lparr>sp_input_hash := h\<rparr>) (candidate\<lparr>sp_input_hash := h', sp_assumptions := as\<rparr>) tariff run u' = Inr r'"
  shows "sv_content_hash r' = sv_content_hash r \<and> dget (sv_provenance r') ''baseline_input_hash'' = Some h \<and>
    dget (sv_provenance r') ''candidate_input_hash'' = Some h' \<and> sv_assumptions r' = as \<and> sv_uncertainty r' = u' \<and>
    sv_savings r' = sv_savings r"
  using assms by (auto simp: build_savings_report_def Let_def rbind_eq_Inr split: if_splits)

definition example_costs :: schedule_plan where
  "example_costs = \<lparr>sp_strategy = ''fifo'', sp_allocations = [], sp_unscheduled = [], sp_energy_intent_kwh = 0,
     sp_estimated_cost = 0, sp_assumptions = [], sp_violations = [], sp_input_hash = ''digest''\<rparr>"

theorem report_digest_ignores_provenance_witness:
  "\<exists>r r'. build_savings_report (\<lambda>_. ''0'') (\<lambda>s. s) example_costs example_costs ''v1'' ''run'' [] = Inr r \<and>
     build_savings_report (\<lambda>_. ''0'') (\<lambda>s. s) (example_costs\<lparr>sp_input_hash := ''x''\<rparr>)
       (example_costs\<lparr>sp_input_hash := ''y'', sp_assumptions := [''a'']\<rparr>) ''v1'' ''run'' [] = Inr r' \<and>
     sv_content_hash r' = sv_content_hash r \<and> sv_provenance r' \<noteq> sv_provenance r"
proof -
  obtain r where r: "build_savings_report (\<lambda>_. ''0'') (\<lambda>s. s) example_costs example_costs ''v1'' ''run'' [] = Inr r"
    and prov: "dget (sv_provenance r) ''baseline_input_hash'' = Some ''digest''"
    by (simp add: build_savings_report_def example_costs_def Let_def)
  obtain r' where r': "build_savings_report (\<lambda>_. ''0'') (\<lambda>s. s) (example_costs\<lparr>sp_input_hash := ''x''\<rparr>)
       (example_costs\<lparr>sp_input_hash := ''y'', sp_assumptions := [''a'']\<rparr>) ''v1'' ''run'' [] = Inr r'"
    by (simp add: build_savings_report_def example_costs_def Let_def)
  from report_digest_ignores_provenance [OF r r'] prov
  have "sv_content_hash r' = sv_content_hash r" "sv_provenance r' \<noteq> sv_provenance r" by auto
  with r r' show ?thesis by blast
qed

section \<open>Backups\<close>

text \<open>
  Further: Backups restore what was saved and are tamper-evident. A backup of a state of JSON values can be taken, holds
  under every key the value that the state had there, and verifies; if its state is changed and it still
  verifies, either the two states have the same JSON text or their texts collide under SHA-256.
\<close>
theorem backup_tamper_evident:
  assumes "json_ok (PDict st)"
  shows "\<exists>b d. backup_state sha256 st now = Inr b \<and> bk_state b = PDict d \<and> (\<forall>k. dget d k = map_option (json_value True) (dget st k)) \<and>
    verify_backup sha256 b \<and>
    (\<forall>st'. verify_backup sha256 (b\<lparr>bk_state := PDict st'\<rparr>) \<longleftrightarrow> sha256 (json_compact (PDict st')) = sha256 (json_compact (PDict st)))"
proof -
  obtain d where d: "json_value True (PDict st) = PDict d" by simp
  have "json_loads (json_compact (PDict st)) = Inr (PDict d)" using json_loads_compact(1) [OF assms] d by simp
  moreover have "json_compact (PDict d) = json_compact (PDict st)" using json_compact_value [of "PDict st"] d by simp
  moreover have "distinct (dkeys st)" using assms by simp
  ultimately show ?thesis
    using dget_json_value(1) [OF _ d] by (intro exI conjI) (auto simp: backup_state_def verify_backup_def Let_def)
qed

theorem backup_tamper_evident_witness:
  "\<exists>b. backup_state (\<lambda>s. s) [(''a'', PNone)] (Aware 0) = Inr b \<and> verify_backup (\<lambda>s. s) b \<and>
     \<not> verify_backup (\<lambda>s. s) (b\<lparr>bk_state := PDict [(''a'', PBool True)]\<rparr>)"
proof -
  have "json_ok (PDict [(''a'', PNone)])" by simp
  from backup_tamper_evident [OF this, of "\<lambda>s. s" "Aware 0"] obtain b where b: "backup_state (\<lambda>s. s) [(''a'', PNone)] (Aware 0) = Inr b"
      "verify_backup (\<lambda>s. s) b"
      "\<forall>st'. verify_backup (\<lambda>s. s) (b\<lparr>bk_state := PDict st'\<rparr>) \<longleftrightarrow> json_compact (PDict st') = json_compact (PDict [(''a'', PNone)])"
    by blast
  from b(3) [rule_format, of "[(''a'', PBool True)]"] show ?thesis using b(1,2) by simp
qed

lemma sort_Nil_iff: "sort xs = [] \<longleftrightarrow> xs = []"
  by (metis set_empty set_sort)

text \<open>
  Further: A restore is called safe exactly when every planned object is present with an equal value; objects
  that exist outside but are not in the plan are reported and do not make it unsafe.
\<close>
theorem restore_safe_iff:
  "rc_safe (reconcile_restore planned actual) \<longleftrightarrow>
     set (dkeys planned) = {k. \<exists>v w. dget planned k = Some v \<and> dget actual k = Some w \<and> py_eq v w}"
proof -
  have "rc_safe (reconcile_restore planned actual) \<longleftrightarrow>
      (\<forall>k \<in> set (dkeys planned). k \<in> set (dkeys actual) \<and>
        \<not> (case (dget planned k, dget actual k) of (Some v, Some w) \<Rightarrow> \<not> py_eq v w | _ \<Rightarrow> False))"
    by (auto simp: reconcile_restore_def Let_def filter_empty_conv sort_Nil_iff simp del: set_map)
  also have "\<dots> \<longleftrightarrow> (\<forall>k \<in> set (dkeys planned). \<exists>v w. dget planned k = Some v \<and> dget actual k = Some w \<and> py_eq v w)"
  proof (rule ball_cong [OF refl])
    fix k
    assume "k \<in> set (dkeys planned)"
    then obtain v where v: "dget planned k = Some v" by (meson dget_None_keys not_Some_eq)
    show "(k \<in> set (dkeys actual) \<and> \<not> (case (dget planned k, dget actual k) of (Some v, Some w) \<Rightarrow> \<not> py_eq v w | _ \<Rightarrow> False)) \<longleftrightarrow>
      (\<exists>v w. dget planned k = Some v \<and> dget actual k = Some w \<and> py_eq v w)"
    proof (cases "dget actual k")
      case None
      then have "k \<notin> set (dkeys actual)" using dget_None_keys [of actual k] by blast
      with None show ?thesis by (simp del: set_map)
    next
      case (Some w)
      then have "k \<in> set (dkeys actual)" by (metis dget_None_keys option.distinct(1))
      with Some v show ?thesis by (simp del: set_map)
    qed
  qed
  also have "\<dots> \<longleftrightarrow> set (dkeys planned) = {k. \<exists>v w. dget planned k = Some v \<and> dget actual k = Some w \<and> py_eq v w}"
  proof -
    have "k \<in> set (dkeys planned)" if "dget planned k = Some v" for k v
      using that dget_None_keys [of planned k] by force
    then show ?thesis by blast
  qed
  finally show ?thesis .
qed

end
