(* ===== verification/Insight.thy ===== *)
theory Insight
  imports Mpc
begin

text \<open>
  Analyses around the optimiser: explanations of a plan and of its constraints (\<open>packages/explain\<close>),
  counterfactual prices and what-if capacities (\<open>packages/explain/counterfactual.py\<close>,
  \<open>packages/whatif\<close>), and the evaluation of a migration between sites (\<open>packages/multisite\<close>).
\<close>

section \<open>Explanations\<close>

record explanation =
  ex_primary_reason :: string
  ex_supporting_factors :: "string list"
  ex_conflicting_factors :: "string list"
  ex_binding_constraints :: "string list"
  ex_objective_impact :: "(string, decimal) dict"
  ex_uncertainty :: "string list"
  ex_provenance :: "(string, string) dict"

definition explain_plan :: "(decimal \<Rightarrow> string) \<Rightarrow> optimization_result \<Rightarrow> string \<Rightarrow> string \<Rightarrow> decimal \<Rightarrow> explanation" where
  "explain_plan str_decimal res input_hash model_version forecast_quality =
     (let provenance = [(''input_hash'', input_hash), (''model_version'', model_version), (''solver'', or_solver res)] in
      case or_plan res of
        None \<Rightarrow>
          \<lparr>ex_primary_reason = ''INFEASIBLE'', ex_supporting_factors = [], ex_conflicting_factors = or_diagnostics res,
           ex_binding_constraints = or_diagnostics res, ex_objective_impact = or_objective_breakdown res, ex_uncertainty = [],
           ex_provenance = provenance\<rparr>
      | Some plan \<Rightarrow>
          let reasons = sort (remdups (map al_reason_code (sp_allocations plan))) in
          \<lparr>ex_primary_reason = (if reasons = [] then ''NO_ACTION'' else hd reasons),
           ex_supporting_factors = List.tl reasons, ex_conflicting_factors = [],
           ex_binding_constraints = or_diagnostics res, ex_objective_impact = or_objective_breakdown res,
           ex_uncertainty = (if forecast_quality < 9 / 10 then [''forecast_quality='' @ str_decimal forecast_quality] else []),
           ex_provenance = provenance\<rparr>)"

definition binding_slacks :: "(string, decimal) dict \<Rightarrow> decimal \<Rightarrow> string list" where
  "binding_slacks slacks tolerance = sort (map fst (filter (\<lambda>(n, slack). \<bar>slack\<bar> \<le> tolerance) slacks))"

record constraint_slack =
  sl_constraint_id :: string
  sl_limit :: decimal
  sl_actual :: decimal
  sl_slack :: decimal
  sl_binding :: bool
  sl_near_binding :: bool

definition explain_constraint :: "string \<Rightarrow> decimal \<Rightarrow> decimal \<Rightarrow> decimal \<Rightarrow> constraint_slack result" where
  "explain_constraint constraint_id actual limit tolerance =
     (if limit < 0 \<or> tolerance < 0 then Inl (ValueError ''constraint limit and tolerance cannot be negative'')
      else
        let slack = dsub limit actual; tight = (slack \<le> 0); denominator = max \<bar>limit\<bar> 1 in
        rbind (if tight then Inr False else rbind (ddiv slack denominator) (\<lambda>q. Inr (q \<le> tolerance))) (\<lambda>near.
          Inr \<lparr>sl_constraint_id = constraint_id, sl_limit = limit, sl_actual = actual, sl_slack = slack, sl_binding = tight,
               sl_near_binding = near\<rparr>))"

definition binding_constraints :: "constraint_slack list \<Rightarrow> string list" where
  "binding_constraints items = map sl_constraint_id (filter (\<lambda>i. sl_binding i \<or> sl_near_binding i) items)"

section \<open>Other prices, other capacities\<close>

record counterfactual =
  cf_parameter :: string
  cf_original :: decimal
  cf_changed :: decimal
  cf_objective_delta :: "decimal option"
  cf_result :: optimization_result

definition change_slot_prices ::
  "(schedule_input \<Rightarrow> string) \<Rightarrow> (nat \<Rightarrow> bool) \<Rightarrow> rat \<Rightarrow> (nat \<Rightarrow> bool) \<Rightarrow> rat \<Rightarrow> schedule_input \<Rightarrow> decimal \<Rightarrow> counterfactual result" where
  \<comment> \<open>the first clock and run time are those of the original problem, the others those of the changed one\<close>
  "change_slot_prices content_hash expired runtime expired' runtime' request multiplier =
     (if multiplier \<le> 0 then Inl (ValueError ''price multiplier must be positive'')
      else
        rbind (optimize content_hash expired runtime request) (\<lambda>original.
        let changed_slots = map (\<lambda>slot. slot\<lparr>ts_price_per_kwh := dmul (ts_price_per_kwh slot) multiplier\<rparr>) (si_slots request) in
        rbind (optimize content_hash expired' runtime' (request\<lparr>si_slots := changed_slots\<rparr>)) (\<lambda>changed.
          let delta = (case (or_plan original, or_plan changed) of
                         (Some p, Some q) \<Rightarrow> Some (dsub (sp_estimated_cost q) (sp_estimated_cost p)) | _ \<Rightarrow> None)
          in Inr \<lparr>cf_parameter = ''price_multiplier'', cf_original = 1, cf_changed = multiplier, cf_objective_delta = delta,
                  cf_result = changed\<rparr>)))"

record what_if_result =
  wi_isolated :: bool
  wi_changed_parameters :: "(string, string) dict"
  wi_result :: optimization_result

definition scale_slot :: "decimal \<Rightarrow> time_slot \<Rightarrow> time_slot" where
  "scale_slot multiplier slot =
     slot\<lparr>ts_gpu_capacity := truncate_rat (dmul (of_int (ts_gpu_capacity slot)) multiplier),
          ts_power_capacity_kw := dmul (ts_power_capacity_kw slot) multiplier\<rparr>"

definition run_what_if ::
  "(decimal \<Rightarrow> string) \<Rightarrow> (schedule_input \<Rightarrow> string) \<Rightarrow> (nat \<Rightarrow> bool) \<Rightarrow> rat \<Rightarrow> schedule_input \<Rightarrow> decimal \<Rightarrow> what_if_result result" where
  "run_what_if str_decimal content_hash expired runtime request capacity_multiplier =
     (if capacity_multiplier \<le> 0 then Inl (ValueError ''capacity multiplier must be positive'')
      else
        rbind (optimize content_hash expired runtime (request\<lparr>si_slots := map (scale_slot capacity_multiplier) (si_slots request)\<rparr>)) (\<lambda>res.
          Inr \<lparr>wi_isolated = True, wi_changed_parameters = [(''capacity_multiplier'', str_decimal capacity_multiplier)],
               wi_result = res\<rparr>))"

section \<open>Migration between sites\<close>

record site =
  st_id :: string
  st_region :: string
  st_available_gpus :: int
  st_grid_limit_kw :: decimal
  st_energy_price :: decimal
  st_carbon_intensity :: decimal
  st_online :: bool

record site_link =
  lk_source :: string
  lk_destination :: string
  lk_bandwidth_gbps :: decimal
  lk_latency_ms :: decimal
  lk_transfer_cost_per_gb :: decimal
  lk_online :: bool

record migration_decision =
  md_allowed :: bool
  md_source :: string
  md_destination :: string
  md_transfer_hours :: "decimal option"
  md_compute_savings :: decimal
  md_transfer_cost :: decimal
  md_net_savings :: decimal
  md_reasons :: "string list"
  md_approval_required :: bool

definition migration_reasons ::
  "job \<Rightarrow> site \<Rightarrow> site \<Rightarrow> site_link \<Rightarrow> decimal \<Rightarrow> decimal option \<Rightarrow> decimal \<Rightarrow> string list" where
  "migration_reasons job source destination link remaining_hours transfer_hours net =
     (if \<not> st_online source \<or> \<not> st_online destination \<or> \<not> lk_online link then [''SITE_OR_LINK_UNAVAILABLE''] else []) @
     (if st_id destination \<notin> jb_allowed_sites job then [''SOVEREIGNTY''] else []) @
     (if st_available_gpus destination < rr_gpu_count (jb_request job) then [''GPU_CAPACITY''] else []) @
     (if lk_source link \<noteq> st_id source \<or> lk_destination link \<noteq> st_id destination then [''LINK_DIRECTION''] else []) @
     (if (case transfer_hours of None \<Rightarrow> True | Some h \<Rightarrow> h \<ge> remaining_hours) then [''TRANSFER_TIME''] else []) @
     (if net \<le> 0 then [''NO_NET_SAVINGS''] else [])"

definition evaluate_migration ::
  "job \<Rightarrow> site \<Rightarrow> site \<Rightarrow> site_link \<Rightarrow> decimal \<Rightarrow> decimal \<Rightarrow> migration_decision result" where
  "evaluate_migration job source destination link checkpoint_size_gb remaining_hours =
     rbind (if lk_bandwidth_gbps link > 0
            then rbind (ddiv (dmul checkpoint_size_gb 8) (dmul (lk_bandwidth_gbps link) 3600)) (\<lambda>h. Inr (Some h))
            else Inr None) (\<lambda>transfer_hours.
       let compute_kwh = dmul (dmul (rr_power_kw_per_gpu (jb_request job)) (of_int (rr_gpu_count (jb_request job)))) remaining_hours;
           savings = dmul compute_kwh (dsub (st_energy_price source) (st_energy_price destination));
           transfer_cost = dmul checkpoint_size_gb (lk_transfer_cost_per_gb link);
           net = dsub savings transfer_cost;
           reasons = migration_reasons job source destination link remaining_hours transfer_hours net
       in Inr \<lparr>md_allowed = (reasons = []), md_source = st_id source, md_destination = st_id destination,
               md_transfer_hours = transfer_hours, md_compute_savings = savings, md_transfer_cost = transfer_cost,
               md_net_savings = net, md_reasons = reasons, md_approval_required = True\<rparr>)"

section \<open>Plans for smaller capacities\<close>

lemma validate_slots_mono:
  assumes "\<And>s. s \<in> set slots \<Longrightarrow> ts_starts_at (f s) = ts_starts_at s \<and> ts_gpu_capacity (f s) \<le> ts_gpu_capacity s"
    and "validate_slots (map f slots) job g is used = Inr used'"
  shows "validate_slots slots job g is used = Inr used'"
  using assms(2)
proof (induction "is" arbitrary: used)
  case (Cons i "is")
  then obtain fs before where fs: "py_nth (map f slots) i = Inr fs" and before: "key_of used string_of_int i = Inr before"
    and cap: "before + g \<le> ts_gpu_capacity fs" and dead: "dt_ge (ts_starts_at fs) (sla_deadline (jb_sla job)) = Inr False"
    and rest: "validate_slots (map f slots) job g is (dput i (before + g) used) = Inr used'"
    by (auto simp: rbind_eq_Inr Let_def split: if_splits)
  obtain s where s: "py_nth slots i = Inr s" "fs = f s" "s \<in> set slots"
    using fs by (auto simp: py_nth_def split: if_splits)
  show ?case
    using s before cap dead Cons.IH [OF rest] assms(1) [OF s(3)] by (simp add: Let_def)
qed simp

lemma validate_allocations_mono:
  assumes "\<And>s. s \<in> set slots \<Longrightarrow> ts_starts_at (f s) = ts_starts_at s \<and> ts_gpu_capacity (f s) \<le> ts_gpu_capacity s"
    and "validate_allocations (map f slots) jobs as done used = Inr ()"
  shows "validate_allocations slots jobs as done used = Inr ()"
  using assms(2)
proof (induction as arbitrary: "done" used)
  case (Cons a as)
  then show ?case
    using validate_slots_mono [OF assms(1)] by (auto simp: rbind_eq_Inr split: if_splits)
qed simp

lemma scaled_capacity:
  assumes "m \<le> 1" "0 \<le> c" "c < 10 ^ 28"
  shows "truncate_rat (dmul (of_int c) m) \<le> c"
proof -
  have "of_int c * m \<le> (of_int c :: rat)" using assms(1,2) mult_left_mono [of m 1 "of_int c"] by simp
  then have "dmul (of_int c) m \<le> dround (of_int c)" unfolding dmul_def by (rule dround_mono)
  also have "\<dots> = of_int c" using assms(2,3) by (intro dround_int) simp
  finally have le: "dmul (of_int c) m \<le> of_int c" .
  then show ?thesis
    using assms(2) by (auto simp: truncate_rat_def ceiling_le_iff floor_le_iff)
qed

text \<open>
  Further: A what-if analysis that only shrinks capacities is conservative: the plan it finds passes the plan
  validation of the original request too. The request itself is not touched by the analysis.
\<close>
theorem what_if_conservative:
  assumes "run_what_if str_decimal content_hash expired runtime request m = Inr r" and "or_plan (wi_result r) = Some plan"
    and "m \<le> 1" and "\<forall>slot \<in> set (si_slots request). 0 \<le> ts_gpu_capacity slot \<and> ts_gpu_capacity slot < 10 ^ 28"
  shows "validate_plan request plan = Inr ()"
proof -
  let ?scaled = "request\<lparr>si_slots := map (scale_slot m) (si_slots request)\<rparr>"
  obtain res where "optimize content_hash expired runtime ?scaled = Inr res" "wi_result r = res"
    using assms(1) by (auto simp: run_what_if_def rbind_eq_Inr split: if_splits)
  then have "validate_plan ?scaled plan = Inr ()" using optimize_plan_validated assms(2) by blast
  then have ok: "validate_allocations (map (scale_slot m) (si_slots request)) (dict_of (map (\<lambda>job. (jb_id job, job)) (si_jobs request)))
      (sp_allocations plan) {} (dict_of (map (\<lambda>slot. (ts_index slot, 0)) (si_slots request))) = Inr ()"
    by (simp add: validate_plan_def scale_slot_def comp_def)
  have "ts_starts_at (scale_slot m s) = ts_starts_at s \<and> ts_gpu_capacity (scale_slot m s) \<le> ts_gpu_capacity s"
    if "s \<in> set (si_slots request)" for s
    using assms(3,4) that scaled_capacity by (simp add: scale_slot_def)
  from validate_allocations_mono [OF this ok] show ?thesis by (simp add: validate_plan_def)
qed

theorem what_if_conservative_witness:
  "\<exists>r plan. run_what_if (\<lambda>_. ''1'') (\<lambda>_. ''digest'') (\<lambda>_. False) 0 (empty_horizon [0, 1]) 1 = Inr r \<and> or_plan (wi_result r) = Some plan \<and>
     validate_plan (empty_horizon [0, 1]) plan = Inr ()"
proof -
  have "\<exists>r plan. run_what_if (\<lambda>_. ''1'') (\<lambda>_. ''digest'') (\<lambda>_. False) 0 (empty_horizon [0, 1]) 1 = Inr r \<and> or_plan (wi_result r) = Some plan"
    by (simp add: run_what_if_def optimize_def empty_horizon_def search.simps chosen_plan_def validate_plan_def plan_energy_def Let_def)
  then obtain r plan where run: "run_what_if (\<lambda>_. ''1'') (\<lambda>_. ''digest'') (\<lambda>_. False) 0 (empty_horizon [0, 1]) 1 = Inr r"
    and plan: "or_plan (wi_result r) = Some plan" by (elim exE conjE)
  have "validate_plan (empty_horizon [0, 1]) plan = Inr ()"
    by (rule what_if_conservative [OF run plan]) (simp_all add: empty_horizon_def)
  with run plan show ?thesis by blast
qed

text \<open>
  Further: A migration is allowed only to a site that the job permits: allowed means that both sites and the
  link are up, the link runs from the source to the destination, the destination is one of the allowed
  sites of the job and has the GPUs, the transfer ends before the job would, and the savings after the
  transfer cost are positive. Exactly one reason is given for each condition that fails, and approval
  is required in any case.
\<close>
theorem migration_allowed_iff:
  assumes "evaluate_migration job source destination link gb remaining = Inr d"
  shows "(md_allowed d \<longleftrightarrow> st_online source \<and> st_online destination \<and> lk_online link \<and> st_id destination \<in> jb_allowed_sites job \<and>
      rr_gpu_count (jb_request job) \<le> st_available_gpus destination \<and> lk_source link = st_id source \<and>
      lk_destination link = st_id destination \<and> (\<exists>h. md_transfer_hours d = Some h \<and> h < remaining) \<and> 0 < md_net_savings d) \<and>
    distinct (md_reasons d) \<and> (''SOVEREIGNTY'' \<in> set (md_reasons d) \<longleftrightarrow> st_id destination \<notin> jb_allowed_sites job) \<and>
    md_approval_required d"
proof -
  have d: "md_allowed d \<longleftrightarrow> md_reasons d = []" "md_approval_required d"
    "md_reasons d = migration_reasons job source destination link remaining (md_transfer_hours d) (md_net_savings d)"
    using assms by (auto simp: evaluate_migration_def Let_def rbind_eq_Inr)
  have late: "(case md_transfer_hours d of None \<Rightarrow> True | Some h \<Rightarrow> h \<ge> remaining) \<longleftrightarrow> \<not> (\<exists>h. md_transfer_hours d = Some h \<and> h < remaining)"
    by (auto split: option.splits)
  have "md_reasons d = [] \<longleftrightarrow> st_online source \<and> st_online destination \<and> lk_online link \<and> st_id destination \<in> jb_allowed_sites job \<and>
      rr_gpu_count (jb_request job) \<le> st_available_gpus destination \<and> lk_source link = st_id source \<and>
      lk_destination link = st_id destination \<and> (\<exists>h. md_transfer_hours d = Some h \<and> h < remaining) \<and> 0 < md_net_savings d"
    unfolding d(3) migration_reasons_def late by (simp add: not_less not_le) blast
  moreover have "distinct (md_reasons d) \<and> (''SOVEREIGNTY'' \<in> set (md_reasons d) \<longleftrightarrow> st_id destination \<notin> jb_allowed_sites job)"
    unfolding d(3) migration_reasons_def by simp
  ultimately show ?thesis using d(1,2) by blast
qed

definition north :: site where
  "north = \<lparr>st_id = ''north'', st_region = ''eu'', st_available_gpus = 8, st_grid_limit_kw = 100, st_energy_price = 2, st_carbon_intensity = 0,
     st_online = True\<rparr>"

definition north_south :: site_link where
  "north_south = \<lparr>lk_source = ''north'', lk_destination = ''south'', lk_bandwidth_gbps = 0, lk_latency_ms = 1, lk_transfer_cost_per_gb = 0,
     lk_online = True\<rparr>"

definition movable_job :: job where
  "movable_job = \<lparr>jb_id = ''j'', jb_tenant_id = ''t1'', jb_project_id = ''p'', jb_workload_class = TRAINING,
     jb_request = \<lparr>rr_gpu_count = 4, rr_gpu_model = None, rr_cpu_cores = 0, rr_memory_gb = 0, rr_estimated_hours = 1, rr_power_kw_per_gpu = 1\<rparr>,
     jb_sla = \<lparr>sla_deadline = Aware 0, sla_priority = 50, sla_max_latency_ms = None, sla_availability_target = None\<rparr>,
     jb_submitted_at = Aware 0, jb_allowed_sites = {''north''}, jb_data_regions = {}, jb_dependencies = {}, jb_checkpointable = True, jb_labels = []\<rparr>"

theorem migration_allowed_iff_witness:
  "\<exists>d. evaluate_migration movable_job north (north\<lparr>st_id := ''south''\<rparr>) north_south 10 5 = Inr d \<and> \<not> md_allowed d \<and>
     ''SOVEREIGNTY'' \<in> set (md_reasons d)"
proof -
  have "\<exists>d. evaluate_migration movable_job north (north\<lparr>st_id := ''south''\<rparr>) north_south 10 5 = Inr d"
    by (simp add: evaluate_migration_def north_south_def Let_def)
  then obtain d where d: "evaluate_migration movable_job north (north\<lparr>st_id := ''south''\<rparr>) north_south 10 5 = Inr d" by (elim exE)
  have site: "st_id (north\<lparr>st_id := ''south''\<rparr>) \<notin> jb_allowed_sites movable_job" by (simp add: movable_job_def)
  from migration_allowed_iff [OF d] site show ?thesis by (intro exI [of _ d] conjI d) auto
qed

end
