(* ===== verification/Forecasting.thy ===== *)
theory Forecasting
  imports Domain Datetimes
begin

text \<open>
  \<open>packages/forecasting\<close> without the registry: the persistence and seasonal models, lag features, the
  rolling-origin backtest, the quality fallback and the service. An aware timestamp is in UTC, so its
  hour and weekday are those of the UTC reading. \<open>system_zone\<close> turns a naive reading into an instant (for
  \<open>timestamp()\<close>), and \<open>str_decimal\<close> is the text of a decimal.
\<close>

section \<open>Points and bundles\<close>

record observed_value =
  ov_timestamp :: datetime
  ov_value :: decimal

record forecast_point =
  fp_timestamp :: datetime
  fp_point :: decimal
  fp_lower :: decimal
  fp_upper :: decimal
  fp_quantiles :: "(string, decimal) dict"

definition mk_point :: "forecast_point \<Rightarrow> forecast_point result" where
  "mk_point p =
     (if \<not> (fp_lower p \<le> fp_point p \<and> fp_point p \<le> fp_upper p)
      then Inl (ValueError ''forecast interval must contain point estimate'') else Inr p)"

record forecast_bundle =
  fb_id :: string
  fb_signal :: string
  fb_points :: "forecast_point list"
  fb_model_version :: string
  fb_generated_at :: datetime
  fb_valid_for :: "datetime \<times> datetime"
  fb_quality :: decimal
  fb_lineage :: "string list"
  fb_fallback :: "string option"

definition mk_bundle :: "forecast_bundle \<Rightarrow> forecast_bundle result" where
  "mk_bundle b =
     (if \<not> (0 \<le> fb_quality b \<and> fb_quality b \<le> 1) then Inl (ValueError ''forecast quality must be in [0,1]'')
      else
        let timestamps = map fp_timestamp (fb_points b) in
        if (\<exists>t \<in> set timestamps. is_aware t) \<and> (\<exists>t \<in> set timestamps. \<not> is_aware t) then Inl mixed_comparison
        else if map dt_value timestamps \<noteq> sort (remdups (map dt_value timestamps))
        then Inl (ValueError ''forecast points must be unique and ordered'')
        else Inr b)"

definition float_times :: "nat \<Rightarrow> rat \<Rightarrow> int" where
  \<comment> \<open>\<open>int(n * f)\<close> for the double that the literal denotes\<close>
  "float_times n f = truncate_rat (to_double (of_nat n * to_double f))"

definition timestamp_seconds :: "(int \<Rightarrow> instant) \<Rightarrow> datetime \<Rightarrow> int" where
  \<comment> \<open>\<open>int(start.timestamp())\<close>\<close>
  "timestamp_seconds system_zone d =
     truncate_rat (to_double (of_int (case d of Aware t \<Rightarrow> t | Naive w \<Rightarrow> system_zone w) / 10 ^ 6))"

definition bundle_id :: "(int \<Rightarrow> instant) \<Rightarrow> string \<Rightarrow> datetime \<Rightarrow> string" where
  "bundle_id system_zone signal start =
     ''forecast-'' @ signal @ ''-'' @ string_of_int (timestamp_seconds system_zone start)"

definition over_periods :: "datetime \<Rightarrow> int \<Rightarrow> timedelta \<Rightarrow> (datetime \<Rightarrow> 'a result) \<Rightarrow> 'a list result" where
  \<comment> \<open>a loop over \<open>range(periods)\<close> that starts with \<open>timestamp = start + index * step\<close>; a datetime ends with the year 9999\<close>
  "over_periods start periods step f = rmap_list (\<lambda>i. rbind (dt_plus start (int i * step)) f) [0..<nat periods]"

section \<open>Models\<close>

definition persistence_forecast ::
  "(int \<Rightarrow> instant) \<Rightarrow> observed_value list \<Rightarrow> datetime \<Rightarrow> int \<Rightarrow> timedelta \<Rightarrow> string \<Rightarrow> string \<Rightarrow> forecast_bundle result" where
  "persistence_forecast system_zone history start periods step model_version signal =
     (if history = [] then Inl (ValueError ''history is required'')
      else
        rbind (dt_ge (ov_timestamp (last history)) start) (\<lambda>late.
        if late then Inl (ValueError ''future-data leakage: training observation overlaps forecast window'')
        else
          let vals = map ov_value history; point = last vals; ordered = sort vals; n = length ordered in
          rbind (py_nth ordered (max 0 (float_times n (1 / 10) - 1))) (\<lambda>low.
          rbind (py_nth ordered (min (int n - 1) (float_times n (9 / 10)))) (\<lambda>high.
          let low = min low point; high = max high point in
          rbind (over_periods start periods step (\<lambda>t. mk_point \<lparr>fp_timestamp = t, fp_point = point, fp_lower = low, fp_upper = high,
                    fp_quantiles = [(''p10'', low), (''p50'', point), (''p90'', high)]\<rparr>)) (\<lambda>points.
          rbind (dt_plus start (periods * step)) (\<lambda>finish.
          mk_bundle \<lparr>fb_id = bundle_id system_zone signal start, fb_signal = signal, fb_points = points, fb_model_version = model_version,
             fb_generated_at = start, fb_valid_for = (start, finish), fb_quality = 7 / 10,
             fb_lineage = map (\<lambda>ob. isoformat (CHR ''T'') (ov_timestamp ob)) history, fb_fallback = None\<rparr>))))))"

definition hour_minute :: "datetime \<Rightarrow> int \<times> int" where
  "hour_minute d = ((dt_value d div 3600000000) mod 24, (dt_value d div 60000000) mod 60)"

definition seasons :: "observed_value list \<Rightarrow> (int \<times> int, decimal list) dict" where
  "seasons history =
     fold (\<lambda>ob d. dput (hour_minute (ov_timestamp ob)) (dget_or d (hour_minute (ov_timestamp ob)) [] @ [ov_value ob]) d) history []"

definition seasonal_point :: "decimal list \<Rightarrow> datetime \<Rightarrow> forecast_point result" where
  "seasonal_point vals t =
     rbind (ddiv (dsum vals) (of_nat (length vals))) (\<lambda>point.
       let spread = dsub (Max (set vals)) (Min (set vals)) in
       mk_point \<lparr>fp_timestamp = t, fp_point = point, fp_lower = dsub point spread, fp_upper = dadd point spread,
         fp_quantiles = [(''p10'', dsub point spread), (''p50'', point), (''p90'', dadd point spread)]\<rparr>)"

definition seasonal_forecast ::
  "(int \<Rightarrow> instant) \<Rightarrow> observed_value list \<Rightarrow> datetime \<Rightarrow> int \<Rightarrow> timedelta \<Rightarrow> string \<Rightarrow> string \<Rightarrow> forecast_bundle result" where
  "seasonal_forecast system_zone history start periods step model_version signal =
     rbind (if history = [] then Inr True else dt_ge (ov_timestamp (last history)) start) (\<lambda>unsafe.
     if unsafe then Inl (ValueError ''leakage-safe historical data is required'')
     else
       let seasonal = seasons history; fallback = ov_value (last history) in
       rbind (over_periods start periods step (\<lambda>t. seasonal_point (dget_or seasonal (hour_minute t) [fallback]) t)) (\<lambda>points.
       rbind (dt_plus start (periods * step)) (\<lambda>finish.
       mk_bundle \<lparr>fb_id = bundle_id system_zone signal start, fb_signal = signal, fb_points = points, fb_model_version = model_version,
          fb_generated_at = start, fb_valid_for = (start, finish), fb_quality = 8 / 10,
          fb_lineage = map (\<lambda>ob. isoformat (CHR ''T'') (ov_timestamp ob)) history, fb_fallback = None\<rparr>)))"

section \<open>Service, fallback, backtest\<close>

definition mk_forecast_service :: "decimal \<Rightarrow> decimal result" where
  "mk_forecast_service minimum_quality =
     (if \<not> (0 \<le> minimum_quality \<and> minimum_quality \<le> 1) then Inl (ValueError ''minimum forecast quality must be in [0,1]'')
      else Inr minimum_quality)"

definition generate ::
  "(int \<Rightarrow> instant) \<Rightarrow> (decimal \<Rightarrow> string) \<Rightarrow> decimal \<Rightarrow> observed_value list \<Rightarrow> datetime \<Rightarrow> int \<Rightarrow> timedelta \<Rightarrow> string \<Rightarrow> string \<Rightarrow>
   forecast_bundle result" where
  "generate system_zone str_decimal minimum_quality history start periods step signal preferred_model =
     (if periods < 1 \<or> step \<le> 0 then Inl (ValueError ''forecast horizon must be positive'')
      else
        rbind (if preferred_model = ''persistence'' then persistence_forecast system_zone history start periods step ''persistence-1'' signal
               else if preferred_model = ''seasonal'' then seasonal_forecast system_zone history start periods step ''seasonal-1'' signal
               else Inl (ValueError (''unsupported forecast model '' @ preferred_model))) (\<lambda>bundle.
          if fb_quality bundle \<ge> minimum_quality then Inr bundle
          else
            rbind (persistence_forecast system_zone history start periods step ''persistence-fallback-1'' signal) (\<lambda>fallback.
              mk_bundle (fallback\<lparr>fb_fallback := Some (''quality_below_'' @ str_decimal minimum_quality)\<rparr>))))"

definition require_quality :: "forecast_bundle \<Rightarrow> decimal \<Rightarrow> forecast_bundle result" where
  "require_quality bundle minimum =
     (if fb_quality bundle \<ge> minimum then Inr bundle
      else
        rbind (rmap_list (\<lambda>p. mk_point (p\<lparr>fp_point := fp_upper p, fp_lower := fp_upper p, fp_upper := fp_upper p\<rparr>)) (fb_points bundle)) (\<lambda>conservative.
          mk_bundle (bundle\<lparr>fb_points := conservative, fb_fallback := Some ''conservative_upper_bound''\<rparr>)))"

record backtest_result =
  bt_mae :: decimal
  bt_interval_coverage :: decimal
  bt_folds :: int

definition backtest_fold :: "(int \<Rightarrow> instant) \<Rightarrow> observed_value list \<Rightarrow> int \<Rightarrow> (decimal \<times> bool) result" where
  "backtest_fold system_zone observations index =
     rbind (py_nth observations index) (\<lambda>actual.
     rbind (persistence_forecast system_zone (py_take index observations) (ov_timestamp actual) 1 3600000000 ''persistence-1'' ''unknown'') (\<lambda>b.
     rbind (py_nth (fb_points b) 0) (\<lambda>forecast.
       Inr (\<bar>dsub (fp_point forecast) (ov_value actual)\<bar>, fp_lower forecast \<le> ov_value actual \<and> ov_value actual \<le> fp_upper forecast))))"

definition rolling_origin_backtest :: "(int \<Rightarrow> instant) \<Rightarrow> observed_value list \<Rightarrow> int \<Rightarrow> backtest_result result" where
  "rolling_origin_backtest system_zone observations minimum_train =
     (if int (length observations) \<le> minimum_train then Inl (ValueError ''insufficient observations'')
      else
        rbind (rmap_list (backtest_fold system_zone observations) [minimum_train..int (length observations) - 1]) (\<lambda>folds.
        rbind (ddiv (dsum (map fst folds)) (of_nat (length folds))) (\<lambda>mae.
        rbind (ddiv (of_nat (length (filter snd folds))) (of_nat (length folds))) (\<lambda>coverage.
          Inr \<lparr>bt_mae = mae, bt_interval_coverage = coverage, bt_folds = int (length folds)\<rparr>))))"

section \<open>Features\<close>

record feature_row =
  fr_timestamp :: datetime
  fr_target :: decimal
  fr_lags :: "decimal list"
  fr_hour :: int
  fr_weekday :: int

definition feature_row_at :: "observed_value list \<Rightarrow> int list \<Rightarrow> nat \<Rightarrow> feature_row" where
  "feature_row_at ordered lag_steps index =
     (let ob = ordered ! index in
      \<lparr>fr_timestamp = ov_timestamp ob, fr_target = ov_value ob, fr_lags = map (\<lambda>lag. ov_value (ordered ! (index - nat lag))) lag_steps,
       fr_hour = fst (hour_minute (ov_timestamp ob)),
       fr_weekday = (dt_value (ov_timestamp ob) div day_micros + epoch_ordinal + 6) mod 7\<rparr>)"

definition build_lag_features ::
  "observed_value list \<Rightarrow> datetime \<Rightarrow> int list \<Rightarrow> timedelta option \<Rightarrow> feature_row list result" where
  "build_lag_features history cutoff lag_steps expected_step =
     (if \<not> is_aware cutoff \<or> (\<exists>ob \<in> set history. \<not> is_aware (ov_timestamp ob))
      then Inl (ValueError ''feature timestamps must be timezone-aware'')
      else if \<exists>s \<in> set lag_steps. s < 1 then Inl (ValueError ''lag steps must be positive'')
      else
        let ordered = sort_key (\<lambda>ob. dt_value (ov_timestamp ob)) history; times = map (\<lambda>ob. dt_value (ov_timestamp ob)) ordered in
        if \<not> distinct times then Inl (ValueError ''duplicate feature timestamps'')
        else if \<exists>t \<in> set times. t \<ge> dt_value cutoff then Inl (ValueError ''future-data leakage detected'')
        else if (case expected_step of None \<Rightarrow> False | Some s \<Rightarrow> \<exists>(l, r) \<in> set (zip times (drop 1 times)). r - l \<noteq> s)
        then Inl (ValueError ''feature history has an unexpected gap'')
        else
          let maximum = (if lag_steps = [] then 0 else Max (set lag_steps)) in
          Inr (map (feature_row_at ordered lag_steps) [nat maximum..<length ordered]))"

section \<open>Forecasts are well formed\<close>

lemma truncate_rat_bounds: "0 \<le> x \<Longrightarrow> x \<le> of_int n \<Longrightarrow> 0 \<le> truncate_rat x \<and> truncate_rat x \<le> n"
  by (auto simp: truncate_rat_def floor_le_iff)

lemma float_times_bounds:
  assumes "0 \<le> f" "4 * f \<le> of_nat k"
  shows "0 \<le> float_times n f" "float_times n f \<le> int (k * n)"
proof -
  let ?x = "to_double (of_nat n * to_double f)"
  have f: "0 \<le> to_double f" "to_double f \<le> 2 * f" using to_double_bounds [OF assms(1)] by simp_all
  then have "0 \<le> of_nat n * to_double f" by simp
  from to_double_bounds [OF this] have x: "0 \<le> ?x" "?x \<le> 2 * (of_nat n * to_double f)" by simp_all
  have "2 * (of_nat n * to_double f) \<le> of_nat n * (4 * f)" using mult_left_mono [OF f(2), of "of_nat n"] by (simp add: mult.commute mult.left_commute)
  also have "\<dots> \<le> of_nat n * of_nat k" using assms(2) by (intro mult_left_mono) simp_all
  finally have "?x \<le> of_int (int (k * n))" using x(2) by (simp add: mult.commute)
  from truncate_rat_bounds [OF x(1) this] show "0 \<le> float_times n f" "float_times n f \<le> int (k * n)"
    by (simp_all add: float_times_def)
qed

lemma float_times_eq:
  assumes "0 \<le> f" "of_int k \<le> of_nat n * f * (1 - 1 / 2 ^ 53) * (1 - 1 / 2 ^ 53)"
    and "of_nat n * f * (1 + 1 / 2 ^ 53) * (1 + 1 / 2 ^ 53) < of_int k + 1" and "0 \<le> k"
  shows "float_times n f = k"
proof -
  define e :: rat where "e = 1 / 2 ^ 53"
  have e: "0 \<le> e" "e \<le> 1" by (simp_all add: e_def)
  let ?y = "of_nat n * to_double f"
  have "\<bar>to_double f - f\<bar> \<le> f * e" using to_double_error [OF assms(1)] by (simp add: e_def)
  then have "f * (1 - e) \<le> to_double f" "to_double f \<le> f * (1 + e)" unfolding abs_le_iff by (simp_all add: algebra_simps)
  then have y: "of_nat n * f * (1 - e) \<le> ?y" "?y \<le> of_nat n * f * (1 + e)"
    by (simp_all add: mult.assoc mult_left_mono)
  have y0: "0 \<le> ?y" using to_double_bounds(1) [OF assms(1)] by simp
  have "\<bar>to_double ?y - ?y\<bar> \<le> ?y * e" using to_double_error [OF y0] by (simp add: e_def)
  then have z: "?y * (1 - e) \<le> to_double ?y" "to_double ?y \<le> ?y * (1 + e)" unfolding abs_le_iff by (simp_all add: algebra_simps)
  have "of_int k \<le> to_double ?y"
    using assms(2) [folded e_def] mult_right_mono [OF y(1), of "1 - e"] z(1) e by linarith
  moreover have "to_double ?y < of_int k + 1"
    using assms(3) [folded e_def] mult_right_mono [OF y(2), of "1 + e"] z(2) e by linarith
  ultimately have "\<lfloor>to_double ?y\<rfloor> = k" by (simp add: floor_eq_iff)
  then show ?thesis using to_double_bounds(1) [OF y0] by (simp add: float_times_def truncate_rat_def)
qed

definition horizon :: "datetime \<Rightarrow> int \<Rightarrow> timedelta \<Rightarrow> datetime list" where
  "horizon start periods step = map (\<lambda>i. dt_add start (int i * step)) [0..<nat periods]"

lemma horizon_values: "map dt_value (horizon start periods step) = map (\<lambda>i. dt_value start + int i * step) [0..<nat periods]"
  by (simp add: horizon_def comp_def)

lemma horizon_ordered:
  assumes "0 < step"
  shows "sort (remdups (map dt_value (horizon start periods step))) = map dt_value (horizon start periods step)"
proof -
  have "sorted (map dt_value (horizon start periods step))" "distinct (map dt_value (horizon start periods step))"
    using assms by (auto simp: horizon_values sorted_iff_nth_mono distinct_map inj_on_def intro: mult_right_mono)
  then show ?thesis by (simp add: distinct_remdups_id sorted_sort_id)
qed

lemma period_representable:
  assumes "representable start" "representable (dt_add start (periods * step))" "0 < step" "int i \<le> periods"
  shows "representable (dt_add start (int i * step))"
  using assms by (intro representable_between [OF assms(1,2)]) (simp_all add: mult_right_mono)

lemma over_periods_ok:
  assumes "representable start" "representable (dt_add start (periods * step))" "0 < step"
    and "\<And>t. \<exists>p. f t = Inr p \<and> fp_timestamp p = t \<and> P p"
  shows "\<exists>ps. over_periods start periods step f = Inr ps \<and> map fp_timestamp ps = horizon start periods step \<and> list_all P ps"
proof -
  have "\<exists>ps. rmap_list (\<lambda>i. rbind (dt_plus start (int i * step)) f) is = Inr ps \<and>
      map fp_timestamp ps = map (\<lambda>i. dt_add start (int i * step)) is \<and> list_all P ps"
    if "\<forall>i \<in> set is. int i \<le> periods" for "is"
    using that
  proof (induction "is")
    case (Cons i "is")
    then obtain ps where "rmap_list (\<lambda>i. rbind (dt_plus start (int i * step)) f) is = Inr ps"
      "map fp_timestamp ps = map (\<lambda>i. dt_add start (int i * step)) is" "list_all P ps" by auto
    moreover obtain p where "f (dt_add start (int i * step)) = Inr p" "fp_timestamp p = dt_add start (int i * step)" "P p"
      using assms(4) by blast
    moreover have "dt_plus start (int i * step) = Inr (dt_add start (int i * step))"
      using period_representable [OF assms(1-3), of i] Cons.prems by (simp add: dt_plus_def)
    ultimately show ?case by simp
  qed simp
  then show ?thesis unfolding over_periods_def horizon_def by (rule meta_mp) auto
qed

lemma over_periods_overflow:
  assumes "\<not> representable (dt_add start (periods * step))" "\<And>t. \<exists>p. f t = Inr p"
  shows "rbind (over_periods start periods step f) (\<lambda>ps. rbind (dt_plus start (periods * step)) (g ps)) =
    Inl (OverflowError ''date value out of range'')"
proof -
  have "rmap_list (\<lambda>i. rbind (dt_plus start (int i * step)) f) is \<in> range Inr \<union> {Inl (OverflowError ''date value out of range'')}" for "is"
  proof (induction "is")
    case (Cons i "is")
    obtain p where "f (dt_add start (int i * step)) = Inr p" using assms(2) by blast
    then show ?case using Cons by (auto simp: dt_plus_def)
  qed simp
  from this [of "[0..<nat periods]"] show ?thesis
    using assms(1) unfolding over_periods_def by (elim UnE rangeE) (simp_all add: dt_plus_def)
qed

definition season_values :: "observed_value list \<Rightarrow> datetime \<Rightarrow> decimal list" where
  \<comment> \<open>the values observed at this hour and minute, and the last value when there is none\<close>
  "season_values history t =
     (let vals = map ov_value (filter (\<lambda>ob. hour_minute (ov_timestamp ob) = hour_minute t) history)
      in if vals = [] then [ov_value (last history)] else vals)"

definition point_ok :: "string \<Rightarrow> observed_value list \<Rightarrow> forecast_point \<Rightarrow> bool" where
  \<comment> \<open>what a point of the model says\<close>
  "point_ok model history p \<longleftrightarrow>
     fp_lower p \<le> fp_point p \<and> fp_point p \<le> fp_upper p \<and>
     fp_quantiles p = [(''p10'', fp_lower p), (''p50'', fp_point p), (''p90'', fp_upper p)] \<and>
     (if model = ''persistence'' then
        fp_point p = ov_value (last history) \<and> fp_lower p \<in> ov_value ` set history \<and> fp_upper p \<in> ov_value ` set history
      else
        let vals = season_values history (fp_timestamp p); spread = dsub (Max (set vals)) (Min (set vals)) in
        fp_point p = dround (dsum vals / of_nat (length vals)) \<and>
        fp_lower p = dsub (fp_point p) spread \<and> fp_upper p = dadd (fp_point p) spread)"

lemma mk_bundle_horizon:
  assumes "0 < step" "map fp_timestamp (fb_points b) = horizon start periods step" "0 \<le> fb_quality b" "fb_quality b \<le> 1"
  shows "mk_bundle b = Inr b"
proof -
  have "\<not> ((\<exists>t \<in> set (map fp_timestamp (fb_points b)). is_aware t) \<and> (\<exists>t \<in> set (map fp_timestamp (fb_points b)). \<not> is_aware t))"
    unfolding assms(2) by (auto simp: horizon_def)
  moreover have "map dt_value (map fp_timestamp (fb_points b)) = sort (remdups (map dt_value (map fp_timestamp (fb_points b))))"
    unfolding assms(2) horizon_ordered [OF assms(1)] ..
  ultimately show ?thesis using assms(3,4) by (simp only: mk_bundle_def Let_def) simp
qed

definition bundle_ok :: "observed_value list \<Rightarrow> datetime \<Rightarrow> int \<Rightarrow> timedelta \<Rightarrow> string \<Rightarrow> string \<Rightarrow> decimal \<Rightarrow> forecast_bundle \<Rightarrow> bool" where
  \<comment> \<open>one point of the model per period, for the signal, with the quality of the model\<close>
  "bundle_ok history start periods step signal model quality b \<longleftrightarrow>
     map fp_timestamp (fb_points b) = map (\<lambda>i. dt_add start (int i * step)) [0..<nat periods] \<and>
     list_all (point_ok model history) (fb_points b) \<and> fb_quality b = quality \<and> fb_signal b = signal \<and>
     fb_generated_at b = start \<and> fb_valid_for b = (start, dt_add start (periods * step)) \<and>
     fb_lineage b = map (\<lambda>ob. isoformat (CHR ''T'') (ov_timestamp ob)) history"

lemma percentile_values:
  assumes "history \<noteq> []"
  obtains low high where "py_nth (sort (map ov_value history)) (max 0 (float_times (length history) (1 / 10) - 1)) = Inr low"
    "py_nth (sort (map ov_value history)) (min (int (length history) - 1) (float_times (length history) (9 / 10))) = Inr high"
    "low \<in> ov_value ` set history" "high \<in> ov_value ` set history"
proof -
  let ?ordered = "sort (map ov_value history)" and ?n = "length history"
  have n: "0 < ?n" using assms by simp
  have ft: "0 \<le> float_times ?n (1 / 10)" "float_times ?n (1 / 10) \<le> int ?n" "0 \<le> float_times ?n (9 / 10)"
    using float_times_bounds [of "1 / 10" 1 ?n] float_times_bounds [of "9 / 10" 4 ?n] by simp_all
  have nth: "\<exists>x. py_nth ?ordered i = Inr x \<and> x \<in> ov_value ` set history" if "0 \<le> i" "i < int ?n" for i
  proof -
    have "?ordered ! nat i \<in> set ?ordered" using that by (intro nth_mem) simp
    then show ?thesis using that by (simp add: py_nth_def)
  qed
  obtain low where "py_nth ?ordered (max 0 (float_times ?n (1 / 10) - 1)) = Inr low" "low \<in> ov_value ` set history"
    using nth [of "max 0 (float_times ?n (1 / 10) - 1)"] ft n by auto
  moreover obtain high where "py_nth ?ordered (min (int ?n - 1) (float_times ?n (9 / 10))) = Inr high" "high \<in> ov_value ` set history"
    using nth [of "min (int ?n - 1) (float_times ?n (9 / 10))"] ft n by (auto simp: min_less_iff_disj)
  ultimately show thesis using that by blast
qed

lemma persistence_ok:
  assumes "history \<noteq> []" "dt_ge (ov_timestamp (last history)) start = Inr False" "0 < step" "representable start"
  shows "if representable (dt_add start (periods * step))
    then \<exists>b. persistence_forecast zone history start periods step model signal = Inr b \<and> fb_fallback b = None \<and>
      bundle_ok history start periods step signal ''persistence'' (7 / 10) b
    else persistence_forecast zone history start periods step model signal = Inl (OverflowError ''date value out of range'')"
proof -
  obtain low high where nth: "py_nth (sort (map ov_value history)) (max 0 (float_times (length history) (1 / 10) - 1)) = Inr low"
    "py_nth (sort (map ov_value history)) (min (int (length history) - 1) (float_times (length history) (9 / 10))) = Inr high"
    and mem: "low \<in> ov_value ` set history" "high \<in> ov_value ` set history"
    by (rule percentile_values [OF assms(1)])
  define point where "point = ov_value (last history)"
  have last: "last (map ov_value history) = point" using assms(1) by (simp add: point_def last_map)
  define p where "p t = \<lparr>fp_timestamp = t, fp_point = point, fp_lower = min low point, fp_upper = max high point,
      fp_quantiles = [(''p10'', min low point), (''p50'', point), (''p90'', max high point)]\<rparr>" for t
  have made: "mk_point (p t) = Inr (p t)" for t by (simp add: mk_point_def p_def)
  have "point \<in> ov_value ` set history" using assms(1) by (simp add: point_def)
  then have ok: "point_ok ''persistence'' history (p t)" for t
    using mem by (simp add: point_ok_def p_def point_def [symmetric] min_def max_def)
  have run: "persistence_forecast zone history start periods step model signal =
    rbind (over_periods start periods step (\<lambda>t. mk_point (p t))) (\<lambda>points. rbind (dt_plus start (periods * step)) (\<lambda>finish.
      mk_bundle \<lparr>fb_id = bundle_id zone signal start, fb_signal = signal, fb_points = points, fb_model_version = model,
             fb_generated_at = start, fb_valid_for = (start, finish), fb_quality = 7 / 10,
             fb_lineage = map (\<lambda>ob. isoformat (CHR ''T'') (ov_timestamp ob)) history, fb_fallback = None\<rparr>))"
    using assms(1,2) nth by (simp add: persistence_forecast_def Let_def last p_def)
  show ?thesis
  proof (cases "representable (dt_add start (periods * step))")
    case True
    obtain ps where ps: "over_periods start periods step (\<lambda>t. mk_point (p t)) = Inr ps" "map fp_timestamp ps = horizon start periods step"
      "list_all (point_ok ''persistence'' history) ps"
      using over_periods_ok [OF assms(4) True assms(3), of "\<lambda>t. mk_point (p t)" "point_ok ''persistence'' history"] made ok
      by (auto simp: p_def)
    then show ?thesis
      using True by (simp add: run dt_plus_def mk_bundle_horizon [OF assms(3)] bundle_ok_def horizon_def)
  next
    case False
    then show ?thesis unfolding run by (simp add: over_periods_overflow [OF False] made)
  qed
qed

lemma seasons_values_aux:
  "dget (fold (\<lambda>ob d. dput (hour_minute (ov_timestamp ob)) (dget_or d (hour_minute (ov_timestamp ob)) [] @ [ov_value ob]) d) obs d) k =
   (case filter (\<lambda>ob. hour_minute (ov_timestamp ob) = k) obs of
      [] \<Rightarrow> dget d k | found \<Rightarrow> Some (dget_or d k [] @ map ov_value found))"
proof (induction obs arbitrary: d)
  case (Cons ob obs)
  have put: "dget_or (dput a v d) b x = (if b = a then v else dget_or d b x)" for a b and v x :: "decimal list"
    by (simp add: dget_or_def)
  show ?case
    by (cases "hour_minute (ov_timestamp ob) = k") (auto simp: Cons.IH put split: list.splits)
qed simp

lemma seasons_values: "dget_or (seasons history) (hour_minute t) [ov_value (last history)] = season_values history t"
proof -
  have "dget (seasons history) (hour_minute t) =
      (case filter (\<lambda>ob. hour_minute (ov_timestamp ob) = hour_minute t) history of [] \<Rightarrow> None | found \<Rightarrow> Some (map ov_value found))"
    unfolding seasons_def seasons_values_aux by (simp add: dget_or_def split: list.split)
  then show ?thesis by (simp add: dget_or_def season_values_def Let_def split: list.split)
qed

lemma seasonal_point_ok:
  obtains p where "seasonal_point (season_values history t) t = Inr p" "fp_timestamp p = t" "point_ok ''seasonal'' history p"
proof -
  define vals where "vals = season_values history t"
  have ne: "vals \<noteq> []" by (simp add: vals_def season_values_def Let_def)
  define point where "point = dround (dsum vals / of_nat (length vals))"
  define spread where "spread = dsub (Max (set vals)) (Min (set vals))"
  have "ddiv (dsum vals) (of_nat (length vals)) = Inr point" using ne by (simp add: ddiv_def point_def)
  moreover have "0 \<le> spread" using ne by (simp add: spread_def dsub_def)
  then have "dsub point spread \<le> point" "point \<le> dadd point spread"
    by (simp_all add: dsub_def dround_le_dec point_def dadd_increasing)
  ultimately show thesis
    by (intro that [of "\<lparr>fp_timestamp = t, fp_point = point, fp_lower = dsub point spread, fp_upper = dadd point spread,
         fp_quantiles = [(''p10'', dsub point spread), (''p50'', point), (''p90'', dadd point spread)]\<rparr>"])
      (simp_all add: seasonal_point_def vals_def [symmetric] spread_def [symmetric] mk_point_def point_ok_def Let_def point_def [symmetric])
qed

lemma seasonal_ok:
  assumes "history \<noteq> []" "dt_ge (ov_timestamp (last history)) start = Inr False" "0 < step" "representable start"
  shows "if representable (dt_add start (periods * step))
    then \<exists>b. seasonal_forecast zone history start periods step model signal = Inr b \<and> fb_fallback b = None \<and>
      bundle_ok history start periods step signal ''seasonal'' (8 / 10) b
    else seasonal_forecast zone history start periods step model signal = Inl (OverflowError ''date value out of range'')"
proof -
  let ?f = "\<lambda>t. seasonal_point (season_values history t) t"
  have ok: "\<exists>p. ?f t = Inr p \<and> fp_timestamp p = t \<and> point_ok ''seasonal'' history p" for t
    by (rule seasonal_point_ok [of history t]) blast
  have run: "seasonal_forecast zone history start periods step model signal =
    rbind (over_periods start periods step ?f) (\<lambda>points. rbind (dt_plus start (periods * step)) (\<lambda>finish.
      mk_bundle \<lparr>fb_id = bundle_id zone signal start, fb_signal = signal, fb_points = points, fb_model_version = model,
          fb_generated_at = start, fb_valid_for = (start, finish), fb_quality = 8 / 10,
          fb_lineage = map (\<lambda>ob. isoformat (CHR ''T'') (ov_timestamp ob)) history, fb_fallback = None\<rparr>))"
    using assms(1,2) by (simp add: seasonal_forecast_def Let_def seasons_values)
  show ?thesis
  proof (cases "representable (dt_add start (periods * step))")
    case True
    obtain ps where ps: "over_periods start periods step ?f = Inr ps" "map fp_timestamp ps = horizon start periods step"
      "list_all (point_ok ''seasonal'' history) ps"
      using over_periods_ok [OF assms(4) True assms(3), of ?f "point_ok ''seasonal'' history", OF ok] by blast
    then show ?thesis
      using True by (simp add: run dt_plus_def mk_bundle_horizon [OF assms(3)] bundle_ok_def horizon_def)
  next
    case False
    have "\<exists>p. ?f t = Inr p" for t using ok by blast
    with False show ?thesis unfolding run by (simp add: over_periods_overflow [OF False])
  qed
qed

text \<open>
  C39: What the forecast service answers when the history ends before the forecast starts, for every positive
  horizon and minimum quality. If the horizon ends within the range of datetimes (the year 9999), it
  returns a bundle for the signal with one point per period, at the start plus multiples of the step. The
  bundle is that of the preferred model unless the quality of that model (0.7 or 0.8) is below the
  minimum; then it is the persistence forecast, marked as a fallback, whose quality 0.7 is below the
  minimum as well. A point of the persistence model is the last observed value, between two observed
  values; a point of the seasonal model is the mean of the values observed at its hour and minute (the
  last value when there is none), give or take the difference between the largest and the smallest.
  If the horizon ends later, the answer is an \<open>OverflowError\<close>.
\<close>
theorem forecasts_answered:
  assumes "history \<noteq> []" and "dt_ge (ov_timestamp (last history)) start = Inr False" and "1 \<le> periods" and "0 < step"
    and "representable start" and "(preferred, q) \<in> {(''persistence'', 7 / 10), (''seasonal'', 8 / 10)}"
  shows "if representable (dt_add start (periods * step)) then
    \<exists>b. generate zone str_decimal minimum history start periods step signal preferred = Inr b \<and>
      (if minimum \<le> q then bundle_ok history start periods step signal preferred q b \<and> fb_fallback b = None
       else bundle_ok history start periods step signal ''persistence'' (7 / 10) b \<and> 7 / 10 < minimum \<and>
         fb_fallback b = Some (''quality_below_'' @ str_decimal minimum))
    else generate zone str_decimal minimum history start periods step signal preferred = Inl (OverflowError ''date value out of range'')"
proof -
  let ?model = "if preferred = ''persistence'' then persistence_forecast zone history start periods step ''persistence-1'' signal
               else if preferred = ''seasonal'' then seasonal_forecast zone history start periods step ''seasonal-1'' signal
               else Inl (ValueError (''unsupported forecast model '' @ preferred))"
  have positive: "\<not> (periods < 1 \<or> step \<le> 0)" using assms(3,4) by simp
  have model: "if representable (dt_add start (periods * step))
      then \<exists>b. ?model = Inr b \<and> fb_fallback b = None \<and> bundle_ok history start periods step signal preferred q b
      else ?model = Inl (OverflowError ''date value out of range'')"
    using assms(6) unfolding insert_iff empty_iff simp_thms prod.inject
  proof (elim disjE conjE)
    assume p: "preferred = ''persistence''" "q = 7 / 10"
    show ?thesis unfolding p using persistence_ok [OF assms(1,2,4,5), of periods zone "''persistence-1''" signal]
      by (cases "representable (dt_add start (periods * step))") simp_all
  next
    assume p: "preferred = ''seasonal''" "q = 8 / 10"
    show ?thesis unfolding p using seasonal_ok [OF assms(1,2,4,5), of periods zone "''seasonal-1''" signal]
      by (cases "representable (dt_add start (periods * step))") simp_all
  qed
  show ?thesis
  proof (cases "representable (dt_add start (periods * step))")
    case True
    obtain b where b: "?model = Inr b" "fb_fallback b = None" "bundle_ok history start periods step signal preferred q b"
      using model unfolding if_P [OF True] by (elim exE conjE)
    obtain f where f: "persistence_forecast zone history start periods step ''persistence-fallback-1'' signal = Inr f"
      "bundle_ok history start periods step signal ''persistence'' (7 / 10) f"
      using persistence_ok [OF assms(1,2,4,5), of periods zone "''persistence-fallback-1''" signal] unfolding if_P [OF True] by (elim exE conjE)
    have quality: "fb_quality b = q" "7 / 10 \<le> q" using b(3) assms(6) by (auto simp: bundle_ok_def)
    show ?thesis
    proof (cases "minimum \<le> q")
      case good: True
      then show ?thesis unfolding if_P [OF True] generate_def if_not_P [OF positive] b(1) using b quality by simp
    next
      case False
      let ?f = "f\<lparr>fb_fallback := Some (''quality_below_'' @ str_decimal minimum)\<rparr>"
      have made: "mk_bundle ?f = Inr ?f"
        using f(2) by (intro mk_bundle_horizon [OF assms(4), of _ start periods]) (auto simp: bundle_ok_def horizon_def)
      have "bundle_ok history start periods step signal ''persistence'' (7 / 10) ?f" using f(2) by (simp add: bundle_ok_def)
      then show ?thesis
        unfolding if_P [OF True] generate_def if_not_P [OF positive] b(1) using False quality made f(1) by simp
    qed
  next
    case False
    then show ?thesis using model unfolding if_not_P [OF False] generate_def if_not_P [OF positive] by simp
  qed
qed

definition two_readings :: "observed_value list" where
  "two_readings = [\<lparr>ov_timestamp = Aware 0, ov_value = 3\<rparr>, \<lparr>ov_timestamp = Aware 3600000000, ov_value = 5\<rparr>]"

theorem forecasts_answered_witness:
  "\<exists>b. generate (\<lambda>w. w) (\<lambda>_. ''0.9'') (9 / 10) two_readings (Aware 7200000000) 2 3600000000 ''load'' ''seasonal'' = Inr b \<and>
     length (fb_points b) = 2 \<and> fb_quality b = 7 / 10 \<and> fb_fallback b = Some ''quality_below_0.9'' \<and>
     list_all (point_ok ''persistence'' two_readings) (fb_points b)"
proof -
  obtain b where b: "generate (\<lambda>w. w) (\<lambda>_. ''0.9'') (9 / 10) two_readings (Aware 7200000000) 2 3600000000 ''load'' ''seasonal'' = Inr b"
    "bundle_ok two_readings (Aware 7200000000) 2 3600000000 ''load'' ''persistence'' (7 / 10) b" "fb_fallback b = Some ''quality_below_0.9''"
    using forecasts_answered [of two_readings "Aware 7200000000" 2 3600000000 "''seasonal''" "8 / 10" "\<lambda>w. w" "\<lambda>_. ''0.9''" "9 / 10" "''load''"]
    by (auto simp: two_readings_def representable_range)
  have "length (fb_points b) = 2" using arg_cong [of _ _ length, OF conjunct1 [OF b(2) [unfolded bundle_ok_def]]] by simp
  with b show ?thesis by (auto simp: bundle_ok_def)
qed

text \<open>
  Further: The leakage check looks at the last observation only. A history that is not in order passes it, and
  values observed after the start of the forecast shape the forecast: here the upper bound is the
  value of an observation at time 20 although the forecast starts at time 10.
\<close>
theorem unordered_history_leaks:
  "\<exists>b p. persistence_forecast zone [\<lparr>ov_timestamp = Aware 20, ov_value = 9\<rparr>, \<lparr>ov_timestamp = Aware 1, ov_value = 1\<rparr>] (Aware 10) 1 1 model signal =
     Inr b \<and> fb_points b = [p] \<and> fp_timestamp p = Aware 10 \<and> fp_upper p = 9"
proof -
  have f1: "float_times (Suc (Suc 0)) (1 / 10) = 0" by (rule float_times_eq) simp_all
  have f9: "float_times (Suc (Suc 0)) (9 / 10) = 1" by (rule float_times_eq) simp_all
  show ?thesis
    by (simp add: persistence_forecast_def Let_def f1 f9 py_nth_def over_periods_def dt_plus_def representable_range mk_point_def mk_bundle_def)
qed

section \<open>Backtest\<close>

lemma backtest_folds_nonneg:
  "rmap_list (backtest_fold zone obs) is = Inr folds \<Longrightarrow> (e, c) \<in> set folds \<Longrightarrow> 0 \<le> e"
  by (drule (1) rmap_list_set) (auto simp: backtest_fold_def rbind_eq_Inr)

text \<open>
  Further: A backtest that returns has one fold for each observation after the first \<open>minimum_train\<close>, a mean
  absolute error that is not negative and a coverage between 0 and 1.
\<close>
theorem backtest_bounds:
  assumes "rolling_origin_backtest zone observations minimum_train = Inr r"
  shows "0 \<le> bt_mae r \<and> 0 \<le> bt_interval_coverage r \<and> bt_interval_coverage r \<le> 1 \<and>
    bt_folds r = int (length observations) - minimum_train \<and> 0 < bt_folds r"
proof -
  obtain folds mae cov where folds: "rmap_list (backtest_fold zone observations) [minimum_train..int (length observations) - 1] = Inr folds"
    and mae: "ddiv (dsum (map fst folds)) (of_nat (length folds)) = Inr mae"
    and cov: "ddiv (of_nat (length (filter snd folds))) (of_nat (length folds)) = Inr cov"
    and r: "r = \<lparr>bt_mae = mae, bt_interval_coverage = cov, bt_folds = int (length folds)\<rparr>"
    and more: "minimum_train < int (length observations)"
    using assms by (auto simp: rolling_origin_backtest_def rbind_eq_Inr split: if_splits)
  have len: "int (length folds) = int (length observations) - minimum_train"
    using rmap_list_length [OF folds] more by simp
  have "0 \<le> dsum (map fst folds)" using backtest_folds_nonneg [OF folds] by (intro dsum_nonneg) auto
  then have "0 \<le> mae" using mae by (auto simp: ddiv_def split: if_splits)
  moreover have "0 \<le> cov" using cov by (auto simp: ddiv_def split: if_splits)
  moreover have "of_nat (length (filter snd folds)) / of_nat (length folds) \<le> (1 :: rat)"
    by (cases "folds = []") (simp_all add: divide_le_eq_1)
  then have "dround (of_nat (length (filter snd folds)) / of_nat (length folds)) \<le> dround 1" by (rule dround_mono)
  then have "cov \<le> 1" using cov by (auto simp: ddiv_def split: if_splits)
  ultimately show ?thesis using r len more by simp
qed

theorem backtest_bounds_witness:
  "\<exists>r. rolling_origin_backtest (\<lambda>w. w) two_readings 1 = Inr r \<and> bt_folds r = 1"
proof -
  have f1: "float_times (Suc 0) (1 / 10) = 0" by (rule float_times_eq) simp_all
  have f9: "float_times (Suc 0) (9 / 10) = 0" by (rule float_times_eq) simp_all
  obtain r where r: "rolling_origin_backtest (\<lambda>w. w) two_readings 1 = Inr r"
    by (simp add: rolling_origin_backtest_def backtest_fold_def two_readings_def py_nth_def py_take_def persistence_forecast_def Let_def
        f1 f9 over_periods_def dt_plus_def representable_range mk_point_def mk_bundle_def ddiv_def)
  from backtest_bounds [OF r] r show ?thesis by (auto simp: two_readings_def)
qed

section \<open>Features\<close>

text \<open>
  Further: Lag features do not leak the future. Every row is an observation from before the cutoff, and each of
  its lag values is the value of an observation that is strictly older than the row, namely the one
  the given number of steps back in the ordered history.
\<close>
theorem features_do_not_leak:
  assumes "build_lag_features history cutoff lag_steps expected_step = Inr rows" and "row \<in> set rows"
  shows "dt_value (fr_timestamp row) < dt_value cutoff \<and>
    (\<exists>ob \<in> set history. ov_timestamp ob = fr_timestamp row \<and> ov_value ob = fr_target row) \<and> length (fr_lags row) = length lag_steps \<and>
    (\<forall>v \<in> set (fr_lags row). \<exists>ob \<in> set history. ov_value ob = v \<and> dt_value (ov_timestamp ob) < dt_value (fr_timestamp row))"
proof -
  define ordered where "ordered = sort_key (\<lambda>ob. dt_value (ov_timestamp ob)) history"
  define top where "top = (if lag_steps = [] then 0 else Max (set lag_steps))"
  have dist: "distinct (map (\<lambda>ob. dt_value (ov_timestamp ob)) ordered)"
    and early: "\<And>ob. ob \<in> set ordered \<Longrightarrow> dt_value (ov_timestamp ob) < dt_value cutoff"
    and steps: "\<And>s. s \<in> set lag_steps \<Longrightarrow> 1 \<le> s"
    and rows: "rows = map (feature_row_at ordered lag_steps) [nat top..<length ordered]"
    using assms(1) by (auto simp: build_lag_features_def Let_def ordered_def top_def not_less not_le split: if_splits)
  have sorted: "sorted (map (\<lambda>ob. dt_value (ov_timestamp ob)) ordered)" by (simp add: ordered_def)
  have mem: "set ordered = set history" by (simp add: ordered_def)
  obtain i where i: "nat top \<le> i" "i < length ordered" "row = feature_row_at ordered lag_steps i" using assms(2) rows by auto
  have older: "dt_value (ov_timestamp (ordered ! (i - nat s))) < dt_value (ov_timestamp (ordered ! i))" if "s \<in> set lag_steps" for s
  proof -
    have "s \<le> top" using that by (auto simp: top_def)
    then have "i - nat s < i" using steps [OF that] i(1) by linarith
    moreover have "sorted_wrt (<) (map (\<lambda>ob. dt_value (ov_timestamp ob)) ordered)"
      using sorted dist by (simp add: strict_sorted_iff)
    ultimately show ?thesis using i(2) sorted_wrt_nth_less [of "(<)" "map (\<lambda>ob. dt_value (ov_timestamp ob)) ordered" "i - nat s" i] by simp
  qed
  have "ordered ! i \<in> set history" using i(2) mem nth_mem by blast
  moreover have "ordered ! (i - nat s) \<in> set history" for s using i(2) mem nth_mem [of "i - nat s" ordered] by auto
  ultimately show ?thesis
    using early [of "ordered ! i"] older mem by (auto simp: i(3) feature_row_at_def Let_def)
qed

theorem features_do_not_leak_witness:
  "\<exists>row. build_lag_features two_readings (Aware 7200000000) [1] None = Inr [row] \<and> fr_lags row = [3] \<and>
     dt_value (fr_timestamp row) < 7200000000"
proof -
  let ?row = "feature_row_at two_readings [1] 1"
  have sorted: "sort_key (\<lambda>ob. dt_value (ov_timestamp ob)) two_readings = two_readings" by (simp add: two_readings_def)
  have run: "build_lag_features two_readings (Aware 7200000000) [1] None = Inr [?row]"
    unfolding build_lag_features_def sorted Let_def by (simp add: two_readings_def)
  from features_do_not_leak [OF run, of ?row] have "dt_value (fr_timestamp ?row) < 7200000000" by simp
  with run show ?thesis by (intro exI [of _ ?row] conjI) (simp_all add: feature_row_at_def two_readings_def)
qed

end
