(* ===== verification/Model_Registry.thy ===== *)
theory Model_Registry
  imports Persistence Values
begin

text \<open>
  \<open>packages/forecasting/registry.py\<close>: the registry of model versions, in memory and on PostgreSQL (table
  \<open>model_versions\<close> with its unique index on the production version of a tenant's model). The rows that
  a transaction updates get its time \<open>now\<close>. Rows that were archived at the same time come in no
  particular order; here the first of them counts as the latest.
\<close>

section \<open>Versions\<close>

datatype model_stage = REGISTERED | STAGING | PRODUCTION | ARCHIVED

record model_version =
  mv_name :: string
  mv_version :: string
  mv_artifact_hash :: string
  mv_dataset_hash :: string
  mv_created_at :: datetime
  mv_stage :: model_stage

definition pair_repr :: "string \<times> string \<Rightarrow> string" where
  "pair_repr p = ''('' @ repr_string (fst p) @ '', '' @ repr_string (snd p) @ '')''"

section \<open>In memory\<close>

record model_registry =
  mr_models :: "(string \<times> string, model_version) dict"
  mr_history :: "(string, string list) dict"

definition registry_init :: model_registry where
  "registry_init = \<lparr>mr_models = [], mr_history = []\<rparr>"

definition register_memory :: "model_version \<Rightarrow> model_registry \<Rightarrow> unit result \<times> model_registry" where
  "register_memory model st =
     (let key = (mv_name model, mv_version model) in
      if key \<in> set (dkeys (mr_models st)) then (Inl (ValueError ''model version already exists''), st)
      else (Inr (), st\<lparr>mr_models := dput key model (mr_models st)\<rparr>))"

definition archive_production :: "string \<Rightarrow> model_version \<Rightarrow> model_version" where
  "archive_production name m = (if mv_name m = name \<and> mv_stage m = PRODUCTION then m\<lparr>mv_stage := ARCHIVED\<rparr> else m)"

definition promote_memory :: "string \<Rightarrow> string \<Rightarrow> model_registry \<Rightarrow> model_version result \<times> model_registry" where
  "promote_memory name version st =
     (case key_of (mr_models st) pair_repr (name, version) of
        Inl e \<Rightarrow> (Inl e, st)
      | Inr model \<Rightarrow>
          let models = map (\<lambda>(k, m). (k, archive_production name m)) (mr_models st);
              promoted = model\<lparr>mv_stage := PRODUCTION\<rparr>
          in (Inr promoted,
              st\<lparr>mr_models := dput (name, version) promoted models,
                 mr_history := dput name (dget_or (mr_history st) name [] @ [version]) (mr_history st)\<rparr>))"

definition rollback_memory :: "string \<Rightarrow> model_registry \<Rightarrow> model_version result \<times> model_registry" where
  \<comment> \<open>\<open>history.pop()\<close> changes the list in the dictionary\<close>
  "rollback_memory name st =
     (let history = dget_or (mr_history st) name [] in
      if length history < 2 then (Inl (ValueError ''no previous production model''), st)
      else
        let rest = butlast history; st = st\<lparr>mr_history := dput name rest (mr_history st)\<rparr>
        in promote_memory name (last rest) st)"

definition production_memory :: "string \<Rightarrow> model_registry \<Rightarrow> model_version result" where
  "production_memory name st =
     (case filter (\<lambda>m. mv_name m = name \<and> mv_stage m = PRODUCTION) (dvalues (mr_models st)) of
        [] \<Rightarrow> Inl (KeyError (repr_string name)) | m # _ \<Rightarrow> Inr m)"

section \<open>On PostgreSQL\<close>

record model_row =
  mw_artifact_hash :: string
  mw_dataset_hash :: string
  mw_stage :: model_stage
  mw_created_at :: datetime
  mw_updated_at :: instant

type_synonym model_key = "string \<times> string \<times> string"
type_synonym model_db = "(model_key, model_row) dict"

definition model_from_row :: "model_key \<Rightarrow> model_row \<Rightarrow> model_version" where
  "model_from_row k row =
     \<lparr>mv_name = fst (snd k), mv_version = snd (snd k), mv_artifact_hash = mw_artifact_hash row,
      mv_dataset_hash = mw_dataset_hash row, mv_created_at = mw_created_at row, mv_stage = mw_stage row\<rparr>"

definition registry_connection ::
  "model_db pool_exit \<Rightarrow> string option \<Rightarrow> model_db \<Rightarrow> (string \<Rightarrow> model_db \<Rightarrow> 'a result \<times> model_db) \<Rightarrow> 'a result \<times> model_db" where
  "registry_connection px tenant_id db body =
     (case tenant_id of
        None \<Rightarrow> (Inl (ValueError ''tenant_id is required for persistent model registry''), db)
      | Some t \<Rightarrow>
          if t = [] then (Inl (ValueError ''tenant_id is required for persistent model registry''), db)
          else tenant_connection px t db (body t))"

definition in_production :: "string \<Rightarrow> string \<Rightarrow> model_key \<times> model_row \<Rightarrow> bool" where
  "in_production t name e \<longleftrightarrow> fst (fst e) = t \<and> fst (snd (fst e)) = name \<and> mw_stage (snd e) = PRODUCTION"

definition register_pg :: "model_db pool_exit \<Rightarrow> instant \<Rightarrow> model_version \<Rightarrow> string option \<Rightarrow> model_db \<Rightarrow> unit result \<times> model_db" where
  "register_pg px now model tenant_id db =
     registry_connection px tenant_id db (\<lambda>t db.
       let key = (t, mv_name model, mv_version model) in
       if key \<in> set (dkeys db) then (Inl (ValueError ''model version already exists''), db)
       else if mv_stage model = PRODUCTION \<and> (\<exists>e \<in> set db. in_production t (mv_name model) e)
       then (Inl (RuntimeError ''duplicate key value violates unique constraint''), db)
       else (Inr (), dput key \<lparr>mw_artifact_hash = mv_artifact_hash model, mw_dataset_hash = mv_dataset_hash model,
               mw_stage = mv_stage model, mw_created_at = mv_created_at model, mw_updated_at = now\<rparr> db))"

definition archive_rows :: "instant \<Rightarrow> string \<Rightarrow> string \<Rightarrow> model_db \<Rightarrow> model_db" where
  "archive_rows now t name db =
     map (\<lambda>e. if in_production t name e then (fst e, snd e\<lparr>mw_stage := ARCHIVED, mw_updated_at := now\<rparr>) else e) db"

definition switch_production :: "instant \<Rightarrow> string \<Rightarrow> string \<Rightarrow> string \<Rightarrow> model_db \<Rightarrow> model_version result \<times> model_db" where
  \<comment> \<open>the row of the version is read and locked; the production row is archived and the version promoted\<close>
  "switch_production now t name version db =
     (let key = (t, name, version) in
      case dget db key of
        None \<Rightarrow> (Inl (KeyError (pair_repr (name, version))), db)
      | Some _ \<Rightarrow>
          let db = archive_rows now t name db in
          case dget db key of
            None \<Rightarrow> (Inl (RuntimeError ''model promotion returned no model''), db)
          | Some row \<Rightarrow>
              let row = row\<lparr>mw_stage := PRODUCTION, mw_updated_at := now\<rparr> in
              (Inr (model_from_row key row), dput key row db))"

definition promote_pg ::
  "model_db pool_exit \<Rightarrow> instant \<Rightarrow> string \<Rightarrow> string \<Rightarrow> string option \<Rightarrow> model_db \<Rightarrow> model_version result \<times> model_db" where
  "promote_pg px now name version tenant_id db = registry_connection px tenant_id db (\<lambda>t. switch_production now t name version)"

definition archived_rows :: "string \<Rightarrow> string \<Rightarrow> model_db \<Rightarrow> (model_key \<times> model_row) list" where
  "archived_rows t name db = filter (\<lambda>e. fst (fst e) = t \<and> fst (snd (fst e)) = name \<and> mw_stage (snd e) = ARCHIVED) db"

definition rollback_pg :: "model_db pool_exit \<Rightarrow> instant \<Rightarrow> string \<Rightarrow> string option \<Rightarrow> model_db \<Rightarrow> model_version result \<times> model_db" where
  "rollback_pg px now name tenant_id db =
     registry_connection px tenant_id db (\<lambda>t db.
       case archived_rows t name db of
         [] \<Rightarrow> (Inl (ValueError ''no previous production model''), db)
       | e # es \<Rightarrow> switch_production now t name (snd (snd (fst (first_max (\<lambda>e. mw_updated_at (snd e)) e es)))) db)"

definition production_pg :: "model_db pool_exit \<Rightarrow> string \<Rightarrow> string option \<Rightarrow> model_db \<Rightarrow> model_version result" where
  "production_pg px name tenant_id db =
     fst (registry_connection px tenant_id db (\<lambda>t db.
       (case filter (in_production t name) db of
          [] \<Rightarrow> Inl (KeyError (repr_string name)) | e # _ \<Rightarrow> Inr (model_from_row (fst e) (snd e)), db)))"

section \<open>One production version\<close>

inductive model_step :: "model_db pool_exit \<Rightarrow> model_db \<Rightarrow> model_db \<Rightarrow> bool" for px where
  register: "register_pg px now model t db = (r, db') \<Longrightarrow> model_step px db db'"
| promote: "promote_pg px now name version t db = (r, db') \<Longrightarrow> model_step px db db'"
| rollback: "rollback_pg px now name t db = (r, db') \<Longrightarrow> model_step px db db'"

definition one_production :: "model_db \<Rightarrow> bool" where
  "one_production db \<longleftrightarrow> distinct (dkeys db) \<and>
     (\<forall>t name. \<forall>e \<in> set db. \<forall>e' \<in> set db. in_production t name e \<longrightarrow> in_production t name e' \<longrightarrow> fst e = fst e')"

lemma one_productionD:
  "one_production db \<Longrightarrow> e \<in> set db \<Longrightarrow> e' \<in> set db \<Longrightarrow> in_production t name e \<Longrightarrow> in_production t name e' \<Longrightarrow> fst e = fst e'"
  unfolding one_production_def by blast

lemma one_production_distinct: "one_production db \<Longrightarrow> distinct (dkeys db)"
  unfolding one_production_def by blast

lemma archive_rows_keys [simp]: "dkeys (archive_rows now t name db) = dkeys db"
  by (simp add: archive_rows_def comp_def if_distrib [of fst])

lemma archive_rows_mem:
  "e \<in> set (archive_rows now t name db) \<Longrightarrow>
     \<not> in_production t name e \<and> (\<exists>e0 \<in> set db. fst e0 = fst e \<and> (e = e0 \<or> mw_stage (snd e) = ARCHIVED))"
proof -
  assume "e \<in> set (archive_rows now t name db)"
  then obtain e0 where e0: "e0 \<in> set db"
    and e: "e = (if in_production t name e0 then (fst e0, snd e0\<lparr>mw_stage := ARCHIVED, mw_updated_at := now\<rparr>) else e0)"
    unfolding archive_rows_def set_map by blast
  show ?thesis
  proof (cases "in_production t name e0")
    case True
    then show ?thesis using e0 e by (auto simp: in_production_def)
  next
    case False
    then show ?thesis using e0 e by auto
  qed
qed

lemma registry_connection_outcome:
  assumes "pool_contract px" "registry_connection px tenant_id db body = (r, db')"
  obtains (refused) e where "r = Inl e" "db' = db"
    | (ran) t v where "tenant_id = Some t" "valid_tenant t" "r = Inr v" "body t db = (Inr v, db')"
proof (cases r)
  case (Inl e)
  then have "db' = db"
    using assms by (auto simp: registry_connection_def dest: tenant_connection_rollback split: option.splits if_splits)
  with Inl refused show ?thesis by blast
next
  case (Inr v)
  then show ?thesis
    using assms ran by (auto simp: registry_connection_def tenant_connection_commit split: option.splits if_splits)
qed

lemma switch_production_outcome:
  assumes "switch_production now t name version db = (Inr m, db')"
  obtains row where "dget (archive_rows now t name db) (t, name, version) = Some row"
    "db' = dput (t, name, version) (row\<lparr>mw_stage := PRODUCTION, mw_updated_at := now\<rparr>) (archive_rows now t name db)"
    "m = model_from_row (t, name, version) (row\<lparr>mw_stage := PRODUCTION, mw_updated_at := now\<rparr>)"
  using assms by (auto simp: switch_production_def Let_def split: option.splits)

lemma switch_production_inv:
  assumes "one_production db" "switch_production now t name version db = (Inr m, db')"
  shows "one_production db'"
proof -
  let ?k = "(t, name, version)"
  obtain row where db': "db' = dput ?k (row\<lparr>mw_stage := PRODUCTION, mw_updated_at := now\<rparr>) (archive_rows now t name db)"
    using assms(2) by (rule switch_production_outcome)
  have old: "e \<in> set db' \<Longrightarrow> in_production u n e \<Longrightarrow> fst e = ?k \<and> u = t \<and> n = name \<or> e \<in> set db \<and> (u, n) \<noteq> (t, name)" for e u n
  proof -
    assume "e \<in> set db'" and prod: "in_production u n e"
    then consider "fst e = ?k" | "e \<in> set (archive_rows now t name db)"
      using dput_entries [of "fst e" "snd e" ?k] unfolding db' by fastforce
    then show ?thesis
    proof cases
      case 1
      then show ?thesis using prod by (auto simp: in_production_def)
    next
      case 2
      then show ?thesis using archive_rows_mem [OF 2] prod by (auto simp: in_production_def)
    qed
  qed
  have "fst e = fst e'" if "e \<in> set db'" "e' \<in> set db'" "in_production u n e" "in_production u n e'" for e e' u n
  proof (cases "u = t \<and> n = name")
    case True
    then show ?thesis using old [OF that(1,3)] old [OF that(2,4)] by simp
  next
    case False
    then have "e \<in> set db" "e' \<in> set db" using old [OF that(1,3)] old [OF that(2,4)] by blast+
    then show ?thesis by (rule one_productionD [OF assms(1) _ _ that(3,4)])
  qed
  moreover have "distinct (dkeys db')"
    using assms(1) unfolding db' one_production_def by (intro dput_distinct) simp
  ultimately show ?thesis unfolding one_production_def by (intro conjI allI ballI impI)
qed

lemma model_step_inv:
  assumes px: "pool_contract px" and inv: "one_production db" and step: "model_step px db db'"
  shows "one_production db'"
  using step
proof cases
  case (register now model t r)
  from px register [unfolded register_pg_def] show ?thesis
  proof (cases rule: registry_connection_outcome)
    case (ran t' v)
    then have new: "(t', mv_name model, mv_version model) \<notin> set (dkeys db)"
      and free: "mv_stage model = PRODUCTION \<longrightarrow> (\<forall>e \<in> set db. \<not> in_production t' (mv_name model) e)"
      and db': "db' = db @ [((t', mv_name model, mv_version model), \<lparr>mw_artifact_hash = mv_artifact_hash model, mw_dataset_hash = mv_dataset_hash model,
               mw_stage = mv_stage model, mw_created_at = mv_created_at model, mw_updated_at = now\<rparr>)]"
      by (auto simp: Let_def dput_fresh split: if_splits)
    let ?e = "((t', mv_name model, mv_version model), \<lparr>mw_artifact_hash = mv_artifact_hash model, mw_dataset_hash = mv_dataset_hash model,
               mw_stage = mv_stage model, mw_created_at = mv_created_at model, mw_updated_at = now\<rparr>)"
    have only: "\<not> in_production u n e" if "in_production u n ?e" "e \<in> set db" for u n e
      using that free by (auto simp: in_production_def)
    have "fst e = fst e'" if "e \<in> set db'" "e' \<in> set db'" "in_production u n e" "in_production u n e'" for e e' u n
    proof -
      have "set db' = insert ?e (set db)" by (simp add: db')
      then have "e = ?e \<or> e \<in> set db" "e' = ?e \<or> e' \<in> set db" using that(1,2) by simp_all
      then consider "e = ?e" "e' = ?e" | "e \<in> set db" "e' \<in> set db" | "e = ?e" "e' \<in> set db" | "e \<in> set db" "e' = ?e"
        by (elim disjE)
      then show ?thesis
      proof cases
        case 2
        then show ?thesis by (rule one_productionD [OF inv _ _ that(3,4)])
      next
        case 3
        then show ?thesis using only [of u n e'] that(3,4) by simp
      next
        case 4
        then show ?thesis using only [of u n e] that(3,4) by simp
      qed simp
    qed
    moreover have "distinct (dkeys db')" using one_production_distinct [OF inv] new by (simp add: db')
    ultimately show ?thesis unfolding one_production_def by (intro conjI allI ballI impI)
  qed (use inv in simp)
next
  case (promote now name version t r)
  from px promote [unfolded promote_pg_def] show ?thesis
    by (cases rule: registry_connection_outcome) (use inv switch_production_inv in auto)
next
  case (rollback now name t r)
  from px rollback [unfolded rollback_pg_def] show ?thesis
    by (cases rule: registry_connection_outcome) (use inv switch_production_inv in \<open>auto split: list.splits\<close>)
qed

locale pg_models = psycopg px for px :: "model_db pool_exit"

sublocale pg_models \<subseteq> registry: safe_system "[]" "model_step px" one_production
proof
  show "one_production []" by (simp add: one_production_def)
qed (rule model_step_inv [OF contract])

context pg_models
begin

lemmas one_production_reachable = registry.inv_reachable

end

interpretation default_models: pg_models commit_or_rollback
  by unfold_locales

lemma pg_modelsI: "pool_contract px \<Longrightarrow> pg_models px"
  by unfold_locales

lemma production_row_unique:
  assumes inv: "one_production db" and e: "e \<in> set db" "in_production t name e"
  shows "filter (in_production t name) db = [e]"
proof -
  have dist: "distinct (dkeys (filter (in_production t name) db))"
    using one_production_distinct [OF inv] by (rule distinct_map_filter_intro)
  have "fst x = fst e" if "x \<in> set (filter (in_production t name) db)" for x
    using that e one_productionD [OF inv, of x e t name] by simp
  then have "set (dkeys (filter (in_production t name) db)) \<subseteq> {fst e}" by auto
  then have "length (filter (in_production t name) db) \<le> 1"
    using distinct_card [OF dist] card_mono [of "{fst e}" "set (dkeys (filter (in_production t name) db))"] by simp
  moreover have "e \<in> set (filter (in_production t name) db)" using e by simp
  ultimately show ?thesis by (cases "filter (in_production t name) db") auto
qed

lemma production_pg_row:
  assumes "one_production db" "e \<in> set db" "in_production t name e" "valid_tenant t"
  shows "production_pg px name (Some t) db = Inr (model_from_row (fst e) (snd e))"
  using assms(4) production_row_unique [OF assms(1-3)]
  by (simp add: production_pg_def registry_connection_def tenant_connection_fst valid_tenant_def)

lemma archive_rows_get:
  "fst k \<noteq> t \<or> fst (snd k) \<noteq> name \<Longrightarrow> dget (archive_rows now t name db) k = dget db k"
  unfolding archive_rows_def by (induction db) (auto simp: in_production_def)

lemma production_row_at_most_one:
  assumes "one_production db"
  shows "length (filter (in_production t name) db) \<le> 1"
proof (cases "filter (in_production t name) db")
  case (Cons e es)
  then have "e \<in> set db" "in_production t name e" using filter_eq_ConsD [OF Cons] by auto
  from production_row_unique [OF assms this] show ?thesis by simp
qed simp

lemma switch_production_effect:
  assumes inv: "one_production db" and t: "valid_tenant t" and switch: "switch_production now t name version db = (Inr m, db')"
  shows "production_pg px name (Some t) db' = Inr m \<and> mv_version m = version \<and> mv_stage m = PRODUCTION \<and>
    length (filter (in_production t name) db') = 1 \<and>
    (\<forall>k. fst k \<noteq> t \<or> fst (snd k) \<noteq> name \<longrightarrow> dget db' k = dget db k)"
proof -
  have inv': "one_production db'" by (rule switch_production_inv [OF inv switch])
  obtain row where m: "m = model_from_row (t, name, version) (row\<lparr>mw_stage := PRODUCTION, mw_updated_at := now\<rparr>)"
    and db': "db' = dput (t, name, version) (row\<lparr>mw_stage := PRODUCTION, mw_updated_at := now\<rparr>) (archive_rows now t name db)"
    using switch by (rule switch_production_outcome)
  let ?e = "((t, name, version), row\<lparr>mw_stage := PRODUCTION, mw_updated_at := now\<rparr>)"
  have "dget db' (t, name, version) = Some (row\<lparr>mw_stage := PRODUCTION, mw_updated_at := now\<rparr>)" by (simp add: db')
  then have mem: "?e \<in> set db'" by (rule dget_entry)
  have prod: "in_production t name ?e" by (simp add: in_production_def)
  have "production_pg px name (Some t) db' = Inr m"
    using production_pg_row [OF inv' mem prod t] by (simp add: m)
  moreover have "length (filter (in_production t name) db') = 1"
    using production_row_unique [OF inv' mem prod] by simp
  moreover have "dget db' k = dget db k" if "fst k \<noteq> t \<or> fst (snd k) \<noteq> name" for k
    using that archive_rows_get [OF that, of now db] by (auto simp: db')
  ultimately show ?thesis by (simp add: m model_from_row_def)
qed

lemma rollback_pg_switches:
  assumes px: "pool_contract px" and run: "rollback_pg px now name (Some t) db = (Inr m, db')"
  obtains version row where "valid_tenant t" "switch_production now t name version db = (Inr m, db')"
    "((t, name, version), row) \<in> set db" "mw_stage row = ARCHIVED"
proof -
  obtain e es where t: "valid_tenant t" and rows: "archived_rows t name db = e # es"
    and switch: "switch_production now t name (snd (snd (fst (first_max (\<lambda>e. mw_updated_at (snd e)) e es)))) db = (Inr m, db')"
    using px run [unfolded rollback_pg_def] by (auto elim!: registry_connection_outcome split: list.splits)
  have "first_max (\<lambda>e. mw_updated_at (snd e)) e es \<in> set (archived_rows t name db)"
    unfolding rows by (rule first_max_in)
  then have "((t, name, snd (snd (fst (first_max (\<lambda>e. mw_updated_at (snd e)) e es)))), snd (first_max (\<lambda>e. mw_updated_at (snd e)) e es)) \<in> set db"
    "mw_stage (snd (first_max (\<lambda>e. mw_updated_at (snd e)) e es)) = ARCHIVED"
    by (auto simp: archived_rows_def)
  with t switch that show ?thesis by blast
qed

text \<open>
  C30: A model has at most one production version. In every database that registrations, promotions and
  rollbacks lead to, a tenant has at most one production row for each model name. A promotion that succeeds on
  such a database makes exactly the given version the production version, as \<open>production\<close> then reports, and
  leaves all other models and tenants as they were; a rollback that succeeds does the same with a version
  that was archived.
\<close>
theorem one_production_version:
  assumes px: "pool_contract px" and reach: "(model_step px)\<^sup>*\<^sup>* [] db"
  shows "(\<forall>t name. length (filter (in_production t name) db) \<le> 1) \<and>
    (\<forall>now name version t m db'. promote_pg px now name version (Some t) db = (Inr m, db') \<longrightarrow>
      production_pg px name (Some t) db' = Inr m \<and> mv_version m = version \<and> mv_stage m = PRODUCTION \<and>
      length (filter (in_production t name) db') = 1 \<and>
      (\<forall>k. fst k \<noteq> t \<or> fst (snd k) \<noteq> name \<longrightarrow> dget db' k = dget db k)) \<and>
    (\<forall>now name t m db'. rollback_pg px now name (Some t) db = (Inr m, db') \<longrightarrow>
      (\<exists>row. ((t, name, mv_version m), row) \<in> set db \<and> mw_stage row = ARCHIVED) \<and>
      production_pg px name (Some t) db' = Inr m \<and> mv_stage m = PRODUCTION \<and>
      length (filter (in_production t name) db') = 1 \<and>
      (\<forall>k. fst k \<noteq> t \<or> fst (snd k) \<noteq> name \<longrightarrow> dget db' k = dget db k))"
proof -
  have inv: "one_production db" by (rule pg_models.one_production_reachable [OF pg_modelsI [OF px] reach])
  have promoted: "production_pg px name (Some t) db' = Inr m \<and> mv_version m = version \<and> mv_stage m = PRODUCTION \<and>
      length (filter (in_production t name) db') = 1 \<and> (\<forall>k. fst k \<noteq> t \<or> fst (snd k) \<noteq> name \<longrightarrow> dget db' k = dget db k)"
    if run: "promote_pg px now name version (Some t) db = (Inr m, db')" for now name version t m db'
  proof -
    have "valid_tenant t" "switch_production now t name version db = (Inr m, db')"
      using px run [unfolded promote_pg_def] by (auto elim: registry_connection_outcome)
    then show ?thesis by (rule switch_production_effect [OF inv])
  qed
  have rolled: "(\<exists>row. ((t, name, mv_version m), row) \<in> set db \<and> mw_stage row = ARCHIVED) \<and>
      production_pg px name (Some t) db' = Inr m \<and> mv_stage m = PRODUCTION \<and>
      length (filter (in_production t name) db') = 1 \<and> (\<forall>k. fst k \<noteq> t \<or> fst (snd k) \<noteq> name \<longrightarrow> dget db' k = dget db k)"
    if run: "rollback_pg px now name (Some t) db = (Inr m, db')" for now name t m db'
  proof (rule rollback_pg_switches [OF px run])
    fix version row
    assume t: "valid_tenant t" and switch: "switch_production now t name version db = (Inr m, db')"
      and row: "((t, name, version), row) \<in> set db" "mw_stage row = ARCHIVED"
    note effect = switch_production_effect [OF inv t switch, of px]
    then have "mv_version m = version" by (elim conjE)
    with row effect show ?thesis by (intro conjI exI) simp_all
  qed
  show ?thesis
    by (intro conjI [OF _ conjI] allI) (rule production_row_at_most_one [OF inv], rule impI, erule promoted, rule impI, erule rolled)
qed

definition example_model :: "string \<Rightarrow> model_version" where
  "example_model v = \<lparr>mv_name = ''load'', mv_version = v, mv_artifact_hash = ''a'', mv_dataset_hash = ''d'', mv_created_at = Aware 0, mv_stage = REGISTERED\<rparr>"

definition example_registry :: model_db where
  "example_registry = snd (register_pg commit_or_rollback 0 (example_model ''v1'') (Some ''t1'') [])"

lemma example_registry_rows:
  "example_registry = [((''t1'', ''load'', ''v1''), \<lparr>mw_artifact_hash = ''a'', mw_dataset_hash = ''d'', mw_stage = REGISTERED,
     mw_created_at = Aware 0, mw_updated_at = 0\<rparr>)]"
  by (simp add: example_registry_def register_pg_def registry_connection_def tenant_connection_def connection_def commit_or_rollback_def
      example_model_def Let_def)

theorem one_production_version_witness:
  "\<exists>m db'. promote_pg commit_or_rollback 5 ''load'' ''v1'' (Some ''t1'') example_registry = (Inr m, db') \<and>
     production_pg commit_or_rollback ''load'' (Some ''t1'') db' = Inr m"
proof -
  have reach: "(model_step commit_or_rollback)\<^sup>*\<^sup>* [] example_registry"
    unfolding example_registry_def by (rule r_into_rtranclp, rule model_step.register [OF prod.collapse [symmetric]])
  obtain m db' where run: "promote_pg commit_or_rollback 5 ''load'' ''v1'' (Some ''t1'') example_registry = (Inr m, db')"
    by (simp add: promote_pg_def registry_connection_def tenant_connection_def connection_def commit_or_rollback_def switch_production_def
        example_registry_rows archive_rows_def in_production_def Let_def)
  from one_production_version [OF commit_or_rollback_contract reach, THEN conjunct2, THEN conjunct1, rule_format, OF run, THEN conjunct1] run
  show ?thesis by (intro exI conjI)
qed

section \<open>How far back a rollback goes\<close>

text \<open>
  Further: In memory, repeated rollbacks get stuck: a rollback pops the history and the promotion it ends with
  appends the version again, so the next rollback promotes the same version once more, however long
  the history is.
\<close>
theorem memory_rollback_stuck:
  assumes "rollback_memory name st = (Inr m, st')"
  shows "\<exists>st''. rollback_memory name st' = (Inr m, st'') \<and> dget (mr_history st'') name = dget (mr_history st') name"
proof -
  define rest where "rest = butlast (dget_or (mr_history st) name [])"
  have ne: "rest \<noteq> []" and run: "promote_memory name (last rest) (st\<lparr>mr_history := dput name rest (mr_history st)\<rparr>) = (Inr m, st')"
    using assms by (auto simp: rollback_memory_def rest_def Let_def split: if_splits) (metis One_nat_def length_butlast length_0_conv diff_is_0_eq not_less_eq_eq numeral_2_eq_2 not_less)
  obtain model where model: "dget (mr_models st) (name, last rest) = Some model" "m = model\<lparr>mv_stage := PRODUCTION\<rparr>"
    and history: "dget (mr_history st') name = Some (rest @ [last rest])"
    and models: "dget (mr_models st') (name, last rest) = Some m"
    using run by (auto simp: promote_memory_def key_of_def Let_def dget_or_def split: option.splits)
  have "butlast (rest @ [last rest]) = rest" by simp
  then show ?thesis
    using ne history models model(2)
    by (auto simp: rollback_memory_def promote_memory_def key_of_def dget_or_def Let_def Suc_le_eq not_less numeral_2_eq_2 length_greater_0_conv)
qed

definition three_promoted :: model_registry where
  "three_promoted = snd (promote_memory ''load'' ''v3'' (snd (promote_memory ''load'' ''v2'' (snd (promote_memory ''load'' ''v1''
     (fold (\<lambda>v st. snd (register_memory (example_model v) st)) [''v1'', ''v2'', ''v3''] registry_init))))))"

theorem memory_rollback_stuck_witness:
  "\<exists>m st' st''. rollback_memory ''load'' three_promoted = (Inr m, st') \<and> mv_version m = ''v2'' \<and> rollback_memory ''load'' st' = (Inr m, st'')"
proof -
  have "fst (rollback_memory ''load'' three_promoted) = Inr ((example_model ''v2'')\<lparr>mv_stage := PRODUCTION\<rparr>)" by code_simp
  then obtain st' where run: "rollback_memory ''load'' three_promoted = (Inr ((example_model ''v2'')\<lparr>mv_stage := PRODUCTION\<rparr>), st')"
    by (metis prod.collapse)
  from memory_rollback_stuck [OF run] run show ?thesis by (auto simp: example_model_def)
qed

text \<open>
  Further: On PostgreSQL, two rollbacks in a row undo each other: the first archives the production version and
  so makes it the one that was archived last, and the second promotes it again.
\<close>
theorem pg_rollback_twice:
  assumes px: "pool_contract px" and reach: "(model_step px)\<^sup>*\<^sup>* [] db"
    and before: "production_pg px name (Some t) db = Inr p" and clock: "\<forall>e \<in> set db. mw_updated_at (snd e) < now"
    and run: "rollback_pg px now name (Some t) db = (Inr m, db1)"
  shows "\<exists>m2 db2. rollback_pg px now2 name (Some t) db1 = (Inr m2, db2) \<and> mv_version m2 = mv_version p"
proof -
  have inv: "one_production db" by (rule pg_models.one_production_reachable [OF pg_modelsI [OF px] reach])
  obtain version where t: "valid_tenant t" and switch: "switch_production now t name version db = (Inr m, db1)"
    and version: "\<exists>e \<in> set db. fst e = (t, name, version) \<and> mw_stage (snd e) = ARCHIVED"
  proof -
    obtain e es where arch: "archived_rows t name db = e # es" and t: "valid_tenant t"
      and sw: "switch_production now t name (snd (snd (fst (first_max (\<lambda>e. mw_updated_at (snd e)) e es)))) db = (Inr m, db1)"
      using px run [unfolded rollback_pg_def] by (auto elim!: registry_connection_outcome split: list.splits)
    let ?f = "first_max (\<lambda>e. mw_updated_at (snd e)) e es"
    have "?f \<in> set (archived_rows t name db)" unfolding arch by (rule first_max_in)
    then have "?f \<in> set db" "fst ?f = (t, name, snd (snd (fst ?f)))" "mw_stage (snd ?f) = ARCHIVED"
      by (auto simp: archived_rows_def prod_eq_iff)
    with t sw that show thesis by blast
  qed
  obtain row where db1: "db1 = dput (t, name, version) (row\<lparr>mw_stage := PRODUCTION, mw_updated_at := now\<rparr>) (archive_rows now t name db)"
    using switch by (rule switch_production_outcome)
  obtain ep where ep: "ep \<in> set db" "in_production t name ep" "mv_version p = snd (snd (fst ep))"
  proof -
    obtain ep eps where "filter (in_production t name) db = ep # eps" "p = model_from_row (fst ep) (snd ep)"
      using before t by (auto simp: production_pg_def registry_connection_def tenant_connection_fst valid_tenant_def split: list.splits)
    moreover from arg_cong [OF this(1), of set] have "ep \<in> set db" "in_production t name ep" by auto
    ultimately show thesis using that by (simp add: model_from_row_def)
  qed
  have key: "fst ep = (t, name, mv_version p)" using ep by (auto simp: in_production_def prod_eq_iff)
  have dist: "distinct (dkeys db)" by (rule one_production_distinct [OF inv])
  have other: "fst ep \<noteq> (t, name, version)"
  proof
    assume same: "fst ep = (t, name, version)"
    obtain e where e: "e \<in> set db" "fst e = fst ep" "mw_stage (snd e) = ARCHIVED" using version same by auto
    then have "(fst ep, snd e) \<in> set db" "(fst ep, snd ep) \<in> set db" using ep(1) by (metis prod.collapse)+
    then have "snd e = snd ep" by (rule eq_key_imp_eq_value [OF dist])
    then show False using e(3) ep(2) by (simp add: in_production_def)
  qed
  let ?x = "(fst ep, snd ep\<lparr>mw_stage := ARCHIVED, mw_updated_at := now\<rparr>)"
  have "?x \<in> set (archive_rows now t name db)"
    unfolding archive_rows_def set_map using ep by (intro image_eqI [of _ _ ep]) simp_all
  then have "dget (archive_rows now t name db) (fst ep) = Some (snd ?x)"
    using dist dget_distinct_iff [of "archive_rows now t name db" "fst ep" "snd ?x"] by simp
  then have x: "dget db1 (fst ep) = Some (snd ?x)" using other by (simp add: db1)
  then have "?x \<in> set (archived_rows t name db1)"
    using dget_entry [OF x] ep(2) by (simp add: archived_rows_def in_production_def)
  moreover have late: "fst y = fst ep" if "y \<in> set (archived_rows t name db1)" "now \<le> mw_updated_at (snd y)" for y
  proof -
    have y: "y \<in> set db1" "mw_stage (snd y) = ARCHIVED" using that(1) by (auto simp: archived_rows_def)
    then have "y \<in> set (archive_rows now t name db)"
      using dput_entries [of "fst y" "snd y" "(t, name, version)"] unfolding db1 by fastforce
    then obtain e0 where e0: "e0 \<in> set db"
      and ye: "y = (if in_production t name e0 then (fst e0, snd e0\<lparr>mw_stage := ARCHIVED, mw_updated_at := now\<rparr>) else e0)"
      unfolding archive_rows_def set_map by blast
    show ?thesis
    proof (cases "in_production t name e0")
      case True
      then have "fst e0 = fst ep" by (rule one_productionD [OF inv e0 ep(1) _ ep(2)])
      then show ?thesis using True ye by simp
    next
      case False
      then show ?thesis using clock e0 ye that(2) by fastforce
    qed
  qed
  ultimately obtain e es where arch: "archived_rows t name db1 = e # es" by (cases "archived_rows t name db1") auto
  let ?f = "first_max (\<lambda>e. mw_updated_at (snd e)) e es"
  have "?f \<in> set (archived_rows t name db1)" unfolding arch by (rule first_max_in)
  moreover have "mw_updated_at (snd ?x) \<le> mw_updated_at (snd ?f)"
    by (rule first_max_ge) (use \<open>?x \<in> set (archived_rows t name db1)\<close> arch in simp)
  ultimately have f: "fst ?f = fst ep" using late [of ?f] by simp
  have "dget (archive_rows now2 t name db1) (t, name, mv_version p) \<noteq> None"
    using x unfolding key dget_None_keys archive_rows_keys by (metis dget_None_keys option.distinct(1))
  then obtain row' where row': "dget (archive_rows now2 t name db1) (t, name, mv_version p) = Some row'" by blast
  have "\<exists>m2 db2. switch_production now2 t name (snd (snd (fst ?f))) db1 = (Inr m2, db2) \<and> mv_version m2 = mv_version p"
    using x row' by (simp add: switch_production_def f key Let_def model_from_row_def)
  then show ?thesis
    using t arch by (auto simp: rollback_pg_def registry_connection_def tenant_connection_eq [OF px] valid_tenant_def)
qed

definition two_promoted :: model_db where
  "two_promoted = snd (promote_pg commit_or_rollback 3 ''load'' ''v2'' (Some ''t1'') (snd (promote_pg commit_or_rollback 2 ''load'' ''v1'' (Some ''t1'')
     (snd (register_pg commit_or_rollback 1 (example_model ''v2'') (Some ''t1'') example_registry)))))"

lemma two_promoted_reachable: "(model_step commit_or_rollback)\<^sup>*\<^sup>* [] two_promoted"
  unfolding two_promoted_def example_registry_def
  by (rule rtranclp.rtrancl_into_rtrancl, rule rtranclp.rtrancl_into_rtrancl, rule rtranclp.rtrancl_into_rtrancl, rule r_into_rtranclp,
      rule model_step.register [OF prod.collapse [symmetric]], rule model_step.register [OF prod.collapse [symmetric]],
      rule model_step.promote [OF prod.collapse [symmetric]], rule model_step.promote [OF prod.collapse [symmetric]])

theorem pg_rollback_twice_witness:
  "\<exists>m db1 m2 db2. rollback_pg commit_or_rollback 4 ''load'' (Some ''t1'') two_promoted = (Inr m, db1) \<and> mv_version m = ''v1'' \<and>
     rollback_pg commit_or_rollback 5 ''load'' (Some ''t1'') db1 = (Inr m2, db2) \<and> mv_version m2 = ''v2''"
proof -
  let ?p = "(example_model ''v2'')\<lparr>mv_stage := PRODUCTION\<rparr>" and ?m = "(example_model ''v1'')\<lparr>mv_stage := PRODUCTION\<rparr>"
  have before: "production_pg commit_or_rollback ''load'' (Some ''t1'') two_promoted = Inr ?p" by code_simp
  have clock: "\<forall>e \<in> set two_promoted. mw_updated_at (snd e) < 4" by code_simp
  have "fst (rollback_pg commit_or_rollback 4 ''load'' (Some ''t1'') two_promoted) = Inr ?m" by code_simp
  then obtain db1 where run: "rollback_pg commit_or_rollback 4 ''load'' (Some ''t1'') two_promoted = (Inr ?m, db1)" by (metis prod.collapse)
  obtain m2 db2 where "rollback_pg commit_or_rollback 5 ''load'' (Some ''t1'') db1 = (Inr m2, db2)" "mv_version m2 = mv_version ?p"
    using pg_rollback_twice [OF commit_or_rollback_contract two_promoted_reachable before clock run] by blast
  with run show ?thesis by (auto simp: example_model_def)
qed

end
