(* ===== verification/Evidence.thy ===== *)
theory Evidence
  imports Json_Reader Datetimes
begin

text \<open>
  Evidence files of \<open>packages/certification/evidence.py\<close>: a JSON document, a sidecar with its SHA-256
  digest and a JUnit report. The files are a map from paths to their text; a path is the list of its
  components. \<open>sha256\<close> (the hexadecimal digest), the version of the interpreter and the clock are arguments.
  Writing succeeds: the temporary file that \<open>_atomic_write\<close> renames is not seen by any reader.

  The lemmas: a document that was written verifies and reads back with its metadata
  (\<open>load_evidence_write\<close>), and writing one document leaves the others as they are
  (\<open>load_evidence_frame\<close>).
\<close>

section \<open>Files\<close>

type_synonym path = "string list"
type_synonym files = "(path, string) dict"

definition path_name :: "path \<Rightarrow> string" where
  "path_name p = last p"

definition add_suffix :: "path \<Rightarrow> string \<Rightarrow> path" where
  "add_suffix p suffix = butlast p @ [last p @ suffix]"

definition is_file :: "files \<Rightarrow> path \<Rightarrow> bool" where
  "is_file fs p \<longleftrightarrow> dget fs p \<noteq> None"

definition sidecar_path :: "path \<Rightarrow> path" where
  "sidecar_path p = add_suffix p ''.sha256''"

definition junit_path :: "path \<Rightarrow> path" where
  "junit_path p = add_suffix p ''.junit.xml''"

section \<open>Documents\<close>

definition canonical_json :: "json_object \<Rightarrow> string" where
  "canonical_json document = json_compact (PDict document) @ [CHR 0x0A]"

definition content_sha256 :: "(string \<Rightarrow> string) \<Rightarrow> json_object \<Rightarrow> string" where
  "content_sha256 sha256 document = sha256 (canonical_json document)"

definition dicts_in :: "pyval list \<Rightarrow> json_object list" where
  \<comment> \<open>\<open>[item for item in values if isinstance(item, dict)]\<close>\<close>
  "dicts_in vs = concat (map (\<lambda>v. case v of PDict d \<Rightarrow> [d] | _ \<Rightarrow> []) vs)"

definition status_check :: "string \<Rightarrow> string" where
  "status_check status =
     dget_or [(''CERTIFIED'', ''PASS''), (''NOT_CERTIFIED'', ''FAIL''), (''PENDING_EXTERNAL_EVIDENCE'', ''NOT_RUN''),
              (''SIGNED'', ''PASS'')] status status"

definition checks :: "json_object \<Rightarrow> json_object list" where
  "checks document =
     (case dget document ''checks'' of Some (PList vs) \<Rightarrow> dicts_in vs
      | _ \<Rightarrow> (case dget document ''results'' of Some (PList vs) \<Rightarrow> dicts_in vs
      | _ \<Rightarrow> (case dget document ''gates'' of
                Some (PList vs) \<Rightarrow>
                  map (\<lambda>i. [(''name'', dget_or i ''name'' (PStr ''gate'')),
                            (''status'', PStr (if dget i ''passed'' = Some (PBool True) then ''PASS'' else ''FAIL'')),
                            (''reason'', dget_or i ''reason'' PNone)]) (dicts_in vs)
              | _ \<Rightarrow>
                  [[(''name'', PStr ''gate''),
                    (''status'', PStr (status_check (py_str (dget_or document ''status'' (PStr ''FAIL''))))) ]])))"

definition xml_text :: "string \<Rightarrow> string" where
  "xml_text s = concat (map (\<lambda>c. dget_or [(CHR ''&'', ''&amp;''), (CHR ''<'', ''&lt;''), (CHR ''>'', ''&gt;'')] c [c]) s)"

definition xml_attributes :: "(string \<times> string) list \<Rightarrow> string" where
  "xml_attributes kvs =
     concat (map (\<lambda>(k, v). '' '' @ k @ ''='' @ [CHR 0x22] @
       concat (map (\<lambda>c. dget_or [(CHR ''&'', ''&amp;''), (CHR ''<'', ''&lt;''), (CHR ''>'', ''&gt;''), (CHR 0x22, ''&quot;''),
         (CHR 0x0D, ''&#13;''), (CHR 0x0A, ''&#10;''), (CHR 0x09, ''&#09;'')] c [c]) v) @ [CHR 0x22]) kvs)"

definition xml_element :: "string \<Rightarrow> (string \<times> string) list \<Rightarrow> string \<Rightarrow> string" where
  \<comment> \<open>\<open>ElementTree\<close> writes an element without content as an empty tag\<close>
  "xml_element tag attributes content =
     ''<'' @ tag @ xml_attributes attributes @ (if content = [] then '' />'' else ''>'' @ content @ ''</'' @ tag @ ''>'')"

definition value_or :: "pyval option \<Rightarrow> pyval \<Rightarrow> pyval" where
  \<comment> \<open>\<open>document.get(key) or default\<close>\<close>
  "value_or v d = (case v of Some x \<Rightarrow> if truthy x then x else d | None \<Rightarrow> d)"

definition testcase :: "string \<Rightarrow> nat \<times> json_object \<Rightarrow> string" where
  "testcase suite_name indexed =
     (case indexed of (index, i) \<Rightarrow>
      let name = py_str (value_or (dget i ''name'') (value_or (dget i ''kind'') (PStr (''check-'' @ string_of_nat (index + 1)))));
          reason = py_str (value_or (dget i ''reason'') (PStr []));
          body = (if dget i ''status'' = Some (PStr ''FAIL'')
                  then xml_element ''failure'' [(''message'', if reason = [] then ''gate failed'' else reason)] (xml_text reason)
                  else if dget i ''status'' = Some (PStr ''NOT_RUN'')
                  then xml_element ''skipped'' [(''message'', if reason = [] then ''gate not run'' else reason)] []
                  else [])
      in xml_element ''testcase'' [(''classname'', suite_name), (''name'', name)] body)"

definition write_junit :: "path \<Rightarrow> json_object \<Rightarrow> string \<Rightarrow> files \<Rightarrow> files" where
  "write_junit p document suite_name fs =
     (let cs = checks document;
          number = (\<lambda>status. string_of_nat (length (filter (\<lambda>i. dget i ''status'' = Some (PStr status)) cs)));
          suite = xml_element ''testsuite''
            [(''name'', suite_name), (''tests'', string_of_nat (length cs)), (''failures'', number ''FAIL''), (''errors'', ''0''),
             (''skipped'', number ''NOT_RUN'')] (concat (map (testcase suite_name) (List.enumerate 0 cs)))
      in dput p (''<?xml version='' @ [CHR 0x27] @ ''1.0'' @ [CHR 0x27] @ '' encoding='' @ [CHR 0x27] @ ''utf-8'' @ [CHR 0x27] @ ''?>'' @
           [CHR 0x0A] @ suite @ [CHR 0x0A]) fs)"

definition enrich :: "string \<Rightarrow> datetime \<Rightarrow> string \<Rightarrow> json_object \<Rightarrow> json_object" where
  "enrich python timestamp command document =
     (let put = (\<lambda>k v d. dput k (dget_or document k v) d); time = PStr (isoformat (CHR ''T'') timestamp) in
      dput ''evidence_meta''
        (PDict [(''schema_version'', PStr ''1.0.0''), (''generated_at'', time), (''command'', PStr command)])
      (put ''tool_versions'' (PDict [(''python'', PStr python), (''computeweaver'', PStr ''0.1.0'')])
      (put ''result'' (dget_or document ''status'' (PStr ''FAIL''))
      (put ''command'' (PStr command)
      (put ''generated_at'' time
      (put ''git_commit'' (dget_or document ''source_revision'' PNone)
      (put ''batch'' (PStr ''B20'') document)))))))"

definition write_evidence ::
  "(string \<Rightarrow> string) \<Rightarrow> string \<Rightarrow> datetime \<Rightarrow> path \<Rightarrow> json_object \<Rightarrow> string \<Rightarrow> string \<Rightarrow> files \<Rightarrow> string \<times> files" where
  "write_evidence sha256 python timestamp p document command suite_name fs =
     (let enriched = enrich python timestamp command document;
          content = canonical_json enriched;
          digest = sha256 content;
          fs = dput p content fs;
          fs = dput (sidecar_path p) (digest @ ''  '' @ path_name p @ [CHR 0x0A]) fs;
          fs = write_junit (junit_path p) enriched suite_name fs
      in (digest, fs))"

definition split_once :: "string \<Rightarrow> string list" where
  \<comment> \<open>\<open>text.strip().split(maxsplit=1)\<close>\<close>
  "split_once s =
     (let s = strip s; word = takeWhile (\<lambda>c. \<not> is_space c) s; rest = lstrip (dropWhile (\<lambda>c. \<not> is_space c) s)
      in if word = [] then [] else if rest = [] then [word] else [word, rest])"

definition verify_evidence :: "(string \<Rightarrow> string) \<Rightarrow> files \<Rightarrow> path \<Rightarrow> bool \<times> string option" where
  "verify_evidence sha256 fs p =
     (case (dget fs p, dget fs (sidecar_path p)) of
        (Some content, Some sidecar) \<Rightarrow>
          (case split_once sidecar of
             [expected, filename] \<Rightarrow>
               if strip filename \<noteq> path_name p \<or> length expected \<noteq> 64 then (False, Some ''evidence SHA-256 sidecar is malformed'')
               else if sha256 content \<noteq> expected then (False, Some ''evidence SHA-256 mismatch'')
               else (case json_loads content of
                       Inl _ \<Rightarrow> (False, Some ''evidence document could not be parsed'')
                     | Inr document \<Rightarrow>
                         (case document of
                            PDict d \<Rightarrow>
                              (case dget d ''evidence_meta'' of
                                 Some (PDict m) \<Rightarrow>
                                   if dget m ''schema_version'' = Some (PStr ''1.0.0'') then (True, None)
                                   else (False, Some ''evidence metadata is missing'')
                               | _ \<Rightarrow> (False, Some ''evidence metadata is missing''))
                          | _ \<Rightarrow> (False, Some ''evidence metadata is missing'')))
           | _ \<Rightarrow> (False, Some ''evidence document could not be parsed''))
      | _ \<Rightarrow> (False, Some ''evidence document or SHA-256 sidecar is missing''))"

definition read_json :: "files \<Rightarrow> path \<Rightarrow> pyval result" where
  \<comment> \<open>\<open>json.loads(path.read_text(encoding="utf-8"))\<close>\<close>
  "read_json fs p = (case dget fs p of None \<Rightarrow> Inl (OSError ''No such file or directory'') | Some s \<Rightarrow> json_loads s)"

definition load_verified :: "(string \<Rightarrow> string) \<Rightarrow> files \<Rightarrow> path \<Rightarrow> json_object result" where
  "load_verified sha256 fs p =
     (case verify_evidence sha256 fs p of
        (True, _) \<Rightarrow>
          rbind (read_json fs p) (\<lambda>document.
            case document of
              PDict d \<Rightarrow> Inr d
            | _ \<Rightarrow> Inl (ValueError ''certification repository document must be an object''))
      | (False, err) \<Rightarrow>
          Inl (ValueError (''certification repository integrity check failed: '' @ (case err of Some e \<Rightarrow> e | None \<Rightarrow> ''None''))))"

section \<open>Reading and writing\<close>

definition digest_ok :: "(string \<Rightarrow> string) \<Rightarrow> bool" where
  \<comment> \<open>a hexadecimal digest: 64 characters, none of them white space\<close>
  "digest_ok sha256 \<longleftrightarrow> (\<forall>s. length (sha256 s) = 64 \<and> list_all (\<lambda>c. \<not> is_space c) (sha256 s))"

definition plain_name :: "string \<Rightarrow> bool" where
  "plain_name s \<longleftrightarrow> s \<noteq> [] \<and> list_all (\<lambda>c. \<not> is_space c) s"

lemma dropWhile_all: "list_all (\<lambda>c. \<not> P c) s \<Longrightarrow> dropWhile P s = s"
  by (cases s) auto

lemma split_once_sidecar:
  assumes "plain_name d" "plain_name n"
  shows "split_once (d @ ''  '' @ n @ [CHR 0x0A]) = [d, n]" "strip n = n"
proof -
  have nl: "is_space CHR 0x0A" "is_space CHR '' ''" by (simp_all add: is_space_def)
  have rev: "list_all (\<lambda>c. \<not> is_space c) (rev n)" using assms(2) by (simp add: plain_name_def list_all_iff)
  show "strip n = n" using dropWhile_all [OF rev] dropWhile_all [of is_space n] assms(2)
    by (simp add: strip_def lstrip_def plain_name_def)
  obtain c d' where d: "d = c # d'" "\<not> is_space c" using assms(1) by (cases d) (auto simp: plain_name_def)
  have strip: "strip (d @ ''  '' @ n @ [CHR 0x0A]) = d @ ''  '' @ n"
  proof -
    obtain e n' where n: "rev n = e # n'" "\<not> is_space e" using rev assms(2) by (cases "rev n") (auto simp: plain_name_def)
    have "dropWhile is_space (rev (d @ ''  '' @ n)) = rev (d @ ''  '' @ n)" using n by simp
    with d nl show ?thesis by (simp add: strip_def lstrip_def)
  qed
  have "takeWhile (\<lambda>c. \<not> is_space c) (d @ ''  '' @ n) = d" "dropWhile (\<lambda>c. \<not> is_space c) (d @ ''  '' @ n) = ''  '' @ n"
    using assms(1) nl by (simp_all add: plain_name_def list_all_iff takeWhile_tail)
  moreover have "lstrip (''  '' @ n) = n" using nl dropWhile_all [of is_space n] assms(2) by (simp add: lstrip_def plain_name_def)
  ultimately show "split_once (d @ ''  '' @ n @ [CHR 0x0A]) = [d, n]"
    using assms strip by (simp add: split_once_def Let_def plain_name_def)
qed

lemma enrich_ok: "json_ok (PDict document) \<Longrightarrow> json_ok (PDict (enrich python timestamp command document))"
proof -
  assume ok: "json_ok (PDict document)"
  have put: "json_ok (PDict (dput k v d))" if "json_ok (PDict d)" "json_ok v" for k v d
    using that by (auto simp: list_all_iff dest!: dput_entries)
  have get: "json_ok (dget_or document k v)" if "json_ok v" for k v
    using that ok by (auto simp: dget_or_def list_all_iff split: option.splits dest!: dget_entry)
  show ?thesis unfolding enrich_def Let_def by (intro put get ok) simp_all
qed

lemma dget_put_default: "dget document k = Some v \<Longrightarrow> dget d k = Some v \<Longrightarrow> dget (dput k' (dget_or document k' w) d) k = Some v"
  by (auto simp: dget_or_def)

lemma dget_enrich:
  "dget document k = Some v \<Longrightarrow> k \<noteq> ''evidence_meta'' \<Longrightarrow> dget (enrich python timestamp command document) k = Some v"
  "dget document k = None \<Longrightarrow> k \<notin> {''evidence_meta'', ''tool_versions'', ''result'', ''command'', ''generated_at'', ''git_commit'', ''batch''} \<Longrightarrow>
     dget (enrich python timestamp command document) k = None"
proof -
  assume get: "dget document k = Some v" and k: "k \<noteq> ''evidence_meta''"
  have meta: "dget (dput ''evidence_meta'' x d) k = dget d k" for x d using k by simp
  show "dget (enrich python timestamp command document) k = Some v"
    unfolding enrich_def Let_def meta by (intro dget_put_default get)
qed (simp add: enrich_def Let_def)

lemma dget_enrich_meta:
  "dget (enrich python timestamp command document) ''evidence_meta'' =
     Some (PDict [(''schema_version'', PStr ''1.0.0''), (''generated_at'', PStr (isoformat (CHR ''T'') timestamp)), (''command'', PStr command)])"
  by (simp add: enrich_def Let_def)

definition stored_document :: "string \<Rightarrow> datetime \<Rightarrow> string \<Rightarrow> json_object \<Rightarrow> json_object" where
  \<comment> \<open>what reading gives back: the document with its metadata, in the order of the keys\<close>
  "stored_document python timestamp command document =
     map (\<lambda>(k, v). (k, json_value True v)) (sort_key fst (enrich python timestamp command document))"

lemma stored_document_value: "json_value True (PDict (enrich python timestamp command document)) = PDict (stored_document python timestamp command document)"
  by (simp add: stored_document_def json_value_members del: json_value.simps)

lemma stored_document_ok: "json_ok (PDict document) \<Longrightarrow> json_ok (PDict (stored_document python timestamp command document))"
  unfolding stored_document_value [symmetric] by (intro json_value_ok enrich_ok)

lemma dget_stored:
  assumes "json_ok (PDict document)"
  shows "dget (stored_document python timestamp command document) k = map_option (json_value True) (dget (enrich python timestamp command document) k)"
  using dget_json_value(1) [OF _ stored_document_value] enrich_ok [OF assms] by simp

lemma dget_stored_Some:
  assumes "json_ok (PDict document)" "dget document k = Some v" "k \<noteq> ''evidence_meta''"
  shows "dget (stored_document python timestamp command document) k = Some (json_value True v)"
  by (simp add: dget_stored [OF assms(1)] dget_enrich(1) [OF assms(2,3)])

definition evidence_path :: "path \<Rightarrow> bool" where
  "evidence_path p \<longleftrightarrow> p \<noteq> [] \<and> plain_name (last p) \<and> (\<exists>b. last p = b @ ''.json'')"

lemma evidence_path_last: "evidence_path p \<Longrightarrow> last (last p) = CHR ''n''"
  by (auto simp: evidence_path_def)

lemma suffix_paths:
  "last (last (sidecar_path p)) = CHR ''6''" "last (last (junit_path p)) = CHR ''l''"
  by (simp_all add: sidecar_path_def junit_path_def add_suffix_def)

lemma sidecar_inject: "p \<noteq> [] \<Longrightarrow> q \<noteq> [] \<Longrightarrow> sidecar_path p = sidecar_path q \<longleftrightarrow> p = q"
  unfolding sidecar_path_def add_suffix_def by (metis append_butlast_last_id append_same_eq butlast_snoc last_snoc)

lemma evidence_paths_differ:
  assumes "evidence_path p" "evidence_path q"
  shows "sidecar_path p \<noteq> q" "junit_path p \<noteq> q" "junit_path p \<noteq> sidecar_path q"
  using evidence_path_last [OF assms(2)] suffix_paths(1) [of p] suffix_paths(2) [of p] suffix_paths(1) [of q] by auto

lemma dget_write_evidence:
  assumes "evidence_path p" "evidence_path q"
  shows "dget (snd (write_evidence sha256 python timestamp p document command suite fs)) q =
      (if q = p then Some (canonical_json (enrich python timestamp command document)) else dget fs q)"
    and "dget (snd (write_evidence sha256 python timestamp p document command suite fs)) (sidecar_path q) =
      (if q = p then Some (sha256 (canonical_json (enrich python timestamp command document)) @ ''  '' @ path_name p @ [CHR 0x0A])
       else dget fs (sidecar_path q))"
  using evidence_paths_differ [OF assms] evidence_paths_differ [OF assms(2,1)] evidence_paths_differ [OF assms(1,1)] sidecar_inject [of p q] assms
  by (auto simp: write_evidence_def write_junit_def Let_def evidence_path_def)

lemma read_canonical:
  "json_ok (PDict document) \<Longrightarrow> json_loads (canonical_json (enrich python timestamp command document)) =
     Inr (PDict (stored_document python timestamp command document))"
  unfolding canonical_json_def stored_document_value [symmetric] by (intro json_loads_compact(2) enrich_ok)

lemma load_evidence_write:
  assumes "digest_ok sha256" "evidence_path p" "json_ok (PDict document)"
  shows "load_verified sha256 (snd (write_evidence sha256 python timestamp p document command suite fs)) p =
      Inr (stored_document python timestamp command document)"
    and "verify_evidence sha256 (snd (write_evidence sha256 python timestamp p document command suite fs)) p = (True, None)"
    and "read_json (snd (write_evidence sha256 python timestamp p document command suite fs)) p =
      Inr (PDict (stored_document python timestamp command document))"
proof -
  let ?fs = "snd (write_evidence sha256 python timestamp p document command suite fs)"
  let ?c = "canonical_json (enrich python timestamp command document)"
  have names: "plain_name (sha256 ?c)" "plain_name (path_name p)" "length (sha256 ?c) = 64"
    using assms(1,2) by (auto simp: digest_ok_def plain_name_def evidence_path_def path_name_def simp flip: length_greater_0_conv)
  have files: "dget ?fs p = Some ?c" "dget ?fs (sidecar_path p) = Some (sha256 ?c @ ''  '' @ path_name p @ [CHR 0x0A])"
    using dget_write_evidence [OF assms(2,2)] by simp_all
  have meta: "dget (stored_document python timestamp command document) ''evidence_meta'' =
      Some (json_value True (PDict [(''schema_version'', PStr ''1.0.0''), (''generated_at'', PStr (isoformat (CHR ''T'') timestamp)), (''command'', PStr command)]))"
    by (simp add: dget_stored [OF assms(3)] dget_enrich_meta)
  obtain m where m: "json_value True (PDict [(''schema_version'', PStr ''1.0.0''), (''generated_at'', PStr (isoformat (CHR ''T'') timestamp)), (''command'', PStr command)]) = PDict m"
    by simp
  have version: "dget m ''schema_version'' = Some (PStr ''1.0.0'')" using dget_json_value(1) [OF _ m, of "''schema_version''"] by simp
  show verify: "verify_evidence sha256 ?fs p = (True, None)"
    unfolding verify_evidence_def files split_once_sidecar(1) [OF names(1,2)] option.case prod.case list.case
      split_once_sidecar(2) [OF names(1,2)] read_canonical [OF assms(3)]
    by (simp add: meta m version names(3) del: json_value.simps)
  show read: "read_json ?fs p = Inr (PDict (stored_document python timestamp command document))"
    by (simp add: read_json_def files read_canonical [OF assms(3)])
  show "load_verified sha256 ?fs p = Inr (stored_document python timestamp command document)"
    by (simp add: load_verified_def verify read)
qed

lemma load_evidence_frame:
  assumes "evidence_path p" "evidence_path q" "q \<noteq> p"
  shows "load_verified sha256 (snd (write_evidence sha256 python timestamp p document command suite fs)) q = load_verified sha256 fs q"
    and "is_file (snd (write_evidence sha256 python timestamp p document command suite fs)) q = is_file fs q"
    and "dget (snd (write_evidence sha256 python timestamp p document command suite fs)) q = dget fs q"
proof -
  let ?fs = "snd (write_evidence sha256 python timestamp p document command suite fs)"
  have same: "dget ?fs q = dget fs q" "dget ?fs (sidecar_path q) = dget fs (sidecar_path q)"
    using dget_write_evidence [OF assms(1,2)] assms(3) by simp_all
  show "load_verified sha256 ?fs q = load_verified sha256 fs q"
    unfolding load_verified_def verify_evidence_def read_json_def same by (rule refl)
  show "is_file ?fs q = is_file fs q" unfolding is_file_def same by (rule refl)
  show "dget ?fs q = dget fs q" by (rule same)
qed

end
