(* ===== verification/Certification.thy ===== *)
theory Certification
  imports Evidence
begin

text \<open>
  Release certificates of \<open>packages/certification/service.py\<close> and the verification of release tokens
  (\<open>signing.py\<close>): how gate results become a certificate, how a certificate is written and read back, and
  what reading one checks.

  \<open>sha256\<close> is an argument, and so is \<open>decode\<close>, which is \<open>jwt.decode\<close> of PyJWT with the algorithms, the
  audience, the issuer and the required claims of the call: it gets the token and the public key. Its
  exceptions (\<open>PyJWTError\<close>) are \<open>RuntimeError\<close> here.

  The properties: a release is certified exactly when every mandatory gate passed on evidence that was
  hashed; a certificate that was written is read back; whatever document is read, a certificate that
  says \<open>CERTIFIED\<close> has all its gates.
\<close>

section \<open>Certificates\<close>

record gate_result =
  gr_name :: string
  gr_passed :: bool
  gr_evidence :: "string list"
  gr_reason :: "string option"

record certification_result =
  cr_release_id :: string
  cr_commit :: string
  cr_generated_at :: datetime
  cr_expires_at :: datetime
  cr_status :: string
  cr_gates :: "gate_result list"
  cr_risks :: "string list"
  cr_evidence_hashes :: "(string, string) dict"
  cr_certificate_hash :: string
  cr_artifacts :: "(string, string) dict"
  cr_test_summary :: json_object
  cr_scenario_metrics :: json_object
  cr_approvals :: "json_object list"
  cr_signature :: "string option"

definition mandatory_gates :: "string list" where
  "mandatory_gates =
     [''build'', ''tests'', ''contracts'', ''security'', ''scenarios'', ''performance'', ''backup_restore'',
      ''external_integrations'', ''acceptance'']"

definition is_lower_hex :: "char \<Rightarrow> bool" where
  "is_lower_hex c \<longleftrightarrow> is_digit c \<or> (CHR ''a'' \<le> c \<and> c \<le> CHR ''f'')"

definition is_sha256 :: "string \<Rightarrow> bool" where
  "is_sha256 s \<longleftrightarrow> length s = 64 \<and> list_all is_lower_hex s"

definition immutable_revision :: "string \<Rightarrow> bool" where
  "immutable_revision s \<longleftrightarrow>
     (7 \<le> length s \<and> length s \<le> 64 \<and> list_all is_lower_hex s) \<or>
     (take 7 s = ''sha256:'' \<and> length s = 71 \<and> list_all is_lower_hex (drop 7 s))"

definition optional_str :: "string option \<Rightarrow> pyval" where
  "optional_str v = (case v of None \<Rightarrow> PNone | Some s \<Rightarrow> PStr s)"

definition str_dict :: "(string, string) dict \<Rightarrow> pyval" where
  "str_dict d = PDict (map (\<lambda>(k, v). (k, PStr v)) d)"

definition gate_dict :: "gate_result \<Rightarrow> pyval" where
  \<comment> \<open>\<open>asdict(gate)\<close>\<close>
  "gate_dict g =
     PDict [(''name'', PStr (gr_name g)), (''passed'', PBool (gr_passed g)), (''evidence'', PList (map PStr (gr_evidence g))),
            (''reason'', optional_str (gr_reason g))]"

definition certificate_body :: "certification_result \<Rightarrow> json_object" where
  "certificate_body r =
     [(''release_id'', PStr (cr_release_id r)),
      (''commit'', PStr (cr_commit r)),
      (''generated_at'', PStr (isoformat (CHR ''T'') (cr_generated_at r))),
      (''expires_at'', PStr (isoformat (CHR ''T'') (cr_expires_at r))),
      (''status'', PStr (cr_status r)),
      (''gates'', PList (map gate_dict (cr_gates r))),
      (''risks'', PList (map PStr (cr_risks r))),
      (''evidence_hashes'', str_dict (cr_evidence_hashes r)),
      (''artifacts'', str_dict (cr_artifacts r)),
      (''test_summary'', PDict (cr_test_summary r)),
      (''scenario_metrics'', PDict (cr_scenario_metrics r)),
      (''approvals'', PList (map PDict (cr_approvals r)))]"

definition certificate_digest :: "(string \<Rightarrow> string) \<Rightarrow> certification_result \<Rightarrow> string" where
  "certificate_digest sha256 r = sha256 (json_dumps True (PDict (certificate_body r)))"

definition validity :: timedelta where
  \<comment> \<open>\<open>timedelta(days=30)\<close>\<close>
  "validity = 30 * day_micros"

definition declared_gate :: "gate_result list \<Rightarrow> string \<Rightarrow> gate_result" where
  \<comment> \<open>\<open>by_name.get(name, ...)\<close>: the last result of the name\<close>
  "declared_gate gate_results name =
     dget_or (dict_of (map (\<lambda>g. (gr_name g, g)) gate_results)) name
       \<lparr>gr_name = name, gr_passed = False, gr_evidence = [], gr_reason = Some ''mandatory evidence missing''\<rparr>"

definition bind_evidence :: "(string, string) dict \<Rightarrow> gate_result \<Rightarrow> gate_result" where
  "bind_evidence evidence_hashes g =
     (if gr_passed g \<and> (gr_evidence g = [] \<or> \<not> set (gr_evidence g) \<subseteq> set (dkeys evidence_hashes))
      then \<lparr>gr_name = gr_name g, gr_passed = False, gr_evidence = gr_evidence g,
            gr_reason = Some ''evidence content hash is missing''\<rparr>
      else g)"

definition certify_release ::
  "(string \<Rightarrow> string) \<Rightarrow> string \<Rightarrow> string \<Rightarrow> datetime \<Rightarrow> gate_result list \<Rightarrow> string list \<Rightarrow> (string, string) dict \<Rightarrow>
   (string, string) dict \<Rightarrow> json_object \<Rightarrow> json_object \<Rightarrow> json_object list \<Rightarrow> string option \<Rightarrow> certification_result result" where
  \<comment> \<open>a dict argument that is \<open>None\<close> is an empty one\<close>
  "certify_release sha256 release_id commit generated_at gate_results accepted_risks evidence_hashes artifacts test_summary
     scenario_metrics approvals signature =
     (if \<not> is_aware generated_at then Inl (ValueError ''certificate generation time must be timezone-aware'')
      else
        let evidence_hashes = sort evidence_hashes;
            artifacts = sort (if artifacts = [] then evidence_hashes else artifacts) in
        if \<not> list_all is_sha256 (dvalues evidence_hashes) then Inl (ValueError ''evidence hashes must be lowercase SHA-256 digests'')
        else if \<not> list_all is_sha256 (dvalues artifacts) then Inl (ValueError ''artifact hashes must be lowercase SHA-256 digests'')
        else if \<exists>(reference, digest) \<in> set evidence_hashes. dget artifacts reference \<noteq> Some digest
        then Inl (ValueError ''artifact hashes must include every evidence hash unchanged'')
        else
          let gates = map (bind_evidence evidence_hashes) (map (declared_gate gate_results) mandatory_gates);
              r = \<lparr>cr_release_id = release_id, cr_commit = commit, cr_generated_at = generated_at,
                   cr_expires_at = dt_add generated_at validity,
                   cr_status = (if list_all gr_passed gates then ''CERTIFIED'' else ''NOT_CERTIFIED''),
                   cr_gates = gates, cr_risks = accepted_risks, cr_evidence_hashes = evidence_hashes, cr_certificate_hash = [],
                   cr_artifacts = artifacts, cr_test_summary = test_summary, cr_scenario_metrics = scenario_metrics,
                   cr_approvals = approvals, cr_signature = signature\<rparr>
          in Inr (r\<lparr>cr_certificate_hash := certificate_digest sha256 r\<rparr>))"

definition verify_certificate :: "(string \<Rightarrow> string) \<Rightarrow> certification_result \<Rightarrow> bool" where
  "verify_certificate sha256 r \<longleftrightarrow> certificate_digest sha256 r = cr_certificate_hash r"

section \<open>Reading a certificate\<close>

definition gate_of_dict :: "json_object \<Rightarrow> gate_result result" where
  "gate_of_dict i =
     rbind (py_item i ''name'') (\<lambda>name. rbind (py_item i ''passed'') (\<lambda>passed.
     rbind (py_iter (dget_or i ''evidence'' (PList []))) (\<lambda>evidence.
       Inr \<lparr>gr_name = py_str name, gr_passed = truthy passed, gr_evidence = map py_str evidence,
            gr_reason = (case dget_or i ''reason'' PNone of PNone \<Rightarrow> None | v \<Rightarrow> Some (py_str v))\<rparr>)))"

definition str_items :: "json_object \<Rightarrow> string \<Rightarrow> (string, string) dict result" where
  \<comment> \<open>\<open>{str(k): str(v) for k, v in dict(document.get(key, {})).items()}\<close>\<close>
  "str_items document key =
     rbind (py_dict (dget_or document key (PDict []))) (\<lambda>d. Inr (map (\<lambda>(k, v). (k, py_str v)) d))"

definition check_certificate :: "(string \<Rightarrow> string) \<Rightarrow> certification_result \<Rightarrow> certification_result result" where
  "check_certificate sha256 r =
     (if \<not> is_aware (cr_generated_at r) \<or> \<not> is_aware (cr_expires_at r)
      then Inl (ValueError ''certificate timestamps must be timezone-aware'')
      else if cr_expires_at r \<noteq> dt_add (cr_generated_at r) validity
      then Inl (ValueError ''certificate validity period must be exactly 30 days'')
      else if map gr_name (cr_gates r) \<noteq> mandatory_gates
      then Inl (ValueError ''certificate mandatory gate set is invalid'')
      else if cr_status r \<noteq> (if list_all gr_passed (cr_gates r) then ''CERTIFIED'' else ''NOT_CERTIFIED'')
      then Inl (ValueError ''certificate status does not match its mandatory gates'')
      else if cr_status r = ''CERTIFIED'' \<and> \<not> immutable_revision (cr_commit r)
      then Inl (ValueError ''certified releases require an immutable source revision'')
      else if \<not> list_all is_sha256 (dvalues (cr_evidence_hashes r)) then Inl (ValueError ''certificate evidence hash is invalid'')
      else if \<not> list_all is_sha256 (dvalues (cr_artifacts r)) then Inl (ValueError ''certificate artifact hash is invalid'')
      else if \<exists>(reference, digest) \<in> set (cr_evidence_hashes r). dget (cr_artifacts r) reference \<noteq> Some digest
      then Inl (ValueError ''certificate artifact set does not cover its evidence hashes'')
      else if \<exists>g \<in> set (cr_gates r). gr_passed g \<and> (gr_evidence g = [] \<or> \<not> set (gr_evidence g) \<subseteq> set (dkeys (cr_evidence_hashes r)))
      then Inl (ValueError ''a passing certificate gate has unbound evidence'')
      else if \<not> verify_certificate sha256 r then Inl (ValueError ''certificate content hash is invalid'')
      else Inr r)"

definition certificate_from_document :: "(string \<Rightarrow> string) \<Rightarrow> json_object \<Rightarrow> certification_result result" where
  "certificate_from_document sha256 document =
     rbind (py_iter (dget_or document ''gates'' (PList []))) (\<lambda>items. rbind (rmap_list gate_of_dict (dicts_in items)) (\<lambda>gates.
     rbind (py_item document ''release_id'') (\<lambda>release_id. rbind (py_item document ''commit'') (\<lambda>commit.
     rbind (py_item document ''generated_at'') (\<lambda>g. rbind (fromisoformat (py_str g)) (\<lambda>generated_at.
     rbind (py_item document ''expires_at'') (\<lambda>x. rbind (fromisoformat (py_str x)) (\<lambda>expires_at.
     rbind (py_item document ''status'') (\<lambda>status.
     rbind (py_iter (dget_or document ''risks'' (PList []))) (\<lambda>risks.
     rbind (str_items document ''evidence_hashes'') (\<lambda>evidence_hashes.
     rbind (py_item document ''certificate_hash'') (\<lambda>certificate_hash.
     rbind (str_items document ''artifacts'') (\<lambda>artifacts.
     rbind (py_dict (dget_or document ''test_summary'' (PDict []))) (\<lambda>test_summary.
     rbind (py_dict (dget_or document ''scenario_metrics'' (PDict []))) (\<lambda>scenario_metrics.
     rbind (py_iter (dget_or document ''approvals'' (PList []))) (\<lambda>approvals.
     check_certificate sha256
       \<lparr>cr_release_id = py_str release_id, cr_commit = py_str commit, cr_generated_at = generated_at, cr_expires_at = expires_at,
        cr_status = py_str status, cr_gates = gates, cr_risks = map py_str risks, cr_evidence_hashes = evidence_hashes,
        cr_certificate_hash = py_str certificate_hash, cr_artifacts = artifacts, cr_test_summary = test_summary,
        cr_scenario_metrics = scenario_metrics, cr_approvals = dicts_in approvals,
        cr_signature = (case dget document ''signature'' of Some v \<Rightarrow> if truthy v then Some (py_str v) else None | None \<Rightarrow> None)\<rparr>))))))))))))))))"

definition certificate_dict :: "certification_result \<Rightarrow> json_object" where
  \<comment> \<open>\<open>asdict(result)\<close> as \<open>json.dumps(..., default=str)\<close> sees it\<close>
  "certificate_dict r =
     [(''release_id'', PStr (cr_release_id r)),
      (''commit'', PStr (cr_commit r)),
      (''generated_at'', PStr (datetime_str (cr_generated_at r))),
      (''expires_at'', PStr (datetime_str (cr_expires_at r))),
      (''status'', PStr (cr_status r)),
      (''gates'', PList (map gate_dict (cr_gates r))),
      (''risks'', PList (map PStr (cr_risks r))),
      (''evidence_hashes'', str_dict (cr_evidence_hashes r)),
      (''certificate_hash'', PStr (cr_certificate_hash r)),
      (''artifacts'', str_dict (cr_artifacts r)),
      (''test_summary'', PDict (cr_test_summary r)),
      (''scenario_metrics'', PDict (cr_scenario_metrics r)),
      (''approvals'', PList (map PDict (cr_approvals r))),
      (''signature'', optional_str (cr_signature r))]"

definition json_copy :: "json_object \<Rightarrow> json_object result" where
  \<comment> \<open>\<open>json.loads(json.dumps(document, default=str))\<close>\<close>
  "json_copy document = rbind (json_loads (json_dumps False (PDict document))) py_dict"

section \<open>Release tokens\<close>

definition get_value :: "json_object \<Rightarrow> string \<Rightarrow> pyval" where
  \<comment> \<open>\<open>document.get(key)\<close>\<close>
  "get_value d k = dget_or d k PNone"

definition verify_release_token ::
  "(string \<Rightarrow> string) \<Rightarrow> (string \<Rightarrow> string \<Rightarrow> json_object result) \<Rightarrow> string \<Rightarrow> string \<Rightarrow> certification_result option \<Rightarrow> json_object result" where
  \<comment> \<open>without \<open>now\<close>, as the sources call it\<close>
  "verify_release_token sha256 decode token public_key expected_certificate =
     rbind (decode token public_key) (\<lambda>claims.
       if \<not> py_eq (get_value claims ''status'') (PStr ''CERTIFIED'') then Inl (ValueError ''release token is not certified'')
       else if \<not> py_eq (get_value claims ''jti'') (get_value claims ''certificate_hash'')
       then Inl (ValueError ''release token identifier does not match its certificate'')
       else case expected_certificate of
         None \<Rightarrow> Inr claims
       | Some c \<Rightarrow>
           if \<not> verify_certificate sha256 c then Inl (ValueError ''expected release certificate is invalid'')
           else if \<not> py_eq (get_value claims ''release_id'') (PStr (cr_release_id c)) \<or>
                   \<not> py_eq (get_value claims ''commit'') (PStr (cr_commit c)) \<or>
                   \<not> py_eq (get_value claims ''certificate_hash'') (PStr (cr_certificate_hash c))
           then Inl (ValueError ''release token does not match the expected certificate'')
           else if \<not> py_eq (get_value claims ''artifact_set_hash'') (PStr (sha256 (json_dumps True (str_dict (cr_artifacts c)))))
           then Inl (ValueError ''release token artifact set does not match the certificate'')
           else Inr claims)"


section \<open>Certification\<close>

lemma declared_gate_last:
  "declared_gate gs name = (if filter (\<lambda>g. gr_name g = name) gs = []
     then \<lparr>gr_name = name, gr_passed = False, gr_evidence = [], gr_reason = Some ''mandatory evidence missing''\<rparr>
     else last (filter (\<lambda>g. gr_name g = name) gs))"
proof -
  have "map_of (rev (map (\<lambda>g. (gr_name g, g)) gs)) name =
      (if filter (\<lambda>g. gr_name g = name) gs = [] then None else Some (last (filter (\<lambda>g. gr_name g = name) gs)))"
    by (induction gs rule: rev_induct) auto
  then show ?thesis by (simp add: declared_gate_def dget_or_def dget_dict_of)
qed

lemma declared_gate_name [simp]: "gr_name (declared_gate gs name) = name"
proof (cases "filter (\<lambda>g. gr_name g = name) gs")
  case (Cons g gs')
  then have "last (filter (\<lambda>g. gr_name g = name) gs) \<in> set (filter (\<lambda>g. gr_name g = name) gs)" by (intro last_in_set) simp
  then have "gr_name (last (filter (\<lambda>g. gr_name g = name) gs)) = name" by (simp only: set_filter mem_Collect_eq)
  then show ?thesis using Cons by (simp only: declared_gate_last list.distinct if_False)
qed (simp add: declared_gate_last)

lemma bind_evidence_simps [simp]:
  "gr_name (bind_evidence h g) = gr_name g"
  "gr_passed (bind_evidence h g) \<longleftrightarrow> gr_passed g \<and> gr_evidence g \<noteq> [] \<and> set (gr_evidence g) \<subseteq> set (dkeys h)"
  "gr_evidence (bind_evidence h g) = gr_evidence g"
  by (auto simp: bind_evidence_def)

lemma certificate_digest_hash [simp]: "certificate_digest sha256 (r\<lparr>cr_certificate_hash := h\<rparr>) = certificate_digest sha256 r"
  by (simp add: certificate_digest_def certificate_body_def)

definition gate_holds :: "gate_result list \<Rightarrow> (string, string) dict \<Rightarrow> string \<Rightarrow> bool" where
  \<comment> \<open>the last result of the gate passed, on evidence all of which was hashed\<close>
  "gate_holds gate_results evidence_hashes name \<longleftrightarrow>
     (\<exists>earlier g later. gate_results = earlier @ g # later \<and> gr_name g = name \<and> (\<forall>g' \<in> set later. gr_name g' \<noteq> name) \<and>
        gr_passed g \<and> gr_evidence g \<noteq> [] \<and> set (gr_evidence g) \<subseteq> set (dkeys evidence_hashes))"

lemma declared_gate_holds:
  "gr_passed (bind_evidence h (declared_gate gs name)) \<longleftrightarrow> gate_holds gs h name"
proof (cases "filter (\<lambda>g. gr_name g = name) gs = []")
  case True
  then show ?thesis by (auto simp: declared_gate_last gate_holds_def filter_empty_conv)
next
  case False
  then obtain earlier g later where split: "gs = earlier @ g # later" "gr_name g = name" "\<forall>g' \<in> set later. gr_name g' \<noteq> name"
    using split_list_last_prop [of gs "\<lambda>g. gr_name g = name"] by (auto simp: filter_empty_conv)
  then have "filter (\<lambda>g. gr_name g = name) later = []" by (auto simp: filter_empty_conv)
  with split have d: "declared_gate gs name = g" by (simp add: declared_gate_last)
  have "g' = g" if s: "gs = e @ g' # l" "gr_name g' = name" "\<forall>x \<in> set l. gr_name x \<noteq> name" for e g' l
  proof -
    have "filter (\<lambda>g. gr_name g = name) l = []" using s by (auto simp: filter_empty_conv)
    with s have "declared_gate gs name = g'" by (simp add: declared_gate_last)
    with d show ?thesis by simp
  qed
  note unique = this
  show ?thesis
  proof
    assume "gr_passed (bind_evidence h (declared_gate gs name))"
    then show "gate_holds gs h name" unfolding gate_holds_def d bind_evidence_simps using split by blast
  next
    assume "gate_holds gs h name"
    then show "gr_passed (bind_evidence h (declared_gate gs name))" unfolding gate_holds_def d bind_evidence_simps using unique by blast
  qed
qed

lemma certify_release_result:
  assumes "certify_release sha256 release_id commit generated_at gate_results risks evidence_hashes artifacts test_summary
      scenario_metrics approvals signature = Inr r"
  shows "cr_gates r = map (bind_evidence (sort evidence_hashes)) (map (declared_gate gate_results) mandatory_gates)"
    and "cr_status r = (if list_all gr_passed (cr_gates r) then ''CERTIFIED'' else ''NOT_CERTIFIED'')"
    and "verify_certificate sha256 r" "is_aware (cr_generated_at r)" "cr_expires_at r = dt_add (cr_generated_at r) validity"
    and "cr_evidence_hashes r = sort evidence_hashes"
    and "cr_artifacts r = sort (if artifacts = [] then sort evidence_hashes else artifacts)"
    and "list_all is_sha256 (dvalues (cr_evidence_hashes r))" "list_all is_sha256 (dvalues (cr_artifacts r))"
    and "\<forall>(reference, digest) \<in> set (cr_evidence_hashes r). dget (cr_artifacts r) reference = Some digest"
    and "cr_commit r = commit" "cr_generated_at r = generated_at" "cr_release_id r = release_id"
    and "cr_test_summary r = test_summary" "cr_scenario_metrics r = scenario_metrics" "cr_approvals r = approvals"
    and "cr_signature r = signature"
proof -
  define h where "h = sort evidence_hashes"
  define a where "a = sort (if artifacts = [] then h else artifacts)"
  define gs where "gs = map (bind_evidence h) (map (declared_gate gate_results) mandatory_gates)"
  define r0 where "r0 = \<lparr>cr_release_id = release_id, cr_commit = commit, cr_generated_at = generated_at,
    cr_expires_at = dt_add generated_at validity,
    cr_status = (if list_all gr_passed gs then ''CERTIFIED'' else ''NOT_CERTIFIED''),
    cr_gates = gs, cr_risks = risks, cr_evidence_hashes = h, cr_certificate_hash = [], cr_artifacts = a, cr_test_summary = test_summary,
    cr_scenario_metrics = scenario_metrics, cr_approvals = approvals, cr_signature = signature\<rparr>"
  have run: "(if \<not> is_aware generated_at then Inl (ValueError ''certificate generation time must be timezone-aware'')
      else if \<not> list_all is_sha256 (dvalues h) then Inl (ValueError ''evidence hashes must be lowercase SHA-256 digests'')
      else if \<not> list_all is_sha256 (dvalues a) then Inl (ValueError ''artifact hashes must be lowercase SHA-256 digests'')
      else if \<exists>(reference, digest) \<in> set h. dget a reference \<noteq> Some digest
      then Inl (ValueError ''artifact hashes must include every evidence hash unchanged'')
      else Inr (r0\<lparr>cr_certificate_hash := certificate_digest sha256 r0\<rparr>)) = Inr r"
    using assms unfolding certify_release_def Let_def h_def [symmetric] a_def [symmetric] gs_def [symmetric] r0_def [symmetric] .
  have conds: "is_aware generated_at" "list_all is_sha256 (dvalues h)" "list_all is_sha256 (dvalues a)"
    "\<not> (\<exists>(reference, digest) \<in> set h. dget a reference \<noteq> Some digest)"
    using run by (metis sum.distinct(1))+
  then have r: "r = r0\<lparr>cr_certificate_hash := certificate_digest sha256 r0\<rparr>" using run by simp
  show "verify_certificate sha256 r" by (simp add: r verify_certificate_def)
  show "cr_gates r = map (bind_evidence (sort evidence_hashes)) (map (declared_gate gate_results) mandatory_gates)"
    "cr_status r = (if list_all gr_passed (cr_gates r) then ''CERTIFIED'' else ''NOT_CERTIFIED'')"
    "is_aware (cr_generated_at r)" "cr_expires_at r = dt_add (cr_generated_at r) validity"
    "cr_evidence_hashes r = sort evidence_hashes" "cr_artifacts r = sort (if artifacts = [] then sort evidence_hashes else artifacts)"
    "cr_commit r = commit" "cr_generated_at r = generated_at" "cr_release_id r = release_id"
    "cr_test_summary r = test_summary" "cr_scenario_metrics r = scenario_metrics" "cr_approvals r = approvals" "cr_signature r = signature"
    by (simp_all add: r r0_def gs_def conds(1) h_def a_def)
  show "list_all is_sha256 (dvalues (cr_evidence_hashes r))" "list_all is_sha256 (dvalues (cr_artifacts r))"
    "\<forall>(reference, digest) \<in> set (cr_evidence_hashes r). dget (cr_artifacts r) reference = Some digest"
    using conds(2-4) by (auto simp: r r0_def)
qed

text \<open>
  C20: A release is certified exactly when every one of the nine mandatory gates holds: its last result
  passed, it names evidence, and the content of all that evidence was hashed. The certificate lists the
  gates in their order, whatever results were given, its status is one of the two, and its digest is that
  of its content.
\<close>
theorem certified_exactly:
  assumes "certify_release sha256 release_id commit generated_at gate_results risks evidence_hashes artifacts test_summary
      scenario_metrics approvals signature = Inr r"
  shows "(cr_status r = ''CERTIFIED'' \<longleftrightarrow> (\<forall>name \<in> set mandatory_gates. gate_holds gate_results evidence_hashes name)) \<and>
    cr_status r \<in> {''CERTIFIED'', ''NOT_CERTIFIED''} \<and> map gr_name (cr_gates r) = mandatory_gates \<and> verify_certificate sha256 r"
proof -
  note r = certify_release_result [OF assms]
  have keys: "set (dkeys (sort evidence_hashes)) = set (dkeys evidence_hashes)" by simp
  have "list_all gr_passed (cr_gates r) \<longleftrightarrow> (\<forall>name \<in> set mandatory_gates. gate_holds gate_results evidence_hashes name)"
    unfolding r(1) list_all_iff by (simp add: declared_gate_holds gate_holds_def keys del: bind_evidence_simps(2))
  moreover have "map gr_name (cr_gates r) = mandatory_gates" by (simp add: r(1) comp_def)
  ultimately show ?thesis using r(2,3) by simp
qed

definition sample_digest :: string where
  "sample_digest = replicate 64 CHR ''a''"

definition example_certificate :: "string option \<Rightarrow> certification_result result" where
  \<comment> \<open>every gate passed on one report\<close>
  "example_certificate signature = certify_release (\<lambda>_. sample_digest) ''r1'' (replicate 40 CHR ''0'') (Aware 0)
     (map (\<lambda>n. \<lparr>gr_name = n, gr_passed = True, gr_evidence = [''report''], gr_reason = None\<rparr>) mandatory_gates)
     [] [(''report'', sample_digest)] [] [] [] [] signature"

lemma declared_gate_map:
  assumes "distinct names" "n \<in> set names" "\<And>m. gr_name (f m) = m"
  shows "declared_gate (map f names) n = f n"
proof -
  have "dict_of (map (\<lambda>m. (m, f m)) names) = map (\<lambda>m. (m, f m)) names"
    using assms(1) by (intro dict_of_distinct_id) (simp add: comp_def)
  moreover have "map_of (map (\<lambda>m. (m, f m)) names) n = Some (f n)" using assms(2) by (simp add: map_of_map_restrict)
  ultimately show ?thesis by (simp add: declared_gate_def dget_or_def comp_def assms(3))
qed

lemma example_certificate_ok: "\<exists>r. example_certificate signature = Inr r \<and> cr_status r = ''CERTIFIED'' \<and>
    cr_release_id r = ''r1'' \<and> cr_certificate_hash r = sample_digest"
proof -
  have "distinct mandatory_gates" by (simp add: mandatory_gates_def)
  then have gates: "map (bind_evidence [(''report'', sample_digest)]) (map (declared_gate
        (map (\<lambda>n. \<lparr>gr_name = n, gr_passed = True, gr_evidence = [''report''], gr_reason = None\<rparr>) mandatory_gates)) mandatory_gates) =
      map (\<lambda>n. \<lparr>gr_name = n, gr_passed = True, gr_evidence = [''report''], gr_reason = None\<rparr>) mandatory_gates"
    by (simp add: declared_gate_map bind_evidence_def)
  have hash: "is_sha256 sample_digest" by (simp add: is_sha256_def sample_digest_def is_lower_hex_def list_all_iff)
  have single: "sort [x] = [x]" for x :: "string \<times> string" by simp
  show ?thesis
    unfolding example_certificate_def certify_release_def Let_def single if_True simp_thms gates
    by (simp add: hash certificate_digest_def list_all_iff)
qed

theorem certified_exactly_witness:
  "\<exists>r. example_certificate None = Inr r \<and> cr_status r = ''CERTIFIED'' \<and> map gr_name (cr_gates r) = mandatory_gates \<and>
     gate_holds (map (\<lambda>n. \<lparr>gr_name = n, gr_passed = True, gr_evidence = [''report''], gr_reason = None\<rparr>) mandatory_gates)
       [(''report'', sample_digest)] ''security''"
proof -
  obtain r where r: "example_certificate None = Inr r" "cr_status r = ''CERTIFIED''" using example_certificate_ok by blast
  have "''security'' \<in> set mandatory_gates" by (simp add: mandatory_gates_def)
  then show ?thesis using certified_exactly [OF r(1) [unfolded example_certificate_def]] r by blast
qed

section \<open>Round trip\<close>

definition sorted_dict :: "json_object \<Rightarrow> json_object" where
  "sorted_dict d = map (\<lambda>(k, v). (k, json_value True v)) (sort_key fst d)"

lemma json_value_dict: "json_value True (PDict d) = PDict (sorted_dict d)"
  by (simp add: sorted_dict_def json_value_members del: json_value.simps)

lemma dget_sorted: "distinct (dkeys d) \<Longrightarrow> dget (sorted_dict d) k = map_option (json_value True) (dget d k)"
  using dget_json_value(1) [OF _ json_value_dict] .

lemma json_copy_ok: "json_ok (PDict d) \<Longrightarrow> json_copy d = Inr d"
  unfolding json_copy_def by (simp only: json_loads_dumps json_value_unsorted rbind.simps py_dict_PDict)

lemma dicts_in_map [simp]: "dicts_in (map PDict ds) = ds"
  by (simp add: dicts_in_def comp_def)

lemma json_value_str_dict:
  assumes "sorted (dkeys d)"
  shows "json_value True (str_dict d) = str_dict d"
proof -
  have "sort_key fst (map (\<lambda>(k, v). (k, PStr v)) d) = map (\<lambda>(k, v). (k, PStr v)) d"
    using assms by (intro sort_key_id_if_sorted) (simp add: comp_def split_def)
  then show ?thesis by (simp add: str_dict_def json_value_members del: json_value.simps) (simp add: split_def)
qed

lemma sorted_keys_sort: "distinct (dkeys d) \<Longrightarrow> sorted (dkeys (sort d))" for d :: "(string \<times> string) list"
proof -
  have "sorted_wrt (\<le>) (sort d)" by simp
  then have "sorted_wrt (\<lambda>x y. fst x \<le> fst y) (sort d)"
    by (rule sorted_wrt_mono_rel [rotated]) (auto simp: less_eq_prod_def)
  then show ?thesis by (simp add: sorted_wrt_map)
qed

definition gate_dict_items :: "gate_result \<Rightarrow> json_object" where
  "gate_dict_items g = [(''name'', PStr (gr_name g)), (''passed'', PBool (gr_passed g)), (''evidence'', PList (map PStr (gr_evidence g))),
     (''reason'', optional_str (gr_reason g))]"

lemma gate_of_sorted: "gate_of_dict (sorted_dict (gate_dict_items g)) = Inr g"
proof -
  have dist: "distinct (dkeys (gate_dict_items g))" by (simp add: gate_dict_items_def)
  have reason: "json_value True (optional_str v) = optional_str v" for v by (cases v) (simp_all add: optional_str_def)
  have "dget (sorted_dict (gate_dict_items g)) ''name'' = Some (PStr (gr_name g))"
    "dget (sorted_dict (gate_dict_items g)) ''passed'' = Some (PBool (gr_passed g))"
    "dget (sorted_dict (gate_dict_items g)) ''evidence'' = Some (PList (map PStr (gr_evidence g)))"
    "dget (sorted_dict (gate_dict_items g)) ''reason'' = Some (optional_str (gr_reason g))"
    by (simp_all add: dget_sorted [OF dist]) (simp_all add: gate_dict_items_def reason comp_def)
  then show ?thesis
    by (cases "gr_reason g") (simp_all add: gate_of_dict_def py_item_def dget_or_def optional_str_def comp_def)
qed

lemma gates_of_sorted:
  "\<exists>ds. json_value True (PList (map gate_dict gs)) = PList (map PDict ds) \<and> rmap_list gate_of_dict ds = Inr gs"
proof (intro exI conjI)
  let ?ds = "map (\<lambda>g. sorted_dict (gate_dict_items g)) gs"
  have "gate_dict g = PDict (gate_dict_items g)" for g by (simp add: gate_dict_def gate_dict_items_def)
  then show "json_value True (PList (map gate_dict gs)) = PList (map PDict ?ds)"
    by (simp add: json_value_dict del: json_value.simps(2))
  show "rmap_list gate_of_dict ?ds = Inr gs" by (rule rmap_list_map_id) (rule gate_of_sorted)
qed

definition certificate_values :: "certification_result \<Rightarrow> bool" where
  \<comment> \<open>what the types of a certificate give: distinct keys, values that have a text, times that Python has\<close>
  "certificate_values r \<longleftrightarrow>
     distinct (dkeys (cr_evidence_hashes r)) \<and> distinct (dkeys (cr_artifacts r)) \<and> json_ok (PDict (cr_test_summary r)) \<and>
     json_ok (PDict (cr_scenario_metrics r)) \<and> list_all (\<lambda>d. json_ok (PDict d)) (cr_approvals r) \<and>
     representable (cr_generated_at r) \<and> representable (cr_expires_at r)"

lemma json_ok_str_dict: "distinct (dkeys d) \<Longrightarrow> json_ok (str_dict d)"
  by (simp add: str_dict_def comp_def split_def list_all_iff)

lemma json_ok_optional [simp]: "json_ok (optional_str v)" "json_value srt (optional_str v) = optional_str v"
  by (cases v; simp add: optional_str_def)+

lemma json_ok_gates: "json_ok (PList (map gate_dict gs))"
  by (simp add: gate_dict_def list_all_iff)

lemma certificate_dict_ok: "certificate_values r \<Longrightarrow> json_ok (PDict (certificate_dict r))"
  unfolding certificate_values_def
  using json_ok_str_dict [of "cr_evidence_hashes r"] json_ok_str_dict [of "cr_artifacts r"] json_ok_gates [of "cr_gates r"]
  by (simp add: certificate_dict_def list_all_iff)

definition certificate_sorted :: "certification_result \<Rightarrow> certification_result" where
  \<comment> \<open>the certificate with the keys of its free-form parts in order\<close>
  "certificate_sorted r =
     r\<lparr>cr_test_summary := sorted_dict (cr_test_summary r), cr_scenario_metrics := sorted_dict (cr_scenario_metrics r),
       cr_approvals := map sorted_dict (cr_approvals r), cr_signature := (if cr_signature r = Some [] then None else cr_signature r)\<rparr>"

lemma certificate_sorted_simps [simp]:
  "cr_release_id (certificate_sorted r) = cr_release_id r" "cr_commit (certificate_sorted r) = cr_commit r"
  "cr_generated_at (certificate_sorted r) = cr_generated_at r" "cr_expires_at (certificate_sorted r) = cr_expires_at r"
  "cr_status (certificate_sorted r) = cr_status r" "cr_gates (certificate_sorted r) = cr_gates r" "cr_risks (certificate_sorted r) = cr_risks r"
  "cr_evidence_hashes (certificate_sorted r) = cr_evidence_hashes r" "cr_artifacts (certificate_sorted r) = cr_artifacts r"
  "cr_certificate_hash (certificate_sorted r) = cr_certificate_hash r"
  "cr_test_summary (certificate_sorted r) = sorted_dict (cr_test_summary r)"
  "cr_scenario_metrics (certificate_sorted r) = sorted_dict (cr_scenario_metrics r)"
  "cr_approvals (certificate_sorted r) = map sorted_dict (cr_approvals r)"
  by (simp_all add: certificate_sorted_def)

lemma json_dumps_cong: "json_value True v = json_value True w \<Longrightarrow> json_dumps True v = json_dumps True w"
  by (metis json_dumps_value)

lemma json_value_sorted: "json_value True (PDict (sorted_dict d)) = json_value True (PDict d)"
  unfolding json_value_dict [symmetric] by (rule json_value_idem)

lemma json_value_PDict_cong:
  assumes "list_all2 (\<lambda>(k, v) (k', w). k = k' \<and> json_value True v = json_value True w) d e"
  shows "json_value True (PDict d) = json_value True (PDict e)"
proof -
  have "map (\<lambda>(k, v). (k, json_value True v)) d = map (\<lambda>(k, v). (k, json_value True v)) e"
    using assms by (induction rule: list_all2_induct) auto
  then show ?thesis by simp
qed

lemma certificate_digest_sorted: "certificate_digest sha256 (certificate_sorted r) = certificate_digest sha256 r"
proof -
  have approvals: "json_value True (PList (map PDict (map sorted_dict ds))) = json_value True (PList (map PDict ds))" for ds
    by (simp only: json_value.simps(1) map_map comp_def json_value_sorted)
  have "json_value True (PDict (certificate_body (certificate_sorted r))) = json_value True (PDict (certificate_body r))"
    by (rule json_value_PDict_cong)
      (simp only: certificate_body_def certificate_sorted_simps approvals json_value_sorted list_all2_Cons list_all2_Nil2 prod.case
        simp_thms)
  then show ?thesis unfolding certificate_digest_def by (rule arg_cong [where f = sha256, OF json_dumps_cong])
qed

lemma str_items_str_dict: "dget document key = Some (str_dict d) \<Longrightarrow> str_items document key = Inr d"
  by (simp add: str_items_def dget_or_def str_dict_def comp_def split_def)

lemma read_stored_certificate:
  assumes ok: "certificate_values r" and keys: "sorted (dkeys (cr_evidence_hashes r))" "sorted (dkeys (cr_artifacts r))"
  shows "certificate_from_document sha256 (stored_document python timestamp command (certificate_dict r)) =
    check_certificate sha256 (certificate_sorted r)"
proof -
  let ?d = "stored_document python timestamp command (certificate_dict r)"
  have field: "dget (certificate_dict r) k = Some v \<Longrightarrow> k \<noteq> ''evidence_meta'' \<Longrightarrow> json_value True v = w \<Longrightarrow> dget ?d k = Some w" for k v w
    using dget_stored_Some [OF certificate_dict_ok [OF ok], of k v] by simp
  obtain ds where gates: "json_value True (PList (map gate_dict (cr_gates r))) = PList (map PDict ds)" "rmap_list gate_of_dict ds = Inr (cr_gates r)"
    using gates_of_sorted by blast
  have strs: "json_value True (PList (map PStr xs)) = PList (map PStr xs)" for xs by (simp add: comp_def)
  have dicts: "json_value True (PList (map PDict xs)) = PList (map PDict (map sorted_dict xs))" for xs
    by (simp add: json_value_dict comp_def del: json_value.simps(2))
  have times: "fromisoformat (datetime_str (cr_generated_at r)) = Inr (cr_generated_at r)" "fromisoformat (datetime_str (cr_expires_at r)) = Inr (cr_expires_at r)"
    using ok by (simp_all add: certificate_values_def datetime_str_def fromisoformat_isoformat)
  have fields: "dget ?d ''release_id'' = Some (PStr (cr_release_id r))" "dget ?d ''commit'' = Some (PStr (cr_commit r))"
    "dget ?d ''generated_at'' = Some (PStr (datetime_str (cr_generated_at r)))" "dget ?d ''expires_at'' = Some (PStr (datetime_str (cr_expires_at r)))"
    "dget ?d ''status'' = Some (PStr (cr_status r))" "dget ?d ''certificate_hash'' = Some (PStr (cr_certificate_hash r))"
    "dget ?d ''signature'' = Some (optional_str (cr_signature r))"
    "dget ?d ''gates'' = Some (PList (map PDict ds))" "dget ?d ''risks'' = Some (PList (map PStr (cr_risks r)))"
    "dget ?d ''evidence_hashes'' = Some (str_dict (cr_evidence_hashes r))" "dget ?d ''artifacts'' = Some (str_dict (cr_artifacts r))"
    "dget ?d ''test_summary'' = Some (PDict (sorted_dict (cr_test_summary r)))"
    "dget ?d ''scenario_metrics'' = Some (PDict (sorted_dict (cr_scenario_metrics r)))"
    "dget ?d ''approvals'' = Some (PList (map PDict (map sorted_dict (cr_approvals r))))"
    by (rule field, simp add: certificate_dict_def, simp,
        simp add: strs dicts gates(1) json_value_dict json_value_str_dict keys del: json_value.simps(1,2))+
  show ?thesis
    unfolding certificate_from_document_def
    by (simp add: py_item_def dget_or_def fields times gates(2) str_items_str_dict [OF fields(10)] str_items_str_dict [OF fields(11)]
        del: map_map)
      (cases r; cases "cr_signature r"; simp add: certificate_sorted_def optional_str_def comp_def)
qed

lemma is_aware_dt_add [simp]: "is_aware (dt_add d t) = is_aware d"
  by (cases d) simp_all

lemma check_certificate_sorted:
  assumes "certify_release sha256 release_id commit generated_at gate_results risks evidence_hashes artifacts test_summary
      scenario_metrics approvals signature = Inr r"
    and commit: "cr_status r = ''CERTIFIED'' \<longrightarrow> immutable_revision commit" and aware: "is_aware (dt_add generated_at validity)"
  shows "check_certificate sha256 (certificate_sorted r) = Inr (certificate_sorted r)"
proof -
  note r = certify_release_result [OF assms(1)]
  have names: "map gr_name (cr_gates r) = mandatory_gates" by (simp add: r(1) comp_def)
  have bound: "\<not> (\<exists>g \<in> set (cr_gates r). gr_passed g \<and> (gr_evidence g = [] \<or> \<not> set (gr_evidence g) \<subseteq> set (dkeys (cr_evidence_hashes r))))"
    unfolding r(1,6) by auto
  have verify: "verify_certificate sha256 (certificate_sorted r)" using r(3) by (simp add: verify_certificate_def certificate_digest_sorted)
  have cover: "\<not> (\<exists>(reference, digest) \<in> set (cr_evidence_hashes r). dget (cr_artifacts r) reference \<noteq> Some digest)" using r(10) by auto
  have times: "is_aware (cr_generated_at r)" "is_aware (cr_expires_at r)" "cr_expires_at r = dt_add (cr_generated_at r) validity"
    using r(4,5,12) aware by simp_all
  have status: "cr_status r = (if list_all gr_passed (cr_gates r) then ''CERTIFIED'' else ''NOT_CERTIFIED'')" by (rule r(2))
  have commit': "\<not> (cr_status r = ''CERTIFIED'' \<and> \<not> immutable_revision (cr_commit r))" using commit r(11) by simp
  show ?thesis
    unfolding check_certificate_def certificate_sorted_simps
    by (simp only: times is_aware_dt_add names commit' r(8,9) cover bound verify simp_thms if_False if_True status [symmetric])
qed

text \<open>
  C24: A certificate that was issued and written as evidence is read back: the evidence verifies, every
  check of the reader passes, and the certificate is the one written, with the keys of the free-form
  reports in order. A certified release has an immutable commit; without one the reader would refuse it.
\<close>
theorem certificate_roundtrip:
  assumes "certify_release sha256 release_id commit generated_at gate_results risks evidence_hashes artifacts test_summary
      scenario_metrics approvals signature = Inr r"
    and "cr_status r = ''CERTIFIED'' \<longrightarrow> immutable_revision commit"
    and "certificate_values r" "digest_ok sha256" "evidence_path p"
    and "distinct (dkeys evidence_hashes)" "distinct (dkeys artifacts)"
  shows "rbind (load_verified sha256 (snd (write_evidence sha256 python now p (certificate_dict r) command suite fs)) p)
      (certificate_from_document sha256) = Inr (certificate_sorted r)"
proof -
  note r = certify_release_result [OF assms(1)]
  have keys: "sorted (dkeys (cr_evidence_hashes r))" using sorted_keys_sort [OF assms(6)] r(6) by simp
  have artifacts: "sorted (dkeys (cr_artifacts r))"
    using sorted_keys_sort [OF assms(7)] keys unfolding r(6,7) by (cases "artifacts = []") (simp_all add: sorted_sort_id)
  have "is_aware (dt_add generated_at validity)" using r(4,12) by simp
  then show ?thesis
    using load_evidence_write(1) [OF assms(4,5) certificate_dict_ok [OF assms(3)]] read_stored_certificate [OF assms(3) keys artifacts]
      check_certificate_sorted [OF assms(1,2)] by simp
qed

lemma sample_digest_ok: "digest_ok (\<lambda>_. sample_digest)"
  by (simp add: digest_ok_def sample_digest_def list_all_iff is_space_def)

lemma representable_1970: "representable (Aware 0)" "representable (Aware validity)"
  by (simp_all add: representable_def instant_year_def year_of_ord_def epoch_ordinal_def days_before_year_def validity_def day_micros_def)

theorem certificate_roundtrip_witness:
  "\<exists>r. example_certificate None = Inr r \<and>
     rbind (load_verified (\<lambda>_. sample_digest)
       (snd (write_evidence (\<lambda>_. sample_digest) ''3.12'' (Aware 0) [''evidence'', ''B20'', ''runs'', ''r1.json''] (certificate_dict r) ''certify run'' ''run'' []))
       [''evidence'', ''B20'', ''runs'', ''r1.json'']) (certificate_from_document (\<lambda>_. sample_digest)) = Inr (certificate_sorted r)"
proof -
  obtain r where r: "example_certificate None = Inr r" using example_certificate_ok by blast
  note run = r [unfolded example_certificate_def]
  note fields = certify_release_result [OF run]
  have ok: "certificate_values r"
    using representable_1970 by (simp add: certificate_values_def fields(5-7,12,14-16))
  have p: "evidence_path [''evidence'', ''B20'', ''runs'', ''r1.json'']"
    by (simp add: evidence_path_def plain_name_def is_space_def)
  have "immutable_revision (replicate 40 CHR ''0'')" by (simp add: immutable_revision_def list_all_iff is_lower_hex_def is_digit_def)
  then have "rbind (load_verified (\<lambda>_. sample_digest)
       (snd (write_evidence (\<lambda>_. sample_digest) ''3.12'' (Aware 0) [''evidence'', ''B20'', ''runs'', ''r1.json''] (certificate_dict r) ''certify run'' ''run'' []))
       [''evidence'', ''B20'', ''runs'', ''r1.json'']) (certificate_from_document (\<lambda>_. sample_digest)) = Inr (certificate_sorted r)"
    by (intro certificate_roundtrip [OF run _ ok sample_digest_ok p] impI) simp_all
  with r show ?thesis by (intro exI conjI)
qed

end
