(* ===== verification/Certification_Repository.thy ===== *)
theory Certification_Repository
  imports Certification
begin

text \<open>
  The certification lifecycle of \<open>packages/certification/lifecycle.py\<close>: runs, published certificates,
  revocations and their registry, and a hash-chained event log per release, all of them evidence files
  below \<open>root/B20\<close> (\<open>base\<close> is the path \<open>root\<close>). An operation returns its result or exception together with the files.

  The clock, the version of the interpreter, \<open>sha256\<close> and \<open>decode\<close> (of PyJWT) are arguments. Operations run
  one after the other, under the lock of the repository.

  The properties, for every sequence of operations on a volume without earlier certification files: event
  chains verify, events are only appended, runs, certificates and revocations never change once written,
  and the registry lists every revocation.
\<close>

section \<open>Events\<close>

record certification_event =
  ce_event_type :: string
  ce_release_id :: string
  ce_occurred_at :: datetime
  ce_actor_id :: string
  ce_payload :: json_object
  ce_previous_hash :: string
  ce_event_hash :: string

definition event_types :: "string list" where
  "event_types = [''CertificationStarted'', ''GateFailed'', ''ReleaseCertified'', ''CertificationRevoked'']"

definition is_id_char :: "char \<Rightarrow> bool" where
  "is_id_char c \<longleftrightarrow> (CHR ''A'' \<le> c \<and> c \<le> CHR ''Z'') \<or> (CHR ''a'' \<le> c \<and> c \<le> CHR ''z'') \<or> is_digit c"

definition release_id_ok :: "string \<Rightarrow> bool" where
  \<comment> \<open>\<open>[A-Za-z0-9][A-Za-z0-9._-]{0,127}\<close>\<close>
  "release_id_ok s \<longleftrightarrow>
     s \<noteq> [] \<and> length s \<le> 128 \<and> is_id_char (hd s) \<and> list_all (\<lambda>c. is_id_char c \<or> c \<in> {CHR ''.'', CHR ''_'', CHR ''-''}) s"

definition validate_release_id :: "string \<Rightarrow> string result" where
  "validate_release_id release_id =
     (if release_id_ok release_id then Inr release_id else Inl (ValueError ''release_id contains unsupported characters''))"

definition release_file :: "path \<Rightarrow> string \<Rightarrow> string \<Rightarrow> path" where
  "release_file base category release_id = base @ [''B20'', category, release_id @ ''.json'']"

definition release_path :: "path \<Rightarrow> string \<Rightarrow> string \<Rightarrow> path result" where
  "release_path base category release_id =
     rbind (validate_release_id release_id) (\<lambda>release_id. Inr (release_file base category release_id))"

definition event_body :: "certification_event \<Rightarrow> json_object" where
  "event_body e =
     [(''event_type'', PStr (ce_event_type e)),
      (''release_id'', PStr (ce_release_id e)),
      (''occurred_at'', PStr (isoformat (CHR ''T'') (ce_occurred_at e))),
      (''actor_id'', PStr (ce_actor_id e)),
      (''payload'', PDict (ce_payload e)),
      (''previous_hash'', PStr (ce_previous_hash e))]"

definition event_digest :: "(string \<Rightarrow> string) \<Rightarrow> certification_event \<Rightarrow> string" where
  "event_digest sha256 e = sha256 (json_dumps True (PDict (event_body e)))"

definition event_dict :: "certification_event \<Rightarrow> json_object" where
  \<comment> \<open>\<open>asdict(event)\<close> as \<open>json.dumps(..., default=str)\<close> sees it\<close>
  "event_dict e =
     [(''event_type'', PStr (ce_event_type e)),
      (''release_id'', PStr (ce_release_id e)),
      (''occurred_at'', PStr (datetime_str (ce_occurred_at e))),
      (''actor_id'', PStr (ce_actor_id e)),
      (''payload'', PDict (ce_payload e)),
      (''previous_hash'', PStr (ce_previous_hash e)),
      (''event_hash'', PStr (ce_event_hash e))]"

definition stored_events :: "(string \<Rightarrow> string) \<Rightarrow> files \<Rightarrow> path \<Rightarrow> json_object list result" where
  "stored_events sha256 fs p =
     (if is_file fs p
      then rbind (load_verified sha256 fs p) (\<lambda>document.
        rbind (py_iter (dget_or document ''events'' (PList []))) (\<lambda>items. Inr (dicts_in items)))
      else Inr [])"

definition append_event ::
  "(string \<Rightarrow> string) \<Rightarrow> string \<Rightarrow> path \<Rightarrow> instant \<Rightarrow> string \<Rightarrow> string \<Rightarrow> string \<Rightarrow> json_object \<Rightarrow> datetime option \<Rightarrow> files \<Rightarrow>
   certification_event result \<times> files" where
  "append_event sha256 python base now event_type release_id actor_id payload occurred_at fs =
     (if event_type \<notin> set event_types then (Inl (ValueError ''unsupported certification lifecycle event''), fs)
      else case release_path base ''events'' release_id of
        Inl e \<Rightarrow> (Inl e, fs)
      | Inr p \<Rightarrow>
          let timestamp = (case occurred_at of Some t \<Rightarrow> t | None \<Rightarrow> Aware now) in
          if \<not> is_aware timestamp then (Inl (ValueError ''certification event timestamp must be timezone-aware''), fs)
          else case rbind (stored_events sha256 fs p) (\<lambda>events.
                 rbind (if events = [] then Inr ''GENESIS'' else rbind (py_item (last events) ''event_hash'') (\<lambda>h. Inr (py_str h))) (\<lambda>previous.
                 let e = \<lparr>ce_event_type = event_type, ce_release_id = release_id, ce_occurred_at = timestamp, ce_actor_id = actor_id,
                          ce_payload = payload, ce_previous_hash = previous, ce_event_hash = []\<rparr>;
                     e = e\<lparr>ce_event_hash := event_digest sha256 e\<rparr>
                 in rbind (json_copy (event_dict e)) (\<lambda>d. Inr (e, events @ [d])))) of
            Inl err \<Rightarrow> (Inl err, fs)
          | Inr (e, events) \<Rightarrow>
              (Inr e, snd (write_evidence sha256 python (Aware now) p
                 [(''status'', PStr ''PASS''), (''release_id'', PStr release_id), (''events'', PList (map PDict events))]
                 (''certify event '' @ event_type) ''certification-lifecycle-events'' fs)))"

definition event_of_dict :: "json_object \<Rightarrow> certification_event result" where
  "event_of_dict i =
     rbind (py_item i ''event_type'') (\<lambda>event_type. rbind (py_item i ''release_id'') (\<lambda>release_id.
     rbind (py_item i ''occurred_at'') (\<lambda>t. rbind (fromisoformat (py_str t)) (\<lambda>occurred_at.
     rbind (py_item i ''actor_id'') (\<lambda>actor_id. rbind (py_dict (dget_or i ''payload'' (PDict []))) (\<lambda>payload.
     rbind (py_item i ''previous_hash'') (\<lambda>previous_hash. rbind (py_item i ''event_hash'') (\<lambda>event_hash.
       Inr \<lparr>ce_event_type = py_str event_type, ce_release_id = py_str release_id, ce_occurred_at = occurred_at,
            ce_actor_id = py_str actor_id, ce_payload = payload, ce_previous_hash = py_str previous_hash,
            ce_event_hash = py_str event_hash\<rparr>))))))))"

definition events :: "(string \<Rightarrow> string) \<Rightarrow> path \<Rightarrow> string \<Rightarrow> files \<Rightarrow> certification_event list result" where
  "events sha256 base release_id fs =
     rbind (release_path base ''events'' release_id) (\<lambda>p. rbind (stored_events sha256 fs p) (rmap_list event_of_dict))"

fun chain_ok :: "(string \<Rightarrow> string) \<Rightarrow> string \<Rightarrow> certification_event list \<Rightarrow> bool" where
  "chain_ok sha256 previous [] = True"
| "chain_ok sha256 previous (e # es) =
     (if ce_previous_hash e \<noteq> previous \<or> ce_event_hash e \<noteq> event_digest sha256 e then False
      else chain_ok sha256 (ce_event_hash e) es)"

definition verify_event_chain :: "(string \<Rightarrow> string) \<Rightarrow> path \<Rightarrow> string \<Rightarrow> files \<Rightarrow> bool result" where
  "verify_event_chain sha256 base release_id fs =
     rbind (events sha256 base release_id fs) (\<lambda>es. Inr (chain_ok sha256 ''GENESIS'' es))"

section \<open>Runs and certificates\<close>

fun record_failures ::
  "(string \<Rightarrow> string) \<Rightarrow> string \<Rightarrow> path \<Rightarrow> instant \<Rightarrow> certification_result \<Rightarrow> string \<Rightarrow> gate_result list \<Rightarrow> files \<Rightarrow> unit result \<times> files" where
  "record_failures sha256 python base now result actor_id [] fs = (Inr (), fs)"
| "record_failures sha256 python base now result actor_id (g # gs) fs =
     (if gr_passed g then record_failures sha256 python base now result actor_id gs fs
      else case append_event sha256 python base now ''GateFailed'' (cr_release_id result) actor_id
             [(''gate'', PStr (gr_name g)), (''reason'', optional_str (gr_reason g)), (''evidence'', PList (map PStr (gr_evidence g)))]
             (Some (cr_generated_at result)) fs of
        (Inl e, fs) \<Rightarrow> (Inl e, fs)
      | (Inr _, fs) \<Rightarrow> record_failures sha256 python base now result actor_id gs fs)"

definition load_certificate :: "(string \<Rightarrow> string) \<Rightarrow> files \<Rightarrow> path \<Rightarrow> certification_result result" where
  "load_certificate sha256 fs p = rbind (load_verified sha256 fs p) (certificate_from_document sha256)"

definition save_run ::
  "(string \<Rightarrow> string) \<Rightarrow> string \<Rightarrow> path \<Rightarrow> instant \<Rightarrow> certification_result \<Rightarrow> string \<Rightarrow> files \<Rightarrow> path result \<times> files" where
  "save_run sha256 python base now result actor_id fs =
     (case release_path base ''runs'' (cr_release_id result) of
        Inl e \<Rightarrow> (Inl e, fs)
      | Inr p \<Rightarrow>
          if is_file fs (release_file base ''certificates'' (cr_release_id result))
          then (Inl (OSError ''a published release cannot be recertified in place''), fs)
          else if is_file fs p then
            (case load_certificate sha256 fs p of
               Inl e \<Rightarrow> (Inl e, fs)
             | Inr existing \<Rightarrow>
                 if cr_certificate_hash existing \<noteq> cr_certificate_hash result
                 then (Inl (OSError ''a different certification run already exists for this release''), fs)
                 else (Inr p, fs))
          else case append_event sha256 python base now ''CertificationStarted'' (cr_release_id result) actor_id
                 [(''commit'', PStr (cr_commit result)), (''certificate_hash'', PStr (cr_certificate_hash result))]
                 (Some (cr_generated_at result)) fs of
            (Inl e, fs) \<Rightarrow> (Inl e, fs)
          | (Inr _, fs) \<Rightarrow>
              (case record_failures sha256 python base now result actor_id (cr_gates result) fs of
                 (Inl e, fs) \<Rightarrow> (Inl e, fs)
               | (Inr _, fs) \<Rightarrow>
                   (case json_copy (certificate_dict result) of
                      Inl e \<Rightarrow> (Inl e, fs)
                    | Inr d \<Rightarrow> (Inr p, snd (write_evidence sha256 python (Aware now) p d ''certify run'' ''certification-run'' fs)))))"

definition load_run :: "(string \<Rightarrow> string) \<Rightarrow> path \<Rightarrow> string \<Rightarrow> files \<Rightarrow> certification_result result" where
  "load_run sha256 base release_id fs = rbind (release_path base ''runs'' release_id) (load_certificate sha256 fs)"

definition revocation :: "(string \<Rightarrow> string) \<Rightarrow> path \<Rightarrow> string \<Rightarrow> files \<Rightarrow> json_object option result" where
  "revocation sha256 base release_id fs =
     rbind (release_path base ''revocations'' release_id) (\<lambda>p.
       if is_file fs p then rbind (load_verified sha256 fs p) (\<lambda>d. Inr (Some d)) else Inr None)"

definition read_file :: "files \<Rightarrow> path \<Rightarrow> string result" where
  "read_file fs p = (case dget fs p of None \<Rightarrow> Inl (OSError ''No such file or directory'') | Some s \<Rightarrow> Inr s)"

definition publish_check ::
  "(string \<Rightarrow> string) \<Rightarrow> (string \<Rightarrow> string \<Rightarrow> json_object result) \<Rightarrow> path \<Rightarrow> certification_result \<Rightarrow> path \<Rightarrow> files \<Rightarrow> path result" where
  \<comment> \<open>what \<open>publish\<close> requires before it looks for an earlier certificate\<close>
  "publish_check sha256 decode base result public_key_file fs =
     (case cr_signature result of
        None \<Rightarrow> Inl (ValueError ''publishing requires a signed CERTIFIED result'')
      | Some signature \<Rightarrow>
          if cr_status result \<noteq> ''CERTIFIED'' \<or> signature = [] then Inl (ValueError ''publishing requires a signed CERTIFIED result'')
          else rbind (read_file fs public_key_file) (\<lambda>key.
            rbind (verify_release_token sha256 decode signature key (Some result)) (\<lambda>_.
            rbind (load_run sha256 base (cr_release_id result) fs) (\<lambda>run.
              if cr_certificate_hash run \<noteq> cr_certificate_hash result
              then Inl (ValueError ''published certificate does not match the saved certification run'')
              else rbind (revocation sha256 base (cr_release_id result) fs) (\<lambda>revoked.
                if revoked \<noteq> None \<and> revoked \<noteq> Some [] then Inl (ValueError ''a revoked release cannot be republished'')
                else release_path base ''certificates'' (cr_release_id result))))))"

definition publish_release ::
  "(string \<Rightarrow> string) \<Rightarrow> (string \<Rightarrow> string \<Rightarrow> json_object result) \<Rightarrow> string \<Rightarrow> path \<Rightarrow> instant \<Rightarrow> certification_result \<Rightarrow> string \<Rightarrow> path \<Rightarrow>
   files \<Rightarrow> path result \<times> files" where
  "publish_release sha256 decode python base now result actor_id public_key_file fs =
     (case publish_check sha256 decode base result public_key_file fs of
        Inl e \<Rightarrow> (Inl e, fs)
      | Inr p \<Rightarrow>
          if is_file fs p then
            (case load_certificate sha256 fs p of
               Inl e \<Rightarrow> (Inl e, fs)
             | Inr existing \<Rightarrow>
                 if cr_certificate_hash existing \<noteq> cr_certificate_hash result
                 then (Inl (OSError ''a different certificate already exists for this release''), fs)
                 else (Inr p, fs))
          else case json_copy (certificate_dict result) of
            Inl e \<Rightarrow> (Inl e, fs)
          | Inr d \<Rightarrow>
              (case append_event sha256 python base now ''ReleaseCertified'' (cr_release_id result) actor_id
                 [(''commit'', PStr (cr_commit result)), (''certificate_hash'', PStr (cr_certificate_hash result))] None
                 (snd (write_evidence sha256 python (Aware now) p d ''certify release'' ''production-release-certificate'' fs)) of
                 (Inl e, fs) \<Rightarrow> (Inl e, fs)
               | (Inr _, fs) \<Rightarrow> (Inr p, fs)))"

definition get_certificate :: "(string \<Rightarrow> string) \<Rightarrow> path \<Rightarrow> string \<Rightarrow> files \<Rightarrow> certification_result result" where
  "get_certificate sha256 base release_id fs =
     rbind (release_path base ''certificates'' release_id) (\<lambda>p.
       load_certificate sha256 fs (if is_file fs p then p else release_file base ''runs'' release_id))"

section \<open>Revocations\<close>

definition registry_path :: "path \<Rightarrow> path" where
  "registry_path base = base @ [''B20'', ''revocations.json'']"

definition in_revocations :: "path \<Rightarrow> path \<Rightarrow> bool" where
  \<comment> \<open>\<open>(base / "B20" / "revocations").glob("*.json")\<close>\<close>
  "in_revocations base p \<longleftrightarrow>
     p \<noteq> [] \<and> butlast p = base @ [''B20'', ''revocations''] \<and> drop (length (last p) - 5) (last p) = ''.json''"

definition write_revocation_registry ::
  "(string \<Rightarrow> string) \<Rightarrow> string \<Rightarrow> path \<Rightarrow> instant \<Rightarrow> files \<Rightarrow> path result \<times> files" where
  "write_revocation_registry sha256 python base now fs =
     (case rmap_list (load_verified sha256 fs) (sort (filter (in_revocations base) (dkeys fs))) of
        Inl e \<Rightarrow> (Inl e, fs)
      | Inr entries \<Rightarrow>
          (Inr (registry_path base),
           snd (write_evidence sha256 python (Aware now) (registry_path base)
             [(''status'', PStr ''PASS''), (''revocations'', PList (map PDict entries))]
             ''certify revocation-registry'' ''certification-revocation-registry'' fs)))"

definition revocable :: "(string \<Rightarrow> string) \<Rightarrow> path \<Rightarrow> string \<Rightarrow> string \<Rightarrow> files \<Rightarrow> certification_result result" where
  "revocable sha256 base release_id reason fs =
     (if strip reason = [] then Inl (ValueError ''revocation reason is required'')
      else rbind (release_path base ''certificates'' release_id) (\<lambda>p.
        if \<not> is_file fs p then Inl (ValueError ''only a published certificate can be revoked'')
        else rbind (load_certificate sha256 fs p) (\<lambda>certificate.
          if cr_status certificate \<noteq> ''CERTIFIED'' \<or> cr_signature certificate = None \<or> cr_signature certificate = Some []
          then Inl (ValueError ''only a signed CERTIFIED release can be revoked'')
          else Inr certificate)))"

definition revoke ::
  "(string \<Rightarrow> string) \<Rightarrow> string \<Rightarrow> path \<Rightarrow> instant \<Rightarrow> string \<Rightarrow> string \<Rightarrow> string \<Rightarrow> files \<Rightarrow> json_object result \<times> files" where
  "revoke sha256 python base now release_id actor_id reason fs =
     (case revocable sha256 base release_id reason fs of
        Inl e \<Rightarrow> (Inl e, fs)
      | Inr certificate \<Rightarrow>
          let p = release_file base ''revocations'' release_id in
          if is_file fs p then
            (case load_verified sha256 fs p of
               Inl e \<Rightarrow> (Inl e, fs)
             | Inr existing \<Rightarrow>
                 if \<not> py_eq (get_value existing ''certificate_hash'') (PStr (cr_certificate_hash certificate))
                 then (Inl (ValueError ''revocation does not match the current certificate''), fs)
                 else (Inr existing, fs))
          else
            let document = [(''status'', PStr ''REVOKED''), (''release_id'', PStr release_id),
                  (''certificate_hash'', PStr (cr_certificate_hash certificate)),
                  (''revoked_at'', PStr (isoformat (CHR ''T'') (Aware now))), (''actor_id'', PStr actor_id), (''reason'', PStr (strip reason))];
                fs = snd (write_evidence sha256 python (Aware now) p document ''certify revoke'' ''certification-revocation'' fs)
            in case append_event sha256 python base now ''CertificationRevoked'' release_id actor_id
                 [(''certificate_hash'', PStr (cr_certificate_hash certificate)), (''reason'', PStr (strip reason))] None fs of
              (Inl e, fs) \<Rightarrow> (Inl e, fs)
            | (Inr _, fs) \<Rightarrow>
                (case write_revocation_registry sha256 python base now fs of
                   (Inl e, fs) \<Rightarrow> (Inl e, fs)
                 | (Inr _, fs) \<Rightarrow> (load_verified sha256 fs p, fs)))"

definition view_release :: "(string \<Rightarrow> string) \<Rightarrow> path \<Rightarrow> string \<Rightarrow> files \<Rightarrow> json_object result" where
  "view_release sha256 base release_id fs =
     rbind (release_path base ''certificates'' release_id) (\<lambda>p. let published = is_file fs p in
     rbind (get_certificate sha256 base release_id fs) (\<lambda>certificate.
     rbind (json_copy (certificate_dict certificate)) (\<lambda>document.
       let document = dput ''published'' (PBool published) document;
           document = (if \<not> published \<and> cr_status certificate = ''CERTIFIED''
             then dput ''status'' (PStr ''READY_FOR_RELEASE'') document else document)
       in rbind (revocation sha256 base release_id fs) (\<lambda>revoked.
         Inr (case revoked of
                Some r \<Rightarrow> if r = [] then document else dput ''revocation'' (PDict r) (dput ''status'' (PStr ''REVOKED'') document)
              | None \<Rightarrow> document)))))"

inductive certification_step ::
  "(string \<Rightarrow> string) \<Rightarrow> (string \<Rightarrow> string \<Rightarrow> json_object result) \<Rightarrow> string \<Rightarrow> path \<Rightarrow> files \<Rightarrow> files \<Rightarrow> bool"
  for sha256 decode python base where
  append: "append_event sha256 python base now event_type release_id actor_id payload occurred_at fs = (r, fs') \<Longrightarrow>
    json_ok (PDict payload) \<Longrightarrow> representable (case occurred_at of Some t \<Rightarrow> t | None \<Rightarrow> Aware now) \<Longrightarrow>
    certification_step sha256 decode python base fs fs'"
| save: "save_run sha256 python base now result actor_id fs = (r', fs') \<Longrightarrow> certificate_values result \<Longrightarrow>
    certification_step sha256 decode python base fs fs'"
| publish: "publish_release sha256 decode python base now result actor_id public_key_file fs = (r', fs') \<Longrightarrow> certificate_values result \<Longrightarrow>
    representable (Aware now) \<Longrightarrow> certification_step sha256 decode python base fs fs'"
| revoke: "revoke sha256 python base now release_id actor_id reason fs = (r'', fs') \<Longrightarrow> representable (Aware now) \<Longrightarrow>
    certification_step sha256 decode python base fs fs'"


section \<open>Paths\<close>

lemma id_char_not_space: "is_id_char c \<or> c \<in> {CHR ''.'', CHR ''_'', CHR ''-''} \<Longrightarrow> \<not> is_space c"
  by (auto simp: is_id_char_def is_space_def is_digit_def less_eq_char_def)

lemma release_file_evidence: "release_id_ok release_id \<Longrightarrow> evidence_path (release_file base category release_id)"
proof -
  assume ok: "release_id_ok release_id"
  then have "list_all (\<lambda>c. \<not> is_space c) release_id"
    unfolding release_id_ok_def list_all_iff using id_char_not_space by blast
  then show ?thesis by (simp add: evidence_path_def release_file_def plain_name_def is_space_def)
qed

lemma registry_evidence: "evidence_path (registry_path base)"
  by (simp add: evidence_path_def registry_path_def plain_name_def is_space_def)

lemma release_file_inject [simp]:
  "release_file base category release_id = release_file base category' release_id' \<longleftrightarrow> category = category' \<and> release_id = release_id'"
  by (simp add: release_file_def)

lemma registry_not_release [simp]: "release_file base category release_id \<noteq> registry_path base" "registry_path base \<noteq> release_file base category release_id"
  by (simp_all add: release_file_def registry_path_def)

lemma in_revocations_release [simp]: "in_revocations base (release_file base category release_id) \<longleftrightarrow> category = ''revocations''"
  by (auto simp: in_revocations_def release_file_def butlast_append)

lemma in_revocations_registry [simp]: "\<not> in_revocations base (registry_path base)"
  by (simp add: in_revocations_def registry_path_def butlast_append)

lemma in_revocations_last: "in_revocations base p \<Longrightarrow> last (last p) = CHR ''n''"
proof -
  assume "in_revocations base p"
  then have "last p = take (length (last p) - 5) (last p) @ ''.json''" unfolding in_revocations_def by (metis append_take_drop_id)
  then have "last (last p) = last (take (length (last p) - 5) (last p) @ ''.json'')" by (rule arg_cong)
  then show ?thesis by simp
qed

lemma in_revocations_sidecar: "\<not> in_revocations base (sidecar_path p)" "\<not> in_revocations base (junit_path p)"
  using in_revocations_last [of base "sidecar_path p"] in_revocations_last [of base "junit_path p"] suffix_paths by auto

lemma keys_write_evidence:
  "set (dkeys (snd (write_evidence sha256 python timestamp p document command suite fs))) = {p, sidecar_path p, junit_path p} \<union> set (dkeys fs)"
  by (auto simp: write_evidence_def write_junit_def Let_def)

lemma revocations_write_evidence:
  "{q \<in> set (dkeys (snd (write_evidence sha256 python timestamp p document command suite fs))). in_revocations base q} =
     {q. q = p \<and> in_revocations base p} \<union> {q \<in> set (dkeys fs). in_revocations base q}"
  using in_revocations_sidecar unfolding keys_write_evidence by auto

lemma is_file_keys: "is_file fs p \<longleftrightarrow> p \<in> set (dkeys fs)"
  unfolding is_file_def using dget_None_keys by metis

section \<open>The invariant\<close>

definition log_is :: "(string \<Rightarrow> string) \<Rightarrow> files \<Rightarrow> path \<Rightarrow> certification_event list \<Rightarrow> bool" where
  "log_is sha256 fs p es \<longleftrightarrow>
     (if is_file fs p
      then \<exists>d. load_verified sha256 fs p = Inr d \<and> dget d ''events'' = Some (PList (map (\<lambda>e. PDict (sorted_dict (event_dict e))) es))
      else es = []) \<and>
     (\<forall>e \<in> set es. representable (ce_occurred_at e) \<and> json_ok (PDict (ce_payload e))) \<and> chain_ok sha256 ''GENESIS'' es"

definition logs_ok :: "(string \<Rightarrow> string) \<Rightarrow> path \<Rightarrow> files \<Rightarrow> bool" where
  "logs_ok sha256 base fs \<longleftrightarrow> (\<forall>release_id. release_id_ok release_id \<longrightarrow> (\<exists>es. log_is sha256 fs (release_file base ''events'' release_id) es))"

definition revocations_ok :: "(string \<Rightarrow> string) \<Rightarrow> path \<Rightarrow> files \<Rightarrow> bool" where
  "revocations_ok sha256 base fs \<longleftrightarrow> (\<forall>p. p \<in> set (dkeys fs) \<longrightarrow> in_revocations base p \<longrightarrow>
     (\<exists>release_id d. release_id_ok release_id \<and> p = release_file base ''revocations'' release_id \<and> load_verified sha256 fs p = Inr d \<and>
        json_ok (PDict d) \<and> json_value True (PDict d) = PDict d))"

definition registry_ok :: "(string \<Rightarrow> string) \<Rightarrow> path \<Rightarrow> files \<Rightarrow> bool" where
  "registry_ok sha256 base fs \<longleftrightarrow> (\<forall>p d. p \<in> set (dkeys fs) \<longrightarrow> in_revocations base p \<longrightarrow> load_verified sha256 fs p = Inr d \<longrightarrow>
     (\<exists>reg entries. verify_evidence sha256 fs (registry_path base) = (True, None) \<and> read_json fs (registry_path base) = Inr (PDict reg) \<and>
        dget reg ''revocations'' = Some (PList entries) \<and> PDict d \<in> set entries))"

definition repository_ok :: "(string \<Rightarrow> string) \<Rightarrow> path \<Rightarrow> files \<Rightarrow> bool" where
  "repository_ok sha256 base fs \<longleftrightarrow> logs_ok sha256 base fs \<and> revocations_ok sha256 base fs \<and> registry_ok sha256 base fs"

lemma log_frame:
  assumes "evidence_path p" "evidence_path q" "q \<noteq> p"
  shows "log_is sha256 (snd (write_evidence sha256 python timestamp p document command suite fs)) q es = log_is sha256 fs q es"
  unfolding log_is_def load_evidence_frame [OF assms] by (rule refl)

lemma logs_frame:
  assumes "logs_ok sha256 base fs" "evidence_path p" "\<And>release_id. p \<noteq> release_file base ''events'' release_id"
  shows "logs_ok sha256 base (snd (write_evidence sha256 python timestamp p document command suite fs))"
  unfolding logs_ok_def
proof (intro allI impI)
  fix release_id assume ok: "release_id_ok release_id"
  note q = release_file_evidence [OF ok, of base "''events''"]
  obtain es where "log_is sha256 fs (release_file base ''events'' release_id) es" using assms(1) ok unfolding logs_ok_def by blast
  then show "\<exists>es. log_is sha256 (snd (write_evidence sha256 python timestamp p document command suite fs)) (release_file base ''events'' release_id) es"
    using log_frame [OF assms(2) q assms(3) [symmetric]] by blast
qed

lemma revocations_frame:
  assumes "revocations_ok sha256 base fs" "evidence_path p" "\<not> in_revocations base p"
  shows "revocations_ok sha256 base (snd (write_evidence sha256 python timestamp p document command suite fs))"
  unfolding revocations_ok_def
proof (intro allI impI)
  let ?fs = "snd (write_evidence sha256 python timestamp p document command suite fs)"
  fix q assume q: "q \<in> set (dkeys ?fs)" "in_revocations base q"
  then have "q \<in> set (dkeys fs)" using revocations_write_evidence [of sha256 python timestamp p document command suite fs base] assms(3) by blast
  then obtain release_id d where r: "release_id_ok release_id" "q = release_file base ''revocations'' release_id" "load_verified sha256 fs q = Inr d"
      "json_ok (PDict d)" "json_value True (PDict d) = PDict d"
    using assms(1) q(2) unfolding revocations_ok_def by blast
  have "load_verified sha256 ?fs q = Inr d"
    using load_evidence_frame(1) [OF assms(2), of q] release_file_evidence [OF r(1)] r(2,3) q(2) assms(3) by metis
  with r show "\<exists>release_id d. release_id_ok release_id \<and> q = release_file base ''revocations'' release_id \<and> load_verified sha256 ?fs q = Inr d \<and>
      json_ok (PDict d) \<and> json_value True (PDict d) = PDict d" by blast
qed

lemma verify_frame:
  assumes "evidence_path p" "evidence_path q" "q \<noteq> p"
  shows "verify_evidence sha256 (snd (write_evidence sha256 python timestamp p document command suite fs)) q = verify_evidence sha256 fs q"
    and "read_json (snd (write_evidence sha256 python timestamp p document command suite fs)) q = read_json fs q"
proof -
  let ?fs = "snd (write_evidence sha256 python timestamp p document command suite fs)"
  have same: "dget ?fs q = dget fs q" "dget ?fs (sidecar_path q) = dget fs (sidecar_path q)"
    using dget_write_evidence [OF assms(1,2)] assms(3) by simp_all
  show "verify_evidence sha256 ?fs q = verify_evidence sha256 fs q" unfolding verify_evidence_def same by (rule refl)
  show "read_json ?fs q = read_json fs q" unfolding read_json_def same by (rule refl)
qed

lemma registry_frame:
  assumes "registry_ok sha256 base fs" "revocations_ok sha256 base fs" "evidence_path p" "\<not> in_revocations base p" "p \<noteq> registry_path base"
  shows "registry_ok sha256 base (snd (write_evidence sha256 python timestamp p document command suite fs))"
  unfolding registry_ok_def
proof (intro allI impI)
  let ?fs = "snd (write_evidence sha256 python timestamp p document command suite fs)"
  fix q d assume q: "q \<in> set (dkeys ?fs)" "in_revocations base q" and d: "load_verified sha256 ?fs q = Inr d"
  have mem: "q \<in> set (dkeys fs)" using q revocations_write_evidence [of sha256 python timestamp p document command suite fs base] assms(4) by blast
  then obtain release_id where "release_id_ok release_id" "q = release_file base ''revocations'' release_id"
    using assms(2) q(2) unfolding revocations_ok_def by blast
  then have "load_verified sha256 ?fs q = load_verified sha256 fs q"
    using load_evidence_frame(1) [OF assms(3)] release_file_evidence q(2) assms(4) by metis
  with d have "load_verified sha256 fs q = Inr d" by simp
  then show "\<exists>reg entries. verify_evidence sha256 ?fs (registry_path base) = (True, None) \<and> read_json ?fs (registry_path base) = Inr (PDict reg) \<and>
      dget reg ''revocations'' = Some (PList entries) \<and> PDict d \<in> set entries"
    using assms(1) mem q(2) unfolding registry_ok_def verify_frame [OF assms(3) registry_evidence assms(5) [symmetric]] by blast
qed

lemma repository_frame:
  assumes "repository_ok sha256 base fs" "evidence_path p" "p = release_file base category release_id" "category \<noteq> ''events''" "category \<noteq> ''revocations''"
  shows "repository_ok sha256 base (snd (write_evidence sha256 python timestamp p document command suite fs))"
  unfolding repository_ok_def
  using assms(1,4,5) unfolding repository_ok_def
  by (intro conjI logs_frame revocations_frame registry_frame assms(2)) (simp_all add: assms(3))

section \<open>Appending an event\<close>

lemma event_dict_ok: "json_ok (PDict (ce_payload e)) \<Longrightarrow> json_ok (PDict (event_dict e))"
  by (simp add: event_dict_def)

lemma sorted_event_hash: "dget (sorted_dict (event_dict e)) ''event_hash'' = Some (PStr (ce_event_hash e))"
  by (subst dget_sorted) (simp_all add: event_dict_def)

definition event_sorted :: "certification_event \<Rightarrow> certification_event" where
  "event_sorted e = e\<lparr>ce_payload := sorted_dict (ce_payload e)\<rparr>"

lemma event_sorted_simps [simp]:
  "ce_previous_hash (event_sorted e) = ce_previous_hash e" "ce_event_hash (event_sorted e) = ce_event_hash e"
  by (simp_all add: event_sorted_def)

lemma event_of_sorted:
  assumes "representable (ce_occurred_at e)"
  shows "event_of_dict (sorted_dict (event_dict e)) = Inr (event_sorted e)"
proof -
  have dist: "distinct (dkeys (event_dict e))" by (simp add: event_dict_def)
  have field: "dget (event_dict e) k = Some v \<Longrightarrow> json_value True v = w \<Longrightarrow> dget (sorted_dict (event_dict e)) k = Some w" for k v w
    using dget_sorted [OF dist, of k] by simp
  have fields: "dget (sorted_dict (event_dict e)) ''event_type'' = Some (PStr (ce_event_type e))"
    "dget (sorted_dict (event_dict e)) ''release_id'' = Some (PStr (ce_release_id e))"
    "dget (sorted_dict (event_dict e)) ''occurred_at'' = Some (PStr (datetime_str (ce_occurred_at e)))"
    "dget (sorted_dict (event_dict e)) ''actor_id'' = Some (PStr (ce_actor_id e))"
    "dget (sorted_dict (event_dict e)) ''payload'' = Some (PDict (sorted_dict (ce_payload e)))"
    "dget (sorted_dict (event_dict e)) ''previous_hash'' = Some (PStr (ce_previous_hash e))"
    "dget (sorted_dict (event_dict e)) ''event_hash'' = Some (PStr (ce_event_hash e))"
    by (rule field, simp add: event_dict_def, simp add: json_value_dict del: json_value.simps(2))+
  have "fromisoformat (datetime_str (ce_occurred_at e)) = Inr (ce_occurred_at e)"
    using assms by (simp add: datetime_str_def fromisoformat_isoformat)
  then show ?thesis
    by (simp add: event_of_dict_def py_item_def dget_or_def fields) (cases e; simp add: event_sorted_def)
qed

lemma event_digest_sorted: "event_digest sha256 (event_sorted e) = event_digest sha256 e"
proof -
  have "json_value True (PDict (event_body (event_sorted e))) = json_value True (PDict (event_body e))"
    by (rule json_value_PDict_cong) (simp add: event_body_def event_sorted_def json_value_sorted del: json_value.simps)
  then show ?thesis unfolding event_digest_def by (rule arg_cong [where f = sha256, OF json_dumps_cong])
qed

lemma chain_ok_sorted: "chain_ok sha256 h (map event_sorted es) = chain_ok sha256 h es"
  by (induction es arbitrary: h) (simp_all add: event_digest_sorted)

lemma chain_ok_append:
  "chain_ok sha256 h (es @ [e]) \<longleftrightarrow> chain_ok sha256 h es \<and> ce_previous_hash e = (if es = [] then h else ce_event_hash (last es)) \<and>
     ce_event_hash e = event_digest sha256 e"
  by (induction es arbitrary: h) auto

lemma stored_events_log: "log_is sha256 fs p es \<Longrightarrow> stored_events sha256 fs p = Inr (map (\<lambda>e. sorted_dict (event_dict e)) es)"
proof -
  assume log: "log_is sha256 fs p es"
  have "dicts_in (map (\<lambda>e. PDict (sorted_dict (event_dict e))) es) = map (\<lambda>e. sorted_dict (event_dict e)) es"
    using dicts_in_map [of "map (\<lambda>e. sorted_dict (event_dict e)) es"] by (simp add: comp_def)
  with log show ?thesis by (auto simp: log_is_def stored_events_def dget_or_def split: if_splits)
qed

lemma events_log:
  assumes "release_id_ok release_id" "log_is sha256 fs (release_file base ''events'' release_id) es"
  shows "events sha256 base release_id fs = Inr (map event_sorted es)"
proof -
  have "rmap_list event_of_dict (map (\<lambda>e. sorted_dict (event_dict e)) es) = Inr (map event_sorted es)"
  proof -
    have "\<forall>e \<in> set es. representable (ce_occurred_at e)" using assms(2) unfolding log_is_def by blast
    then show ?thesis by (induction es) (simp_all add: event_of_sorted)
  qed
  then show ?thesis using assms(1) stored_events_log [OF assms(2)]
    by (simp add: events_def release_path_def validate_release_id_def)
qed

lemma sorted_dict_idem [simp]: "sorted_dict (sorted_dict d) = sorted_dict d"
  using json_value_sorted [of d] unfolding json_value_dict by simp

lemma json_ok_sorted: "json_ok (PDict d) \<Longrightarrow> json_ok (PDict (sorted_dict d))"
  unfolding json_value_dict [symmetric] by (rule json_value_ok)

lemma append_event_log:
  assumes hash: "digest_ok sha256" and log: "log_is sha256 fs (release_file base ''events'' release_id) es"
    and id: "release_id_ok release_id" and type: "event_type \<in> set event_types"
    and ts: "timestamp = (case occurred_at of Some t \<Rightarrow> t | None \<Rightarrow> Aware now)" "is_aware timestamp" "representable timestamp"
    and payload: "json_ok (PDict payload)"
  shows "\<exists>e document. append_event sha256 python base now event_type release_id actor_id payload occurred_at fs =
      (Inr e, snd (write_evidence sha256 python (Aware now) (release_file base ''events'' release_id) document (''certify event '' @ event_type)
        ''certification-lifecycle-events'' fs)) \<and>
    log_is sha256 (snd (write_evidence sha256 python (Aware now) (release_file base ''events'' release_id) document (''certify event '' @ event_type)
        ''certification-lifecycle-events'' fs)) (release_file base ''events'' release_id) (es @ [e])"
proof -
  let ?p = "release_file base ''events'' release_id"
  let ?s = "\<lambda>e. sorted_dict (event_dict e)"
  define previous where "previous = (if es = [] then ''GENESIS'' else ce_event_hash (last es))"
  define e0 where "e0 = \<lparr>ce_event_type = event_type, ce_release_id = release_id, ce_occurred_at = timestamp, ce_actor_id = actor_id,
    ce_payload = payload, ce_previous_hash = previous, ce_event_hash = []\<rparr>"
  define e where "e = e0\<lparr>ce_event_hash := event_digest sha256 e0\<rparr>"
  define document where "document = [(''status'', PStr ''PASS''), (''release_id'', PStr release_id), (''events'', PList (map PDict (map ?s es @ [event_dict e])))]"
  let ?fs = "snd (write_evidence sha256 python (Aware now) ?p document (''certify event '' @ event_type) ''certification-lifecycle-events'' fs)"
  have prev: "(if map ?s es = [] then Inr ''GENESIS'' else rbind (py_item (last (map ?s es)) ''event_hash'') (\<lambda>h. Inr (py_str h))) = Inr previous"
    using sorted_event_hash [of "last es"] by (simp add: previous_def py_item_def last_map)
  have e_ok: "json_ok (PDict (ce_payload e))" "ce_payload e = payload" using payload by (simp_all add: e_def e0_def)
  have copy: "json_copy (event_dict e) = Inr (event_dict e)" by (rule json_copy_ok [OF event_dict_ok [OF e_ok(1)]])
  have run: "append_event sha256 python base now event_type release_id actor_id payload occurred_at fs = (Inr e, ?fs)"
  proof -
    have path: "release_path base ''events'' release_id = Inr ?p" using id by (simp add: release_path_def validate_release_id_def)
    show ?thesis
      unfolding append_event_def path sum.case Let_def ts(1) [symmetric] stored_events_log [OF log] rbind.simps prev
        e0_def [symmetric] e_def [symmetric] copy document_def
      using type ts(2) by simp
  qed
  have digest: "event_digest sha256 e = event_digest sha256 e0" by (simp add: e_def event_digest_def event_body_def)
  have items_ok: "json_ok (PDict document)"
  proof -
    have "\<forall>x \<in> set es. json_ok (PDict (?s x))" using log json_ok_sorted event_dict_ok unfolding log_is_def by blast
    then show ?thesis using event_dict_ok [OF e_ok(1)] by (auto simp: document_def list_all_iff)
  qed
  note p = release_file_evidence [OF id, of base "''events''"]
  have load: "load_verified sha256 ?fs ?p = Inr (stored_document python (Aware now) (''certify event '' @ event_type) document)"
    by (rule load_evidence_write(1) [OF hash p items_ok])
  have "json_value True (PList (map PDict (map ?s es @ [event_dict e]))) = PList (map (\<lambda>e. PDict (?s e)) (es @ [e]))"
    by (simp add: json_value_sorted json_value_dict comp_def del: json_value.simps(2))
  then have stored: "dget (stored_document python (Aware now) (''certify event '' @ event_type) document) ''events'' =
      Some (PList (map (\<lambda>e. PDict (?s e)) (es @ [e])))"
    using dget_stored_Some [OF items_ok, of "''events''"] by (simp add: document_def del: json_value.simps)
  have "is_file ?fs ?p" using dget_write_evidence(1) [OF p p] by (simp add: is_file_def)
  moreover have "chain_ok sha256 ''GENESIS'' (es @ [e])"
    using log digest by (simp add: chain_ok_append log_is_def previous_def e_def e0_def)
  moreover have "representable (ce_occurred_at e)" using ts(3) by (simp add: e_def e0_def)
  ultimately have "log_is sha256 ?fs ?p (es @ [e])"
    using load stored log e_ok(1) unfolding log_is_def by auto
  with run show ?thesis by blast
qed

lemma append_event_run:
  assumes "digest_ok sha256" "logs_ok sha256 base fs" "release_id_ok release_id" "event_type \<in> set event_types"
    and "is_aware (case occurred_at of Some t \<Rightarrow> t | None \<Rightarrow> Aware now)" "representable (case occurred_at of Some t \<Rightarrow> t | None \<Rightarrow> Aware now)"
    and "json_ok (PDict payload)"
  obtains e es document where "append_event sha256 python base now event_type release_id actor_id payload occurred_at fs =
      (Inr e, snd (write_evidence sha256 python (Aware now) (release_file base ''events'' release_id) document (''certify event '' @ event_type)
        ''certification-lifecycle-events'' fs))"
    and "log_is sha256 fs (release_file base ''events'' release_id) es"
    and "log_is sha256 (snd (append_event sha256 python base now event_type release_id actor_id payload occurred_at fs))
        (release_file base ''events'' release_id) (es @ [e])"
proof -
  obtain es where "log_is sha256 fs (release_file base ''events'' release_id) es" using assms(2,3) unfolding logs_ok_def by blast
  with append_event_log [OF assms(1) this assms(3,4) refl assms(5-7)] that show thesis by (metis snd_conv)
qed

lemma append_event_fails:
  assumes "\<not> release_id_ok release_id \<or> event_type \<notin> set event_types \<or> \<not> is_aware (case occurred_at of Some t \<Rightarrow> t | None \<Rightarrow> Aware now)"
  shows "\<exists>err. append_event sha256 python base now event_type release_id actor_id payload occurred_at fs = (Inl err, fs)"
  using assms by (auto simp: append_event_def release_path_def validate_release_id_def Let_def)

definition keeps_release_files :: "path \<Rightarrow> files \<Rightarrow> files \<Rightarrow> bool" where
  \<comment> \<open>runs, certificates and revocations that exist do not change\<close>
  "keeps_release_files base fs fs' \<longleftrightarrow>
     (\<forall>release_id category. release_id_ok release_id \<longrightarrow> category \<in> {''runs'', ''certificates'', ''revocations''} \<longrightarrow>
        is_file fs (release_file base category release_id) \<longrightarrow>
        is_file fs' (release_file base category release_id) \<and>
        dget fs' (release_file base category release_id) = dget fs (release_file base category release_id) \<and>
        dget fs' (sidecar_path (release_file base category release_id)) = dget fs (sidecar_path (release_file base category release_id)))"

definition extends_logs :: "(string \<Rightarrow> string) \<Rightarrow> path \<Rightarrow> files \<Rightarrow> files \<Rightarrow> bool" where
  "extends_logs sha256 base fs fs' \<longleftrightarrow>
     (\<forall>release_id es. release_id_ok release_id \<longrightarrow> log_is sha256 fs (release_file base ''events'' release_id) es \<longrightarrow>
        (\<exists>new. log_is sha256 fs' (release_file base ''events'' release_id) (es @ new)))"

lemma keeps_release_files_refl [simp]: "keeps_release_files base fs fs"
  by (simp add: keeps_release_files_def)

lemma keeps_release_files_trans: "keeps_release_files base fs fs' \<Longrightarrow> keeps_release_files base fs' fs'' \<Longrightarrow> keeps_release_files base fs fs''"
  unfolding keeps_release_files_def by (metis (no_types, lifting))

lemma extends_logs_refl [simp]: "extends_logs sha256 base fs fs"
  unfolding extends_logs_def by (metis append_Nil2)

lemma extends_logs_trans: "extends_logs sha256 base fs fs' \<Longrightarrow> extends_logs sha256 base fs' fs'' \<Longrightarrow> extends_logs sha256 base fs fs''"
  unfolding extends_logs_def by (metis append_assoc)

lemma keeps_release_files_write:
  assumes "evidence_path p" "\<And>category release_id. category \<in> {''runs'', ''certificates'', ''revocations''} \<Longrightarrow> p = release_file base category release_id \<Longrightarrow> \<not> is_file fs p"
  shows "keeps_release_files base fs (snd (write_evidence sha256 python timestamp p document command suite fs))"
  unfolding keeps_release_files_def
proof (intro allI impI)
  let ?fs = "snd (write_evidence sha256 python timestamp p document command suite fs)"
  fix release_id category assume q: "release_id_ok release_id" "category \<in> {''runs'', ''certificates'', ''revocations''}"
    "is_file fs (release_file base category release_id)"
  let ?q = "release_file base category release_id"
  have ne: "?q \<noteq> p" using assms(2) q(2,3) by metis
  note e = release_file_evidence [OF q(1), of base category]
  have same: "dget ?fs ?q = dget fs ?q" "dget ?fs (sidecar_path ?q) = dget fs (sidecar_path ?q)"
    using dget_write_evidence [OF assms(1) e] ne by simp_all
  moreover have "is_file ?fs ?q" using q(3) same(1) unfolding is_file_def by simp
  ultimately show "is_file ?fs ?q \<and> dget ?fs ?q = dget fs ?q \<and> dget ?fs (sidecar_path ?q) = dget fs (sidecar_path ?q)" by blast
qed

lemma extends_logs_write:
  assumes "evidence_path p" "\<And>release_id. p \<noteq> release_file base ''events'' release_id"
  shows "extends_logs sha256 base fs (snd (write_evidence sha256 python timestamp p document command suite fs))"
  unfolding extends_logs_def using log_frame [OF assms(1) release_file_evidence assms(2) [symmetric]] by (metis append_Nil2)

definition advances :: "(string \<Rightarrow> string) \<Rightarrow> path \<Rightarrow> files \<Rightarrow> files \<Rightarrow> bool" where
  "advances sha256 base fs fs' \<longleftrightarrow> keeps_release_files base fs fs' \<and> extends_logs sha256 base fs fs'"

lemma advances_refl [simp]: "advances sha256 base fs fs"
  by (simp add: advances_def)

lemma advances_trans: "advances sha256 base fs fs' \<Longrightarrow> advances sha256 base fs' fs'' \<Longrightarrow> advances sha256 base fs fs''"
  unfolding advances_def using keeps_release_files_trans extends_logs_trans by blast

lemma advances_write:
  assumes "release_id_ok release_id" "category \<noteq> ''events''" "\<not> is_file fs (release_file base category release_id)"
  shows "advances sha256 base fs (snd (write_evidence sha256 python timestamp (release_file base category release_id) document command suite fs))"
  unfolding advances_def
  using assms by (intro conjI keeps_release_files_write extends_logs_write release_file_evidence) auto

definition log_effect :: "(string \<Rightarrow> string) \<Rightarrow> path \<Rightarrow> files \<Rightarrow> files \<Rightarrow> bool" where
  \<comment> \<open>what appending events keeps\<close>
  "log_effect sha256 base fs fs' \<longleftrightarrow> logs_ok sha256 base fs' \<and> advances sha256 base fs fs' \<and>
     (\<forall>category release_id. release_id_ok release_id \<longrightarrow> category \<noteq> ''events'' \<longrightarrow>
        is_file fs' (release_file base category release_id) = is_file fs (release_file base category release_id)) \<and>
     (revocations_ok sha256 base fs \<longrightarrow> revocations_ok sha256 base fs' \<and>
        (registry_ok sha256 base fs \<longrightarrow> registry_ok sha256 base fs'))"

lemma log_effect_refl: "logs_ok sha256 base fs \<Longrightarrow> log_effect sha256 base fs fs"
  by (simp add: log_effect_def)

lemma log_effect_trans: "log_effect sha256 base fs fs' \<Longrightarrow> log_effect sha256 base fs' fs'' \<Longrightarrow> log_effect sha256 base fs fs''"
proof -
  assume a: "log_effect sha256 base fs fs'" and b: "log_effect sha256 base fs' fs''"
  have "advances sha256 base fs fs''" using a b advances_trans unfolding log_effect_def by blast
  moreover have "logs_ok sha256 base fs''" using b unfolding log_effect_def by blast
  moreover have "is_file fs'' (release_file base category release_id) = is_file fs (release_file base category release_id)"
    if "release_id_ok release_id" "category \<noteq> ''events''" for category release_id
    using a b that unfolding log_effect_def by blast
  ultimately show ?thesis using a b unfolding log_effect_def by blast
qed

lemma append_event_effect:
  assumes hash: "digest_ok sha256" and logs: "logs_ok sha256 base fs" and payload: "json_ok (PDict payload)"
    and ts: "representable (case occurred_at of Some t \<Rightarrow> t | None \<Rightarrow> Aware now)"
    and run: "append_event sha256 python base now event_type release_id actor_id payload occurred_at fs = (r, fs')"
  shows "log_effect sha256 base fs fs'"
    and "release_id_ok release_id \<Longrightarrow> event_type \<in> set event_types \<Longrightarrow> is_aware (case occurred_at of Some t \<Rightarrow> t | None \<Rightarrow> Aware now) \<Longrightarrow> is_ok r"
proof -
  let ?ok = "release_id_ok release_id \<and> event_type \<in> set event_types \<and> is_aware (case occurred_at of Some t \<Rightarrow> t | None \<Rightarrow> Aware now)"
  have "log_effect sha256 base fs fs' \<and> (?ok \<longrightarrow> is_ok r)"
  proof (cases ?ok)
    case False
    then have "\<exists>err. append_event sha256 python base now event_type release_id actor_id payload occurred_at fs = (Inl err, fs)"
      by (intro append_event_fails) blast
    then have "fs' = fs" using run by auto
    with False log_effect_refl [OF logs] show ?thesis by blast
  next
    case True
    let ?p = "release_file base ''events'' release_id"
    note p = release_file_evidence [OF conjunct1 [OF True], of base "''events''"]
    have step: "\<exists>e. log_is sha256 fs' ?p (es @ [e]) \<and> is_ok r \<and> (\<exists>document command suite. fs' =
        snd (write_evidence sha256 python (Aware now) ?p document command suite fs))" if "log_is sha256 fs ?p es" for es
      using append_event_log [OF hash that _ _ refl _ ts payload, of event_type python actor_id] True run by auto
    obtain es where es: "log_is sha256 fs ?p es" using logs True unfolding logs_ok_def by blast
    then obtain document command suite where fs': "fs' = snd (write_evidence sha256 python (Aware now) ?p document command suite fs)"
      and ok: "is_ok r" using step by blast
    have other: "log_is sha256 fs' (release_file base ''events'' i) xs = log_is sha256 fs (release_file base ''events'' i) xs"
      if "release_id_ok i" "i \<noteq> release_id" for i xs
      unfolding fs' using log_frame [OF p release_file_evidence [OF that(1)]] that(2) by simp
    have "logs_ok sha256 base fs'"
      unfolding logs_ok_def using other step [OF es] logs unfolding logs_ok_def by metis
    moreover have "extends_logs sha256 base fs fs'"
      unfolding extends_logs_def using other step by (metis append_Nil2)
    moreover have "keeps_release_files base fs fs'" unfolding fs' by (rule keeps_release_files_write [OF p]) auto
    moreover have "is_file fs' (release_file base category i) = is_file fs (release_file base category i)"
      if "release_id_ok i" "category \<noteq> ''events''" for category i
      unfolding fs' by (rule load_evidence_frame(2) [OF p release_file_evidence [OF that(1)]]) (simp add: that(2))
    moreover have "revocations_ok sha256 base fs \<longrightarrow> revocations_ok sha256 base fs'" unfolding fs'
      by (intro impI revocations_frame [OF _ p]) simp_all
    moreover have "revocations_ok sha256 base fs \<longrightarrow> registry_ok sha256 base fs \<longrightarrow> registry_ok sha256 base fs'" unfolding fs'
      by (intro impI registry_frame [OF _ _ p]) simp_all
    ultimately show ?thesis using ok unfolding log_effect_def advances_def by blast
  qed
  then show "log_effect sha256 base fs fs'"
    and "release_id_ok release_id \<Longrightarrow> event_type \<in> set event_types \<Longrightarrow> is_aware (case occurred_at of Some t \<Rightarrow> t | None \<Rightarrow> Aware now) \<Longrightarrow> is_ok r"
    by blast+
qed

lemma record_failures_effect:
  assumes "digest_ok sha256" "representable (cr_generated_at result)"
  shows "record_failures sha256 python base now result actor_id gs fs = (r, fs') \<Longrightarrow> logs_ok sha256 base fs \<Longrightarrow> log_effect sha256 base fs fs'"
proof (induction gs arbitrary: fs)
  case Nil
  then show ?case by (simp add: log_effect_refl)
next
  case (Cons g gs)
  let ?payload = "[(''gate'', PStr (gr_name g)), (''reason'', optional_str (gr_reason g)), (''evidence'', PList (map PStr (gr_evidence g)))]"
  show ?case
  proof (cases "gr_passed g")
    case False
    obtain r1 fs1 where step: "append_event sha256 python base now ''GateFailed'' (cr_release_id result) actor_id ?payload (Some (cr_generated_at result)) fs = (r1, fs1)"
      by fastforce
    have payload: "json_ok (PDict ?payload)" by (simp add: list_all_iff)
    have one: "log_effect sha256 base fs fs1" using append_event_effect(1) [OF assms(1) Cons.prems(2) payload _ step] assms(2) by simp
    show ?thesis
    proof (cases r1)
      case (Inl e)
      with Cons.prems(1) False step one show ?thesis by simp
    next
      case (Inr e)
      with Cons.prems(1) False step have "record_failures sha256 python base now result actor_id gs fs1 = (r, fs')" by simp
      moreover have "logs_ok sha256 base fs1" using one unfolding log_effect_def by blast
      ultimately show ?thesis by (rule log_effect_trans [OF one Cons.IH])
    qed
  qed (use Cons in simp)
qed

lemma log_effect_repository: "log_effect sha256 base fs fs' \<Longrightarrow> repository_ok sha256 base fs \<Longrightarrow> repository_ok sha256 base fs' \<and> advances sha256 base fs fs'"
  unfolding log_effect_def repository_ok_def by blast

lemma release_path_ok: "release_path base category release_id = Inr p \<longleftrightarrow> release_id_ok release_id \<and> p = release_file base category release_id"
  by (auto simp: release_path_def validate_release_id_def)

section \<open>Every operation keeps the invariant\<close>

lemma log_effect_parts:
  assumes "log_effect sha256 base fs fs'"
  shows "logs_ok sha256 base fs'" "advances sha256 base fs fs'"
    and "release_id_ok release_id \<Longrightarrow> category \<noteq> ''events'' \<Longrightarrow>
      is_file fs' (release_file base category release_id) = is_file fs (release_file base category release_id)"
  using assms unfolding log_effect_def by blast+

lemma save_run_effect:
  assumes hash: "digest_ok sha256" and ok: "repository_ok sha256 base fs" and vals: "certificate_values result"
    and run: "save_run sha256 python base now result actor_id fs = (r, fs')"
  shows "repository_ok sha256 base fs' \<and> advances sha256 base fs fs'"
proof (cases "fs' = fs")
  case False
  let ?id = "cr_release_id result" and ?payload = "[(''commit'', PStr (cr_commit result)), (''certificate_hash'', PStr (cr_certificate_hash result))]"
  let ?p = "release_file base ''runs'' (cr_release_id result)"
  have path: "release_path base ''runs'' ?id = Inr ?p" "release_id_ok ?id"
    using run False release_path_ok [of base "''runs''" ?id] by (cases "release_path base ''runs'' ?id"; auto simp: save_run_def)+
  have absent: "\<not> is_file fs (release_file base ''certificates'' ?id)" "\<not> is_file fs ?p"
    using run False unfolding save_run_def path sum.case
    by (auto split: sum.splits if_splits)
  obtain r1 fs1 where step1: "append_event sha256 python base now ''CertificationStarted'' ?id actor_id ?payload (Some (cr_generated_at result)) fs = (r1, fs1)"
    by fastforce
  obtain r2 fs2 where step2: "record_failures sha256 python base now result actor_id (cr_gates result) fs1 = (r2, fs2)" by fastforce
  have times: "representable (cr_generated_at result)" using vals by (simp add: certificate_values_def)
  have payload: "json_ok (PDict ?payload)" by simp
  have logs: "logs_ok sha256 base fs" using ok by (simp add: repository_ok_def)
  have one: "log_effect sha256 base fs fs1" using append_event_effect(1) [OF hash logs payload _ step1] times by simp
  have two: "log_effect sha256 base fs fs2"
    using log_effect_trans [OF one record_failures_effect [OF hash times step2 log_effect_parts(1) [OF one]]] .
  have three: "repository_ok sha256 base (snd (write_evidence sha256 python (Aware now) ?p (certificate_dict result) ''certify run'' ''certification-run'' fs2)) \<and>
      advances sha256 base fs (snd (write_evidence sha256 python (Aware now) ?p (certificate_dict result) ''certify run'' ''certification-run'' fs2))"
  proof
    have "repository_ok sha256 base fs2" using log_effect_repository [OF two ok] by blast
    then show "repository_ok sha256 base (snd (write_evidence sha256 python (Aware now) ?p (certificate_dict result) ''certify run'' ''certification-run'' fs2))"
      by (rule repository_frame [OF _ release_file_evidence [OF path(2)] refl]) simp_all
    have "\<not> is_file fs2 ?p" using log_effect_parts(3) [OF two path(2), of "''runs''"] absent(2) by simp
    then show "advances sha256 base fs (snd (write_evidence sha256 python (Aware now) ?p (certificate_dict result) ''certify run'' ''certification-run'' fs2))"
      by (intro advances_trans [OF log_effect_parts(2) [OF two] advances_write [OF path(2)]]) simp_all
  qed
  have "fs' = fs1 \<or> fs' = fs2 \<or> fs' = snd (write_evidence sha256 python (Aware now) ?p (certificate_dict result) ''certify run'' ''certification-run'' fs2)"
    using run unfolding save_run_def path(1) sum.case step1 prod.case step2 json_copy_ok [OF certificate_dict_ok [OF vals]]
    by (simp add: absent split: sum.splits)
  then show ?thesis using three log_effect_repository [OF one ok] log_effect_repository [OF two ok] by auto
qed (simp add: ok)

lemma publish_effect:
  assumes hash: "digest_ok sha256" and ok: "repository_ok sha256 base fs" and vals: "certificate_values result" and now: "representable (Aware now)"
    and run: "publish_release sha256 decode python base now result actor_id public_key_file fs = (r, fs')"
  shows "repository_ok sha256 base fs' \<and> advances sha256 base fs fs'"
proof (cases "fs' = fs")
  case False
  let ?id = "cr_release_id result" and ?payload = "[(''commit'', PStr (cr_commit result)), (''certificate_hash'', PStr (cr_certificate_hash result))]"
  let ?p = "release_file base ''certificates'' (cr_release_id result)"
  obtain p where check: "publish_check sha256 decode base result public_key_file fs = Inr p"
    using run False by (cases "publish_check sha256 decode base result public_key_file fs") (auto simp: publish_release_def)
  then have "release_path base ''certificates'' ?id = Inr p"
    by (auto simp: publish_check_def rbind_eq_Inr split: option.splits if_splits)
  then have p: "p = ?p" "release_id_ok ?id" by (simp_all add: release_path_ok)
  have absent: "\<not> is_file fs ?p" using run False unfolding publish_release_def check sum.case p(1) by (auto split: sum.splits if_splits)
  let ?fs = "snd (write_evidence sha256 python (Aware now) ?p (certificate_dict result) ''certify release'' ''production-release-certificate'' fs)"
  obtain r1 fs1 where step: "append_event sha256 python base now ''ReleaseCertified'' ?id actor_id ?payload None ?fs = (r1, fs1)" by fastforce
  have fs': "fs' = fs1"
    using run unfolding publish_release_def check sum.case p(1) json_copy_ok [OF certificate_dict_ok [OF vals]] step prod.case
    by (simp add: absent split: sum.splits)
  have one: "repository_ok sha256 base ?fs" by (rule repository_frame [OF ok release_file_evidence [OF p(2)] refl]) simp_all
  have payload: "json_ok (PDict ?payload)" by simp
  have "logs_ok sha256 base ?fs" using one by (simp add: repository_ok_def)
  then have two: "log_effect sha256 base ?fs fs1" using append_event_effect(1) [OF hash _ payload _ step] now by simp
  have "advances sha256 base fs ?fs" by (rule advances_write [OF p(2) _ absent]) simp
  then show ?thesis using log_effect_repository [OF two one] advances_trans fs' by blast
qed (simp add: ok)

lemma revocations_write:
  assumes hash: "digest_ok sha256" and ok: "revocations_ok sha256 base fs" and id: "release_id_ok release_id" and doc: "json_ok (PDict document)"
  shows "revocations_ok sha256 base (snd (write_evidence sha256 python timestamp (release_file base ''revocations'' release_id) document command suite fs))"
  unfolding revocations_ok_def
proof (intro allI impI)
  let ?p = "release_file base ''revocations'' release_id"
  let ?fs = "snd (write_evidence sha256 python timestamp ?p document command suite fs)"
  note p = release_file_evidence [OF id, of base "''revocations''"]
  fix q assume q: "q \<in> set (dkeys ?fs)" "in_revocations base q"
  show "\<exists>release_id d. release_id_ok release_id \<and> q = release_file base ''revocations'' release_id \<and> load_verified sha256 ?fs q = Inr d \<and>
      json_ok (PDict d) \<and> json_value True (PDict d) = PDict d"
  proof (cases "q = ?p")
    case True
    have "json_value True (PDict (stored_document python timestamp command document)) = PDict (stored_document python timestamp command document)"
      unfolding stored_document_value [symmetric] by (rule json_value_idem)
    with True show ?thesis using load_evidence_write(1) [OF hash p doc] stored_document_ok [OF doc] id by blast
  next
    case False
    then have "q \<in> set (dkeys fs)" using q revocations_write_evidence [of sha256 python timestamp ?p document command suite fs base] by blast
    then obtain i d where r: "release_id_ok i" "q = release_file base ''revocations'' i" "load_verified sha256 fs q = Inr d"
        "json_ok (PDict d)" "json_value True (PDict d) = PDict d"
      using ok q(2) unfolding revocations_ok_def by blast
    have "load_verified sha256 ?fs q = Inr d"
      using load_evidence_frame(1) [OF p release_file_evidence [OF r(1), of base "''revocations''"]] False r(2,3) by simp
    with r show ?thesis by blast
  qed
qed

lemma rmap_list_total: "(\<And>x. x \<in> set xs \<Longrightarrow> \<exists>y. f x = Inr y) \<Longrightarrow> \<exists>ys. rmap_list f xs = Inr ys"
proof (induction xs)
  case (Cons x xs)
  from Cons.prems [of x] obtain y where "f x = Inr y" by auto
  moreover from Cons obtain ys where "rmap_list f xs = Inr ys" by auto
  ultimately show ?case by simp
qed simp

lemma write_registry_effect:
  assumes hash: "digest_ok sha256" and ok: "logs_ok sha256 base fs" "revocations_ok sha256 base fs"
  obtains fs' where "write_revocation_registry sha256 python base now fs = (Inr (registry_path base), fs')"
    and "repository_ok sha256 base fs'" and "advances sha256 base fs fs'"
    and "\<And>release_id category. release_id_ok release_id \<Longrightarrow> load_verified sha256 fs' (release_file base category release_id) =
      load_verified sha256 fs (release_file base category release_id)"
proof -
  let ?files = "sort (filter (in_revocations base) (dkeys fs))"
  have files: "\<exists>d. load_verified sha256 fs p = Inr d \<and> json_ok (PDict d) \<and> json_value True (PDict d) = PDict d"
    if "p \<in> set ?files" for p
  proof -
    have "p \<in> set (dkeys fs)" "in_revocations base p" using that by simp_all
    then show ?thesis using ok(2) unfolding revocations_ok_def by blast
  qed
  have "\<exists>d. load_verified sha256 fs p = Inr d" if "p \<in> set ?files" for p using files [OF that] by blast
  then obtain entries where entries: "rmap_list (load_verified sha256 fs) ?files = Inr entries" using rmap_list_total [of ?files] by blast
  have entry: "json_ok (PDict d) \<and> json_value True (PDict d) = PDict d" if "d \<in> set entries" for d
    using rmap_list_set [OF entries that] files by fastforce
  let ?doc = "[(''status'', PStr ''PASS''), (''revocations'', PList (map PDict entries))]"
  let ?fs = "snd (write_evidence sha256 python (Aware now) (registry_path base) ?doc ''certify revocation-registry'' ''certification-revocation-registry'' fs)"
  note p = registry_evidence [of base]
  have doc: "json_ok (PDict ?doc)" using entry by (simp add: list_all_iff)
  have frame: "load_verified sha256 ?fs (release_file base category i) = load_verified sha256 fs (release_file base category i)" if "release_id_ok i" for category i
    by (rule load_evidence_frame(1) [OF p release_file_evidence [OF that]]) simp
  have "registry_ok sha256 base ?fs"
    unfolding registry_ok_def
  proof (intro allI impI)
    fix q d assume q: "q \<in> set (dkeys ?fs)" "in_revocations base q" and d: "load_verified sha256 ?fs q = Inr d"
    have mem: "q \<in> set (dkeys fs)"
      using q revocations_write_evidence [of sha256 python "Aware now" "registry_path base" ?doc _ _ fs base] in_revocations_registry by blast
    then obtain i where "release_id_ok i" "q = release_file base ''revocations'' i" using ok(2) q(2) unfolding revocations_ok_def by blast
    with frame d have "load_verified sha256 fs q = Inr d" by simp
    then have "d \<in> set entries" using rmap_list_mem [OF entries, of q] mem q(2) by auto
    then have "PDict d \<in> set (map (json_value True) (map PDict entries))" using entry by (metis image_eqI set_map)
    moreover have "dget (stored_document python (Aware now) ''certify revocation-registry'' ?doc) ''revocations'' =
        Some (PList (map (json_value True) (map PDict entries)))"
      using dget_stored_Some [OF doc, of "''revocations''"] by (simp del: map_map json_value.simps(2))
    ultimately show "\<exists>reg xs. verify_evidence sha256 ?fs (registry_path base) = (True, None) \<and> read_json ?fs (registry_path base) = Inr (PDict reg) \<and>
        dget reg ''revocations'' = Some (PList xs) \<and> PDict d \<in> set xs"
      using load_evidence_write(2,3) [OF hash p doc] by blast
  qed
  moreover have "logs_ok sha256 base ?fs" by (rule logs_frame [OF ok(1) p]) simp
  moreover have "revocations_ok sha256 base ?fs" by (rule revocations_frame [OF ok(2) p]) simp
  moreover have "advances sha256 base fs ?fs"
    unfolding advances_def by (intro conjI keeps_release_files_write [OF p] extends_logs_write [OF p]) simp_all
  ultimately show thesis
    using that [of ?fs] entries frame unfolding write_revocation_registry_def repository_ok_def by simp
qed

lemma load_unchanged:
  assumes "keeps_release_files base fs fs'" "release_id_ok release_id" "category \<in> {''runs'', ''certificates'', ''revocations''}"
    and "is_file fs (release_file base category release_id)"
  shows "load_verified sha256 fs' (release_file base category release_id) = load_verified sha256 fs (release_file base category release_id)"
proof -
  let ?q = "release_file base category release_id"
  have same: "dget fs' ?q = dget fs ?q" "dget fs' (sidecar_path ?q) = dget fs (sidecar_path ?q)"
    using assms unfolding keeps_release_files_def by blast+
  show ?thesis unfolding load_verified_def verify_evidence_def read_json_def same by (rule refl)
qed

lemma revoke_effect:
  assumes hash: "digest_ok sha256" and ok: "repository_ok sha256 base fs" and now: "representable (Aware now)"
    and run: "revoke sha256 python base now release_id actor_id reason fs = (r, fs')"
  shows "repository_ok sha256 base fs' \<and> advances sha256 base fs fs' \<and>
    (\<forall>d. r = Inr d \<longrightarrow> release_id_ok release_id \<and> is_file fs' (release_file base ''revocations'' release_id) \<and>
       load_verified sha256 fs' (release_file base ''revocations'' release_id) = Inr d)"
proof (cases "revocable sha256 base release_id reason fs")
  case (Inl e)
  with run ok show ?thesis by (auto simp: revoke_def)
next
  case (Inr c)
  let ?p = "release_file base ''revocations'' release_id"
  have id: "release_id_ok release_id"
    using Inr by (auto simp: revocable_def rbind_eq_Inr release_path_ok split: if_splits)
  show ?thesis
  proof (cases "is_file fs ?p")
    case True
    then have "fs' = fs" "\<forall>d. r = Inr d \<longrightarrow> load_verified sha256 fs ?p = Inr d"
      using run unfolding revoke_def Inr sum.case Let_def by (auto split: sum.splits if_splits)
    with True ok id show ?thesis by simp
  next
    case False
    let ?doc = "[(''status'', PStr ''REVOKED''), (''release_id'', PStr release_id), (''certificate_hash'', PStr (cr_certificate_hash c)),
      (''revoked_at'', PStr (isoformat (CHR ''T'') (Aware now))), (''actor_id'', PStr actor_id), (''reason'', PStr (strip reason))]"
    let ?payload = "[(''certificate_hash'', PStr (cr_certificate_hash c)), (''reason'', PStr (strip reason))]"
    define fs1 where "fs1 = snd (write_evidence sha256 python (Aware now) ?p ?doc ''certify revoke'' ''certification-revocation'' fs)"
    note p = release_file_evidence [OF id, of base "''revocations''"]
    have parts: "logs_ok sha256 base fs" "revocations_ok sha256 base fs" using ok by (simp_all add: repository_ok_def)
    have one: "logs_ok sha256 base fs1" "revocations_ok sha256 base fs1" "advances sha256 base fs fs1" "is_file fs1 ?p"
    proof -
      show "logs_ok sha256 base fs1" unfolding fs1_def by (rule logs_frame [OF parts(1) p]) simp
      show "revocations_ok sha256 base fs1" unfolding fs1_def by (rule revocations_write [OF hash parts(2) id]) simp
      show "advances sha256 base fs fs1" unfolding fs1_def by (rule advances_write [OF id _ False]) simp
      show "is_file fs1 ?p" unfolding fs1_def is_file_def using dget_write_evidence(1) [OF p p] by simp
    qed
    obtain r2 fs2 where step: "append_event sha256 python base now ''CertificationRevoked'' release_id actor_id ?payload None fs1 = (r2, fs2)" by fastforce
    have payload: "json_ok (PDict ?payload)" by simp
    have two: "log_effect sha256 base fs1 fs2" using append_event_effect(1) [OF hash one(1) payload _ step] now by simp
    have "is_ok r2" using append_event_effect(2) [OF hash one(1) payload _ step id] now by (simp add: event_types_def)
    then obtain e where r2: "r2 = Inr e" by (auto simp: is_ok_iff)
    have two_ok: "logs_ok sha256 base fs2" "revocations_ok sha256 base fs2" "advances sha256 base fs fs2" "is_file fs2 ?p"
      using two one advances_trans log_effect_parts(3) [OF two id, of "''revocations''"] unfolding log_effect_def by blast+
    obtain fs3 where three: "write_revocation_registry sha256 python base now fs2 = (Inr (registry_path base), fs3)"
        "repository_ok sha256 base fs3" "advances sha256 base fs2 fs3"
      using write_registry_effect [OF hash two_ok(1,2), of python now] by metis
    have "(r, fs') = (load_verified sha256 fs3 ?p, fs3)"
      using run unfolding revoke_def Inr sum.case Let_def fs1_def [symmetric] step prod.case r2 three(1)
      by (auto simp: False)
    moreover have "is_file fs3 ?p" using three(3) two_ok(4) id unfolding advances_def keeps_release_files_def by blast
    ultimately show ?thesis using three(2) advances_trans [OF two_ok(3) three(3)] id by simp
  qed
qed

section \<open>Histories\<close>

definition fresh_volume :: "path \<Rightarrow> files \<Rightarrow> bool" where
  \<comment> \<open>no file below \<open>root/B20\<close>\<close>
  "fresh_volume base fs \<longleftrightarrow> (\<forall>p \<in> set (dkeys fs). take (Suc (length base)) p \<noteq> base @ [''B20''])"

lemma fresh_absent: "fresh_volume base fs \<Longrightarrow> \<not> is_file fs (release_file base category release_id)"
proof
  assume fresh: "fresh_volume base fs" and "is_file fs (release_file base category release_id)"
  then have "take (Suc (length base)) (release_file base category release_id) \<noteq> base @ [''B20'']"
    unfolding fresh_volume_def is_file_keys by blast
  then show False by (simp add: release_file_def)
qed

lemma fresh_repository_ok: "fresh_volume base fs \<Longrightarrow> repository_ok sha256 base fs"
proof -
  assume fresh: "fresh_volume base fs"
  have "log_is sha256 fs (release_file base ''events'' i) []" for i using fresh_absent [OF fresh] by (simp add: log_is_def)
  moreover have "\<not> in_revocations base p" if "p \<in> set (dkeys fs)" for p
  proof
    assume "in_revocations base p"
    then have "p = (base @ [''B20'', ''revocations'']) @ [last p]" unfolding in_revocations_def by (metis append_butlast_last_id)
    then have "take (Suc (length base)) p = take (Suc (length base)) ((base @ [''B20'', ''revocations'']) @ [last p])" by (rule arg_cong)
    then have "take (Suc (length base)) p = base @ [''B20'']" by simp
    then show False using fresh that unfolding fresh_volume_def by blast
  qed
  ultimately show ?thesis unfolding repository_ok_def logs_ok_def revocations_ok_def registry_ok_def by blast
qed

lemma certification_step_effect:
  assumes "digest_ok sha256" "certification_step sha256 decode python base fs fs'" "repository_ok sha256 base fs"
  shows "repository_ok sha256 base fs' \<and> advances sha256 base fs fs'"
  using assms(2)
proof cases
  case (append now event_type release_id actor_id payload occurred_at r)
  have "logs_ok sha256 base fs" using assms(3) by (simp add: repository_ok_def)
  from append_event_effect(1) [OF assms(1) this append(2,3,1)] show ?thesis by (rule log_effect_repository [OF _ assms(3)])
next
  case (save now result actor_id r')
  then show ?thesis using save_run_effect [OF assms(1,3)] by blast
next
  case (publish now result actor_id public_key_file r')
  then show ?thesis using publish_effect [OF assms(1,3)] by blast
next
  case (revoke now release_id actor_id reason r'')
  then show ?thesis using revoke_effect [OF assms(1,3)] by blast
qed

lemma certification_steps_effect:
  assumes "digest_ok sha256" "(certification_step sha256 decode python base)\<^sup>*\<^sup>* fs fs'" "repository_ok sha256 base fs"
  shows "repository_ok sha256 base fs' \<and> advances sha256 base fs fs'"
  using assms(2)
proof (induction rule: rtranclp_induct)
  case (step fs1 fs2)
  then show ?case using certification_step_effect [OF assms(1)] advances_trans by blast
qed (simp add: assms(3))

text \<open>
  C29: The event log of every release is an intact hash chain after any sequence of lifecycle operations,
  failed ones included: reading it verifies the evidence, every event parses, and \<open>verify_event_chain\<close>
  answers \<open>True\<close>.
\<close>
theorem certification_events_intact:
  assumes "digest_ok sha256" "fresh_volume base fs\<^sub>0" "(certification_step sha256 decode python base)\<^sup>*\<^sup>* fs\<^sub>0 fs"
    and "release_id_ok release_id"
  shows "verify_event_chain sha256 base release_id fs = Inr True"
proof -
  have "repository_ok sha256 base fs"
    using certification_steps_effect [OF assms(1,3) fresh_repository_ok [OF assms(2)]] by blast
  then obtain es where log: "log_is sha256 fs (release_file base ''events'' release_id) es"
    using assms(4) unfolding repository_ok_def logs_ok_def by blast
  moreover from log have "chain_ok sha256 ''GENESIS'' (map event_sorted es)" unfolding chain_ok_sorted log_is_def by blast
  ultimately show ?thesis using events_log [OF assms(4) log] by (simp add: verify_event_chain_def)
qed

text \<open>
  C11: The history of a release is final. Whatever operation runs next, a saved run, a published
  certificate or a revocation keeps its content, and the events that were recorded stay, in their order,
  in front of the new ones.
\<close>
theorem certification_history_final:
  assumes "digest_ok sha256" "fresh_volume base fs\<^sub>0" "(certification_step sha256 decode python base)\<^sup>*\<^sup>* fs\<^sub>0 fs"
    and "certification_step sha256 decode python base fs fs'" "release_id_ok release_id"
  shows "(\<forall>category \<in> {''runs'', ''certificates'', ''revocations''}. is_file fs (release_file base category release_id) \<longrightarrow>
      dget fs' (release_file base category release_id) = dget fs (release_file base category release_id)) \<and>
    (\<exists>es new. events sha256 base release_id fs = Inr es \<and> events sha256 base release_id fs' = Inr (es @ new))"
proof -
  have ok: "repository_ok sha256 base fs"
    using certification_steps_effect [OF assms(1,3) fresh_repository_ok [OF assms(2)]] by blast
  note adv = certification_step_effect [OF assms(1,4) ok, THEN conjunct2]
  obtain es where log: "log_is sha256 fs (release_file base ''events'' release_id) es"
    using ok assms(5) unfolding repository_ok_def logs_ok_def by blast
  then obtain new where "log_is sha256 fs' (release_file base ''events'' release_id) (es @ new)"
    using adv assms(5) unfolding advances_def extends_logs_def by blast
  with events_log [OF assms(5) log] have "\<exists>es new. events sha256 base release_id fs = Inr es \<and> events sha256 base release_id fs' = Inr (es @ new)"
    using events_log [OF assms(5)] by (metis map_append)
  moreover have "\<forall>category \<in> {''runs'', ''certificates'', ''revocations''}. is_file fs (release_file base category release_id) \<longrightarrow>
      dget fs' (release_file base category release_id) = dget fs (release_file base category release_id)"
    using adv assms(5) unfolding advances_def keeps_release_files_def by blast
  ultimately show ?thesis by blast
qed

lemma revoked_stays_registered:
  assumes hash: "digest_ok sha256" and fresh: "fresh_volume base fs\<^sub>0" and reach: "(certification_step sha256 decode python base)\<^sup>*\<^sup>* fs\<^sub>0 fs"
    and run: "revoke sha256 python base now release_id actor_id reason fs = (Inr d, fs')" and now: "representable (Aware now)"
    and later: "(certification_step sha256 decode python base)\<^sup>*\<^sup>* fs' fs''"
  obtains reg entries where "verify_evidence sha256 fs'' (registry_path base) = (True, None)"
    and "read_json fs'' (registry_path base) = Inr (PDict reg)" "dget reg ''revocations'' = Some (PList entries)" "PDict d \<in> set entries"
proof -
  let ?p = "release_file base ''revocations'' release_id"
  have ok: "repository_ok sha256 base fs" using certification_steps_effect [OF hash reach fresh_repository_ok [OF fresh]] by blast
  note eff = revoke_effect [OF hash ok now run]
  then have ok': "repository_ok sha256 base fs'" and id: "release_id_ok release_id" and stored: "is_file fs' ?p" "load_verified sha256 fs' ?p = Inr d"
    by blast+
  note steps = certification_steps_effect [OF hash later ok']
  have keep: "keeps_release_files base fs' fs''" using steps unfolding advances_def by blast
  have "load_verified sha256 fs'' ?p = Inr d" using load_unchanged [OF keep id _ stored(1)] stored(2) by simp
  moreover have "?p \<in> set (dkeys fs'')" using keep id stored(1) unfolding keeps_release_files_def is_file_keys by blast
  moreover have "registry_ok sha256 base fs''" using steps unfolding repository_ok_def by blast
  ultimately show thesis using that unfolding registry_ok_def by (metis in_revocations_release)
qed


section \<open>A release from its run to its revocation\<close>

definition issued :: "(string \<Rightarrow> string) \<Rightarrow> certification_result \<Rightarrow> bool" where
  \<comment> \<open>a certificate as \<open>certify_release\<close> makes it, which the reader accepts\<close>
  "issued sha256 r \<longleftrightarrow> certificate_values r \<and> sorted (dkeys (cr_evidence_hashes r)) \<and> sorted (dkeys (cr_artifacts r)) \<and>
     is_aware (cr_generated_at r) \<and> check_certificate sha256 (certificate_sorted r) = Inr (certificate_sorted r)"

lemma issuedI:
  assumes "certify_release sha256 release_id commit generated_at gate_results risks evidence_hashes artifacts test_summary
      scenario_metrics approvals signature = Inr r"
    and "immutable_revision commit" "certificate_values r" "distinct (dkeys evidence_hashes)" "distinct (dkeys artifacts)"
  shows "issued sha256 r"
proof -
  note r = certify_release_result [OF assms(1)]
  have keys: "sorted (dkeys (cr_evidence_hashes r))" using sorted_keys_sort [OF assms(4)] r(6) by simp
  have "sorted (dkeys (cr_artifacts r))"
    using sorted_keys_sort [OF assms(5)] keys unfolding r(6,7) by (cases "artifacts = []") (simp_all add: sorted_sort_id)
  moreover have "check_certificate sha256 (certificate_sorted r) = Inr (certificate_sorted r)"
    using check_certificate_sorted [OF assms(1)] assms(2) r(4,12) by simp
  ultimately show ?thesis using keys assms(3) r(4) by (simp add: issued_def)
qed

lemma load_issued:
  assumes "digest_ok sha256" "issued sha256 r" "evidence_path p"
  shows "load_certificate sha256 (snd (write_evidence sha256 python timestamp p (certificate_dict r) command suite fs)) p = Inr (certificate_sorted r)"
  using assms(2) load_evidence_write(1) [OF assms(1,3) certificate_dict_ok] read_stored_certificate
  unfolding load_certificate_def issued_def by simp

lemma record_failures_ok:
  assumes "digest_ok sha256" "representable (cr_generated_at result)" "is_aware (cr_generated_at result)" "release_id_ok (cr_release_id result)"
  shows "logs_ok sha256 base fs \<Longrightarrow> \<exists>fs'. record_failures sha256 python base now result actor_id gs fs = (Inr (), fs')"
proof (induction gs arbitrary: fs)
  case (Cons g gs)
  let ?payload = "[(''gate'', PStr (gr_name g)), (''reason'', optional_str (gr_reason g)), (''evidence'', PList (map PStr (gr_evidence g)))]"
  show ?case
  proof (cases "gr_passed g")
    case False
    obtain r1 fs1 where step: "append_event sha256 python base now ''GateFailed'' (cr_release_id result) actor_id ?payload (Some (cr_generated_at result)) fs = (r1, fs1)"
      by fastforce
    have payload: "json_ok (PDict ?payload)" by (simp add: list_all_iff)
    have "is_ok r1" using append_event_effect(2) [OF assms(1) Cons.prems payload _ step assms(4)] assms(2,3) by (simp add: event_types_def)
    then obtain e where "r1 = Inr e" by (auto simp: is_ok_iff)
    moreover have "logs_ok sha256 base fs1"
      using append_event_effect(1) [OF assms(1) Cons.prems payload _ step] assms(2) unfolding log_effect_def by simp
    ultimately show ?thesis using Cons.IH False step by simp
  qed (use Cons in simp)
qed simp

lemma save_run_ok:
  assumes hash: "digest_ok sha256" and ok: "repository_ok sha256 base fs" and r: "issued sha256 r" "release_id_ok (cr_release_id r)"
    and absent: "\<not> is_file fs (release_file base ''certificates'' (cr_release_id r))" "\<not> is_file fs (release_file base ''runs'' (cr_release_id r))"
  obtains fs' where "save_run sha256 python base now r actor_id fs = (Inr (release_file base ''runs'' (cr_release_id r)), fs')"
    and "load_certificate sha256 fs' (release_file base ''runs'' (cr_release_id r)) = Inr (certificate_sorted r)"
    and "\<And>category. category \<in> {''certificates'', ''revocations''} \<Longrightarrow>
      is_file fs' (release_file base category (cr_release_id r)) = is_file fs (release_file base category (cr_release_id r))"
proof -
  let ?id = "cr_release_id r" and ?payload = "[(''commit'', PStr (cr_commit r)), (''certificate_hash'', PStr (cr_certificate_hash r))]"
  let ?p = "release_file base ''runs'' ?id"
  have vals: "certificate_values r" "is_aware (cr_generated_at r)" "representable (cr_generated_at r)"
    using r(1) by (simp_all add: issued_def certificate_values_def)
  obtain r1 fs1 where step1: "append_event sha256 python base now ''CertificationStarted'' ?id actor_id ?payload (Some (cr_generated_at r)) fs = (r1, fs1)"
    by fastforce
  have payload: "json_ok (PDict ?payload)" by simp
  have logs: "logs_ok sha256 base fs" using ok by (simp add: repository_ok_def)
  have one: "log_effect sha256 base fs fs1" using append_event_effect(1) [OF hash logs payload _ step1] vals by simp
  have "is_ok r1" using append_event_effect(2) [OF hash logs payload _ step1 r(2)] vals by (simp add: event_types_def)
  then obtain e where r1: "r1 = Inr e" by (auto simp: is_ok_iff)
  obtain fs2 where step2: "record_failures sha256 python base now r actor_id (cr_gates r) fs1 = (Inr (), fs2)"
    using record_failures_ok [OF hash vals(3,2) r(2) log_effect_parts(1) [OF one]] by blast
  have two: "log_effect sha256 base fs fs2"
    using log_effect_trans [OF one record_failures_effect [OF hash vals(3) step2 log_effect_parts(1) [OF one]]] .
  let ?fs = "snd (write_evidence sha256 python (Aware now) ?p (certificate_dict r) ''certify run'' ''certification-run'' fs2)"
  note p = release_file_evidence [OF r(2), of base "''runs''"]
  have path: "release_path base ''runs'' ?id = Inr ?p" using r(2) by (simp add: release_path_ok)
  have run: "save_run sha256 python base now r actor_id fs = (Inr ?p, ?fs)"
    unfolding save_run_def path sum.case step1 prod.case r1 step2 json_copy_ok [OF certificate_dict_ok [OF vals(1)]] by (simp add: absent)
  have kept: "is_file ?fs (release_file base category ?id) = is_file fs (release_file base category ?id)"
    if "category \<in> {''certificates'', ''revocations''}" for category
  proof -
    have "category \<noteq> ''events''" "category \<noteq> ''runs''" using that by auto
    then show ?thesis
      using load_evidence_frame(2) [OF p release_file_evidence [OF r(2), of base category]] log_effect_parts(3) [OF two r(2)] by simp
  qed
  show thesis by (rule that [OF run load_issued [OF hash r(1) p] kept])
qed

definition token_for :: "(string \<Rightarrow> string) \<Rightarrow> certification_result \<Rightarrow> json_object \<Rightarrow> bool" where
  \<comment> \<open>the claims that \<open>issue_release_token\<close> puts into the token of a certificate\<close>
  "token_for sha256 r claims \<longleftrightarrow>
     dget claims ''status'' = Some (PStr ''CERTIFIED'') \<and> dget claims ''jti'' = Some (PStr (cr_certificate_hash r)) \<and>
     dget claims ''certificate_hash'' = Some (PStr (cr_certificate_hash r)) \<and> dget claims ''release_id'' = Some (PStr (cr_release_id r)) \<and>
     dget claims ''commit'' = Some (PStr (cr_commit r)) \<and>
     dget claims ''artifact_set_hash'' = Some (PStr (sha256 (json_dumps True (str_dict (cr_artifacts r)))))"

lemma publish_ok:
  assumes hash: "digest_ok sha256" and ok: "repository_ok sha256 base fs" and r: "issued sha256 r" "release_id_ok (cr_release_id r)"
    and status: "cr_status r = ''CERTIFIED''" "cr_signature r = Some token" "token \<noteq> []"
    and key: "dget fs key_file = Some key" "decode token key = Inr claims" "token_for sha256 r claims"
    and saved: "load_certificate sha256 fs (release_file base ''runs'' (cr_release_id r)) = Inr (certificate_sorted r)"
    and absent: "\<not> is_file fs (release_file base ''certificates'' (cr_release_id r))" "\<not> is_file fs (release_file base ''revocations'' (cr_release_id r))"
    and now: "representable (Aware now)"
  obtains fs' where "publish_release sha256 decode python base now r actor_id key_file fs = (Inr (release_file base ''certificates'' (cr_release_id r)), fs')"
    and "load_certificate sha256 fs' (release_file base ''certificates'' (cr_release_id r)) = Inr (certificate_sorted r)"
    and "is_file fs' (release_file base ''certificates'' (cr_release_id r))" "\<not> is_file fs' (release_file base ''revocations'' (cr_release_id r))"
proof -
  let ?id = "cr_release_id r" and ?payload = "[(''commit'', PStr (cr_commit r)), (''certificate_hash'', PStr (cr_certificate_hash r))]"
  let ?p = "release_file base ''certificates'' ?id"
  note p = release_file_evidence [OF r(2), of base "''certificates''"]
  have eq: "py_eq (PStr x) (PStr x)" for x by (simp add: py_eq_def)
  have "verify_certificate sha256 (certificate_sorted r)"
    using r(1) unfolding issued_def check_certificate_def by (auto split: if_splits)
  then have "verify_certificate sha256 r" by (simp add: verify_certificate_def certificate_digest_sorted)
  then have token: "verify_release_token sha256 decode token key (Some r) = Inr claims"
    using key(2,3) by (simp add: verify_release_token_def token_for_def get_value_def dget_or_def eq)
  have check: "publish_check sha256 decode base r key_file fs = Inr ?p"
    using status token r(2) saved absent(2)
    by (simp add: publish_check_def read_file_def key(1) load_run_def revocation_def release_path_def validate_release_id_def)
  let ?fs = "snd (write_evidence sha256 python (Aware now) ?p (certificate_dict r) ''certify release'' ''production-release-certificate'' fs)"
  have one: "repository_ok sha256 base ?fs" by (rule repository_frame [OF ok p refl]) simp_all
  obtain r1 fs1 where step: "append_event sha256 python base now ''ReleaseCertified'' ?id actor_id ?payload None ?fs = (r1, fs1)" by fastforce
  have payload: "json_ok (PDict ?payload)" by simp
  have logs: "logs_ok sha256 base ?fs" using one by (simp add: repository_ok_def)
  have two: "log_effect sha256 base ?fs fs1" using append_event_effect(1) [OF hash logs payload _ step] now by simp
  have "is_ok r1" using append_event_effect(2) [OF hash logs payload _ step r(2)] now by (simp add: event_types_def)
  then obtain e where r1: "r1 = Inr e" by (auto simp: is_ok_iff)
  have vals: "certificate_values r" using r(1) by (simp add: issued_def)
  have run: "publish_release sha256 decode python base now r actor_id key_file fs = (Inr ?p, fs1)"
    unfolding publish_release_def check sum.case json_copy_ok [OF certificate_dict_ok [OF vals]] step prod.case r1 by (simp add: absent)
  have stored: "is_file ?fs ?p" using dget_write_evidence(1) [OF p p] by (simp add: is_file_def)
  have keep: "keeps_release_files base ?fs fs1" using two unfolding log_effect_def advances_def by blast
  have "load_certificate sha256 fs1 ?p = Inr (certificate_sorted r)"
    using load_unchanged [OF keep r(2) _ stored, of sha256] load_issued [OF hash r(1) p] by (simp add: load_certificate_def)
  moreover have "is_file fs1 ?p" using log_effect_parts(3) [OF two r(2), of "''certificates''"] stored by simp
  moreover have "\<not> is_file fs1 (release_file base ''revocations'' ?id)"
    using log_effect_parts(3) [OF two r(2), of "''revocations''"] load_evidence_frame(2) [OF p release_file_evidence [OF r(2), of base "''revocations''"]] absent(2)
    by simp
  ultimately show thesis using that run by blast
qed

lemma revoke_ok:
  assumes hash: "digest_ok sha256" and ok: "repository_ok sha256 base fs" and id: "release_id_ok release_id"
    and c: "is_file fs (release_file base ''certificates'' release_id)" "load_certificate sha256 fs (release_file base ''certificates'' release_id) = Inr c"
      "cr_status c = ''CERTIFIED''" "cr_signature c = Some token" "token \<noteq> []"
    and absent: "\<not> is_file fs (release_file base ''revocations'' release_id)" and reason: "strip reason \<noteq> []"
    and now: "representable (Aware now)"
  obtains d fs' where "revoke sha256 python base now release_id actor_id reason fs = (Inr d, fs')"
    and "dget d ''certificate_hash'' = Some (PStr (cr_certificate_hash c))"
proof -
  let ?p = "release_file base ''revocations'' release_id"
  let ?doc = "[(''status'', PStr ''REVOKED''), (''release_id'', PStr release_id), (''certificate_hash'', PStr (cr_certificate_hash c)),
    (''revoked_at'', PStr (isoformat (CHR ''T'') (Aware now))), (''actor_id'', PStr actor_id), (''reason'', PStr (strip reason))]"
  let ?payload = "[(''certificate_hash'', PStr (cr_certificate_hash c)), (''reason'', PStr (strip reason))]"
  define fs1 where "fs1 = snd (write_evidence sha256 python (Aware now) ?p ?doc ''certify revoke'' ''certification-revocation'' fs)"
  note p = release_file_evidence [OF id, of base "''revocations''"]
  have revocable: "revocable sha256 base release_id reason fs = Inr c"
    using c reason id by (simp add: revocable_def release_path_def validate_release_id_def)
  have parts: "logs_ok sha256 base fs" "revocations_ok sha256 base fs" using ok by (simp_all add: repository_ok_def)
  have doc: "json_ok (PDict ?doc)" by simp
  have one: "logs_ok sha256 base fs1" unfolding fs1_def by (rule logs_frame [OF parts(1) p]) simp
  have one': "revocations_ok sha256 base fs1" unfolding fs1_def by (rule revocations_write [OF hash parts(2) id doc])
  obtain r2 fs2 where step: "append_event sha256 python base now ''CertificationRevoked'' release_id actor_id ?payload None fs1 = (r2, fs2)" by fastforce
  have payload: "json_ok (PDict ?payload)" by simp
  have two: "log_effect sha256 base fs1 fs2" using append_event_effect(1) [OF hash one payload _ step] now by simp
  have "is_ok r2" using append_event_effect(2) [OF hash one payload _ step id] now by (simp add: event_types_def)
  then obtain e where r2: "r2 = Inr e" by (auto simp: is_ok_iff)
  have two': "logs_ok sha256 base fs2" "revocations_ok sha256 base fs2" using two one' unfolding log_effect_def by blast+
  obtain fs3 where three: "write_revocation_registry sha256 python base now fs2 = (Inr (registry_path base), fs3)"
      "load_verified sha256 fs3 ?p = load_verified sha256 fs2 ?p"
    using write_registry_effect [OF hash two', of python now] id by metis
  have "is_file fs1 ?p" unfolding fs1_def is_file_def using dget_write_evidence(1) [OF p p] by simp
  then have "load_verified sha256 fs2 ?p = load_verified sha256 fs1 ?p"
    using load_unchanged [OF _ id] two unfolding log_effect_def advances_def by blast
  also have "\<dots> = Inr (stored_document python (Aware now) ''certify revoke'' ?doc)"
    unfolding fs1_def by (rule load_evidence_write(1) [OF hash p doc])
  finally have load: "load_verified sha256 fs3 ?p = Inr (stored_document python (Aware now) ''certify revoke'' ?doc)" using three(2) by simp
  have "revoke sha256 python base now release_id actor_id reason fs = (Inr (stored_document python (Aware now) ''certify revoke'' ?doc), fs3)"
    unfolding revoke_def revocable sum.case Let_def fs1_def [symmetric] step prod.case r2 three(1) load by (simp add: absent)
  moreover have "dget (stored_document python (Aware now) ''certify revoke'' ?doc) ''certificate_hash'' = Some (PStr (cr_certificate_hash c))"
    using dget_stored_Some [OF doc, of "''certificate_hash''"] by simp
  ultimately show thesis by (rule that)
qed

definition outside :: "path \<Rightarrow> path \<Rightarrow> bool" where
  "outside base q \<longleftrightarrow> take (Suc (length base)) q \<noteq> base @ [''B20'']"

lemma write_outside:
  assumes "outside base q"
  shows "dget (snd (write_evidence sha256 python timestamp (release_file base category release_id) document command suite fs)) q = dget fs q"
proof -
  have "take (Suc (length base)) (add_suffix (release_file base category release_id) suffix) = base @ [''B20'']" for suffix
    by (simp add: add_suffix_def release_file_def butlast_append)
  then have "q \<noteq> sidecar_path (release_file base category release_id)" "q \<noteq> junit_path (release_file base category release_id)"
    using assms unfolding outside_def sidecar_path_def junit_path_def by metis+
  moreover have "q \<noteq> release_file base category release_id" using assms by (auto simp: outside_def release_file_def)
  ultimately show ?thesis by (simp add: write_evidence_def write_junit_def Let_def)
qed

lemma append_event_files:
  assumes "append_event sha256 python base now event_type release_id actor_id payload occurred_at fs = (r, fs')"
  shows "fs' = fs \<or> (\<exists>document command suite. fs' =
    snd (write_evidence sha256 python (Aware now) (release_file base ''events'' release_id) document command suite fs))"
proof (cases "event_type \<in> set event_types \<and> release_id_ok release_id")
  case True
  then show ?thesis
    using assms unfolding append_event_def release_path_def validate_release_id_def Let_def
    by (simp only: True if_True rbind.simps sum.case simp_thms) (auto split: if_splits sum.splits)
next
  case False
  then show ?thesis using append_event_fails [of release_id event_type] assms by (metis prod.inject)
qed

lemma append_event_outside:
  "append_event sha256 python base now event_type release_id actor_id payload occurred_at fs = (r, fs') \<Longrightarrow> outside base q \<Longrightarrow> dget fs' q = dget fs q"
  using append_event_files write_outside by metis

lemma record_failures_outside:
  "record_failures sha256 python base now result actor_id gs fs = (r, fs') \<Longrightarrow> outside base q \<Longrightarrow> dget fs' q = dget fs q"
proof (induction gs arbitrary: fs)
  case (Cons g gs)
  then show ?case by (auto split: if_splits prod.splits sum.splits dest: append_event_outside)
qed simp

lemma save_run_outside:
  assumes "save_run sha256 python base now result actor_id fs = (r, fs')" "outside base q"
  shows "dget fs' q = dget fs q"
  using assms
  by (auto simp: save_run_def release_path_ok write_outside append_event_outside record_failures_outside split: sum.splits if_splits prod.splits)

lemma lifecycle_runs:
  assumes hash: "digest_ok sha256" and fresh: "fresh_volume base fs"
    and cert: "certify_release sha256 release_id commit generated_at gate_results risks evidence_hashes artifacts test_summary
      scenario_metrics approvals (Some token) = Inr r"
    and r: "cr_status r = ''CERTIFIED''" "immutable_revision commit" "certificate_values r" "distinct (dkeys evidence_hashes)" "distinct (dkeys artifacts)"
    and id: "release_id_ok release_id" and token: "token \<noteq> []"
    and key: "dget fs key_file = Some key" "decode token key = Inr claims" "token_for sha256 r claims"
    and now: "representable (Aware now)" and reason: "strip reason \<noteq> []"
  shows "\<exists>run fs\<^sub>1 published fs\<^sub>2 d fs\<^sub>3. save_run sha256 python base now r actor_id fs = (Inr run, fs\<^sub>1) \<and>
    publish_release sha256 decode python base now r actor_id key_file fs\<^sub>1 = (Inr published, fs\<^sub>2) \<and>
    get_certificate sha256 base release_id fs\<^sub>2 = Inr (certificate_sorted r) \<and>
    revoke sha256 python base now release_id actor_id reason fs\<^sub>2 = (Inr d, fs\<^sub>3) \<and>
    dget d ''certificate_hash'' = Some (PStr (cr_certificate_hash r))"
proof -
  note fields = certify_release_result [OF cert]
  have issued: "issued sha256 r" by (rule issuedI [OF cert r(2-5)])
  have ok: "repository_ok sha256 base fs" by (rule fresh_repository_ok [OF fresh])
  note absent = fresh_absent [OF fresh, of _ release_id]
  obtain fs1 where one: "save_run sha256 python base now r actor_id fs = (Inr (release_file base ''runs'' release_id), fs1)"
      "load_certificate sha256 fs1 (release_file base ''runs'' release_id) = Inr (certificate_sorted r)"
      "\<not> is_file fs1 (release_file base ''certificates'' release_id)" "\<not> is_file fs1 (release_file base ''revocations'' release_id)"
    using save_run_ok [OF hash ok issued, unfolded fields(13), OF id absent absent] absent by (metis insertI1 insertI2)
  have ok1: "repository_ok sha256 base fs1" using save_run_effect [OF hash ok r(3) one(1)] by blast
  have "outside base key_file"
    using fresh key(1) unfolding fresh_volume_def outside_def using dget_None_keys by (metis option.distinct(1))
  then have key1: "dget fs1 key_file = Some key" using save_run_outside [OF one(1)] key(1) by simp
  obtain fs2 where two: "publish_release sha256 decode python base now r actor_id key_file fs1 = (Inr (release_file base ''certificates'' release_id), fs2)"
      "load_certificate sha256 fs2 (release_file base ''certificates'' release_id) = Inr (certificate_sorted r)"
      "is_file fs2 (release_file base ''certificates'' release_id)" "\<not> is_file fs2 (release_file base ''revocations'' release_id)"
    using publish_ok [where decode = decode, OF hash ok1 issued, unfolded fields(13), OF id r(1) fields(17) token key1 key(2,3) one(2-4) now] by metis
  have ok2: "repository_ok sha256 base fs2" using publish_effect [OF hash ok1 r(3) now two(1)] by blast
  have "cr_status (certificate_sorted r) = ''CERTIFIED''" "cr_signature (certificate_sorted r) = Some token"
    using r(1) fields(17) token by (simp_all add: certificate_sorted_def)
  from revoke_ok [OF hash ok2 id two(3,2) this token two(4) reason now]
  obtain d fs3 where three: "revoke sha256 python base now release_id actor_id reason fs2 = (Inr d, fs3)"
      "dget d ''certificate_hash'' = Some (PStr (cr_certificate_hash (certificate_sorted r)))" by metis
  have "get_certificate sha256 base release_id fs2 = Inr (certificate_sorted r)"
    using two(2,3) id by (simp add: get_certificate_def release_path_def validate_release_id_def)
  with one(1) two(1) three show ?thesis by simp
qed

text \<open>
  C21: A certified release goes through its whole life. On a volume without certification files, a
  certificate with an immutable commit and a token that the public key verifies is saved as a run,
  published, read back as it was issued, and can then be revoked; none of the calls fails.
\<close>
theorem release_lifecycle_completes:
  assumes hash: "digest_ok sha256" and fresh: "fresh_volume base fs"
    and cert: "certify_release sha256 release_id commit generated_at gate_results risks evidence_hashes artifacts test_summary
      scenario_metrics approvals (Some token) = Inr r"
    and r: "cr_status r = ''CERTIFIED''" "immutable_revision commit" "certificate_values r" "distinct (dkeys evidence_hashes)" "distinct (dkeys artifacts)"
    and id: "release_id_ok release_id" and token: "token \<noteq> []"
    and key: "dget fs key_file = Some key" "decode token key = Inr claims" "token_for sha256 r claims"
    and now: "representable (Aware now)" and reason: "strip reason \<noteq> []"
  shows "\<exists>run fs\<^sub>1 published fs\<^sub>2 d fs\<^sub>3. save_run sha256 python base now r actor_id fs = (Inr run, fs\<^sub>1) \<and>
    publish_release sha256 decode python base now r actor_id key_file fs\<^sub>1 = (Inr published, fs\<^sub>2) \<and>
    get_certificate sha256 base release_id fs\<^sub>2 = Inr (certificate_sorted r) \<and>
    revoke sha256 python base now release_id actor_id reason fs\<^sub>2 = (Inr d, fs\<^sub>3) \<and>
    dget d ''certificate_hash'' = Some (PStr (cr_certificate_hash r))"
  using assms by (rule lifecycle_runs)

section \<open>Examples\<close>

definition example_claims :: json_object where
  "example_claims = [(''status'', PStr ''CERTIFIED''), (''jti'', PStr sample_digest), (''certificate_hash'', PStr sample_digest),
     (''release_id'', PStr ''r1''), (''commit'', PStr (replicate 40 CHR ''0'')), (''artifact_set_hash'', PStr sample_digest)]"

definition example_files :: files where
  "example_files = [([''key.pem''], ''key'')]"

lemma example_setting:
  "digest_ok (\<lambda>_. sample_digest)" "fresh_volume [''evidence''] example_files" "release_id_ok ''r1''" "representable (Aware 0)"
  "strip ''leaked'' \<noteq> []" "immutable_revision (replicate 40 CHR ''0'')" "dget example_files [''key.pem''] = Some ''key''"
  by (simp_all add: sample_digest_ok fresh_volume_def example_files_def release_id_ok_def is_id_char_def is_digit_def less_eq_char_def
      representable_1970 strip_def lstrip_def is_space_def immutable_revision_def list_all_iff is_lower_hex_def)

lemma example_lifecycle:
  obtains r where "example_certificate (Some ''token'') = Inr r" "cr_status r = ''CERTIFIED''" "certificate_values r"
    and "token_for (\<lambda>_. sample_digest) r example_claims" "cr_certificate_hash r = sample_digest"
proof -
  obtain r where r: "example_certificate (Some ''token'') = Inr r" "cr_status r = ''CERTIFIED''" "cr_release_id r = ''r1''" "cr_certificate_hash r = sample_digest"
    using example_certificate_ok by blast
  note fields = certify_release_result [OF r(1) [unfolded example_certificate_def]]
  have "certificate_values r" using representable_1970 by (simp add: certificate_values_def fields(5-7,12,14-16))
  moreover have "token_for (\<lambda>_. sample_digest) r example_claims"
    by (simp add: token_for_def example_claims_def r fields(11))
  ultimately show thesis using that r by blast
qed

theorem release_lifecycle_completes_witness:
  "\<exists>r run fs\<^sub>1 published fs\<^sub>2 d fs\<^sub>3. example_certificate (Some ''token'') = Inr r \<and>
    save_run (\<lambda>_. sample_digest) ''3.12'' [''evidence''] 0 r ''alice'' example_files = (Inr run, fs\<^sub>1) \<and>
    publish_release (\<lambda>_. sample_digest) (\<lambda>_ _. Inr example_claims) ''3.12'' [''evidence''] 0 r ''alice'' [''key.pem''] fs\<^sub>1 = (Inr published, fs\<^sub>2) \<and>
    revoke (\<lambda>_. sample_digest) ''3.12'' [''evidence''] 0 ''r1'' ''alice'' ''leaked'' fs\<^sub>2 = (Inr d, fs\<^sub>3)"
proof -
  obtain r where r: "example_certificate (Some ''token'') = Inr r" "cr_status r = ''CERTIFIED''" "certificate_values r"
      "token_for (\<lambda>_. sample_digest) r example_claims"
    by (rule example_lifecycle)
  have "\<exists>run fs\<^sub>1 published fs\<^sub>2 d fs\<^sub>3. save_run (\<lambda>_. sample_digest) ''3.12'' [''evidence''] 0 r ''alice'' example_files = (Inr run, fs\<^sub>1) \<and>
    publish_release (\<lambda>_. sample_digest) (\<lambda>_ _. Inr example_claims) ''3.12'' [''evidence''] 0 r ''alice'' [''key.pem''] fs\<^sub>1 = (Inr published, fs\<^sub>2) \<and>
    get_certificate (\<lambda>_. sample_digest) [''evidence''] ''r1'' fs\<^sub>2 = Inr (certificate_sorted r) \<and>
    revoke (\<lambda>_. sample_digest) ''3.12'' [''evidence''] 0 ''r1'' ''alice'' ''leaked'' fs\<^sub>2 = (Inr d, fs\<^sub>3) \<and>
    dget d ''certificate_hash'' = Some (PStr (cr_certificate_hash r))"
    by (rule release_lifecycle_completes [where decode = "\<lambda>_ _. Inr example_claims" and claims = example_claims,
        OF example_setting(1,2) r(1) [unfolded example_certificate_def] r(2) example_setting(6) r(3) _ _ example_setting(3) _ example_setting(7) refl r(4)
          example_setting(4,5)]) simp_all
  with r(1) show ?thesis by blast
qed

definition example_events :: "nat \<Rightarrow> files" where
  \<comment> \<open>the files after a number of events\<close>
  "example_events n = ((\<lambda>fs. snd (append_event (\<lambda>_. sample_digest) ''3.12'' [''evidence''] 0 ''CertificationStarted'' ''r1'' ''alice'' [] None fs)) ^^ n) example_files"

lemma example_events_step: "certification_step (\<lambda>_. sample_digest) decode ''3.12'' [''evidence''] (example_events n) (example_events (Suc n))"
  by (rule certification_step.append [where payload = "[]" and occurred_at = None and now = 0])
    (simp_all add: example_events_def representable_1970 prod_eq_iff)

theorem certification_events_intact_witness:
  "verify_event_chain (\<lambda>_. sample_digest) [''evidence''] ''r1'' (example_events 2) = Inr True"
proof -
  let ?step = "certification_step (\<lambda>_. sample_digest) (\<lambda>_ _. Inr example_claims) ''3.12'' [''evidence'']"
  have "?step\<^sup>*\<^sup>* (example_events 0) (example_events (Suc (Suc 0)))"
    by (rule rtranclp.rtrancl_into_rtrancl, rule r_into_rtranclp, rule example_events_step, rule example_events_step)
  then show ?thesis
    using certification_events_intact [OF example_setting(1,2), of "\<lambda>_ _. Inr example_claims" "''3.12''" "example_events 2" "''r1''"] example_setting(3)
    by (simp add: example_events_def numeral_2_eq_2)
qed

theorem certification_history_final_witness:
  "\<exists>es new. events (\<lambda>_. sample_digest) [''evidence''] ''r1'' (example_events 1) = Inr es \<and>
     events (\<lambda>_. sample_digest) [''evidence''] ''r1'' (example_events 2) = Inr (es @ new)"
proof -
  let ?step = "certification_step (\<lambda>_. sample_digest) (\<lambda>_ _. Inr example_claims) ''3.12'' [''evidence'']"
  have one: "?step\<^sup>*\<^sup>* example_files (example_events 1)"
    using r_into_rtranclp [of ?step, OF example_events_step [of _ 0]] by (simp add: example_events_def)
  have two: "?step (example_events 1) (example_events 2)"
    using example_events_step [of _ 1] by (simp add: numeral_2_eq_2)
  show ?thesis using certification_history_final [OF example_setting(1,2) one two example_setting(3)] by blast
qed

end
