(* ===== verification/Release_Gate.thy ===== *)
theory Release_Gate
  imports Settings Certification_Repository
begin

text \<open>
  The release gate and the guarded executor of \<open>packages/execution/external.py\<close>: the last checks before a
  request leaves for the provider gateway.

  \<open>decode\<close> is \<open>jwt.decode\<close> of PyJWT, and \<open>post\<close> is the call of httpx with the status check and the JSON of
  the answer. The executor returns the requests it sent, in order, next to its result, so that an error
  before and an error after a request are told apart.

  The property: a request is sent only to the configured target, over HTTPS, while writes are enabled, with
  a token that the public key verifies for the running commit and whose certificate is not in the registry.
\<close>

definition token_error :: "py_error \<Rightarrow> bool" where
  \<comment> \<open>\<open>(jwt.PyJWTError, OSError, ValueError)\<close>; a \<open>PermissionError\<close> is an \<open>OSError\<close>\<close>
  "token_error e \<longleftrightarrow> (case e of RuntimeError _ \<Rightarrow> True | OSError _ \<Rightarrow> True | PermissionError _ \<Rightarrow> True | ValueError _ \<Rightarrow> True | _ \<Rightarrow> False)"

definition revoked_in :: "pyval list \<Rightarrow> pyval \<Rightarrow> bool" where
  "revoked_in entries certificate_hash \<longleftrightarrow> (\<exists>d \<in> set (dicts_in entries). py_eq (get_value d ''certificate_hash'') certificate_hash)"

definition release_gate_validate ::
  "(string \<Rightarrow> string) \<Rightarrow> (string \<Rightarrow> string \<Rightarrow> json_object result) \<Rightarrow> files \<Rightarrow> settings \<Rightarrow> json_object result" where
  "release_gate_validate sha256 decode fs s =
     (if \<not> external_writes_allowed s then Inl (PermissionError ''external execution feature gate is closed'')
      else let key_file = optional_path (st_release_public_key_file s) in
      if \<not> is_file fs key_file then Inl (PermissionError ''release certification public key is unavailable'')
      else let revocations_file = optional_path (st_release_revocations_file s) in
      case verify_evidence sha256 fs revocations_file of
        (False, err) \<Rightarrow>
          Inl (PermissionError (''release revocation registry is unavailable or invalid: '' @ (case err of Some m \<Rightarrow> m | None \<Rightarrow> ''None'')))
      | (True, _) \<Rightarrow>
          (case (case st_release_certificate s of
                   None \<Rightarrow> Inl (PermissionError ''release certification token is unavailable'')
                 | Some token \<Rightarrow> rbind (read_file fs key_file) (\<lambda>key. verify_release_token sha256 decode token key None)) of
             Inl e \<Rightarrow> Inl (if token_error e then PermissionError ''release certification token is invalid'' else e)
           | Inr claims \<Rightarrow>
               if \<not> py_eq (get_value claims ''status'') (PStr ''CERTIFIED'') then Inl (PermissionError ''release is not certified'')
               else if \<not> py_eq (get_value claims ''commit'') (optional_str (st_release_commit s))
               then Inl (PermissionError ''release certificate does not match running commit'')
               else (case read_json fs revocations_file of
                       Inl _ \<Rightarrow> Inl (PermissionError ''release revocation registry cannot be read'')
                     | Inr (PDict d) \<Rightarrow>
                         rbind (py_iter (dget_or d ''revocations'' (PList []))) (\<lambda>entries.
                           if revoked_in entries (get_value claims ''certificate_hash'')
                           then Inl (PermissionError ''release certificate has been revoked'')
                           else Inr claims)
                     | Inr _ \<Rightarrow> Inl (TypeError ''registry is not an object''))))"

record http_request =
  rq_base_url :: string
  rq_path :: string
  rq_headers :: "(string, string) dict"
  rq_json :: json_object
  rq_verify :: tls
  rq_certificate :: "(string \<times> string) option"

definition executor_client :: "settings \<Rightarrow> (string \<Rightarrow> (string, string) dict \<Rightarrow> json_object \<Rightarrow> http_request) result" where
  \<comment> \<open>\<open>_client\<close>: the client as the function that makes its requests\<close>
  "executor_client s =
     (case st_executor_url s of
        None \<Rightarrow> Inl (PermissionError ''guarded executor HTTPS URL is not configured'')
      | Some url \<Rightarrow>
          if \<not> starts_with ''https://'' url then Inl (PermissionError ''guarded executor HTTPS URL is not configured'')
          else
            let headers = [(''Accept'', ''application/json'')] @
                  (case st_executor_token s of Some t \<Rightarrow> if t = [] then [] else [(''Authorization'', ''Bearer '' @ t)] | None \<Rightarrow> []);
                certificate = (case (st_executor_client_certificate s, st_executor_client_key s) of
                  (Some c, Some k) \<Rightarrow> if c = [] \<or> k = [] then None else Some (c, k) | _ \<Rightarrow> None)
            in Inr (\<lambda>path extra body.
                 \<lparr>rq_base_url = url, rq_path = path, rq_headers = headers @ extra, rq_json = body, rq_verify = st_executor_ca_bundle s,
                  rq_certificate = certificate\<rparr>))"

definition check_target :: "settings \<Rightarrow> string \<Rightarrow> unit result" where
  "check_target s target =
     (if \<not> given (st_executor_target s) \<or> st_executor_target s \<noteq> Some target
      then Inl (PermissionError ''action target is not the configured provider gateway'') else Inr ())"

definition dry_run_external ::
  "(http_request \<Rightarrow> pyval result) \<Rightarrow> settings \<Rightarrow> string \<Rightarrow> string \<Rightarrow> json_object \<Rightarrow> json_object result \<times> http_request list" where
  "dry_run_external post s target kind parameters =
     (case rbind (check_target s target) (\<lambda>_. executor_client s) of
        Inl e \<Rightarrow> (Inl e, [])
      | Inr client \<Rightarrow>
          let request = client ''/v1/actions/dry-run'' [] [(''kind'', PStr kind), (''parameters'', PDict parameters)] in
          (rbind (post request) (\<lambda>result.
             case result of
               PDict d \<Rightarrow> if dget d ''valid'' = Some (PBool True) then Inr d else Inl (ValueError ''provider dry-run did not validate the action'')
             | _ \<Rightarrow> Inl (ValueError ''provider dry-run did not validate the action'')), [request]))"

definition execute_external ::
  "(string \<Rightarrow> string) \<Rightarrow> (string \<Rightarrow> string \<Rightarrow> json_object result) \<Rightarrow> (http_request \<Rightarrow> pyval result) \<Rightarrow> files \<Rightarrow> settings \<Rightarrow> string \<Rightarrow> string \<Rightarrow>
   json_object \<Rightarrow> string \<Rightarrow> json_object result \<times> http_request list" where
  "execute_external sha256 decode post fs s target kind parameters idempotency_key =
     (case rbind (check_target s target) (\<lambda>_.
             rbind (release_gate_validate sha256 decode fs s) (\<lambda>certificate.
             rbind (executor_client s) (\<lambda>client.
             rbind (py_item certificate ''release_id'') (\<lambda>release_id.
               Inr (client ''/v1/actions'' [(''Idempotency-Key'', idempotency_key), (''X-ComputeWeaver-Release'', py_str release_id)]
                 [(''kind'', PStr kind), (''parameters'', PDict parameters)]))))) of
        Inl e \<Rightarrow> (Inl e, [])
      | Inr request \<Rightarrow>
          (rbind (post request) (\<lambda>result.
             case result of
               PDict d \<Rightarrow>
                 (case get_value d ''status'' of
                    PStr status \<Rightarrow>
                      if status \<in> {''accepted'', ''executed''} then Inr d
                      else Inl (RuntimeError ''provider did not acknowledge action execution'')
                  | PList _ \<Rightarrow> Inl (TypeError ''unhashable type'')
                  | PDict _ \<Rightarrow> Inl (TypeError ''unhashable type'')
                  | _ \<Rightarrow> Inl (RuntimeError ''provider did not acknowledge action execution''))
             | _ \<Rightarrow> Inl (RuntimeError ''provider did not acknowledge action execution'')), [request]))"

section \<open>What the gate lets through\<close>

lemma release_gate_passes:
  assumes "release_gate_validate sha256 decode fs s = Inr claims"
  obtains token key d entries where "external_writes_allowed s" "st_release_certificate s = Some token"
    and "dget fs (optional_path (st_release_public_key_file s)) = Some key" "verify_release_token sha256 decode token key None = Inr claims"
    and "verify_evidence sha256 fs (optional_path (st_release_revocations_file s)) = (True, snd (verify_evidence sha256 fs (optional_path (st_release_revocations_file s))))"
    and "py_eq (get_value claims ''commit'') (optional_str (st_release_commit s))"
    and "read_json fs (optional_path (st_release_revocations_file s)) = Inr (PDict d)"
    and "py_iter (dget_or d ''revocations'' (PList [])) = Inr entries" "\<not> revoked_in entries (get_value claims ''certificate_hash'')"
proof -
  let ?k = "optional_path (st_release_public_key_file s)" and ?r = "optional_path (st_release_revocations_file s)"
  let ?t = "case st_release_certificate s of None \<Rightarrow> Inl (PermissionError ''release certification token is unavailable'')
    | Some token \<Rightarrow> rbind (read_file fs ?k) (\<lambda>key. verify_release_token sha256 decode token key None)"
  obtain v err where ver: "verify_evidence sha256 fs ?r = (v, err)" by fastforce
  have allowed: "external_writes_allowed s" "is_file fs ?k" v
    using assms unfolding release_gate_validate_def Let_def ver by (auto split: if_splits bool.splits)
  obtain claims' where tok: "?t = Inr claims'"
  proof (cases ?t)
    case (Inl e)
    then have "release_gate_validate sha256 decode fs s \<noteq> Inr claims"
      unfolding release_gate_validate_def Let_def ver using allowed by (simp split: if_splits)
    with assms show thesis by simp
  qed
  have rest: "(if \<not> py_eq (get_value claims' ''status'') (PStr ''CERTIFIED'') then Inl (PermissionError ''release is not certified'')
      else if \<not> py_eq (get_value claims' ''commit'') (optional_str (st_release_commit s))
      then Inl (PermissionError ''release certificate does not match running commit'')
      else (case read_json fs ?r of
              Inl _ \<Rightarrow> Inl (PermissionError ''release revocation registry cannot be read'')
            | Inr (PDict d) \<Rightarrow> rbind (py_iter (dget_or d ''revocations'' (PList []))) (\<lambda>entries.
                if revoked_in entries (get_value claims' ''certificate_hash'')
                then Inl (PermissionError ''release certificate has been revoked'') else Inr claims')
            | Inr _ \<Rightarrow> Inl (TypeError ''registry is not an object''))) = Inr claims"
    using assms unfolding release_gate_validate_def Let_def ver tok using allowed by simp
  then obtain d where d: "read_json fs ?r = Inr (PDict d)" "py_eq (get_value claims' ''commit'') (optional_str (st_release_commit s))"
    unfolding if_error_ok by (auto split: sum.splits pyval.splits)
  with rest obtain entries where e: "py_iter (dget_or d ''revocations'' (PList [])) = Inr entries"
      "\<not> revoked_in entries (get_value claims' ''certificate_hash'')" "claims' = claims"
    unfolding if_error_ok by (auto simp: rbind_eq_Inr split: if_splits)
  obtain token key where t: "st_release_certificate s = Some token" "dget fs ?k = Some key" "verify_release_token sha256 decode token key None = Inr claims'"
    using tok by (auto simp: read_file_def rbind_eq_Inr split: option.splits)
  show thesis
    by (rule that [OF allowed(1) t(1,2)]) (use t e d ver allowed(3) in simp_all)
qed

lemma execute_external_sends:
  assumes "execute_external sha256 decode post fs s target kind parameters idempotency_key = (r, requests)" "requests \<noteq> []"
  obtains claims client release_id where "check_target s target = Inr ()" "release_gate_validate sha256 decode fs s = Inr claims"
    and "executor_client s = Inr client"
    and "requests = [client ''/v1/actions'' [(''Idempotency-Key'', idempotency_key), (''X-ComputeWeaver-Release'', py_str release_id)]
      [(''kind'', PStr kind), (''parameters'', PDict parameters)]]"
  using assms unfolding execute_external_def by (auto simp: rbind_eq_Inr split: sum.splits)

lemma executor_client_request:
  assumes "executor_client s = Inr client"
  shows "starts_with ''https://'' (rq_base_url (client path headers body))"
    "dget (rq_headers (client path ((''Idempotency-Key'', key) # headers) body)) ''Idempotency-Key'' = Some key"
  using assms by (auto simp: executor_client_def Let_def split: option.splits if_splits)

text \<open>
  C10: A request for an external action leaves only through the gate. If one is sent, it is the only one,
  it goes over HTTPS to the configured target with the idempotency key of the action, writes are enabled in
  production, the public key verifies the release token for the commit that runs, and the registry of
  revocations verifies and does not list the certificate of the token.
\<close>
theorem external_request_guarded:
  assumes "execute_external sha256 decode post fs s target kind parameters idempotency_key = (r, requests)" "requests \<noteq> []"
  shows "\<exists>request token key claims d entries. requests = [request] \<and> st_executor_target s = Some target \<and>
    starts_with ''https://'' (rq_base_url request) \<and> dget (rq_headers request) ''Idempotency-Key'' = Some idempotency_key \<and>
    external_writes_allowed s \<and> st_release_certificate s = Some token \<and>
    dget fs (optional_path (st_release_public_key_file s)) = Some key \<and> verify_release_token sha256 decode token key None = Inr claims \<and>
    py_eq (get_value claims ''commit'') (optional_str (st_release_commit s)) \<and>
    fst (verify_evidence sha256 fs (optional_path (st_release_revocations_file s))) \<and>
    read_json fs (optional_path (st_release_revocations_file s)) = Inr (PDict d) \<and>
    py_iter (dget_or d ''revocations'' (PList [])) = Inr entries \<and> \<not> revoked_in entries (get_value claims ''certificate_hash'')"
proof -
  obtain claims client release_id where sent: "check_target s target = Inr ()" "release_gate_validate sha256 decode fs s = Inr claims"
      "executor_client s = Inr client"
      "requests = [client ''/v1/actions'' [(''Idempotency-Key'', idempotency_key), (''X-ComputeWeaver-Release'', py_str release_id)]
        [(''kind'', PStr kind), (''parameters'', PDict parameters)]]"
    by (rule execute_external_sends [OF assms])
  have target: "st_executor_target s = Some target" using sent(1) by (simp add: check_target_def split: if_splits)
  note client = executor_client_request [OF sent(3)]
  obtain token key d entries where gate: "external_writes_allowed s" "st_release_certificate s = Some token"
      "dget fs (optional_path (st_release_public_key_file s)) = Some key" "verify_release_token sha256 decode token key None = Inr claims"
      "verify_evidence sha256 fs (optional_path (st_release_revocations_file s)) = (True, snd (verify_evidence sha256 fs (optional_path (st_release_revocations_file s))))"
      "py_eq (get_value claims ''commit'') (optional_str (st_release_commit s))"
      "read_json fs (optional_path (st_release_revocations_file s)) = Inr (PDict d)"
      "py_iter (dget_or d ''revocations'' (PList [])) = Inr entries" "\<not> revoked_in entries (get_value claims ''certificate_hash'')"
    by (rule release_gate_passes [OF sent(2)])
  have "fst (verify_evidence sha256 fs (optional_path (st_release_revocations_file s)))" using gate(5) by (metis fst_conv)
  then show ?thesis using sent(4) target client gate by (intro exI conjI) auto
qed

lemma revoked_release_stopped:
  assumes "verify_evidence sha256 fs p = (True, None)" "read_json fs p = Inr (PDict reg)" "dget reg ''revocations'' = Some (PList entries)"
    and "PDict d \<in> set entries" "optional_path (st_release_revocations_file s) = p"
    and token: "\<And>token key claims. st_release_certificate s = Some token \<Longrightarrow> decode token key = Inr claims \<Longrightarrow>
      py_eq (get_value d ''certificate_hash'') (get_value claims ''certificate_hash'')"
  shows "\<exists>e. execute_external sha256 decode post fs s target kind parameters idempotency_key = (Inl e, [])"
proof (rule ccontr)
  assume no: "\<not> ?thesis"
  obtain r requests where run: "execute_external sha256 decode post fs s target kind parameters idempotency_key = (r, requests)" by fastforce
  have "requests \<noteq> []"
    using no run unfolding execute_external_def by (auto split: sum.splits)
  then obtain claims where "release_gate_validate sha256 decode fs s = Inr claims" using execute_external_sends [OF run] by metis
  then obtain token key d' entries' where gate: "st_release_certificate s = Some token" "verify_release_token sha256 decode token key None = Inr claims"
      "read_json fs p = Inr (PDict d')" "py_iter (dget_or d' ''revocations'' (PList [])) = Inr entries'"
      "\<not> revoked_in entries' (get_value claims ''certificate_hash'')"
    using release_gate_passes assms(5) by metis
  have "decode token key = Inr claims" using gate(2) by (auto simp: verify_release_token_def rbind_eq_Inr split: if_splits)
  then have "py_eq (get_value d ''certificate_hash'') (get_value claims ''certificate_hash'')" by (rule token [OF gate(1)])
  moreover have "entries' = entries" using gate(3,4) assms(2,3) by (simp add: dget_or_def)
  moreover have "d \<in> set (dicts_in entries)" using assms(4) by (force simp: dicts_in_def)
  ultimately show False using gate(5) unfolding revoked_in_def by blast
qed

section \<open>Examples\<close>

definition sample_registry :: files where
  "sample_registry = snd (write_evidence (\<lambda>_. sample_digest) ''3.12'' (Aware 0) (registry_path [''evidence''])
     [(''status'', PStr ''PASS''), (''revocations'', PList [])] ''certify revocation-registry'' ''certification-revocation-registry'' example_files)"

lemma sample_registry_files:
  "dget sample_registry [''key.pem''] = Some ''key''"
  "verify_evidence (\<lambda>_. sample_digest) sample_registry [''evidence'', ''B20'', ''revocations.json''] = (True, None)"
  "\<exists>d. read_json sample_registry [''evidence'', ''B20'', ''revocations.json''] = Inr (PDict d) \<and> dget d ''revocations'' = Some (PList [])"
proof -
  let ?doc = "[(''status'', PStr ''PASS''), (''revocations'', PList [])]"
  have p: "registry_path [''evidence''] = [''evidence'', ''B20'', ''revocations.json'']" by (simp add: registry_path_def)
  have doc: "json_ok (PDict ?doc)" by simp
  note written = load_evidence_write [OF sample_digest_ok registry_evidence [of "[''evidence'']"] doc, where python = "''3.12''" and timestamp = "Aware 0" and
    command = "''certify revocation-registry''" and suite = "''certification-revocation-registry''" and fs = example_files, folded sample_registry_def, unfolded p]
  show "verify_evidence (\<lambda>_. sample_digest) sample_registry [''evidence'', ''B20'', ''revocations.json''] = (True, None)" by (rule written(2))
  show "\<exists>d. read_json sample_registry [''evidence'', ''B20'', ''revocations.json''] = Inr (PDict d) \<and> dget d ''revocations'' = Some (PList [])"
    using written(3) dget_stored_Some [OF doc, of "''revocations''"] by simp
  show "dget sample_registry [''key.pem''] = Some ''key''"
    by (simp add: sample_registry_def write_evidence_def write_junit_def Let_def registry_path_def sidecar_path_def junit_path_def add_suffix_def example_files_def)
qed

lemma example_gate:
  "release_gate_validate (\<lambda>_. sample_digest) (\<lambda>_ _. Inr example_claims) sample_registry example_settings = Inr example_claims"
proof -
  obtain d where d: "read_json sample_registry [''evidence'', ''B20'', ''revocations.json''] = Inr (PDict d)" "dget d ''revocations'' = Some (PList [])"
    using sample_registry_files(3) by blast
  have eq: "py_eq (PStr x) (PStr x)" for x by (simp add: py_eq_def)
  have token: "verify_release_token (\<lambda>_. sample_digest) (\<lambda>_ _. Inr example_claims) ''token'' ''key'' None = Inr example_claims"
    by (simp add: verify_release_token_def example_claims_def get_value_def dget_or_def eq)
  have claims: "get_value example_claims ''status'' = PStr ''CERTIFIED''" "get_value example_claims ''commit'' = PStr (replicate 40 CHR ''0'')"
    by (simp_all add: example_claims_def get_value_def dget_or_def)
  show ?thesis
    unfolding release_gate_validate_def Let_def example_settings_simps example_settings_paths sample_registry_files(2) prod.case bool.case d(1) sum.case
    by (simp add: example_settings_allowed is_file_def read_file_def sample_registry_files(1) token claims optional_str_def eq d(2)
        dget_or_def revoked_in_def dicts_in_def)
qed

lemma example_external:
  "\<exists>request. execute_external (\<lambda>_. sample_digest) (\<lambda>_ _. Inr example_claims) (\<lambda>_. Inr (PDict [(''status'', PStr ''accepted'')]))
     sample_registry example_settings ''gateway'' kind parameters key = (Inr [(''status'', PStr ''accepted'')], [request])"
proof -
  obtain client where client: "executor_client example_settings = Inr client" by (simp add: executor_client_def)
  have "dget example_claims ''release_id'' = Some (PStr ''r1'')" by (simp add: example_claims_def)
  then show ?thesis
    by (simp add: execute_external_def check_target_def given_def example_gate client py_item_def get_value_def dget_or_def)
qed

theorem external_request_guarded_witness:
  "\<exists>request. execute_external (\<lambda>_. sample_digest) (\<lambda>_ _. Inr example_claims) (\<lambda>_. Inr (PDict [(''status'', PStr ''accepted'')]))
      sample_registry example_settings ''gateway'' ''throttle'' [] ''k1'' = (Inr [(''status'', PStr ''accepted'')], [request]) \<and>
    starts_with ''https://'' (rq_base_url request)"
proof -
  obtain request where run: "execute_external (\<lambda>_. sample_digest) (\<lambda>_ _. Inr example_claims) (\<lambda>_. Inr (PDict [(''status'', PStr ''accepted'')]))
      sample_registry example_settings ''gateway'' ''throttle'' [] ''k1'' = (Inr [(''status'', PStr ''accepted'')], [request])"
    using example_external by blast
  then show ?thesis using external_request_guarded [OF run] by auto
qed

end
