(* ===== verification/Iam.thy ===== *)
theory Iam
  imports Settings Certification Decimal_Arith
begin

text \<open>
  Identities: \<open>packages/iam/service.py\<close>, \<open>packages/iam/authentication.py\<close> and the dependency
  \<open>read_context\<close> of \<open>apps/api/main.py\<close> that every route runs first.

  The identity provider and PyJWT are parameters: \<open>fetch\<close> gets the document of a URL (an HTTP error is a
  \<open>ConnectionError\<close>), \<open>parse_key\<close> is \<open>PyJWK.from_dict\<close>, \<open>unverified_header\<close> and \<open>decode\<close> read a token; a
  \<open>PyJWTError\<close> is a \<open>RuntimeError\<close> and an \<open>AuthenticationError\<close> the \<open>PermissionError\<close> that it extends.
\<close>

section \<open>Identities and policies\<close>

definition text_or_empty :: "string option \<Rightarrow> string" where
  \<comment> \<open>\<open>value or ""\<close>\<close>
  "text_or_empty v = (case v of None \<Rightarrow> [] | Some s \<Rightarrow> s)"

record identity =
  id_subject :: string
  id_tenant_id :: string
  id_roles :: "string set"
  id_attributes :: "(string, string) dict"
  id_token_expires_at :: datetime
  id_service_account :: bool

record iam_policy =
  po_action :: string
  po_allowed_roles :: "string set"
  po_required_attributes :: "(string, string) dict"
  po_allow_service_accounts :: bool

definition authorize :: "identity \<Rightarrow> iam_policy \<Rightarrow> string \<Rightarrow> datetime \<Rightarrow> bool result" where
  "authorize identity policy resource_tenant now =
     rbind (dt_ge now (id_token_expires_at identity)) (\<lambda>expired.
       if expired then Inl (PermissionError ''identity token expired'')
       else if id_tenant_id identity \<noteq> resource_tenant then Inl (PermissionError ''cross-tenant access denied'')
       else if id_service_account identity \<and> \<not> po_allow_service_accounts policy
       then Inl (PermissionError ''service account is not allowed'')
       else if id_roles identity \<inter> po_allowed_roles policy = {} then Inl (PermissionError ''role is not authorized'')
       else case find (\<lambda>(name, expected). dget (id_attributes identity) name \<noteq> Some expected) (po_required_attributes policy) of
         Some (name, _) \<Rightarrow> Inl (PermissionError (''attribute '' @ name @ '' does not satisfy policy''))
       | None \<Rightarrow> Inr True)"

definition py_float :: "pyval \<Rightarrow> dec result" where
  \<comment> \<open>\<open>float(value)\<close> of a string, an integer or a float\<close>
  "py_float v =
     (case v of
        PBool b \<Rightarrow> Inr (Fin (if b then 1 else 0))
      | PInt n \<Rightarrow>
          if 2 ^ 1024 \<le> \<bar>to_double (of_int n)\<bar> then Inl (OverflowError ''int too large to convert to float'')
          else Inr (Fin (to_double (of_int n)))
      | PStr s \<Rightarrow>
          (case decimal_of_string s of
             Inl _ \<Rightarrow> Inl (ValueError (''could not convert string to float: '' @ repr_string s))
           | Inr (Fin x) \<Rightarrow> Inr (if 2 ^ 1024 \<le> \<bar>to_double x\<bar> then Infinity (x < 0) else Fin (to_double x))
           | Inr d \<Rightarrow> Inr d)
      | PFloat r \<Rightarrow>
          (case decimal_of_string r of Inl e \<Rightarrow> Inl e | Inr (Fin x) \<Rightarrow> Inr (Fin (to_double x)) | Inr d \<Rightarrow> Inr d)
      | _ \<Rightarrow> Inl (TypeError ''float() argument must be a string or a real number''))"

definition fromtimestamp :: "dec \<Rightarrow> datetime result" where
  \<comment> \<open>\<open>datetime.fromtimestamp(x, tz=UTC)\<close>: the whole seconds and the rounded microseconds of the rest\<close>
  "fromtimestamp d =
     (case d of
        NaN \<Rightarrow> Inl (ValueError ''Invalid value NaN (not a number)'')
      | Infinity _ \<Rightarrow> Inl (OverflowError ''cannot convert float infinity to integer'')
      | Fin x \<Rightarrow>
          let whole = (if x < 0 then \<lceil>x\<rceil> else \<lfloor>x\<rfloor>);
              t = whole * 1000000 + round_half_even (to_double (1000000 * (x - of_int whole)))
          in if whole < - (2 ^ 63) \<or> 2 ^ 63 \<le> whole then Inl (OverflowError ''timestamp out of range for platform time_t'')
             else if whole < - 67768040609740800 \<or> 67768036191676799 < whole then Inl (OSError ''Value too large for defined data type'')
             else if \<not> representable (Aware t) then Inl (ValueError ''year is out of range'')
             else Inr (Aware t))"

definition missing_claims :: "json_object \<Rightarrow> string list" where
  \<comment> \<open>\<open>sorted(required - claims.keys())\<close>\<close>
  "missing_claims claims = filter (\<lambda>k. dget claims k = None) [''exp'', ''roles'', ''sub'', ''tenant_id'']"

definition audience_matches :: "json_object \<Rightarrow> string \<Rightarrow> bool" where
  "audience_matches claims audience \<longleftrightarrow>
     (let token_audience = get_value claims ''aud'' in
      py_eq token_audience (PStr audience) \<or>
      (case token_audience of PList vs \<Rightarrow> \<exists>v \<in> set vs. py_eq (PStr audience) v | _ \<Rightarrow> False))"

definition validate_sso_claims :: "json_object \<Rightarrow> string \<Rightarrow> string \<Rightarrow> identity result" where
  "validate_sso_claims claims issuer audience =
     (if \<not> py_eq (get_value claims ''iss'') (PStr issuer) \<or> \<not> audience_matches claims audience
      then Inl (PermissionError ''OIDC issuer or audience mismatch'')
      else if missing_claims claims \<noteq> []
      then Inl (PermissionError (''missing identity claims '' @ py_str (PList (map PStr (missing_claims claims)))))
      else let expires_at = get_value claims ''exp'' in
      case get_value claims ''roles'' of
        PList roles \<Rightarrow>
          (case dget_or claims ''attributes'' (PDict []) of
             PDict attributes \<Rightarrow>
               if (case expires_at of PNone \<Rightarrow> True | PList _ \<Rightarrow> True | PDict _ \<Rightarrow> True | _ \<Rightarrow> False)
               then Inl (PermissionError ''exp claim must be numeric'')
               else rbind (rbind (py_float expires_at) fromtimestamp) (\<lambda>expiry.
                 Inr \<lparr>id_subject = py_str (get_value claims ''sub''), id_tenant_id = py_str (get_value claims ''tenant_id''),
                      id_roles = py_str ` set roles, id_attributes = map (\<lambda>(k, v). (k, py_str v)) attributes,
                      id_token_expires_at = expiry, id_service_account = truthy (dget_or claims ''service_account'' (PBool False))\<rparr>)
           | _ \<Rightarrow> Inl (PermissionError ''attributes claim must be an object''))
      | _ \<Rightarrow> Inl (PermissionError ''roles claim must be a collection''))"

section \<open>The keys of the identity provider\<close>

record 'k pyjwk =
  jwk_algorithm_name :: string
  jwk_key :: 'k

record 'k jwks_entry =
  je_expires_at :: rat
  je_keys :: "(string, 'k pyjwk) dict"

record 'k jwks_cache =
  jc_url :: string
  jc_ttl_seconds :: int
  jc_entry :: "'k jwks_entry option"

definition ALGORITHMS :: "string set" where
  "ALGORITHMS = {''RS256'', ''RS384'', ''RS512'', ''ES256'', ''ES384''}"

definition mk_jwks_cache :: "string \<Rightarrow> int \<Rightarrow> 'k jwks_cache result" where
  "mk_jwks_cache url ttl_seconds =
     (if \<not> starts_with ''https://'' url then Inl (ValueError ''OIDC JWKS URL must use HTTPS'')
      else Inr \<lparr>jc_url = url, jc_ttl_seconds = ttl_seconds, jc_entry = None\<rparr>)"

fun collect_keys :: "(json_object \<Rightarrow> 'k pyjwk result) \<Rightarrow> pyval list \<Rightarrow> (string, 'k pyjwk) dict \<Rightarrow> (string, 'k pyjwk) dict result" where
  "collect_keys parse_key [] keys = Inr keys"
| "collect_keys parse_key (raw # rest) keys =
     (case raw of
        PDict d \<Rightarrow>
          (case dget d ''kid'' of
             Some (PStr kid) \<Rightarrow>
               rbind (parse_key d) (\<lambda>parsed.
                 if jwk_algorithm_name parsed \<notin> ALGORITHMS then collect_keys parse_key rest keys
                 else collect_keys parse_key rest (dput kid parsed keys))
           | _ \<Rightarrow> collect_keys parse_key rest keys)
      | _ \<Rightarrow> collect_keys parse_key rest keys)"

definition jwks_refresh ::
  "(string \<Rightarrow> pyval result) \<Rightarrow> (json_object \<Rightarrow> 'k pyjwk result) \<Rightarrow> rat \<Rightarrow> 'k jwks_cache \<Rightarrow> 'k jwks_entry result" where
  "jwks_refresh fetch parse_key now cache =
     (case fetch (jc_url cache) of
        Inl (ConnectionError _) \<Rightarrow> Inl (PermissionError ''OIDC JWKS endpoint is unavailable'')
      | Inl (ValueError _) \<Rightarrow> Inl (PermissionError ''OIDC JWKS endpoint is unavailable'')
      | Inl e \<Rightarrow> Inl e
      | Inr document \<Rightarrow>
          (case (case document of PDict d \<Rightarrow> get_value d ''keys'' | _ \<Rightarrow> PNone) of
             PList raw_keys \<Rightarrow>
               rbind (collect_keys parse_key raw_keys []) (\<lambda>keys.
                 if keys = [] then Inl (PermissionError ''OIDC JWKS contains no allowed signing keys'')
                 else Inr \<lparr>je_expires_at = to_double (now + of_int (jc_ttl_seconds cache)), je_keys = keys\<rparr>)
           | _ \<Rightarrow> Inl (PermissionError ''OIDC JWKS document is invalid'')))"

definition jwks_get ::
  "(string \<Rightarrow> pyval result) \<Rightarrow> (json_object \<Rightarrow> 'k pyjwk result) \<Rightarrow> rat \<Rightarrow> string \<Rightarrow> 'k jwks_cache \<Rightarrow> 'k pyjwk result \<times> 'k jwks_cache" where
  "jwks_get fetch parse_key now key_id cache =
     (case (case jc_entry cache of
              Some entry \<Rightarrow>
                if now \<ge> je_expires_at entry \<or> dget (je_keys entry) key_id = None then jwks_refresh fetch parse_key now cache else Inr entry
            | None \<Rightarrow> jwks_refresh fetch parse_key now cache) of
        Inl e \<Rightarrow> (Inl e, cache)
      | Inr entry \<Rightarrow>
          (case dget (je_keys entry) key_id of
             Some key \<Rightarrow> Inr key
           | None \<Rightarrow> Inl (PermissionError ''JWT signing key is not trusted''), cache\<lparr>jc_entry := Some entry\<rparr>))"

section \<open>Authentication\<close>

record 'k authenticator =
  au_settings :: settings
  au_jwks :: "'k jwks_cache option"

definition mk_authenticator :: "settings \<Rightarrow> 'k authenticator result" where
  "mk_authenticator s =
     (case st_oidc_jwks_url s of
        Some url \<Rightarrow>
          if st_auth_mode s = ''oidc'' \<and> url \<noteq> [] then
            rbind (mk_jwks_cache url (st_oidc_jwks_ttl_seconds s)) (\<lambda>cache. Inr \<lparr>au_settings = s, au_jwks = Some cache\<rparr>)
          else Inr \<lparr>au_settings = s, au_jwks = None\<rparr>
      | None \<Rightarrow> Inr \<lparr>au_settings = s, au_jwks = None\<rparr>)"

definition compare_digest :: "string \<Rightarrow> string \<Rightarrow> bool result" where
  \<comment> \<open>\<open>hmac.compare_digest\<close> of two strings, which have to be ASCII\<close>
  "compare_digest a b =
     (if list_all (\<lambda>c. of_char c < (128 :: nat)) (a @ b) then Inr (a = b)
      else Inl (TypeError ''comparing strings with non-ASCII characters is not supported''))"

definition trusted_identity :: "instant \<Rightarrow> string option \<Rightarrow> string option \<Rightarrow> string option \<Rightarrow> identity result" where
  "trusted_identity now tenant_id actor_id roles =
     (case (tenant_id, actor_id, roles) of
        (Some t, Some a, Some r) \<Rightarrow>
          if t = [] \<or> a = [] then Inl (PermissionError ''test identity headers are incomplete'')
          else Inr \<lparr>id_subject = a, id_tenant_id = t, id_roles = set (filter (\<lambda>x. x \<noteq> []) (map strip (split_on (CHR '','') r))),
                    id_attributes = [], id_token_expires_at = Aware (now + seconds 300), id_service_account = False\<rparr>
      | _ \<Rightarrow> Inl (PermissionError ''test identity headers are incomplete''))"

record ('k) token_library =
  tl_fetch :: "string \<Rightarrow> pyval result"
  tl_parse_key :: "json_object \<Rightarrow> 'k pyjwk result"
  tl_unverified_header :: "string \<Rightarrow> json_object result"
  tl_decode :: "string \<Rightarrow> 'k \<Rightarrow> string \<Rightarrow> string option \<Rightarrow> string option \<Rightarrow> json_object result"

definition bearer_token :: "string option \<Rightarrow> string result" where
  "bearer_token authorization =
     (case authorization of
        None \<Rightarrow> Inl (PermissionError ''Bearer token is required'')
      | Some a \<Rightarrow>
          if \<not> starts_with ''Bearer '' a then Inl (PermissionError ''Bearer token is required'')
          else let token = strip (drop 7 a) in
            if length (filter (\<lambda>c. c = CHR ''.'') token) \<noteq> 2 then Inl (PermissionError ''Bearer token is malformed'')
            else Inr token)"

definition token_method :: "'k token_library \<Rightarrow> 'k authenticator \<Rightarrow> string \<Rightarrow> (string \<times> string \<times> 'k jwks_cache) result" where
  \<comment> \<open>the algorithm and the key identifier of the token and the cache of the trusted keys\<close>
  "token_method lib au token =
     (case tl_unverified_header lib token of
        Inl (RuntimeError _) \<Rightarrow> Inl (PermissionError ''Bearer token header is invalid'')
      | Inl e \<Rightarrow> Inl e
      | Inr header \<Rightarrow>
          (case (get_value header ''alg'', get_value header ''kid'', au_jwks au) of
             (PList _, _, _) \<Rightarrow> Inl (TypeError ''unhashable type'')
           | (PDict _, _, _) \<Rightarrow> Inl (TypeError ''unhashable type'')
           | (PStr algorithm, PStr key_id, Some cache) \<Rightarrow>
               if algorithm \<notin> ALGORITHMS then Inl (PermissionError ''Bearer token signing method is not trusted'')
               else Inr (algorithm, key_id, cache)
           | _ \<Rightarrow> Inl (PermissionError ''Bearer token signing method is not trusted'')))"

definition read_claims :: "'k token_library \<Rightarrow> settings \<Rightarrow> string \<Rightarrow> 'k pyjwk \<Rightarrow> string \<Rightarrow> (json_object \<times> identity) result" where
  \<comment> \<open>the \<open>try\<close> block around \<open>jwt.decode\<close> and \<open>validate_sso_claims\<close>\<close>
  "read_claims lib s token key algorithm =
     (case rbind (tl_decode lib token (jwk_key key) algorithm (st_oidc_audience s) (st_oidc_issuer s)) (\<lambda>claims.
             rbind (validate_sso_claims claims (text_or_empty (st_oidc_issuer s)) (text_or_empty (st_oidc_audience s))) (\<lambda>identity.
               Inr (claims, identity))) of
        Inl (RuntimeError _) \<Rightarrow> Inl (PermissionError ''Bearer token validation failed'')
      | Inl (PermissionError _) \<Rightarrow> Inl (PermissionError ''Bearer token validation failed'')
      | Inl (ValueError _) \<Rightarrow> Inl (PermissionError ''Bearer token validation failed'')
      | r \<Rightarrow> r)"

definition bind_certificate :: "json_object \<Rightarrow> identity \<Rightarrow> string option \<Rightarrow> identity result" where
  "bind_certificate claims identity peer_certificate =
     (if \<not> id_service_account identity then Inr identity
      else case (get_value claims ''mtls_sha256'', peer_certificate) of
        (PStr bound_hash, Some peer) \<Rightarrow>
          if peer = [] then Inl (PermissionError ''service account token requires mTLS certificate binding'')
          else rbind (compare_digest (lower bound_hash) (lower peer)) (\<lambda>same.
            if same then Inr identity else Inl (PermissionError ''service account certificate binding mismatch''))
      | _ \<Rightarrow> Inl (PermissionError ''service account token requires mTLS certificate binding''))"

definition authenticate ::
  "'k token_library \<Rightarrow> instant \<Rightarrow> rat \<Rightarrow> string option \<Rightarrow> string option \<times> string option \<times> string option \<Rightarrow> string option \<Rightarrow>
   'k authenticator \<Rightarrow> identity result \<times> 'k authenticator" where
  "authenticate lib now monotonic authorization trusted_headers peer_certificate au =
     (if st_auth_mode (au_settings au) = ''trusted_headers'' then
        (let (tenant_id, actor_id, roles) = trusted_headers in (trusted_identity now tenant_id actor_id roles, au))
      else case rbind (bearer_token authorization) (\<lambda>token. rbind (token_method lib au token) (\<lambda>m. Inr (token, m))) of
        Inl e \<Rightarrow> (Inl e, au)
      | Inr (token, algorithm, key_id, cache) \<Rightarrow>
          (case jwks_get (tl_fetch lib) (tl_parse_key lib) monotonic key_id cache of
             (Inl e, cache) \<Rightarrow> (Inl e, au\<lparr>au_jwks := Some cache\<rparr>)
           | (Inr key, cache) \<Rightarrow>
               (if jwk_algorithm_name key \<noteq> algorithm then Inl (PermissionError ''Bearer token algorithm does not match signing key'')
                else rbind (read_claims lib (au_settings au) token key algorithm) (\<lambda>(claims, identity).
                  bind_certificate claims identity peer_certificate),
                au\<lparr>au_jwks := Some cache\<rparr>)))"

definition forwarded_peer_certificate ::
  "string option \<Rightarrow> string option \<Rightarrow> string option \<Rightarrow> string option \<Rightarrow> string option result" where
  "forwarded_peer_certificate direct_hash forwarded_hash supplied_proxy_secret configured_proxy_secret =
     (if given direct_hash then Inr direct_hash
      else if \<not> given forwarded_hash \<or> \<not> given supplied_proxy_secret \<or> \<not> given configured_proxy_secret then Inr None
      else rbind (compare_digest (text_or_empty supplied_proxy_secret) (text_or_empty configured_proxy_secret)) (\<lambda>same.
        Inr (if same then forwarded_hash else None)))"

section \<open>The context of a request\<close>

record api_request =
  hr_method :: string
  hr_path :: string
  hr_authorization :: "string option"
  hr_tenant_id :: "string option"
  hr_actor_id :: "string option"
  hr_roles :: "string option"
  hr_correlation_id :: "string option"
  hr_client_certificate :: "string option"
  hr_forwarded_certificate :: "string option"
  hr_proxy_secret :: "string option"

record api_context =
  cx_tenant_id :: string
  cx_actor_id :: string
  cx_roles :: "string set"
  cx_correlation_id :: string
  cx_idempotency_key :: "string option"
  cx_if_match :: "string option"

definition ends_with :: "string \<Rightarrow> string \<Rightarrow> bool" where
  "ends_with suffix s \<longleftrightarrow> starts_with (rev suffix) (rev s)"

definition allowed_roles :: "string \<Rightarrow> string \<Rightarrow> string set" where
  "allowed_roles method path =
     (if list_ex (\<lambda>p. starts_with p path) [''/v1/admin'', ''/v1/tenants'', ''/v1/users'', ''/v1/roles'']
      then {''admin'', ''tenant_admin''}
      else if ends_with ''/execute'' path then {''admin'', ''operator'', ''executor''}
      else if method \<in> {''POST'', ''PUT'', ''PATCH'', ''DELETE''}
      then {''admin'', ''tenant_admin'', ''operator'', ''planner'', ''model_admin'', ''safety_admin''}
      else {''admin'', ''tenant_admin'', ''operator'', ''viewer'', ''auditor'', ''planner'', ''model_admin'', ''safety_admin''})"

definition authorize_request :: "string \<Rightarrow> string \<Rightarrow> string set \<Rightarrow> unit result" where
  "authorize_request method path roles =
     (if roles = {} then Inl (PermissionError ''identity has no assigned role'')
      else if roles \<inter> allowed_roles method path = {} then Inl (PermissionError ''role is not authorized for this operation'')
      else Inr ())"

definition read_context ::
  "'k token_library \<Rightarrow> instant \<Rightarrow> rat \<Rightarrow> string \<Rightarrow> api_request \<Rightarrow> 'k authenticator \<Rightarrow> api_context result \<times> 'k authenticator" where
  \<comment> \<open>\<open>uuid\<close> is the identifier that \<open>uuid.uuid4()\<close> would give\<close>
  "read_context lib now monotonic uuid q au =
     (case forwarded_peer_certificate (hr_client_certificate q) (hr_forwarded_certificate q) (hr_proxy_secret q)
             (st_trusted_proxy_secret (au_settings au)) of
        Inl e \<Rightarrow> (Inl e, au)
      | Inr certificate \<Rightarrow>
          (case authenticate lib now monotonic (hr_authorization q) (hr_tenant_id q, hr_actor_id q, hr_roles q) certificate au of
             (Inl e, au) \<Rightarrow> (Inl e, au)
           | (Inr identity, au) \<Rightarrow>
               (if given (hr_tenant_id q) \<and> hr_tenant_id q \<noteq> Some (id_tenant_id identity)
                then Inl (PermissionError ''tenant header does not match authenticated identity'')
                else rbind (authorize_request (hr_method q) (hr_path q) (id_roles identity)) (\<lambda>_.
                  Inr \<lparr>cx_tenant_id = id_tenant_id identity, cx_actor_id = id_subject identity, cx_roles = id_roles identity,
                       cx_correlation_id = (if given (hr_correlation_id q) then text_or_empty (hr_correlation_id q) else uuid),
                       cx_idempotency_key = None, cx_if_match = None\<rparr>), au)))"

definition write_context :: "api_context \<Rightarrow> string \<Rightarrow> string option \<Rightarrow> api_context" where
  "write_context context idempotency_key if_match = context\<lparr>cx_idempotency_key := Some idempotency_key, cx_if_match := if_match\<rparr>"

section \<open>Whom a context stands for\<close>

text \<open>
  Further: Access is granted exactly to an identity whose token has not expired, of the tenant of the resource, with
  one of the roles and all the attributes of the policy, and only to a person where the policy excludes
  service accounts. The check never returns anything but that it holds.
\<close>
theorem authorize_exact:
  "authorize identity policy resource_tenant now = Inr granted \<longleftrightarrow>
     granted \<and> dt_ge now (id_token_expires_at identity) = Inr False \<and> id_tenant_id identity = resource_tenant \<and>
     \<not> (id_service_account identity \<and> \<not> po_allow_service_accounts policy) \<and> id_roles identity \<inter> po_allowed_roles policy \<noteq> {} \<and>
     list_all (\<lambda>(name, expected). dget (id_attributes identity) name = Some expected) (po_required_attributes policy)"
proof -
  let ?find = "find (\<lambda>(name, expected). dget (id_attributes identity) name \<noteq> Some expected) (po_required_attributes policy)"
  have "?find = None \<longleftrightarrow> list_all (\<lambda>(name, expected). dget (id_attributes identity) name = Some expected) (po_required_attributes policy)"
    by (auto simp: find_None_iff list_all_iff)
  then show ?thesis
    by (cases ?find) (auto simp: authorize_def rbind_eq_Inr split: if_splits)
qed

definition trusted_key :: "(json_object \<Rightarrow> bool) \<Rightarrow> (json_object \<Rightarrow> 'k pyjwk result) \<Rightarrow> string \<Rightarrow> 'k pyjwk \<Rightarrow> bool" where
  \<comment> \<open>the key is one of the provider, with an allowed algorithm\<close>
  "trusted_key genuine parse_key kid key \<longleftrightarrow>
     jwk_algorithm_name key \<in> ALGORITHMS \<and> (\<exists>raw. genuine raw \<and> dget raw ''kid'' = Some (PStr kid) \<and> parse_key raw = Inr key)"

definition trusted_keys :: "(json_object \<Rightarrow> bool) \<Rightarrow> (json_object \<Rightarrow> 'k pyjwk result) \<Rightarrow> (string, 'k pyjwk) dict \<Rightarrow> bool" where
  "trusted_keys genuine parse_key keys \<longleftrightarrow> (\<forall>kid key. dget keys kid = Some key \<longrightarrow> trusted_key genuine parse_key kid key)"

definition trusted_cache :: "(json_object \<Rightarrow> bool) \<Rightarrow> (json_object \<Rightarrow> 'k pyjwk result) \<Rightarrow> 'k jwks_cache \<Rightarrow> bool" where
  "trusted_cache genuine parse_key cache \<longleftrightarrow> (\<forall>entry. jc_entry cache = Some entry \<longrightarrow> trusted_keys genuine parse_key (je_keys entry))"

definition serves :: "(json_object \<Rightarrow> bool) \<Rightarrow> (string \<Rightarrow> pyval result) \<Rightarrow> string \<Rightarrow> bool" where
  \<comment> \<open>over HTTPS the URL of the keys gives documents of the provider only\<close>
  "serves genuine fetch url \<longleftrightarrow>
     (\<forall>d raw_keys. fetch url = Inr (PDict d) \<longrightarrow> dget d ''keys'' = Some (PList raw_keys) \<longrightarrow> (\<forall>raw. PDict raw \<in> set raw_keys \<longrightarrow> genuine raw))"

lemma collect_keys_trusted:
  assumes "collect_keys parse_key raws keys = Inr keys'" "\<And>raw. PDict raw \<in> set raws \<Longrightarrow> genuine raw" "trusted_keys genuine parse_key keys"
  shows "trusted_keys genuine parse_key keys'"
  using assms
proof (induction raws arbitrary: keys)
  case (Cons raw raws)
  have skip: "collect_keys parse_key raws keys = Inr keys' \<Longrightarrow> ?case" using Cons.IH [of keys] Cons.prems(2,3) by simp
  show ?case
  proof (cases "\<exists>d kid. raw = PDict d \<and> dget d ''kid'' = Some (PStr kid)")
    case True
    then obtain d kid where d: "raw = PDict d" "dget d ''kid'' = Some (PStr kid)" by blast
    obtain key where key: "parse_key d = Inr key" using Cons.prems(1) d by (auto simp: rbind_eq_Inr)
    show ?thesis
    proof (cases "jwk_algorithm_name key \<in> ALGORITHMS")
      case True
      have "trusted_key genuine parse_key kid key" unfolding trusted_key_def using True d key Cons.prems(2) [of d] by auto
      then have "trusted_keys genuine parse_key (dput kid key keys)" using Cons.prems(3) by (auto simp: trusted_keys_def)
      then show ?thesis using Cons.IH [of "dput kid key keys"] Cons.prems(1,2) d key True by simp
    next
      case False
      then show ?thesis using skip Cons.prems(1) d key by simp
    qed
  next
    case False
    then have "collect_keys parse_key (raw # raws) keys = collect_keys parse_key raws keys"
      by (auto split: pyval.splits option.splits)
    then show ?thesis using skip Cons.prems(1) by simp
  qed
qed simp

lemma jwks_refresh_trusted:
  assumes "jwks_refresh fetch parse_key now cache = Inr entry" "serves genuine fetch (jc_url cache)"
  shows "trusted_keys genuine parse_key (je_keys entry)"
proof -
  obtain d raw_keys keys where d: "fetch (jc_url cache) = Inr (PDict d)" "dget d ''keys'' = Some (PList raw_keys)"
      "collect_keys parse_key raw_keys [] = Inr keys" "je_keys entry = keys"
    using assms(1) unfolding jwks_refresh_def get_value_def dget_or_def
    by (auto simp: rbind_eq_Inr split: sum.splits py_error.splits pyval.splits option.splits if_splits)
  have "trusted_keys genuine parse_key keys"
    by (rule collect_keys_trusted [OF d(3)]) (use assms(2) d in \<open>auto simp: serves_def trusted_keys_def\<close>)
  then show ?thesis using d(4) by simp
qed

lemma jwks_get_trusted:
  assumes "jwks_get fetch parse_key now key_id cache = (r, cache')" "serves genuine fetch (jc_url cache)" "trusted_cache genuine parse_key cache"
  shows "trusted_cache genuine parse_key cache'" "r = Inr key \<Longrightarrow> trusted_key genuine parse_key key_id key"
    "jc_url cache' = jc_url cache"
proof -
  define s where "s = (case jc_entry cache of
              Some entry \<Rightarrow>
                if now \<ge> je_expires_at entry \<or> dget (je_keys entry) key_id = None then jwks_refresh fetch parse_key now cache else Inr entry
            | None \<Rightarrow> jwks_refresh fetch parse_key now cache)"
  have run: "jwks_get fetch parse_key now key_id cache = (case s of Inl e \<Rightarrow> (Inl e, cache)
      | Inr entry \<Rightarrow> (case dget (je_keys entry) key_id of Some key \<Rightarrow> Inr key
           | None \<Rightarrow> Inl (PermissionError ''JWT signing key is not trusted''), cache\<lparr>jc_entry := Some entry\<rparr>))"
    unfolding jwks_get_def s_def ..
  have entry: "trusted_keys genuine parse_key (je_keys entry)" if "s = Inr entry" for entry
    using that assms(2,3) jwks_refresh_trusted unfolding s_def trusted_cache_def by (auto split: option.splits if_splits)
  show "trusted_cache genuine parse_key cache'" "r = Inr key \<Longrightarrow> trusted_key genuine parse_key key_id key" "jc_url cache' = jc_url cache"
    using assms(1,3) entry unfolding run trusted_cache_def by (auto simp: trusted_keys_def split: sum.splits option.splits)
qed

lemma read_claims_ok:
  "read_claims lib s token key algorithm = Inr (claims, identity) \<longleftrightarrow>
     tl_decode lib token (jwk_key key) algorithm (st_oidc_audience s) (st_oidc_issuer s) = Inr claims \<and>
     validate_sso_claims claims (text_or_empty (st_oidc_issuer s)) (text_or_empty (st_oidc_audience s)) = Inr identity"
  unfolding read_claims_def by (auto simp: rbind_eq_Inr split: sum.splits py_error.splits)

lemma validate_sso_claims_ok:
  assumes "validate_sso_claims claims issuer audience = Inr identity"
  shows "py_eq (get_value claims ''iss'') (PStr issuer)" "audience_matches claims audience"
    "id_subject identity = py_str (get_value claims ''sub'')" "id_tenant_id identity = py_str (get_value claims ''tenant_id'')"
    "\<exists>roles. get_value claims ''roles'' = PList roles \<and> id_roles identity = py_str ` set roles"
  using assms unfolding validate_sso_claims_def Let_def
  by (auto simp: rbind_eq_Inr split: if_splits pyval.splits)

lemma bind_certificate_ok:
  assumes "bind_certificate claims identity peer = Inr i"
  shows "i = identity" "id_service_account i \<Longrightarrow> \<exists>bound p. get_value claims ''mtls_sha256'' = PStr bound \<and> peer = Some p \<and> p \<noteq> [] \<and> lower bound = lower p"
  using assms unfolding bind_certificate_def
  by (auto simp: rbind_eq_Inr compare_digest_def split: if_splits pyval.splits option.splits)

definition trusted_authenticator :: "(json_object \<Rightarrow> bool) \<Rightarrow> 'k token_library \<Rightarrow> 'k authenticator \<Rightarrow> bool" where
  "trusted_authenticator genuine lib au \<longleftrightarrow>
     (\<forall>cache. au_jwks au = Some cache \<longrightarrow> trusted_cache genuine (tl_parse_key lib) cache \<and> serves genuine (tl_fetch lib) (jc_url cache))"

lemma token_method_ok:
  assumes "token_method lib au token = Inr (algorithm, key_id, cache)"
  shows "algorithm \<in> ALGORITHMS" "au_jwks au = Some cache"
  using assms unfolding token_method_def
  by (auto split: sum.splits py_error.splits pyval.splits option.splits if_splits)

definition verified_identity ::
  "(json_object \<Rightarrow> bool) \<Rightarrow> 'k token_library \<Rightarrow> settings \<Rightarrow> string option \<Rightarrow> string option \<Rightarrow> identity \<Rightarrow> bool" where
  \<comment> \<open>a token of the request, verified with a key of the provider for this issuer and audience, names the identity\<close>
  "verified_identity genuine lib s authorization peer_certificate identity \<longleftrightarrow>
     (\<exists>token raw key claims. bearer_token authorization = Inr token \<and> genuine raw \<and> tl_parse_key lib raw = Inr key \<and>
        jwk_algorithm_name key \<in> ALGORITHMS \<and>
        tl_decode lib token (jwk_key key) (jwk_algorithm_name key) (st_oidc_audience s) (st_oidc_issuer s) = Inr claims \<and>
        py_eq (get_value claims ''iss'') (PStr (text_or_empty (st_oidc_issuer s))) \<and> audience_matches claims (text_or_empty (st_oidc_audience s)) \<and>
        id_subject identity = py_str (get_value claims ''sub'') \<and> id_tenant_id identity = py_str (get_value claims ''tenant_id'') \<and>
        (\<exists>roles. get_value claims ''roles'' = PList roles \<and> id_roles identity = py_str ` set roles) \<and>
        (id_service_account identity \<longrightarrow>
           (\<exists>bound p. get_value claims ''mtls_sha256'' = PStr bound \<and> peer_certificate = Some p \<and> p \<noteq> [] \<and> lower bound = lower p)))"

definition shown_certificate :: "settings \<Rightarrow> api_request \<Rightarrow> string option \<Rightarrow> bool" where
  \<comment> \<open>the certificate of the connection, or the one a proxy that knows the configured secret forwards\<close>
  "shown_certificate s q peer \<longleftrightarrow>
     (\<forall>p. peer = Some p \<longrightarrow>
        hr_client_certificate q = Some p \<or>
        hr_forwarded_certificate q = Some p \<and> \<not> given (hr_client_certificate q) \<and>
          given (st_trusted_proxy_secret s) \<and> hr_proxy_secret q = st_trusted_proxy_secret s)"

lemma forwarded_shown:
  assumes "forwarded_peer_certificate (hr_client_certificate q) (hr_forwarded_certificate q) (hr_proxy_secret q)
    (st_trusted_proxy_secret s) = Inr peer"
  shows "shown_certificate s q peer"
  using assms
  by (auto simp: forwarded_peer_certificate_def shown_certificate_def rbind_eq_Inr compare_digest_def given_def text_or_empty_def
      split: if_splits option.splits)

lemma authenticate_verified:
  assumes trusted: "trusted_authenticator genuine lib au" and mode: "st_auth_mode (au_settings au) \<noteq> ''trusted_headers''"
    and run: "authenticate lib now monotonic authorization headers peer au = (r, au')"
  shows "trusted_authenticator genuine lib au' \<and> au_settings au' = au_settings au \<and>
    (\<forall>identity. r = Inr identity \<longrightarrow> verified_identity genuine lib (au_settings au) authorization peer identity)"
proof (cases "rbind (bearer_token authorization) (\<lambda>token. rbind (token_method lib au token) (\<lambda>m. Inr (token, m)))")
  case (Inl e)
  then show ?thesis using run mode trusted by (auto simp: authenticate_def)
next
  case (Inr b)
  obtain token algorithm key_id cache where b: "b = (token, algorithm, key_id, cache)" by (cases b) auto
  then have m: "bearer_token authorization = Inr token" "token_method lib au token = Inr (algorithm, key_id, cache)"
    using Inr by (auto simp: rbind_eq_Inr)
  note signing = token_method_ok [OF m(2)]
  have cache: "trusted_cache genuine (tl_parse_key lib) cache" "serves genuine (tl_fetch lib) (jc_url cache)"
    using trusted signing(2) by (simp_all add: trusted_authenticator_def)
  obtain k cache' where got: "jwks_get (tl_fetch lib) (tl_parse_key lib) monotonic key_id cache = (k, cache')" by fastforce
  note get = jwks_get_trusted [OF got cache(2,1)]
  have au': "au' = au\<lparr>au_jwks := Some cache'\<rparr>"
    using run mode unfolding authenticate_def Inr b sum.case prod.case got by (auto split: sum.splits)
  have "verified_identity genuine lib (au_settings au) authorization peer identity" if r: "r = Inr identity" for identity
  proof -
    obtain key where k: "k = Inr key" "jwk_algorithm_name key = algorithm"
        "rbind (read_claims lib (au_settings au) token key algorithm) (\<lambda>(claims, identity). bind_certificate claims identity peer) = Inr identity"
      using run mode r unfolding authenticate_def Inr b sum.case prod.case got by (auto split: sum.splits if_splits)
    then obtain claims i where c: "read_claims lib (au_settings au) token key algorithm = Inr (claims, i)" "bind_certificate claims i peer = Inr identity"
      by (auto simp: rbind_eq_Inr)
    note claims = c(1) [unfolded read_claims_ok]
    note sso = validate_sso_claims_ok [OF claims [THEN conjunct2]]
    note bound = bind_certificate_ok [OF c(2)]
    obtain raw where raw: "genuine raw" "tl_parse_key lib raw = Inr key" using get(2) [OF k(1)] by (auto simp: trusted_key_def)
    show ?thesis unfolding verified_identity_def
      using m(1) raw k(2) signing(1) claims sso [folded bound(1)] bound(2) by blast
  qed
  then show ?thesis using get(1,3) cache(2) unfolding au' trusted_authenticator_def by simp
qed

lemma read_context_verified:
  assumes "trusted_authenticator genuine lib au" "st_auth_mode (au_settings au) = ''oidc''"
    and "read_context lib now monotonic uuid q au = (r, au')"
  shows "trusted_authenticator genuine lib au' \<and> (\<forall>context. r = Inr context \<longrightarrow>
    (\<exists>identity peer. verified_identity genuine lib (au_settings au) (hr_authorization q) peer identity \<and>
       shown_certificate (au_settings au) q peer \<and>
       cx_tenant_id context = id_tenant_id identity \<and> cx_actor_id context = id_subject identity \<and> cx_roles context = id_roles identity \<and>
       hr_tenant_id q \<in> {None, Some [], Some (cx_tenant_id context)} \<and>
       cx_roles context \<inter> allowed_roles (hr_method q) (hr_path q) \<noteq> {}))"
proof (cases "forwarded_peer_certificate (hr_client_certificate q) (hr_forwarded_certificate q) (hr_proxy_secret q)
    (st_trusted_proxy_secret (au_settings au))")
  case (Inl e)
  then show ?thesis using assms by (auto simp: read_context_def)
next
  case (Inr peer)
  obtain i au1 where run: "authenticate lib now monotonic (hr_authorization q) (hr_tenant_id q, hr_actor_id q, hr_roles q) peer au = (i, au1)"
    by fastforce
  have mode: "st_auth_mode (au_settings au) \<noteq> ''trusted_headers''" using assms(2) by simp
  note ok = authenticate_verified [OF assms(1) mode run]
  have au': "au' = au1" using assms(3) unfolding read_context_def Inr sum.case run by (auto split: sum.splits)
  have found: "\<exists>identity. i = Inr identity \<and> cx_tenant_id c = id_tenant_id identity \<and> cx_actor_id c = id_subject identity \<and>
      cx_roles c = id_roles identity \<and> hr_tenant_id q \<in> {None, Some [], Some (cx_tenant_id c)} \<and>
      cx_roles c \<inter> allowed_roles (hr_method q) (hr_path q) \<noteq> {}" if "r = Inr c" for c
    using assms(3) that unfolding read_context_def Inr sum.case run
    by (cases "hr_tenant_id q") (auto simp: rbind_eq_Inr authorize_request_def given_def split: sum.splits if_splits)
  show ?thesis
  proof (intro conjI allI impI)
    show "trusted_authenticator genuine lib au'" using ok au' by simp
  next
    fix c assume "r = Inr c"
    from found [OF this] obtain identity where i: "i = Inr identity" "cx_tenant_id c = id_tenant_id identity" "cx_actor_id c = id_subject identity"
        "cx_roles c = id_roles identity" "hr_tenant_id q \<in> {None, Some [], Some (cx_tenant_id c)}"
        "cx_roles c \<inter> allowed_roles (hr_method q) (hr_path q) \<noteq> {}"
      by (elim exE conjE)
    have "verified_identity genuine lib (au_settings au) (hr_authorization q) peer identity" using ok i(1) by simp
    then show "\<exists>identity peer. verified_identity genuine lib (au_settings au) (hr_authorization q) peer identity \<and>
        shown_certificate (au_settings au) q peer \<and> cx_tenant_id c = id_tenant_id identity \<and> cx_actor_id c = id_subject identity \<and> cx_roles c = id_roles identity \<and>
        hr_tenant_id q \<in> {None, Some [], Some (cx_tenant_id c)} \<and> cx_roles c \<inter> allowed_roles (hr_method q) (hr_path q) \<noteq> {}"
      using forwarded_shown [OF Inr] i(2-) by (intro exI conjI)
  qed
qed

text \<open>
  C9: Behind OIDC every request that gets a context has been authenticated. Its tenant, actor and roles are the
  claims of a bearer token that a key from the key set of the provider verifies, with an allowed algorithm and
  for the configured issuer and audience; a service account showed the client certificate that its token is
  bound to, either on the connection itself or, when the connection has none, through a proxy whose secret is
  the configured one; a tenant header agrees with the token; and one of the roles is allowed for method and path. The
  cache of keys keeps holding keys of the provider only.
\<close>
theorem request_identity_verified:
  assumes "trusted_authenticator genuine lib au" "st_auth_mode (au_settings au) = ''oidc''"
    and "read_context lib now monotonic uuid q au = (r, au')"
  shows "trusted_authenticator genuine lib au' \<and> (\<forall>context. r = Inr context \<longrightarrow>
    (\<exists>identity peer. verified_identity genuine lib (au_settings au) (hr_authorization q) peer identity \<and>
       shown_certificate (au_settings au) q peer \<and>
       cx_tenant_id context = id_tenant_id identity \<and> cx_actor_id context = id_subject identity \<and> cx_roles context = id_roles identity \<and>
       hr_tenant_id q \<in> {None, Some [], Some (cx_tenant_id context)} \<and>
       cx_roles context \<inter> allowed_roles (hr_method q) (hr_path q) \<noteq> {}))"
  using assms by (rule read_context_verified)

section \<open>Example\<close>

definition example_library :: "unit token_library" where
  "example_library =
     \<lparr>tl_fetch = (\<lambda>_. Inr (PDict [(''keys'', PList [PDict [(''kid'', PStr ''k1'')]])])),
      tl_parse_key = (\<lambda>_. Inr \<lparr>jwk_algorithm_name = ''RS256'', jwk_key = ()\<rparr>),
      tl_unverified_header = (\<lambda>_. Inr [(''alg'', PStr ''RS256''), (''kid'', PStr ''k1'')]),
      tl_decode = (\<lambda>_ _ _ _ _. Inr [(''iss'', PStr ''https://idp''), (''aud'', PStr ''cw''), (''sub'', PStr ''dave''), (''tenant_id'', PStr ''t1''),
        (''roles'', PList [PStr ''operator'']), (''exp'', PInt 0)])\<rparr>"

definition sample_request :: "string \<Rightarrow> api_request" where
  "sample_request path =
     \<lparr>hr_method = ''POST'', hr_path = path, hr_authorization = Some ''Bearer a.b.c'', hr_tenant_id = None, hr_actor_id = None,
      hr_roles = None, hr_correlation_id = Some ''c1'', hr_client_certificate = None, hr_forwarded_certificate = None, hr_proxy_secret = None\<rparr>"

definition example_authenticator :: "unit authenticator" where
  "example_authenticator = \<lparr>au_settings = example_settings, au_jwks = Some \<lparr>jc_url = ''https://idp/jwks'', jc_ttl_seconds = 300, jc_entry = None\<rparr>\<rparr>"

definition sample_context :: api_context where
  "sample_context = \<lparr>cx_tenant_id = ''t1'', cx_actor_id = ''dave'', cx_roles = {''operator''}, cx_correlation_id = ''c1'',
     cx_idempotency_key = None, cx_if_match = None\<rparr>"

lemma example_authenticator_trusted:
  "mk_authenticator example_settings = Inr example_authenticator"
  "trusted_authenticator (\<lambda>raw. dget raw ''kid'' = Some (PStr ''k1'')) example_library example_authenticator"
  by (simp_all add: mk_authenticator_def mk_jwks_cache_def example_authenticator_def starts_with_def trusted_authenticator_def trusted_cache_def
      serves_def example_library_def)

lemma sample_context_read:
  assumes "''operator'' \<in> allowed_roles ''POST'' path"
  shows "fst (read_context example_library 0 0 ''u1'' (sample_request path) example_authenticator) = Inr sample_context"
proof -
  have eq: "py_eq (PStr x) (PStr x)" for x by (simp add: py_eq_def)
  have exp: "rbind (py_float (PInt 0)) fromtimestamp = Inr (Aware 0)"
    by (simp add: py_float_def fromtimestamp_def to_double_def representable_1970 round_half_even_def)
  have claims: "read_claims example_library example_settings ''a.b.c'' \<lparr>jwk_algorithm_name = ''RS256'', jwk_key = ()\<rparr> ''RS256'' =
      Inr ([(''iss'', PStr ''https://idp''), (''aud'', PStr ''cw''), (''sub'', PStr ''dave''), (''tenant_id'', PStr ''t1''),
        (''roles'', PList [PStr ''operator'']), (''exp'', PInt 0)],
       \<lparr>id_subject = ''dave'', id_tenant_id = ''t1'', id_roles = {''operator''}, id_attributes = [], id_token_expires_at = Aware 0, id_service_account = False\<rparr>)"
    unfolding read_claims_ok
    by (simp add: example_library_def validate_sso_claims_def get_value_def dget_or_def audience_matches_def missing_claims_def eq exp text_or_empty_def)
  have token: "bearer_token (Some ''Bearer a.b.c'') = Inr ''a.b.c''" by code_simp
  have signing: "token_method example_library example_authenticator ''a.b.c'' = Inr (''RS256'', ''k1'', the (au_jwks example_authenticator))"
    by (simp add: token_method_def example_library_def example_authenticator_def get_value_def dget_or_def ALGORITHMS_def)
  have key: "\<exists>c. jwks_get (tl_fetch example_library) (tl_parse_key example_library) 0 ''k1'' (the (au_jwks example_authenticator)) =
      (Inr \<lparr>jwk_algorithm_name = ''RS256'', jwk_key = ()\<rparr>, c)"
    by (simp add: jwks_get_def jwks_refresh_def example_library_def example_authenticator_def get_value_def dget_or_def ALGORITHMS_def)
  then obtain c where c: "jwks_get (tl_fetch example_library) (tl_parse_key example_library) 0 ''k1'' (the (au_jwks example_authenticator)) =
      (Inr \<lparr>jwk_algorithm_name = ''RS256'', jwk_key = ()\<rparr>, c)" by blast
  have s: "au_settings example_authenticator = example_settings" by (simp add: example_authenticator_def)
  have auth: "fst (authenticate example_library 0 0 (Some ''Bearer a.b.c'') h None example_authenticator) =
      Inr \<lparr>id_subject = ''dave'', id_tenant_id = ''t1'', id_roles = {''operator''}, id_attributes = [], id_token_expires_at = Aware 0, id_service_account = False\<rparr>" for h
    by (simp add: authenticate_def s token signing c claims bind_certificate_def)
  have "forwarded_peer_certificate None None None (st_trusted_proxy_secret example_settings) = Inr None"
    by (simp add: forwarded_peer_certificate_def given_def)
  then show ?thesis
    using auth [of "(None, None, None)"] assms
    by (cases "authenticate example_library 0 0 (Some ''Bearer a.b.c'') (None, None, None) None example_authenticator")
      (simp add: read_context_def sample_request_def s given_def authorize_request_def sample_context_def text_or_empty_def)
qed

theorem request_identity_verified_witness:
  "\<exists>identity peer. verified_identity (\<lambda>raw. dget raw ''kid'' = Some (PStr ''k1'')) example_library example_settings (Some ''Bearer a.b.c'') peer identity \<and>
     shown_certificate example_settings (sample_request ''/v1/plans'') peer \<and> id_tenant_id identity = ''t1'' \<and> id_roles identity = {''operator''}"
proof -
  have "''operator'' \<in> allowed_roles ''POST'' ''/v1/plans''" by code_simp
  note read = sample_context_read [OF this]
  obtain r au' where run: "read_context example_library 0 0 ''u1'' (sample_request ''/v1/plans'') example_authenticator = (r, au')" by fastforce
  have mode: "st_auth_mode (au_settings example_authenticator) = ''oidc''" by (simp add: example_authenticator_def)
  have "r = Inr sample_context" using read run by simp
  from request_identity_verified [OF example_authenticator_trusted(2) mode run, THEN conjunct2, rule_format, OF this]
  obtain identity peer where i: "verified_identity (\<lambda>raw. dget raw ''kid'' = Some (PStr ''k1'')) example_library (au_settings example_authenticator)
      (hr_authorization (sample_request ''/v1/plans'')) peer identity"
      "shown_certificate (au_settings example_authenticator) (sample_request ''/v1/plans'') peer" "cx_tenant_id sample_context = id_tenant_id identity"
      "cx_roles sample_context = id_roles identity"
    by (elim exE conjE)
  have "au_settings example_authenticator = example_settings" "hr_authorization (sample_request ''/v1/plans'') = Some ''Bearer a.b.c''"
    "cx_tenant_id sample_context = ''t1''" "cx_roles sample_context = {''operator''}"
    by (simp_all add: example_authenticator_def sample_request_def sample_context_def)
  with i show ?thesis by (intro exI conjI) simp_all
qed

end
