(* ===== verification/Action_Api.thy ===== *)
theory Action_Api
  imports Iam Release_Gate Execution Idempotency
begin

text \<open>
  The routes of \<open>apps/api/main.py\<close> that try out and execute an action: \<open>parse_action\<close>, the adapters, the
  dry run and the execution, on the approvals and executions in PostgreSQL, and the whole request with the
  context that \<open>read_context\<close> gives it. They compose the action guard, the approval workflow, the store of
  executions and the guarded executor of the other theories.

  The state of the process is a record: the tables of approvals and executions, the simulator and the
  requests that were sent to the provider gateway. What the process calls is in an environment: the digest,
  the verification of release tokens, the gateway, the files, the settings, the JSON copy of a result and
  the behaviour of the connection pools.
\<close>

section \<open>The action of a request\<close>

definition py_at :: "pyval \<Rightarrow> int \<Rightarrow> pyval result" where
  \<comment> \<open>\<open>value[i]\<close> for an index that is not negative; the keys of a JSON object are strings\<close>
  "py_at v i =
     (case v of
        PList vs \<Rightarrow> py_nth vs i
      | PStr s \<Rightarrow> rbind (py_nth s i) (\<lambda>c. Inr (PStr [c]))
      | PDict _ \<Rightarrow> Inl (KeyError (py_str (PInt i)))
      | _ \<Rightarrow> Inl (TypeError ''object is not subscriptable''))"

definition parse_bound :: "pyval \<Rightarrow> (dec \<times> dec) result" where
  "parse_bound v =
     rbind (rbind (py_at v 0) decimal_of_value) (\<lambda>low.
     rbind (rbind (py_at v 1) decimal_of_value) (\<lambda>high.
       Inr (low, high)))"

definition risk_of_int :: "int \<Rightarrow> risk_level result" where
  "risk_of_int n =
     (case find (\<lambda>r. risk_int r = n) [L0, L1, L2, L3, L4] of
        Some r \<Rightarrow> Inr r
      | None \<Rightarrow> Inl (ValueError (py_str (PInt n) @ '' is not a valid RiskLevel'')))"

definition parse_action :: "string \<Rightarrow> json_object \<Rightarrow> string \<Rightarrow> action result" where
  "parse_action action_id data tenant_id =
     rbind (py_item data ''plan_id'') (\<lambda>plan_id.
     rbind (py_item data ''target'') (\<lambda>target.
     rbind (py_item data ''kind'') (\<lambda>kind.
     rbind (py_item data ''expected_state_version'') (\<lambda>expected_state_version.
     rbind (rbind (py_item data ''parameters'') py_dict) (\<lambda>parameters.
     rbind (rbind (py_dict (dget_or data ''bounds'' (PDict [])))
              (rmap_list (\<lambda>(name, bounds). rbind (parse_bound bounds) (\<lambda>b. Inr (name, b))))) (\<lambda>bounds.
     rbind (py_int (dget_or data ''timeout_seconds'' (PInt 30))) (\<lambda>timeout_seconds.
     rbind (py_item data ''idempotency_key'') (\<lambda>idempotency_key.
     rbind (rbind (rbind (py_item data ''risk'') py_int) risk_of_int) (\<lambda>risk.
     rbind (rbind (py_item data ''created_at'') (\<lambda>v. fromisoformat (py_str v))) (\<lambda>created_at.
       Inr \<lparr>ac_id = action_id, ac_plan_id = py_str plan_id, ac_tenant_id = tenant_id, ac_target = py_str target,
            ac_kind = py_str kind, ac_expected_state_version = py_str expected_state_version, ac_parameters = parameters,
            ac_bounds = bounds, ac_timeout_seconds = timeout_seconds, ac_idempotency_key = py_str idempotency_key,
            ac_risk = risk, ac_created_at = created_at,
            ac_compensation_kind = get_value data ''compensation_kind''\<rparr>))))))))))"

section \<open>The environment and the state\<close>

record action_env =
  ae_sha256 :: "string \<Rightarrow> string"
  ae_decode :: "string \<Rightarrow> string \<Rightarrow> json_object result"
  ae_post :: "http_request \<Rightarrow> pyval result"
  ae_files :: files
  ae_settings :: settings
  ae_serializable :: "json_object \<Rightarrow> json_object"
  ae_approval_pool :: "approval_db pool_exit"
  ae_execution_pool :: "json_object execution_db pool_exit"

record action_state =
  as_approvals :: approval_db
  as_executions :: "json_object execution_db"
  as_simulator :: simulator_state
  as_sent :: "http_request list"

definition state_dict :: "simulator_state \<Rightarrow> pyval" where
  "state_dict s = PDict (map (\<lambda>(k, v). (k, PDict v)) s)"

definition evidence_dict :: "executor_evidence \<Rightarrow> json_object" where
  "evidence_dict e = (''status'', PStr (ee_status e)) #
     (case ee_previous e of Some p \<Rightarrow> [(''previous'', state_dict p)] | None \<Rightarrow> []) @ [(''current'', state_dict (ee_current e))]"

definition dry_run_executor :: "action_env \<Rightarrow> action \<Rightarrow> http_request list \<Rightarrow> json_object result \<times> http_request list" where
  "dry_run_executor env action sent =
     (if ac_target action = ''simulator'' then
        if st_environment (ae_settings env) \<notin> {''test'', ''simulator''}
        then (Inl (PermissionError ''simulator actions cannot be used by a production API''), sent)
        else (Inr (simulator_dry_run (ac_kind action) (ac_parameters action)), sent)
      else case dry_run_external (ae_post env) (ae_settings env) (ac_target action) (ac_kind action) (ac_parameters action) of
        (r, requests) \<Rightarrow> (r, sent @ requests))"

definition execute_with_adapter ::
  "action_env \<Rightarrow> action \<Rightarrow> simulator_state \<times> http_request list \<Rightarrow> json_object result \<times> simulator_state \<times> http_request list" where
  "execute_with_adapter env action w =
     (if ac_target action = ''simulator'' then
        if st_environment (ae_settings env) \<notin> {''test'', ''simulator''}
        then (Inl (PermissionError ''simulator actions cannot be executed by a production API''), w)
        else (case simulator_execute (ac_kind action) (ac_parameters action) (fst w) of
                (r, simulator) \<Rightarrow> (map_sum id evidence_dict r, simulator, snd w))
      else case execute_external (ae_sha256 env) (ae_decode env) (ae_post env) (ae_files env) (ae_settings env)
             (ac_target action) (ac_kind action) (ac_parameters action) (ac_idempotency_key action) of
        (r, requests) \<Rightarrow> (r, fst w, snd w @ requests))"

section \<open>The routes\<close>

definition api_guard :: action_guard where
  "api_guard = \<lparr>ag_whitelist = {''schedule_job'', ''set_dispatch_plan''}, ag_max_age = default_max_age\<rparr>"

definition named_approval ::
  "approval_db pool_exit \<Rightarrow> json_object \<Rightarrow> string \<Rightarrow> approval_db \<Rightarrow> approval_request option result \<times> approval_db" where
  "named_approval pool data tenant_id db =
     (if truthy (get_value data ''approval_id'') then
        (case get_pg pool db (py_str (get_value data ''approval_id'')) (Some tenant_id) of
           (r, db) \<Rightarrow> (map_sum id Some r, db))
      else (Inr None, db))"

definition guard_request ::
  "approval_db pool_exit \<Rightarrow> string \<Rightarrow> json_object \<Rightarrow> string \<Rightarrow> approval_db \<Rightarrow> (action \<times> guard_decision) result \<times> approval_db" where
  \<comment> \<open>what both routes begin with: the action, its approval and the decision of the guard\<close>
  "guard_request pool action_id data tenant_id db =
     (case parse_action action_id data tenant_id of
        Inl e \<Rightarrow> (Inl e, db)
      | Inr action \<Rightarrow>
          (case named_approval pool data tenant_id db of
             (Inl e, db) \<Rightarrow> (Inl e, db)
           | (Inr approval, db) \<Rightarrow>
               (rbind (py_item data ''current_state_version'') (\<lambda>version.
                rbind (rbind (py_item data ''now'') (\<lambda>v. fromisoformat (py_str v))) (\<lambda>now.
                rbind (evaluate api_guard action (py_str version) now approval) (\<lambda>decision.
                  Inr (action, decision)))), db)))"

definition dry_run_action ::
  "action_env \<Rightarrow> string \<Rightarrow> json_object \<Rightarrow> api_context \<Rightarrow> action_state \<Rightarrow> json_object result \<times> action_state" where
  "dry_run_action env action_id data context st =
     (case guard_request (ae_approval_pool env) action_id data (cx_tenant_id context) (as_approvals st) of
        (Inl e, db) \<Rightarrow> (Inl e, st\<lparr>as_approvals := db\<rparr>)
      | (Inr (action, decision), db) \<Rightarrow>
          (case dry_run_executor env action (as_sent st) of
             (r, sent) \<Rightarrow>
               (rbind r (\<lambda>adapter. Inr
                  [(''guard'', PDict [(''allowed'', PBool (gd_allowed decision)), (''reasons'', PList (map PStr (gd_reasons decision)))]),
                   (''adapter'', PDict adapter)]),
                st\<lparr>as_approvals := db, as_sent := sent\<rparr>)))"

definition intent_digest :: "action_env \<Rightarrow> json_object \<Rightarrow> string" where
  \<comment> \<open>\<open>hashlib.sha256(json.dumps(intent, sort_keys=True, default=str))\<close>\<close>
  "intent_digest env intent = ae_sha256 env (json_dumps True (PDict intent))"

definition tuple_text :: "string list \<Rightarrow> string" where
  \<comment> \<open>the text of a tuple of strings\<close>
  "tuple_text rs = (case rs of [r] \<Rightarrow> ''('' @ py_repr (PStr r) @ '',)'' | _ \<Rightarrow> ''('' @ join '', '' (map (py_repr \<circ> PStr) rs) @ '')'')"

definition execute_action ::
  "action_env \<Rightarrow> string \<Rightarrow> json_object \<Rightarrow> api_context \<Rightarrow> action_state \<Rightarrow> json_object option result \<times> action_state" where
  "execute_action env action_id data context st =
     (case guard_request (ae_approval_pool env) action_id data (cx_tenant_id context) (as_approvals st) of
        (Inl e, db) \<Rightarrow> (Inl e, st\<lparr>as_approvals := db\<rparr>)
      | (Inr (action, decision), db) \<Rightarrow>
          if \<not> gd_allowed decision
          then (Inl (PermissionError (''Action Guard rejected: '' @ tuple_text (gd_reasons decision))), st\<lparr>as_approvals := db\<rparr>)
          else (case execute_once_pg (ae_execution_pool env) (ae_serializable env) (intent_digest env) (ac_idempotency_key action)
                       [(''action'', PStr (ac_id action)), (''parameters'', PDict (ac_parameters action))]
                       (execute_with_adapter env action) (Some (cx_tenant_id context)) (Some (ac_id action))
                       (as_executions st, as_simulator st, as_sent st) of
                  (r, executions, simulator, sent) \<Rightarrow>
                    (r, st\<lparr>as_approvals := db, as_executions := executions, as_simulator := simulator, as_sent := sent\<rparr>)))"

definition execute_path :: "string \<Rightarrow> string" where
  "execute_path action_id = ''/v1/actions/'' @ action_id @ ''/execute''"

definition serve_execute ::
  "action_env \<Rightarrow> 'k token_library \<Rightarrow> instant \<Rightarrow> rat \<Rightarrow> string \<Rightarrow> api_request \<Rightarrow> string \<Rightarrow> json_object \<Rightarrow> string \<Rightarrow>
   'k authenticator \<times> action_state \<Rightarrow> json_object option result \<times> 'k authenticator \<times> action_state" where
  \<comment> \<open>\<open>POST /v1/actions/{action_id}/execute\<close> with its \<open>WriteContext\<close>\<close>
  "serve_execute env lib now monotonic uuid q action_id data idempotency_key s =
     (case read_context lib now monotonic uuid (q\<lparr>hr_method := ''POST'', hr_path := execute_path action_id\<rparr>) (fst s) of
        (Inl e, au) \<Rightarrow> (Inl e, au, snd s)
      | (Inr context, au) \<Rightarrow>
          (case execute_action env action_id data (write_context context idempotency_key None) (snd s) of
             (r, st) \<Rightarrow> (r, au, st)))"

fun run_actions :: "action_env \<Rightarrow> (string \<times> json_object \<times> api_context) list \<Rightarrow> action_state \<Rightarrow> action_state" where
  \<comment> \<open>executions one after the other\<close>
  "run_actions env [] st = st"
| "run_actions env ((action_id, data, context) # rest) st = run_actions env rest (snd (execute_action env action_id data context st))"

section \<open>What the store of executions adds\<close>

definition execution_settled :: "'r execution_db \<Rightarrow> string \<Rightarrow> string \<Rightarrow> bool" where
  \<comment> \<open>an execution under the key has succeeded\<close>
  "execution_settled db t key \<longleftrightarrow> (\<exists>row. dget (action_executions db) (t, key) = Some row \<and> ex_status row = Succeeded)"

lemma execute_once_ran:
  assumes px: "pool_contract px" and run: "execute_once_pg px ser dg key intent operation (Some t) (Some act) (db, w) = (r, db', w')"
    and ran: "w' \<noteq> w"
  shows "valid_tenant t \<and> dget (action_cancellations db) (t, act) = None \<and> \<not> execution_settled db t key \<and> snd (operation w) = w'"
proof -
  have "t \<noteq> []" "act \<noteq> []" using run ran by (auto simp: execute_once_pg_def Let_def split: if_splits)
  moreover obtain b db1 where b: "tenant_connection px t db (begin_pg_body t act key (dg intent)) = (b, db1)" by fastforce
  ultimately have "b = Inr Proceed" "snd (operation w) = w'"
    using run ran by (auto simp: execute_once_pg_def Let_def split: sum.splits begun.splits prod.splits)
  then have "valid_tenant t" "begin_pg_body t act key (dg intent) db = (Inr Proceed, db1)"
    using tenant_connection_commit [OF px, THEN iffD1, OF b [unfolded \<open>b = Inr Proceed\<close>]] by simp_all
  then show ?thesis using \<open>snd (operation w) = w'\<close>
    by (cases "dget (action_cancellations db) (t, act)") (auto simp: begin_pg_body_def execution_settled_def split: if_splits option.splits)
qed

lemma begin_keeps_settled:
  "begin_pg_body t act key digest db = (r, db') \<Longrightarrow> execution_settled db t' key' \<Longrightarrow> execution_settled db' t' key'"
  unfolding begin_pg_body_def execution_settled_def by (auto split: if_splits option.splits)

lemma update_keeps_settled:
  "execution_settled db t' key' \<Longrightarrow> (t, key) \<noteq> (t', key') \<Longrightarrow> execution_settled (update_execution t key digest f db) t' key'"
  unfolding update_execution_def execution_settled_def by (auto split: if_splits option.splits)

lemma write_connection:
  assumes "pool_contract px"
  shows "snd (tenant_connection px t db (\<lambda>db. (Inr (), g db))) \<in> {db, g db}"
  using assms by (auto simp: tenant_connection_def connection_def pool_contract_def)

lemma execute_once_keeps_settled:
  assumes px: "pool_contract px" and run: "execute_once_pg px ser dg key intent operation (Some t) (Some act) (db, w) = (r, db', w')"
    and execution_settled: "execution_settled db t' key'"
  shows "execution_settled db' t' key'"
proof (cases "t = [] \<or> act = []")
  case True
  then show ?thesis using run execution_settled by (auto simp: execute_once_pg_def Let_def)
next
  case False
  obtain b db1 where b: "tenant_connection px t db (begin_pg_body t act key (dg intent)) = (b, db1)" by fastforce
  have one: "execution_settled db1 t' key'"
  proof (cases b)
    case (Inl e)
    then show ?thesis using tenant_connection_rollback [OF px] b execution_settled by metis
  next
    case (Inr x)
    then show ?thesis using b tenant_connection_commit [OF px] begin_keeps_settled execution_settled by metis
  qed
  show ?thesis
  proof (cases "b = Inr Proceed")
    case True
    have begun: "begin_pg_body t act key (dg intent) db = (Inr Proceed, db1)"
      using tenant_connection_commit [OF px, THEN iffD1, OF b [unfolded True]] by simp
    have other: "(t, key) \<noteq> (t', key')"
      using begun execution_settled by (auto simp: begin_pg_body_def execution_settled_def split: if_splits option.splits)
    have "execution_settled (snd (tenant_connection px t db1 (\<lambda>db. (Inr (), update_execution t key (dg intent) f db)))) t' key'" for f
      using write_connection [OF px, of t db1 "update_execution t key (dg intent) f"] one update_keeps_settled [OF one other] by auto
    note keep = this
    show ?thesis
    proof (cases "operation w")
      case (Pair x w1)
      then show ?thesis
        using run False keep by (cases x) (auto simp: execute_once_pg_def Let_def b True fail_pg_def succeed_pg_def)
    qed
  next
    case notproceed: False
    then have "db' = db1"
      using run False unfolding execute_once_pg_def Let_def prod.case option.case b by (auto split: sum.splits begun.splits prod.splits)
    then show ?thesis using one by simp
  qed
qed

lemma execute_once_settles:
  assumes "pool_contract px" "execute_once_pg px ser dg key intent operation (Some t) (Some act) (db, w) = (Inr a, db', w')"
  shows "execution_settled db' t key"
proof -
  have "exec_action_pg px ser dg () (t, act, key, intent) operation (db, w) = (Inr a, db', w')" using assms(2) by (simp add: exec_action_pg_def)
  from pg_actions.exec_action_pg_ok [OF pg_actionsI [OF assms(1)] this]
  show ?thesis by (auto simp: execution_settled_def recorded_action_def pg_action_key_def)
qed

section \<open>What the guard lets through\<close>

lemma named_approval_ok:
  assumes px: "pool_contract px" and run: "named_approval px data t db = (Inr approval, db')"
  shows "db' = db \<and> (\<forall>a. approval = Some a \<longrightarrow> valid_tenant t \<and>
    (\<exists>row. dget (approvals_tbl db) (t, ar_id a) = Some row \<and> a = request_of_row db t (ar_id a) row))"
proof (cases "truthy (get_value data ''approval_id'')")
  case True
  let ?rid = "py_str (get_value data ''approval_id'')"
  obtain g where g: "get_pg px db ?rid (Some t) = (g, db')" "map_sum id Some g = Inr approval"
    using run True by (auto simp: named_approval_def split: prod.splits)
  then obtain a where a: "g = Inr a" "approval = Some a" by (cases g) auto
  have t: "valid_tenant t"
    using g(1) a(1) by (auto simp: get_pg_def tenant_connection_commit [OF px] split: if_splits)
  show ?thesis using g(1) a t by (auto simp: get_pg_eq [OF px t] request_of_row_def split: option.splits)
next
  case False
  then show ?thesis using run by (simp add: named_approval_def)
qed

lemma named_approval_keeps:
  assumes px: "pool_contract px" and run: "named_approval px data t db = (r, db')"
  shows "db' = db"
proof (cases r)
  case (Inl e)
  then obtain e' where "get_pg px db (py_str (get_value data ''approval_id'')) (Some t) = (Inl e', db')"
    using run by (auto simp: named_approval_def split: if_splits prod.splits) (metis map_sum.simps(2) old.sum.exhaust sum.distinct(1))
  then show ?thesis by (auto simp: get_pg_def dest: tenant_connection_rollback [OF px] split: if_splits)
next
  case (Inr approval)
  then show ?thesis using named_approval_ok [OF px] run by blast
qed

lemma parse_action_fields:
  assumes "parse_action action_id data tenant_id = Inr action"
  shows "ac_id action = action_id" "ac_tenant_id action = tenant_id"
  using assms unfolding parse_action_def by (auto simp: rbind_eq_Inr)

definition approved_in :: "approval_db \<Rightarrow> action \<Rightarrow> datetime \<Rightarrow> approval_request option \<Rightarrow> bool" where
  \<comment> \<open>an approval of the table covers the action\<close>
  "approved_in db action now approval \<longleftrightarrow>
     (\<exists>a row. approval = Some a \<and> approval_covers action now (Some a) \<and>
        dget (approvals_tbl db) (ac_tenant_id action, ar_id a) = Some row \<and> a = request_of_row db (ac_tenant_id action) (ar_id a) row)"

lemma guard_request_allows:
  assumes px: "pool_contract px" and run: "guard_request px action_id data t db = (Inr (action, decision), db')" and allowed: "gd_allowed decision"
  shows "db' = db \<and> parse_action action_id data t = Inr action \<and>
    (\<exists>version now approval. guard_accepts api_guard action version now approval \<and> (L2 \<le> ac_risk action \<longrightarrow> approved_in db action now approval))"
proof -
  obtain approval where a: "parse_action action_id data t = Inr action" "named_approval px data t db = (Inr approval, db')"
    using run unfolding guard_request_def by (auto simp: rbind_eq_Inr split: sum.splits prod.splits)
  then obtain version now where e: "evaluate api_guard action version now approval = Inr decision"
    using run unfolding guard_request_def by (auto simp: rbind_eq_Inr)
  have accepts: "guard_accepts api_guard action version now approval"
    using e allowed evaluate_allowed_iff [THEN iffD1] by blast
  note found = named_approval_ok [OF px a(2)]
  have "approved_in db action now approval" if "L2 \<le> ac_risk action"
  proof -
    have covers: "approval_covers action now approval" using accepts that unfolding guard_accepts_def by (elim conjE mp)
    then obtain a where a': "approval = Some a" by (auto simp: approval_covers_def)
    show ?thesis unfolding approved_in_def parse_action_fields(2) [OF a(1)] using found covers unfolding a' by blast
  qed
  then show ?thesis using found a(1) accepts by blast
qed

lemma guard_request_keeps: "pool_contract px \<Longrightarrow> guard_request px action_id data t db = (r, db') \<Longrightarrow> db' = db"
  unfolding guard_request_def by (auto dest: named_approval_keeps split: sum.splits prod.splits)

section \<open>What leaves the process\<close>

lemma adapter_sends:
  assumes run: "execute_with_adapter env action w = (r, w')" and sent: "snd w' \<noteq> snd w"
  obtains request claims where "snd w' = snd w @ [request]" "starts_with ''https://'' (rq_base_url request)"
    and "dget (rq_headers request) ''Idempotency-Key'' = Some (ac_idempotency_key action)"
    and "release_gate_validate (ae_sha256 env) (ae_decode env) (ae_files env) (ae_settings env) = Inr claims"
proof -
  have target: "ac_target action \<noteq> ''simulator''"
    using run sent by (auto simp: execute_with_adapter_def split: if_splits prod.splits)
  obtain q requests where x: "execute_external (ae_sha256 env) (ae_decode env) (ae_post env) (ae_files env) (ae_settings env)
      (ac_target action) (ac_kind action) (ac_parameters action) (ac_idempotency_key action) = (q, requests)" by fastforce
  have w': "snd w' = snd w @ requests" using run target x by (auto simp: execute_with_adapter_def)
  with sent have "requests \<noteq> []" by auto
  from execute_external_sends [OF x this] obtain claims client release_id where
    c: "release_gate_validate (ae_sha256 env) (ae_decode env) (ae_files env) (ae_settings env) = Inr claims" "executor_client (ae_settings env) = Inr client"
      "requests = [client ''/v1/actions'' [(''Idempotency-Key'', ac_idempotency_key action), (''X-ComputeWeaver-Release'', py_str release_id)]
        [(''kind'', PStr (ac_kind action)), (''parameters'', PDict (ac_parameters action))]]" .
  show thesis
    by (rule that [OF w' [unfolded c(3)] executor_client_request [OF c(2)] c(1)])
qed

lemma execute_action_runs:
  assumes run: "execute_action env action_id data cx st = (r, st')"
  obtains (refused) e where "r = Inl e" "as_executions st' = as_executions st" "as_simulator st' = as_simulator st" "as_sent st' = as_sent st"
  | (guarded) action decision db where
      "guard_request (ae_approval_pool env) action_id data (cx_tenant_id cx) (as_approvals st) = (Inr (action, decision), db)" "gd_allowed decision"
      "execute_once_pg (ae_execution_pool env) (ae_serializable env) (intent_digest env) (ac_idempotency_key action)
         [(''action'', PStr (ac_id action)), (''parameters'', PDict (ac_parameters action))]
         (execute_with_adapter env action) (Some (cx_tenant_id cx)) (Some (ac_id action))
         (as_executions st, as_simulator st, as_sent st) = (r, as_executions st', as_simulator st', as_sent st')"
proof -
  obtain g db where g: "guard_request (ae_approval_pool env) action_id data (cx_tenant_id cx) (as_approvals st) = (g, db)" by fastforce
  show thesis
  proof (cases "\<exists>action decision. g = Inr (action, decision) \<and> gd_allowed decision")
    case True
    then obtain action decision where a: "g = Inr (action, decision)" "gd_allowed decision" by blast
    show thesis
      by (rule guarded [OF g [unfolded a(1)] a(2)]) (use run in \<open>auto simp: execute_action_def g a split: prod.splits\<close>)
  next
    case False
    then have "(\<exists>e. r = Inl e) \<and> as_executions st' = as_executions st \<and> as_simulator st' = as_simulator st \<and> as_sent st' = as_sent st"
      using run g by (auto simp: execute_action_def split: sum.splits prod.splits)
    then show thesis using refused by blast
  qed
qed

lemma execute_action_sends:
  assumes pools: "pool_contract (ae_approval_pool env)" "pool_contract (ae_execution_pool env)"
    and run: "execute_action env action_id data cx st = (r, st')" and sent: "as_sent st' \<noteq> as_sent st"
  obtains action version now approval request claims where "parse_action action_id data (cx_tenant_id cx) = Inr action"
    and "guard_accepts api_guard action version now approval" "L2 \<le> ac_risk action \<longrightarrow> approved_in (as_approvals st) action now approval"
    and "valid_tenant (cx_tenant_id cx)" "dget (action_cancellations (as_executions st)) (cx_tenant_id cx, action_id) = None"
    and "\<not> execution_settled (as_executions st) (cx_tenant_id cx) (ac_idempotency_key action)"
    and "as_sent st' = as_sent st @ [request]" "starts_with ''https://'' (rq_base_url request)"
    and "dget (rq_headers request) ''Idempotency-Key'' = Some (ac_idempotency_key action)"
    and "release_gate_validate (ae_sha256 env) (ae_decode env) (ae_files env) (ae_settings env) = Inr claims"
  using run
proof (cases rule: execute_action_runs)
  case refused
  then show thesis using sent by simp
next
  case (guarded action decision db)
  have "(as_simulator st', as_sent st') \<noteq> (as_simulator st, as_sent st)" using sent by simp
  note ran = execute_once_ran [OF pools(2) guarded(3) this]
  note allowed = guard_request_allows [OF pools(1) guarded(1,2)]
  obtain version now approval where g: "guard_accepts api_guard action version now approval"
      "L2 \<le> ac_risk action \<longrightarrow> approved_in (as_approvals st) action now approval"
    using allowed by blast
  have action: "parse_action action_id data (cx_tenant_id cx) = Inr action" using allowed by blast
  obtain q where x: "execute_with_adapter env action (as_simulator st, as_sent st) = (q, as_simulator st', as_sent st')"
    using ran by (metis prod.collapse)
  obtain request claims where "as_sent st' = as_sent st @ [request]" "starts_with ''https://'' (rq_base_url request)"
      "dget (rq_headers request) ''Idempotency-Key'' = Some (ac_idempotency_key action)"
      "release_gate_validate (ae_sha256 env) (ae_decode env) (ae_files env) (ae_settings env) = Inr claims"
    using adapter_sends [OF x] sent by (auto)
  then show thesis using that [OF action g] ran unfolding parse_action_fields(1) [OF action] by metis
qed

text \<open>
  Further: An action reaches the provider gateway only through all of the checks. If executing it sends a request,
  it sends one, over HTTPS and with the idempotency key of the action; the guard accepts the action; from
  risk L2 on an approval of the tenant's table covers it; it was not cancelled; no execution under its key
  has succeeded before; and the release gate is open.
\<close>
theorem external_action_guarded:
  assumes "pool_contract (ae_approval_pool env)" "pool_contract (ae_execution_pool env)"
    and "execute_action env action_id data cx st = (r, st')" "as_sent st' \<noteq> as_sent st"
  shows "\<exists>action version now approval request claims. parse_action action_id data (cx_tenant_id cx) = Inr action \<and>
    guard_accepts api_guard action version now approval \<and> (L2 \<le> ac_risk action \<longrightarrow> approved_in (as_approvals st) action now approval) \<and>
    dget (action_cancellations (as_executions st)) (cx_tenant_id cx, action_id) = None \<and>
    \<not> execution_settled (as_executions st) (cx_tenant_id cx) (ac_idempotency_key action) \<and>
    as_sent st' = as_sent st @ [request] \<and> starts_with ''https://'' (rq_base_url request) \<and>
    dget (rq_headers request) ''Idempotency-Key'' = Some (ac_idempotency_key action) \<and>
    release_gate_validate (ae_sha256 env) (ae_decode env) (ae_files env) (ae_settings env) = Inr claims"
proof (rule execute_action_sends [OF assms])
qed (intro exI conjI)

lemma run_actions_settled:
  assumes "pool_contract (ae_execution_pool env)" "execution_settled (as_executions st) t key"
  shows "execution_settled (as_executions (run_actions env cs st)) t key"
  using assms(2)
proof (induction cs arbitrary: st)
  case (Cons c cs)
  obtain action_id data cx where c: "c = (action_id, data, cx)" by (cases c)
  obtain r st' where run: "execute_action env action_id data cx st = (r, st')" by fastforce
  then have "execution_settled (as_executions st') t key"
    by (cases rule: execute_action_runs) (use Cons.prems execute_once_keeps_settled [OF assms(1)] in auto)
  from Cons.IH [OF this] show ?case by (simp add: c run)
qed simp

text \<open>
  C8: An action that was executed is not executed again. Once a call has returned a result, no later call of the
  tenant under the same idempotency key, after any executions in between, reaches the simulator or the
  provider gateway, whatever action, parameters and target it names.
\<close>
theorem executed_action_not_repeated:
  assumes pool: "pool_contract (ae_execution_pool env)"
    and first: "execute_action env action_id data cx st = (Inr result, st')" "parse_action action_id data (cx_tenant_id cx) = Inr action"
    and again: "execute_action env action_id' data' cx' (run_actions env cs st') = (r, st'')"
    and same: "parse_action action_id' data' (cx_tenant_id cx) = Inr action'" "cx_tenant_id cx' = cx_tenant_id cx"
      "ac_idempotency_key action' = ac_idempotency_key action"
  shows "as_sent st'' = as_sent (run_actions env cs st') \<and> as_simulator st'' = as_simulator (run_actions env cs st')"
proof -
  have "execution_settled (as_executions st') (cx_tenant_id cx) (ac_idempotency_key action)"
    using first(1)
  proof (cases rule: execute_action_runs)
    case (guarded a decision db)
    have "a = action" using guarded(1) first(2) by (auto simp: guard_request_def rbind_eq_Inr split: sum.splits prod.splits)
    then show ?thesis using execute_once_settles [OF pool guarded(3)] by simp
  qed simp
  then have execution_settled: "execution_settled (as_executions (run_actions env cs st')) (cx_tenant_id cx) (ac_idempotency_key action)"
    by (rule run_actions_settled [OF pool])
  show ?thesis using again
  proof (cases rule: execute_action_runs)
    case (guarded a decision db)
    have "a = action'" using guarded(1) same(1,2) by (auto simp: guard_request_def rbind_eq_Inr split: sum.splits prod.splits)
    then show ?thesis using execute_once_ran [OF pool guarded(3)] execution_settled same(2,3) by auto
  qed simp
qed

section \<open>The approvals behind an action\<close>

lemma execute_path_roles: "allowed_roles method (execute_path action_id) = {''admin'', ''operator'', ''executor''}"
  by (simp add: allowed_roles_def execute_path_def starts_with_def ends_with_def)

lemma approved_in_store:
  assumes approved: "approved_in db action now approval" and sim: "approval_sim (ac_tenant_id action) st db" and reach: "approval_step\<^sup>*\<^sup>* [] st"
  shows "\<exists>a. dget st (ar_id a) = Some a \<and> ar_plan_id a = ac_plan_id action \<and> ar_status a = Approved \<and>
    (\<exists>(approver, role) \<in> set (ar_approvals a). approver \<noteq> ar_requested_by a \<and> role \<in> ar_required_roles a) \<and>
    (L3 \<le> ar_risk a \<longrightarrow> 2 \<le> card (fst ` set (ar_approvals a) - {ar_requested_by a}))"
proof -
  obtain b row where b: "approval_covers action now (Some b)" "dget (approvals_tbl db) (ac_tenant_id action, ar_id b) = Some row"
      "b = request_of_row db (ac_tenant_id action) (ar_id b) row"
    using approved unfolding approved_in_def by blast
  have "abs_db db (ac_tenant_id action) (ar_id b) = Some b" using b(2,3) by (simp add: abs_db_def)
  moreover have "rel_option same_votes (dget st (ar_id b)) (abs_db db (ac_tenant_id action) (ar_id b))" using sim by (simp add: approval_sim_def)
  ultimately obtain a where a: "dget st (ar_id b) = Some a" "same_votes a b" by (auto simp: option_rel_Some2)
  note same = same_votes_fields [OF a(2)]
  have wf: "wf_request a" by (rule wf_store_lookup [OF workflow.inv_reachable [OF reach] a(1), THEN conjunct2])
  have status: "ar_status a = Approved" "ar_plan_id a = ac_plan_id action" using b(1) same by (simp_all add: approval_covers_def)
  show ?thesis using a(1) same(1) status approved_by_others [OF wf status(1)] by (intro exI [of _ a]) simp
qed

section \<open>Example\<close>

definition example_env :: action_env where
  "example_env =
     \<lparr>ae_sha256 = (\<lambda>_. sample_digest), ae_decode = (\<lambda>_ _. Inr example_claims), ae_post = (\<lambda>_. Inr (PDict [(''status'', PStr ''accepted'')])),
      ae_files = sample_registry, ae_settings = example_settings, ae_serializable = id, ae_approval_pool = commit_or_rollback,
      ae_execution_pool = commit_or_rollback\<rparr>"

definition example_approvals :: approval_db where
  \<comment> \<open>bob and carol have approved the request of alice\<close>
  "example_approvals =
     \<lparr>approvals_tbl = [((''t1'', ''a1''),
        \<lparr>row_plan_id = ''p1'', row_risk = L3, row_requested_by = ''alice'', row_expires_at = 100, row_required_roles = {''operator''},
         row_required_count = 2, row_status = Approved, row_version = 3\<rparr>)],
      votes_tbl = [\<lparr>v_tenant_id = ''t1'', v_approval_id = ''a1'', v_actor_id = ''bob'', v_role = ''operator'', v_decision = ''approved'', v_decided_at = 10\<rparr>,
        \<lparr>v_tenant_id = ''t1'', v_approval_id = ''a1'', v_actor_id = ''carol'', v_role = ''operator'', v_decision = ''approved'', v_decided_at = 20\<rparr>]\<rparr>"

definition example_state :: action_state where
  "example_state = \<lparr>as_approvals = example_approvals, as_executions = \<lparr>action_executions = [], action_cancellations = []\<rparr>,
     as_simulator = [], as_sent = []\<rparr>"

definition example_stamp :: string where
  "example_stamp = isoformat (CHR ''T'') (Aware 0)"

lemma example_stamp_read: "fromisoformat example_stamp = Inr (Aware 0)"
  unfolding example_stamp_def by (rule fromisoformat_isoformat [OF representable_1970(1)])

definition example_data :: json_object where
  "example_data =
     [(''plan_id'', PStr ''p1''), (''target'', PStr ''gateway''), (''kind'', PStr ''schedule_job''), (''expected_state_version'', PStr ''v1''),
      (''parameters'', PDict []), (''idempotency_key'', PStr ''key-0001''), (''risk'', PInt 3),
      (''created_at'', PStr example_stamp), (''approval_id'', PStr ''a1''), (''current_state_version'', PStr ''v1''),
      (''now'', PStr example_stamp)]"

definition example_action :: action where
  "example_action = (action_example L3)\<lparr>ac_target := ''gateway'', ac_parameters := [], ac_bounds := []\<rparr>"

lemma example_action_parsed: "parse_action ''act-1'' example_data ''t1'' = Inr example_action"
  by (simp add: parse_action_def example_data_def py_item_def py_dict_def dget_or_def risk_of_int_def example_stamp_read
      example_action_def action_example_def get_value_def)

lemma example_approval_stored:
  "dget (approvals_tbl example_approvals) (t, rid) = (if (t, rid) = (''t1'', ''a1'') then Some (snd (hd (approvals_tbl example_approvals))) else None)"
  "request_of_row example_approvals ''t1'' ''a1'' (snd (hd (approvals_tbl example_approvals))) = request_example_approved"
  by (auto simp: example_approvals_def request_of_row_def votes_of_def request_example_approved_def request_example_def)

lemma example_guarded:
  "guard_request commit_or_rollback ''act-1'' example_data ''t1'' example_approvals =
     (Inr (example_action, \<lparr>gd_allowed = True, gd_reasons = []\<rparr>), example_approvals)"
proof -
  have "valid_tenant ''t1''" by (simp add: valid_tenant_def)
  then have "named_approval commit_or_rollback example_data ''t1'' example_approvals = (Inr (Some request_example_approved), example_approvals)"
    by (simp add: named_approval_def get_pg_eq example_approval_stored example_data_def get_value_def dget_or_def)
  moreover have "evaluate api_guard example_action ''v1'' (Aware 0) (Some request_example_approved) = Inr \<lparr>gd_allowed = True, gd_reasons = []\<rparr>"
    by (simp add: evaluate_def check_bounds_def check_approval_def example_action_def action_example_def api_guard_def PROHIBITED_ENERGY_COMMANDS_def
        default_max_age_def seconds_def request_example_approved_def request_example_def)
  moreover have "py_item example_data ''current_state_version'' = Inr (PStr ''v1'')" "py_item example_data ''now'' = Inr (PStr example_stamp)"
    by (simp_all add: example_data_def py_item_def)
  ultimately show ?thesis
    by (simp add: guard_request_def example_action_parsed example_stamp_read)
qed

lemma example_executed:
  assumes "cx_tenant_id cx = ''t1''"
  shows "\<exists>request st'. execute_action example_env ''act-1'' example_data cx example_state = (Inr (Some [(''status'', PStr ''accepted'')]), st') \<and>
    as_sent st' = [request]"
proof -
  obtain request where x: "execute_external (\<lambda>_. sample_digest) (\<lambda>_ _. Inr example_claims) (\<lambda>_. Inr (PDict [(''status'', PStr ''accepted'')]))
     sample_registry example_settings ''gateway'' (ac_kind example_action) (ac_parameters example_action) (ac_idempotency_key example_action) =
       (Inr [(''status'', PStr ''accepted'')], [request])"
    using example_external by blast
  have target: "ac_target example_action = ''gateway''" "ac_id example_action = ''act-1''"
    by (simp_all add: example_action_def action_example_def)
  have run: "execute_with_adapter example_env example_action w = (Inr [(''status'', PStr ''accepted'')], fst w, snd w @ [request])" for w
    by (simp add: execute_with_adapter_def target example_env_def x)
  have t: "valid_tenant ''t1''" by (simp add: valid_tenant_def)
  have env: "ae_approval_pool example_env = commit_or_rollback" "ae_execution_pool example_env = commit_or_rollback" "as_approvals example_state = example_approvals"
    by (simp_all add: example_env_def example_state_def)
  show ?thesis
    unfolding execute_action_def assms env example_guarded
    by (simp add: execute_once_pg_def target tenant_connection_eq [OF _ t] begin_pg_body_def run example_state_def succeed_pg_def update_execution_def)
qed

theorem external_action_guarded_witness:
  "\<exists>action version now approval. parse_action ''act-1'' example_data ''t1'' = Inr action \<and> guard_accepts api_guard action version now approval \<and>
     approved_in example_approvals action now approval"
proof -
  have cx: "cx_tenant_id sample_context = ''t1''" by (simp add: sample_context_def)
  obtain request st' where run: "execute_action example_env ''act-1'' example_data sample_context example_state = (Inr (Some [(''status'', PStr ''accepted'')]), st')"
      "as_sent st' = [request]"
    using example_executed [OF cx] by blast
  have "pool_contract (ae_approval_pool example_env)" "pool_contract (ae_execution_pool example_env)" "as_sent st' \<noteq> as_sent example_state"
    "as_approvals example_state = example_approvals" "ac_risk example_action = L3"
    by (simp_all add: example_env_def run(2) example_state_def example_action_def action_example_def)
  note s = this
  from external_action_guarded [OF s(1,2) run(1) s(3)] example_action_parsed s(4,5)
  obtain version now approval where "guard_accepts api_guard example_action version now approval"
      "L2 \<le> L3 \<longrightarrow> approved_in example_approvals example_action now approval"
    unfolding cx by (metis sum.inject(2))
  then show ?thesis using example_action_parsed by (intro exI conjI) auto
qed

theorem executed_action_not_repeated_witness:
  "\<exists>st' r st''. execute_action example_env ''act-1'' example_data sample_context example_state = (Inr (Some [(''status'', PStr ''accepted'')]), st') \<and>
     execute_action example_env ''act-1'' example_data sample_context st' = (r, st'') \<and> as_sent st'' = as_sent st'"
proof -
  have cx: "cx_tenant_id sample_context = ''t1''" by (simp add: sample_context_def)
  obtain st' where run: "execute_action example_env ''act-1'' example_data sample_context example_state = (Inr (Some [(''status'', PStr ''accepted'')]), st')"
    using example_executed [OF cx] by blast
  obtain r st'' where again: "execute_action example_env ''act-1'' example_data sample_context (run_actions example_env [] st') = (r, st'')" by fastforce
  have px: "pool_contract (ae_execution_pool example_env)" by (simp add: example_env_def)
  note parsed = example_action_parsed [folded cx]
  from executed_action_not_repeated [OF px run parsed again parsed refl refl] again
  show ?thesis using run by simp
qed

end
