(* ===== verification/Spec2Isabelle.thy ===== *)
theory Spec2Isabelle
  imports Prelude Persistence Decimal_Arith Values Datetimes Domain Approvals Execution Idempotency Workloads Quota Compute Admission Plans Policy Scheduling Optimization Topology Topology_Registry
  Audit_Log Job_Queue Resource_Store Serialization Mpc Mpc_Repository
  Energy Tariffs Governance Insight Forecasting Model_Registry
  Json Json_Reader Evidence Certification Certification_Repository Settings Release_Gate Iam Action_Api
begin

text \<open>
  ComputeWeaver is a control plane that schedules compute jobs against energy prices and capacities. This
  library models its control path in Python: from a request at the API, over approvals, plans and policies,
  to the schedulers, the rolling-horizon controller, the job queue and the executor that talks to a provider.

  \<^bold>\<open>Conventions.\<close> A Python exception is a value of \<open>py_error\<close>, a fallible call returns \<open>py_error + 'a\<close> and a
  method with state returns its result together with the new state. A dict is an association list in insertion
  order, a dataclass a record, an enumeration a datatype; integers are unbounded as in Python; a \<open>Decimal\<close> is a
  rational whose operations round to the digits of its context; a float is its text, or a rational rounded
  to 53 bits where it is computed with. An instant is a number of microseconds, an aware or naive \<open>datetime\<close>
  a datatype over it; an aware one counts as being in UTC, so its arithmetic is that of instants (wall-clock arithmetic
  of a zone with daylight saving time is not modelled). Where a sum of a datetime and a time span can leave the
  years 1 to 9999, in \<open>Domain\<close>, \<open>Forecasting\<close>, \<open>Admission\<close> and \<open>Tariffs\<close>, the model raises as Python does; the 30 days of a
  certificate are added without that check. Files are a map from paths to text. Every component that exists in memory and on PostgreSQL
  is modelled twice; a \<open>with\<close> block around a connection is one atomic step that commits or rolls back.

  \<^bold>\<open>Foundations.\<close> \<open>Prelude\<close> (results, dicts, datetimes, the locale \<open>safe_system\<close> of invariants of step
  relations), \<open>Decimal_Arith\<close>, \<open>Values\<close> (JSON values with Python's equality, order, \<open>str\<close>, \<open>int\<close>), \<open>Datetimes\<close>
  (ISO 8601 text and back), \<open>Json\<close> and \<open>Json_Reader\<close> (\<open>json.dumps\<close> and \<open>json.loads\<close>, and that reading gives back what was
  written), \<open>Domain\<close> (\<open>packages/domain\<close>) and \<open>Persistence\<close> (\<open>packages/persistence/postgres.py\<close>: the transaction bracket
  and the migrations).

  \<^bold>\<open>Governing actions.\<close>
  \<^item> \<open>Approvals\<close>, \<open>packages/approval\<close> and \<open>packages/risk\<close>: requests, votes and their quorum. Nobody approves an own
    request, settled requests stay settled, and the workflow on PostgreSQL refines the one in memory.
  \<^item> \<open>Execution\<close>, \<open>packages/execution\<close>: the action guard, exactly as its conditions read, compensated transactions,
    executors and adapters. \<open>Idempotency\<close>, \<open>packages/execution/idempotency.py\<close> and \<open>packages/persistence/operations.py\<close>:
    what runs once, also when calls overlap, processes crash and operations raise after their effect (locale \<open>once_store\<close>,
    relation \<open>exec_step\<close>).
  \<^item> \<open>Settings\<close> (\<open>config/settings.py\<close>), \<open>Release_Gate\<close> (\<open>packages/execution/external.py\<close>) and \<open>Iam\<close> (\<open>packages/iam\<close> and
    \<open>read_context\<close> of \<open>apps/api/main.py\<close>): what a production configuration guarantees, when a request may leave for the
    provider, and whom a request to the API stands for.
  \<^item> \<open>Action_Api\<close>, the action routes of \<open>apps/api/main.py\<close>, composes them; \<open>external_action_four_eyes\<close> below is about the
    whole path from HTTP to the provider.

  \<^bold>\<open>Certifying releases.\<close> \<open>Evidence\<close>, \<open>Certification\<close> and \<open>Certification_Repository\<close> are \<open>evidence.py\<close>, the certificates of
  \<open>service.py\<close>, \<open>signing.py\<close> and \<open>lifecycle.py\<close> of \<open>packages/certification\<close>: which gates make a certificate, that certificates
  and events read back and verify, that they never change, and that every revocation is in the registry.
  \<open>revocation_closes_gate\<close> below connects the registry with the release gate.

  \<^bold>\<open>Work and plans.\<close> \<open>Workloads\<close>, \<open>Quota\<close>, \<open>Compute\<close> and \<open>Admission\<close> (jobs, their dependency graph, accounting, inventory),
  \<open>Plans\<close>, \<open>Policy\<close> (life cycle and policy engine), \<open>Scheduling\<close> and \<open>Serialization\<close> (list schedulers, the plan validator, JSON
  documents), \<open>Optimization\<close> (the exact search, equal to the cheapest feasible assignment, and the HiGHS back end),
  \<open>Mpc\<close> and \<open>Mpc_Repository\<close> (the controller and its store; a slot is dispatched once over all later calls, relation
  \<open>repository_call\<close>), \<open>Forecasting\<close> and \<open>Model_Registry\<close>, \<open>Insight\<close> (explanations, what-if,
  migration).

  \<^bold>\<open>Keeping state.\<close> \<open>Resource_Store\<close> (\<open>apps/api/store.py\<close>; locale \<open>versioned\<close>), \<open>Audit_Log\<close> (the hash chain), \<open>Job_Queue\<close>
  (leases, which hold over the steps \<open>others_step\<close> of everybody else, retries and the worker), \<open>Topology\<close> and \<open>Topology_Registry\<close> (asset graphs with Kahn's algorithm and their
  published versions).

  \<^bold>\<open>Energy and money.\<close> \<open>Energy\<close>, \<open>Tariffs\<close> and \<open>Governance\<close>: batteries and power balance, degraded operation, prices,
  calendars, chargeback, budgets, configuration, notifications, reports, events and backups.

  \<^bold>\<open>Recursion.\<close> Loops are structural or have a measure, with one exception: the readers of \<open>Json_Reader\<close> get as fuel one
  more than the length of the text; every call reads at least one character, and \<open>json_loads_text\<close> shows that the fuel is
  enough for every text that was written. The search for a business day in \<open>Tariffs\<close> takes 370 rounds because the code does.

  \<^bold>\<open>Parameters.\<close> SHA-256, PyJWT, httpx, psycopg's pool, HiGHS, clocks, UUIDs, the time zone database and the text of a
  decimal are arguments. What is assumed of them is named where it is used: \<open>pool_contract\<close> (a connection commits on
  success and rolls back on an exception), \<open>digest_ok\<close> (a digest is 64 characters without white space), \<open>serves\<close> (the
  key URL gives keys of the provider), \<open>jsonb_contract\<close> (what a stored document keeps; the rule of a policy is a value that
  comes back as it is). Integer columns are not limited to their width. No theorem assumes that a digest is injective; a collision is an alternative in
  the conclusion.

  \<^bold>\<open>Not modelled.\<close> The collection of evidence (\<open>attestations.py\<close>, \<open>images.py\<close>, \<open>suite.py\<close> and the evaluation functions of
  \<open>service.py\<close>), connectors, object store, telemetry, the restore rehearsal, scripts and command lines are calls of other
  programs and services. The web console is browser code. Ingestion, time series, simulation and scenarios feed test
  benches and dashboards and nothing that is modelled reads them. The remaining routes of \<open>apps/api/main.py\<close> forward to the
  components above. Threads are left out where a lock makes a method one step; row-level security and the checks of
  FastAPI and pydantic are not part of the sources.
\<close>

section \<open>A revoked release does not act\<close>

text \<open>
  C2: Revoking a release closes the gate for good. On a volume that only the certification repository has
  written, once a revocation has succeeded and after any further operations of the repository, an executor
  that reads the registry of this repository and runs with a token of the revoked certificate refuses every
  action, before any request is sent.
\<close>
theorem revocation_closes_gate:
  assumes "digest_ok sha256" and "fresh_volume base fs\<^sub>0" and "(certification_step sha256 decode python base)\<^sup>*\<^sup>* fs\<^sub>0 fs"
    and "revoke sha256 python base now release_id actor_id reason fs = (Inr d, fs')" and "representable (Aware now)"
    and "(certification_step sha256 decode python base)\<^sup>*\<^sup>* fs' fs''"
    and "optional_path (st_release_revocations_file s) = registry_path base"
    and token: "\<And>token key claims. st_release_certificate s = Some token \<Longrightarrow> decode token key = Inr claims \<Longrightarrow>
      py_eq (get_value d ''certificate_hash'') (get_value claims ''certificate_hash'')"
  shows "\<exists>e. execute_external sha256 decode post fs'' s target kind parameters idempotency_key = (Inl e, [])"
proof -
  obtain reg entries where "verify_evidence sha256 fs'' (registry_path base) = (True, None)"
      "read_json fs'' (registry_path base) = Inr (PDict reg)" "dget reg ''revocations'' = Some (PList entries)" "PDict d \<in> set entries"
    by (rule revoked_stays_registered [OF assms(1-6)])
  then show ?thesis by (rule revoked_release_stopped [OF _ _ _ _ assms(7) token])
qed

lemma sample_release_revoked:
  obtains fs d fs' where
    "(certification_step (\<lambda>_. sample_digest) (\<lambda>_ _. Inr example_claims) ''3.12'' [''evidence''])\<^sup>*\<^sup>* example_files fs"
    and "revoke (\<lambda>_. sample_digest) ''3.12'' [''evidence''] 0 ''r1'' ''alice'' ''leaked'' fs = (Inr d, fs')"
    and "get_value d ''certificate_hash'' = PStr sample_digest"
proof -
  let ?sha = "\<lambda>_ :: string. sample_digest" and ?decode = "\<lambda>_ _ :: string. Inr example_claims"
  obtain r where r: "example_certificate (Some ''token'') = Inr r" "cr_status r = ''CERTIFIED''" "certificate_values r"
      "token_for ?sha r example_claims" "cr_certificate_hash r = sample_digest"
    by (rule example_lifecycle)
  have "\<exists>run fs\<^sub>1 published fs\<^sub>2 d fs\<^sub>3. save_run ?sha ''3.12'' [''evidence''] 0 r ''alice'' example_files = (Inr run, fs\<^sub>1) \<and>
    publish_release ?sha ?decode ''3.12'' [''evidence''] 0 r ''alice'' [''key.pem''] fs\<^sub>1 = (Inr published, fs\<^sub>2) \<and>
    get_certificate ?sha [''evidence''] ''r1'' fs\<^sub>2 = Inr (certificate_sorted r) \<and>
    revoke ?sha ''3.12'' [''evidence''] 0 ''r1'' ''alice'' ''leaked'' fs\<^sub>2 = (Inr d, fs\<^sub>3) \<and>
    dget d ''certificate_hash'' = Some (PStr (cr_certificate_hash r))"
    by (rule lifecycle_runs [where decode = ?decode and claims = example_claims,
        OF example_setting(1,2) r(1) [unfolded example_certificate_def] r(2) example_setting(6) r(3) _ _ example_setting(3) _ example_setting(7) refl r(4)
          example_setting(4,5)]) simp_all
  then obtain run fs\<^sub>1 published fs\<^sub>2 d fs\<^sub>3 where life: "save_run ?sha ''3.12'' [''evidence''] 0 r ''alice'' example_files = (Inr run, fs\<^sub>1)"
      "publish_release ?sha ?decode ''3.12'' [''evidence''] 0 r ''alice'' [''key.pem''] fs\<^sub>1 = (Inr published, fs\<^sub>2)"
      "revoke ?sha ''3.12'' [''evidence''] 0 ''r1'' ''alice'' ''leaked'' fs\<^sub>2 = (Inr d, fs\<^sub>3)"
      "dget d ''certificate_hash'' = Some (PStr (cr_certificate_hash r))"
    by (elim exE conjE) (rule that)
  have "certification_step ?sha ?decode ''3.12'' [''evidence''] example_files fs\<^sub>1" by (rule certification_step.save [OF life(1) r(3)])
  moreover have "certification_step ?sha ?decode ''3.12'' [''evidence''] fs\<^sub>1 fs\<^sub>2" by (rule certification_step.publish [OF life(2) r(3) example_setting(4)])
  ultimately have "(certification_step ?sha ?decode ''3.12'' [''evidence''])\<^sup>*\<^sup>* example_files fs\<^sub>2"
    by (rule rtranclp.rtrancl_into_rtrancl [OF r_into_rtranclp])
  then show thesis by (rule that [OF _ life(3)]) (simp add: get_value_def dget_or_def life(4) r(5))
qed

theorem revocation_closes_gate_witness:
  "\<exists>fs d fs' e. revoke (\<lambda>_. sample_digest) ''3.12'' [''evidence''] 0 ''r1'' ''alice'' ''leaked'' fs = (Inr d, fs') \<and>
     execute_external (\<lambda>_. sample_digest) (\<lambda>_ _. Inr example_claims) (\<lambda>_. Inr PNone) fs' example_settings ''gateway'' ''schedule_job'' [] ''k1'' = (Inl e, [])"
proof -
  obtain fs d fs' where run: "(certification_step (\<lambda>_. sample_digest) (\<lambda>_ _. Inr example_claims) ''3.12'' [''evidence''])\<^sup>*\<^sup>* example_files fs"
      "revoke (\<lambda>_. sample_digest) ''3.12'' [''evidence''] 0 ''r1'' ''alice'' ''leaked'' fs = (Inr d, fs')" "get_value d ''certificate_hash'' = PStr sample_digest"
    by (rule sample_release_revoked)
  have "get_value example_claims ''certificate_hash'' = PStr sample_digest" by (simp add: example_claims_def get_value_def dget_or_def)
  then have token: "py_eq (get_value d ''certificate_hash'') (get_value example_claims ''certificate_hash'')"
    using run(3) by (simp add: py_eq_def)
  have "optional_path (st_release_revocations_file example_settings) = registry_path [''evidence'']"
    by (simp add: example_settings_paths registry_path_def)
  then have "\<exists>e. execute_external (\<lambda>_. sample_digest) (\<lambda>_ _. Inr example_claims) (\<lambda>_. Inr PNone) fs' example_settings ''gateway'' ''schedule_job'' [] ''k1'' = (Inl e, [])"
    by (rule revocation_closes_gate [OF example_setting(1,2) run(1,2) example_setting(4) rtranclp.rtrancl_refl]) (use token in simp)
  with run(2) show ?thesis by blast
qed

section \<open>An action that leaves the process\<close>

text \<open>
  C1: From a request over HTTP to the provider gateway. Behind OIDC, with the approvals of each tenant in
  PostgreSQL as the approval workflow left them, a call of the execution route sends a request to the gateway
  only for an identity that a token of the provider proves (for a service account together with the client certificate
  of the connection, or one that a proxy with the configured secret forwards), with a role that may execute, for an
  action of its tenant; from risk L2 on, a request for approval of the same plan was approved by somebody other than its
  requester in one of the required roles, by two of them from risk L3 of the request on; and the release gate
  is open.
\<close>
theorem external_action_four_eyes:
  assumes pools: "pool_contract (ae_approval_pool env)" "pool_contract (ae_execution_pool env)"
    and oidc: "trusted_authenticator genuine lib au" "st_auth_mode (au_settings au) = ''oidc''"
    and store: "\<And>t. approval_step\<^sup>*\<^sup>* [] (store t)" "\<And>t. approval_sim t (store t) (as_approvals st)"
    and run: "serve_execute env lib now monotonic uuid q action_id data idempotency_key (au, st) = (r, au', st')" "as_sent st' \<noteq> as_sent st"
  shows "\<exists>identity peer action claims. verified_identity genuine lib (au_settings au) (hr_authorization q) peer identity \<and>
    shown_certificate (au_settings au) q peer \<and> id_roles identity \<inter> {''admin'', ''operator'', ''executor''} \<noteq> {} \<and>
    parse_action action_id data (id_tenant_id identity) = Inr action \<and>
    release_gate_validate (ae_sha256 env) (ae_decode env) (ae_files env) (ae_settings env) = Inr claims \<and>
    (L2 \<le> ac_risk action \<longrightarrow> (\<exists>a. dget (store (id_tenant_id identity)) (ar_id a) = Some a \<and> ar_plan_id a = ac_plan_id action \<and> ar_status a = Approved \<and>
       (\<exists>(approver, role) \<in> set (ar_approvals a). approver \<noteq> ar_requested_by a \<and> role \<in> ar_required_roles a) \<and>
       (L3 \<le> ar_risk a \<longrightarrow> 2 \<le> card (fst ` set (ar_approvals a) - {ar_requested_by a}))))"
proof -
  let ?q = "q\<lparr>hr_method := ''POST'', hr_path := execute_path action_id\<rparr>"
  obtain c au1 where read: "read_context lib now monotonic uuid ?q au = (c, au1)" by fastforce
  obtain cx where c: "c = Inr cx" using run read by (cases c) (auto simp: serve_execute_def)
  have exec: "execute_action env action_id data (write_context cx idempotency_key None) st = (r, st')"
    using run(1) read c by (auto simp: serve_execute_def split: prod.splits)
  have tenant: "cx_tenant_id (write_context cx idempotency_key None) = cx_tenant_id cx" by (simp add: write_context_def)
  from read_context_verified [OF oidc read, THEN conjunct2, rule_format, OF c]
  obtain identity peer where id: "verified_identity genuine lib (au_settings au) (hr_authorization ?q) peer identity"
      "cx_tenant_id cx = id_tenant_id identity" "cx_roles cx = id_roles identity" "cx_roles cx \<inter> allowed_roles (hr_method ?q) (hr_path ?q) \<noteq> {}"
      and shown: "shown_certificate (au_settings au) ?q peer"
    by (elim exE conjE)
  have roles: "allowed_roles (hr_method ?q) (hr_path ?q) = {''admin'', ''operator'', ''executor''}" by (simp add: execute_path_roles)
  obtain action version moment approval request claims where action: "parse_action action_id data (cx_tenant_id cx) = Inr action"
      "guard_accepts api_guard action version moment approval" "L2 \<le> ac_risk action \<longrightarrow> approved_in (as_approvals st) action moment approval"
      "valid_tenant (cx_tenant_id cx)" "dget (action_cancellations (as_executions st)) (cx_tenant_id cx, action_id) = None"
      "\<not> execution_settled (as_executions st) (cx_tenant_id cx) (ac_idempotency_key action)"
      "as_sent st' = as_sent st @ [request]" "starts_with ''https://'' (rq_base_url request)"
      "dget (rq_headers request) ''Idempotency-Key'' = Some (ac_idempotency_key action)"
      "release_gate_validate (ae_sha256 env) (ae_decode env) (ae_files env) (ae_settings env) = Inr claims"
    by (rule execute_action_sends [OF pools exec run(2), unfolded tenant])
  have own: "ac_tenant_id action = id_tenant_id identity" using parse_action_fields(2) [OF action(1)] id(2) by simp
  have "\<exists>a. dget (store (id_tenant_id identity)) (ar_id a) = Some a \<and> ar_plan_id a = ac_plan_id action \<and> ar_status a = Approved \<and>
       (\<exists>(approver, role) \<in> set (ar_approvals a). approver \<noteq> ar_requested_by a \<and> role \<in> ar_required_roles a) \<and>
       (L3 \<le> ar_risk a \<longrightarrow> 2 \<le> card (fst ` set (ar_approvals a) - {ar_requested_by a}))" if "L2 \<le> ac_risk action"
    by (rule approved_in_store [OF action(3) [rule_format, OF that], unfolded own, OF store(2) store(1)])
  then show ?thesis using id shown [unfolded shown_certificate_def] action(1,10) roles unfolding shown_certificate_def by (intro exI [of _ identity] exI [of _ peer] exI [of _ action] exI [of _ claims]) simp
qed

lemma sample_store_simulated:
  "approval_sim t (if t = ''t1'' then [(''a1'', request_example_approved)] else []) example_approvals"
proof -
  have "same_votes request_example_approved request_example_approved" by (simp add: same_votes_def)
  then have "rel_option same_votes (dget (if t = ''t1'' then [(''a1'', request_example_approved)] else []) rid) (abs_db example_approvals t rid)" for rid
    by (simp add: abs_db_def example_approval_stored)
  moreover have "v_decision v = ''approved'' \<and> v_tenant_id v = ''t1'' \<and> v_approval_id v = ''a1''" if "v \<in> set (votes_tbl example_approvals)" for v
    using that by (auto simp: example_approvals_def)
  ultimately show ?thesis
    unfolding approval_sim_def by (simp add: example_approval_stored)
qed

theorem external_action_four_eyes_witness:
  "\<exists>identity peer. verified_identity (\<lambda>raw. dget raw ''kid'' = Some (PStr ''k1'')) example_library example_settings (Some ''Bearer a.b.c'') peer identity \<and>
     id_roles identity \<inter> {''admin'', ''operator'', ''executor''} \<noteq> {}"
proof -
  let ?q = "sample_request (execute_path ''act-1'')"
  let ?store = "\<lambda>t :: string. if t = ''t1'' then [(''a1'', request_example_approved)] else []"
  have store: "approval_step\<^sup>*\<^sup>* [] (?store t)" for t using request_example_reachable by simp
  have q: "?q\<lparr>hr_method := ''POST'', hr_path := execute_path ''act-1''\<rparr> = ?q" "hr_authorization ?q = Some ''Bearer a.b.c''"
    by (simp_all add: sample_request_def)
  have "''operator'' \<in> allowed_roles ''POST'' (execute_path ''act-1'')" by (simp add: execute_path_roles)
  from sample_context_read [OF this] obtain au1 where read: "read_context example_library 0 0 ''u1'' ?q example_authenticator = (Inr sample_context, au1)"
    by (metis fst_conv surj_pair)
  have "cx_tenant_id (write_context sample_context ''key-0002'' None) = ''t1''" by (simp add: write_context_def sample_context_def)
  from example_executed [OF this] obtain request st' where
    exec: "execute_action example_env ''act-1'' example_data (write_context sample_context ''key-0002'' None) example_state = (Inr (Some [(''status'', PStr ''accepted'')]), st')"
      "as_sent st' = [request]" by blast
  have run: "serve_execute example_env example_library 0 0 ''u1'' ?q ''act-1'' example_data ''key-0002'' (example_authenticator, example_state) =
      (Inr (Some [(''status'', PStr ''accepted'')]), au1, st')"
    by (simp add: serve_execute_def q read exec)
  have s: "pool_contract (ae_approval_pool example_env)" "pool_contract (ae_execution_pool example_env)" "as_sent st' \<noteq> as_sent example_state"
    "as_approvals example_state = example_approvals" "st_auth_mode (au_settings example_authenticator) = ''oidc''"
    "au_settings example_authenticator = example_settings"
    by (simp_all add: example_env_def exec(2) example_state_def example_authenticator_def)
  have sim: "approval_sim t (?store t) (as_approvals example_state)" for t using sample_store_simulated s(4) by simp
  from external_action_four_eyes [where store = ?store, OF s(1,2) example_authenticator_trusted(2) s(5) store sim run s(3)]
  obtain identity peer where "verified_identity (\<lambda>raw. dget raw ''kid'' = Some (PStr ''k1'')) example_library (au_settings example_authenticator)
      (hr_authorization ?q) peer identity" "id_roles identity \<inter> {''admin'', ''operator'', ''executor''} \<noteq> {}"
    by (elim exE conjE)
  then show ?thesis unfolding q(2) s(6) by (intro exI conjI)
qed

end
